(* ===== verification/Prelude.thy ===== *)
theory Prelude
  imports
    "HOL-Library.Word"
    "HOL-Library.Multiset"
    "HOL-Library.Char_ord"
    "HOL-Library.List_Lexorder"
begin

text \<open>
  Shared vocabulary of the development: byte strings, the result type of Go calls
  (a value, an error, or a panic), byte-string helpers of the Go standard library
  (\<open>bytes.Join\<close>, \<open>bytes.Split\<close>, big-endian encoding, decimal rendering) and the generic
  lemmas on them that the components use.
\<close>

section \<open>Collections\<close>

named_theorems key_simps \<open>injectivity and separation of storage keys\<close>
named_theorems op_simps \<open>unfolding of keeper operations\<close>

section \<open>Results of Go calls\<close>

type_synonym bytes = string

text \<open>A Go call returns a value, returns an error, or panics.\<close>

datatype ('e, 'a) res = Ok 'a | Err 'e | Panic

fun bind_res :: "('e, 'a) res \<Rightarrow> ('a \<Rightarrow> ('e, 'b) res) \<Rightarrow> ('e, 'b) res" where
  "bind_res (Ok x) f = f x"
| "bind_res (Err e) f = Err e"
| "bind_res Panic f = Panic"

fun is_ok :: "('e, 'a) res \<Rightarrow> bool" where
  "is_ok (Ok x) = True"
| "is_ok (Err e) = False"
| "is_ok Panic = False"

text \<open>A partial library operation (\<open>None\<close> is a panic of the library) lifted to a result.\<close>

fun from_opt :: "'a option \<Rightarrow> ('e, 'a) res" where
  "from_opt (Some x) = Ok x"
| "from_opt None = Panic"

text \<open>
  A keeper operation maps the state to its outcome and the state it leaves behind. On an error the
  writes made before it are kept, as in Go: it is the caller (the cached context of the
  message handler) that discards them.
\<close>

type_synonym ('s, 'e, 'a) op = "'s \<Rightarrow> ('e, 'a) res \<times> 's"

text \<open>\<open>atomically m\<close> is a message run on a cached context: written back only on success.\<close>

definition atomically :: "('s, 'e, 'a) op \<Rightarrow> ('s, 'e, 'a) op" where
  "atomically m s = (case m s of (Ok x, s') \<Rightarrow> (Ok x, s') | (r, s') \<Rightarrow> (r, s))"

lemma bind_res_Ok_iff: "bind_res r f = Ok y \<longleftrightarrow> (\<exists>x. r = Ok x \<and> f x = Ok y)"
  by (cases r) auto

lemma bind_res_Panic_iff: "bind_res r f = Panic \<longleftrightarrow> r = Panic \<or> (\<exists>x. r = Ok x \<and> f x = Panic)"
  by (cases r) auto

lemma from_opt_not_Err [simp]: "from_opt x \<noteq> Err e"
  by (cases x) auto

lemma from_opt_Ok_iff [simp]: "from_opt x = Ok y \<longleftrightarrow> x = Some y"
  by (cases x) auto

lemma is_ok_iff: "is_ok r \<longleftrightarrow> (\<exists>x. r = Ok x)"
  by (cases r) auto

lemma atomically_Ok: "m s = (Ok x, s') \<Longrightarrow> atomically m s = (Ok x, s')"
  by (simp add: atomically_def)

lemma atomically_not_Ok:
  assumes "m s = (r, s')" and "\<not> is_ok r"
  shows "atomically m s = (r, s)"
  using assms by (cases r) (auto simp: atomically_def)

lemma atomically_invariant:
  assumes "\<And>x s'. m s = (Ok x, s') \<Longrightarrow> P s'" and "P s"
  shows "P (snd (atomically m s))"
  using assms by (auto simp: atomically_def split: prod.splits res.splits)

section \<open>Time\<close>

text \<open>Go's zero time (year 1), in nanoseconds relative to the Unix epoch, and the saturating \<open>Time.Sub\<close>.\<close>

definition time_zero :: int where
  "time_zero = - 62135596800000000000"

definition time_sub :: "int \<Rightarrow> int \<Rightarrow> int" where
  "time_sub a b = max (- (2 ^ 63)) (min (2 ^ 63 - 1) (a - b))"

section \<open>Byte-string helpers\<close>

lemma sep_append:
  "\<lbrakk>a @ d # x = b @ d # y; d \<notin> set a; d \<notin> set b\<rbrakk> \<Longrightarrow> a = b \<and> x = y"
proof (induction a arbitrary: b)
  case Nil
  then show ?case by (cases b) auto
next
  case (Cons c a)
  then show ?case by (cases b) auto
qed

text \<open>\<open>bytes.Join\<close> / \<open>strings.Join\<close> with a one-byte separator.\<close>

fun join_with :: "char \<Rightarrow> bytes list \<Rightarrow> bytes" where
  "join_with c [] = []"
| "join_with c [x] = x"
| "join_with c (x # y # ys) = x @ c # join_with c (y # ys)"

text \<open>\<open>bytes.Split\<close> / \<open>strings.Split\<close> with a one-byte separator: never an empty result.\<close>

fun split_on :: "char \<Rightarrow> bytes \<Rightarrow> bytes list" where
  "split_on c [] = [[]]"
| "split_on c (x # xs) =
     (if x = c then [] # split_on c xs
      else (case split_on c xs of [] \<Rightarrow> [[x]] | p # ps \<Rightarrow> (x # p) # ps))"

lemma split_on_nonempty [simp]: "split_on c xs \<noteq> []"
  by (induction xs) (auto split: list.splits)

lemma length_split_on: "length (split_on c xs) = Suc (count_list xs c)"
proof (induction xs)
  case (Cons x xs)
  then show ?case
    by (cases "split_on c xs") auto
qed simp

lemma split_on_notin: "c \<notin> set xs \<Longrightarrow> split_on c xs = [xs]"
  by (induction xs) auto

lemma split_on_append_sep:
  "c \<notin> set xs \<Longrightarrow> split_on c (xs @ c # ys) = xs # split_on c ys"
  by (induction xs) auto

lemma split_on_join:
  assumes "xss \<noteq> []" and "\<forall>x \<in> set xss. c \<notin> set x"
  shows "split_on c (join_with c xss) = xss"
  using assms
  by (induction c xss rule: join_with.induct) (auto simp: split_on_notin split_on_append_sep)

lemma join_split_on: "join_with c (split_on c xs) = xs"
proof (induction xs)
  case (Cons x xs)
  show ?case
  proof (cases "split_on c xs")
    case Nil
    then show ?thesis by simp
  next
    case ps: (Cons p ps)
    with Cons show ?thesis by (cases ps) auto
  qed
qed simp

lemma split_on_parts: "p \<in> set (split_on c xs) \<Longrightarrow> c \<notin> set p"
proof (induction xs arbitrary: p)
  case (Cons x xs)
  then show ?case
    by (cases "split_on c xs") (auto split: if_splits)
qed simp

section \<open>Big-endian integers\<close>

text \<open>\<open>be n v\<close> is the \<open>n\<close>-byte big-endian encoding of \<open>v\<close> (higher bytes are cut off).\<close>

fun be :: "nat \<Rightarrow> nat \<Rightarrow> bytes" where
  "be 0 v = []"
| "be (Suc n) v = char_of (v div 256 ^ n) # be n v"

fun be_to_nat :: "nat \<Rightarrow> bytes \<Rightarrow> nat" where
  "be_to_nat acc [] = acc"
| "be_to_nat acc (c # cs) = be_to_nat (256 * acc + of_char c) cs"

text \<open>\<open>sdk.Uint64ToBigEndian\<close> / \<open>binary.BigEndian.PutUint64\<close>.\<close>

definition be64 :: "nat \<Rightarrow> bytes" where
  "be64 v = be 8 v"

lemma length_be [simp]: "length (be n v) = n"
  by (induction n) auto

lemma be_to_nat_be: "be_to_nat acc (be n v) = acc * 256 ^ n + v mod 256 ^ n"
proof (induction n arbitrary: acc)
  case (Suc n)
  have "v mod 256 ^ Suc n = 256 ^ n * (v div 256 ^ n mod 256) + v mod 256 ^ n"
    using mod_mult2_eq [of v "256 ^ n" 256] by (simp add: mult.commute)
  with Suc show ?case
    by (simp add: algebra_simps)
qed simp

lemma be64_roundtrip: "v < 2 ^ 64 \<Longrightarrow> be_to_nat 0 (be64 v) = v"
  by (simp add: be64_def be_to_nat_be)

lemma length_be64 [simp]: "length (be64 v) = 8"
  by (simp add: be64_def)

lemma be64_inject [key_simps]: "\<lbrakk>a < 2 ^ 64; b < 2 ^ 64\<rbrakk> \<Longrightarrow> be64 a = be64 b \<longleftrightarrow> a = b"
  by (metis be64_roundtrip)

text \<open>Byte order on encodings is numeric order: iteration over big-endian keys is by number.\<close>

lemma be_digit: "v mod 256 ^ Suc n = 256 ^ n * (v div 256 ^ n mod 256) + v mod 256 ^ n" for v :: nat
  using mod_mult2_eq [of v "256 ^ n" 256] by (simp add: mult.commute)

lemma char_of_less_iff: "(char_of (a :: nat) :: char) < char_of b \<longleftrightarrow> a mod 256 < b mod 256"
  by (simp add: less_char_def)

lemma char_of_eq_iff: "(char_of (a :: nat) :: char) = char_of b \<longleftrightarrow> a mod 256 = b mod 256"
  by (metis char_of_mod_256 of_char_of)

lemma lex_digit_less:
  fixes k a b x y :: nat
  assumes "a < k" and "b < k"
  shows "k * x + a < k * y + b \<longleftrightarrow> x < y \<or> (x = y \<and> a < b)"
proof (cases x y rule: linorder_cases)
  case less
  then have "k * x + k \<le> k * y" by (metis Suc_leI mult_Suc_right mult_le_mono2 add.commute)
  with less assms show ?thesis by linarith
next
  case greater
  then have "k * y + k \<le> k * x" by (metis Suc_leI mult_Suc_right mult_le_mono2 add.commute)
  with greater assms show ?thesis by linarith
qed simp

lemma be_less_iff: "be n a < be n b \<longleftrightarrow> a mod 256 ^ n < b mod 256 ^ n"
proof (induction n)
  case (Suc n)
  show ?case
    by (simp only: be.simps Cons_less_Cons char_of_less_iff char_of_eq_iff Suc be_digit)
      (simp add: lex_digit_less)
qed simp

lemma be64_less_iff: "\<lbrakk>a < 2 ^ 64; b < 2 ^ 64\<rbrakk> \<Longrightarrow> be64 a < be64 b \<longleftrightarrow> a < b"
  by (simp add: be64_def be_less_iff)

text \<open>Keys with components of a fixed width compare component by component.\<close>

lemma append_less_iff: "length xs = length xs' \<Longrightarrow> xs @ ys < xs' @ ys' \<longleftrightarrow> xs < xs' \<or> (xs = xs' \<and> ys < ys')"
  for xs ys :: "'a :: linorder list"
  by (induction xs xs' rule: list_induct2) auto

section \<open>Decimal rendering\<close>

text \<open>\<open>String()\<close> of the unsigned integers: decimal digits without leading zeros.\<close>

function dec_digits :: "nat \<Rightarrow> bytes" where
  "dec_digits n = (if n < 10 then [char_of (48 + n)] else dec_digits (n div 10) @ [char_of (48 + n mod 10)])"
  by auto
termination by (relation "measure id") auto

declare dec_digits.simps [simp del]

fun dec_value :: "nat \<Rightarrow> bytes \<Rightarrow> nat" where
  "dec_value acc [] = acc"
| "dec_value acc (c # cs) = dec_value (10 * acc + (of_char c - 48)) cs"

lemma dec_value_append: "dec_value acc (xs @ ys) = dec_value (dec_value acc xs) ys"
  by (induction xs arbitrary: acc) auto

lemma dec_value_digits: "dec_value 0 (dec_digits n) = n"
proof (induction n rule: dec_digits.induct)
  case (1 n)
  then show ?case
    by (subst dec_digits.simps) (auto simp: dec_value_append)
qed

lemma dec_digits_inject [key_simps, simp]: "dec_digits a = dec_digits b \<longleftrightarrow> a = b"
  by (metis dec_value_digits)

lemma dec_digits_chars: "c \<in> set (dec_digits n) \<Longrightarrow> 48 \<le> (of_char c :: nat) \<and> (of_char c :: nat) \<le> 57"
proof (induction n rule: dec_digits.induct)
  case (1 n)
  then show ?case
    by (subst (asm) (2) dec_digits.simps) (auto split: if_splits)
qed

lemma dec_digits_nonempty [simp]: "dec_digits n \<noteq> []"
  by (subst dec_digits.simps) auto

lemma dec_digits_no_colon [simp]: "CHR '':'' \<notin> set (dec_digits n)"
  using dec_digits_chars by force

end
