(* ===== verification/KVStore.thy ===== *)
theory KVStore
  imports Prelude
begin

text \<open>
  The key-value stores of the modules. Every keeper of the code works on a \<open>KVStore\<close> whose keys
  are byte strings and whose iterators run in byte order. A store is modelled as an association list
  kept in strictly increasing key order, so that iteration order is part of the model. The values are
  the decoded objects: the (binary) codec is a bijection on the stored objects and is left out.
  The locale \<open>key_value_store\<close> is the interface the keepers rely on; it is interpreted on the
  sorted association list. The locale \<open>id_registry\<close> is the contract of the \<open>lastID\<close> counters of the
  keepers (orders, markets, multi-signature calls, withdraws); the components interpret it.
\<close>

section \<open>Stores as sorted association lists\<close>

type_synonym 'v kv = "(bytes \<times> 'v) list"

definition kv_get :: "bytes \<Rightarrow> 'v kv \<Rightarrow> 'v option" where
  "kv_get k st = map_of st k"

definition kv_has :: "bytes \<Rightarrow> 'v kv \<Rightarrow> bool" where
  "kv_has k st = (map_of st k \<noteq> None)"

fun kv_set :: "bytes \<Rightarrow> 'v \<Rightarrow> 'v kv \<Rightarrow> 'v kv" where
  "kv_set k v [] = [(k, v)]"
| "kv_set k v ((k', v') # st) =
     (if k < k' then (k, v) # (k', v') # st
      else if k = k' then (k, v) # st
      else (k', v') # kv_set k v st)"

definition kv_del :: "bytes \<Rightarrow> 'v kv \<Rightarrow> 'v kv" where
  "kv_del k st = filter (\<lambda>p. fst p \<noteq> k) st"

text \<open>The iterator over \<open>[lo, hi)\<close> and the iterator over all the keys with a given prefix.\<close>

definition kv_range :: "bytes \<Rightarrow> bytes \<Rightarrow> 'v kv \<Rightarrow> 'v kv" where
  "kv_range lo hi st = filter (\<lambda>p. lo \<le> fst p \<and> fst p < hi) st"

definition kv_vals :: "'v kv \<Rightarrow> 'v list" where
  "kv_vals st = map snd st"

definition kv_wf :: "'v kv \<Rightarrow> bool" where
  "kv_wf st = sorted_wrt (<) (map fst st)"

lemma kv_get_set [simp]: "kv_get k' (kv_set k v st) = (if k' = k then Some v else kv_get k' st)"
  by (induction st) (auto simp: kv_get_def)

lemma kv_get_del [simp]: "kv_get k' (kv_del k st) = (if k' = k then None else kv_get k' st)"
  by (induction st) (auto simp: kv_get_def kv_del_def)

lemma kv_get_Nil [simp]: "kv_get k [] = None"
  by (simp add: kv_get_def)

lemma kv_has_iff: "kv_has k st \<longleftrightarrow> kv_get k st \<noteq> None"
  by (simp add: kv_has_def kv_get_def)

lemma kv_wf_Nil [simp]: "kv_wf []"
  by (simp add: kv_wf_def)

lemma kv_set_keys: "fst ` set (kv_set k v st) = insert k (fst ` set st)"
  by (induction st) (auto simp: rev_image_eqI split: if_splits)

lemma kv_wf_set [simp]: "kv_wf st \<Longrightarrow> kv_wf (kv_set k v st)"
proof (induction st)
  case (Cons p st)
  then show ?case
    using kv_set_keys [of k v st]
    by (cases p) (auto simp: kv_wf_def)
qed (simp add: kv_wf_def)

lemma kv_wf_del [simp]: "kv_wf st \<Longrightarrow> kv_wf (kv_del k st)"
  by (auto simp: kv_wf_def kv_del_def sorted_wrt_map intro: sorted_wrt_filter)

lemma kv_wf_distinct: "kv_wf st \<Longrightarrow> distinct (map fst st)"
  unfolding kv_wf_def by (metis strict_sorted_iff)

lemma kv_get_iff: "kv_wf st \<Longrightarrow> kv_get k st = Some v \<longleftrightarrow> (k, v) \<in> set st"
  using kv_wf_distinct [of st] by (simp add: kv_get_def)

lemma kv_get_mem: "kv_get k st = Some v \<Longrightarrow> (k, v) \<in> set st"
  by (simp add: kv_get_def map_of_SomeD)

lemma kv_set_fresh_mset: "kv_get k st = None \<Longrightarrow> mset (kv_set k v st) = add_mset (k, v) (mset st)"
  by (induction st) (auto simp: kv_get_def split: if_splits)

lemma kv_set_present_length: "\<lbrakk>kv_wf st; kv_has k st\<rbrakk> \<Longrightarrow> length (kv_set k v st) = length st"
proof (induction st)
  case (Cons p st)
  obtain k' v' where p: "p = (k', v')" by (cases p)
  have "\<not> k < k'" if "k \<noteq> k'"
  proof -
    from Cons.prems(2) that p have "k \<in> fst ` set st"
      by (simp add: kv_has_def map_of_eq_None_iff)
    with Cons.prems(1) p have "k' < k" by (auto simp: kv_wf_def)
    then show ?thesis by simp
  qed
  with Cons p show ?case
    by (auto simp: kv_wf_def kv_has_def)
qed (simp add: kv_has_def)

lemma kv_set_fresh_length: "kv_get k st = None \<Longrightarrow> length (kv_set k v st) = Suc (length st)"
  using kv_set_fresh_mset [of k st v] by (metis size_add_mset size_mset)

lemma kv_del_present_length: "\<lbrakk>kv_wf st; kv_has k st\<rbrakk> \<Longrightarrow> Suc (length (kv_del k st)) = length st"
proof (induction st)
  case (Cons p st)
  obtain k' v' where p: "p = (k', v')" by (cases p)
  show ?case
  proof (cases "k = k'")
    case True
    have "\<forall>q \<in> set st. fst q \<noteq> k"
      using Cons.prems(1) p True by (auto simp: kv_wf_def)
    then have "filter (\<lambda>q. fst q \<noteq> k) st = st" by (simp add: filter_id_conv)
    with p True show ?thesis by (simp add: kv_del_def)
  next
    case False
    with Cons p show ?thesis
      by (simp add: kv_wf_def kv_del_def kv_has_def)
  qed
qed (simp add: kv_has_def)

lemma kv_del_absent: "kv_get k st = None \<Longrightarrow> kv_del k st = st"
  by (induction st) (auto simp: kv_get_def kv_del_def split: if_splits)

lemma kv_set_del_fresh: "\<lbrakk>kv_wf st; kv_get k st = None\<rbrakk> \<Longrightarrow> kv_del k (kv_set k v st) = st"
proof (induction st)
  case (Cons p st)
  obtain k' v' where p: "p = (k', v')" by (cases p)
  with Cons.prems have ne: "k \<noteq> k'" and g: "kv_get k st = None" and w: "kv_wf st"
    by (auto simp: kv_get_def kv_wf_def split: if_splits)
  have "kv_del k st = st" using g by (rule kv_del_absent)
  with Cons.IH [OF w g] p ne show ?case by (auto simp: kv_del_def)
qed (simp add: kv_del_def)

lemma kv_wf_ext:
  assumes "kv_wf s" and "kv_wf t" and "\<And>k. kv_get k s = kv_get k t"
  shows "s = t"
proof -
  have e: "set s = set t"
    using assms by (auto simp: kv_get_iff [symmetric])
  have ds: "distinct (map fst s)" and dt: "distinct (map fst t)"
    using assms(1,2) by (simp_all add: kv_wf_distinct)
  have "sorted (map fst s)" "sorted (map fst t)"
    using assms(1,2) unfolding kv_wf_def by (simp_all add: strict_sorted_iff)
  moreover have "inj_on fst (set s \<union> set t)"
    using e ds by (simp add: distinct_map)
  ultimately show ?thesis
    using e ds dt by (metis map_sorted_distinct_set_unique)
qed

section \<open>The store interface\<close>

locale key_value_store =
  fixes empty :: "'s"
    and get :: "bytes \<Rightarrow> 's \<Rightarrow> 'v option"
    and upd :: "bytes \<Rightarrow> 'v \<Rightarrow> 's \<Rightarrow> 's"
    and del :: "bytes \<Rightarrow> 's \<Rightarrow> 's"
    and entries :: "'s \<Rightarrow> (bytes \<times> 'v) list"
    and wf :: "'s \<Rightarrow> bool"
  assumes get_empty: "get k empty = None"
    and get_upd: "get k' (upd k v s) = (if k' = k then Some v else get k' s)"
    and get_del: "get k' (del k s) = (if k' = k then None else get k' s)"
    and entries_get: "wf s \<Longrightarrow> (k, v) \<in> set (entries s) \<longleftrightarrow> get k s = Some v"
    and entries_sorted: "wf s \<Longrightarrow> sorted_wrt (<) (map fst (entries s))"
    and wf_empty: "wf empty"
    and wf_upd: "wf s \<Longrightarrow> wf (upd k v s)"
    and wf_del: "wf s \<Longrightarrow> wf (del k s)"
begin

text \<open>Rebuilding a store from its exported entries gives back every value (export, then init).\<close>

definition rebuild :: "(bytes \<times> 'v) list \<Rightarrow> 's" where
  "rebuild es = foldl (\<lambda>s p. upd (fst p) (snd p) s) empty es"

lemma get_foldl_upd:
  "distinct (map fst es) \<Longrightarrow>
   get k (foldl (\<lambda>s p. upd (fst p) (snd p) s) s es) = (case map_of es k of Some v \<Rightarrow> Some v | None \<Rightarrow> get k s)"
proof (induction es arbitrary: s)
  case (Cons p es)
  then have "map_of es (fst p) = None" by (simp add: map_of_eq_None_iff)
  with Cons show ?case
    by (cases p) (auto simp: get_upd split: option.splits)
qed simp

lemma rebuild_entries: "wf s \<Longrightarrow> get k (rebuild (entries s)) = get k s"
proof -
  assume w: "wf s"
  have d: "distinct (map fst (entries s))"
    using entries_sorted [OF w] by (metis strict_sorted_iff)
  then have "map_of (entries s) k = get k s"
    using entries_get [OF w, of k] by (cases "get k s") (auto simp: map_of_eq_None_iff)
  with get_foldl_upd [OF d] show ?thesis
    by (simp add: rebuild_def get_empty split: option.splits)
qed

lemma upd_overwrites: "get k' (upd k v (upd k w s)) = get k' (upd k v s)"
  by (simp add: get_upd)

lemma del_restores: "get k s = None \<Longrightarrow> get k' (del k (upd k v s)) = get k' s"
  by (simp add: get_upd get_del)

end

interpretation kvs: key_value_store "[] :: 'v kv" kv_get kv_set kv_del "\<lambda>s. s" kv_wf
proof (standard, goal_cases)
  case (4 s k v)
  then show ?case by (simp add: kv_get_iff)
next
  case (5 s)
  then show ?case by (simp add: kv_wf_def)
qed simp_all

section \<open>Identifier counters\<close>

text \<open>
  The contract of a keeper that numbers its objects with a stored last identifier: the next one is
  zero or the successor of the last one, and every stored object has an identifier not above it.
\<close>

definition next_id :: "nat option \<Rightarrow> nat" where
  "next_id lst = (case lst of None \<Rightarrow> 0 | Some n \<Rightarrow> Suc n)"

definition ids_bounded :: "nat option \<Rightarrow> nat set \<Rightarrow> bool" where
  "ids_bounded lst ids \<longleftrightarrow> (case lst of None \<Rightarrow> ids = {} | Some n \<Rightarrow> \<forall>i \<in> ids. i \<le> n)"

locale id_registry =
  fixes lastID :: "'s \<Rightarrow> nat option"
    and ids :: "'s \<Rightarrow> nat set"
    and inv :: "'s \<Rightarrow> bool"
    and created :: "'s \<Rightarrow> nat \<Rightarrow> 's \<Rightarrow> bool"
  assumes created_id: "\<lbrakk>inv s; created s i s'\<rbrakk> \<Longrightarrow> i = next_id (lastID s)"
    and created_last: "\<lbrakk>inv s; created s i s'\<rbrakk> \<Longrightarrow> lastID s' = Some i"
    and created_ids: "\<lbrakk>inv s; created s i s'\<rbrakk> \<Longrightarrow> ids s' = insert i (ids s)"
    and created_inv: "\<lbrakk>inv s; created s i s'\<rbrakk> \<Longrightarrow> inv s'"
begin

lemma created_fresh: "\<lbrakk>inv s; ids_bounded (lastID s) (ids s); created s i s'\<rbrakk> \<Longrightarrow> i \<notin> ids s"
  using created_id [of s i s'] by (auto simp: ids_bounded_def next_id_def split: option.splits)

lemma created_bounded:
  "\<lbrakk>inv s; ids_bounded (lastID s) (ids s); created s i s'\<rbrakk> \<Longrightarrow> ids_bounded (lastID s') (ids s')"
  using created_id [of s i s'] created_last [of s i s'] created_ids [of s i s']
  by (auto simp: ids_bounded_def next_id_def split: option.splits)

text \<open>A sequence of creations hands out strictly increasing identifiers.\<close>

inductive creates :: "'s \<Rightarrow> nat list \<Rightarrow> 's \<Rightarrow> bool" where
  creates_Nil: "creates s [] s"
| creates_Cons: "\<lbrakk>created s i s'; creates s' is s''\<rbrakk> \<Longrightarrow> creates s (i # is) s''"

lemma creates_inv: "\<lbrakk>creates s is s'; inv s\<rbrakk> \<Longrightarrow> inv s'"
  by (induction rule: creates.induct) (auto intro: created_inv)

lemma creates_ge: "\<lbrakk>creates s is s'; inv s; i \<in> set is\<rbrakk> \<Longrightarrow> next_id (lastID s) \<le> i"
proof (induction rule: creates.induct)
  case (creates_Cons s j s' "is" s'')
  have j: "j = next_id (lastID s)" "lastID s' = Some j" "inv s'"
    using creates_Cons created_id created_last created_inv by blast+
  show ?case
  proof (cases "i = j")
    case False
    with creates_Cons j have "next_id (lastID s') \<le> i" by auto
    with j show ?thesis by (simp add: next_id_def)
  qed (use j in simp)
qed simp

lemma creates_increasing: "\<lbrakk>creates s is s'; inv s\<rbrakk> \<Longrightarrow> sorted_wrt (<) is"
proof (induction rule: creates.induct)
  case (creates_Cons s j s' "is" s'')
  have j: "lastID s' = Some j" "inv s'"
    using creates_Cons created_last created_inv by blast+
  with creates_ge [OF creates_Cons.hyps(2)] have "\<forall>i \<in> set is. j < i"
    by (fastforce simp: next_id_def)
  with creates_Cons j show ?case by simp
qed simp

end

lemma ids_bounded_subset: "\<lbrakk>ids_bounded l A; B \<subseteq> A\<rbrakk> \<Longrightarrow> ids_bounded l B"
  by (auto simp: ids_bounded_def split: option.splits)

lemma kv_vals_set: "set (kv_vals st) = snd ` set st"
  by (simp add: kv_vals_def)

lemma kv_vals_iff: "kv_wf st \<Longrightarrow> v \<in> set (kv_vals st) \<longleftrightarrow> (\<exists>k. kv_get k st = Some v)"
  by (force simp: kv_vals_set kv_get_iff)

text \<open>Stores whose objects are kept under a key computed from the object.\<close>

definition kv_keyed :: "('v \<Rightarrow> bytes) \<Rightarrow> 'v kv \<Rightarrow> bool" where
  "kv_keyed key st \<longleftrightarrow> kv_wf st \<and> (\<forall>k v. kv_get k st = Some v \<longrightarrow> k = key v)"

lemma kv_keyed_Nil [simp]: "kv_keyed key []"
  by (simp add: kv_keyed_def)

lemma kv_keyed_set [simp]: "kv_keyed key st \<Longrightarrow> kv_keyed key (kv_set (key x) x st)"
  by (simp add: kv_keyed_def)

lemma kv_keyed_del [simp]: "kv_keyed key st \<Longrightarrow> kv_keyed key (kv_del k st)"
  by (simp add: kv_keyed_def)

lemma kv_keyed_get_vals: "kv_keyed key st \<Longrightarrow> kv_get (key x) st = Some x \<longleftrightarrow> x \<in> set (kv_vals st)"
  unfolding kv_keyed_def by (metis kv_vals_iff)

lemma kv_keyed_vals_set:
  "kv_keyed key st \<Longrightarrow> set (kv_vals (kv_set (key x) x st)) = insert x {y \<in> set (kv_vals st). key y \<noteq> key x}"
  by (rule set_eqI)
    (auto simp: kv_keyed_get_vals [of key, symmetric] split: if_splits)

lemma kv_keyed_vals_del:
  "kv_keyed key st \<Longrightarrow> set (kv_vals (kv_del k st)) = {y \<in> set (kv_vals st). key y \<noteq> k}"
  by (rule set_eqI) (auto simp: kv_keyed_get_vals [of key, symmetric] split: if_splits)

lemma kv_keyed_get_None:
  "kv_keyed key st \<Longrightarrow> kv_get k st = None \<longleftrightarrow> (\<forall>x \<in> set (kv_vals st). key x \<noteq> k)"
  unfolding kv_keyed_def by (metis kv_vals_iff not_None_eq)

lemma kv_keyed_get_Some: "\<lbrakk>kv_keyed key st; kv_get k st = Some x\<rbrakk> \<Longrightarrow> x \<in> set (kv_vals st) \<and> k = key x"
  unfolding kv_keyed_def by (metis kv_vals_iff)

lemma kv_keyed_vals_eq:
  assumes "set (kv_vals t) = set (kv_vals s)" and "kv_keyed key t" and "kv_keyed key s"
  shows "kv_get k t = kv_get k s"
proof (rule option.expand)
  show "(kv_get k t = None) = (kv_get k s = None)"
    using assms by (simp add: kv_keyed_get_None)
  assume "kv_get k t \<noteq> None" and "kv_get k s \<noteq> None"
  then obtain x y where xy: "kv_get k t = Some x" "kv_get k s = Some y" by auto
  then have "k = key x" "x \<in> set (kv_vals s)" using kv_keyed_get_Some [OF assms(2)] assms(1) by auto
  then have "kv_get k s = Some x" using kv_keyed_get_vals [OF assms(3)] by simp
  with xy show "the (kv_get k t) = the (kv_get k s)" by simp
qed

lemma kv_keyed_distinct: "kv_keyed key st \<Longrightarrow> distinct (map key (kv_vals st))"
proof -
  assume k: "kv_keyed key st"
  have "map key (kv_vals st) = map fst st"
    using k by (auto simp: kv_vals_def kv_keyed_def kv_get_iff)
  then show ?thesis using k kv_wf_distinct [of st] by (simp add: kv_keyed_def)
qed

text \<open>Re-inserting the exported objects of a keyed store gives the store back.\<close>

lemma kv_keyed_rebuild:
  assumes "kv_keyed key st"
  shows "foldl (\<lambda>t x. kv_set (key x) x t) [] (kv_vals st) = st"
proof -
  have fold: "foldl (\<lambda>t x. kv_set (key x) x t) t (map snd es) = foldl (\<lambda>s p. kv_set (fst p) (snd p) s) t es"
    if "\<forall>(k, v) \<in> set es. k = key v" for t es
    using that by (induction es arbitrary: t) auto
  have wf: "kv_wf (foldl (\<lambda>s p. kv_set (fst p) (snd p) s) t es)" if "kv_wf t" for t :: "'a kv" and es
    using that by (induction es arbitrary: t) auto
  have "\<forall>(k, v) \<in> set st. k = key v" using assms by (auto simp: kv_keyed_def kv_get_iff)
  then have "foldl (\<lambda>t x. kv_set (key x) x t) [] (kv_vals st) = kvs.rebuild st"
    using fold [of st "[]"] by (simp add: kv_vals_def kvs.rebuild_def)
  also have "\<dots> = st"
    using kvs.rebuild_entries [of st] assms wf [of "[]"]
    by (intro kv_wf_ext) (auto simp: kv_keyed_def kvs.rebuild_def)
  finally show ?thesis .
qed

text \<open>The same from any list of the entries of the store.\<close>

lemma kv_foldl_rebuild:
  assumes "kv_wf st" and "distinct (map fst es)" and "set es = set st"
  shows "foldl (\<lambda>t p. kv_set (fst p) (snd p) t) [] es = st"
proof (rule kv_wf_ext)
  have "kv_wf t \<Longrightarrow> kv_wf (foldl (\<lambda>t p. kv_set (fst p) (snd p) t) t es)" for t :: "'a kv"
    by (induction es arbitrary: t) auto
  then show "kv_wf (foldl (\<lambda>t p. kv_set (fst p) (snd p) t) [] es)" by simp
  fix k
  have "map_of es k = kv_get k st"
  proof (cases "kv_get k st")
    case None
    then have "k \<notin> fst ` set es" using assms(3) by (simp add: kv_get_def map_of_eq_None_iff)
    with None show ?thesis by (simp add: map_of_eq_None_iff)
  next
    case (Some v)
    then have "(k, v) \<in> set es" using assms(3) by (simp add: kv_get_mem)
    with Some show ?thesis using assms(2) by simp
  qed
  then show "kv_get k (foldl (\<lambda>t p. kv_set (fst p) (snd p) t) [] es) = kv_get k st"
    using kvs.get_foldl_upd [OF assms(2), of k "[]"] by (simp split: option.splits)
qed fact

end
