(* ===== verification/Cosmos.thy ===== *)
theory Cosmos
  imports Prelude
begin

text \<open>
  The Cosmos SDK is not part of the repository: the operations of it that the code calls are fields
  of parameter records, and the definitions of the components take such a record as an argument. What the
  properties rely on of the SDK is stated by the predicates \<open>uint_laws\<close>, \<open>dec_laws\<close> and so on, each of
  them the documented behaviour of the operations; the record \<open>ref_sdk\<close> shows that the laws can hold
  together, and the witnesses of the properties use it.

  Values: a coin is a pair of a denomination and an amount, an \<open>sdk.Uint\<close> is the number it stands for (\<open>nat\<close>, at most 256 bits: the operations panic
  beyond, \<open>None\<close>), an \<open>sdk.Dec\<close> is its integer mantissa, 18 decimal places (\<open>int\<close>), an \<open>sdk.Int\<close> an \<open>int\<close>.
\<close>

section \<open>Numbers\<close>

record sdk =
  uint_add :: "nat \<Rightarrow> nat \<Rightarrow> nat option"
  uint_sub :: "nat \<Rightarrow> nat \<Rightarrow> nat option"
  uint_mul :: "nat \<Rightarrow> nat \<Rightarrow> nat option"
  uint_of_big :: "int \<Rightarrow> nat option"
  int_of_big :: "int \<Rightarrow> int option"
  int_add :: "int \<Rightarrow> int \<Rightarrow> int option"
  int_sub :: "int \<Rightarrow> int \<Rightarrow> int option"
  new_coin :: "bytes \<Rightarrow> int \<Rightarrow> (bytes \<times> int) option"
  uint_parse :: "bytes \<Rightarrow> nat option"
  denom_valid :: "bytes \<Rightarrow> bool"
  addr_valid :: "bytes \<Rightarrow> bool"
  dec_of_int :: "int \<Rightarrow> nat \<Rightarrow> int option"
  dec_add :: "int \<Rightarrow> int \<Rightarrow> int option"
  dec_sub :: "int \<Rightarrow> int \<Rightarrow> int option"
  dec_mul :: "int \<Rightarrow> int \<Rightarrow> int option"
  dec_quo :: "int \<Rightarrow> int \<Rightarrow> int option"
  dec_ceil :: "int \<Rightarrow> int"
  dec_round :: "int \<Rightarrow> int option"
  dec_trunc :: "int \<Rightarrow> int option"

abbreviation dec_one :: int where
  "dec_one \<equiv> 1000000000000000000"

text \<open>Rounding half to even at 18 decimal places (\<open>chopPrecisionAndRound\<close> of the SDK).\<close>

definition chop_pos :: "int \<Rightarrow> int" where
  "chop_pos d =
     (let q = d div dec_one; r = d mod dec_one in
      if 2 * r < dec_one then q else if dec_one < 2 * r then q + 1
      else if even q then q else q + 1)"

definition chop :: "int \<Rightarrow> int" where
  "chop d = (if d < 0 then - chop_pos (- d) else chop_pos d)"

definition within :: "nat \<Rightarrow> int \<Rightarrow> int option" where
  "within bits d = (if \<bar>d\<bar> < 2 ^ bits then Some d else None)"

definition uint_laws :: "sdk \<Rightarrow> bool" where
  "uint_laws S \<longleftrightarrow>
     (\<forall>a b. uint_add S a b = (if a + b < 2 ^ 256 then Some (a + b) else None)) \<and>
     (\<forall>a b. uint_sub S a b = (if b \<le> a then Some (a - b) else None)) \<and>
     (\<forall>a b. uint_mul S a b = (if a * b < 2 ^ 256 then Some (a * b) else None)) \<and>
     (\<forall>i. uint_of_big S i = (if 0 \<le> i \<and> i < 2 ^ 256 then Some (nat i) else None)) \<and>
     (\<forall>i. int_of_big S i = within 255 i)"

definition int_laws :: "sdk \<Rightarrow> bool" where
  "int_laws S \<longleftrightarrow>
     (\<forall>a b. int_add S a b = within 255 (a + b)) \<and>
     (\<forall>a b. int_sub S a b = within 255 (a - b)) \<and>
     (\<forall>d a. new_coin S d a = (if denom_valid S d \<and> 0 \<le> a then Some (d, a) else None))"

definition parse_laws :: "sdk \<Rightarrow> bool" where
  "parse_laws S \<longleftrightarrow> (\<forall>n < 2 ^ 256. uint_parse S (dec_digits n) = Some n)"

definition dec_laws :: "sdk \<Rightarrow> bool" where
  "dec_laws S \<longleftrightarrow>
     (\<forall>i p. dec_of_int S i p = (if p \<le> 18 then Some (i * 10 ^ (18 - p)) else None)) \<and>
     (\<forall>a b. dec_add S a b = within 315 (a + b)) \<and>
     (\<forall>a b. dec_sub S a b = within 315 (a - b)) \<and>
     (\<forall>a b. dec_mul S a b = within 315 (chop (a * b))) \<and>
     (\<forall>a b. 0 \<le> a \<longrightarrow> 0 < b \<longrightarrow> dec_quo S a b = within 315 (chop (a * dec_one * dec_one div b))) \<and>
     (\<forall>a. dec_quo S a 0 = None) \<and>
     (\<forall>a. 0 \<le> a \<longrightarrow> dec_ceil S a = (a + dec_one - 1) div dec_one * dec_one) \<and>
     (\<forall>a. dec_round S a = within 255 (chop a)) \<and>
     (\<forall>a. 0 \<le> a \<longrightarrow> dec_trunc S a = within 255 (a div dec_one))"

text \<open>The laws hold together: a reference instance.\<close>

definition ref_parse :: "bytes \<Rightarrow> nat option" where
  "ref_parse s =
     (if s \<noteq> [] \<and> list_all (\<lambda>c. 48 \<le> (of_char c :: nat) \<and> (of_char c :: nat) \<le> 57) s \<and> dec_value 0 s < 2 ^ 256
      then Some (dec_value 0 s) else None)"

definition ref_denom_char :: "char \<Rightarrow> bool" where
  "ref_denom_char c \<longleftrightarrow> (97 \<le> (of_char c :: nat) \<and> (of_char c :: nat) \<le> 122) \<or> (48 \<le> (of_char c :: nat) \<and> (of_char c :: nat) \<le> 57)"

definition ref_denom :: "bytes \<Rightarrow> bool" where
  "ref_denom s \<longleftrightarrow> 3 \<le> length s \<and> length s \<le> 16 \<and> list_all ref_denom_char s \<and> 97 \<le> (of_char (hd s) :: nat)"

definition ref_sdk :: sdk where
  "ref_sdk = \<lparr>
     uint_add = (\<lambda>a b. if a + b < 2 ^ 256 then Some (a + b) else None),
     uint_sub = (\<lambda>a b. if b \<le> a then Some (a - b) else None),
     uint_mul = (\<lambda>a b. if a * b < 2 ^ 256 then Some (a * b) else None),
     uint_of_big = (\<lambda>i. if 0 \<le> i \<and> i < 2 ^ 256 then Some (nat i) else None),
     int_of_big = within 255,
     int_add = (\<lambda>a b. within 255 (a + b)),
     int_sub = (\<lambda>a b. within 255 (a - b)),
     new_coin = (\<lambda>d a. if ref_denom d \<and> 0 \<le> a then Some (d, a) else None),
     uint_parse = ref_parse,
     denom_valid = ref_denom,
     addr_valid = (\<lambda>a. length a = 20),
     dec_of_int = (\<lambda>i p. if p \<le> 18 then Some (i * 10 ^ (18 - p)) else None),
     dec_add = (\<lambda>a b. within 315 (a + b)),
     dec_sub = (\<lambda>a b. within 315 (a - b)),
     dec_mul = (\<lambda>a b. within 315 (chop (a * b))),
     dec_quo = (\<lambda>a b. if b = 0 then None else within 315 (chop (a * dec_one * dec_one div b))),
     dec_ceil = (\<lambda>a. (a + dec_one - 1) div dec_one * dec_one),
     dec_round = (\<lambda>a. within 255 (chop a)),
     dec_trunc = (\<lambda>a. within 255 (a div dec_one)) \<rparr>"

lemma ref_uint_laws: "uint_laws ref_sdk"
  by (simp add: uint_laws_def ref_sdk_def)

lemma ref_parse_laws: "parse_laws ref_sdk"
  using dec_digits_chars
  by (auto simp: parse_laws_def ref_sdk_def ref_parse_def dec_value_digits list_all_iff)

lemma ref_int_laws: "int_laws ref_sdk"
  by (simp add: int_laws_def ref_sdk_def)

lemma ref_dec_laws: "dec_laws ref_sdk"
  by (simp add: dec_laws_def ref_sdk_def)

lemmas ref_laws = ref_uint_laws ref_int_laws ref_parse_laws ref_dec_laws

section \<open>Consequences of the laws\<close>

lemma uint_add_Some: "\<lbrakk>uint_laws S; a + b < 2 ^ 256\<rbrakk> \<Longrightarrow> uint_add S a b = Some (a + b)"
  by (simp add: uint_laws_def)

lemma uint_add_SomeD: "\<lbrakk>uint_laws S; uint_add S a b = Some c\<rbrakk> \<Longrightarrow> c = a + b \<and> a + b < 2 ^ 256"
  by (auto simp: uint_laws_def split: if_splits)

lemma uint_add_None: "\<lbrakk>uint_laws S; 2 ^ 256 \<le> a + b\<rbrakk> \<Longrightarrow> uint_add S a b = None"
  by (simp add: uint_laws_def)

lemma uint_sub_Some: "\<lbrakk>uint_laws S; b \<le> a\<rbrakk> \<Longrightarrow> uint_sub S a b = Some (a - b)"
  by (simp add: uint_laws_def)

lemma uint_sub_SomeD: "\<lbrakk>uint_laws S; uint_sub S a b = Some c\<rbrakk> \<Longrightarrow> c = a - b \<and> b \<le> a"
  by (auto simp: uint_laws_def split: if_splits)

lemma uint_mul_Some: "\<lbrakk>uint_laws S; a * b < 2 ^ 256\<rbrakk> \<Longrightarrow> uint_mul S a b = Some (a * b)"
  by (simp add: uint_laws_def)

text \<open>The laws of the decimals, one by one.\<close>

lemma dec_of_int_law: "\<lbrakk>dec_laws S; p \<le> 18\<rbrakk> \<Longrightarrow> dec_of_int S i p = Some (i * 10 ^ (18 - p))"
  and dec_add_law: "dec_laws S \<Longrightarrow> dec_add S a b = within 315 (a + b)"
  and dec_sub_law: "dec_laws S \<Longrightarrow> dec_sub S a b = within 315 (a - b)"
  and dec_mul_law: "dec_laws S \<Longrightarrow> dec_mul S a b = within 315 (chop (a * b))"
  and dec_quo_law: "\<lbrakk>dec_laws S; 0 \<le> a; 0 < b\<rbrakk> \<Longrightarrow> dec_quo S a b = within 315 (chop (a * dec_one * dec_one div b))"
  and dec_quo_zero: "dec_laws S \<Longrightarrow> dec_quo S a 0 = None"
  and dec_ceil_law: "\<lbrakk>dec_laws S; 0 \<le> a\<rbrakk> \<Longrightarrow> dec_ceil S a = (a + dec_one - 1) div dec_one * dec_one"
  and dec_round_law: "dec_laws S \<Longrightarrow> dec_round S a = within 255 (chop a)"
  and dec_trunc_law: "\<lbrakk>dec_laws S; 0 \<le> a\<rbrakk> \<Longrightarrow> dec_trunc S a = within 255 (a div dec_one)"
  unfolding dec_laws_def by simp_all

lemma uint_of_big_law: "uint_laws S \<Longrightarrow> uint_of_big S i = (if 0 \<le> i \<and> i < 2 ^ 256 then Some (nat i) else None)"
  and int_of_big_law: "uint_laws S \<Longrightarrow> int_of_big S i = within 255 i"
  unfolding uint_laws_def by simp_all

lemma within_Some: "\<lbrakk>0 \<le> d; d < 2 ^ bits\<rbrakk> \<Longrightarrow> within bits d = Some d"
  by (simp add: within_def)

lemma chop_exact [simp]: "chop (k * dec_one) = k"
  by (auto simp: chop_def chop_pos_def Let_def)

lemma chop_pos_bounds:
  "2 * (chop_pos d * dec_one) \<le> 2 * d + dec_one \<and> 2 * d \<le> 2 * (chop_pos d * dec_one) + dec_one"
proof -
  define q r where "q = d div dec_one" and "r = d mod dec_one"
  have "d = q * dec_one + r" "0 \<le> r" "r < dec_one" by (simp_all add: q_def r_def)
  then show ?thesis
    unfolding chop_pos_def Let_def q_def [symmetric] r_def [symmetric] by auto
qed

lemma chop_nonneg: "0 \<le> d \<Longrightarrow> 0 \<le> chop d"
  by (simp add: chop_def chop_pos_def Let_def pos_imp_zdiv_nonneg_iff)

lemma chop_bounds:
  "0 \<le> d \<Longrightarrow> 2 * (chop d * dec_one) \<le> 2 * d + dec_one \<and> 2 * d \<le> 2 * (chop d * dec_one) + dec_one"
  using chop_pos_bounds [of d] by (simp add: chop_def)

lemma chop_pos_mono: "a \<le> b \<Longrightarrow> chop_pos a \<le> chop_pos b"
proof -
  assume ab: "a \<le> b"
  define q r q' r' where "q = a div dec_one" and "r = a mod dec_one"
    and "q' = b div dec_one" and "r' = b mod dec_one"
  have q: "q \<le> q'" using ab by (simp add: q_def q'_def zdiv_mono1)
  have "a = dec_one * q + r" "b = dec_one * q' + r'"
    by (simp_all add: q_def r_def q'_def r'_def)
  then have r: "q = q' \<longrightarrow> r \<le> r'" using ab by simp
  show ?thesis
    unfolding chop_pos_def Let_def q_def [symmetric] r_def [symmetric] q'_def [symmetric] r'_def [symmetric]
    using q r by (cases "q = q'") (simp_all split: if_split)
qed

lemma chop_mono: "\<lbrakk>0 \<le> a; a \<le> b\<rbrakk> \<Longrightarrow> chop a \<le> chop b"
  by (simp add: chop_def chop_pos_mono)

lemma chop_le: "0 \<le> a \<Longrightarrow> a \<le> k * dec_one \<Longrightarrow> chop a \<le> k"
  using chop_mono [of a "k * dec_one"] by simp

lemma chop_ge: "0 \<le> k \<Longrightarrow> k * dec_one \<le> a \<Longrightarrow> k \<le> chop a"
  using chop_mono [of "k * dec_one" a] by simp

lemma within_Some_iff: "within bits d = Some c \<longleftrightarrow> c = d \<and> \<bar>d\<bar> < 2 ^ bits"
  by (auto simp: within_def)

section \<open>Balances\<close>

text \<open>
  The bank and supply keepers of the SDK over a ledger of spendable balances. \<open>None\<close> is a returned error.
\<close>

type_synonym coin = "bytes \<times> int"
type_synonym sdk_event = "string \<times> (string \<times> string) list"
type_synonym ledger = "bytes \<Rightarrow> bytes \<Rightarrow> int"

record bank =
  module_address :: "string \<Rightarrow> bytes"
  send_to_module :: "bytes \<Rightarrow> string \<Rightarrow> coin \<Rightarrow> ledger \<Rightarrow> ledger option"
  send_from_module :: "string \<Rightarrow> bytes \<Rightarrow> coin \<Rightarrow> ledger \<Rightarrow> ledger option"
  add_coins :: "bytes \<Rightarrow> coin \<Rightarrow> ledger \<Rightarrow> ledger option"
  sub_coins :: "bytes \<Rightarrow> coin \<Rightarrow> ledger \<Rightarrow> ledger option"

definition credit :: "bytes \<Rightarrow> coin \<Rightarrow> ledger \<Rightarrow> ledger" where
  "credit a c l = l(a := (l a)(fst c := l a (fst c) + snd c))"

definition debit :: "bytes \<Rightarrow> coin \<Rightarrow> ledger \<Rightarrow> ledger" where
  "debit a c l = l(a := (l a)(fst c := l a (fst c) - snd c))"

definition move :: "bytes \<Rightarrow> bytes \<Rightarrow> coin \<Rightarrow> ledger \<Rightarrow> ledger option" where
  "move a b c l = (if snd c \<le> l a (fst c) then Some (credit b c (debit a c l)) else None)"

definition bank_laws :: "bank \<Rightarrow> bool" where
  "bank_laws B \<longleftrightarrow>
     (\<forall>a m c l. 0 \<le> snd c \<longrightarrow> send_to_module B a m c l = move a (module_address B m) c l) \<and>
     (\<forall>a m c l. 0 \<le> snd c \<longrightarrow> send_from_module B m a c l = move (module_address B m) a c l) \<and>
     (\<forall>a c l. 0 \<le> snd c \<longrightarrow> add_coins B a c l = Some (credit a c l)) \<and>
     (\<forall>a c l. 0 \<le> snd c \<longrightarrow>
        sub_coins B a c l = (if snd c \<le> l a (fst c) then Some (debit a c l) else None))"

definition ref_bank :: bank where
  "ref_bank = \<lparr>
     module_address = (\<lambda>m. CHR ''#'' # m),
     send_to_module = (\<lambda>a m c l. move a (CHR ''#'' # m) c l),
     send_from_module = (\<lambda>m a c l. move (CHR ''#'' # m) a c l),
     add_coins = (\<lambda>a c l. Some (credit a c l)),
     sub_coins = (\<lambda>a c l. if snd c \<le> l a (fst c) then Some (debit a c l) else None)\<rparr>"

lemma ref_bank_laws: "bank_laws ref_bank"
  by (simp add: bank_laws_def ref_bank_def)

lemma credit_apply: "credit a (d, v) l x e = (if x = a \<and> e = d then l a d + v else l x e)"
  by (simp add: credit_def)

lemma debit_apply: "debit a (d, v) l x e = (if x = a \<and> e = d then l a d - v else l x e)"
  by (simp add: debit_def)

lemma move_back:
  assumes "move a b c l = Some l'" and "0 \<le> snd c" and "0 \<le> l b (fst c)"
  shows "move b a c l' = Some l"
proof -
  obtain d v where c: "c = (d, v)" by (cases c)
  from assms(1) c have l': "l' = credit b c (debit a c l)" and v: "v \<le> l a d"
    by (auto simp: move_def split: if_splits)
  have "v \<le> l' b d" using assms(2,3) v c by (auto simp: l' credit_def debit_def)
  moreover have "credit a c (debit b c l') = l"
    by (auto simp: l' c fun_eq_iff credit_def debit_def)
  ultimately show ?thesis by (simp add: move_def c)
qed

section \<open>Gas meters\<close>

text \<open>
  The gas meter of the SDK over its state \<open>'g\<close>. \<open>None\<close> is the panic of \<open>ConsumeGas\<close>: out of gas or overflow. \<open>gas_laws\<close> is the
  behaviour of the meter of a transaction.
\<close>

record 'g gas_lib =
  g_Limit :: "'g \<Rightarrow> 64 word"
  g_Consumed :: "'g \<Rightarrow> 64 word"
  g_Consume :: "64 word \<Rightarrow> 'g \<Rightarrow> 'g option"

definition gas_laws :: "'g gas_lib \<Rightarrow> bool" where
  "gas_laws G \<longleftrightarrow>
     (\<forall>a g. (g_Consume G a g = None) \<longleftrightarrow> unat (g_Limit G g) < unat (g_Consumed G g) + unat a) \<and>
     (\<forall>a g g'. g_Consume G a g = Some g' \<longrightarrow> g_Limit G g' = g_Limit G g \<and> g_Consumed G g' = g_Consumed G g + a)"

text \<open>A meter with the limit and the gas consumed, as an instance.\<close>

definition ref_gas :: "(64 word \<times> 64 word) gas_lib" where
  "ref_gas = \<lparr>g_Limit = fst, g_Consumed = snd,
     g_Consume = (\<lambda>a g. if unat (fst g) < unat (snd g) + unat a then None else Some (fst g, snd g + a))\<rparr>"

lemma ref_gas_laws: "gas_laws ref_gas"
  by (auto simp: gas_laws_def ref_gas_def split: if_splits)

end
