(* ===== verification/DnTypes.thy ===== *)
theory DnTypes
  imports KVStore Cosmos
begin

text \<open>
  The helper packages: identifiers, denomination and asset-code filters (\<open>helpers/types\<close>),
  integer-to-bytes conversions (\<open>helpers/big.go\<close>), Ethereum address check (\<open>helpers/eth.go\<close>), pagination
  (\<open>helpers/input_parsers.go\<close>), module permissions (\<open>helpers/perms\<close>, \<open>helpers/caller.go\<close>).
\<close>

section \<open>Identifiers\<close>

text \<open>
  A \<open>dnTypes.ID\<close> is an \<open>sdk.Uint\<close>. Inside the keepers it is always set and is modelled as the number;
  where the nil identifier \<open>ID{}\<close> can occur (messages, genesis objects) it is an option.
\<close>

type_synonym ID = nat

datatype id_error = IDNil | IDEmpty | IDNotConverted

definition ID_Valid :: "ID option \<Rightarrow> (id_error, unit) res" where
  "ID_Valid i = (if i = None then Err IDNil else Ok ())"

definition ID_UInt64 :: "ID \<Rightarrow> nat option" where
  "ID_UInt64 i = (if i < 2 ^ 64 then Some i else None)"

definition ID_Incr :: "sdk \<Rightarrow> ID \<Rightarrow> ID option" where
  "ID_Incr S i = uint_add S i 1"

definition ID_Decr :: "sdk \<Rightarrow> ID \<Rightarrow> ID option" where
  "ID_Decr S i = uint_sub S i 1"

definition ID_String :: "ID \<Rightarrow> string" where
  "ID_String i = dec_digits i"

definition NewIDFromString :: "sdk \<Rightarrow> string \<Rightarrow> (id_error, ID) res" where
  "NewIDFromString S str =
     (if str = [] then Err IDEmpty
      else (case uint_parse S str of Some n \<Rightarrow> Ok n | None \<Rightarrow> Err IDNotConverted))"

lemma NewIDFromString_String: "\<lbrakk>parse_laws S; i < 2 ^ 256\<rbrakk> \<Longrightarrow> NewIDFromString S (ID_String i) = Ok i"
  by (simp add: NewIDFromString_def ID_String_def parse_laws_def)

text \<open>The successor used by the \<open>nextID\<close> functions of the keepers: a fresh counter starts at zero.\<close>

definition incr_id :: "sdk \<Rightarrow> ID option \<Rightarrow> ID option" where
  "incr_id S lst = (case lst of None \<Rightarrow> Some 0 | Some n \<Rightarrow> ID_Incr S n)"

lemma incr_id_SomeD: "\<lbrakk>uint_laws S; incr_id S lst = Some n\<rbrakk> \<Longrightarrow> n = next_id lst"
  by (auto simp: incr_id_def ID_Incr_def next_id_def dest: uint_add_SomeD split: option.splits)

lemma incr_id_Some: "\<lbrakk>uint_laws S; next_id lst < 2 ^ 256\<rbrakk> \<Longrightarrow> incr_id S lst = Some (next_id lst)"
  by (auto simp: incr_id_def ID_Incr_def next_id_def uint_add_Some split: option.splits)

lemma incr_id_bound: "\<lbrakk>uint_laws S; incr_id S lst = Some n\<rbrakk> \<Longrightarrow> n < 2 ^ 256"
  by (auto simp: incr_id_def ID_Incr_def dest: uint_add_SomeD split: option.splits)

section \<open>String filters\<close>

datatype rune_error = NonASCII | NonLowerCasedLetter | LetterNotLowerCased

datatype filter_error =
    StrEmpty
  | InvalidDenom
  | DelimiterPrefix
  | DelimiterSuffix
  | DelimiterNotFound
  | DelimiterMultiple
  | RuneAt nat rune_error

type_synonym str_filter_opt = "string \<Rightarrow> filter_error option"
type_synonym rune_filter_opt = "char \<Rightarrow> rune_error option"

fun str_opts :: "str_filter_opt list \<Rightarrow> string \<Rightarrow> filter_error option" where
  "str_opts [] s = None"
| "str_opts (opt # opts) s = (case opt s of Some e \<Rightarrow> Some e | None \<Rightarrow> str_opts opts s)"

fun rune_opts :: "rune_filter_opt list \<Rightarrow> char \<Rightarrow> rune_error option" where
  "rune_opts [] r = None"
| "rune_opts (opt # opts) r = (case opt r of Some e \<Rightarrow> Some e | None \<Rightarrow> rune_opts opts r)"

text \<open>
  The loop over the runes. The filters in use start with \<open>runeIsASCII\<close>: the first byte above 127
  begins a rune outside ASCII and stops the loop, so that up to there a rune is a byte.
\<close>

fun rune_loop :: "rune_filter_opt list \<Rightarrow> nat \<Rightarrow> string \<Rightarrow> filter_error option" where
  "rune_loop opts i [] = None"
| "rune_loop opts i (r # rs) =
     (case rune_opts opts r of Some e \<Rightarrow> Some (RuneAt i e) | None \<Rightarrow> rune_loop opts (Suc i) rs)"

definition stringFilter :: "string \<Rightarrow> str_filter_opt list \<Rightarrow> rune_filter_opt list \<Rightarrow> (filter_error, unit) res" where
  "stringFilter str strOpts runeOpts =
     (case str_opts strOpts str of
        Some e \<Rightarrow> Err e
      | None \<Rightarrow> if runeOpts = [] then Ok ()
                else (case rune_loop runeOpts 0 str of Some e \<Rightarrow> Err e | None \<Rightarrow> Ok ()))"

definition stringNotEmpty :: str_filter_opt where
  "stringNotEmpty s = (if length s = 0 then Some StrEmpty else None)"

definition validCoinDenom :: "sdk \<Rightarrow> str_filter_opt" where
  "validCoinDenom S s = (if denom_valid S s then None else Some InvalidDenom)"

definition newDelimiterStrFilterOpt :: "char \<Rightarrow> str_filter_opt" where
  "newDelimiterStrFilterOpt d s =
     (if s \<noteq> [] \<and> hd s = d then Some DelimiterPrefix
      else if s \<noteq> [] \<and> List.last s = d then Some DelimiterSuffix
      else if count_list s d = 0 then Some DelimiterNotFound
      else if count_list s d > 1 then Some DelimiterMultiple
      else None)"

definition runeIsASCII :: rune_filter_opt where
  "runeIsASCII r = (if of_char r > (127 :: nat) then Some NonASCII else None)"

definition is_lower_ascii :: "char \<Rightarrow> bool" where
  "is_lower_ascii r \<longleftrightarrow> 97 \<le> (of_char r :: nat) \<and> (of_char r :: nat) \<le> 122"

definition runeIsLowerCasedLetter :: rune_filter_opt where
  "runeIsLowerCasedLetter r = (if is_lower_ascii r then None else Some NonLowerCasedLetter)"

definition newIsLowerCasedLetterOrDelimiter :: "char \<Rightarrow> rune_filter_opt" where
  "newIsLowerCasedLetterOrDelimiter d r = (if r = d then None else runeIsLowerCasedLetter r)"

definition AssetCodeDelimiter :: char where
  "AssetCodeDelimiter = CHR ''_''"

definition DenomFilter :: "sdk \<Rightarrow> string \<Rightarrow> (filter_error, unit) res" where
  "DenomFilter S denom =
     stringFilter denom [stringNotEmpty, validCoinDenom S] [runeIsASCII, runeIsLowerCasedLetter]"

definition AssetCodeFilter :: "string \<Rightarrow> (filter_error, unit) res" where
  "AssetCodeFilter code =
     stringFilter code [stringNotEmpty, newDelimiterStrFilterOpt AssetCodeDelimiter]
       [runeIsASCII, newIsLowerCasedLetterOrDelimiter AssetCodeDelimiter]"

lemma rune_loop_None_iff: "rune_loop opts i s = None \<longleftrightarrow> (\<forall>r \<in> set s. rune_opts opts r = None)"
  by (induction s arbitrary: i) (auto split: option.splits)

lemma stringFilter_Ok_iff:
  "stringFilter s so ro = Ok () \<longleftrightarrow>
     str_opts so s = None \<and> (\<forall>r \<in> set s. rune_opts ro r = None)"
  using rune_loop_None_iff [of ro 0 s]
  by (cases "rune_loop ro 0 s") (auto simp: stringFilter_def split: option.splits)

lemma DenomFilter_Ok_iff:
  "DenomFilter S s = Ok () \<longleftrightarrow> s \<noteq> [] \<and> denom_valid S s \<and> (\<forall>c \<in> set s. is_lower_ascii c)"
  by (auto simp: DenomFilter_def stringFilter_Ok_iff stringNotEmpty_def validCoinDenom_def
      runeIsASCII_def runeIsLowerCasedLetter_def is_lower_ascii_def split: if_splits)

lemma AssetCodeFilter_Ok_iff:
  "AssetCodeFilter s = Ok () \<longleftrightarrow>
     s \<noteq> [] \<and> hd s \<noteq> CHR ''_'' \<and> List.last s \<noteq> CHR ''_'' \<and> count_list s (CHR ''_'') = 1 \<and>
     (\<forall>c \<in> set s. c = CHR ''_'' \<or> is_lower_ascii c)"
  by (auto simp: AssetCodeFilter_def stringFilter_Ok_iff stringNotEmpty_def newDelimiterStrFilterOpt_def
      AssetCodeDelimiter_def runeIsASCII_def newIsLowerCasedLetterOrDelimiter_def
      runeIsLowerCasedLetter_def is_lower_ascii_def split: if_splits)

section \<open>Asset codes\<close>

type_synonym AssetCode = string

definition AssetCode_Validate :: "AssetCode \<Rightarrow> (filter_error, unit) res" where
  "AssetCode_Validate a = AssetCodeFilter a"

definition ReverseCode :: "AssetCode \<Rightarrow> AssetCode option" where
  "ReverseCode a =
     (let parts = split_on (CHR ''_'') a in
      if length parts \<noteq> 2 then None else Some (parts ! 1 @ ''_'' @ parts ! 0))"

lemma ReverseCode_pair:
  assumes "CHR ''_'' \<notin> set b" and "CHR ''_'' \<notin> set q"
  shows "ReverseCode (b @ ''_'' @ q) = Some (q @ ''_'' @ b)"
  using split_on_append_sep [OF assms(1), of q] split_on_notin [OF assms(2)]
  by (simp add: ReverseCode_def)

lemma one_delimiter_split:
  assumes "count_list a d = 1"
  obtains b q where "a = b @ d # q" and "d \<notin> set b" and "d \<notin> set q"
proof -
  obtain b q where "a = b @ d # q" "d \<notin> set b"
    using split_list_first [of d a] assms by (metis count_list_0_iff zero_neq_one)
  moreover from this assms have "d \<notin> set q"
    by (simp add: count_list_0_iff)
  ultimately show ?thesis using that by blast
qed

section \<open>Integers as bytes\<close>

text \<open>\<open>big.Int.Bytes\<close>: big-endian bytes of the absolute value, without leading zeros (zero is empty).\<close>

function big_bytes :: "nat \<Rightarrow> bytes" where
  "big_bytes n = (if n = 0 then [] else big_bytes (n div 256) @ [char_of n])"
  by auto
termination by (relation "measure id") auto

declare big_bytes.simps [simp del]

text \<open>The loop that swaps the bytes \<open>i\<close> and \<open>len - i - 1\<close> for \<open>i < len / 2\<close>.\<close>

function swap_loop :: "nat \<Rightarrow> 'a list \<Rightarrow> 'a list" where
  "swap_loop i bs =
     (if i < length bs div 2
      then swap_loop (Suc i) (bs[i := bs ! (length bs - i - 1), length bs - i - 1 := bs ! i])
      else bs)"
  by auto
termination by (relation "measure (\<lambda>(i, bs). length bs - i)") auto

declare swap_loop.simps [simp del]

definition BigToBytes :: "int \<Rightarrow> nat \<Rightarrow> bytes" where
  "BigToBytes val bytesLen =
     (let bs = big_bytes (nat \<bar>val\<bar>);
          bs' = (if length bs < bytesLen then replicate (bytesLen - length bs) (char_of (0 :: nat)) @ bs else bs)
      in swap_loop 0 bs')"

definition LeToBig :: "sdk \<Rightarrow> bytes \<Rightarrow> int option" where
  "LeToBig S bs = int_of_big S (int (be_to_nat 0 (swap_loop 0 bs)))"

lemma swap_loop_nth:
  assumes "i \<le> length bs div 2"
  shows "length (swap_loop i bs) = length bs \<and>
    (\<forall>k < length bs. swap_loop i bs ! k =
       (if i \<le> k \<and> k < length bs - i then bs ! (length bs - k - 1) else bs ! k))"
  using assms
proof (induction i bs rule: swap_loop.induct)
  case (1 i bs)
  show ?case
  proof (cases "i < length bs div 2")
    case True
    let ?bs = "bs[i := bs ! (length bs - i - 1), length bs - i - 1 := bs ! i]"
    have eq: "swap_loop i bs = swap_loop (Suc i) ?bs"
      using True by (subst swap_loop.simps) simp
    from True have "Suc i \<le> length ?bs div 2" by simp
    from 1(1) [OF True this] True show ?thesis
      unfolding eq by (auto simp: nth_list_update)
  next
    case False
    with 1(2) have "i = length bs div 2" by simp
    moreover have "swap_loop i bs = bs"
      using False by (subst swap_loop.simps) simp
    moreover have "length bs - k - 1 = k" if "length bs div 2 \<le> k" "k < length bs - length bs div 2" for k
      using that by linarith
    ultimately show ?thesis by simp
  qed
qed

lemma swap_loop_rev: "swap_loop 0 bs = rev bs"
  using swap_loop_nth [of 0 bs] by (intro nth_equalityI) (auto simp: rev_nth)

lemma be_to_nat_append: "be_to_nat acc (xs @ ys) = be_to_nat (be_to_nat acc xs) ys"
  by (induction xs arbitrary: acc) auto

lemma be_to_nat_big_bytes: "be_to_nat 0 (big_bytes n) = n"
proof (induction n rule: big_bytes.induct)
  case (1 n)
  then show ?case
    by (subst big_bytes.simps) (auto simp: be_to_nat_append)
qed

lemma be_to_nat_zeros: "be_to_nat 0 (replicate k (char_of (0 :: nat)) @ bs) = be_to_nat 0 bs"
  by (induction k) auto

lemma length_big_bytes: "n < 256 ^ k \<Longrightarrow> length (big_bytes n) \<le> k"
proof (induction k arbitrary: n)
  case 0
  then show ?case by (subst big_bytes.simps) simp
next
  case (Suc k)
  then have "n div 256 < 256 ^ k" by (simp add: less_mult_imp_div_less mult.commute)
  with Suc.IH show ?case by (subst big_bytes.simps) simp
qed

lemma LeToBig_BigToBytes:
  "\<lbrakk>uint_laws S; \<bar>v\<bar> < 2 ^ 255\<rbrakk> \<Longrightarrow> LeToBig S (BigToBytes v n) = Some \<bar>v\<bar>"
  by (auto simp: LeToBig_def BigToBytes_def Let_def swap_loop_rev be_to_nat_zeros
      be_to_nat_big_bytes uint_laws_def within_def)

lemma length_BigToBytes: "nat \<bar>v\<bar> < 256 ^ n \<Longrightarrow> length (BigToBytes v n) = n"
  using length_big_bytes [of "nat \<bar>v\<bar>" n] by (auto simp: BigToBytes_def Let_def swap_loop_rev)

section \<open>Ethereum addresses\<close>

definition EthAddressLength :: nat where
  "EthAddressLength = 20"

definition hex_char :: "char \<Rightarrow> bool" where
  "hex_char c \<longleftrightarrow>
     (let n = (of_char c :: nat) in (48 \<le> n \<and> n \<le> 57) \<or> (65 \<le> n \<and> n \<le> 70) \<or> (97 \<le> n \<and> n \<le> 102))"

definition isHex :: "string \<Rightarrow> bool" where
  "isHex s \<longleftrightarrow> even (length s) \<and> list_all hex_char s"

definition IsEthereumAddress :: "string \<Rightarrow> bool" where
  "IsEthereumAddress address =
     (if length address < 2 then False
      else let s = drop 2 address in length s = 2 * EthAddressLength \<and> isHex s)"

section \<open>Pagination\<close>

datatype page_error = SliceLenLTZero | PageIsZero | LimitIsZero

definition uint64_of :: "nat \<Rightarrow> 64 word option" where
  "uint64_of n = (if n < 2 ^ 64 then Some (of_nat n) else None)"

definition PaginateSlice :: "int \<Rightarrow> nat \<Rightarrow> nat \<Rightarrow> (page_error, 64 word \<times> 64 word) res" where
  "PaginateSlice sliceLen page limit =
     (if sliceLen < 0 then Err SliceLenLTZero
      else if page = 0 then Err PageIsZero
      else if limit = 0 then Err LimitIsZero
      else if sliceLen = 0 then Ok (0, 0)
      else bind_res (from_opt (uint64_of page)) (\<lambda>p.
           bind_res (from_opt (uint64_of limit)) (\<lambda>l.
             let start = (p - 1) * l; end' = l + start; len = word_of_int sliceLen in
             if len \<le> start then Ok (0, 0)
             else if len \<le> end' then Ok (start, len)
             else Ok (start, end'))))"

text \<open>A Go slice expression \<open>xs[start:end]\<close>: a panic when the bounds are out of order or of range.\<close>

definition go_slice :: "'a list \<Rightarrow> nat \<Rightarrow> nat \<Rightarrow> ('e, 'a list) res" where
  "go_slice xs start end' =
     (if start \<le> end' \<and> end' \<le> length xs then Ok (take (end' - start) (drop start xs)) else Panic)"

text \<open>The pattern of the list queries: paginate, an empty result on an error, then slice.\<close>

definition paginate_list :: "'a list \<Rightarrow> nat \<Rightarrow> nat \<Rightarrow> ('e, 'a list) res" where
  "paginate_list xs page limit =
     (case PaginateSlice (int (length xs)) page limit of
        Err e \<Rightarrow> Ok []
      | Panic \<Rightarrow> Panic
      | Ok (start, end') \<Rightarrow> go_slice xs (unat start) (unat end'))"

lemma unat64: "n < 2 ^ 64 \<Longrightarrow> unat (of_nat n :: 64 word) = n"
  by (simp add: unat_of_nat)

lemma paginate_list_page:
  fixes xs :: "'a list"
  assumes page: "0 < page" and limit: "0 < limit"
    and small: "page * limit < 2 ^ 64" and len: "length xs < 2 ^ 63"
  shows "paginate_list xs page limit = Ok (take limit (drop ((page - 1) * limit) xs))"
proof (cases "xs = []")
  case True
  with page limit show ?thesis
    by (simp add: paginate_list_def PaginateSlice_def go_slice_def)
next
  case False
  have pl: "page < 2 ^ 64" "limit < 2 ^ 64"
    using small page limit by (metis le_less_trans mult_le_mono1 mult_le_mono2 nat_mult_1 nat_mult_1_right less_eq_Suc_le One_nat_def)+
  let ?s = "(page - 1) * limit"
  have sum: "limit + ?s = page * limit"
    using page by (cases page) auto
  have s: "?s < 2 ^ 64" using small sum by linarith
  define p l :: "64 word" where "p = of_nat page" and "l = of_nat limit"
  have up: "unat p = page" and ul: "unat l = limit"
    using pl by (simp_all only: p_def l_def unat64)
  have "p - 1 = of_nat (page - 1)" using page by (simp add: p_def of_nat_diff)
  then have w: "(p - 1) * l = of_nat ?s" by (simp add: l_def)
  then have us: "unat ((p - 1) * l) = ?s" using s by (simp only: unat64)
  have "l + (p - 1) * l = of_nat (page * limit)"
    unfolding w by (simp only: l_def of_nat_add [symmetric] sum)
  then have ue: "unat (l + (p - 1) * l) = page * limit"
    using small by (simp only: unat64)
  have un: "unat (word_of_int (int (length xs)) :: 64 word) = length xs"
    using len unat64 [of "length xs"] by (simp add: word_of_int_eq_iff)
  have P: "PaginateSlice (int (length xs)) page limit =
      (if length xs \<le> ?s then Ok (0, 0)
       else if length xs \<le> page * limit then Ok ((p - 1) * l, word_of_int (int (length xs)))
       else Ok ((p - 1) * l, l + (p - 1) * l))"
    unfolding PaginateSlice_def uint64_of_def Let_def word_le_nat_alt
    using False page limit pl
    by (simp add: p_def [symmetric] l_def [symmetric] us [simplified] ue [simplified] un [simplified])
  show ?thesis
  proof (cases "length xs \<le> ?s")
    case True
    then show ?thesis unfolding paginate_list_def P by (simp add: go_slice_def)
  next
    case n: False
    show ?thesis
    proof (cases "length xs \<le> page * limit")
      case True
      with n sum have "take (length xs - ?s) (drop ?s xs) = take limit (drop ?s xs)"
        by simp
      with n True show ?thesis
        unfolding paginate_list_def P by (simp only: if_False if_True res.case prod.case us un go_slice_def) simp
    next
      case False
      from sum have "page * limit - ?s = limit" "?s \<le> page * limit" by linarith+
      with n False show ?thesis
        unfolding paginate_list_def P by (simp only: if_False res.case prod.case us ue go_slice_def) simp
    qed
  qed
qed

section \<open>Module permissions\<close>

type_synonym Permission = string

record ModulePermissions =
  mp_name :: string
  mp_perms :: "Permission list"
  mp_modsPerms :: "string \<rightharpoonup> (Permission \<Rightarrow> bool)"

datatype perm_error =
    RequesterNameEmpty
  | RequesterPermsEmpty
  | PermNotAllowedByTarget Permission
  | ModuleNotSupported string
  | PermNotAllowed Permission

definition NewModulePermissions :: "string \<Rightarrow> Permission list \<Rightarrow> ModulePermissions" where
  "NewModulePermissions targetModuleName targetPerms =
     \<lparr>mp_name = targetModuleName, mp_perms = targetPerms, mp_modsPerms = Map.empty\<rparr>"

fun add_perms_loop :: "Permission list \<Rightarrow> Permission list \<Rightarrow> (Permission \<Rightarrow> bool) \<Rightarrow> (perm_error, Permission \<Rightarrow> bool) res" where
  "add_perms_loop allowed [] m = Ok m"
| "add_perms_loop allowed (p # ps) m =
     (if p \<in> set allowed then add_perms_loop allowed ps (m(p := True)) else Err (PermNotAllowedByTarget p))"

definition AddModulePermission ::
  "string \<times> Permission list \<Rightarrow> ModulePermissions \<Rightarrow> (perm_error, unit) res \<times> ModulePermissions" where
  "AddModulePermission requester m =
     (case requester of (moduleName, modulePerms) \<Rightarrow>
       if moduleName = [] then (Err RequesterNameEmpty, m)
       else if modulePerms = [] then (Err RequesterPermsEmpty, m)
       else (case add_perms_loop (mp_perms m) modulePerms (\<lambda>_. False) of
               Ok mm \<Rightarrow> (Ok (), m\<lparr>mp_modsPerms := (mp_modsPerms m)(moduleName \<mapsto> mm)\<rparr>)
             | Err e \<Rightarrow> (Err e, m)
             | Panic \<Rightarrow> (Panic, m)))"

definition AutoAddRequester :: "string \<times> Permission list \<Rightarrow> ModulePermissions \<Rightarrow> ModulePermissions option" where
  "AutoAddRequester requester m =
     (case AddModulePermission requester m of (Ok _, m') \<Rightarrow> Some m' | _ \<Rightarrow> None)"

definition Perms_Check :: "ModulePermissions \<Rightarrow> string \<Rightarrow> Permission \<Rightarrow> (perm_error, unit) res" where
  "Perms_Check m moduleName expectedPerm =
     (case mp_modsPerms m moduleName of
        None \<Rightarrow> Err (ModuleNotSupported moduleName)
      | Some mm \<Rightarrow> if mm expectedPerm then Ok () else Err (PermNotAllowed expectedPerm))"

text \<open>\<open>AutoCheck\<close>, given the module names that \<open>Caller\<close> reads off the two stack frames.\<close>

definition AutoCheck :: "ModulePermissions \<Rightarrow> string \<Rightarrow> string \<Rightarrow> Permission \<Rightarrow> (perm_error, unit) res" where
  "AutoCheck m requesterModule callerModule expectedPerm =
     (if callerModule = requesterModule then Ok ()
      else (case Perms_Check m callerModule expectedPerm of Ok _ \<Rightarrow> Ok () | _ \<Rightarrow> Panic))"

text \<open>The module name that \<open>Caller\<close> derives from the function path of a stack frame.\<close>

definition fixDotNotation :: "string \<Rightarrow> string" where
  "fixDotNotation moduleName = takeWhile (\<lambda>c. c \<noteq> CHR ''.'') moduleName"

fun after_x :: "string list \<Rightarrow> string option" where
  "after_x [] = None"
| "after_x [x] = None"
| "after_x (x # y # ys) = (if x = ''x'' then Some y else after_x (y # ys))"

definition getModuleID :: "string \<Rightarrow> string" where
  "getModuleID v =
     (let items = split_on (CHR ''/'') v in
      case after_x items of
        Some m \<Rightarrow> fixDotNotation m
      | None \<Rightarrow> if length items > 1 then fixDotNotation (List.last items) else ''unknownModule'')"

lemma add_perms_loop_Ok:
  "add_perms_loop al ps m = Ok mm \<longleftrightarrow> set ps \<subseteq> set al \<and> mm = (\<lambda>p. m p \<or> p \<in> set ps)"
  by (induction ps arbitrary: m) auto

lemma add_perms_loop_not_Panic: "add_perms_loop al ps m \<noteq> Panic"
  by (induction ps arbitrary: m) auto

lemma AddModulePermission_Ok:
  assumes "AddModulePermission (n, ps) m = (Ok (), m')"
  shows "n \<noteq> []" and "set ps \<subseteq> set (mp_perms m)" and "mp_perms m' = mp_perms m"
    and "Perms_Check m' k p =
      (if k = n then if p \<in> set ps then Ok () else Err (PermNotAllowed p) else Perms_Check m k p)"
  using assms
  by (auto simp: AddModulePermission_def Perms_Check_def add_perms_loop_Ok split: if_splits res.splits)

text \<open>Every granted permission is one the target module declares.\<close>

definition perms_inv :: "ModulePermissions \<Rightarrow> bool" where
  "perms_inv m \<longleftrightarrow> (\<forall>n mm p. mp_modsPerms m n = Some mm \<longrightarrow> mm p \<longrightarrow> p \<in> set (mp_perms m))"

lemma perms_inv_New: "perms_inv (NewModulePermissions n ps)"
  by (simp add: perms_inv_def NewModulePermissions_def)

lemma perms_inv_Add: "perms_inv m \<Longrightarrow> perms_inv (snd (AddModulePermission r m))"
  by (cases r) (auto simp: perms_inv_def AddModulePermission_def add_perms_loop_Ok
      split: if_splits res.splits)

end
