(* ===== verification/CommonVM.thy ===== *)
theory CommonVM
  imports DnTypes
begin

text \<open>
  The storage of the virtual machine: the key format of \<open>x/common_vm/common.go\<close> and the value accessors
  of \<open>x/vm/internal/keeper/keeper_vm.go\<close>, with the interface \<open>VMStorage\<close> that the other keepers use as
  the locale \<open>vm_storage\<close>.
\<close>

section \<open>Keys\<close>

record VMAccessPath =
  ap_Address :: bytes
  ap_Path :: bytes

definition VMAddressLength :: nat where
  "VMAddressLength = 20"

definition VMKey :: bytes where
  "VMKey = ''vm''"

definition StdLibAddress :: bytes where
  "StdLibAddress = replicate 19 (char_of (0 :: nat)) @ [char_of (1 :: nat)]"

definition GetPathKey :: "VMAccessPath \<Rightarrow> bytes" where
  "GetPathKey path = join_with (CHR '':'') [VMKey, ap_Address path, ap_Path path]"

definition GetPathPrefixKey :: bytes where
  "GetPathPrefixKey = VMKey @ '':''"

text \<open>\<open>None\<close> is the panic of \<open>MustParsePathKey\<close>.\<close>

definition MustParsePathKey :: "bytes \<Rightarrow> VMAccessPath option" where
  "MustParsePathKey key =
     (let expectedMinLen = length VMKey + 1 + VMAddressLength + 1 + 1 in
      if length key < expectedMinLen then None
      else let prefixEndIdx = length VMKey;
               delimiterFirstEndIdx = prefixEndIdx + 1;
               addressEndIdx = delimiterFirstEndIdx + VMAddressLength;
               delimiterSecondEndIdx = addressEndIdx + 1;
               prefixValue = take prefixEndIdx key;
               delimiterFirstValue = take 1 (drop prefixEndIdx key);
               addressValue = take VMAddressLength (drop delimiterFirstEndIdx key);
               delimiterSecondValue = take 1 (drop addressEndIdx key);
               pathValue = drop delimiterSecondEndIdx key
           in if prefixValue \<noteq> VMKey then None
              else if delimiterFirstValue \<noteq> '':'' then None
              else if delimiterSecondValue \<noteq> '':'' then None
              else Some \<lparr>ap_Address = addressValue, ap_Path = pathValue\<rparr>)"

text \<open>\<open>Bech32ToLibra\<close>: the bytes of the account address.\<close>

definition Bech32ToLibra :: "bytes \<Rightarrow> bytes" where
  "Bech32ToLibra addr = addr"

definition vm_path_ok :: "VMAccessPath \<Rightarrow> bool" where
  "vm_path_ok p \<longleftrightarrow> length (ap_Address p) = VMAddressLength"

lemma GetPathKey_expand: "GetPathKey p = ''vm:'' @ ap_Address p @ '':'' @ ap_Path p"
  by (simp add: GetPathKey_def VMKey_def)

lemma GetPathKey_inject [key_simps]:
  "\<lbrakk>vm_path_ok p; vm_path_ok q\<rbrakk> \<Longrightarrow> GetPathKey p = GetPathKey q \<longleftrightarrow> p = q"
  by (cases p; cases q) (auto simp: GetPathKey_expand vm_path_ok_def)

lemma MustParsePathKey_GetPathKey:
  "\<lbrakk>vm_path_ok p; ap_Path p \<noteq> []\<rbrakk> \<Longrightarrow> MustParsePathKey (GetPathKey p) = Some p"
  by (cases p; cases "ap_Path p")
    (auto simp: MustParsePathKey_def GetPathKey_expand vm_path_ok_def VMKey_def VMAddressLength_def Let_def)

lemma MustParsePathKey_SomeD:
  assumes "MustParsePathKey key = Some p"
  shows "key = GetPathKey p \<and> vm_path_ok p \<and> ap_Path p \<noteq> []"
proof -
  from assms have len: "24 < length key"
    and a: "take 2 key = ''vm''" and b: "take 1 (drop 2 key) = '':''" and c: "take 1 (drop 23 key) = '':''"
    and p: "p = \<lparr>ap_Address = take 20 (drop 3 key), ap_Path = drop 24 key\<rparr>"
    by (auto simp: MustParsePathKey_def VMKey_def VMAddressLength_def Let_def numeral_2_eq_2 numeral_3_eq_3 split: if_splits)
  have "key = take 2 key @ take 1 (drop 2 key) @ take 20 (drop 3 key) @ take 1 (drop 23 key) @ drop 24 key"
    using append_take_drop_id [of 20 "drop 3 key"] append_take_drop_id [of 1 "drop 23 key"]
      append_take_drop_id [of 1 "drop 2 key"] append_take_drop_id [of 2 key]
    by (simp add: numeral_3_eq_3)
  then have "key = ''vm'' @ '':'' @ take 20 (drop 3 key) @ '':'' @ drop 24 key"
    unfolding a b c .
  with len p show ?thesis
    by (simp add: GetPathKey_expand vm_path_ok_def VMAddressLength_def)
qed

section \<open>Value accessors\<close>

type_synonym vm_store = "bytes kv"

definition hasValue :: "vm_store \<Rightarrow> VMAccessPath \<Rightarrow> bool" where
  "hasValue st accessPath = kv_has (GetPathKey accessPath) st"

definition getValue :: "vm_store \<Rightarrow> VMAccessPath \<Rightarrow> bytes option" where
  "getValue st accessPath = kv_get (GetPathKey accessPath) st"

definition setValue :: "VMAccessPath \<Rightarrow> bytes \<Rightarrow> vm_store \<Rightarrow> vm_store" where
  "setValue accessPath v st = kv_set (GetPathKey accessPath) v st"

definition delValue :: "VMAccessPath \<Rightarrow> vm_store \<Rightarrow> vm_store" where
  "delValue accessPath st = kv_del (GetPathKey accessPath) st"

text \<open>The interface \<open>VMStorage\<close> as the keepers use it.\<close>

locale vm_storage =
  fixes has :: "'s \<Rightarrow> VMAccessPath \<Rightarrow> bool"
    and get :: "'s \<Rightarrow> VMAccessPath \<Rightarrow> bytes option"
    and set' :: "VMAccessPath \<Rightarrow> bytes \<Rightarrow> 's \<Rightarrow> 's"
    and del :: "VMAccessPath \<Rightarrow> 's \<Rightarrow> 's"
  assumes has_get: "has st p \<longleftrightarrow> get st p \<noteq> None"
    and get_set: "\<lbrakk>vm_path_ok p; vm_path_ok q\<rbrakk> \<Longrightarrow> get (set' p v st) q = (if q = p then Some v else get st q)"
    and get_del: "\<lbrakk>vm_path_ok p; vm_path_ok q\<rbrakk> \<Longrightarrow> get (del p st) q = (if q = p then None else get st q)"
begin

text \<open>Writing a list of values: the last write to a path wins, other paths are untouched.\<close>

definition set_all :: "(VMAccessPath \<times> bytes) list \<Rightarrow> 's \<Rightarrow> 's" where
  "set_all ws st = foldl (\<lambda>s w. set' (fst w) (snd w) s) st ws"

lemma get_set_all:
  assumes "\<forall>w \<in> set ws. vm_path_ok (fst w)" and "vm_path_ok q" and "distinct (map fst ws)"
  shows "get (set_all ws st) q = (case map_of ws q of Some v \<Rightarrow> Some v | None \<Rightarrow> get st q)"
  using assms
proof (induction ws arbitrary: st)
  case (Cons w ws)
  then have "map_of ws (fst w) = None" by (simp add: map_of_eq_None_iff)
  with Cons show ?case
    by (auto simp: set_all_def get_set split: option.splits)
qed (simp add: set_all_def)

end

interpretation vms: vm_storage hasValue getValue setValue delValue
  by unfold_locales
    (auto simp: hasValue_def getValue_def setValue_def delValue_def kv_has_iff GetPathKey_inject)

lemma kv_wf_setValue [simp]: "kv_wf st \<Longrightarrow> kv_wf (setValue p v st)"
  by (simp add: setValue_def)

lemma kv_wf_delValue [simp]: "kv_wf st \<Longrightarrow> kv_wf (delValue p st)"
  by (simp add: delValue_def)

end
