(* ===== verification/CCStorage.thy ===== *)
theory CCStorage
  imports CommonVM
begin

text \<open>
  Module \<open>x/ccstorage\<close>: the registry of currencies. The keeper stores the currency objects under
  their denomination and mirrors each of them as a resource in the VM storage; account balances are
  written to and read from the VM storage too. The Move serialisation (\<open>lcs\<close>) and the path hashing
  (\<open>glav\<close>) are libraries outside the repository: the record \<open>vm_lib\<close> with the laws \<open>vm_lib_laws\<close>.
\<close>

section \<open>Types\<close>

record Currency =
  cur_Denom :: string
  cur_Decimals :: "8 word"
  cur_Supply :: int
  cur_ContractAddress :: string

record CurrencyParams =
  cp_Denom :: string
  cp_Decimals :: "8 word"
  cp_ContractAddress :: string

record ResCurrencyInfo =
  ci_Denom :: bytes
  ci_Decimals :: "8 word"
  ci_IsToken :: bool
  ci_Owner :: bytes
  ci_TotalSupply :: int

record Balance =
  bal_Denom :: string
  bal_AccessPath :: VMAccessPath
  bal_Value :: int

datatype ccs_error =
    CcsErrInternal
  | CcsErrWrongDenom
  | CcsErrWrongParams
  | CcsErrDenom filter_error
  | CcsErrDuplicated
  | CcsErrLcs
  | CcsErrEmptyDenom
  | CcsErrAddressLength

record vm_lib =
  BalanceVector :: "string \<Rightarrow> bytes"
  CurrencyInfoVector :: "string \<Rightarrow> bytes"
  lcs_info :: "ResCurrencyInfo \<Rightarrow> bytes option"
  lcs_info_un :: "bytes \<Rightarrow> ResCurrencyInfo option"
  lcs_bal :: "int \<Rightarrow> bytes option"
  lcs_bal_un :: "bytes \<Rightarrow> int option"

definition vm_lib_laws :: "vm_lib \<Rightarrow> bool" where
  "vm_lib_laws L \<longleftrightarrow>
     inj (BalanceVector L) \<and> inj (CurrencyInfoVector L) \<and>
     (\<forall>d e. BalanceVector L d \<noteq> CurrencyInfoVector L e) \<and>
     (\<forall>i b. lcs_info L i = Some b \<longrightarrow> lcs_info_un L b = Some i) \<and>
     (\<forall>v b. lcs_bal L v = Some b \<longrightarrow> lcs_bal_un L b = Some v)"

definition Currency_Valid :: "sdk \<Rightarrow> Currency \<Rightarrow> (ccs_error, unit) res" where
  "Currency_Valid S c = (case DenomFilter S (cur_Denom c) of Err e \<Rightarrow> Err (CcsErrDenom e) | _ \<Rightarrow> Ok ())"

definition UintToDec :: "sdk \<Rightarrow> Currency \<Rightarrow> nat \<Rightarrow> int option" where
  "UintToDec S c quantity = dec_of_int S (int quantity) (unat (cur_Decimals c))"

definition MinDecimal :: "sdk \<Rightarrow> Currency \<Rightarrow> int option" where
  "MinDecimal S c = dec_of_int S 1 (unat (cur_Decimals c))"

definition DecToUint :: "sdk \<Rightarrow> Currency \<Rightarrow> int \<Rightarrow> nat option" where
  "DecToUint S c quantity =
     Option.bind (MinDecimal S c) (\<lambda>m.
     Option.bind (dec_quo S quantity m) (\<lambda>q.
     Option.bind (dec_trunc S q) (\<lambda>r. uint_of_big S r)))"

definition GetSupplyCoin :: "sdk \<Rightarrow> Currency \<Rightarrow> (bytes \<times> int) option" where
  "GetSupplyCoin S c = new_coin S (cur_Denom c) (cur_Supply c)"

definition BalancePath :: "vm_lib \<Rightarrow> Currency \<Rightarrow> bytes" where
  "BalancePath L c = BalanceVector L (cur_Denom c)"

definition InfoPath :: "vm_lib \<Rightarrow> Currency \<Rightarrow> bytes" where
  "InfoPath L c = CurrencyInfoVector L (cur_Denom c)"

definition ToParams :: "Currency list \<Rightarrow> CurrencyParams list" where
  "ToParams l = map (\<lambda>c. \<lparr>cp_Denom = cur_Denom c, cp_Decimals = cur_Decimals c,
                         cp_ContractAddress = cur_ContractAddress c\<rparr>) l"

definition NewCurrency :: "CurrencyParams \<Rightarrow> int \<Rightarrow> Currency" where
  "NewCurrency params supply =
     \<lparr>cur_Denom = cp_Denom params, cur_Decimals = cp_Decimals params, cur_Supply = supply,
      cur_ContractAddress = cp_ContractAddress params\<rparr>"

definition NewResCurrencyInfo :: "Currency \<Rightarrow> bytes \<Rightarrow> (ccs_error, ResCurrencyInfo) res" where
  "NewResCurrencyInfo currency ownerAddress =
     (if length ownerAddress \<noteq> VMAddressLength then Err CcsErrAddressLength
      else Ok \<lparr>ci_Denom = cur_Denom currency, ci_Decimals = cur_Decimals currency,
               ci_IsToken = (ownerAddress \<noteq> StdLibAddress), ci_Owner = ownerAddress,
               ci_TotalSupply = cur_Supply currency\<rparr>)"

definition ResourceBytes :: "vm_lib \<Rightarrow> Balance \<Rightarrow> (ccs_error, bytes) res" where
  "ResourceBytes L b = (case lcs_bal L (bal_Value b) of Some bz \<Rightarrow> Ok bz | None \<Rightarrow> Err CcsErrLcs)"

definition NewBalance :: "vm_lib \<Rightarrow> string \<Rightarrow> VMAccessPath \<Rightarrow> bytes \<Rightarrow> (ccs_error, Balance) res" where
  "NewBalance L denom accessPath resBytes =
     (if denom = [] then Err CcsErrEmptyDenom
      else (case lcs_bal_un L resBytes of
              None \<Rightarrow> Err CcsErrLcs
            | Some v \<Rightarrow> Ok \<lparr>bal_Denom = denom, bal_AccessPath = accessPath, bal_Value = v\<rparr>))"

definition Balance_Coin :: "sdk \<Rightarrow> Balance \<Rightarrow> (bytes \<times> int) option" where
  "Balance_Coin S b = Option.bind (int_of_big S (bal_Value b)) (\<lambda>v. new_coin S (bal_Denom b) v)"

fun Balances_Coins :: "sdk \<Rightarrow> Balance list \<Rightarrow> (bytes \<times> int) list option" where
  "Balances_Coins S [] = Some []"
| "Balances_Coins S (b # bs) =
     (if bal_Value b \<noteq> 0
      then Option.bind (Balance_Coin S b) (\<lambda>c. map_option (Cons c) (Balances_Coins S bs))
      else Balances_Coins S bs)"

section \<open>Keeper\<close>

record ccs_state =
  ccs_currencies :: "Currency kv"
  ccs_vm :: vm_store

definition GetCurrencyKey :: "string \<Rightarrow> bytes" where
  "GetCurrencyKey denom = join_with (CHR '':'') [''currency'', denom]"

definition GetCurrencyKeyPrefix :: bytes where
  "GetCurrencyKeyPrefix = ''currency'' @ '':''"

definition HasCurrency :: "ccs_state \<Rightarrow> string \<Rightarrow> bool" where
  "HasCurrency s denom = kv_has (GetCurrencyKey denom) (ccs_currencies s)"

definition GetCurrencies :: "ccs_state \<Rightarrow> Currency list" where
  "GetCurrencies s = kv_vals (ccs_currencies s)"

definition GetCurrency :: "ccs_state \<Rightarrow> string \<Rightarrow> (ccs_error, Currency) res" where
  "GetCurrency s denom =
     (if \<not> HasCurrency s denom then Err CcsErrWrongDenom
      else from_opt (kv_get (GetCurrencyKey denom) (ccs_currencies s)))"

definition storeCurrency :: "Currency \<Rightarrow> ccs_state \<Rightarrow> ccs_state" where
  "storeCurrency c s = s\<lparr>ccs_currencies := kv_set (GetCurrencyKey (cur_Denom c)) c (ccs_currencies s)\<rparr>"

definition storeResStdCurrencyInfo :: "vm_lib \<Rightarrow> Currency \<Rightarrow> ccs_state \<Rightarrow> ccs_state option" where
  "storeResStdCurrencyInfo L currency s =
     (case NewResCurrencyInfo currency StdLibAddress of
        Ok info \<Rightarrow>
          (case lcs_info L info of
             Some bz \<Rightarrow>
               Some (s\<lparr>ccs_vm := setValue \<lparr>ap_Address = StdLibAddress, ap_Path = InfoPath L currency\<rparr> bz (ccs_vm s)\<rparr>)
           | None \<Rightarrow> None)
      | _ \<Rightarrow> None)"

text \<open>The common tail of the updates: store the object, then its VM resource (or panic).\<close>

definition store_both :: "vm_lib \<Rightarrow> Currency \<Rightarrow> (ccs_state, ccs_error, unit) op" where
  "store_both L c s =
     (let s1 = storeCurrency c s in
      case storeResStdCurrencyInfo L c s1 of Some s2 \<Rightarrow> (Ok (), s2) | None \<Rightarrow> (Panic, s1))"

definition CreateCurrency :: "vm_lib \<Rightarrow> CurrencyParams \<Rightarrow> (ccs_state, ccs_error, unit) op" where
  "CreateCurrency L params s =
     (if HasCurrency s (cp_Denom params) then (Err CcsErrWrongDenom, s)
      else let currency = NewCurrency params 0 in
           case NewResCurrencyInfo currency StdLibAddress of
             Err _ \<Rightarrow> (Err CcsErrWrongParams, s)
           | Panic \<Rightarrow> (Panic, s)
           | Ok _ \<Rightarrow> store_both L currency s)"

definition change_supply ::
  "(int \<Rightarrow> int \<Rightarrow> int option) \<Rightarrow> vm_lib \<Rightarrow> bytes \<times> int \<Rightarrow> (ccs_state, ccs_error, unit) op" where
  "change_supply f L coin s =
     (case GetCurrency s (fst coin) of
        Err e \<Rightarrow> (Err e, s)
      | Panic \<Rightarrow> (Panic, s)
      | Ok currency \<Rightarrow>
          (case f (cur_Supply currency) (snd coin) of
             None \<Rightarrow> (Panic, s)
           | Some supply \<Rightarrow> store_both L (currency\<lparr>cur_Supply := supply\<rparr>) s))"

definition IncreaseCurrencySupply :: "sdk \<Rightarrow> vm_lib \<Rightarrow> bytes \<times> int \<Rightarrow> (ccs_state, ccs_error, unit) op" where
  "IncreaseCurrencySupply S L coin s = change_supply (int_add S) L coin s"

definition DecreaseCurrencySupply :: "sdk \<Rightarrow> vm_lib \<Rightarrow> bytes \<times> int \<Rightarrow> (ccs_state, ccs_error, unit) op" where
  "DecreaseCurrencySupply S L coin s = change_supply (int_sub S) L coin s"

definition GetResStdCurrencyInfo :: "vm_lib \<Rightarrow> ccs_state \<Rightarrow> string \<Rightarrow> (ccs_error, ResCurrencyInfo) res" where
  "GetResStdCurrencyInfo L s denom =
     (let accessPath = \<lparr>ap_Address = StdLibAddress, ap_Path = CurrencyInfoVector L denom\<rparr> in
      if \<not> hasValue (ccs_vm s) accessPath then Err CcsErrInternal
      else (case Option.bind (getValue (ccs_vm s) accessPath) (lcs_info_un L) of
              Some info \<Rightarrow> Ok info
            | None \<Rightarrow> Err CcsErrInternal))"

subsection \<open>Account balances\<close>

definition newBalance :: "vm_lib \<Rightarrow> bytes \<Rightarrow> bytes \<times> int \<Rightarrow> Balance" where
  "newBalance L addr coin =
     \<lparr>bal_Denom = fst coin,
      bal_AccessPath = \<lparr>ap_Address = Bech32ToLibra addr, ap_Path = BalanceVector L (fst coin)\<rparr>,
      bal_Value = snd coin\<rparr>"

fun empty_balances :: "sdk \<Rightarrow> vm_lib \<Rightarrow> bytes \<Rightarrow> string list \<Rightarrow> Currency list \<Rightarrow> Balance list option" where
  "empty_balances S L addr found [] = Some []"
| "empty_balances S L addr found (c # cs) =
     (if cur_Denom c \<in> set found then empty_balances S L addr found cs
      else Option.bind (new_coin S (cur_Denom c) 0) (\<lambda>coin.
             map_option (Cons (newBalance L addr coin)) (empty_balances S L addr found cs)))"

definition newBalances ::
  "sdk \<Rightarrow> vm_lib \<Rightarrow> ccs_state \<Rightarrow> bytes \<Rightarrow> (bytes \<times> int) list \<Rightarrow> (Balance list \<times> Balance list) option" where
  "newBalances S L s addr coins =
     (let filledBalances = map (newBalance L addr) coins in
      map_option (Pair filledBalances) (empty_balances S L addr (map fst coins) (GetCurrencies s)))"

fun write_filled :: "vm_lib \<Rightarrow> Balance list \<Rightarrow> (vm_store, ccs_error, unit) op" where
  "write_filled L [] vm = (Ok (), vm)"
| "write_filled L (b # bs) vm =
     (case ResourceBytes L b of
        Ok bz \<Rightarrow> write_filled L bs (setValue (bal_AccessPath b) bz vm)
      | Err e \<Rightarrow> (Err e, vm)
      | Panic \<Rightarrow> (Panic, vm))"

fun write_empty :: "vm_lib \<Rightarrow> Balance list \<Rightarrow> (vm_store, ccs_error, unit) op" where
  "write_empty L [] vm = (Ok (), vm)"
| "write_empty L (b # bs) vm =
     (if hasValue vm (bal_AccessPath b)
      then (case ResourceBytes L b of
              Ok bz \<Rightarrow> write_empty L bs (setValue (bal_AccessPath b) bz vm)
            | Err e \<Rightarrow> (Err e, vm)
            | Panic \<Rightarrow> (Panic, vm))
      else write_empty L bs vm)"

definition SetAccountBalanceResources ::
  "sdk \<Rightarrow> vm_lib \<Rightarrow> bytes \<Rightarrow> (bytes \<times> int) list \<Rightarrow> (ccs_state, ccs_error, unit) op" where
  "SetAccountBalanceResources S L addr coins s =
     (case newBalances S L s addr coins of
        None \<Rightarrow> (Panic, s)
      | Some (filledBalances, emptyBalances) \<Rightarrow>
          (case write_filled L filledBalances (ccs_vm s) of
             (Ok _, vm1) \<Rightarrow>
               (case write_empty L emptyBalances vm1 of (r, vm2) \<Rightarrow> (r, s\<lparr>ccs_vm := vm2\<rparr>))
           | (r, vm1) \<Rightarrow> (r, s\<lparr>ccs_vm := vm1\<rparr>)))"

definition balance_path :: "vm_lib \<Rightarrow> bytes \<Rightarrow> Currency \<Rightarrow> VMAccessPath" where
  "balance_path L addr c = \<lparr>ap_Address = Bech32ToLibra addr, ap_Path = BalancePath L c\<rparr>"

fun read_balances :: "vm_lib \<Rightarrow> vm_store \<Rightarrow> bytes \<Rightarrow> Currency list \<Rightarrow> (ccs_error, Balance list) res" where
  "read_balances L vm addr [] = Ok []"
| "read_balances L vm addr (c # cs) =
     (case getValue vm (balance_path L addr c) of
        None \<Rightarrow> read_balances L vm addr cs
      | Some bz \<Rightarrow>
          bind_res (NewBalance L (cur_Denom c) (balance_path L addr c) bz) (\<lambda>b.
          bind_res (read_balances L vm addr cs) (\<lambda>bs. Ok (b # bs))))"

definition GetAccountBalanceResources ::
  "vm_lib \<Rightarrow> ccs_state \<Rightarrow> bytes \<Rightarrow> (ccs_error, Balance list) res" where
  "GetAccountBalanceResources L s addr = read_balances L (ccs_vm s) addr (GetCurrencies s)"

definition RemoveAccountBalanceResources :: "vm_lib \<Rightarrow> bytes \<Rightarrow> ccs_state \<Rightarrow> ccs_state" where
  "RemoveAccountBalanceResources L addr s =
     s\<lparr>ccs_vm := foldl (\<lambda>vm c. delValue (balance_path L addr c) vm) (ccs_vm s) (GetCurrencies s)\<rparr>"

subsection \<open>Genesis and squash\<close>

definition CurrencyParams_Validate :: "sdk \<Rightarrow> CurrencyParams \<Rightarrow> (ccs_error, unit) res" where
  "CurrencyParams_Validate S c = (case DenomFilter S (cp_Denom c) of Err e \<Rightarrow> Err (CcsErrDenom e) | _ \<Rightarrow> Ok ())"

fun ccs_validate_loop :: "sdk \<Rightarrow> string list \<Rightarrow> CurrencyParams list \<Rightarrow> (ccs_error, unit) res" where
  "ccs_validate_loop S seen [] = Ok ()"
| "ccs_validate_loop S seen (p # ps) =
     (if cp_Denom p \<in> set seen then Err CcsErrDuplicated
      else bind_res (CurrencyParams_Validate S p) (\<lambda>_. ccs_validate_loop S (cp_Denom p # seen) ps))"

definition CcsGenesis_Validate :: "sdk \<Rightarrow> CurrencyParams list \<Rightarrow> (ccs_error, unit) res" where
  "CcsGenesis_Validate S ps = ccs_validate_loop S [] ps"

text \<open>Initialisation panics on the first currency that cannot be created.\<close>

fun Ccs_InitGenesis :: "vm_lib \<Rightarrow> CurrencyParams list \<Rightarrow> (ccs_state, ccs_error, unit) op" where
  "Ccs_InitGenesis L [] s = (Ok (), s)"
| "Ccs_InitGenesis L (p # ps) s =
     (case CreateCurrency L p s of (Ok _, s') \<Rightarrow> Ccs_InitGenesis L ps s' | (_, s') \<Rightarrow> (Panic, s'))"

definition Ccs_ExportGenesis :: "ccs_state \<Rightarrow> CurrencyParams list" where
  "Ccs_ExportGenesis s =
     map (\<lambda>c. \<lparr>cp_Denom = cur_Denom c, cp_Decimals = cur_Decimals c, cp_ContractAddress = []\<rparr>) (GetCurrencies s)"

fun squash_loop :: "vm_lib \<Rightarrow> Currency list \<Rightarrow> (ccs_state, ccs_error, unit) op" where
  "squash_loop L [] s = (Ok (), s)"
| "squash_loop L (c # cs) s =
     (case store_both L (c\<lparr>cur_Supply := 0\<rparr>) s of (Ok _, s') \<Rightarrow> squash_loop L cs s' | (r, s') \<Rightarrow> (r, s'))"

definition Ccs_PrepareForZeroHeight :: "vm_lib \<Rightarrow> bool \<Rightarrow> (ccs_state, ccs_error, unit) op" where
  "Ccs_PrepareForZeroHeight L setToZero s =
     (if setToZero then squash_loop L (GetCurrencies s) s else (Ok (), s))"

section \<open>The mirror of currencies in the VM storage\<close>

definition info_path :: "vm_lib \<Rightarrow> string \<Rightarrow> VMAccessPath" where
  "info_path L d = \<lparr>ap_Address = StdLibAddress, ap_Path = CurrencyInfoVector L d\<rparr>"

definition std_info :: "Currency \<Rightarrow> ResCurrencyInfo" where
  "std_info c = \<lparr>ci_Denom = cur_Denom c, ci_Decimals = cur_Decimals c, ci_IsToken = False,
     ci_Owner = StdLibAddress, ci_TotalSupply = cur_Supply c\<rparr>"

definition ccs_mirrored :: "vm_lib \<Rightarrow> ccs_state \<Rightarrow> Currency \<Rightarrow> bool" where
  "ccs_mirrored L s c \<longleftrightarrow>
     (\<exists>bz. lcs_info L (std_info c) = Some bz \<and> getValue (ccs_vm s) (info_path L (cur_Denom c)) = Some bz)"

definition ccs_inv :: "vm_lib \<Rightarrow> ccs_state \<Rightarrow> bool" where
  "ccs_inv L s \<longleftrightarrow> kv_wf (ccs_currencies s) \<and> kv_wf (ccs_vm s) \<and>
     (\<forall>k c. kv_get k (ccs_currencies s) = Some c \<longrightarrow> k = GetCurrencyKey (cur_Denom c) \<and> ccs_mirrored L s c)"

lemma GetCurrencyKey_inject [key_simps, simp]: "GetCurrencyKey a = GetCurrencyKey b \<longleftrightarrow> a = b"
  by (simp add: GetCurrencyKey_def)

lemma StdLib_length [simp]: "length StdLibAddress = 20"
  by (simp add: StdLibAddress_def)

lemma vm_path_ok_simps [simp]:
  "vm_path_ok (info_path L d)"
  "vm_path_ok (balance_path L a c) \<longleftrightarrow> length a = 20"
  by (simp_all add: vm_path_ok_def info_path_def balance_path_def Bech32ToLibra_def VMAddressLength_def)

lemma info_path_inject: "vm_lib_laws L \<Longrightarrow> info_path L a = info_path L b \<longleftrightarrow> a = b"
  by (auto simp: info_path_def vm_lib_laws_def dest: injD)

lemma info_path_ne_balance: "vm_lib_laws L \<Longrightarrow> info_path L a \<noteq> \<lparr>ap_Address = x, ap_Path = BalanceVector L b\<rparr>"
  by (metis VMAccessPath.ext_inject info_path_def vm_lib_laws_def)

lemma NewResCurrencyInfo_std: "NewResCurrencyInfo c StdLibAddress = Ok (std_info c)"
  by (simp add: NewResCurrencyInfo_def std_info_def VMAddressLength_def)

lemma storeRes_eq:
  "storeResStdCurrencyInfo L c s =
     map_option (\<lambda>bz. s\<lparr>ccs_vm := setValue (info_path L (cur_Denom c)) bz (ccs_vm s)\<rparr>) (lcs_info L (std_info c))"
  by (simp add: storeResStdCurrencyInfo_def NewResCurrencyInfo_std info_path_def InfoPath_def split: option.splits)

lemma store_both_Ok:
  assumes "store_both L c s = (Ok (), s')"
  obtains bz where "lcs_info L (std_info c) = Some bz"
    and "s' = s\<lparr>ccs_currencies := kv_set (GetCurrencyKey (cur_Denom c)) c (ccs_currencies s),
               ccs_vm := setValue (info_path L (cur_Denom c)) bz (ccs_vm s)\<rparr>"
  using assms
  by (auto simp: store_both_def storeRes_eq storeCurrency_def Let_def split: option.splits)

lemma store_both_inv:
  assumes laws: "vm_lib_laws L" and inv: "ccs_inv L s" and ok: "store_both L c s = (Ok (), s')"
  shows "ccs_inv L s'"
proof -
  from store_both_Ok [OF ok] obtain bz where bz: "lcs_info L (std_info c) = Some bz"
    and s': "s' = s\<lparr>ccs_currencies := kv_set (GetCurrencyKey (cur_Denom c)) c (ccs_currencies s),
               ccs_vm := setValue (info_path L (cur_Denom c)) bz (ccs_vm s)\<rparr>" .
  have "k = GetCurrencyKey (cur_Denom c') \<and> ccs_mirrored L s' c'"
    if g: "kv_get k (ccs_currencies s') = Some c'" for k c'
  proof (cases "k = GetCurrencyKey (cur_Denom c)")
    case True
    with g bz show ?thesis by (simp add: s' ccs_mirrored_def vms.get_set)
  next
    case False
    with g inv have k: "k = GetCurrencyKey (cur_Denom c')" and m: "ccs_mirrored L s c'"
      by (auto simp: s' ccs_inv_def)
    with False have "cur_Denom c' \<noteq> cur_Denom c" by auto
    with k m show ?thesis
      by (simp add: s' ccs_mirrored_def vms.get_set info_path_inject [OF laws])
  qed
  moreover have "kv_wf (ccs_currencies s')" "kv_wf (ccs_vm s')"
    using inv by (simp_all add: ccs_inv_def s')
  ultimately show ?thesis unfolding ccs_inv_def by blast
qed

lemma store_both_currency:
  "store_both L c s = (Ok (), s') \<Longrightarrow>
   kv_get (GetCurrencyKey d) (ccs_currencies s') =
     (if d = cur_Denom c then Some c else kv_get (GetCurrencyKey d) (ccs_currencies s))"
  by (erule store_both_Ok) simp

lemma GetCurrency_Ok_iff: "GetCurrency s d = Ok c \<longleftrightarrow> kv_get (GetCurrencyKey d) (ccs_currencies s) = Some c"
  by (auto simp: GetCurrency_def HasCurrency_def kv_has_iff)

lemma GetCurrency_Err_iff: "GetCurrency s d = Err e \<longleftrightarrow> \<not> HasCurrency s d \<and> e = CcsErrWrongDenom"
  by (auto simp: GetCurrency_def HasCurrency_def kv_has_iff)

lemma GetCurrency_not_Panic [simp]: "GetCurrency s d \<noteq> Panic"
  by (auto simp: GetCurrency_def HasCurrency_def kv_has_iff)

lemma HasCurrency_iff: "HasCurrency s d \<longleftrightarrow> (\<exists>c. GetCurrency s d = Ok c)"
  by (auto simp: GetCurrency_Ok_iff HasCurrency_def kv_has_iff)

lemma GetCurrency_denom: "\<lbrakk>ccs_inv L s; GetCurrency s d = Ok c\<rbrakk> \<Longrightarrow> cur_Denom c = d"
  by (metis GetCurrencyKey_inject GetCurrency_Ok_iff ccs_inv_def)

lemma CreateCurrency_Ok:
  assumes "CreateCurrency L p s = (Ok (), s')"
  shows "\<not> HasCurrency s (cp_Denom p)" and "store_both L (NewCurrency p 0) s = (Ok (), s')"
  using assms by (auto simp: CreateCurrency_def Let_def NewResCurrencyInfo_std split: if_splits)

lemma CreateCurrency_inv:
  "\<lbrakk>vm_lib_laws L; ccs_inv L s; CreateCurrency L p s = (Ok (), s')\<rbrakk> \<Longrightarrow> ccs_inv L s'"
  using CreateCurrency_Ok store_both_inv by blast

lemma CreateCurrency_GetCurrency:
  "CreateCurrency L p s = (Ok (), s') \<Longrightarrow>
   GetCurrency s' d = (if d = cp_Denom p then Ok (NewCurrency p 0) else GetCurrency s d)"
  using store_both_currency [of L "NewCurrency p 0" s s' d] CreateCurrency_Ok(2) [of L p s s']
  by (auto simp: GetCurrency_def HasCurrency_def kv_has_iff NewCurrency_def)

lemma change_supply_Ok:
  assumes "change_supply f L coin s = (Ok (), s')"
  obtains c v where "GetCurrency s (fst coin) = Ok c" and "f (cur_Supply c) (snd coin) = Some v"
    and "store_both L (c\<lparr>cur_Supply := v\<rparr>) s = (Ok (), s')"
  using assms by (auto simp: change_supply_def split: res.splits option.splits)

lemma change_supply_inv:
  "\<lbrakk>vm_lib_laws L; ccs_inv L s; change_supply f L coin s = (Ok (), s')\<rbrakk> \<Longrightarrow> ccs_inv L s'"
  by (erule change_supply_Ok) (blast intro: store_both_inv)

lemma change_supply_GetCurrency:
  assumes "ccs_inv L s" and "change_supply f L coin s = (Ok (), s')"
  shows "GetCurrency s' d =
    (case GetCurrency s d of
       Ok c \<Rightarrow> if d = fst coin then Ok (c\<lparr>cur_Supply := the (f (cur_Supply c) (snd coin))\<rparr>) else Ok c
     | r \<Rightarrow> r)"
proof -
  from change_supply_Ok [OF assms(2)] obtain c v where c: "GetCurrency s (fst coin) = Ok c"
    and v: "f (cur_Supply c) (snd coin) = Some v"
    and st: "store_both L (c\<lparr>cur_Supply := v\<rparr>) s = (Ok (), s')" .
  have "cur_Denom c = fst coin" using GetCurrency_denom [OF assms(1) c] .
  with store_both_currency [OF st, of d] c v show ?thesis
    by (cases "d = fst coin") (auto simp: GetCurrency_def HasCurrency_def kv_has_iff split: res.splits if_splits)
qed

lemma mirror_read:
  assumes laws: "vm_lib_laws L" and inv: "ccs_inv L s" and c: "GetCurrency s d = Ok c"
  shows "GetResStdCurrencyInfo L s d = Ok (std_info c)"
proof -
  have d: "cur_Denom c = d" using GetCurrency_denom [OF inv c] .
  from inv c have "ccs_mirrored L s c" by (auto simp: ccs_inv_def GetCurrency_Ok_iff)
  then obtain bz where bz: "lcs_info L (std_info c) = Some bz"
    and g: "getValue (ccs_vm s) (info_path L d) = Some bz"
    unfolding ccs_mirrored_def d by blast
  moreover from bz laws have "lcs_info_un L bz = Some (std_info c)"
    by (simp add: vm_lib_laws_def)
  ultimately show ?thesis
    by (simp add: GetResStdCurrencyInfo_def Let_def info_path_def [symmetric] vms.has_get)
qed

text \<open>Squashing keeps the mirror and zeroes every supply.\<close>

lemma squash_loop_inv:
  assumes laws: "vm_lib_laws L"
  shows "\<lbrakk>ccs_inv L s; squash_loop L cs s = (Ok (), s')\<rbrakk> \<Longrightarrow> ccs_inv L s'"
proof (induction cs arbitrary: s)
  case (Cons c cs)
  then obtain s1 where "store_both L (c\<lparr>cur_Supply := 0\<rparr>) s = (Ok (), s1)" "squash_loop L cs s1 = (Ok (), s')"
    by (auto split: prod.splits res.splits)
  with Cons show ?case using store_both_inv [OF laws] by blast
qed simp

lemma Ccs_InitGenesis_inv:
  assumes laws: "vm_lib_laws L"
  shows "\<lbrakk>ccs_inv L s; Ccs_InitGenesis L ps s = (Ok (), s')\<rbrakk> \<Longrightarrow> ccs_inv L s'"
proof (induction ps arbitrary: s)
  case (Cons p ps)
  then obtain s1 where "CreateCurrency L p s = (Ok (), s1)" "Ccs_InitGenesis L ps s1 = (Ok (), s')"
    by (auto split: prod.splits res.splits)
  with Cons show ?case using CreateCurrency_inv [OF laws] by blast
qed simp

section \<open>Account balances: what is written is read back\<close>

definition coin_amount :: "(bytes \<times> int) list \<Rightarrow> bytes \<Rightarrow> int" where
  "coin_amount coins d = (case map_of coins d of Some v \<Rightarrow> v | None \<Rightarrow> 0)"

abbreviation bpath :: "vm_lib \<Rightarrow> bytes \<Rightarrow> string \<Rightarrow> VMAccessPath" where
  "bpath L a d \<equiv> \<lparr>ap_Address = a, ap_Path = BalanceVector L d\<rparr>"

lemma bpath_ok [simp]: "vm_path_ok (bpath L a d) \<longleftrightarrow> length a = 20"
  by (simp add: vm_path_ok_def VMAddressLength_def)

lemma bpath_inject: "vm_lib_laws L \<Longrightarrow> BalanceVector L c = BalanceVector L d \<longleftrightarrow> c = d"
  by (auto simp: vm_lib_laws_def dest: injD)

lemma balance_path_eq: "balance_path L a c = bpath L a (cur_Denom c)"
  by (simp add: balance_path_def BalancePath_def Bech32ToLibra_def)

lemma newBalance_simps [simp]:
  "bal_AccessPath (newBalance L a coin) = bpath L a (fst coin)"
  "bal_Value (newBalance L a coin) = snd coin"
  by (simp_all add: newBalance_def Bech32ToLibra_def)

lemma write_filled_spec:
  assumes "vm_lib_laws L" and "length a = 20" and "distinct (map fst coins)"
    and "\<And>v. v \<in> snd ` set coins \<Longrightarrow> lcs_bal L v \<noteq> None"
  shows "\<exists>vm'. write_filled L (map (newBalance L a) coins) vm = (Ok (), vm') \<and>
     (\<forall>d. getValue vm' (bpath L a d) =
        (case map_of coins d of Some v \<Rightarrow> lcs_bal L v | None \<Rightarrow> getValue vm (bpath L a d)))"
  using assms(3,4)
proof (induction coins arbitrary: vm)
  case (Cons coin coins)
  obtain d v where [simp]: "coin = (d, v)" by (cases coin)
  from Cons.prems(2) obtain bz where bz: "lcs_bal L v = Some bz" by fastforce
  have nd: "map_of coins d = None" using Cons.prems(1) by (simp add: map_of_eq_None_iff)
  let ?vm = "setValue (bpath L a d) bz vm"
  have "\<And>w. w \<in> snd ` set coins \<Longrightarrow> lcs_bal L w \<noteq> None" using Cons.prems(2) by simp
  with Cons.IH [of ?vm] Cons.prems(1) obtain vm' where
    w: "write_filled L (map (newBalance L a) coins) ?vm = (Ok (), vm')" and
    g: "\<forall>d. getValue vm' (bpath L a d) =
        (case map_of coins d of Some v \<Rightarrow> lcs_bal L v | None \<Rightarrow> getValue ?vm (bpath L a d))" by auto
  show ?case
    using w g nd bz assms(2)
    by (auto simp: ResourceBytes_def vms.get_set bpath_inject [OF assms(1)] split: option.splits)
qed simp

lemma write_empty_spec:
  assumes "vm_lib_laws L" and "length a = 20" and "lcs_bal L 0 = Some z"
  shows "\<exists>vm'. write_empty L (map (\<lambda>d. newBalance L a (d, 0)) ds) vm = (Ok (), vm') \<and>
     (\<forall>d. getValue vm' (bpath L a d) =
        (if d \<in> set ds \<and> getValue vm (bpath L a d) \<noteq> None then Some z else getValue vm (bpath L a d)))"
proof (induction ds arbitrary: vm)
  case (Cons d ds)
  show ?case
  proof (cases "hasValue vm (bpath L a d)")
    case True
    with Cons [of "setValue (bpath L a d) z vm"] assms show ?thesis
      by (fastforce simp: ResourceBytes_def vms.get_set vms.has_get bpath_inject split: if_splits)
  next
    case False
    with Cons [of vm] show ?thesis by (auto simp: vms.has_get)
  qed
qed simp

lemma empty_balances_spec:
  assumes "int_laws S"
  shows "(\<And>c. c \<in> set cs \<Longrightarrow> denom_valid S (cur_Denom c)) \<Longrightarrow>
    empty_balances S L a found cs =
      Some (map (\<lambda>d. newBalance L a (d, 0)) (filter (\<lambda>d. d \<notin> set found) (map cur_Denom cs)))"
  using assms by (induction cs) (auto simp: int_laws_def)

lemma read_balances_spec:
  assumes "\<And>c. c \<in> set cs \<Longrightarrow> cur_Denom c \<noteq> []"
    and "\<And>c bz. \<lbrakk>c \<in> set cs; getValue vm (bpath L a (cur_Denom c)) = Some bz\<rbrakk> \<Longrightarrow>
           lcs_bal_un L bz = Some (amt (cur_Denom c))"
    and "\<And>c. \<lbrakk>c \<in> set cs; getValue vm (bpath L a (cur_Denom c)) = None\<rbrakk> \<Longrightarrow> amt (cur_Denom c) = 0"
    and "\<And>c. c \<in> set cs \<Longrightarrow> new_coin S (cur_Denom c) (amt (cur_Denom c)) = Some (cur_Denom c, amt (cur_Denom c))"
    and "\<And>c. c \<in> set cs \<Longrightarrow> int_of_big S (amt (cur_Denom c)) = Some (amt (cur_Denom c))"
  shows "\<exists>bs. read_balances L vm a cs = Ok bs \<and>
     Balances_Coins S bs = Some (map (\<lambda>d. (d, amt d)) (filter (\<lambda>d. amt d \<noteq> 0) (map cur_Denom cs)))"
  using assms
proof (induction cs)
  case (Cons c cs)
  have "\<exists>bs. read_balances L vm a cs = Ok bs \<and>
    Balances_Coins S bs = Some (map (\<lambda>d. (d, amt d)) (filter (\<lambda>d. amt d \<noteq> 0) (map cur_Denom cs)))"
    by (rule Cons.IH; rule Cons.prems; simp)
  then obtain bs where bs: "read_balances L vm a cs = Ok bs"
    "Balances_Coins S bs = Some (map (\<lambda>d. (d, amt d)) (filter (\<lambda>d. amt d \<noteq> 0) (map cur_Denom cs)))"
    by blast
  show ?case
  proof (cases "getValue vm (bpath L a (cur_Denom c))")
    case None
    with bs Cons.prems(3) [of c] show ?thesis by (simp add: balance_path_eq)
  next
    case (Some bz)
    with bs Cons.prems(1) [of c] Cons.prems(2) [of c bz] Cons.prems(4) [of c] Cons.prems(5) [of c]
    show ?thesis by (simp add: balance_path_eq NewBalance_def Balance_Coin_def)
  qed
qed simp

lemma balances_read_back:
  assumes laws: "vm_lib_laws L" "int_laws S" "uint_laws S" and a: "length a = 20"
    and dist: "distinct (map fst coins)"
    and bal: "\<And>v. v \<in> insert 0 (snd ` set coins) \<Longrightarrow> lcs_bal L v \<noteq> None \<and> 0 \<le> v \<and> v < 2 ^ 255"
    and valid: "\<And>c. c \<in> set (GetCurrencies s) \<Longrightarrow> DenomFilter S (cur_Denom c) = Ok ()"
  shows "\<exists>s' bs. SetAccountBalanceResources S L a coins s = (Ok (), s') \<and>
     GetAccountBalanceResources L s' a = Ok bs \<and>
     Balances_Coins S bs =
       Some (map (\<lambda>d. (d, coin_amount coins d))
               (filter (\<lambda>d. coin_amount coins d \<noteq> 0) (map cur_Denom (GetCurrencies s))))"
proof -
  let ?cs = "GetCurrencies s" and ?amt = "coin_amount coins"
  from bal obtain z where z: "lcs_bal L 0 = Some z" by blast
  have lookup: "lcs_bal L (?amt d) \<noteq> None \<and> 0 \<le> ?amt d \<and> ?amt d < 2 ^ 255" for d
  proof (cases "map_of coins d")
    case None
    then show ?thesis using bal [of 0] by (simp add: coin_amount_def)
  next
    case (Some v)
    then have "v \<in> snd ` set coins" by (metis image_eqI map_of_SomeD snd_conv)
    with Some bal [of v] show ?thesis by (simp add: coin_amount_def)
  qed
  let ?ds = "filter (\<lambda>d. d \<notin> set (map fst coins)) (map cur_Denom ?cs)"
  obtain vm1 where w1: "write_filled L (map (newBalance L a) coins) (ccs_vm s) = (Ok (), vm1)"
    and g1: "\<forall>d. getValue vm1 (bpath L a d) =
      (case map_of coins d of Some v \<Rightarrow> lcs_bal L v | None \<Rightarrow> getValue (ccs_vm s) (bpath L a d))"
    using write_filled_spec [OF laws(1) a dist, of "ccs_vm s"] bal by blast
  obtain vm2 where w2: "write_empty L (map (\<lambda>d. newBalance L a (d, 0)) ?ds) vm1 = (Ok (), vm2)"
    and g2: "\<forall>d. getValue vm2 (bpath L a d) =
      (if d \<in> set ?ds \<and> getValue vm1 (bpath L a d) \<noteq> None then Some z else getValue vm1 (bpath L a d))"
    using write_empty_spec [OF laws(1) a z, of ?ds vm1] by blast
  have eb: "empty_balances S L a (map fst coins) ?cs = Some (map (\<lambda>d. newBalance L a (d, 0)) ?ds)"
    using empty_balances_spec [OF laws(2)] valid by (simp add: DenomFilter_Ok_iff)
  have set: "SetAccountBalanceResources S L a coins s = (Ok (), s\<lparr>ccs_vm := vm2\<rparr>)"
    by (simp add: SetAccountBalanceResources_def newBalances_def Let_def eb w1 w2 [simplified])
  have val: "getValue vm2 (bpath L a (cur_Denom c)) =
      (case map_of coins (cur_Denom c) of
         Some v \<Rightarrow> lcs_bal L v
       | None \<Rightarrow> if getValue (ccs_vm s) (bpath L a (cur_Denom c)) = None then None else Some z)"
    if "c \<in> set ?cs" for c
  proof (cases "map_of coins (cur_Denom c)")
    case None
    then have "cur_Denom c \<in> set ?ds" using that by (simp add: map_of_eq_None_iff)
    with None g1 g2 show ?thesis by simp
  next
    case (Some v)
    then have "cur_Denom c \<in> set (map fst coins)"
      by (metis map_of_eq_None_iff option.distinct(1) list.set_map)
    with Some g1 g2 show ?thesis by simp
  qed
  have "\<exists>bs. read_balances L vm2 a ?cs = Ok bs \<and>
     Balances_Coins S bs = Some (map (\<lambda>d. (d, ?amt d)) (filter (\<lambda>d. ?amt d \<noteq> 0) (map cur_Denom ?cs)))"
  proof (rule read_balances_spec)
    fix c assume c: "c \<in> set ?cs"
    show "cur_Denom c \<noteq> []" using valid [OF c] by (simp add: DenomFilter_Ok_iff)
    show "new_coin S (cur_Denom c) (?amt (cur_Denom c)) = Some (cur_Denom c, ?amt (cur_Denom c))"
      using valid [OF c] lookup laws(2) by (simp add: DenomFilter_Ok_iff int_laws_def)
    show "int_of_big S (?amt (cur_Denom c)) = Some (?amt (cur_Denom c))"
      using lookup laws(3) by (simp add: uint_laws_def within_def)
    show "?amt (cur_Denom c) = 0" if "getValue vm2 (bpath L a (cur_Denom c)) = None"
    proof (cases "map_of coins (cur_Denom c)")
      case (Some v)
      with val [OF c] that have "lcs_bal L v = None" by simp
      with lookup [of "cur_Denom c"] Some show ?thesis by (simp add: coin_amount_def)
    qed (simp add: coin_amount_def)
    fix bz assume "getValue vm2 (bpath L a (cur_Denom c)) = Some bz"
    with val [OF c] have "lcs_bal L (?amt (cur_Denom c)) = Some bz"
      using z by (auto simp: coin_amount_def split: option.splits if_splits)
    with laws(1) show "lcs_bal_un L bz = Some (?amt (cur_Denom c))"
      by (simp add: vm_lib_laws_def)
  qed
  with set show ?thesis by (simp add: GetAccountBalanceResources_def GetCurrencies_def)
qed

section \<open>Reachable states\<close>

text \<open>The balance writes and removals do not touch the currency resources.\<close>

lemma frame_balance_write:
  assumes laws: "vm_lib_laws L" and ok: "vm_path_ok (bal_AccessPath b)"
    and p: "ap_Path (bal_AccessPath b) = BalanceVector L d"
  shows "getValue (setValue (bal_AccessPath b) bz vm) (info_path L e) = getValue vm (info_path L e)"
  using info_path_ne_balance [OF laws, of e "ap_Address (bal_AccessPath b)" d] ok p
  by (simp add: vms.get_set) (metis VMAccessPath.surjective old.unit.exhaust)

definition balances_ok :: "vm_lib \<Rightarrow> Balance list \<Rightarrow> bool" where
  "balances_ok L bs \<longleftrightarrow>
     (\<forall>b \<in> set bs. vm_path_ok (bal_AccessPath b) \<and> (\<exists>d. ap_Path (bal_AccessPath b) = BalanceVector L d))"

lemma balances_ok_Cons [simp]: "balances_ok L (newBalance L a coin # bs) \<longleftrightarrow> length a = 20 \<and> balances_ok L bs"
  unfolding balances_ok_def by (simp add: newBalance_simps(1)) blast

lemma write_filled_frame:
  "\<lbrakk>vm_lib_laws L; balances_ok L bs\<rbrakk> \<Longrightarrow>
   getValue (snd (write_filled L bs vm)) (info_path L e) = getValue vm (info_path L e) \<and>
   (kv_wf vm \<longrightarrow> kv_wf (snd (write_filled L bs vm)))"
  by (induction bs arbitrary: vm)
    (auto simp: balances_ok_def frame_balance_write split: res.splits)

lemma write_empty_frame:
  "\<lbrakk>vm_lib_laws L; balances_ok L bs\<rbrakk> \<Longrightarrow>
   getValue (snd (write_empty L bs vm)) (info_path L e) = getValue vm (info_path L e) \<and>
   (kv_wf vm \<longrightarrow> kv_wf (snd (write_empty L bs vm)))"
  by (induction bs arbitrary: vm)
    (auto simp: balances_ok_def frame_balance_write split: res.splits)

lemma empty_balances_ok:
  "\<lbrakk>length a = 20; empty_balances S L a f cs = Some bs\<rbrakk> \<Longrightarrow> balances_ok L bs"
  by (induction cs arbitrary: bs)
    (auto simp: bind_eq_Some_conv balances_ok_def [of L "[]"] split: if_splits)

lemma ccs_inv_vm_frame:
  assumes "ccs_inv L s" and "kv_wf vm"
    and "\<And>e. getValue vm (info_path L e) = getValue (ccs_vm s) (info_path L e)"
  shows "ccs_inv L (s\<lparr>ccs_vm := vm\<rparr>)"
  using assms unfolding ccs_inv_def ccs_mirrored_def by simp

lemma SetAccountBalanceResources_inv:
  assumes laws: "vm_lib_laws L" and inv: "ccs_inv L s" and a: "length a = 20"
    and ok: "SetAccountBalanceResources S L a coins s = (Ok (), s')"
  shows "ccs_inv L s'"
proof -
  from ok obtain eb vm1 vm2 where
    eb: "empty_balances S L a (map fst coins) (GetCurrencies s) = Some eb"
    and w1: "write_filled L (map (newBalance L a) coins) (ccs_vm s) = (Ok (), vm1)"
    and w2: "write_empty L eb vm1 = (Ok (), vm2)" and s': "s' = s\<lparr>ccs_vm := vm2\<rparr>"
    by (auto simp: SetAccountBalanceResources_def newBalances_def Let_def split: option.splits prod.splits res.splits)
  have f: "balances_ok L (map (newBalance L a) coins)" using a by (auto simp: balances_ok_def)
  note e = empty_balances_ok [OF a eb]
  have "kv_wf (ccs_vm s)" using inv by (simp add: ccs_inv_def)
  with write_filled_frame [OF laws f, of "ccs_vm s"] write_empty_frame [OF laws e, of vm1] w1 w2
  show ?thesis unfolding s' by (intro ccs_inv_vm_frame [OF inv]) auto
qed

lemma RemoveAccountBalanceResources_inv:
  assumes laws: "vm_lib_laws L" and inv: "ccs_inv L s" and a: "length a = 20"
  shows "ccs_inv L (RemoveAccountBalanceResources L a s)"
proof -
  have "getValue (foldl (\<lambda>vm c. delValue (balance_path L a c) vm) vm cs) (info_path L e) = getValue vm (info_path L e) \<and>
      (kv_wf vm \<longrightarrow> kv_wf (foldl (\<lambda>vm c. delValue (balance_path L a c) vm) vm cs))" for vm cs e
    using info_path_ne_balance [OF laws] a
    by (induction cs arbitrary: vm) (auto simp: vms.get_del balance_path_eq)
  with inv show ?thesis
    unfolding RemoveAccountBalanceResources_def
    by (intro ccs_inv_vm_frame [OF inv]) (auto simp: ccs_inv_def)
qed

text \<open>The states of the module: from the empty stores by successful operations.\<close>

inductive ccs_reach :: "sdk \<Rightarrow> vm_lib \<Rightarrow> ccs_state \<Rightarrow> bool" for S :: sdk and L :: vm_lib where
  ccs_start: "ccs_reach S L \<lparr>ccs_currencies = [], ccs_vm = []\<rparr>"
| ccs_create: "\<lbrakk>ccs_reach S L s; CreateCurrency L p s = (Ok (), s')\<rbrakk> \<Longrightarrow> ccs_reach S L s'"
| ccs_increase: "\<lbrakk>ccs_reach S L s; IncreaseCurrencySupply S L coin s = (Ok (), s')\<rbrakk> \<Longrightarrow> ccs_reach S L s'"
| ccs_decrease: "\<lbrakk>ccs_reach S L s; DecreaseCurrencySupply S L coin s = (Ok (), s')\<rbrakk> \<Longrightarrow> ccs_reach S L s'"
| ccs_balances: "\<lbrakk>ccs_reach S L s; length a = 20; SetAccountBalanceResources S L a coins s = (Ok (), s')\<rbrakk> \<Longrightarrow> ccs_reach S L s'"
| ccs_remove: "\<lbrakk>ccs_reach S L s; length a = 20\<rbrakk> \<Longrightarrow> ccs_reach S L (RemoveAccountBalanceResources L a s)"
| ccs_squash: "\<lbrakk>ccs_reach S L s; Ccs_PrepareForZeroHeight L z s = (Ok (), s')\<rbrakk> \<Longrightarrow> ccs_reach S L s'"

lemma ccs_reach_inv: "\<lbrakk>ccs_reach S L s; vm_lib_laws L\<rbrakk> \<Longrightarrow> ccs_inv L s"
proof (induction rule: ccs_reach.induct)
  case ccs_start
  then show ?case by (simp add: ccs_inv_def)
next
  case (ccs_squash s z s')
  have "ccs_inv L s" using ccs_squash.IH ccs_squash.prems by simp
  moreover have "squash_loop L (GetCurrencies s) s = (Ok (), s')" if z
    using ccs_squash.hyps(2) that by (simp add: Ccs_PrepareForZeroHeight_def)
  moreover have "s' = s" if "\<not> z"
    using ccs_squash.hyps(2) that by (simp add: Ccs_PrepareForZeroHeight_def)
  ultimately show ?case using squash_loop_inv [OF ccs_squash.prems] by metis
next
  case (ccs_create s p s')
  show ?case using CreateCurrency_inv [OF ccs_create.prems ccs_create.IH ccs_create.hyps(2)] ccs_create.prems by simp
next
  case ccs_increase
  then show ?case by (metis IncreaseCurrencySupply_def change_supply_inv)
next
  case ccs_decrease
  then show ?case by (metis DecreaseCurrencySupply_def change_supply_inv)
next
  case ccs_balances
  then show ?case by (blast intro: SetAccountBalanceResources_inv)
next
  case ccs_remove
  then show ?case by (blast intro: RemoveAccountBalanceResources_inv)
qed

section \<open>A reference instance of the VM libraries\<close>

definition ref_lcs_info :: "ResCurrencyInfo \<Rightarrow> bytes option" where
  "ref_lcs_info i =
     (if length (ci_Denom i) < 256 \<and> length (ci_Owner i) = 20 \<and> 0 \<le> ci_TotalSupply i \<and> ci_TotalSupply i < 2 ^ 128
      then Some (char_of (length (ci_Denom i)) # ci_Denom i @
             [char_of (unat (ci_Decimals i)), char_of (if ci_IsToken i then 1 else 0 :: nat)] @
             ci_Owner i @ be 16 (nat (ci_TotalSupply i)))
      else None)"

definition ref_lcs_info_un :: "bytes \<Rightarrow> ResCurrencyInfo option" where
  "ref_lcs_info_un b =
     (case b of [] \<Rightarrow> None
      | c # cs \<Rightarrow>
          let n = of_char c; rest = drop n cs in
          Some \<lparr>ci_Denom = take n cs, ci_Decimals = of_nat (of_char (rest ! 0)), ci_IsToken = (of_char (rest ! 1) = (1 :: nat)),
                ci_Owner = take 20 (drop 2 rest), ci_TotalSupply = int (be_to_nat 0 (drop 22 rest))\<rparr>)"

definition ref_vm_lib :: vm_lib where
  "ref_vm_lib = \<lparr>
     BalanceVector = (\<lambda>d. CHR ''B'' # d), CurrencyInfoVector = (\<lambda>d. CHR ''I'' # d),
     lcs_info = ref_lcs_info, lcs_info_un = ref_lcs_info_un,
     lcs_bal = (\<lambda>v. if 0 \<le> v \<and> v < 2 ^ 128 then Some (be 16 (nat v)) else None),
     lcs_bal_un = (\<lambda>b. Some (int (be_to_nat 0 b)))\<rparr>"

lemma unat_byte: "unat (w :: 8 word) mod 256 = unat w"
  using unsigned_less [of w, where ?'a = nat] by simp

lemma ref_lcs_info_roundtrip: "ref_lcs_info i = Some b \<Longrightarrow> ref_lcs_info_un b = Some i"
  by (cases i) (auto simp: ref_lcs_info_def ref_lcs_info_un_def Let_def be_to_nat_be unat_byte nat_less_iff split: if_splits)

lemma ref_vm_lib_laws: "vm_lib_laws ref_vm_lib"
  by (auto simp: vm_lib_laws_def ref_vm_lib_def inj_def ref_lcs_info_roundtrip be_to_nat_be nat_less_iff split: if_splits)

section \<open>Properties\<close>

text \<open>
  C7. In every state reached by the operations of the module, the VM resource of a registered currency
  is the currency: same denomination and decimals, owned by the standard library, with the current supply.
\<close>

theorem ccs_mirror:
  assumes "ccs_reach S L s" and "vm_lib_laws L" and "GetCurrency s d = Ok c"
  shows "GetResStdCurrencyInfo L s d =
    Ok \<lparr>ci_Denom = d, ci_Decimals = cur_Decimals c, ci_IsToken = False, ci_Owner = StdLibAddress,
        ci_TotalSupply = cur_Supply c\<rparr>"
  using mirror_read [OF assms(2) ccs_reach_inv [OF assms(1,2)] assms(3)]
    GetCurrency_denom [OF ccs_reach_inv [OF assms(1,2)] assms(3)]
  by (simp add: std_info_def)

definition ex_params :: CurrencyParams where
  "ex_params = \<lparr>cp_Denom = ''xfi'', cp_Decimals = 18, cp_ContractAddress = []\<rparr>"

definition ex_ccs0 :: ccs_state where
  "ex_ccs0 = snd (CreateCurrency ref_vm_lib ex_params \<lparr>ccs_currencies = [], ccs_vm = []\<rparr>)"

definition ex_ccs :: ccs_state where
  "ex_ccs = snd (IncreaseCurrencySupply ref_sdk ref_vm_lib (''xfi'', 5) ex_ccs0)"

lemma ref_store_both:
  "\<lbrakk>length (cur_Denom c) < 256; 0 \<le> cur_Supply c; cur_Supply c < 2 ^ 128\<rbrakk> \<Longrightarrow>
   store_both ref_vm_lib c s = (Ok (), snd (store_both ref_vm_lib c s))"
  by (simp add: store_both_def storeRes_eq ref_vm_lib_def ref_lcs_info_def std_info_def Let_def)

lemma ex_ccs0_create: "CreateCurrency ref_vm_lib ex_params \<lparr>ccs_currencies = [], ccs_vm = []\<rparr> = (Ok (), ex_ccs0)"
  unfolding ex_ccs0_def
  by (simp add: CreateCurrency_def HasCurrency_def kv_has_iff Let_def NewResCurrencyInfo_std ex_params_def)
    (rule ref_store_both; simp add: NewCurrency_def)

lemma ex_ccs0_xfi: "GetCurrency ex_ccs0 ''xfi'' = Ok (NewCurrency ex_params 0)"
  using CreateCurrency_GetCurrency [OF ex_ccs0_create, of "''xfi''"] by (simp add: ex_params_def)

lemma ex_ccs_store:
  "IncreaseCurrencySupply ref_sdk ref_vm_lib (''xfi'', 5) ex_ccs0 = store_both ref_vm_lib (NewCurrency ex_params 5) ex_ccs0"
  by (simp add: IncreaseCurrencySupply_def change_supply_def ex_ccs0_xfi ref_sdk_def within_def NewCurrency_def)

lemma ex_ccs_increase: "IncreaseCurrencySupply ref_sdk ref_vm_lib (''xfi'', 5) ex_ccs0 = (Ok (), ex_ccs)"
  unfolding ex_ccs_def ex_ccs_store by (rule ref_store_both) (simp_all add: NewCurrency_def ex_params_def)

lemma ex_ccs_reach: "ccs_reach ref_sdk ref_vm_lib ex_ccs"
  using ccs_increase [OF ccs_create [OF ccs_start ex_ccs0_create] ex_ccs_increase] .

lemma ex_ccs_xfi: "GetCurrency ex_ccs ''xfi'' = Ok (NewCurrency ex_params 5)"
  using store_both_currency [of ref_vm_lib "NewCurrency ex_params 5" ex_ccs0 ex_ccs "''xfi''"] ex_ccs_increase
  by (simp add: ex_ccs_store GetCurrency_Ok_iff NewCurrency_def ex_params_def)

theorem ccs_mirror_witness:
  "GetResStdCurrencyInfo ref_vm_lib ex_ccs ''xfi'' =
    Ok \<lparr>ci_Denom = ''xfi'', ci_Decimals = 18, ci_IsToken = False, ci_Owner = StdLibAddress, ci_TotalSupply = 5\<rparr>"
  using ccs_mirror [OF ex_ccs_reach ref_vm_lib_laws ex_ccs_xfi]
  by (simp add: NewCurrency_def ex_params_def)

text \<open>
  Writing the balance resources of an account and reading them back gives, for every registered
  currency and in registry order, exactly the non-zero amounts of the coins that were written.
\<close>

theorem ccs_balance_roundtrip:
  assumes "vm_lib_laws L" "int_laws S" "uint_laws S" and "length a = 20"
    and "distinct (map fst coins)"
    and "\<And>v. v \<in> insert 0 (snd ` set coins) \<Longrightarrow> lcs_bal L v \<noteq> None \<and> 0 \<le> v \<and> v < 2 ^ 255"
    and "\<And>c. c \<in> set (GetCurrencies s) \<Longrightarrow> DenomFilter S (cur_Denom c) = Ok ()"
  shows "\<exists>s' bs. SetAccountBalanceResources S L a coins s = (Ok (), s') \<and>
     GetAccountBalanceResources L s' a = Ok bs \<and>
     Balances_Coins S bs =
       Some (map (\<lambda>d. (d, coin_amount coins d))
               (filter (\<lambda>d. coin_amount coins d \<noteq> 0) (map cur_Denom (GetCurrencies s))))"
  by (rule balances_read_back [OF assms])

lemma store_both_currencies:
  "store_both L c s = (Ok (), s') \<Longrightarrow> ccs_currencies s' = kv_set (GetCurrencyKey (cur_Denom c)) c (ccs_currencies s)"
  by (erule store_both_Ok) simp

lemma ex_ccs_currencies: "GetCurrencies ex_ccs = [NewCurrency ex_params 5]"
  using store_both_currencies [OF CreateCurrency_Ok(2) [OF ex_ccs0_create]]
    store_both_currencies [OF ex_ccs_increase [unfolded ex_ccs_store]]
  by (simp add: NewCurrency_def ex_params_def GetCurrencies_def kv_vals_def)

lemma ex_denom: "DenomFilter ref_sdk ''xfi'' = Ok ()"
  by (simp add: DenomFilter_Ok_iff ref_sdk_def ref_denom_def ref_denom_char_def is_lower_ascii_def)

theorem ccs_balance_roundtrip_witness:
  "\<exists>s' bs. SetAccountBalanceResources ref_sdk ref_vm_lib StdLibAddress [(''xfi'', 7)] ex_ccs = (Ok (), s') \<and>
     GetAccountBalanceResources ref_vm_lib s' StdLibAddress = Ok bs \<and>
     Balances_Coins ref_sdk bs = Some [(''xfi'', 7)]"
proof -
  have "lcs_bal ref_vm_lib v \<noteq> None \<and> 0 \<le> v \<and> v < 2 ^ 255" if "v \<in> insert 0 (snd ` set [(''xfi'', 7)])" for v
    using that by (auto simp: ref_vm_lib_def)
  from ccs_balance_roundtrip [OF ref_vm_lib_laws ref_int_laws ref_uint_laws StdLib_length _ this, where s = ex_ccs and coins = "[(''xfi'', 7)]"]
  show ?thesis
    by (simp add: ex_ccs_currencies NewCurrency_def ex_params_def ex_denom coin_amount_def)
qed

end
