(* ===== verification/Markets.thy ===== *)
theory Markets
  imports CCStorage
begin

text \<open>
  Module \<open>x/markets\<close>: a market is a pair of registered currencies. The keeper numbers the markets,
  refuses a second market for a pair, and gives the extended market object whose conversion of a base
  quantity to a quote quantity the orders module uses to lock, fill and refund coins.
\<close>

section \<open>Types\<close>

record Market =
  m_ID :: ID
  m_BaseAssetDenom :: string
  m_QuoteAssetDenom :: string

record MarketExtended =
  me_ID :: ID
  me_BaseCurrency :: Currency
  me_QuoteCurrency :: Currency

datatype mkt_error =
    MktErrInternal
  | MktErrWrongID
  | MktErrWrongAssetDenom
  | MktErrMarketExists
  | MktErrInvalidQuantity
  | MktErrWrongFrom
  | MktErrCurrency ccs_error
  | MktErrBaseCurrency ccs_error
  | MktErrQuoteCurrency ccs_error
  | MktErrDuplicatedID
  | MktErrLastIDNil
  | MktErrLastIDNotNil
  | MktErrLastIDNotMax

record MarketsReq =
  mr_Page :: nat
  mr_Limit :: nat
  mr_BaseAssetDenom :: string
  mr_QuoteAssetDenom :: string
  mr_AssetCode :: string

definition NewMarket :: "ID \<Rightarrow> string \<Rightarrow> string \<Rightarrow> Market" where
  "NewMarket i baseAsset quoteAsset = \<lparr>m_ID = i, m_BaseAssetDenom = baseAsset, m_QuoteAssetDenom = quoteAsset\<rparr>"

definition GetAssetCode :: "Market \<Rightarrow> AssetCode" where
  "GetAssetCode m = m_BaseAssetDenom m @ ''_'' @ m_QuoteAssetDenom m"

text \<open>A market read from a genesis file: its identifier may be missing.\<close>

type_synonym raw_market = "ID option \<times> string \<times> string"

definition Market_Valid :: "sdk \<Rightarrow> raw_market \<Rightarrow> (mkt_error, unit) res" where
  "Market_Valid S m =
     (case m of (i, baseAsset, quoteAsset) \<Rightarrow>
        if ID_Valid i \<noteq> Ok () then Err MktErrWrongID
        else if DenomFilter S baseAsset \<noteq> Ok () then Err MktErrWrongAssetDenom
        else if DenomFilter S quoteAsset \<noteq> Ok () then Err MktErrWrongAssetDenom
        else Ok ())"

definition NewMarketExtended :: "Market \<Rightarrow> Currency \<Rightarrow> Currency \<Rightarrow> MarketExtended" where
  "NewMarketExtended market baseCurrency quoteCurrency =
     \<lparr>me_ID = m_ID market, me_BaseCurrency = baseCurrency, me_QuoteCurrency = quoteCurrency\<rparr>"

definition MarketExtended_Valid :: "sdk \<Rightarrow> ID option \<Rightarrow> MarketExtended \<Rightarrow> (mkt_error, unit) res" where
  "MarketExtended_Valid S i m =
     (case Currency_Valid S (me_BaseCurrency m) of
        Err e \<Rightarrow> Err (MktErrBaseCurrency e)
      | Panic \<Rightarrow> Panic
      | Ok _ \<Rightarrow>
          (case Currency_Valid S (me_QuoteCurrency m) of
             Err e \<Rightarrow> Err (MktErrQuoteCurrency e)
           | Panic \<Rightarrow> Panic
           | Ok _ \<Rightarrow> if ID_Valid i \<noteq> Ok () then Err MktErrWrongID else Ok ()))"

definition BaseToQuoteQuantity :: "sdk \<Rightarrow> MarketExtended \<Rightarrow> nat \<Rightarrow> nat \<Rightarrow> (mkt_error, nat) res" where
  "BaseToQuoteQuantity S m basePrice baseQuantity =
     bind_res (from_opt (UintToDec S (me_QuoteCurrency m) basePrice)) (\<lambda>basePriceDec.
     bind_res (from_opt (UintToDec S (me_BaseCurrency m) baseQuantity)) (\<lambda>baseQuantityDec.
     bind_res (from_opt (dec_mul S basePriceDec baseQuantityDec)) (\<lambda>quoteQuantityDec.
     bind_res (from_opt (MinDecimal S (me_QuoteCurrency m))) (\<lambda>minDec.
       if quoteQuantityDec < minDec then Err MktErrInvalidQuantity
       else from_opt (DecToUint S (me_QuoteCurrency m) quoteQuantityDec)))))"

definition BaseDenom :: "MarketExtended \<Rightarrow> string" where
  "BaseDenom m = cur_Denom (me_BaseCurrency m)"

definition QuoteDenom :: "MarketExtended \<Rightarrow> string" where
  "QuoteDenom m = cur_Denom (me_QuoteCurrency m)"

section \<open>Keeper\<close>

record mkt_state =
  mk_markets :: "Market kv"
  mk_lastID :: "ID option"

definition GetMarketsKey :: "ID \<Rightarrow> bytes" where
  "GetMarketsKey i = join_with (CHR '':'') [''market'', ID_String i]"

definition GetPrefixMarketsKey :: bytes where
  "GetPrefixMarketsKey = ''market'' @ '':''"

definition Markets_Has :: "mkt_state \<Rightarrow> ID \<Rightarrow> bool" where
  "Markets_Has s i = kv_has (GetMarketsKey i) (mk_markets s)"

definition Markets_Get :: "mkt_state \<Rightarrow> ID \<Rightarrow> (mkt_error, Market) res" where
  "Markets_Get s i =
     (case kv_get (GetMarketsKey i) (mk_markets s) of None \<Rightarrow> Err MktErrWrongID | Some m \<Rightarrow> Ok m)"

text \<open>
  \<open>GetExtended\<close> goes on after a missing base currency and reports the last error; its value
  is only used when there is no error.
\<close>

definition GetExtended :: "ccs_state \<Rightarrow> mkt_state \<Rightarrow> ID \<Rightarrow> (mkt_error, MarketExtended) res" where
  "GetExtended cs s i =
     bind_res (Markets_Get s i) (\<lambda>market.
       let b = GetCurrency cs (m_BaseAssetDenom market); q = GetCurrency cs (m_QuoteAssetDenom market) in
       case q of
         Err e \<Rightarrow> Err (MktErrCurrency e)
       | Panic \<Rightarrow> Panic
       | Ok quoteCurrency \<Rightarrow>
           (case b of
              Err e \<Rightarrow> Err (MktErrCurrency e)
            | Panic \<Rightarrow> Panic
            | Ok baseCurrency \<Rightarrow> Ok (NewMarketExtended market baseCurrency quoteCurrency)))"

definition Markets_set :: "Market \<Rightarrow> mkt_state \<Rightarrow> mkt_state" where
  "Markets_set market s = s\<lparr>mk_markets := kv_set (GetMarketsKey (m_ID market)) market (mk_markets s)\<rparr>"

definition Markets_setLastID :: "ID \<Rightarrow> mkt_state \<Rightarrow> mkt_state" where
  "Markets_setLastID i s = s\<lparr>mk_lastID := Some i\<rparr>"

definition Markets_nextID :: "sdk \<Rightarrow> mkt_state \<Rightarrow> ID option" where
  "Markets_nextID S s = incr_id S (mk_lastID s)"

text \<open>Iteration with a handler that stops it by returning false: here the search for a duplicate.\<close>

fun find_duplicate :: "string \<Rightarrow> string \<Rightarrow> Market list \<Rightarrow> bool" where
  "find_duplicate b q [] = False"
| "find_duplicate b q (m # ms) =
     (if m_BaseAssetDenom m = b \<and> m_QuoteAssetDenom m = q then True else find_duplicate b q ms)"

definition iterateMarkets :: "mkt_state \<Rightarrow> Market list" where
  "iterateMarkets s = kv_vals (mk_markets s)"

definition Markets_Add :: "sdk \<Rightarrow> ccs_state \<Rightarrow> string \<Rightarrow> string \<Rightarrow> (mkt_state, mkt_error, Market) op" where
  "Markets_Add S cs baseAsset quoteAsset s =
     (if find_duplicate baseAsset quoteAsset (iterateMarkets s) then (Err MktErrMarketExists, s)
      else if \<not> HasCurrency cs baseAsset then (Err MktErrWrongAssetDenom, s)
      else if \<not> HasCurrency cs quoteAsset then (Err MktErrWrongAssetDenom, s)
      else (case Markets_nextID S s of
              None \<Rightarrow> (Panic, s)
            | Some i \<Rightarrow>
                let market = NewMarket i baseAsset quoteAsset in
                (Ok market, Markets_setLastID (m_ID market) (Markets_set market s))))"

definition Markets_GetList :: "mkt_state \<Rightarrow> Market list" where
  "Markets_GetList s = iterateMarkets s"

definition market_matches :: "MarketsReq \<Rightarrow> Market \<Rightarrow> bool" where
  "market_matches params m \<longleftrightarrow>
     \<not> (mr_BaseAssetDenom params \<noteq> [] \<and> m_BaseAssetDenom m \<noteq> mr_BaseAssetDenom params) \<and>
     \<not> (mr_QuoteAssetDenom params \<noteq> [] \<and> m_QuoteAssetDenom m \<noteq> mr_QuoteAssetDenom params) \<and>
     \<not> (mr_AssetCode params \<noteq> [] \<and> mr_AssetCode params \<noteq> GetAssetCode m)"

definition Markets_GetListFiltered :: "mkt_state \<Rightarrow> MarketsReq \<Rightarrow> (mkt_error, Market list) res" where
  "Markets_GetListFiltered s params =
     paginate_list (filter (market_matches params) (iterateMarkets s)) (mr_Page params) (mr_Limit params)"

definition NewMarketsFilter :: "nat \<Rightarrow> nat \<Rightarrow> MarketsReq" where
  "NewMarketsFilter page limit =
     \<lparr>mr_Page = page, mr_Limit = limit, mr_BaseAssetDenom = [], mr_QuoteAssetDenom = [], mr_AssetCode = []\<rparr>"

subsection \<open>Messages and genesis\<close>

record MsgCreateMarket =
  mcm_From :: bytes
  mcm_BaseAssetDenom :: string
  mcm_QuoteAssetDenom :: string

definition MsgCreateMarket_ValidateBasic :: "MsgCreateMarket \<Rightarrow> (mkt_error, unit) res" where
  "MsgCreateMarket_ValidateBasic msg =
     (if mcm_From msg = [] then Err MktErrWrongFrom
      else if mcm_BaseAssetDenom msg = [] then Err MktErrWrongAssetDenom
      else if mcm_QuoteAssetDenom msg = [] then Err MktErrWrongAssetDenom
      else Ok ())"

definition handleMsgCreateMarket :: "sdk \<Rightarrow> ccs_state \<Rightarrow> MsgCreateMarket \<Rightarrow> (mkt_state, mkt_error, Market) op" where
  "handleMsgCreateMarket S cs msg s = Markets_Add S cs (mcm_BaseAssetDenom msg) (mcm_QuoteAssetDenom msg) s"

record mkt_genesis =
  mg_Markets :: "raw_market list"
  mg_LastMarketID :: "ID option"

fun mkt_validate_loop :: "sdk \<Rightarrow> ID \<Rightarrow> ID list \<Rightarrow> raw_market list \<Rightarrow> (mkt_error, ID) res" where
  "mkt_validate_loop S maxMarketID seen [] = Ok maxMarketID"
| "mkt_validate_loop S maxMarketID seen (m # ms) =
     bind_res (Market_Valid S m) (\<lambda>_.
       case fst m of
         None \<Rightarrow> Err MktErrWrongID
       | Some i \<Rightarrow>
           if i \<in> set seen then Err MktErrDuplicatedID
           else mkt_validate_loop S (if maxMarketID < i then i else maxMarketID) (i # seen) ms)"

definition MktGenesis_Validate :: "sdk \<Rightarrow> mkt_genesis \<Rightarrow> (mkt_error, unit) res" where
  "MktGenesis_Validate S g =
     bind_res (mkt_validate_loop S 0 [] (mg_Markets g)) (\<lambda>maxMarketID.
       case mg_LastMarketID g of
         None \<Rightarrow> if mg_Markets g \<noteq> [] then Err MktErrLastIDNil else Ok ()
       | Some l \<Rightarrow>
           if mg_Markets g = [] then Err MktErrLastIDNotNil
           else if l \<noteq> maxMarketID then Err MktErrLastIDNotMax
           else Ok ())"

text \<open>The keeper's initialisation, for genesis markets that carry an identifier.\<close>

fun mkt_init_loop :: "ccs_state \<Rightarrow> Market list \<Rightarrow> (mkt_state, mkt_error, unit) op" where
  "mkt_init_loop cs [] s = (Ok (), s)"
| "mkt_init_loop cs (m # ms) s =
     (if \<not> HasCurrency cs (m_BaseAssetDenom m) then (Panic, s)
      else if \<not> HasCurrency cs (m_QuoteAssetDenom m) then (Panic, s)
      else mkt_init_loop cs ms (Markets_set m s))"

definition Markets_InitGenesis :: "ccs_state \<Rightarrow> Market list \<Rightarrow> ID option \<Rightarrow> (mkt_state, mkt_error, unit) op" where
  "Markets_InitGenesis cs ms lastMarketID s =
     mkt_init_loop cs ms (case lastMarketID of None \<Rightarrow> s | Some i \<Rightarrow> Markets_setLastID i s)"

definition Markets_ExportGenesis :: "mkt_state \<Rightarrow> Market list \<times> ID option" where
  "Markets_ExportGenesis s = (Markets_GetList s, mk_lastID s)"

section \<open>Conversion of quantities\<close>

text \<open>The closed form of the conversion: the product rounded to 18 places, cut to the quote decimals.\<close>

definition quote_dec :: "MarketExtended \<Rightarrow> nat \<Rightarrow> nat \<Rightarrow> int" where
  "quote_dec m p q =
     chop (int p * int q * 10 ^ (18 - unat (cur_Decimals (me_QuoteCurrency m))) *
           10 ^ (18 - unat (cur_Decimals (me_BaseCurrency m))))"

definition quote_amount :: "MarketExtended \<Rightarrow> nat \<Rightarrow> nat \<Rightarrow> nat" where
  "quote_amount m p q = nat (quote_dec m p q div 10 ^ (18 - unat (cur_Decimals (me_QuoteCurrency m))))"

definition market_decimals_ok :: "MarketExtended \<Rightarrow> bool" where
  "market_decimals_ok m \<longleftrightarrow>
     unat (cur_Decimals (me_QuoteCurrency m)) \<le> 18 \<and> unat (cur_Decimals (me_BaseCurrency m)) \<le> 18"

lemma quote_dec_nonneg: "0 \<le> quote_dec m p q"
  by (simp add: quote_dec_def chop_nonneg)

lemma quote_dec_mono: "\<lbrakk>p \<le> p'; q \<le> q'\<rbrakk> \<Longrightarrow> quote_dec m p q \<le> quote_dec m p' q'"
  unfolding quote_dec_def
  by (intro chop_mono mult_mono mult_nonneg_nonneg) simp_all

lemma quote_amount_mono: "\<lbrakk>p \<le> p'; q \<le> q'\<rbrakk> \<Longrightarrow> quote_amount m p q \<le> quote_amount m p' q'"
  unfolding quote_amount_def by (intro nat_mono zdiv_mono1 quote_dec_mono) simp_all

lemma quote_dec_bound:
  assumes "p * q < 2 ^ 190"
  shows "quote_dec m p q \<le> 2 ^ 190 * 10 ^ 18"
proof -
  have "int p * int q \<le> 2 ^ 190" using assms by (metis less_imp_le of_nat_le_iff of_nat_mult of_nat_numeral of_nat_power)
  then have "int p * int q * 10 ^ (18 - unat (cur_Decimals (me_QuoteCurrency m))) *
      10 ^ (18 - unat (cur_Decimals (me_BaseCurrency m))) \<le> 2 ^ 190 * 10 ^ 18 * 10 ^ 18"
    by (intro mult_mono power_increasing mult_nonneg_nonneg) simp_all
  then show ?thesis
    unfolding quote_dec_def by (intro chop_le) simp_all
qed

lemma BaseToQuoteQuantity_closed:
  assumes laws: "uint_laws S" "dec_laws S" and dec: "market_decimals_ok m" and small: "p * q < 2 ^ 190"
  shows "BaseToQuoteQuantity S m p q =
    (if quote_dec m p q < 10 ^ (18 - unat (cur_Decimals (me_QuoteCurrency m)))
     then Err MktErrInvalidQuantity else Ok (quote_amount m p q))"
proof -
  define qd bd where "qd = unat (cur_Decimals (me_QuoteCurrency m))" and "bd = unat (cur_Decimals (me_BaseCurrency m))"
  have d: "qd \<le> 18" "bd \<le> 18" using dec by (simp_all add: market_decimals_ok_def qd_def bd_def)
  define x where "x = quote_dec m p q"
  have x0: "0 \<le> x" by (simp add: x_def quote_dec_nonneg)
  have xb: "x \<le> 2 ^ 190 * 10 ^ 18" using quote_dec_bound [OF small] by (simp add: x_def)
  have split10: "(10 :: int) ^ (18 - qd) * 10 ^ qd = 10 ^ 18"
    using d by (simp flip: power_add)
  have mul: "dec_mul S (int p * 10 ^ (18 - qd)) (int q * 10 ^ (18 - bd)) = Some x"
  proof -
    have "int p * 10 ^ (18 - qd) * (int q * 10 ^ (18 - bd)) = int p * int q * 10 ^ (18 - qd) * 10 ^ (18 - bd)"
      by (simp add: algebra_simps)
    moreover have "chop (int p * int q * 10 ^ (18 - qd) * 10 ^ (18 - bd)) = x"
      by (simp add: x_def quote_dec_def qd_def bd_def)
    ultimately show ?thesis using x0 xb by (simp only: dec_mul_law [OF laws(2)]) (simp add: within_def)
  qed
  have "x * dec_one * dec_one = 10 ^ (18 - qd) * (x * 10 ^ qd * dec_one)"
    using split10 by (simp add: algebra_simps)
  then have "x * dec_one * dec_one div 10 ^ (18 - qd) = x * 10 ^ qd * dec_one"
    by (metis nonzero_mult_div_cancel_left power_not_zero zero_neq_numeral)
  moreover have "chop (x * 10 ^ qd * dec_one) = x * 10 ^ qd" by (rule chop_exact)
  moreover have "x * 10 ^ qd \<le> 2 ^ 190 * 10 ^ 18 * 10 ^ 18"
    using x0 xb d by (intro mult_mono power_increasing) simp_all
  ultimately have quo: "dec_quo S x (10 ^ (18 - qd)) = Some (x * 10 ^ qd)"
    using x0 by (simp add: dec_quo_law [OF laws(2)] within_def del: chop_exact)
  have "x * 10 ^ qd div dec_one = x div 10 ^ (18 - qd)"
  proof -
    have "x * 10 ^ qd div dec_one = 10 ^ qd * x div (10 ^ qd * 10 ^ (18 - qd))"
      using split10 by (simp add: mult.commute)
    also have "\<dots> = x div 10 ^ (18 - qd)" by simp
    finally show ?thesis .
  qed
  moreover have "x div 10 ^ (18 - qd) \<le> x div 1"
    using x0 by (intro zdiv_mono2) simp_all
  moreover have "0 \<le> x div 10 ^ (18 - qd)" using x0 by (simp add: pos_imp_zdiv_nonneg_iff)
  ultimately have trunc: "dec_trunc S (x * 10 ^ qd) = Some (x div 10 ^ (18 - qd))"
    and conv: "uint_of_big S (x div 10 ^ (18 - qd)) = Some (nat (x div 10 ^ (18 - qd)))"
    using x0 xb by (simp_all add: dec_trunc_law [OF laws(2)] uint_of_big_law [OF laws(1)] within_def)
  show ?thesis
    unfolding BaseToQuoteQuantity_def UintToDec_def MinDecimal_def DecToUint_def quote_amount_def
      qd_def [symmetric] bd_def [symmetric] x_def [symmetric]
    by (simp add: dec_of_int_law [OF laws(2)] d mul quo [simplified] trunc conv)
qed

section \<open>Invariant of the registry\<close>

definition mkt_inv :: "mkt_state \<Rightarrow> bool" where
  "mkt_inv s \<longleftrightarrow> kv_keyed (\<lambda>m. GetMarketsKey (m_ID m)) (mk_markets s)"

definition mkt_ids :: "mkt_state \<Rightarrow> ID set" where
  "mkt_ids s = m_ID ` set (iterateMarkets s)"

definition mkt_created :: "mkt_state \<Rightarrow> ID \<Rightarrow> mkt_state \<Rightarrow> bool" where
  "mkt_created s i s' \<longleftrightarrow>
     (\<exists>S cs b q m. uint_laws S \<and> Markets_Add S cs b q s = (Ok m, s') \<and> m_ID m = i)"

lemma GetMarketsKey_inject [key_simps, simp]: "GetMarketsKey i = GetMarketsKey j \<longleftrightarrow> i = j"
  by (simp add: GetMarketsKey_def ID_String_def)

lemma find_duplicate_iff:
  "find_duplicate b q ms \<longleftrightarrow> (\<exists>m \<in> set ms. m_BaseAssetDenom m = b \<and> m_QuoteAssetDenom m = q)"
  by (induction ms) auto

lemma Markets_Add_Ok:
  assumes "Markets_Add S cs b q s = (Ok m, s')" and "uint_laws S"
  shows "m = NewMarket (next_id (mk_lastID s)) b q"
    and "s' = \<lparr>mk_markets = kv_set (GetMarketsKey (m_ID m)) m (mk_markets s), mk_lastID = Some (m_ID m)\<rparr>"
    and "HasCurrency cs b" and "HasCurrency cs q"
    and "\<not> find_duplicate b q (iterateMarkets s)"
  using assms incr_id_SomeD [OF assms(2)]
  by (auto simp: Markets_Add_def Markets_nextID_def Markets_set_def Markets_setLastID_def Let_def
      split: if_splits option.splits)

lemma mkt_vals_set:
  "mkt_inv s \<Longrightarrow> set (kv_vals (kv_set (GetMarketsKey (m_ID m)) m (mk_markets s))) =
     insert m {x \<in> set (kv_vals (mk_markets s)). m_ID x \<noteq> m_ID m}"
  using kv_keyed_vals_set [of "\<lambda>m. GetMarketsKey (m_ID m)" "mk_markets s" m] by (simp add: mkt_inv_def)

lemma mkt_createdI: "\<lbrakk>uint_laws S; Markets_Add S cs b q s = (Ok m, s')\<rbrakk> \<Longrightarrow> mkt_created s (m_ID m) s'"
  unfolding mkt_created_def by blast

interpretation mkt_reg: id_registry mk_lastID mkt_ids mkt_inv mkt_created
proof (standard, goal_cases)
  case (1 s i s')
  then show ?case by (auto simp: mkt_created_def NewMarket_def dest: Markets_Add_Ok(1))
next
  case (2 s i s')
  then show ?case by (auto simp: mkt_created_def dest: Markets_Add_Ok(2))
next
  case (3 s i s')
  then obtain S cs b q m where "uint_laws S" "Markets_Add S cs b q s = (Ok m, s')" "m_ID m = i"
    by (auto simp: mkt_created_def)
  with 3(1) show ?case
    by (auto simp: mkt_ids_def iterateMarkets_def mkt_vals_set dest!: Markets_Add_Ok(2))
next
  case (4 s i s')
  then obtain S cs b q m where "uint_laws S" "Markets_Add S cs b q s = (Ok m, s')"
    by (auto simp: mkt_created_def)
  with 4(1) show ?case
    using kv_keyed_set [of "\<lambda>m. GetMarketsKey (m_ID m)"] by (auto simp: mkt_inv_def dest!: Markets_Add_Ok(2))
qed

text \<open>The states reached from the empty registry by successful creations.\<close>

inductive mkt_reach :: "mkt_state \<Rightarrow> bool" where
  mkt_start: "mkt_reach \<lparr>mk_markets = [], mk_lastID = None\<rparr>"
| mkt_add: "\<lbrakk>mkt_reach s; uint_laws S; Markets_Add S cs b q s = (Ok m, s')\<rbrakk> \<Longrightarrow> mkt_reach s'"

definition mkt_pairs_unique :: "mkt_state \<Rightarrow> bool" where
  "mkt_pairs_unique s \<longleftrightarrow>
     (\<forall>m \<in> set (iterateMarkets s). \<forall>n \<in> set (iterateMarkets s).
        m_BaseAssetDenom m = m_BaseAssetDenom n \<longrightarrow> m_QuoteAssetDenom m = m_QuoteAssetDenom n \<longrightarrow> m = n)"

lemma mkt_reach_inv:
  assumes "mkt_reach s"
  shows "mkt_inv s \<and> ids_bounded (mk_lastID s) (mkt_ids s) \<and> mkt_pairs_unique s"
  using assms
proof (induction rule: mkt_reach.induct)
  case mkt_start
  show ?case by (simp add: mkt_inv_def ids_bounded_def mkt_ids_def iterateMarkets_def kv_vals_def mkt_pairs_unique_def)
next
  case (mkt_add s S cs b q m s')
  have c: "mkt_created s (m_ID m) s'" using mkt_add mkt_createdI by blast
  note ok = Markets_Add_Ok [OF mkt_add.hyps(3,2)]
  have fresh: "m_ID m \<notin> mkt_ids s" using mkt_reg.created_fresh mkt_add c by blast
  have "set (iterateMarkets s') = insert m (set (iterateMarkets s))"
    using mkt_vals_set [of s m] mkt_add fresh by (auto simp: ok(2) iterateMarkets_def mkt_ids_def image_iff)
  with mkt_add ok(1,5) have "mkt_pairs_unique s'"
    by (auto simp: mkt_pairs_unique_def find_duplicate_iff NewMarket_def)
  with mkt_add c mkt_reg.created_bounded mkt_reg.created_inv show ?case by blast
qed

section \<open>Properties\<close>

text \<open>
  Creating a market in a reached state stores it under a fresh identifier, for a pair that had no
  market and whose two currencies are registered; it is then read back by its identifier, all other markets
  are unchanged, and no two markets share a pair.
\<close>

theorem markets_add_correct:
  assumes "mkt_reach s" and "uint_laws S" and "Markets_Add S cs b q s = (Ok m, s')"
  shows "\<not> Markets_Has s (m_ID m) \<and> Markets_Get s' (m_ID m) = Ok m \<and>
    m_BaseAssetDenom m = b \<and> m_QuoteAssetDenom m = q \<and> HasCurrency cs b \<and> HasCurrency cs q \<and>
    (\<forall>j. j \<noteq> m_ID m \<longrightarrow> Markets_Get s' j = Markets_Get s j) \<and>
    length (Markets_GetList s') = Suc (length (Markets_GetList s)) \<and> mkt_pairs_unique s'"
proof -
  note inv = mkt_reach_inv [OF assms(1)] and ok = Markets_Add_Ok [OF assms(3,2)]
  have c: "mkt_created s (m_ID m) s'" using assms mkt_createdI by blast
  have "m_ID m \<notin> mkt_ids s" using mkt_reg.created_fresh inv c by blast
  then have none: "kv_get (GetMarketsKey (m_ID m)) (mk_markets s) = None"
    using inv by (force simp: mkt_inv_def mkt_ids_def iterateMarkets_def kv_keyed_get_None image_iff)
  have u: "mkt_pairs_unique s'" using mkt_reach_inv [OF mkt_add [OF assms]] by simp
  show ?thesis
    using none u ok(3,4)
    by (simp add: Markets_Has_def Markets_Get_def Markets_GetList_def iterateMarkets_def kv_vals_def kv_has_iff
        ok(1,2) NewMarket_def kv_set_fresh_length)
qed

text \<open>
  C33. The conversion of a base quantity at a price, for decimals up to 18 and a product below \<open>2^190\<close>:
  it never panics, it is an error exactly when the amount is below one unit of the quote currency, otherwise it
  is the product at the quote decimals, off by at most half a unit of the 18th decimal before the cut.
\<close>

theorem base_to_quote_correct:
  assumes "uint_laws S" "dec_laws S" and "market_decimals_ok m" and "p * q < 2 ^ 190"
  shows "BaseToQuoteQuantity S m p q =
    (if quote_dec m p q < 10 ^ (18 - unat (cur_Decimals (me_QuoteCurrency m)))
     then Err MktErrInvalidQuantity else Ok (quote_amount m p q))"
  by (rule BaseToQuoteQuantity_closed [OF assms])

definition ex_market :: MarketExtended where
  "ex_market = \<lparr>me_ID = 0,
     me_BaseCurrency = \<lparr>cur_Denom = ''btc'', cur_Decimals = 8, cur_Supply = 0, cur_ContractAddress = []\<rparr>,
     me_QuoteCurrency = \<lparr>cur_Denom = ''usdt'', cur_Decimals = 6, cur_Supply = 0, cur_ContractAddress = []\<rparr>\<rparr>"

text \<open>Half a bitcoin at a price of 9000 is 4500 in the units of the quote currency.\<close>

theorem base_to_quote_correct_witness:
  "BaseToQuoteQuantity ref_sdk ex_market 9000000000 50000000 = Ok 4500000000"
  using base_to_quote_correct [OF ref_uint_laws ref_dec_laws, of ex_market 9000000000 50000000]
  by (simp add: market_decimals_ok_def ex_market_def quote_dec_def quote_amount_def chop_def chop_pos_def Let_def)

definition ex_ccs2 :: ccs_state where
  "ex_ccs2 = \<lparr>ccs_currencies = [(GetCurrencyKey ''btc'', me_BaseCurrency ex_market),
      (GetCurrencyKey ''usdt'', me_QuoteCurrency ex_market)], ccs_vm = []\<rparr>"

definition ex_btc_usdt :: Market where
  "ex_btc_usdt = NewMarket 0 ''btc'' ''usdt''"

definition ex_mkt :: mkt_state where
  "ex_mkt = \<lparr>mk_markets = [(GetMarketsKey 0, ex_btc_usdt)], mk_lastID = Some 0\<rparr>"

lemma ex_mkt_add:
  "Markets_Add ref_sdk ex_ccs2 ''btc'' ''usdt'' \<lparr>mk_markets = [], mk_lastID = None\<rparr> = (Ok ex_btc_usdt, ex_mkt)"
  by (simp add: Markets_Add_def iterateMarkets_def kv_vals_def HasCurrency_def kv_has_def ex_ccs2_def
      Markets_nextID_def incr_id_def Let_def NewMarket_def ex_btc_usdt_def ex_mkt_def Markets_set_def Markets_setLastID_def)

theorem markets_add_correct_witness:
  "Markets_Get ex_mkt 0 = Ok ex_btc_usdt \<and> mkt_pairs_unique ex_mkt"
  using markets_add_correct [OF mkt_start ref_uint_laws ex_mkt_add]
  by (simp add: ex_btc_usdt_def NewMarket_def)

end
