(* ===== verification/Orders.thy ===== *)
theory Orders
  imports Markets
begin

text \<open>
  Module \<open>x/orders\<close>: posting, revoking and executing orders. An order locks coins of its owner in
  the module account; revoking it (by its owner, or at the end of a block when its time to live is over)
  gives them back; the fills computed by the order book pay out coins and shrink or remove the order.
  Times are nanoseconds, a \<open>time.Duration\<close> is kept at its 64-bit width.
\<close>

section \<open>Types\<close>

type_synonym Direction = string

definition Bid :: Direction where "Bid = ''bid''"
definition Ask :: Direction where "Ask = ''ask''"

definition Direction_IsValid :: "Direction \<Rightarrow> bool" where
  "Direction_IsValid d = (if d = Bid \<or> d = Ask then True else False)"

record Order =
  o_ID :: ID
  o_Owner :: bytes
  o_Market :: MarketExtended
  o_Direction :: Direction
  o_Price :: nat
  o_Quantity :: nat
  o_Ttl :: int
  o_CreatedAt :: int
  o_UpdatedAt :: int

record OrderFill =
  f_Order :: Order
  f_ClearancePrice :: nat
  f_QuantityFilled :: nat
  f_QuantityUnfilled :: nat

datatype ord_error =
    OrdErrInternal
  | OrdErrWrongMarketID
  | OrdErrWrongOwner
  | OrdErrWrongPrice
  | OrdErrWrongQuantity
  | OrdErrWrongTtl
  | OrdErrWrongDirection
  | OrdErrWrongOrderID
  | OrdErrWrongAssetCode
  | OrdErrMarket mkt_error
  | OrdErrPage page_error
  | OrdErrGenesis string

definition NewOrder ::
  "int \<Rightarrow> ID \<Rightarrow> bytes \<Rightarrow> MarketExtended \<Rightarrow> Direction \<Rightarrow> nat \<Rightarrow> nat \<Rightarrow> 64 word \<Rightarrow> Order" where
  "NewOrder blockTime i owner market direction price quantity ttlInSec =
     \<lparr>o_ID = i, o_Owner = owner, o_Market = market, o_Direction = direction, o_Price = price,
      o_Quantity = quantity, o_Ttl = sint (ttlInSec * 1000000000), o_CreatedAt = blockTime, o_UpdatedAt = blockTime\<rparr>"

text \<open>\<open>Valid\<close> is used on genesis objects, whose identifiers may be missing; \<open>now\<close> is \<open>time.Now()\<close>.\<close>

definition Order_Valid :: "sdk \<Rightarrow> int \<Rightarrow> ID option \<Rightarrow> ID option \<Rightarrow> Order \<Rightarrow> (ord_error, unit) res" where
  "Order_Valid S now i marketID ord =
     (if ID_Valid i \<noteq> Ok () then Err (OrdErrGenesis ''id'')
      else if o_Owner ord = [] then Err (OrdErrGenesis ''owner: empty'')
      else if \<not> addr_valid S (o_Owner ord) then Err (OrdErrGenesis ''owner address format is wrong'')
      else if MarketExtended_Valid S marketID (o_Market ord) \<noteq> Ok () then Err (OrdErrGenesis ''market'')
      else if \<not> Direction_IsValid (o_Direction ord) then Err (OrdErrGenesis ''direction: invalid'')
      else if o_Price ord = 0 then Err (OrdErrGenesis ''price: is zero'')
      else if o_Quantity ord = 0 then Err (OrdErrGenesis ''quantity: is zero'')
      else if o_UpdatedAt ord < o_CreatedAt ord then Err (OrdErrGenesis ''wrong create and update dates'')
      else if o_CreatedAt ord = time_zero then Err (OrdErrGenesis ''created_at: is zero'')
      else if now < o_CreatedAt ord then Err (OrdErrGenesis ''created_at: is future date'')
      else if o_UpdatedAt ord = time_zero then Err (OrdErrGenesis ''updated_at: is zero'')
      else if now < o_UpdatedAt ord then Err (OrdErrGenesis ''updated_at: is future date'')
      else Ok ())"

definition ValidatePriceQuantity :: "sdk \<Rightarrow> Order \<Rightarrow> (ord_error, unit) res" where
  "ValidatePriceQuantity S ord =
     bind_res (from_opt (MinDecimal S (me_QuoteCurrency (o_Market ord)))) (\<lambda>minQuotePrice.
     bind_res (from_opt (UintToDec S (me_QuoteCurrency (o_Market ord)) (o_Price ord))) (\<lambda>quotePrice.
     bind_res (from_opt (MinDecimal S (me_BaseCurrency (o_Market ord)))) (\<lambda>minBaseQuantity.
     bind_res (from_opt (UintToDec S (me_BaseCurrency (o_Market ord)) (o_Quantity ord))) (\<lambda>baseQuantity.
       if quotePrice < minQuotePrice then Err OrdErrWrongPrice
       else if baseQuantity < minBaseQuantity then Err OrdErrWrongQuantity
       else Ok ()))))"

text \<open>A quantity turned into an \<open>sdk.Int\<close> and a coin (both conversions may panic).\<close>

definition quantity_coin :: "sdk \<Rightarrow> string \<Rightarrow> nat \<Rightarrow> ('e, coin) res" where
  "quantity_coin S denom quantity =
     from_opt (Option.bind (int_of_big S (int quantity)) (\<lambda>v. new_coin S denom v))"

fun lift_mkt :: "(mkt_error, 'a) res \<Rightarrow> (ord_error, 'a) res" where
  "lift_mkt (Ok x) = Ok x"
| "lift_mkt (Err e) = Err (OrdErrMarket e)"
| "lift_mkt Panic = Panic"

definition LockCoin :: "sdk \<Rightarrow> Order \<Rightarrow> (ord_error, coin) res" where
  "LockCoin S ord =
     (if o_Direction ord = Bid then
        bind_res (lift_mkt (BaseToQuoteQuantity S (o_Market ord) (o_Price ord) (o_Quantity ord))) (\<lambda>quantity.
          quantity_coin S (QuoteDenom (o_Market ord)) quantity)
      else if o_Direction ord = Ask then quantity_coin S (BaseDenom (o_Market ord)) (o_Quantity ord)
      else Err OrdErrWrongDirection)"

definition FillCoin :: "sdk \<Rightarrow> OrderFill \<Rightarrow> (ord_error, coin) res" where
  "FillCoin S f =
     (if o_Direction (f_Order f) = Bid then
        quantity_coin S (BaseDenom (o_Market (f_Order f))) (f_QuantityFilled f)
      else if o_Direction (f_Order f) = Ask then
        bind_res (lift_mkt (BaseToQuoteQuantity S (o_Market (f_Order f)) (f_ClearancePrice f) (f_QuantityFilled f)))
          (\<lambda>quantity. quantity_coin S (QuoteDenom (o_Market (f_Order f))) quantity)
      else Err OrdErrWrongDirection)"

text \<open>The result is the flag \<open>doRefund\<close> and the coin, if one could be made.\<close>

definition RefundCoin :: "sdk \<Rightarrow> OrderFill \<Rightarrow> (ord_error, bool \<times> coin option) res" where
  "RefundCoin S f =
     (if o_Direction (f_Order f) = Bid then
        (if f_ClearancePrice f < o_Price (f_Order f) then
           bind_res (from_opt (uint_sub S (o_Price (f_Order f)) (f_ClearancePrice f))) (\<lambda>priceDiff.
             case BaseToQuoteQuantity S (o_Market (f_Order f)) priceDiff (f_QuantityFilled f) of
               Ok quantity \<Rightarrow>
                 bind_res (quantity_coin S (QuoteDenom (o_Market (f_Order f))) quantity) (\<lambda>c. Ok (True, Some c))
             | Err _ \<Rightarrow> Ok (True, None)
             | Panic \<Rightarrow> Panic)
         else Ok (False, None))
      else if o_Direction (f_Order f) = Ask then Ok (False, None)
      else Err OrdErrWrongDirection)"

section \<open>Keeper\<close>

record ord_state =
  os_orders :: "Order kv"
  os_lastID :: "ID option"
  os_bank :: ledger

abbreviation orders_module :: string where
  "orders_module \<equiv> ''orders''"

text \<open>\<open>None\<close>: \<open>Uint64()\<close> panics on an identifier that does not fit 64 bits.\<close>

definition GetOrderKey :: "ID \<Rightarrow> bytes option" where
  "GetOrderKey i = map_option (\<lambda>n. join_with (CHR '':'') [''order'', be64 n]) (ID_UInt64 i)"

definition Orders_Has :: "ord_state \<Rightarrow> ID \<Rightarrow> bool option" where
  "Orders_Has s i = map_option (\<lambda>k. kv_has k (os_orders s)) (GetOrderKey i)"

definition Orders_Get :: "ord_state \<Rightarrow> ID \<Rightarrow> (ord_error, Order) res" where
  "Orders_Get s i =
     (case GetOrderKey i of
        None \<Rightarrow> Panic
      | Some k \<Rightarrow> (case kv_get k (os_orders s) of None \<Rightarrow> Err OrdErrWrongOrderID | Some ord \<Rightarrow> Ok ord))"

definition Orders_GetList :: "ord_state \<Rightarrow> Order list" where
  "Orders_GetList s = kv_vals (os_orders s)"

definition Orders_set :: "Order \<Rightarrow> ord_state \<Rightarrow> ord_state option" where
  "Orders_set ord s =
     map_option (\<lambda>k. s\<lparr>os_orders := kv_set k ord (os_orders s)\<rparr>) (GetOrderKey (o_ID ord))"

definition Orders_del :: "ID \<Rightarrow> ord_state \<Rightarrow> ord_state option" where
  "Orders_del i s = map_option (\<lambda>k. s\<lparr>os_orders := kv_del k (os_orders s)\<rparr>) (GetOrderKey i)"

definition Orders_nextID :: "sdk \<Rightarrow> ord_state \<Rightarrow> ID option" where
  "Orders_nextID S s = incr_id S (os_lastID s)"

definition Orders_setID :: "ID \<Rightarrow> ord_state \<Rightarrow> ord_state" where
  "Orders_setID i s = s\<lparr>os_lastID := Some i\<rparr>"

definition LockOrderCoins :: "sdk \<Rightarrow> bank \<Rightarrow> Order \<Rightarrow> (ord_state, ord_error, unit) op" where
  "LockOrderCoins S B ord s =
     (case LockCoin S ord of
        Err e \<Rightarrow> (Err e, s)
      | Panic \<Rightarrow> (Panic, s)
      | Ok c \<Rightarrow>
          (case send_to_module B (o_Owner ord) orders_module c (os_bank s) of
             None \<Rightarrow> (Err OrdErrInternal, s)
           | Some l \<Rightarrow> (Ok (), s\<lparr>os_bank := l\<rparr>)))"

definition UnlockOrderCoins :: "sdk \<Rightarrow> bank \<Rightarrow> Order \<Rightarrow> (ord_state, ord_error, unit) op" where
  "UnlockOrderCoins S B ord s =
     (case LockCoin S ord of
        Err e \<Rightarrow> (Err e, s)
      | Panic \<Rightarrow> (Panic, s)
      | Ok c \<Rightarrow>
          (case send_from_module B orders_module (o_Owner ord) c (os_bank s) of
             None \<Rightarrow> (Err OrdErrInternal, s)
           | Some l \<Rightarrow> (Ok (), s\<lparr>os_bank := l\<rparr>)))"

definition PostOrder ::
  "sdk \<Rightarrow> bank \<Rightarrow> ccs_state \<Rightarrow> mkt_state \<Rightarrow> int \<Rightarrow> bytes \<Rightarrow> AssetCode \<Rightarrow> Direction \<Rightarrow> nat \<Rightarrow> nat \<Rightarrow> 64 word \<Rightarrow>
   (ord_state, ord_error, Order) op" where
  "PostOrder S B cs ms blockTime owner assetCode direction price quantity ttlInSec s =
     (case Markets_GetListFiltered ms ((NewMarketsFilter 1 1)\<lparr>mr_AssetCode := assetCode\<rparr>) of
        Err e \<Rightarrow> (Err (OrdErrMarket e), s)
      | Panic \<Rightarrow> (Panic, s)
      | Ok [] \<Rightarrow> (Err OrdErrWrongAssetCode, s)
      | Ok (m # _) \<Rightarrow>
          (case GetExtended cs ms (m_ID m) of
             Err e \<Rightarrow> (Err (OrdErrMarket e), s)
           | Panic \<Rightarrow> (Panic, s)
           | Ok market \<Rightarrow>
               (case Orders_nextID S s of
                  None \<Rightarrow> (Panic, s)
                | Some i \<Rightarrow>
                    let ord = NewOrder blockTime i owner market direction price quantity ttlInSec in
                    (case ValidatePriceQuantity S ord of
                       Err e \<Rightarrow> (Err e, s)
                     | Panic \<Rightarrow> (Panic, s)
                     | Ok _ \<Rightarrow>
                         (case LockOrderCoins S B ord s of
                            (Err e, s1) \<Rightarrow> (Err e, s1)
                          | (Panic, s1) \<Rightarrow> (Panic, s1)
                          | (Ok _, s1) \<Rightarrow>
                              (case Orders_set ord s1 of
                                 None \<Rightarrow> (Panic, s1)
                               | Some s2 \<Rightarrow> (Ok ord, Orders_setID i s2)))))))"

definition RevokeOrder :: "sdk \<Rightarrow> bank \<Rightarrow> ID \<Rightarrow> (ord_state, ord_error, unit) op" where
  "RevokeOrder S B i s =
     (case Orders_Get s i of
        Err _ \<Rightarrow> (Err OrdErrWrongOrderID, s)
      | Panic \<Rightarrow> (Panic, s)
      | Ok ord \<Rightarrow>
          (case UnlockOrderCoins S B ord s of
             (Err e, s1) \<Rightarrow> (Err e, s1)
           | (Panic, s1) \<Rightarrow> (Panic, s1)
           | (Ok _, s1) \<Rightarrow> (case Orders_del i s1 of None \<Rightarrow> (Panic, s1) | Some s2 \<Rightarrow> (Ok (), s2))))"

text \<open>
  One iteration of \<open>ExecuteOrderFills\<close>. A fill whose coin cannot be made is logged and skipped; a
  failing credit is a panic. The coins are credited from nowhere: the module account is not debited.
\<close>

definition close_fill :: "int \<Rightarrow> OrderFill \<Rightarrow> (ord_state, ord_error, unit) op" where
  "close_fill blockTime f s =
     (if f_QuantityUnfilled f = 0 then
        (case Orders_del (o_ID (f_Order f)) s of None \<Rightarrow> (Panic, s) | Some s' \<Rightarrow> (Ok (), s'))
      else
        (case Orders_set ((f_Order f)\<lparr>o_Quantity := f_QuantityUnfilled f, o_UpdatedAt := blockTime\<rparr>) s of
           None \<Rightarrow> (Panic, s) | Some s' \<Rightarrow> (Ok (), s')))"

definition refund_fill :: "sdk \<Rightarrow> bank \<Rightarrow> int \<Rightarrow> OrderFill \<Rightarrow> (ord_state, ord_error, unit) op" where
  "refund_fill S B blockTime f s =
     (case RefundCoin S f of
        Panic \<Rightarrow> (Panic, s)
      | Err _ \<Rightarrow> (Ok (), s)
      | Ok (True, Some c) \<Rightarrow>
          (case add_coins B (o_Owner (f_Order f)) c (os_bank s) of
             None \<Rightarrow> (Panic, s)
           | Some l \<Rightarrow> close_fill blockTime f (s\<lparr>os_bank := l\<rparr>))
      | Ok _ \<Rightarrow> close_fill blockTime f s)"

definition execute_fill :: "sdk \<Rightarrow> bank \<Rightarrow> int \<Rightarrow> OrderFill \<Rightarrow> (ord_state, ord_error, unit) op" where
  "execute_fill S B blockTime f s =
     (case FillCoin S f of
        Panic \<Rightarrow> (Panic, s)
      | Err _ \<Rightarrow> (Ok (), s)
      | Ok c \<Rightarrow>
          (case add_coins B (o_Owner (f_Order f)) c (os_bank s) of
             None \<Rightarrow> (Panic, s)
           | Some l \<Rightarrow> refund_fill S B blockTime f (s\<lparr>os_bank := l\<rparr>)))"

fun ExecuteOrderFills :: "sdk \<Rightarrow> bank \<Rightarrow> int \<Rightarrow> OrderFill list \<Rightarrow> (ord_state, ord_error, unit) op" where
  "ExecuteOrderFills S B blockTime [] s = (Ok (), s)"
| "ExecuteOrderFills S B blockTime (f # fs) s =
     (case execute_fill S B blockTime f s of
        (Ok _, s') \<Rightarrow> ExecuteOrderFills S B blockTime fs s'
      | (r, s') \<Rightarrow> (r, s'))"

subsection \<open>Queries\<close>

record OrdersReq =
  or_Page :: nat
  or_Limit :: nat
  or_Owner :: bytes
  or_Direction :: Direction
  or_MarketID :: string

definition order_matches :: "OrdersReq \<Rightarrow> ID option \<Rightarrow> Order \<Rightarrow> bool" where
  "order_matches params paramsMarketID ord \<longleftrightarrow>
     \<not> (or_Owner params \<noteq> [] \<and> o_Owner ord \<noteq> or_Owner params) \<and>
     \<not> (or_MarketID params \<noteq> [] \<and> Some (me_ID (o_Market ord)) \<noteq> paramsMarketID) \<and>
     \<not> (Direction_IsValid (or_Direction params) \<and> o_Direction ord \<noteq> or_Direction params)"

text \<open>
  An unparsable market identifier is left nil, and comparing an order's market with it dereferences
  the nil integer.
\<close>

definition Orders_GetListFiltered :: "sdk \<Rightarrow> ord_state \<Rightarrow> OrdersReq \<Rightarrow> (ord_error, Order list) res" where
  "Orders_GetListFiltered S s params =
     (let ords = Orders_GetList s;
          paramsMarketID = (case NewIDFromString S (or_MarketID params) of Ok i \<Rightarrow> Some i | _ \<Rightarrow> None) in
      if or_MarketID params \<noteq> [] \<and> paramsMarketID = None \<and> ords \<noteq> [] then Panic
      else let filteredOrders = filter (order_matches params paramsMarketID) ords in
        (case PaginateSlice (int (length filteredOrders)) (or_Page params) (or_Limit params) of
           Err e \<Rightarrow> Err (OrdErrPage e)
         | Panic \<Rightarrow> Panic
         | Ok (start, end') \<Rightarrow> go_slice filteredOrders (unat start) (unat end')))"

subsection \<open>Messages, end of block, genesis\<close>

record MsgPostOrder =
  mpo_Owner :: bytes
  mpo_AssetCode :: AssetCode
  mpo_Direction :: Direction
  mpo_Price :: nat
  mpo_Quantity :: nat
  mpo_TtlInSec :: "64 word"

definition MsgPostOrder_ValidateBasic :: "MsgPostOrder \<Rightarrow> (ord_error, unit) res" where
  "MsgPostOrder_ValidateBasic msg =
     (if AssetCode_Validate (mpo_AssetCode msg) \<noteq> Ok () then Err OrdErrWrongAssetCode
      else if mpo_Owner msg = [] then Err OrdErrWrongOwner
      else if \<not> Direction_IsValid (mpo_Direction msg) then Err OrdErrWrongDirection
      else if mpo_Price msg = 0 then Err OrdErrWrongPrice
      else if mpo_Quantity msg = 0 then Err OrdErrWrongQuantity
      else if mpo_TtlInSec msg = 0 then Err OrdErrWrongTtl
      else Ok ())"

record MsgRevokeOrder =
  mro_Owner :: bytes
  mro_OrderID :: "ID option"

definition MsgRevokeOrder_ValidateBasic :: "MsgRevokeOrder \<Rightarrow> (ord_error, unit) res" where
  "MsgRevokeOrder_ValidateBasic msg =
     (if mro_Owner msg = [] then Err OrdErrWrongOwner
      else if ID_Valid (mro_OrderID msg) \<noteq> Ok () then Err OrdErrWrongOrderID
      else Ok ())"

definition handleMsgPostOrder ::
  "sdk \<Rightarrow> bank \<Rightarrow> ccs_state \<Rightarrow> mkt_state \<Rightarrow> int \<Rightarrow> MsgPostOrder \<Rightarrow> (ord_state, ord_error, Order) op" where
  "handleMsgPostOrder S B cs ms blockTime msg s =
     PostOrder S B cs ms blockTime (mpo_Owner msg) (mpo_AssetCode msg) (mpo_Direction msg) (mpo_Price msg)
       (mpo_Quantity msg) (mpo_TtlInSec msg) s"

definition handleMsgCancelOrder :: "sdk \<Rightarrow> bank \<Rightarrow> bytes \<Rightarrow> ID \<Rightarrow> (ord_state, ord_error, Order) op" where
  "handleMsgCancelOrder S B owner i s =
     (case Orders_Get s i of
        Err e \<Rightarrow> (Err e, s)
      | Panic \<Rightarrow> (Panic, s)
      | Ok ord \<Rightarrow>
          if o_Owner ord \<noteq> owner then (Err OrdErrWrongOwner, s)
          else (case RevokeOrder S B i s of
                  (Ok _, s') \<Rightarrow> (Ok ord, s')
                | (Err e, s') \<Rightarrow> (Err e, s')
                | (Panic, s') \<Rightarrow> (Panic, s')))"

definition ttl_expired :: "int \<Rightarrow> Order \<Rightarrow> bool" where
  "ttl_expired now ord \<longleftrightarrow> o_Ttl ord \<le> time_sub now (o_CreatedAt ord)"

fun end_block_loop :: "sdk \<Rightarrow> bank \<Rightarrow> int \<Rightarrow> Order list \<Rightarrow> (ord_state, ord_error, unit) op" where
  "end_block_loop S B now [] s = (Ok (), s)"
| "end_block_loop S B now (ord # ords) s =
     (if ttl_expired now ord
      then (case RevokeOrder S B (o_ID ord) s of
              (Panic, s') \<Rightarrow> (Panic, s')
            | (_, s') \<Rightarrow> end_block_loop S B now ords s')
      else end_block_loop S B now ords s)"

definition Orders_EndBlocker :: "sdk \<Rightarrow> bank \<Rightarrow> int \<Rightarrow> (ord_state, ord_error, unit) op" where
  "Orders_EndBlocker S B now s = end_block_loop S B now (Orders_GetList s) s"

record ord_genesis =
  og_Orders :: "Order list"
  og_LastOrderId :: "ID option"

fun ord_validate_loop :: "sdk \<Rightarrow> int \<Rightarrow> int \<Rightarrow> ID \<Rightarrow> ID list \<Rightarrow> Order list \<Rightarrow> (ord_error, ID) res" where
  "ord_validate_loop S now blockTime maxOrderID seen [] = Ok maxOrderID"
| "ord_validate_loop S now blockTime maxOrderID seen (ord # ords) =
     bind_res (Order_Valid S now (Some (o_ID ord)) (Some (me_ID (o_Market ord))) ord) (\<lambda>_.
       if blockTime \<noteq> time_zero \<and> blockTime < o_CreatedAt ord then Err (OrdErrGenesis ''create_at after block time'')
       else if blockTime \<noteq> time_zero \<and> blockTime < o_UpdatedAt ord then Err (OrdErrGenesis ''updated_at after block time'')
       else if o_ID ord \<in> set seen then Err (OrdErrGenesis ''duplicated ID'')
       else ord_validate_loop S now blockTime (if maxOrderID < o_ID ord then o_ID ord else maxOrderID)
              (o_ID ord # seen) ords)"

definition OrdGenesis_Validate :: "sdk \<Rightarrow> int \<Rightarrow> int \<Rightarrow> ord_genesis \<Rightarrow> (ord_error, unit) res" where
  "OrdGenesis_Validate S now blockTime g =
     bind_res (ord_validate_loop S now blockTime 0 [] (og_Orders g)) (\<lambda>maxOrderID.
       case og_LastOrderId g of
         None \<Rightarrow> if og_Orders g \<noteq> [] then Err (OrdErrGenesis ''last_order_id: nil with existing orders'') else Ok ()
       | Some l \<Rightarrow>
           if og_Orders g = [] then Err (OrdErrGenesis ''last_order_id: not nil without existing orders'')
           else if l \<noteq> maxOrderID then Err (OrdErrGenesis ''last_order_id: not equal to max order ID'')
           else Ok ())"

fun ord_init_loop :: "mkt_state \<Rightarrow> Order list \<Rightarrow> (ord_state, ord_error, unit) op" where
  "ord_init_loop ms [] s = (Ok (), s)"
| "ord_init_loop ms (ord # ords) s =
     (case Markets_Get ms (me_ID (o_Market ord)) of
        Ok _ \<Rightarrow> (case Orders_set ord s of None \<Rightarrow> (Panic, s) | Some s' \<Rightarrow> ord_init_loop ms ords s')
      | _ \<Rightarrow> (Panic, s))"

definition Orders_InitGenesis :: "sdk \<Rightarrow> mkt_state \<Rightarrow> int \<Rightarrow> int \<Rightarrow> ord_genesis \<Rightarrow> (ord_state, ord_error, unit) op" where
  "Orders_InitGenesis S ms now blockTime g s =
     (case OrdGenesis_Validate S now blockTime g of
        Ok _ \<Rightarrow>
          (case ord_init_loop ms (og_Orders g) s of
             (Ok _, s') \<Rightarrow>
               (Ok (), case og_LastOrderId g of None \<Rightarrow> s' | Some i \<Rightarrow> Orders_setID i s')
           | (r, s') \<Rightarrow> (r, s'))
      | _ \<Rightarrow> (Panic, s))"

definition Orders_ExportGenesis :: "ord_state \<Rightarrow> ord_genesis" where
  "Orders_ExportGenesis s = \<lparr>og_Orders = Orders_GetList s, og_LastOrderId = os_lastID s\<rparr>"

section \<open>Keys and invariant\<close>

definition okey :: "ID \<Rightarrow> bytes" where
  "okey i = ''order:'' @ be64 i"

lemma GetOrderKey_eq: "GetOrderKey i = (if i < 2 ^ 64 then Some (okey i) else None)"
  by (simp add: GetOrderKey_def ID_UInt64_def okey_def)

lemma okey_inject [key_simps]: "\<lbrakk>i < 2 ^ 64; j < 2 ^ 64\<rbrakk> \<Longrightarrow> okey i = okey j \<longleftrightarrow> i = j"
  by (simp add: okey_def be64_inject)

definition ord_inv :: "ord_state \<Rightarrow> bool" where
  "ord_inv s \<longleftrightarrow> kv_keyed (\<lambda>x. okey (o_ID x)) (os_orders s) \<and> (\<forall>x \<in> set (Orders_GetList s). o_ID x < 2 ^ 64)"

definition ord_ids :: "ord_state \<Rightarrow> ID set" where
  "ord_ids s = o_ID ` set (Orders_GetList s)"

lemma Orders_Get_iff:
  "ord_inv s \<Longrightarrow> Orders_Get s i = Ok x \<longleftrightarrow> x \<in> set (Orders_GetList s) \<and> o_ID x = i"
  unfolding ord_inv_def Orders_Get_def GetOrderKey_eq Orders_GetList_def
  by (auto simp: okey_inject kv_keyed_get_vals [of "\<lambda>x. okey (o_ID x)" "os_orders s", symmetric]
      dest: kv_keyed_get_Some split: option.splits if_splits)

lemma ord_set_list:
  assumes "ord_inv s" and "o_ID x < 2 ^ 64"
  shows "set (kv_vals (kv_set (okey (o_ID x)) x (os_orders s))) =
    insert x {y \<in> set (Orders_GetList s). o_ID y \<noteq> o_ID x}"
  using assms kv_keyed_vals_set [of "\<lambda>x. okey (o_ID x)" "os_orders s" x]
  by (auto simp: ord_inv_def Orders_GetList_def okey_inject)

lemma ord_del_list:
  assumes "ord_inv s" and "i < 2 ^ 64"
  shows "set (kv_vals (kv_del (okey i) (os_orders s))) = {y \<in> set (Orders_GetList s). o_ID y \<noteq> i}"
  using assms kv_keyed_vals_del [of "\<lambda>x. okey (o_ID x)" "os_orders s" "okey i"]
  by (auto simp: ord_inv_def Orders_GetList_def okey_inject)

lemma ord_inv_set:
  "\<lbrakk>ord_inv s; o_ID x < 2 ^ 64\<rbrakk> \<Longrightarrow> ord_inv (s\<lparr>os_orders := kv_set (okey (o_ID x)) x (os_orders s)\<rparr>)"
  using ord_set_list [of s x] kv_keyed_set [of "\<lambda>x. okey (o_ID x)" "os_orders s" x]
  by (auto simp: ord_inv_def Orders_GetList_def)

lemma ord_inv_del:
  "\<lbrakk>ord_inv s; i < 2 ^ 64\<rbrakk> \<Longrightarrow> ord_inv (s\<lparr>os_orders := kv_del (okey i) (os_orders s)\<rparr>)"
  using ord_del_list [of s i] by (auto simp: ord_inv_def Orders_GetList_def)

lemma ord_inv_upd [simp]:
  "ord_inv (s\<lparr>os_bank := l\<rparr>) = ord_inv s" "ord_inv (s\<lparr>os_lastID := j\<rparr>) = ord_inv s"
  by (simp_all add: ord_inv_def Orders_GetList_def)

lemma GetList_upd [simp]:
  "Orders_GetList (s\<lparr>os_bank := l\<rparr>) = Orders_GetList s" "Orders_GetList (s\<lparr>os_lastID := j\<rparr>) = Orders_GetList s"
  by (simp_all add: Orders_GetList_def)

section \<open>Coins\<close>

lemma quantity_coin_Ok:
  assumes "int_laws S" "uint_laws S" and "quantity_coin S d q = Ok c"
  shows "c = (d, int q)"
  using assms by (auto simp: quantity_coin_def int_laws_def int_of_big_law within_def split: if_splits)

lemma quantity_coin_nonneg: "\<lbrakk>quantity_coin S d q = Ok c; int_laws S; uint_laws S\<rbrakk> \<Longrightarrow> 0 \<le> snd c"
  by (metis quantity_coin_Ok snd_conv of_nat_0_le_iff)

lemma quantity_coin_le:
  assumes "int_laws S" "uint_laws S" and "quantity_coin S d q = (Ok c :: ('e, coin) res)" and "q' \<le> q"
  shows "quantity_coin S d q' = (Ok (d, int q') :: ('e, coin) res)"
  using assms by (auto simp: quantity_coin_def int_laws_def int_of_big_law within_def split: if_splits)

lemma LockCoin_nonneg:
  "\<lbrakk>int_laws S; uint_laws S; LockCoin S x = Ok c\<rbrakk> \<Longrightarrow> 0 \<le> snd c"
  by (auto simp: LockCoin_def bind_res_Ok_iff dest!: quantity_coin_Ok split: if_splits)

text \<open>A smaller quantity at the same price converts to a smaller amount, or is too small; no new panic.\<close>

lemma BaseToQuoteQuantity_le:
  assumes laws: "uint_laws S" "dec_laws S" and np: "BaseToQuoteQuantity S m p q \<noteq> Panic" and le: "q' \<le> q"
  shows "BaseToQuoteQuantity S m p q' \<noteq> Panic \<and>
    (\<forall>r'. BaseToQuoteQuantity S m p q' = Ok r' \<longrightarrow> (\<exists>r \<ge> r'. BaseToQuoteQuantity S m p q = Ok r))"
proof -
  define qd bd where "qd = unat (cur_Decimals (me_QuoteCurrency m))" and "bd = unat (cur_Decimals (me_BaseCurrency m))"
  define D where "D = (10 :: int) ^ (18 - qd)"
  define x where "x k = chop (int p * D * (int k * 10 ^ (18 - bd)))" for k
  define y where "y k = chop (x k * dec_one * dec_one div D)" for k
  have d: "qd \<le> 18" "bd \<le> 18"
    using np laws(2) by (auto simp: BaseToQuoteQuantity_def UintToDec_def dec_laws_def qd_def bd_def
        split: if_splits)
  have D: "0 < D" by (simp add: D_def)
  have x0: "0 \<le> x k" for k using D by (simp add: x_def chop_nonneg)
  have y0: "0 \<le> y k" for k using D x0 by (simp add: y_def chop_nonneg pos_imp_zdiv_nonneg_iff)
  have xm: "x q' \<le> x q" unfolding x_def using le D by (intro chop_mono mult_mono mult_nonneg_nonneg) simp_all
  then have ym: "y q' \<le> y q"
    unfolding y_def using D x0 by (intro chop_mono zdiv_mono1) (simp_all add: pos_imp_zdiv_nonneg_iff)
  then have zm: "y q' div dec_one \<le> y q div dec_one" by (simp add: zdiv_mono1)
  have z0: "0 \<le> y k div dec_one" for k using y0 by (simp add: pos_imp_zdiv_nonneg_iff)
  have form: "BaseToQuoteQuantity S m p k =
    (if 2 ^ 315 \<le> x k then Panic else if x k < D then Err MktErrInvalidQuantity
     else if 2 ^ 315 \<le> y k \<or> 2 ^ 255 \<le> y k div dec_one then Panic else Ok (nat (y k div dec_one)))" for k
    unfolding BaseToQuoteQuantity_def UintToDec_def MinDecimal_def DecToUint_def qd_def [symmetric] bd_def [symmetric]
    using x0 y0 z0 D
    by (simp add: dec_of_int_law [OF laws(2)] d D_def [symmetric] dec_mul_law [OF laws(2)] x_def [symmetric])
      (auto simp: within_def dec_of_int_law [OF laws(2)] d D_def [symmetric] dec_quo_law [OF laws(2)]
        y_def [symmetric, simplified] dec_trunc_law [OF laws(2)] uint_of_big_law [OF laws(1)])
  show ?thesis
    using np xm ym zm by (auto simp: form intro: nat_mono split: if_splits)
qed

section \<open>The coins locked by the active orders\<close>

definition lock_amount :: "sdk \<Rightarrow> bytes \<Rightarrow> Order \<Rightarrow> int" where
  "lock_amount S d x = (case LockCoin S x of Ok c \<Rightarrow> (if fst c = d then snd c else 0) | _ \<Rightarrow> 0)"

definition lock_total :: "sdk \<Rightarrow> bytes \<Rightarrow> ord_state \<Rightarrow> int" where
  "lock_total S d s = (\<Sum>x \<in> set (Orders_GetList s). lock_amount S d x)"

text \<open>The module account covers what the active orders lock.\<close>

definition solvent :: "sdk \<Rightarrow> bank \<Rightarrow> ord_state \<Rightarrow> bool" where
  "solvent S B s \<longleftrightarrow> (\<forall>d. lock_total S d s \<le> os_bank s (module_address B orders_module) d)"

lemma lock_amount_nonneg: "\<lbrakk>int_laws S; uint_laws S\<rbrakk> \<Longrightarrow> 0 \<le> lock_amount S d x"
  using LockCoin_nonneg [of S x] by (auto simp: lock_amount_def split: res.splits)

lemma lock_coin_shrink:
  assumes laws: "int_laws S" "uint_laws S" "dec_laws S" and le: "q \<le> o_Quantity x"
    and np: "LockCoin S x \<noteq> Panic"
  shows "LockCoin S (x\<lparr>o_Quantity := q, o_UpdatedAt := t\<rparr>) \<noteq> Panic"
    and "lock_amount S d (x\<lparr>o_Quantity := q, o_UpdatedAt := t\<rparr>) \<le> lock_amount S d x"
proof -
  let ?x = "x\<lparr>o_Quantity := q, o_UpdatedAt := t\<rparr>"
  have "LockCoin S ?x \<noteq> Panic \<and> lock_amount S d ?x \<le> lock_amount S d x"
  proof (cases "o_Direction x = Bid")
    case bid: True
    let ?b = "BaseToQuoteQuantity S (o_Market x) (o_Price x)"
    from bid np have b: "?b (o_Quantity x) \<noteq> Panic" by (auto simp: LockCoin_def)
    note le' = BaseToQuoteQuantity_le [OF laws(2,3) b le]
    show ?thesis
    proof (cases "?b q")
      case (Ok r')
      with le' obtain r where r: "?b (o_Quantity x) = Ok r" "r' \<le> r" by blast
      from np bid r obtain c where qc: "quantity_coin S (QuoteDenom (o_Market x)) r = (Ok c :: (ord_error, coin) res)"
        by (cases "quantity_coin S (QuoteDenom (o_Market x)) r :: (ord_error, coin) res")
          (auto simp: LockCoin_def quantity_coin_def split: option.splits)
      from quantity_coin_Ok [OF laws(1,2) qc] quantity_coin_le [OF laws(1,2) qc r(2)] bid Ok r qc show ?thesis
        by (simp add: lock_amount_def LockCoin_def)
    next
      case (Err e)
      with bid lock_amount_nonneg [OF laws(1,2), of d x] show ?thesis
        by (simp add: lock_amount_def [of S d ?x] LockCoin_def)
    qed (use le' in simp)
  next
    case nb: False
    show ?thesis
    proof (cases "o_Direction x = Ask")
      case True
      from np nb True obtain c where qc: "quantity_coin S (BaseDenom (o_Market x)) (o_Quantity x) = (Ok c :: (ord_error, coin) res)"
        by (cases "quantity_coin S (BaseDenom (o_Market x)) (o_Quantity x) :: (ord_error, coin) res")
          (auto simp: LockCoin_def quantity_coin_def split: option.splits)
      from quantity_coin_Ok [OF laws(1,2) qc] quantity_coin_le [OF laws(1,2) qc le] nb True qc le show ?thesis
        by (simp add: lock_amount_def LockCoin_def)
    next
      case False
      with nb show ?thesis by (simp add: lock_amount_def LockCoin_def)
    qed
  qed
  then show "LockCoin S ?x \<noteq> Panic" and "lock_amount S d ?x \<le> lock_amount S d x" by blast+
qed

section \<open>Effect of the operations\<close>

lemma PostOrder_Ok:
  assumes "PostOrder S B cs ms t a ac dir p q ttl s = (Ok x, s')" and "uint_laws S"
  obtains m c l where "x = NewOrder t (next_id (os_lastID s)) a m dir p q ttl" and "o_ID x < 2 ^ 64"
    and "LockCoin S x = Ok c" and "send_to_module B a orders_module c (os_bank s) = Some l"
    and "s' = \<lparr>os_orders = kv_set (okey (o_ID x)) x (os_orders s), os_lastID = Some (o_ID x), os_bank = l\<rparr>"
  using assms(1) incr_id_SomeD [OF assms(2)]
  by (auto simp: PostOrder_def Let_def Orders_nextID_def LockOrderCoins_def Orders_set_def Orders_setID_def
      GetOrderKey_eq NewOrder_def split: res.splits list.splits option.splits prod.splits if_splits)

definition ord_created :: "ord_state \<Rightarrow> ID \<Rightarrow> ord_state \<Rightarrow> bool" where
  "ord_created s i s' \<longleftrightarrow>
     (\<exists>S B cs ms t a ac dir p q ttl x.
        uint_laws S \<and> PostOrder S B cs ms t a ac dir p q ttl s = (Ok x, s') \<and> o_ID x = i)"

lemma ord_createdI: "\<lbrakk>uint_laws S; PostOrder S B cs ms t a ac dir p q ttl s = (Ok x, s')\<rbrakk> \<Longrightarrow> ord_created s (o_ID x) s'"
  unfolding ord_created_def by blast

lemma ord_created_state:
  assumes "ord_created s i s'"
  obtains x l where "o_ID x = i" "i = next_id (os_lastID s)" "i < 2 ^ 64"
    "s' = \<lparr>os_orders = kv_set (okey i) x (os_orders s), os_lastID = Some i, os_bank = l\<rparr>"
proof -
  from assms obtain S B cs ms t a ac dir p q ttl x where
    u: "uint_laws S" and po: "PostOrder S B cs ms t a ac dir p q ttl s = (Ok x, s')" and i: "o_ID x = i"
    unfolding ord_created_def by blast
  obtain m c l where x: "x = NewOrder t (next_id (os_lastID s)) a m dir p q ttl" and lt: "o_ID x < 2 ^ 64"
    and s': "s' = \<lparr>os_orders = kv_set (okey (o_ID x)) x (os_orders s), os_lastID = Some (o_ID x), os_bank = l\<rparr>"
    by (rule PostOrder_Ok [OF po u])
  show thesis
    by (rule that [of x l]) (use i lt s' x in \<open>simp_all add: NewOrder_def\<close>)
qed

interpretation ord_reg: id_registry os_lastID ord_ids ord_inv ord_created
proof (standard, goal_cases)
  case (1 s i s')
  then show ?case by (auto elim: ord_created_state)
next
  case (2 s i s')
  then show ?case by (auto elim: ord_created_state)
next
  case (3 s i s')
  from 3(2) obtain x l where x: "o_ID x = i" "i < 2 ^ 64"
    and s': "s' = \<lparr>os_orders = kv_set (okey i) x (os_orders s), os_lastID = Some i, os_bank = l\<rparr>"
    by (rule ord_created_state)
  show ?case
    using ord_set_list [OF 3(1), of x] x by (auto simp: s' ord_ids_def Orders_GetList_def)
next
  case (4 s i s')
  from 4(2) obtain x l where x: "o_ID x = i" "i < 2 ^ 64"
    and s': "s' = \<lparr>os_orders = kv_set (okey i) x (os_orders s), os_lastID = Some i, os_bank = l\<rparr>"
    by (rule ord_created_state)
  show ?case
    using ord_inv_set [OF 4(1), of x] x by (simp add: s' ord_inv_def Orders_GetList_def)
qed

lemma RevokeOrder_eq:
  assumes "ord_inv s" and "x \<in> set (Orders_GetList s)" and "LockCoin S x = Ok c"
  shows "RevokeOrder S B (o_ID x) s =
    (case send_from_module B orders_module (o_Owner x) c (os_bank s) of
       None \<Rightarrow> (Err OrdErrInternal, s)
     | Some l \<Rightarrow> (Ok (), s\<lparr>os_bank := l, os_orders := kv_del (okey (o_ID x)) (os_orders s)\<rparr>))"
proof -
  have "Orders_Get s (o_ID x) = Ok x" using assms by (simp add: Orders_Get_iff)
  moreover have "o_ID x < 2 ^ 64" using assms by (simp add: ord_inv_def)
  ultimately show ?thesis
    using assms(3) by (simp add: RevokeOrder_def UnlockOrderCoins_def Orders_del_def GetOrderKey_eq split: option.splits)
qed

lemma RevokeOrder_Err:
  assumes "ord_inv s" and "x \<in> set (Orders_GetList s)" and "LockCoin S x = Err e"
  shows "RevokeOrder S B (o_ID x) s = (Err e, s)"
proof -
  have "Orders_Get s (o_ID x) = Ok x" using assms by (simp add: Orders_Get_iff)
  then show ?thesis using assms(3) by (simp add: RevokeOrder_def UnlockOrderCoins_def)
qed

lemma RevokeOrder_Ok:
  assumes "ord_inv s" and "RevokeOrder S B i s = (Ok (), s')"
  obtains x c l where "x \<in> set (Orders_GetList s)" "o_ID x = i" "LockCoin S x = Ok c"
    "send_from_module B orders_module (o_Owner x) c (os_bank s) = Some l"
    "s' = s\<lparr>os_bank := l, os_orders := kv_del (okey i) (os_orders s)\<rparr>"
proof -
  from assms(2) obtain x where x: "Orders_Get s i = Ok x"
    by (auto simp: RevokeOrder_def split: res.splits)
  with assms(1) have mem: "x \<in> set (Orders_GetList s)" "o_ID x = i" by (simp_all add: Orders_Get_iff)
  from assms(2) x obtain c where c: "LockCoin S x = Ok c"
    by (auto simp: RevokeOrder_def UnlockOrderCoins_def split: res.splits option.splits)
  from assms(2) RevokeOrder_eq [OF assms(1) mem(1) c, of B] mem c that show ?thesis
    by (auto split: option.splits)
qed

lemma send_from_module_law:
  "\<lbrakk>bank_laws B; 0 \<le> snd c\<rbrakk> \<Longrightarrow> send_from_module B m a c l = move (module_address B m) a c l"
  and send_to_module_law: "\<lbrakk>bank_laws B; 0 \<le> snd c\<rbrakk> \<Longrightarrow> send_to_module B a m c l = move a (module_address B m) c l"
  and add_coins_law: "\<lbrakk>bank_laws B; 0 \<le> snd c\<rbrakk> \<Longrightarrow> add_coins B a c l = Some (credit a c l)"
  unfolding bank_laws_def by blast+

lemma move_from:
  "move m a c l = Some l' \<Longrightarrow> l' m d = l m d - (if fst c = d \<and> a \<noteq> m then snd c else 0)"
  by (cases c) (auto simp: move_def credit_def debit_def split: if_splits)

lemma move_to:
  "move a m c l = Some l' \<Longrightarrow> l' m d = l m d + (if fst c = d \<and> a \<noteq> m then snd c else 0)"
  by (cases c) (auto simp: move_def credit_def debit_def split: if_splits)

section \<open>Solvency of the module account\<close>

definition ord_ok :: "sdk \<Rightarrow> bank \<Rightarrow> ord_state \<Rightarrow> bool" where
  "ord_ok S B s \<longleftrightarrow> ord_inv s \<and> ids_bounded (os_lastID s) (ord_ids s) \<and>
     (\<forall>x \<in> set (Orders_GetList s). LockCoin S x \<noteq> Panic) \<and> solvent S B s"

definition sdk_laws :: "sdk \<Rightarrow> bool" where
  "sdk_laws S \<longleftrightarrow> uint_laws S \<and> int_laws S \<and> dec_laws S"

lemma sdk_lawsD: "sdk_laws S \<Longrightarrow> uint_laws S" "sdk_laws S \<Longrightarrow> int_laws S" "sdk_laws S \<Longrightarrow> dec_laws S"
  by (simp_all add: sdk_laws_def)

lemma ref_sdk_laws: "sdk_laws ref_sdk"
  by (simp add: sdk_laws_def ref_laws)

lemma lock_amount_coin: "LockCoin S x = Ok c \<Longrightarrow> lock_amount S d x = (if fst c = d then snd c else 0)"
  by (simp add: lock_amount_def)

lemma lock_sum_remove:
  assumes "finite A" and "x \<in> A" and "\<And>y. y \<in> A \<Longrightarrow> o_ID y = o_ID x \<Longrightarrow> y = x"
  shows "(\<Sum>y \<in> {y \<in> A. o_ID y \<noteq> o_ID x}. lock_amount S d y) = (\<Sum>y \<in> A. lock_amount S d y) - lock_amount S d x"
proof -
  have "{y \<in> A. o_ID y \<noteq> o_ID x} = A - {x}" using assms by auto
  then show ?thesis using assms by (simp add: sum_diff1)
qed

lemma ord_inv_unique: "\<lbrakk>ord_inv s; x \<in> set (Orders_GetList s); y \<in> set (Orders_GetList s); o_ID x = o_ID y\<rbrakk> \<Longrightarrow> x = y"
  unfolding ord_inv_def Orders_GetList_def by (metis kv_keyed_get_vals option.inject)

lemma RevokeOrder_ok:
  assumes laws: "sdk_laws S" "bank_laws B" and ok: "ord_ok S B s" and r: "RevokeOrder S B i s = (Ok (), s')"
  shows "ord_ok S B s'" and "set (Orders_GetList s') = {y \<in> set (Orders_GetList s). o_ID y \<noteq> i}"
proof -
  from ok have inv: "ord_inv s" by (simp add: ord_ok_def)
  from RevokeOrder_Ok [OF inv r] obtain x c l where x: "x \<in> set (Orders_GetList s)" "o_ID x = i"
    and c: "LockCoin S x = Ok c" and l: "send_from_module B orders_module (o_Owner x) c (os_bank s) = Some l"
    and s': "s' = s\<lparr>os_bank := l, os_orders := kv_del (okey i) (os_orders s)\<rparr>" by blast
  have i: "i < 2 ^ 64" using x inv by (auto simp: ord_inv_def)
  show list: "set (Orders_GetList s') = {y \<in> set (Orders_GetList s). o_ID y \<noteq> i}"
    using ord_del_list [OF inv i] by (simp add: s' Orders_GetList_def)
  have c0: "0 \<le> snd c" using LockCoin_nonneg [OF sdk_lawsD(2,1) [OF laws(1)] c] laws by (simp add: sdk_laws_def)
  have l': "move (module_address B orders_module) (o_Owner x) c (os_bank s) = Some l"
    using l send_from_module_law [OF laws(2) c0] by simp
  have tot: "lock_total S d s' = lock_total S d s - lock_amount S d x" for d
    unfolding lock_total_def list using lock_sum_remove [of "set (Orders_GetList s)" x S d] x ord_inv_unique [OF inv]
    by auto
  have "solvent S B s'"
    unfolding solvent_def
  proof
    fix d
    have "lock_total S d s \<le> os_bank s (module_address B orders_module) d"
      using ok by (simp add: ord_ok_def solvent_def)
    then show "lock_total S d s' \<le> os_bank s' (module_address B orders_module) d"
      using tot [of d] move_from [OF l', of d] c0 lock_amount_coin [OF c, of d] by (simp add: s' split: if_splits)
  qed
  moreover have "ord_inv s'" using ord_inv_del [OF inv i] by (simp add: s' ord_inv_def Orders_GetList_def)
  moreover have "ids_bounded (os_lastID s') (ord_ids s')"
    using ok list by (auto simp: ord_ok_def s' ord_ids_def intro: ids_bounded_subset)
  ultimately show "ord_ok S B s'" using ok list by (auto simp: ord_ok_def)
qed

lemma PostOrder_ok:
  assumes laws: "sdk_laws S" "bank_laws B" and ok: "ord_ok S B s" and a: "a \<noteq> module_address B orders_module"
    and p: "PostOrder S B cs ms t a ac dir p q ttl s = (Ok x, s')"
  shows "ord_ok S B s'" and "set (Orders_GetList s') = insert x (set (Orders_GetList s))"
    and "x \<notin> set (Orders_GetList s)"
proof -
  from ok have inv: "ord_inv s" and bd: "ids_bounded (os_lastID s) (ord_ids s)" by (simp_all add: ord_ok_def)
  have cr: "ord_created s (o_ID x) s'" using ord_createdI [OF sdk_lawsD(1) [OF laws(1)] p] .
  have fresh: "o_ID x \<notin> ord_ids s" using ord_reg.created_fresh [OF inv bd cr] .
  then show nm: "x \<notin> set (Orders_GetList s)" by (auto simp: ord_ids_def)
  obtain m c l where x: "x = NewOrder t (next_id (os_lastID s)) a m dir p q ttl" and lt: "o_ID x < 2 ^ 64"
    and c: "LockCoin S x = Ok c" and l: "send_to_module B a orders_module c (os_bank s) = Some l"
    and s': "s' = \<lparr>os_orders = kv_set (okey (o_ID x)) x (os_orders s), os_lastID = Some (o_ID x), os_bank = l\<rparr>"
    by (rule PostOrder_Ok [OF p sdk_lawsD(1) [OF laws(1)]])
  show list: "set (Orders_GetList s') = insert x (set (Orders_GetList s))"
  proof -
    have "{y \<in> set (Orders_GetList s). o_ID y \<noteq> o_ID x} = set (Orders_GetList s)"
      using fresh by (auto simp: ord_ids_def image_iff)
    with ord_set_list [OF inv lt] show ?thesis by (simp add: s' Orders_GetList_def)
  qed
  have c0: "0 \<le> snd c" using LockCoin_nonneg [OF sdk_lawsD(2,1) [OF laws(1)] c] laws by (simp add: sdk_laws_def)
  have l': "move a (module_address B orders_module) c (os_bank s) = Some l"
    using l send_to_module_law [OF laws(2) c0] by simp
  have tot: "lock_total S d s' = lock_amount S d x + lock_total S d s" for d
    unfolding lock_total_def list using nm by simp
  have "solvent S B s'"
    unfolding solvent_def
  proof
    fix d
    have "lock_total S d s \<le> os_bank s (module_address B orders_module) d"
      using ok by (simp add: ord_ok_def solvent_def)
    then show "lock_total S d s' \<le> os_bank s' (module_address B orders_module) d"
      using tot [of d] move_to [OF l', of d] a lock_amount_coin [OF c, of d] by (simp add: s' split: if_splits)
  qed
  then show "ord_ok S B s'"
    using ok list c ord_reg.created_bounded [OF inv bd cr] ord_reg.created_inv [OF inv cr] by (auto simp: ord_ok_def)
qed

lemma RevokeOrder_Err_state: "RevokeOrder S B i s = (Err e, s') \<Longrightarrow> s' = s"
  by (auto simp: RevokeOrder_def UnlockOrderCoins_def split: res.splits option.splits prod.splits)

lemma end_block_ok:
  assumes laws: "sdk_laws S" "bank_laws B"
  shows "\<lbrakk>ord_ok S B s; end_block_loop S B now xs s = (Ok (), s')\<rbrakk> \<Longrightarrow> ord_ok S B s'"
proof (induction xs arbitrary: s)
  case (Cons x xs)
  show ?case
  proof (cases "ttl_expired now x")
    case True
    obtain r s1 where r: "RevokeOrder S B (o_ID x) s = (r, s1)" by (cases "RevokeOrder S B (o_ID x) s")
    have "r \<noteq> Panic" using Cons.prems(2) True r by auto
    then have "ord_ok S B s1"
      using Cons.prems(1) r RevokeOrder_ok(1) [OF laws] by (cases r) (auto dest: RevokeOrder_Err_state)
    with Cons True r \<open>r \<noteq> Panic\<close> show ?thesis by (cases r) auto
  qed (use Cons in simp)
qed simp

subsection \<open>Executing fills\<close>

definition fill_ok :: "ord_state \<Rightarrow> OrderFill \<Rightarrow> bool" where
  "fill_ok s f \<longleftrightarrow> f_Order f \<in> set (Orders_GetList s) \<and> f_QuantityUnfilled f \<le> o_Quantity (f_Order f)"

lemma credit_ge: "0 \<le> snd c \<Longrightarrow> l b d \<le> credit a c l b d"
  by (simp add: credit_def)

lemma FillCoin_nonneg: "\<lbrakk>int_laws S; uint_laws S; FillCoin S f = Ok c\<rbrakk> \<Longrightarrow> 0 \<le> snd c"
  by (auto simp: FillCoin_def bind_res_Ok_iff dest!: quantity_coin_Ok split: if_splits)

lemma RefundCoin_nonneg: "\<lbrakk>int_laws S; uint_laws S; RefundCoin S f = Ok (b, Some c)\<rbrakk> \<Longrightarrow> 0 \<le> snd c"
  by (cases "BaseToQuoteQuantity S (o_Market (f_Order f)) (the (uint_sub S (o_Price (f_Order f)) (f_ClearancePrice f)))
      (f_QuantityFilled f)")
    (auto simp: RefundCoin_def bind_res_Ok_iff dest: quantity_coin_nonneg split: if_splits)

lemma close_fill_ok:
  assumes laws: "sdk_laws S" and ok: "ord_ok S B s" and f: "fill_ok s f" and r: "close_fill t f s = (Ok (), s')"
  shows "ord_ok S B s' \<and> (\<forall>y \<in> set (Orders_GetList s). o_ID y \<noteq> o_ID (f_Order f) \<longrightarrow> y \<in> set (Orders_GetList s'))"
proof -
  let ?x = "f_Order f" and ?x' = "(f_Order f)\<lparr>o_Quantity := f_QuantityUnfilled f, o_UpdatedAt := t\<rparr>"
  let ?A = "set (Orders_GetList s)"
  from ok have inv: "ord_inv s" and bd: "ids_bounded (os_lastID s) (ord_ids s)" by (simp_all add: ord_ok_def)
  from f have x: "?x \<in> ?A" and le: "f_QuantityUnfilled f \<le> o_Quantity ?x" by (simp_all add: fill_ok_def)
  have lt: "o_ID ?x < 2 ^ 64" using x inv by (simp add: ord_inv_def)
  have np: "LockCoin S ?x \<noteq> Panic" using ok x by (simp add: ord_ok_def)
  note shrink = lock_coin_shrink [OF sdk_lawsD(2,1,3) [OF laws] le np]
  have rem: "(\<Sum>y \<in> {y \<in> ?A. o_ID y \<noteq> o_ID ?x}. lock_amount S d y) = lock_total S d s - lock_amount S d ?x" for d
    unfolding lock_total_def by (rule lock_sum_remove) (use x ord_inv_unique [OF inv] in auto)
  have nn: "0 \<le> lock_amount S d ?x" for d
    by (rule lock_amount_nonneg) (use laws in \<open>simp_all add: sdk_laws_def\<close>)
  show ?thesis
  proof (cases "f_QuantityUnfilled f = 0")
    case True
    with r lt have s': "s' = s\<lparr>os_orders := kv_del (okey (o_ID ?x)) (os_orders s)\<rparr>"
      by (auto simp: close_fill_def Orders_del_def GetOrderKey_eq)
    have list: "set (Orders_GetList s') = {y \<in> ?A. o_ID y \<noteq> o_ID ?x}"
      using ord_del_list [OF inv lt] by (simp add: s' Orders_GetList_def)
    have "lock_total S d s' \<le> lock_total S d s" for d
      unfolding lock_total_def [of S d s'] list using rem [of d] nn [of d] by simp
    with ok have "solvent S B s'" by (fastforce simp: ord_ok_def solvent_def s' intro: order_trans)
    moreover have "ids_bounded (os_lastID s') (ord_ids s')"
      using bd list by (auto simp: s' ord_ids_def intro: ids_bounded_subset)
    moreover have "ord_inv s'" using ord_inv_del [OF inv lt] by (simp add: s')
    ultimately show ?thesis using ok list by (auto simp: ord_ok_def)
  next
    case False
    with r lt have s': "s' = s\<lparr>os_orders := kv_set (okey (o_ID ?x')) ?x' (os_orders s)\<rparr>"
      by (auto simp: close_fill_def Orders_set_def GetOrderKey_eq)
    have list: "set (Orders_GetList s') = insert ?x' {y \<in> ?A. o_ID y \<noteq> o_ID ?x}"
      using ord_set_list [OF inv, of ?x'] lt by (simp add: s' Orders_GetList_def)
    have "?x' \<notin> {y \<in> ?A. o_ID y \<noteq> o_ID ?x}" by simp
    then have "lock_total S d s' \<le> lock_total S d s" for d
      unfolding lock_total_def [of S d s'] list
      using rem [of d] shrink(2) [where t = t and d = d] by (subst sum.insert) auto
    with ok have "solvent S B s'" by (fastforce simp: ord_ok_def solvent_def s' intro: order_trans)
    moreover have "ids_bounded (os_lastID s') (ord_ids s')"
    proof -
      have "ord_ids s' \<subseteq> ord_ids s" using x by (auto simp: ord_ids_def list)
      with bd show ?thesis by (auto simp: s' intro: ids_bounded_subset)
    qed
    moreover have "ord_inv s'" using ord_inv_set [OF inv, of ?x'] lt by (simp add: s')
    ultimately show ?thesis using ok list shrink(1) [where t = t] by (auto simp: ord_ok_def)
  qed
qed

lemma ord_ok_credit:
  assumes "ord_ok S B s" and "0 \<le> snd c"
  shows "ord_ok S B (s\<lparr>os_bank := credit a c (os_bank s)\<rparr>)"
proof -
  have "solvent S B (s\<lparr>os_bank := credit a c (os_bank s)\<rparr>)"
    using assms credit_ge [OF assms(2)] by (fastforce simp: ord_ok_def solvent_def lock_total_def intro: order_trans)
  with assms(1) show ?thesis by (simp add: ord_ok_def ord_ids_def)
qed

lemma execute_fill_ok:
  assumes laws: "sdk_laws S" "bank_laws B" and ok: "ord_ok S B s" and f: "fill_ok s f"
    and r: "execute_fill S B t f s = (Ok (), s')"
  shows "ord_ok S B s' \<and> (\<forall>y \<in> set (Orders_GetList s). o_ID y \<noteq> o_ID (f_Order f) \<longrightarrow> y \<in> set (Orders_GetList s'))"
proof (cases "FillCoin S f")
  case (Ok c)
  have c0: "0 \<le> snd c" using FillCoin_nonneg [OF sdk_lawsD(2,1) Ok] laws by blast
  let ?s = "s\<lparr>os_bank := credit (o_Owner (f_Order f)) c (os_bank s)\<rparr>"
  have ok1: "ord_ok S B ?s" and f1: "fill_ok ?s f"
    using ord_ok_credit [OF ok c0] f by (simp_all add: fill_ok_def)
  from r Ok have rf: "refund_fill S B t f ?s = (Ok (), s')"
    by (simp add: execute_fill_def add_coins_law [OF laws(2) c0])
  show ?thesis
  proof (cases "RefundCoin S f")
    case rc: (Ok bc)
    show ?thesis
    proof (cases "\<exists>c'. bc = (True, Some c')")
      case True
      then obtain c' where bc: "bc = (True, Some c')" by blast
      have c0': "0 \<le> snd c'" using RefundCoin_nonneg [OF sdk_lawsD(2,1)] rc bc laws by blast
      let ?s2 = "?s\<lparr>os_bank := credit (o_Owner (f_Order f)) c' (os_bank ?s)\<rparr>"
      from rf rc bc have "close_fill t f ?s2 = (Ok (), s')"
        by (simp add: refund_fill_def add_coins_law [OF laws(2) c0'])
      moreover have "ord_ok S B ?s2" and "fill_ok ?s2 f"
        using ord_ok_credit [OF ok1 c0'] f1 by (simp_all add: fill_ok_def)
      ultimately show ?thesis using close_fill_ok [OF laws(1), of B ?s2 f t s'] by simp
    next
      case False
      with rf rc have "close_fill t f ?s = (Ok (), s')"
        by (cases bc) (auto simp: refund_fill_def split: bool.splits option.splits)
      with close_fill_ok [OF laws(1) ok1 f1] show ?thesis by simp
    qed
  next
    case (Err e)
    with rf have "s' = ?s" by (simp add: refund_fill_def)
    with ok1 show ?thesis by simp
  qed (use rf in \<open>simp add: refund_fill_def\<close>)
qed (use ok r in \<open>simp_all add: execute_fill_def\<close>)

lemma ExecuteOrderFills_ok:
  assumes laws: "sdk_laws S" "bank_laws B"
  shows "\<lbrakk>ord_ok S B s; \<forall>f \<in> set fs. fill_ok s f; distinct (map (\<lambda>f. o_ID (f_Order f)) fs);
     ExecuteOrderFills S B t fs s = (Ok (), s')\<rbrakk> \<Longrightarrow> ord_ok S B s'"
proof (induction fs arbitrary: s)
  case (Cons f fs)
  from Cons.prems(4) obtain s1 where e: "execute_fill S B t f s = (Ok (), s1)"
    and r: "ExecuteOrderFills S B t fs s1 = (Ok (), s')"
    by (auto split: prod.splits res.splits)
  from execute_fill_ok [OF laws Cons.prems(1) _ e] Cons.prems(2)
  have ok1: "ord_ok S B s1"
    and keep: "\<forall>y \<in> set (Orders_GetList s). o_ID y \<noteq> o_ID (f_Order f) \<longrightarrow> y \<in> set (Orders_GetList s1)" by auto
  have "\<forall>g \<in> set fs. fill_ok s1 g"
  proof
    fix g assume g: "g \<in> set fs"
    with Cons.prems(3) have "o_ID (f_Order g) \<noteq> o_ID (f_Order f)" by (auto simp: image_iff)
    moreover have "fill_ok s g" using Cons.prems(2) g by simp
    ultimately show "fill_ok s1 g" using keep by (simp add: fill_ok_def)
  qed
  with Cons.IH [OF ok1] Cons.prems(3) r show ?case by simp
qed simp

text \<open>
  The states of the module: orders are posted by accounts other than the module account, revoked,
  expired and executed; between the blocks the ledger changes without taking from the module account.
\<close>

inductive ord_reach :: "sdk \<Rightarrow> bank \<Rightarrow> ord_state \<Rightarrow> bool" for S :: sdk and B :: bank where
  ord_start: "(\<And>d. 0 \<le> l (module_address B orders_module) d) \<Longrightarrow>
    ord_reach S B \<lparr>os_orders = [], os_lastID = None, os_bank = l\<rparr>"
| ord_post: "\<lbrakk>ord_reach S B s; a \<noteq> module_address B orders_module;
    PostOrder S B cs ms t a ac dir p q ttl s = (Ok x, s')\<rbrakk> \<Longrightarrow> ord_reach S B s'"
| ord_revoke: "\<lbrakk>ord_reach S B s; RevokeOrder S B i s = (Ok (), s')\<rbrakk> \<Longrightarrow> ord_reach S B s'"
| ord_end_block: "\<lbrakk>ord_reach S B s; Orders_EndBlocker S B t s = (Ok (), s')\<rbrakk> \<Longrightarrow> ord_reach S B s'"
| ord_fills: "\<lbrakk>ord_reach S B s; \<forall>f \<in> set fs. fill_ok s f; distinct (map (\<lambda>f. o_ID (f_Order f)) fs);
    ExecuteOrderFills S B t fs s = (Ok (), s')\<rbrakk> \<Longrightarrow> ord_reach S B s'"
| ord_ledger: "\<lbrakk>ord_reach S B s; \<And>d. os_bank s (module_address B orders_module) d \<le> l (module_address B orders_module) d\<rbrakk> \<Longrightarrow>
    ord_reach S B (s\<lparr>os_bank := l\<rparr>)"

lemma ord_reach_ok:
  assumes r: "ord_reach S B s" and laws: "sdk_laws S" "bank_laws B"
  shows "ord_ok S B s"
  using r
proof (induction rule: ord_reach.induct)
  case (ord_start l)
  then show ?case
    by (simp add: ord_ok_def ord_inv_def ids_bounded_def ord_ids_def Orders_GetList_def kv_vals_def solvent_def lock_total_def)
next
  case (ord_post s a cs ms t ac dir p q ttl x s')
  then show ?case using PostOrder_ok(1) [OF laws] by blast
next
  case (ord_revoke s i s')
  then show ?case using RevokeOrder_ok(1) [OF laws] by blast
next
  case (ord_end_block s t s')
  then show ?case using end_block_ok [OF laws] unfolding Orders_EndBlocker_def by blast
next
  case (ord_fills s fs t s')
  then show ?case using ExecuteOrderFills_ok [OF laws] by blast
next
  case (ord_ledger s l)
  then have "solvent S B (s\<lparr>os_bank := l\<rparr>)"
    by (auto simp: ord_ok_def solvent_def lock_total_def intro: order_trans)
  with ord_ledger.IH show ?case by (simp add: ord_ok_def ord_ids_def)
qed

end
