(* ===== verification/OB_Aggregates.thy ===== *)
theory OB_Aggregates
  imports Orders "HOL-Library.Product_Lexorder"
begin

text \<open>
  Module \<open>x/orderbook\<close>, first part: sorting the orders of a market (\<open>order_sorter.go\<close>) and summing
  their quantities per price (\<open>order_aggs.go\<close>). The aggregates are shown to be the cumulative supply and
  demand of the orders, in strictly increasing price order.
\<close>

section \<open>Sorting\<close>

definition Less_PriceAscIDDesc :: "Order \<Rightarrow> Order \<Rightarrow> bool" where
  "Less_PriceAscIDDesc x y = (if o_Price x = o_Price y then o_ID x > o_ID y else o_Price x < o_Price y)"

definition Less_PriceAscIDAsc :: "Order \<Rightarrow> Order \<Rightarrow> bool" where
  "Less_PriceAscIDAsc x y = (if o_Price x = o_Price y then o_ID x < o_ID y else o_Price x < o_Price y)"

text \<open>
  \<open>sort.Sort\<close> with a comparison. The library algorithm is not stable; \<open>sort_unique\<close> below shows that
  for orders with distinct identifiers every sorted permutation is this one.
\<close>

fun insert_less :: "('a \<Rightarrow> 'a \<Rightarrow> bool) \<Rightarrow> 'a \<Rightarrow> 'a list \<Rightarrow> 'a list" where
  "insert_less ls x [] = [x]"
| "insert_less ls x (y # ys) = (if ls y x then y # insert_less ls x ys else x # y # ys)"

definition sort_Sort :: "('a \<Rightarrow> 'a \<Rightarrow> bool) \<Rightarrow> 'a list \<Rightarrow> 'a list" where
  "sort_Sort ls xs = foldr (insert_less ls) xs []"

definition bid_key :: "Order \<Rightarrow> nat \<times> int" where
  "bid_key x = (o_Price x, - int (o_ID x))"

definition ask_key :: "Order \<Rightarrow> nat \<times> int" where
  "ask_key x = (o_Price x, int (o_ID x))"

lemma Less_bid_key: "Less_PriceAscIDDesc x y \<longleftrightarrow> bid_key x < bid_key y"
  by (auto simp: Less_PriceAscIDDesc_def bid_key_def less_prod_def)

lemma Less_ask_key: "Less_PriceAscIDAsc x y \<longleftrightarrow> ask_key x < ask_key y"
  by (auto simp: Less_PriceAscIDAsc_def ask_key_def less_prod_def)

lemma sort_Sort_key: "sort_Sort (\<lambda>x y. f x < f y) xs = sort_key f xs"
proof -
  have "insert_less (\<lambda>x y. f x < f y) x ys = insort_key f x ys" for x ys
    by (induction ys) auto
  then have "insert_less (\<lambda>x y. f x < f y) = insort_key f" by (intro ext)
  then show ?thesis by (simp add: sort_Sort_def sort_key_def)
qed

lemma sort_bids: "sort_Sort Less_PriceAscIDDesc xs = sort_key bid_key xs"
  by (simp add: Less_bid_key [abs_def] sort_Sort_key)

lemma sort_asks: "sort_Sort Less_PriceAscIDAsc xs = sort_key ask_key xs"
  by (simp add: Less_ask_key [abs_def] sort_Sort_key)

lemma sorted_price:
  assumes "sorted (map f xs)" and "\<And>x y. f x \<le> f y \<Longrightarrow> o_Price x \<le> o_Price y"
  shows "sorted (map o_Price xs)"
  using assms(1) by (induction xs) (auto dest: assms(2))

lemma key_price:
  "bid_key x \<le> bid_key y \<Longrightarrow> o_Price x \<le> o_Price y" "ask_key x \<le> ask_key y \<Longrightarrow> o_Price x \<le> o_Price y"
  by (auto simp: bid_key_def ask_key_def less_eq_prod_def)

lemma sort_bids_sorted: "sorted (map o_Price (sort_Sort Less_PriceAscIDDesc xs))"
  unfolding sort_bids by (rule sorted_price [OF sorted_sort_key key_price(1)])

lemma sort_asks_sorted: "sorted (map o_Price (sort_Sort Less_PriceAscIDAsc xs))"
  unfolding sort_asks by (rule sorted_price [OF sorted_sort_key key_price(2)])

lemma mset_sort_orders [simp]:
  "mset (sort_Sort Less_PriceAscIDDesc xs) = mset xs" "mset (sort_Sort Less_PriceAscIDAsc xs) = mset xs"
  by (simp_all add: sort_bids sort_asks)

lemma set_sort_orders [simp]:
  "set (sort_Sort Less_PriceAscIDDesc xs) = set xs" "set (sort_Sort Less_PriceAscIDAsc xs) = set xs"
  by (simp_all add: sort_bids sort_asks)

lemma inj_key: "distinct (map o_ID xs) \<Longrightarrow> inj_on bid_key (set xs)" "distinct (map o_ID xs) \<Longrightarrow> inj_on ask_key (set xs)"
  by (auto simp: inj_on_def distinct_map bid_key_def ask_key_def)

lemma sorted_not_less: "sorted_wrt (\<lambda>x y. \<not> f y < (f x :: 'k :: linorder)) ys \<longleftrightarrow> sorted (map f ys)"
  by (simp add: sorted_wrt_map not_less)

text \<open>Any sorted permutation of orders with distinct identifiers is the sorted list.\<close>

lemma sort_unique_bid:
  "\<lbrakk>distinct (map o_ID xs); mset ys = mset xs; sorted_wrt (\<lambda>x y. \<not> Less_PriceAscIDDesc y x) ys\<rbrakk> \<Longrightarrow>
   ys = sort_Sort Less_PriceAscIDDesc xs"
  unfolding sort_bids Less_bid_key sorted_not_less
  by (rule sort_key_inj_key_eq [symmetric]) (auto intro: inj_key)

lemma sort_unique_ask:
  "\<lbrakk>distinct (map o_ID xs); mset ys = mset xs; sorted_wrt (\<lambda>x y. \<not> Less_PriceAscIDAsc y x) ys\<rbrakk> \<Longrightarrow>
   ys = sort_Sort Less_PriceAscIDAsc xs"
  unfolding sort_asks Less_ask_key sorted_not_less
  by (rule sort_key_inj_key_eq [symmetric]) (auto intro: inj_key)

section \<open>Aggregates\<close>

record OrderAggregate =
  agg_Price :: nat
  agg_Quantity :: nat

text \<open>The loop over the bids from the highest price down; the first aggregate is the current one.\<close>

fun bid_aggs_loop :: "sdk \<Rightarrow> Order list \<Rightarrow> OrderAggregate list \<Rightarrow> OrderAggregate list option" where
  "bid_aggs_loop S [] aggs = Some aggs"
| "bid_aggs_loop S (x # xs) [] = None"
| "bid_aggs_loop S (x # xs) (a # as) =
     Option.bind (uint_add S (agg_Quantity a) (o_Quantity x)) (\<lambda>q.
       if agg_Price a = o_Price x then bid_aggs_loop S xs (a\<lparr>agg_Quantity := q\<rparr> # as)
       else bid_aggs_loop S xs (\<lparr>agg_Price = o_Price x, agg_Quantity = q\<rparr> # a # as))"

definition NewBidOrderAggregates :: "sdk \<Rightarrow> Order list \<Rightarrow> OrderAggregate list option" where
  "NewBidOrderAggregates S xs =
     (case rev xs of
        [] \<Rightarrow> Some []
      | x # ys \<Rightarrow> bid_aggs_loop S ys [\<lparr>agg_Price = o_Price x, agg_Quantity = o_Quantity x\<rparr>])"

text \<open>The loop over the asks from the lowest price up; the last aggregate is the current one.\<close>

fun ask_aggs_loop :: "sdk \<Rightarrow> Order list \<Rightarrow> OrderAggregate list \<Rightarrow> OrderAggregate list option" where
  "ask_aggs_loop S [] aggs = Some aggs"
| "ask_aggs_loop S (x # xs) aggs =
     (if aggs = [] then None
      else let a = List.last aggs in
        Option.bind (uint_add S (agg_Quantity a) (o_Quantity x)) (\<lambda>q.
          if agg_Price a = o_Price x then ask_aggs_loop S xs (butlast aggs @ [a\<lparr>agg_Quantity := q\<rparr>])
          else ask_aggs_loop S xs (aggs @ [\<lparr>agg_Price = o_Price x, agg_Quantity = q\<rparr>])))"

definition NewAskOrderAggregates :: "sdk \<Rightarrow> Order list \<Rightarrow> OrderAggregate list option" where
  "NewAskOrderAggregates S xs =
     (case xs of
        [] \<Rightarrow> Some []
      | x # ys \<Rightarrow> ask_aggs_loop S ys [\<lparr>agg_Price = o_Price x, agg_Quantity = o_Quantity x\<rparr>])"

section \<open>Cumulative supply and demand\<close>

definition supply_at :: "Order list \<Rightarrow> nat \<Rightarrow> nat" where
  "supply_at xs p = sum_list (map o_Quantity (filter (\<lambda>x. o_Price x \<le> p) xs))"

definition demand_at :: "Order list \<Rightarrow> nat \<Rightarrow> nat" where
  "demand_at xs p = sum_list (map o_Quantity (filter (\<lambda>x. p \<le> o_Price x) xs))"

definition total_quantity :: "Order list \<Rightarrow> nat" where
  "total_quantity xs = sum_list (map o_Quantity xs)"

definition agg_of :: "(nat \<Rightarrow> nat) \<Rightarrow> nat \<Rightarrow> OrderAggregate" where
  "agg_of f p = \<lparr>agg_Price = p, agg_Quantity = f p\<rparr>"

text \<open>The distinct prices of a price-sorted list of orders.\<close>

definition prices :: "Order list \<Rightarrow> nat list" where
  "prices xs = sorted_list_of_set (o_Price ` set xs)"

lemma prices_strict: "sorted_wrt (<) (prices xs)"
  by (simp add: prices_def)

lemma set_prices [simp]: "set (prices xs) = o_Price ` set xs"
  by (simp add: prices_def)

lemma filter_sum_le: "sum_list (map o_Quantity (filter P xs)) \<le> total_quantity xs"
  unfolding total_quantity_def by (induction xs) auto

lemma supply_le_total: "supply_at xs p \<le> total_quantity xs"
  and demand_le_total: "demand_at xs p \<le> total_quantity xs"
  by (simp_all add: supply_at_def demand_at_def filter_sum_le)

lemma supply_mset: "mset xs = mset ys \<Longrightarrow> supply_at xs p = supply_at ys p"
  by (simp add: supply_at_def flip: sum_mset_sum_list)

lemma demand_mset: "mset xs = mset ys \<Longrightarrow> demand_at xs p = demand_at ys p"
  by (simp add: demand_at_def flip: sum_mset_sum_list)

lemma total_mset: "mset xs = mset ys \<Longrightarrow> total_quantity xs = total_quantity ys"
  by (simp add: total_quantity_def flip: sum_mset_sum_list)

lemma supply_snoc_ge: "\<forall>y \<in> set xs. o_Price y \<le> o_Price x \<Longrightarrow> supply_at (xs @ [x]) (o_Price x) = total_quantity xs + o_Quantity x"
  by (simp add: supply_at_def total_quantity_def filter_id_conv)

lemma demand_Cons_le: "\<forall>y \<in> set xs. o_Price x \<le> o_Price y \<Longrightarrow> demand_at (x # xs) (o_Price x) = o_Quantity x + total_quantity xs"
  by (simp add: demand_at_def total_quantity_def filter_id_conv)

lemma sorted_list_snoc_max:
  assumes "finite A" and "\<forall>y \<in> A. y < x"
  shows "sorted_list_of_set (insert x A) = sorted_list_of_set A @ [x]"
proof -
  have "sorted_wrt (<) (sorted_list_of_set A @ [x])" using assms by (simp add: sorted_wrt_append)
  moreover have "set (sorted_list_of_set A @ [x]) = insert x A" using assms by auto
  ultimately show ?thesis
    by (metis strict_sorted_equal assms(1) finite_insert set_sorted_list_of_set strict_sorted_list_of_set)
qed

lemma sorted_list_Cons_min:
  assumes "finite A" and "\<forall>y \<in> A. x < y"
  shows "sorted_list_of_set (insert x A) = x # sorted_list_of_set A"
proof -
  have "sorted_wrt (<) (x # sorted_list_of_set A)" using assms by simp
  moreover have "set (x # sorted_list_of_set A) = insert x A" using assms by auto
  ultimately show ?thesis
    by (metis strict_sorted_equal assms(1) finite_insert set_sorted_list_of_set strict_sorted_list_of_set)
qed

subsection \<open>Ask aggregates\<close>

lemma ask_aggs_loop_spec:
  assumes laws: "uint_laws S"
  shows "\<lbrakk>sorted (map o_Price (ys @ xs)); ys \<noteq> []; total_quantity (ys @ xs) < 2 ^ 256;
     aggs = map (agg_of (supply_at ys)) (prices ys)\<rbrakk> \<Longrightarrow>
   ask_aggs_loop S xs aggs = Some (map (agg_of (supply_at (ys @ xs))) (prices (ys @ xs)))"
proof (induction xs arbitrary: ys aggs)
  case (Cons x xs)
  have le: "\<forall>y \<in> set ys. o_Price y \<le> o_Price x" using Cons.prems(1) by (auto simp: sorted_append)
  have sy: "sorted (map o_Price ys)" using Cons.prems(1) by (simp add: sorted_append)
  obtain zs z where ys: "ys = zs @ [z]" using Cons.prems(2) by (metis append_butlast_last_id)
  have zmax: "\<forall>y \<in> set ys. o_Price y \<le> o_Price z" using sy ys by (auto simp: sorted_append)
  have zin: "o_Price z \<in> o_Price ` set ys" using ys by simp
  define A where "A = o_Price ` set ys - {o_Price z}"
  have ins: "o_Price ` set ys = insert (o_Price z) A" using zin by (auto simp: A_def)
  have fin: "finite A" by (simp add: A_def)
  have lt: "\<forall>p \<in> A. p < o_Price z" using zmax by (auto simp: A_def less_le)
  have pz: "prices ys = sorted_list_of_set A @ [o_Price z]"
    unfolding prices_def ins by (rule sorted_list_snoc_max [OF fin lt])
  have sup: "supply_at ys (o_Price z) = total_quantity ys"
    unfolding supply_at_def total_quantity_def using zmax by (simp add: filter_id_conv)
  have lastq: "List.last aggs = \<lparr>agg_Price = o_Price z, agg_Quantity = total_quantity ys\<rparr>"
    using Cons.prems(4) pz sup by (simp add: agg_of_def)
  have ne: "aggs \<noteq> []" using Cons.prems(4) pz by simp
  have tot: "total_quantity ys + o_Quantity x < 2 ^ 256" and tot': "total_quantity (ys @ [x]) = total_quantity ys + o_Quantity x"
    using Cons.prems(3) by (simp_all add: total_quantity_def)
  have add: "uint_add S (total_quantity ys) (o_Quantity x) = Some (total_quantity ys + o_Quantity x)"
    by (rule uint_add_Some [OF laws tot])
  have supx: "supply_at (ys @ [x]) (o_Price x) = total_quantity ys + o_Quantity x"
    by (rule supply_snoc_ge [OF le])
  have same: "supply_at (ys @ [x]) p = supply_at ys p" if "p < o_Price x" for p
    using that by (simp add: supply_at_def)
  have next': "ask_aggs_loop S (x # xs) aggs = ask_aggs_loop S xs (map (agg_of (supply_at (ys @ [x]))) (prices (ys @ [x])))"
  proof (cases "o_Price z = o_Price x")
    case True
    then have "o_Price ` set (ys @ [x]) = o_Price ` set ys" using zin by auto
    then have pr: "prices (ys @ [x]) = sorted_list_of_set A @ [o_Price x]"
      using pz True by (simp add: prices_def)
    have "butlast aggs = map (agg_of (supply_at ys)) (sorted_list_of_set A)"
      using Cons.prems(4) pz by simp
    also have "\<dots> = map (agg_of (supply_at (ys @ [x]))) (sorted_list_of_set A)"
      using lt True same fin by (auto simp: agg_of_def)
    finally show ?thesis
      using True ne by (simp add: lastq add pr supx agg_of_def)
  next
    case False
    then have zx: "o_Price z < o_Price x" using le ys by (simp add: less_le)
    then have "\<forall>p \<in> o_Price ` set ys. p < o_Price x" using zmax by fastforce
    then have pr: "prices (ys @ [x]) = prices ys @ [o_Price x]" and lt': "\<forall>p \<in> set (prices ys). p < o_Price x"
      using sorted_list_snoc_max [of "o_Price ` set ys" "o_Price x"] by (simp_all add: prices_def)
    have eq: "map (agg_of (supply_at (ys @ [x]))) (prices ys) = aggs"
      using Cons.prems(4) lt' same by (simp add: agg_of_def)
    show ?thesis
      using False ne by (simp add: lastq add pr eq Let_def) (simp add: agg_of_def supx)
  qed
  show ?case
    unfolding next' using Cons.IH [of "ys @ [x]"] Cons.prems(1,3) by simp
qed simp

lemma NewAskOrderAggregates_spec:
  assumes "uint_laws S" and "sorted (map o_Price xs)" and "total_quantity xs < 2 ^ 256"
  shows "NewAskOrderAggregates S xs = Some (map (agg_of (supply_at xs)) (prices xs))"
proof (cases xs)
  case Nil
  then show ?thesis by (simp add: NewAskOrderAggregates_def prices_def)
next
  case (Cons x ys)
  with ask_aggs_loop_spec [OF assms(1), of "[x]" ys] assms(2,3) show ?thesis
    by (simp add: NewAskOrderAggregates_def prices_def agg_of_def supply_at_def)
qed

subsection \<open>Bid aggregates\<close>

lemma bid_aggs_loop_spec:
  assumes laws: "uint_laws S"
  shows "\<lbrakk>sorted (map o_Price (rev xs @ ys)); ys \<noteq> []; total_quantity (xs @ ys) < 2 ^ 256;
     aggs = map (agg_of (demand_at ys)) (prices ys)\<rbrakk> \<Longrightarrow>
   bid_aggs_loop S xs aggs = Some (map (agg_of (demand_at (rev xs @ ys))) (prices (rev xs @ ys)))"
proof (induction xs arbitrary: ys aggs)
  case (Cons x xs)
  have le: "\<forall>y \<in> set ys. o_Price x \<le> o_Price y" using Cons.prems(1) by (auto simp: sorted_append)
  have sy: "sorted (map o_Price ys)" using Cons.prems(1) by (simp add: sorted_append)
  obtain z zs where ys: "ys = z # zs" using Cons.prems(2) by (cases ys) auto
  have zmin: "\<forall>y \<in> set ys. o_Price z \<le> o_Price y" using sy ys by auto
  have zin: "o_Price z \<in> o_Price ` set ys" using ys by simp
  define A where "A = o_Price ` set ys - {o_Price z}"
  have ins: "o_Price ` set ys = insert (o_Price z) A" using zin by (auto simp: A_def)
  have fin: "finite A" by (simp add: A_def)
  have lt: "\<forall>p \<in> A. o_Price z < p" using zmin by (auto simp: A_def less_le)
  have pz: "prices ys = o_Price z # sorted_list_of_set A"
    unfolding prices_def ins by (rule sorted_list_Cons_min [OF fin lt])
  have dem: "demand_at ys (o_Price z) = total_quantity ys"
    unfolding demand_at_def total_quantity_def using zmin by (simp add: filter_id_conv)
  have aggs: "aggs = \<lparr>agg_Price = o_Price z, agg_Quantity = total_quantity ys\<rparr> # map (agg_of (demand_at ys)) (sorted_list_of_set A)"
    using Cons.prems(4) pz dem by (simp add: agg_of_def)
  have tot: "total_quantity ys + o_Quantity x < 2 ^ 256"
    using Cons.prems(3) by (simp add: total_quantity_def)
  have add: "uint_add S (total_quantity ys) (o_Quantity x) = Some (total_quantity ys + o_Quantity x)"
    by (rule uint_add_Some [OF laws tot])
  have demx: "demand_at (x # ys) (o_Price x) = o_Quantity x + total_quantity ys"
    by (rule demand_Cons_le [OF le])
  have same: "demand_at (x # ys) p = demand_at ys p" if "o_Price x < p" for p
    using that by (simp add: demand_at_def)
  have next': "bid_aggs_loop S (x # xs) aggs = bid_aggs_loop S xs (map (agg_of (demand_at (x # ys))) (prices (x # ys)))"
  proof (cases "o_Price z = o_Price x")
    case True
    then have "o_Price ` set (x # ys) = o_Price ` set ys" using zin by auto
    then have pr: "prices (x # ys) = o_Price x # sorted_list_of_set A"
      using pz True by (simp add: prices_def)
    have eq: "map (agg_of (demand_at (x # ys))) (sorted_list_of_set A) = map (agg_of (demand_at ys)) (sorted_list_of_set A)"
      using lt True same fin by (auto simp: agg_of_def)
    show ?thesis
      using True by (simp add: aggs add pr eq) (simp add: demx agg_of_def add.commute)
  next
    case False
    then have zx: "o_Price x < o_Price z" using le ys by (simp add: less_le)
    then have "\<forall>p \<in> o_Price ` set ys. o_Price x < p" using zmin by fastforce
    then have pr: "prices (x # ys) = o_Price x # prices ys" and lt': "\<forall>p \<in> set (prices ys). o_Price x < p"
      using sorted_list_Cons_min [of "o_Price ` set ys" "o_Price x"] by (simp_all add: prices_def)
    have eq: "map (agg_of (demand_at (x # ys))) (prices ys) = aggs"
      using Cons.prems(4) lt' same by (simp add: agg_of_def)
    show ?thesis
      using False by (simp add: pr eq) (simp add: aggs add demx agg_of_def add.commute)
  qed
  show ?case
    unfolding next' using Cons.IH [of "x # ys"] Cons.prems(1,3) by (simp add: total_quantity_def add.left_commute)
qed simp

lemma NewBidOrderAggregates_spec:
  assumes "uint_laws S" and "sorted (map o_Price xs)" and "total_quantity xs < 2 ^ 256"
  shows "NewBidOrderAggregates S xs = Some (map (agg_of (demand_at xs)) (prices xs))"
proof (cases "rev xs")
  case Nil
  then show ?thesis by (simp add: NewBidOrderAggregates_def prices_def)
next
  case (Cons x ys)
  then have xs: "xs = rev ys @ [x]" by simp
  have tq: "total_quantity (ys @ [x]) = total_quantity xs"
    by (rule total_mset) (simp add: xs)
  from bid_aggs_loop_spec [OF assms(1), of ys "[x]"] assms(2,3)
  have "bid_aggs_loop S ys [\<lparr>agg_Price = o_Price x, agg_Quantity = o_Quantity x\<rparr>] =
      Some (map (agg_of (demand_at xs)) (prices xs))"
    by (simp add: xs [symmetric] tq) (simp add: prices_def agg_of_def demand_at_def)
  with Cons show ?thesis by (simp add: NewBidOrderAggregates_def)
qed

end
