(* ===== verification/OB_Curves.thy ===== *)
theory OB_Curves
  imports OB_Aggregates
begin

text \<open>
  Module \<open>x/orderbook\<close>, second part: the supply-demand curves (\<open>pq_curves.go\<close>). The curves built from
  the aggregates are shown to be the cumulative supply and demand at every order price; the crossing point
  chosen on them always has a positive price, supply and demand, which are those of the orders at that price.
\<close>

section \<open>Definitions\<close>

record SDItem =
  sd_Price :: nat
  sd_Supply :: nat
  sd_Demand :: nat

datatype ob_error =
    ObErrInternal
  | ObErrEmptyOrders
  | ObErrNoCross
  | ObErrEmptyCurves
  | ObErrDirection
  | ObErrMaxOrders
  | ObErrWrongHistoryItem
  | ObErrGenesis string

definition SupplyDemandBalance :: "SDItem \<Rightarrow> int" where
  "SupplyDemandBalance i =
     (if sd_Supply i > sd_Demand i then 1 else if sd_Supply i = sd_Demand i then 0 else - 1)"

text \<open>\<open>sort.SliceIsSorted\<close>: no element is less than its predecessor.\<close>

fun slice_is_sorted :: "('a \<Rightarrow> 'a \<Rightarrow> bool) \<Rightarrow> 'a list \<Rightarrow> bool" where
  "slice_is_sorted ls [] = True"
| "slice_is_sorted ls [x] = True"
| "slice_is_sorted ls (x # y # ys) = (\<not> ls y x \<and> slice_is_sorted ls (y # ys))"

text \<open>\<open>sort.Search\<close>: binary search for the first index with the property.\<close>

function search_loop :: "(nat \<Rightarrow> bool) \<Rightarrow> nat \<Rightarrow> nat \<Rightarrow> nat" where
  "search_loop f i j =
     (if i < j then
        let h = (i + j) div 2 in
        if \<not> f h then search_loop f (h + 1) j else search_loop f i h
      else i)"
  by auto
termination by (relation "measure (\<lambda>(f, i, j). j - i)") auto

declare search_loop.simps [simp del]

definition sort_Search :: "nat \<Rightarrow> (nat \<Rightarrow> bool) \<Rightarrow> nat" where
  "sort_Search n f = search_loop f 0 n"

definition addAskOrders :: "OrderAggregate list \<Rightarrow> SDItem list \<Rightarrow> SDItem list" where
  "addAskOrders aggs c =
     c @ map (\<lambda>a. \<lparr>sd_Price = agg_Price a, sd_Supply = agg_Quantity a, sd_Demand = 0\<rparr>) aggs"

fun addBidOrders :: "OrderAggregate list \<Rightarrow> SDItem list \<Rightarrow> SDItem list" where
  "addBidOrders [] c = c"
| "addBidOrders (a # aggs) c =
     (let gtePriceIdx = sort_Search (length c) (\<lambda>i. agg_Price a \<le> sd_Price (c ! i)) in
      if gtePriceIdx \<noteq> length c \<and> sd_Price (c ! gtePriceIdx) = agg_Price a
      then addBidOrders aggs (c[gtePriceIdx := (c ! gtePriceIdx)\<lparr>sd_Demand := agg_Quantity a\<rparr>])
      else addBidOrders aggs
             (take gtePriceIdx c @ \<lparr>sd_Price = agg_Price a, sd_Supply = 0, sd_Demand = agg_Quantity a\<rparr> # drop gtePriceIdx c))"

text \<open>
  The loop that copies quantities into the inserted rows: \<open>i\<close> is the ask index, \<open>n - 1 - i\<close> the bid index,
  \<open>af\<close> and \<open>bf\<close> the rows the fill pointers point to.
\<close>

function fix_loop :: "nat \<Rightarrow> nat \<Rightarrow> nat \<Rightarrow> SDItem list \<Rightarrow> SDItem list" where
  "fix_loop i af bf c =
     (if i < length c then
        let c1 = (if sd_Supply (c ! i) = 0 then c[i := (c ! i)\<lparr>sd_Supply := sd_Supply (c ! af)\<rparr>] else c);
            af' = (if sd_Supply (c ! i) = 0 then af else i);
            j = length c - 1 - i;
            c2 = (if sd_Demand (c1 ! j) = 0 then c1[j := (c1 ! j)\<lparr>sd_Demand := sd_Demand (c1 ! bf)\<rparr>] else c1);
            bf' = (if sd_Demand (c1 ! j) = 0 then bf else j)
        in fix_loop (i + 1) af' bf' c2
      else c)"
  by auto
termination by (relation "measure (\<lambda>(i, af, bf, c). length c - i)") (auto simp: Let_def)

declare fix_loop.simps [simp del]

definition fixZeroSupplyDemand :: "SDItem list \<Rightarrow> SDItem list" where
  "fixZeroSupplyDemand c = fix_loop 1 0 (length c - 1) c"

definition NewSDCurves :: "OrderAggregate list \<Rightarrow> OrderAggregate list \<Rightarrow> (ob_error, SDItem list) res" where
  "NewSDCurves askAggs bidAggs =
     (if length askAggs = 0 \<or> length bidAggs = 0 then Err ObErrEmptyOrders
      else if \<not> slice_is_sorted (\<lambda>a b. agg_Price a < agg_Price b \<and> agg_Quantity a \<le> agg_Quantity b) askAggs then Err ObErrInternal
      else if \<not> slice_is_sorted (\<lambda>a b. agg_Price a < agg_Price b \<and> agg_Quantity b \<le> agg_Quantity a) bidAggs then Err ObErrInternal
      else if agg_Price (List.last bidAggs) < agg_Price (hd askAggs) then Err ObErrNoCross
      else Ok (fixZeroSupplyDemand (addBidOrders bidAggs (addAskOrders askAggs []))))"

section \<open>Binary search\<close>

lemma search_loop_spec:
  assumes "i \<le> j" and "\<And>k l. \<lbrakk>i \<le> k; k \<le> l; l < j; f k\<rbrakk> \<Longrightarrow> f l"
  shows "i \<le> search_loop f i j \<and> search_loop f i j \<le> j \<and>
    (\<forall>k. i \<le> k \<and> k < search_loop f i j \<longrightarrow> \<not> f k) \<and>
    (\<forall>k. search_loop f i j \<le> k \<and> k < j \<longrightarrow> f k)"
  using assms
proof (induction f i j rule: search_loop.induct)
  case (1 f i j)
  show ?case
  proof (cases "i < j")
    case True
    define h where "h = (i + j) div 2"
    have h: "i \<le> h" "h < j" using True by (simp_all add: h_def)
    show ?thesis
    proof (cases "f h")
      case fh: True
      have eq: "search_loop f i j = search_loop f i h"
        using True fh by (subst search_loop.simps) (simp add: h_def [symmetric] Let_def)
      have mono: "f l" if "i \<le> k" "k \<le> l" "l < h" "f k" for k l
        using 1(4) [of k l] that h by simp
      from 1(2) [OF True h_def] fh h mono
      have IH: "i \<le> search_loop f i h \<and> search_loop f i h \<le> h \<and>
        (\<forall>k. i \<le> k \<and> k < search_loop f i h \<longrightarrow> \<not> f k) \<and> (\<forall>k. search_loop f i h \<le> k \<and> k < h \<longrightarrow> f k)" by blast
      have "f k" if "h \<le> k" "k < j" for k using 1(4) [of h k] fh h that by simp
      then have "f k" if "search_loop f i h \<le> k" "k < j" for k
        using IH that by (cases "k < h") auto
      with IH h eq show ?thesis by auto
    next
      case nf: False
      have eq: "search_loop f i j = search_loop f (h + 1) j"
        using True nf by (subst search_loop.simps) (simp add: h_def [symmetric] Let_def)
      have mono: "f l" if "h + 1 \<le> k" "k \<le> l" "l < j" "f k" for k l
        using 1(4) [of k l] that h by simp
      from 1(1) [OF True h_def] nf h mono
      have IH: "h + 1 \<le> search_loop f (h + 1) j \<and> search_loop f (h + 1) j \<le> j \<and>
        (\<forall>k. h + 1 \<le> k \<and> k < search_loop f (h + 1) j \<longrightarrow> \<not> f k) \<and>
        (\<forall>k. search_loop f (h + 1) j \<le> k \<and> k < j \<longrightarrow> f k)" by fastforce
      have "\<not> f k" if "i \<le> k" "k \<le> h" for k using 1(4) [of k h] nf h that by auto
      then have "\<not> f k" if "i \<le> k" "k < search_loop f (h + 1) j" for k
        using IH that by (cases "k \<le> h") auto
      with IH h eq show ?thesis by auto
    qed
  next
    case False
    then have "search_loop f i j = i" by (subst search_loop.simps) simp
    with 1(3) False show ?thesis by auto
  qed
qed

lemma sort_Search_spec:
  assumes "\<And>k l. \<lbrakk>k \<le> l; l < n; f k\<rbrakk> \<Longrightarrow> f l"
  shows "sort_Search n f \<le> n" and "k < sort_Search n f \<Longrightarrow> \<not> f k" and "\<lbrakk>sort_Search n f \<le> k; k < n\<rbrakk> \<Longrightarrow> f k"
  using search_loop_spec [of 0 n f] assms by (auto simp: sort_Search_def)

section \<open>Merging the aggregates\<close>

definition sd_row :: "(nat \<Rightarrow> nat) \<Rightarrow> (nat \<Rightarrow> nat) \<Rightarrow> nat \<Rightarrow> SDItem" where
  "sd_row s d p = \<lparr>sd_Price = p, sd_Supply = s p, sd_Demand = d p\<rparr>"

lemma sd_row_Price [simp]: "sd_Price (sd_row s d p) = p"
  by (simp add: sd_row_def)

lemma strict_split:
  assumes "sorted_wrt (<) (ps :: nat list)" and "r \<le> length ps"
    and "\<And>k. k < r \<Longrightarrow> ps ! k < p" and "\<And>k. \<lbrakk>r \<le> k; k < length ps\<rbrakk> \<Longrightarrow> p < ps ! k"
  shows "take r ps @ p # drop r ps = sorted_list_of_set (insert p (set ps))"
proof -
  have "\<forall>x \<in> set (take r ps). x < p" using assms(2,3) by (auto simp: in_set_conv_nth)
  moreover have "\<forall>x \<in> set (drop r ps). p < x" using assms(4) by (auto simp: in_set_conv_nth)
  moreover have "sorted_wrt (<) (take r ps @ drop r ps)" using assms(1) by simp
  ultimately have "sorted_wrt (<) (take r ps @ p # drop r ps)"
    by (fastforce simp: sorted_wrt_append simp del: append_take_drop_id)
  moreover have "set (take r ps @ p # drop r ps) = insert p (set ps)"
    by (metis append_take_drop_id list.simps(15) set_append Un_insert_right)
  ultimately show ?thesis
    by (metis strict_sorted_equal finite_insert List.finite_set set_sorted_list_of_set strict_sorted_list_of_set)
qed

lemma add_bid_step:
  fixes s d :: "nat \<Rightarrow> nat"
  assumes "finite A" and c: "c = map (sd_row s d) (sorted_list_of_set A)" and s: "p \<notin> A \<longrightarrow> s p = 0"
    and r: "r = sort_Search (length c) (\<lambda>i. p \<le> sd_Price (c ! i))"
  shows "(if r \<noteq> length c \<and> sd_Price (c ! r) = p then c[r := (c ! r)\<lparr>sd_Demand := q\<rparr>]
      else take r c @ \<lparr>sd_Price = p, sd_Supply = 0, sd_Demand = q\<rparr> # drop r c) =
    map (sd_row s (d(p := q))) (sorted_list_of_set (insert p A))"
proof -
  let ?ps = "sorted_list_of_set A"
  have srt: "sorted_wrt (<) ?ps" by simp
  have len: "length c = length ?ps" by (simp add: c)
  have nth: "sd_Price (c ! k) = ?ps ! k" if "k < length ?ps" for k using that by (simp add: c)
  have mono: "p \<le> sd_Price (c ! l)" if "k \<le> l" "l < length c" "p \<le> sd_Price (c ! k)" for k l
    using that sorted_nth_mono [of ?ps k l] by (simp add: nth len)
  have sp: "r \<le> length c \<and> (\<forall>k < r. \<not> p \<le> sd_Price (c ! k)) \<and> (\<forall>k. r \<le> k \<and> k < length c \<longrightarrow> p \<le> sd_Price (c ! k))"
    unfolding r using sort_Search_spec [of "length c" "\<lambda>i. p \<le> sd_Price (c ! i)"] mono by blast
  have r_le: "r \<le> length ?ps" using sp len by simp
  have below: "?ps ! k < p" if "k < r" for k
    using sp that r_le nth [of k] by (metis less_le_trans not_le)
  have above: "p \<le> ?ps ! k" if "r \<le> k" "k < length ?ps" for k
    using sp that nth [of k] len by metis
  show ?thesis
  proof (cases "p \<in> A")
    case True
    then obtain k where k: "k < length ?ps" "?ps ! k = p" using assms(1) by (metis in_set_conv_nth set_sorted_list_of_set)
    have "k = r"
    proof (rule ccontr)
      assume "k \<noteq> r"
      then have "r < k" using below [of k] k by (cases "k < r") auto
      with sorted_wrt_nth_less [OF srt, of r k] k above [of r] show False by simp
    qed
    then have cond: "r \<noteq> length c \<and> sd_Price (c ! r) = p" using k by (simp add: len nth)
    have "c[r := (c ! r)\<lparr>sd_Demand := q\<rparr>] = map (sd_row s (d(p := q))) ?ps"
    proof (rule nth_equalityI)
      fix j assume "j < length (c[r := (c ! r)\<lparr>sd_Demand := q\<rparr>])"
      then have j: "j < length ?ps" by (simp add: len)
      show "c[r := (c ! r)\<lparr>sd_Demand := q\<rparr>] ! j = map (sd_row s (d(p := q))) ?ps ! j"
      proof (cases "j = r")
        case True
        with k \<open>k = r\<close> show ?thesis by (simp add: c sd_row_def)
      next
        case False
        then have "?ps ! j \<noteq> p" using k \<open>k = r\<close> j by (metis distinct_sorted_list_of_set nth_eq_iff_index_eq)
        with False j show ?thesis by (simp add: c sd_row_def)
      qed
    qed (simp add: len)
    with cond True show ?thesis by (simp add: insert_absorb)
  next
    case False
    have above': "p < ?ps ! k" if "r \<le> k" "k < length ?ps" for k
      using above [OF that] that False assms(1) by (metis nth_mem order_le_imp_less_or_eq set_sorted_list_of_set)
    have cond: "\<not> (r \<noteq> length c \<and> sd_Price (c ! r) = p)"
      using above' [of r] r_le by (auto simp: len nth)
    have split: "take r ?ps @ p # drop r ?ps = sorted_list_of_set (insert p A)"
      using strict_split [OF srt r_le below above'] assms(1) by simp
    have "map (sd_row s (d(p := q))) ?ps = map (sd_row s d) ?ps"
      using False assms(1) by (auto simp: sd_row_def)
    then have t: "take r c = map (sd_row s (d(p := q))) (take r ?ps)" "drop r c = map (sd_row s (d(p := q))) (drop r ?ps)"
      unfolding c by (metis take_map, metis drop_map)
    have "sd_row s (d(p := q)) p = \<lparr>sd_Price = p, sd_Supply = 0, sd_Demand = q\<rparr>"
      using s False by (simp add: sd_row_def)
    with cond split t show ?thesis by (metis list.simps(9) map_append)
  qed
qed

lemma addBidOrders_Cons:
  "r = sort_Search (length c) (\<lambda>i. agg_Price a \<le> sd_Price (c ! i)) \<Longrightarrow>
   addBidOrders (a # aggs) c = addBidOrders aggs
     (if r \<noteq> length c \<and> sd_Price (c ! r) = agg_Price a then c[r := (c ! r)\<lparr>sd_Demand := agg_Quantity a\<rparr>]
      else take r c @ \<lparr>sd_Price = agg_Price a, sd_Supply = 0, sd_Demand = agg_Quantity a\<rparr> # drop r c)"
  by (simp add: Let_def)

lemma addBidOrders_spec:
  "\<lbrakk>finite A; distinct ps; \<And>p. p \<notin> A \<Longrightarrow> s p = 0; \<And>p. p \<in> set ps \<Longrightarrow> d p = 0\<rbrakk> \<Longrightarrow>
   addBidOrders (map (agg_of f) ps) (map (sd_row s d) (sorted_list_of_set A)) =
     map (sd_row s (\<lambda>p. if p \<in> set ps then f p else d p)) (sorted_list_of_set (A \<union> set ps))"
proof (induction ps arbitrary: A d)
  case (Cons p ps)
  let ?c = "map (sd_row s d) (sorted_list_of_set A)"
  define r where "r = sort_Search (length ?c) (\<lambda>i. p \<le> sd_Price (?c ! i))"
  have "p \<notin> A \<longrightarrow> s p = 0" using Cons.prems(3) by blast
  note step = add_bid_step [OF Cons.prems(1) refl this r_def, of "f p"]
  have pr: "agg_Price (agg_of f p) = p" "agg_Quantity (agg_of f p) = f p" by (simp_all add: agg_of_def)
  have r': "r = sort_Search (length ?c) (\<lambda>i. agg_Price (agg_of f p) \<le> sd_Price (?c ! i))"
    by (simp only: r_def pr)
  have "addBidOrders (map (agg_of f) (p # ps)) ?c =
      addBidOrders (map (agg_of f) ps) (map (sd_row s (d(p := f p))) (sorted_list_of_set (insert p A)))"
    using arg_cong [OF step, of "addBidOrders (map (agg_of f) ps)"]
    by (simp only: list.map addBidOrders_Cons [OF r'] pr)
  also have "\<dots> = map (sd_row s (\<lambda>x. if x \<in> set ps then f x else (d(p := f p)) x)) (sorted_list_of_set (insert p A \<union> set ps))"
    using Cons.prems by (intro Cons.IH) auto
  also have "(\<lambda>x. if x \<in> set ps then f x else (d(p := f p)) x) = (\<lambda>x. if x \<in> set (p # ps) then f x else d x)"
    using Cons.prems(2) by auto
  finally show ?case by simp
qed simp

section \<open>Filling the inserted rows\<close>

text \<open>The curve with rows given by price, supply and demand functions of the row index.\<close>

definition rows :: "nat \<Rightarrow> (nat \<Rightarrow> nat) \<Rightarrow> (nat \<Rightarrow> nat) \<Rightarrow> (nat \<Rightarrow> nat) \<Rightarrow> SDItem list" where
  "rows n P s d = map (\<lambda>k. \<lparr>sd_Price = P k, sd_Supply = s k, sd_Demand = d k\<rparr>) [0..<n]"

lemma length_rows [simp]: "length (rows n P s d) = n"
  by (simp add: rows_def)

lemma nth_rows [simp]: "k < n \<Longrightarrow> rows n P s d ! k = \<lparr>sd_Price = P k, sd_Supply = s k, sd_Demand = d k\<rparr>"
  by (simp add: rows_def)

lemma rows_cong: "(\<And>k. k < n \<Longrightarrow> s k = s' k \<and> d k = d' k) \<Longrightarrow> rows n P s d = rows n P s' d'"
  by (simp add: rows_def)

lemma rows_update_supply:
  "i < n \<Longrightarrow> (rows n P s d)[i := \<lparr>sd_Price = P i, sd_Supply = v, sd_Demand = d i\<rparr>] = rows n P (s(i := v)) d"
  by (rule nth_equalityI) (auto simp: nth_list_update)

lemma rows_update_demand:
  "i < n \<Longrightarrow> (rows n P s d)[i := \<lparr>sd_Price = P i, sd_Supply = s i, sd_Demand = v\<rparr>] = rows n P s (d(i := v))"
  by (rule nth_equalityI) (auto simp: nth_list_update)

text \<open>One round, on a curve given by functions.\<close>

lemma fix_loop_rows:
  assumes "i < n" and "af < n" and "bf < n"
  shows "fix_loop i af bf (rows n P s d) =
    (let j = n - 1 - i in
     fix_loop (i + 1) (if s i = 0 then af else i) (if d j = 0 then bf else j)
       (rows n P (if s i = 0 then s(i := s af) else s) (if d j = 0 then d(j := d bf) else d)))"
proof -
  have j: "n - 1 - i < n" using assms by simp
  show ?thesis
    using assms j
    by (cases "s i = 0"; cases "d (n - 1 - i) = 0")
      (subst fix_loop.simps, simp add: Let_def rows_update_supply rows_update_demand del: fun_upd_apply)+
qed

lemma fix_loop_spec:
  assumes FS: "\<And>k. Suc k < n \<Longrightarrow> FS (Suc k) = (if s (Suc k) = 0 then FS k else s (Suc k))"
    and FD: "\<And>k. Suc k < n \<Longrightarrow> FD k = (if d k = 0 then FD (Suc k) else d k)"
  shows "\<lbrakk>1 \<le> i; i \<le> n; af < i; n - i \<le> bf; bf < n; FS af = FS (i - 1); FD bf = FD (n - i)\<rbrakk> \<Longrightarrow>
    fix_loop i af bf (rows n P (\<lambda>k. if k < i then FS k else s k) (\<lambda>k. if n - i \<le> k then FD k else d k)) =
    rows n P FS FD"
proof (induction "n - i" arbitrary: i af bf)
  case 0
  then have "i = n" by simp
  then have "fix_loop i af bf (rows n P (\<lambda>k. if k < i then FS k else s k) (\<lambda>k. if n - i \<le> k then FD k else d k)) =
      rows n P (\<lambda>k. if k < i then FS k else s k) (\<lambda>k. if n - i \<le> k then FD k else d k)"
    by (subst fix_loop.simps) simp
  also have "\<dots> = rows n P FS FD" using \<open>i = n\<close> by (intro rows_cong) simp
  finally show ?case .
next
  case (Suc m)
  have i: "i < n" using Suc.hyps(2) by simp
  then obtain j where j: "n - i = Suc j" "n - 1 - i = j" "n - Suc i = j" "Suc j < n"
    using Suc.prems(1) by (intro that [of "n - Suc i"]) simp_all
  let ?s = "\<lambda>k. if k < i then FS k else s k" and ?d = "\<lambda>k. if Suc j \<le> k then FD k else d k"
  have s': "(if s i = 0 then ?s(i := ?s af) else ?s) = (\<lambda>k. if k < Suc i then FS k else s k)"
    using FS [of "i - 1"] Suc.prems(1,3,6) i by (intro ext) (simp add: less_Suc_eq)
  have d': "(if d j = 0 then ?d(j := ?d bf) else ?d) = (\<lambda>k. if j \<le> k then FD k else d k)"
  proof (rule ext)
    fix k
    consider "k = j" | "Suc j \<le> k" | "k < j" by linarith
    then show "(if d j = 0 then ?d(j := ?d bf) else ?d) k = (if j \<le> k then FD k else d k)"
      using FD [of j] Suc.prems(4,7) j by cases simp_all
  qed
  have si: "?s i = s i" and di: "?d j = d j" by auto
  have "fix_loop i af bf (rows n P ?s ?d) =
      fix_loop (Suc i) (if s i = 0 then af else i) (if d j = 0 then bf else j)
        (rows n P (\<lambda>k. if k < Suc i then FS k else s k) (\<lambda>k. if j \<le> k then FD k else d k))"
  proof -
    have b: "i < n" "af < n" "bf < n" using i Suc.prems(3,5) by simp_all
    show ?thesis unfolding fix_loop_rows [OF b] Let_def j si di s' d' Suc_eq_plus1 [symmetric] ..
  qed
  also have "\<dots> = rows n P FS FD"
  proof -
    have "FS (if s i = 0 then af else i) = FS i" using FS [of "i - 1"] Suc.prems(1,6) i by simp
    moreover have "FD (if d j = 0 then bf else j) = FD j" using FD [of j] Suc.prems(7) j by simp
    moreover have "m = n - Suc i" using Suc.hyps(2) by simp
    ultimately show ?thesis
      using Suc.hyps(1) [of "Suc i" "if s i = 0 then af else i" "if d j = 0 then bf else j"]
        Suc.prems(3,4,5) i j by (simp split: if_split_asm)
  qed
  finally show ?case by (simp only: j)
qed

section \<open>The curves are the cumulative supply and demand\<close>

lemma supply_gap: "\<lbrakk>p \<le> p'; \<forall>x \<in> set xs. \<not> (p < o_Price x \<and> o_Price x \<le> p')\<rbrakk> \<Longrightarrow> supply_at xs p' = supply_at xs p"
  unfolding supply_at_def by (intro arg_cong [where f = sum_list] arg_cong [where f = "map o_Quantity"] filter_cong) auto

lemma demand_gap: "\<lbrakk>p \<le> p'; \<forall>x \<in> set xs. \<not> (p \<le> o_Price x \<and> o_Price x < p')\<rbrakk> \<Longrightarrow> demand_at xs p = demand_at xs p'"
  unfolding demand_at_def by (intro arg_cong [where f = sum_list] arg_cong [where f = "map o_Quantity"] filter_cong) auto

lemma supply_pos_iff: "\<forall>x \<in> set xs. 0 < o_Quantity x \<Longrightarrow> 0 < supply_at xs p \<longleftrightarrow> (\<exists>x \<in> set xs. o_Price x \<le> p)"
  by (induction xs) (auto simp: supply_at_def)

lemma demand_pos_iff: "\<forall>x \<in> set xs. 0 < o_Quantity x \<Longrightarrow> 0 < demand_at xs p \<longleftrightarrow> (\<exists>x \<in> set xs. p \<le> o_Price x)"
  by (induction xs) (auto simp: demand_at_def)

lemma supply_mono: "p \<le> p' \<Longrightarrow> supply_at xs p \<le> supply_at xs p'"
  by (induction xs) (auto simp: supply_at_def)

lemma demand_antimono: "p \<le> p' \<Longrightarrow> demand_at xs p' \<le> demand_at xs p"
  by (induction xs) (auto simp: demand_at_def)

text \<open>The prices of the curve.\<close>

definition curve_prices :: "Order list \<Rightarrow> Order list \<Rightarrow> nat list" where
  "curve_prices asks bids = sorted_list_of_set (o_Price ` set asks \<union> o_Price ` set bids)"

definition curve :: "Order list \<Rightarrow> Order list \<Rightarrow> SDItem list" where
  "curve asks bids = map (sd_row (supply_at asks) (demand_at bids)) (curve_prices asks bids)"

lemma set_curve_prices [simp]: "set (curve_prices asks bids) = o_Price ` set asks \<union> o_Price ` set bids"
  by (simp add: curve_prices_def)

lemma curve_prices_strict: "sorted_wrt (<) (curve_prices asks bids)"
  by (simp add: curve_prices_def)

lemma curve_prices_gap:
  assumes "Suc k < length (curve_prices asks bids)" and "p \<in> o_Price ` set asks \<union> o_Price ` set bids"
  shows "p \<le> curve_prices asks bids ! k \<or> curve_prices asks bids ! Suc k \<le> p"
proof -
  from assms(2) obtain l where l: "l < length (curve_prices asks bids)" "p = curve_prices asks bids ! l"
    by (metis set_curve_prices in_set_conv_nth)
  have srt: "sorted (curve_prices asks bids)" by (simp add: curve_prices_def)
  show ?thesis
    using l assms(1) sorted_nth_mono [OF srt, of l k] sorted_nth_mono [OF srt, of "Suc k" l]
    by (cases "l \<le> k") auto
qed

lemma curve_step:
  assumes "Suc k < length (curve_prices asks bids)"
  defines "p \<equiv> curve_prices asks bids ! k" and "p' \<equiv> curve_prices asks bids ! Suc k"
  shows "p < p'" and "p' \<notin> o_Price ` set asks \<Longrightarrow> supply_at asks p' = supply_at asks p"
    and "p \<notin> o_Price ` set bids \<Longrightarrow> demand_at bids p = demand_at bids p'"
proof -
  show lt: "p < p'"
    unfolding p_def p'_def by (rule sorted_wrt_nth_less [OF curve_prices_strict]) (use assms(1) in simp_all)
  show "supply_at asks p' = supply_at asks p" if "p' \<notin> o_Price ` set asks"
  proof (rule supply_gap)
    show "\<forall>x \<in> set asks. \<not> (p < o_Price x \<and> o_Price x \<le> p')"
      using that curve_prices_gap [OF assms(1)] unfolding p_def p'_def by (metis UnI1 image_eqI le_antisym not_le)
  qed (use lt in simp)
  show "demand_at bids p = demand_at bids p'" if "p \<notin> o_Price ` set bids"
  proof (rule demand_gap)
    show "\<forall>x \<in> set bids. \<not> (p \<le> o_Price x \<and> o_Price x < p')"
      using that curve_prices_gap [OF assms(1)] unfolding p_def p'_def by (metis UnI2 image_eqI le_antisym not_le)
  qed (use lt in simp)
qed

lemma curve_price_least: "x \<in> set (curve_prices asks bids) \<Longrightarrow> curve_prices asks bids ! 0 \<le> x"
  unfolding curve_prices_def by (metis in_set_conv_nth le0 sorted_list_of_set.sorted_sorted_key_list_of_set sorted_nth_mono)

lemma curve_price_greatest:
  assumes "x \<in> set (curve_prices asks bids)"
  shows "x \<le> curve_prices asks bids ! (length (curve_prices asks bids) - 1)"
proof -
  from assms obtain l where l: "l < length (curve_prices asks bids)" "x = curve_prices asks bids ! l"
    by (metis in_set_conv_nth)
  have srt: "sorted (curve_prices asks bids)" by (simp add: curve_prices_def)
  show ?thesis unfolding l(2) by (rule sorted_nth_mono [OF srt]) (use l(1) in simp_all)
qed

lemma fixZero_curve:
  assumes pa: "\<forall>x \<in> set asks. 0 < o_Quantity x" and pb: "\<forall>x \<in> set bids. 0 < o_Quantity x"
    and ne: "curve_prices asks bids \<noteq> []"
  shows "fixZeroSupplyDemand
      (map (sd_row (\<lambda>p. if p \<in> o_Price ` set asks then supply_at asks p else 0)
                   (\<lambda>p. if p \<in> o_Price ` set bids then demand_at bids p else 0)) (curve_prices asks bids)) =
    curve asks bids"
proof -
  define ps where "ps = curve_prices asks bids"
  define n where "n = length ps"
  let ?S = "\<lambda>p. if p \<in> o_Price ` set asks then supply_at asks p else 0"
  let ?D = "\<lambda>p. if p \<in> o_Price ` set bids then demand_at bids p else 0"
  let ?FS = "\<lambda>k. supply_at asks (ps ! k)" and ?FD = "\<lambda>k. demand_at bids (ps ! k)"
  have n: "0 < n" using ne by (simp add: n_def ps_def)
  have rows: "map (sd_row f g) ps = rows n (nth ps) (\<lambda>k. f (ps ! k)) (\<lambda>k. g (ps ! k))" for f g
    by (rule nth_equalityI) (simp_all add: n_def sd_row_def)
  have S0: "?S p = 0 \<longleftrightarrow> p \<notin> o_Price ` set asks" for p using supply_pos_iff [OF pa, of p] by force
  have D0: "?D p = 0 \<longleftrightarrow> p \<notin> o_Price ` set bids" for p using demand_pos_iff [OF pb, of p] by force
  have FS: "?FS (Suc k) = (if ?S (ps ! Suc k) = 0 then ?FS k else ?S (ps ! Suc k))" if "Suc k < n" for k
    unfolding S0 using curve_step(2) [of k asks bids] that by (simp add: n_def ps_def)
  have FD: "?FD k = (if ?D (ps ! k) = 0 then ?FD (Suc k) else ?D (ps ! k))" if "Suc k < n" for k
    unfolding D0 using curve_step(3) [of k asks bids] that by (simp add: n_def ps_def)
  have first: "?S (ps ! 0) = ?FS 0"
  proof (cases "ps ! 0 \<in> o_Price ` set asks")
    case False
    have "\<not> o_Price x \<le> ps ! 0" if "x \<in> set asks" for x
      using that False curve_price_least [of "o_Price x" asks bids] unfolding ps_def
      by (metis UnI1 image_eqI le_antisym set_curve_prices)
    then have "?FS 0 = 0" using supply_pos_iff [OF pa, of "ps ! 0"] by auto
    with False show ?thesis by simp
  qed simp
  have last: "?D (ps ! (n - 1)) = ?FD (n - 1)"
  proof (cases "ps ! (n - 1) \<in> o_Price ` set bids")
    case False
    have "\<not> ps ! (n - 1) \<le> o_Price x" if "x \<in> set bids" for x
      using that False curve_price_greatest [of "o_Price x" asks bids] unfolding ps_def n_def
      by (metis UnI2 image_eqI le_antisym set_curve_prices)
    then have "?FD (n - 1) = 0" using demand_pos_iff [OF pb, of "ps ! (n - 1)"] by auto
    with False show ?thesis by simp
  qed simp
  have "rows n (nth ps) (\<lambda>k. ?S (ps ! k)) (\<lambda>k. ?D (ps ! k)) =
      rows n (nth ps) (\<lambda>k. if k < 1 then ?FS k else ?S (ps ! k)) (\<lambda>k. if n - 1 \<le> k then ?FD k else ?D (ps ! k))"
  proof (rule rows_cong)
    fix k assume "k < n"
    then have "k < 1 \<longrightarrow> k = 0" "n - 1 \<le> k \<longrightarrow> k = n - 1" by auto
    with first last show "?S (ps ! k) = (if k < 1 then ?FS k else ?S (ps ! k)) \<and>
        ?D (ps ! k) = (if n - 1 \<le> k then ?FD k else ?D (ps ! k))" by metis
  qed
  then have "fixZeroSupplyDemand (map (sd_row ?S ?D) ps) = rows n (nth ps) ?FS ?FD"
    using fix_loop_spec [of n ?FS "\<lambda>k. ?S (ps ! k)" ?FD "\<lambda>k. ?D (ps ! k)" 1 0 "n - 1" "nth ps", OF FS FD] n
    by (simp only: rows fixZeroSupplyDemand_def length_rows) simp
  then show ?thesis by (simp only: curve_def ps_def [symmetric] rows)
qed


lemma slice_is_sorted_prices:
  "sorted_wrt (<) ps \<Longrightarrow> slice_is_sorted (\<lambda>a b. agg_Price a < agg_Price b \<and> R a b) (map (agg_of f) ps)"
proof (induction ps)
  case (Cons p ps)
  then show ?case by (cases ps) (auto simp: agg_of_def)
qed simp

lemma addAskOrders_spec:
  "addAskOrders (map (agg_of f) ps) [] = map (sd_row f (\<lambda>_. 0)) ps"
  by (simp add: addAskOrders_def agg_of_def sd_row_def)

lemma sorted_ends: "\<lbrakk>sorted xs; x \<in> set xs\<rbrakk> \<Longrightarrow> hd xs \<le> x \<and> x \<le> List.last xs" for x :: "'a :: linorder"
  by (rule conjI, cases xs, auto, cases xs rule: rev_cases, auto simp: sorted_append)

lemma prices_cross:
  assumes "asks \<noteq> []" and "bids \<noteq> []"
  shows "List.last (prices bids) < hd (prices asks) \<longleftrightarrow> (\<forall>a \<in> set asks. \<forall>b \<in> set bids. o_Price b < o_Price a)"
proof -
  have ne: "prices asks \<noteq> []" "prices bids \<noteq> []" using assms by (simp_all add: prices_def)
  have srt: "sorted (prices xs)" for xs by (simp add: prices_def)
  show ?thesis (is "?l \<longleftrightarrow> ?r")
  proof
    assume ?l
    then show ?r
      using sorted_ends [OF srt, of _ asks] sorted_ends [OF srt, of _ bids]
      by (metis image_eqI le_less_trans less_le_trans set_prices)
  next
    assume ?r
    moreover have "hd (prices asks) \<in> o_Price ` set asks" "List.last (prices bids) \<in> o_Price ` set bids"
      using ne by (metis hd_in_set set_prices, metis last_in_set set_prices)
    ultimately show ?l by auto
  qed
qed

lemma merged_curve:
  assumes "\<forall>x \<in> set asks. 0 < o_Quantity x"
  shows "addBidOrders (map (agg_of (demand_at bids)) (prices bids)) (addAskOrders (map (agg_of (supply_at asks)) (prices asks)) []) =
    map (sd_row (\<lambda>p. if p \<in> o_Price ` set asks then supply_at asks p else 0)
                (\<lambda>p. if p \<in> o_Price ` set bids then demand_at bids p else 0)) (curve_prices asks bids)"
proof -
  let ?S = "\<lambda>p. if p \<in> o_Price ` set asks then supply_at asks p else 0"
  have "map (sd_row (supply_at asks) (\<lambda>_. 0)) (prices asks) = map (sd_row ?S (\<lambda>_. 0)) (prices asks)"
    by (rule map_cong) (simp_all add: sd_row_def)
  then have "addAskOrders (map (agg_of (supply_at asks)) (prices asks)) [] =
      map (sd_row ?S (\<lambda>_. 0)) (sorted_list_of_set (o_Price ` set asks))"
    by (simp only: addAskOrders_spec prices_def)
  then show ?thesis
    using addBidOrders_spec [of "o_Price ` set asks" "prices bids" ?S "\<lambda>_. 0" "demand_at bids"]
    by (simp add: prices_def curve_prices_def)
qed

lemma NewSDCurves_spec:
  assumes "\<forall>x \<in> set asks. 0 < o_Quantity x" and "\<forall>x \<in> set bids. 0 < o_Quantity x"
  shows "NewSDCurves (map (agg_of (supply_at asks)) (prices asks)) (map (agg_of (demand_at bids)) (prices bids)) =
    (if asks = [] \<or> bids = [] then Err ObErrEmptyOrders
     else if \<forall>a \<in> set asks. \<forall>b \<in> set bids. o_Price b < o_Price a then Err ObErrNoCross
     else Ok (curve asks bids))"
proof -
  have nil: "prices xs = [] \<longleftrightarrow> xs = []" for xs by (simp add: prices_def)
  have srt: "slice_is_sorted (\<lambda>a b. agg_Price a < agg_Price b \<and> R a b) (map (agg_of f) (prices xs))" for R f xs
    by (rule slice_is_sorted_prices [OF prices_strict])
  show ?thesis
  proof (cases "asks = [] \<or> bids = []")
    case False
    then have ne: "curve_prices asks bids \<noteq> []" by (simp add: curve_prices_def)
    have ends: "agg_Price (List.last (map (agg_of f) (prices bids))) = List.last (prices bids)"
      "agg_Price (hd (map (agg_of g) (prices asks))) = hd (prices asks)" for f g
      using False nil by (simp_all add: last_map hd_map agg_of_def)
    note sa = srt [of "\<lambda>a b. agg_Quantity a \<le> agg_Quantity b"] and sb = srt [of "\<lambda>a b. agg_Quantity b \<le> agg_Quantity a"]
    show ?thesis
      unfolding NewSDCurves_def ends merged_curve [OF assms(1)] fixZero_curve [OF assms ne]
      using False prices_cross [of asks bids] sa sb by (simp add: nil)
  qed (auto simp: NewSDCurves_def nil)
qed

end
