(* ===== verification/OB_Clearance.thy ===== *)
theory OB_Clearance
  imports OB_Curves
begin

text \<open>
  Module \<open>x/orderbook\<close>, third part: the crossing point of the curves and the clearance state
  (\<open>getCrossPoint\<close> and \<open>GetClearanceState\<close> of \<open>pq_curves.go\<close>). On a curve built from orders whose prices
  cross, the crossing point has a positive price, supply and demand, and they are the supply and demand of the
  orders at that price. For quantities below \<open>10^17\<close> the decimal arithmetic is shown to be exact where it matters:
  the side in excess is limited to exactly the volume of the other side.
\<close>

section \<open>Definitions\<close>

text \<open>The right end of a corridor: the last of the following rows with the same supply and demand.\<close>

fun corridor :: "SDItem \<Rightarrow> SDItem list \<Rightarrow> SDItem option" where
  "corridor l [] = None"
| "corridor l (x # xs) =
     (if sd_Supply l \<noteq> sd_Supply x \<or> sd_Demand l \<noteq> sd_Demand x then None
      else case corridor l xs of None \<Rightarrow> Some x | Some r \<Rightarrow> Some r)"

text \<open>The first pair of neighbours with different balances, and the rows after it.\<close>

fun find_cross :: "SDItem \<Rightarrow> SDItem list \<Rightarrow> (SDItem \<times> SDItem \<times> SDItem list) option" where
  "find_cross prev [] = None"
| "find_cross prev (cur # xs) =
     (if SupplyDemandBalance prev \<noteq> SupplyDemandBalance cur then Some (prev, cur, xs)
      else find_cross cur xs)"

definition has_volumes :: "SDItem \<Rightarrow> bool" where
  "has_volumes i \<longleftrightarrow> sd_Supply i \<noteq> 0 \<and> sd_Demand i \<noteq> 0"

definition sd_diff :: "SDItem \<Rightarrow> nat" where
  "sd_diff i = (if sd_Supply i > sd_Demand i then sd_Supply i - sd_Demand i else sd_Demand i - sd_Supply i)"

text \<open>
  \<open>sort.Slice\<close> by the difference is not stable: which of the rows with equal differences comes first is
  left open, so the sorted slice is a parameter \<open>srt\<close> with the contract of the library function.
\<close>

definition sorts_by_diff :: "(SDItem list \<Rightarrow> SDItem list) \<Rightarrow> bool" where
  "sorts_by_diff srt \<longleftrightarrow> (\<forall>c. mset (srt c) = mset c \<and> sorted (map sd_diff (srt c)))"

definition ref_sort :: "SDItem list \<Rightarrow> SDItem list" where
  "ref_sort = sort_key sd_diff"

lemma ref_sort_sorts: "sorts_by_diff ref_sort"
  by (simp add: sorts_by_diff_def ref_sort_def)

definition min_diff_point :: "(SDItem list \<Rightarrow> SDItem list) \<Rightarrow> SDItem list \<Rightarrow> SDItem" where
  "min_diff_point srt c =
     (case List.find has_volumes (srt c) of
        Some i \<Rightarrow> i
      | None \<Rightarrow> \<lparr>sd_Price = 0, sd_Supply = 0, sd_Demand = 0\<rparr>)"

definition clearance_price :: "sdk \<Rightarrow> SDItem \<Rightarrow> SDItem list \<Rightarrow> nat option" where
  "clearance_price S cur xs =
     (case corridor cur xs of
        None \<Rightarrow> Some (sd_Price cur)
      | Some r \<Rightarrow> map_option (\<lambda>p. p div 2) (uint_add S (sd_Price cur) (sd_Price r)))"

definition getCrossPoint :: "sdk \<Rightarrow> (SDItem list \<Rightarrow> SDItem list) \<Rightarrow> SDItem list \<Rightarrow> SDItem option" where
  "getCrossPoint S srt c =
     (case c of
        [] \<Rightarrow> None
      | x # xs \<Rightarrow>
          if sd_Supply x = sd_Demand x \<and> sd_Supply x \<noteq> 0 \<and> sd_Demand x \<noteq> 0 then Some x
          else (case find_cross x xs of
                  None \<Rightarrow> Some (min_diff_point srt c)
                | Some (prev, cur, ys) \<Rightarrow>
                    Option.bind (clearance_price S cur ys) (\<lambda>p.
                      if has_volumes cur then Some (cur\<lparr>sd_Price := p\<rparr>)
                      else if has_volumes prev then Some prev
                      else Some (min_diff_point srt c))))"

record ClearanceState =
  cs_Price :: nat
  cs_ProRata :: int
  cs_ProRataInvert :: int
  cs_MaxBidVolume :: int
  cs_MaxAskVolume :: int

text \<open>The decimal part: pro-rata coefficients and maximal volumes of a supply and a demand. \<open>None\<close> is a panic.\<close>

definition clearance_volumes :: "sdk \<Rightarrow> SDItem \<Rightarrow> ClearanceState option" where
  "clearance_volumes S i =
     Option.bind (dec_of_int S (int (sd_Demand i)) 0) (\<lambda>demandDec.
     Option.bind (dec_of_int S (int (sd_Supply i)) 0) (\<lambda>supplyDec.
     Option.bind (dec_quo S supplyDec demandDec) (\<lambda>proRata.
     Option.bind (dec_quo S dec_one proRata) (\<lambda>proRataInvert.
     Option.bind (Option.bind (dec_mul S demandDec proRata) (dec_round S)) (\<lambda>mb.
     Option.bind (dec_of_int S mb 0) (\<lambda>maxBid.
     Option.bind (Option.bind (dec_mul S supplyDec proRataInvert) (dec_round S)) (\<lambda>ma.
     Option.bind (dec_of_int S ma 0) (\<lambda>maxAsk.
       Some \<lparr>cs_Price = sd_Price i, cs_ProRata = proRata, cs_ProRataInvert = proRataInvert,
             cs_MaxBidVolume = maxBid, cs_MaxAskVolume = maxAsk\<rparr>))))))))"

definition GetClearanceState :: "sdk \<Rightarrow> (SDItem list \<Rightarrow> SDItem list) \<Rightarrow> SDItem list \<Rightarrow> (ob_error, ClearanceState) res" where
  "GetClearanceState S srt c =
     (if length c = 0 then Err ObErrEmptyCurves
      else bind_res (from_opt (getCrossPoint S srt c)) (\<lambda>i.
        if sd_Price i = 0 then Err ObErrInternal
        else if sd_Supply i = 0 then Err ObErrInternal
        else if sd_Demand i = 0 then Err ObErrInternal
        else from_opt (clearance_volumes S i)))"

section \<open>The crossing point\<close>

lemma corridor_spec:
  "corridor l xs = Some r \<Longrightarrow> r \<in> set xs \<and> sd_Supply r = sd_Supply l \<and> sd_Demand r = sd_Demand l"
  by (induction l xs rule: corridor.induct) (auto split: if_splits option.splits)

lemma find_cross_spec:
  "find_cross x xs = Some (prev, cur, ys) \<Longrightarrow>
   \<exists>zs. x # xs = zs @ prev # cur # ys \<and> SupplyDemandBalance prev \<noteq> SupplyDemandBalance cur"
proof (induction x xs rule: find_cross.induct)
  case (2 x cur' xs)
  show ?case
  proof (cases "SupplyDemandBalance x \<noteq> SupplyDemandBalance cur'")
    case True
    with 2(2) show ?thesis by (intro exI [of _ "[]"]) auto
  next
    case False
    with 2 obtain zs where "cur' # xs = zs @ prev # cur # ys" "SupplyDemandBalance prev \<noteq> SupplyDemandBalance cur"
      by auto
    then show ?thesis by (intro exI [of _ "x # zs"]) simp
  qed
qed simp

lemma min_diff_point_spec:
  assumes "sorts_by_diff srt" and "i \<in> set c" and "has_volumes i"
  shows "min_diff_point srt c \<in> set c \<and> has_volumes (min_diff_point srt c)"
proof -
  have m: "mset (srt c) = mset c" using assms(1) by (simp add: sorts_by_diff_def)
  then have st: "set (srt c) = set c" by (rule mset_eq_setD)
  have "List.find has_volumes (srt c) \<noteq> None" using assms(2,3) st by (auto simp: find_None_iff)
  then obtain r where "List.find has_volumes (srt c) = Some r" by blast
  moreover from this have "has_volumes r" "r \<in> set (srt c)" by (auto simp: find_Some_iff)
  ultimately show ?thesis using st by (simp add: min_diff_point_def)
qed

text \<open>Rows that stand for the orders at their price.\<close>

definition row_of :: "Order list \<Rightarrow> Order list \<Rightarrow> SDItem \<Rightarrow> bool" where
  "row_of asks bids i \<longleftrightarrow> sd_Supply i = supply_at asks (sd_Price i) \<and> sd_Demand i = demand_at bids (sd_Price i)"

lemma curve_row: "i \<in> set (curve asks bids) \<Longrightarrow> row_of asks bids i \<and> sd_Price i \<in> o_Price ` set asks \<union> o_Price ` set bids"
  by (auto simp: curve_def row_of_def sd_row_def)

lemma row_between:
  assumes "row_of asks bids l" and "row_of asks bids r" and "sd_Supply r = sd_Supply l" and "sd_Demand r = sd_Demand l"
    and "sd_Price l \<le> p" and "p \<le> sd_Price r"
  shows "row_of asks bids (l\<lparr>sd_Price := p\<rparr>)"
  using assms supply_mono [of "sd_Price l" p asks] supply_mono [of p "sd_Price r" asks]
    demand_antimono [of "sd_Price l" p bids] demand_antimono [of p "sd_Price r" bids]
  by (simp add: row_of_def)

text \<open>Orders that can trade: positive quantities and prices, and a bid at or above an ask.\<close>

definition tradable :: "Order list \<Rightarrow> Order list \<Rightarrow> bool" where
  "tradable asks bids \<longleftrightarrow>
     (\<forall>x \<in> set asks \<union> set bids. 0 < o_Quantity x \<and> 0 < o_Price x \<and> o_Price x < 2 ^ 255) \<and>
     (\<exists>a \<in> set asks. \<exists>b \<in> set bids. o_Price a \<le> o_Price b)"

lemma tradable_pos:
  assumes "tradable asks bids"
  shows "\<forall>x \<in> set asks. 0 < o_Quantity x" and "\<forall>x \<in> set bids. 0 < o_Quantity x"
  using assms unfolding tradable_def by blast+

lemma curve_sorted: "sorted_wrt (<) (map sd_Price (curve asks bids))"
  by (simp add: curve_def curve_prices_strict comp_def)

lemma curve_Prices: "set (map sd_Price (curve asks bids)) = o_Price ` set asks \<union> o_Price ` set bids"
  by (simp add: curve_def comp_def)

lemma curve_row_nonzero:
  assumes "tradable asks bids" and "i \<in> set (curve asks bids)"
  shows "0 < sd_Supply i \<or> 0 < sd_Demand i"
proof -
  have r: "row_of asks bids i" and p: "sd_Price i \<in> o_Price ` set asks \<union> o_Price ` set bids"
    using curve_row [OF assms(2)] by auto
  from p show ?thesis
    using r supply_pos_iff [OF tradable_pos(1) [OF assms(1)], of "sd_Price i"]
      demand_pos_iff [OF tradable_pos(2) [OF assms(1)], of "sd_Price i"]
    by (auto simp: row_of_def)
qed

lemma curve_has_volumes:
  assumes "tradable asks bids"
  shows "\<exists>i \<in> set (curve asks bids). has_volumes i"
proof -
  from assms obtain a b where ab: "a \<in> set asks" "b \<in> set bids" "o_Price a \<le> o_Price b"
    by (auto simp: tradable_def)
  let ?i = "sd_row (supply_at asks) (demand_at bids) (o_Price a)"
  have "?i \<in> set (curve asks bids)" using ab(1) by (simp add: curve_def)
  moreover have "0 < supply_at asks (o_Price a)" "0 < demand_at bids (o_Price a)"
    using ab supply_pos_iff [OF tradable_pos(1) [OF assms]] demand_pos_iff [OF tradable_pos(2) [OF assms]] by auto
  ultimately show ?thesis by (intro bexI [of _ ?i]) (simp_all add: has_volumes_def sd_row_def)
qed

lemma cross_has_volumes:
  assumes tr: "tradable asks bids" and c: "curve asks bids = zs @ prev # cur # ys"
    and bal: "SupplyDemandBalance prev \<noteq> SupplyDemandBalance cur"
  shows "has_volumes cur \<or> has_volumes prev"
proof (rule ccontr)
  assume no: "\<not> (has_volumes cur \<or> has_volumes prev)"
  have mem: "prev \<in> set (curve asks bids)" "cur \<in> set (curve asks bids)" by (simp_all add: c)
  have rp: "row_of asks bids prev" and rc: "row_of asks bids cur" using mem curve_row by blast+
  have nz: "0 < sd_Supply prev \<or> 0 < sd_Demand prev" "0 < sd_Supply cur \<or> 0 < sd_Demand cur"
    by (rule curve_row_nonzero [OF tr mem(1)], rule curve_row_nonzero [OF tr mem(2)])
  have srt: "sorted_wrt (<) (map sd_Price (zs @ prev # cur # ys))" using curve_sorted [of asks bids] c by metis
  have lt: "sd_Price prev < sd_Price cur" using srt by (simp add: sorted_wrt_append)
  have gap: "o_Price x \<le> sd_Price prev \<or> sd_Price cur \<le> o_Price x" if "x \<in> set asks \<union> set bids" for x
  proof -
    have "o_Price x \<in> set (map sd_Price (zs @ prev # cur # ys))"
      using that curve_Prices [of asks bids] unfolding c by auto
    then show ?thesis using srt by (auto simp: sorted_wrt_append)
  qed
  have mono: "sd_Supply prev \<le> sd_Supply cur" "sd_Demand cur \<le> sd_Demand prev"
    using rp rc lt supply_mono demand_antimono by (simp_all add: row_of_def)
  have "sd_Supply cur \<noteq> 0" using nz mono bal by (auto simp: SupplyDemandBalance_def split: if_splits)
  then have "sd_Demand cur = 0" using no by (simp add: has_volumes_def)
  then have "sd_Demand prev \<noteq> 0" using nz bal \<open>sd_Supply cur \<noteq> 0\<close> by (auto simp: SupplyDemandBalance_def split: if_splits)
  then have "sd_Supply prev = 0" using no by (simp add: has_volumes_def)
  then have a: "\<forall>x \<in> set asks. \<not> o_Price x \<le> sd_Price prev"
    using rp supply_pos_iff [OF tradable_pos(1) [OF tr], of "sd_Price prev"] by (auto simp: row_of_def)
  have b: "\<forall>x \<in> set bids. \<not> sd_Price cur \<le> o_Price x"
    using rc \<open>sd_Demand cur = 0\<close> demand_pos_iff [OF tradable_pos(2) [OF tr], of "sd_Price cur"] by (auto simp: row_of_def)
  from tr obtain x y where xy: "x \<in> set asks" "y \<in> set bids" "o_Price x \<le> o_Price y" by (auto simp: tradable_def)
  have "sd_Price cur \<le> o_Price x" using gap [of x] a xy(1) by auto
  moreover have "o_Price y < sd_Price cur" using b xy(2) by auto
  ultimately show False using xy(3) by simp
qed

lemma clearance_price_spec:
  assumes "uint_laws S" and c: "curve asks bids = zs @ cur # ys"
    and bnd: "\<forall>x \<in> set asks \<union> set bids. 0 < o_Price x \<and> o_Price x < 2 ^ 255"
  shows "\<exists>p. clearance_price S cur ys = Some p \<and> 0 < p \<and> row_of asks bids (cur\<lparr>sd_Price := p\<rparr>)"
proof -
  have P: "row_of asks bids i \<and> 0 < sd_Price i \<and> sd_Price i < 2 ^ 255" if "i \<in> set (curve asks bids)" for i
    using curve_row [OF that] bnd by auto
  have cur: "cur \<in> set (curve asks bids)" by (simp add: c)
  show ?thesis
  proof (cases "corridor cur ys")
    case None
    with P [OF cur] show ?thesis by (simp add: clearance_price_def)
  next
    case (Some r)
    note r = corridor_spec [OF Some]
    have rm: "r \<in> set (curve asks bids)" using r by (simp add: c)
    have "sorted_wrt (<) (map sd_Price (zs @ cur # ys))" using curve_sorted [of asks bids] c by metis
    then have lt: "sd_Price cur < sd_Price r" using r by (simp add: sorted_wrt_append)
    have "sd_Price cur + sd_Price r < 2 ^ 256"
      using P [OF cur] P [OF rm] by (simp add: power_Suc [of 2 255, symmetric] del: power_Suc)
    then have eq: "clearance_price S cur ys = Some ((sd_Price cur + sd_Price r) div 2)"
      using Some uint_add_Some [OF assms(1)] by (simp add: clearance_price_def)
    have "row_of asks bids (cur\<lparr>sd_Price := (sd_Price cur + sd_Price r) div 2\<rparr>)"
      using P [OF cur] P [OF rm] r lt by (intro row_between [of _ _ _ r]) auto
    with eq P [OF cur] lt show ?thesis by auto
  qed
qed

text \<open>
  The crossing point of a curve built from tradable orders: a positive price with the positive supply and demand
  of the orders at that price.
\<close>

lemma getCrossPoint_spec:
  assumes "uint_laws S" and srt: "sorts_by_diff srt" and tr: "tradable asks bids"
  shows "\<exists>i. getCrossPoint S srt (curve asks bids) = Some i \<and> row_of asks bids i \<and> has_volumes i \<and> 0 < sd_Price i"
proof -
  have pos: "row_of asks bids i \<and> 0 < sd_Price i" if "i \<in> set (curve asks bids)" for i
    using curve_row [OF that] tr by (auto simp: tradable_def)
  from curve_has_volumes [OF tr] obtain v where v: "v \<in> set (curve asks bids)" "has_volumes v" by blast
  then obtain x xs where c: "curve asks bids = x # xs" by (cases "curve asks bids") auto
  have md: "min_diff_point srt (x # xs) \<in> set (x # xs) \<and> has_volumes (min_diff_point srt (x # xs))"
    using min_diff_point_spec [OF srt v(1) v(2)] by (simp only: c)
  show ?thesis
  proof (cases "sd_Supply x = sd_Demand x \<and> sd_Supply x \<noteq> 0 \<and> sd_Demand x \<noteq> 0")
    case True
    then show ?thesis using pos [of x] by (simp add: c getCrossPoint_def has_volumes_def)
  next
    case first: False
    show ?thesis
    proof (cases "find_cross x xs")
      case None
      with first md pos [of "min_diff_point srt (x # xs)"] show ?thesis by (auto simp: c getCrossPoint_def)
    next
      case (Some t)
      obtain prev cur ys where t: "t = (prev, cur, ys)" by (cases t)
      from find_cross_spec [of x xs prev cur ys] Some t obtain zs where
        z: "x # xs = zs @ prev # cur # ys" "SupplyDemandBalance prev \<noteq> SupplyDemandBalance cur" by auto
      have vol: "has_volumes cur \<or> has_volumes prev" using cross_has_volumes [OF tr] c z by simp
      have "curve asks bids = (zs @ [prev]) @ cur # ys" using c z by simp
      from clearance_price_spec [OF assms(1) this] tr obtain p where
        p: "clearance_price S cur ys = Some p" "0 < p" "row_of asks bids (cur\<lparr>sd_Price := p\<rparr>)"
        by (auto simp: tradable_def)
      have prev: "prev \<in> set (curve asks bids)" using c z by simp
      have gc: "getCrossPoint S srt (curve asks bids) = (if has_volumes cur then Some (cur\<lparr>sd_Price := p\<rparr>) else Some prev)"
        using first Some t p vol by (auto simp: c getCrossPoint_def)
      show ?thesis using gc p pos [OF prev] vol by (cases "has_volumes cur") (auto simp: has_volumes_def)
    qed
  qed
qed

section \<open>The pro-rata arithmetic\<close>

lemma chop_near:
  assumes "0 \<le> a" and "\<bar>2 * (a - k * dec_one)\<bar> < dec_one"
  shows "chop a = k"
proof -
  have b: "2 * (chop a * dec_one) \<le> 2 * a + dec_one" "2 * a \<le> 2 * (chop a * dec_one) + dec_one"
    using chop_bounds [OF assms(1)] by auto
  show ?thesis using b assms(2) by (simp add: abs_less_iff)
qed

definition pro_rata :: "int \<Rightarrow> int \<Rightarrow> int" where
  "pro_rata s d = chop (s * dec_one * dec_one div d)"

definition pro_rata_inv :: "int \<Rightarrow> int" where
  "pro_rata_inv r = chop (dec_one * dec_one * dec_one div r)"

text \<open>The rounded quotient, multiplied back.\<close>

lemma chop_div_bounds:
  assumes "0 \<le> a" and "0 < d"
  defines "c \<equiv> chop (a div d)"
  shows "2 * (d * c * dec_one) \<le> 2 * a + d * dec_one" and "2 * a < 2 * (d * c * dec_one) + d * dec_one + 2 * d" and "0 \<le> c"
proof -
  define q where "q = a div d"
  have "a = d * q + a mod d" by (simp add: q_def)
  moreover have "0 \<le> a mod d" "a mod d < d" using assms(2) by simp_all
  ultimately have q: "d * q \<le> a" "a < d * q + d" by linarith+
  have q0: "0 \<le> q" using assms(1,2) by (simp add: q_def pos_imp_zdiv_nonneg_iff)
  show "0 \<le> c" unfolding c_def using q0 by (simp add: q_def chop_nonneg)
  have b: "2 * (c * dec_one) \<le> 2 * q + dec_one" "2 * q \<le> 2 * (c * dec_one) + dec_one"
    using chop_bounds [OF q0] by (simp_all add: c_def q_def)
  have "d * (2 * (c * dec_one)) \<le> d * (2 * q + dec_one)" "d * (2 * q) \<le> d * (2 * (c * dec_one) + dec_one)"
    using b assms(2) by (simp_all only: mult_le_cancel_left_pos)
  with q show "2 * (d * c * dec_one) \<le> 2 * a + d * dec_one" "2 * a < 2 * (d * c * dec_one) + d * dec_one + 2 * d"
    by (simp_all add: algebra_simps)
qed

text \<open>The bound under which the arithmetic is exact: \<open>10^17\<close>.\<close>

abbreviation exact_limit :: int where
  "exact_limit \<equiv> 100000000000000000"

lemma pro_rata_bounds:
  assumes "0 \<le> s" and "0 < d" and "d < exact_limit"
  shows "2 * (d * pro_rata s d) \<le> 2 * (s * dec_one) + d" and "2 * (s * dec_one) \<le> 2 * (d * pro_rata s d) + d"
    and "0 \<le> pro_rata s d"
proof -
  have a: "0 \<le> s * dec_one * dec_one" using assms(1) by simp
  note b = chop_div_bounds [OF a assms(2), folded pro_rata_def]
  show "2 * (d * pro_rata s d) \<le> 2 * (s * dec_one) + d" using b(1) by linarith
  show "2 * (s * dec_one) \<le> 2 * (d * pro_rata s d) + d" using b(2) assms(3) by linarith
  show "0 \<le> pro_rata s d" by (rule b(3))
qed

lemma pro_rata_volume:
  assumes "0 \<le> s" and "0 < d" and "d < exact_limit"
  shows "chop (d * pro_rata s d) = s"
  using pro_rata_bounds [OF assms] assms by (intro chop_near) (simp_all add: abs_less_iff)

lemma pro_rata_pos:
  assumes "0 < s" and "0 < d" and "d < exact_limit"
  shows "0 < pro_rata s d"
proof -
  have "pro_rata s d \<noteq> 0" using pro_rata_bounds(2) [of s d] assms by (cases "pro_rata s d = 0") simp_all
  with pro_rata_bounds(3) [of s d] assms show ?thesis by simp
qed

lemma pro_rata_gt_one_iff:
  assumes "0 < s" and "0 < d" and "d < exact_limit"
  shows "dec_one < pro_rata s d \<longleftrightarrow> d < s"
proof
  assume l: "dec_one < pro_rata s d"
  show "d < s"
  proof (rule ccontr)
    assume "\<not> d < s"
    then have "s * dec_one * dec_one div d \<le> d * dec_one * dec_one div d"
      using assms(2) by (intro zdiv_mono1) simp_all
    also have "\<dots> = dec_one * dec_one" using assms(2) by (simp add: mult.assoc)
    finally have "pro_rata s d \<le> dec_one"
      unfolding pro_rata_def using assms by (intro chop_le) (simp_all add: pos_imp_zdiv_nonneg_iff)
    with l show False by simp
  qed
next
  assume ds: "d < s"
  show "dec_one < pro_rata s d"
  proof (rule ccontr)
    assume "\<not> dec_one < pro_rata s d"
    then have "d * pro_rata s d \<le> d * dec_one" using assms(2) by (simp only: mult_le_cancel_left_pos not_less)
    with pro_rata_bounds(2) [of s d] assms ds show False by linarith
  qed
qed

lemma pro_rata_inv_ge_one:
  assumes "0 < r" and "r \<le> dec_one"
  shows "dec_one \<le> pro_rata_inv r"
proof -
  have "dec_one * dec_one * dec_one div dec_one \<le> dec_one * dec_one * dec_one div r"
    using assms by (intro zdiv_mono2) simp_all
  then show ?thesis unfolding pro_rata_inv_def by (intro chop_ge) simp_all
qed

lemma pro_rata_inv_bounds:
  assumes "0 < r"
  shows "2 * (r * pro_rata_inv r) \<le> 2 * (dec_one * dec_one) + r"
    and "2 * (dec_one * dec_one * dec_one) < 2 * (r * pro_rata_inv r * dec_one) + r * dec_one + 2 * r"
    and "0 \<le> pro_rata_inv r" and "pro_rata_inv r \<le> dec_one * dec_one + 1"
proof -
  have a: "0 \<le> (dec_one * dec_one * dec_one :: int)" by simp
  note b = chop_div_bounds [OF a assms, folded pro_rata_inv_def]
  show u: "2 * (r * pro_rata_inv r) \<le> 2 * (dec_one * dec_one) + r" using b(1) by linarith
  show "2 * (dec_one * dec_one * dec_one) < 2 * (r * pro_rata_inv r * dec_one) + r * dec_one + 2 * r" using b(2) by linarith
  show z: "0 \<le> pro_rata_inv r" by (rule b(3))
  show "pro_rata_inv r \<le> dec_one * dec_one + 1"
  proof (rule ccontr)
    assume "\<not> pro_rata_inv r \<le> dec_one * dec_one + 1"
    then have "r * (dec_one * dec_one + 2) \<le> r * pro_rata_inv r" using assms by (intro mult_left_mono) simp_all
    with u assms show False unfolding distrib_left by linarith
  qed
qed

lemma int_scale: "\<lbrakk>x * dec_one < y * dec_one + k; k < dec_one\<rbrakk> \<Longrightarrow> x \<le> y" for x y k :: int
  by linarith

text \<open>With the supply in excess, the inverted coefficient limits it to the demand.\<close>

lemma pro_rata_inv_volume:
  assumes s: "0 < s" "s < exact_limit" and d: "0 < d" "d < exact_limit" and r: "dec_one < pro_rata s d"
  shows "chop (s * pro_rata_inv (pro_rata s d)) = d"
proof -
  define r' where "r' = pro_rata s d"
  define v where "v = pro_rata_inv r'"
  have r0: "0 < r'" using r by (simp add: r'_def)
  note b = pro_rata_bounds [of s d, folded r'_def] and i = pro_rata_inv_bounds [OF r0, folded v_def]
  have dr: "d * dec_one \<le> d * r'" using r d by (simp add: r'_def)
  have "s * (2 * (r' * v)) \<le> s * (2 * (dec_one * dec_one) + r')"
    using i(1) s by (simp only: mult_le_cancel_left_pos)
  then have "2 * (s * v) * r' \<le> 2 * (s * dec_one) * dec_one + s * r'" by (simp add: algebra_simps)
  also have "\<dots> \<le> (2 * (d * r') + d) * dec_one + s * r'" using b(2) s d by simp
  also have "\<dots> \<le> (2 * (d * dec_one) + d + s) * r'" using dr by (simp add: algebra_simps)
  finally have up: "2 * (s * v) \<le> 2 * (d * dec_one) + d + s" using r0 by (simp only: mult_le_cancel_right_pos)
  have "s * (2 * (dec_one * dec_one * dec_one)) < s * (2 * (r' * v * dec_one) + r' * dec_one + 2 * r')"
    using i(2) s by (simp only: mult_less_cancel_left_pos)
  then have "2 * (s * dec_one) * (dec_one * dec_one) < (2 * (s * v) * dec_one + s * dec_one + 2 * s) * r'"
    by (simp add: algebra_simps)
  moreover have "(2 * (d * r') - d) * (dec_one * dec_one) \<le> 2 * (s * dec_one) * (dec_one * dec_one)" using b(1) s d by simp
  moreover have "((2 * (d * dec_one) - d) * dec_one) * r' \<le> (2 * (d * r') - d) * (dec_one * dec_one)"
    using dr by (simp add: algebra_simps)
  ultimately have "((2 * (d * dec_one) - d) * dec_one) * r' < (2 * (s * v) * dec_one + s * dec_one + 2 * s) * r'" by linarith
  then have "(2 * (d * dec_one) - d) * dec_one < 2 * (s * v) * dec_one + s * dec_one + 2 * s"
    using r0 by (simp only: mult_less_cancel_right_pos)
  then have low: "2 * (d * dec_one) - d \<le> 2 * (s * v) + s" using s
    by (intro int_scale [of _ _ "2 * s"]) (simp_all add: algebra_simps)
  have "0 \<le> s * v" using s i(3) by simp
  moreover have "\<bar>2 * (s * v - d * dec_one)\<bar> < dec_one"
    using up low s(2) d(2) unfolding abs_less_iff right_diff_distrib by linarith
  ultimately show ?thesis unfolding r'_def [symmetric] v_def [symmetric] by (rule chop_near)
qed

text \<open>What the clearance state of a crossing point with small volumes is.\<close>

lemma clearance_volumes_spec:
  assumes laws: "dec_laws S"
    and s: "0 < sd_Supply i" "int (sd_Supply i) < exact_limit" and d: "0 < sd_Demand i" "int (sd_Demand i) < exact_limit"
  defines "r \<equiv> pro_rata (int (sd_Supply i)) (int (sd_Demand i))"
  shows "clearance_volumes S i = Some \<lparr>cs_Price = sd_Price i, cs_ProRata = r, cs_ProRataInvert = pro_rata_inv r,
     cs_MaxBidVolume = int (sd_Supply i) * dec_one,
     cs_MaxAskVolume = chop (int (sd_Supply i) * pro_rata_inv r) * dec_one\<rparr>"
proof -
  define x y where "x = int (sd_Supply i)" and "y = int (sd_Demand i)"
  have x: "0 < x" "x < exact_limit" and y: "0 < y" "y < exact_limit" using s d by (simp_all add: x_def y_def)
  have r: "0 < r" using pro_rata_pos x y by (simp add: r_def x_def y_def)
  have r_eq: "chop (x * dec_one * dec_one * dec_one div (y * dec_one)) = r"
    using div_mult_mult2 [of dec_one "x * dec_one * dec_one" y] by (simp add: r_def pro_rata_def x_def y_def)
  have yr: "y * r \<le> x * dec_one + y" using pro_rata_bounds(1) [of x y] x y by (simp add: r_def x_def y_def)
  moreover have "1 * r \<le> y * r" using y r by (intro mult_right_mono) simp_all
  ultimately have r_le: "r < 2 ^ 250" and yr_le: "y * r < 2 ^ 250" using x y by simp_all
  define v where "v = pro_rata_inv r"
  note vb = pro_rata_inv_bounds(3,4) [OF r, folded v_def]
  have xv: "0 \<le> x * v" using vb x by simp
  have "x * v \<le> exact_limit * (dec_one * dec_one + 1)" using vb x by (intro mult_mono) simp_all
  then have xv_le: "x * v < 2 ^ 250" by simp
  have cxv: "0 \<le> chop (x * v)" "chop (x * v) < 2 ^ 250"
    using chop_nonneg [OF xv] chop_bounds [OF xv] xv_le by simp_all
  have e0: "dec_of_int S n 0 = Some (n * dec_one)" for n by (simp add: dec_of_int_law [OF laws])
  have q1: "dec_quo S (x * dec_one) (y * dec_one) = Some r"
    using x y r r_le by (subst dec_quo_law [OF laws]) (simp_all only: r_eq, simp_all add: within_Some)
  have q2: "dec_quo S dec_one r = Some v"
    using r vb by (subst dec_quo_law [OF laws]) (simp_all add: within_Some v_def pro_rata_inv_def)
  have m1: "dec_mul S (y * dec_one) r = Some (y * r)"
  proof -
    have "y * dec_one * r = y * r * dec_one" by simp
    then show ?thesis unfolding dec_mul_law [OF laws] using y r yr_le by (simp only: chop_exact) (simp add: within_Some)
  qed
  have m2: "dec_mul S (x * dec_one) v = Some (x * v)"
  proof -
    have "x * dec_one * v = x * v * dec_one" by simp
    then show ?thesis unfolding dec_mul_law [OF laws] using xv xv_le by (simp only: chop_exact) (simp add: within_Some)
  qed
  have r1: "dec_round S (y * r) = Some x"
    using pro_rata_volume [of x y] x y by (simp add: dec_round_law [OF laws] r_def x_def [symmetric] y_def [symmetric] within_Some)
  have r2: "dec_round S (x * v) = Some (chop (x * v))"
    using cxv by (simp add: dec_round_law [OF laws] within_Some)
  show ?thesis
    unfolding clearance_volumes_def x_def [symmetric] y_def [symmetric] e0 Option.bind.simps q1 q2 m1 m2 r1 r2 v_def [symmetric] ..
qed

text \<open>The clearance state of a price with a supply and a demand.\<close>

definition clearance_of :: "nat \<Rightarrow> nat \<Rightarrow> nat \<Rightarrow> ClearanceState" where
  "clearance_of p s d =
     (let r = pro_rata (int s) (int d) in
      \<lparr>cs_Price = p, cs_ProRata = r, cs_ProRataInvert = pro_rata_inv r, cs_MaxBidVolume = int s * dec_one,
       cs_MaxAskVolume = chop (int s * pro_rata_inv r) * dec_one\<rparr>)"

lemma GetClearanceState_spec:
  assumes laws: "dec_laws S" "uint_laws S" and srt: "sorts_by_diff srt" and tr: "tradable asks bids"
    and tot: "int (total_quantity bids) < exact_limit" "int (total_quantity asks) < exact_limit"
  obtains p s d where "GetClearanceState S srt (curve asks bids) = Ok (clearance_of p s d)"
    and "0 < p" and "s = supply_at asks p" and "d = demand_at bids p"
    and "0 < s" and "int s < exact_limit" and "0 < d" and "int d < exact_limit"
proof -
  from getCrossPoint_spec [OF laws(2) srt tr] obtain i where i: "getCrossPoint S srt (curve asks bids) = Some i"
    "row_of asks bids i" "has_volumes i" "0 < sd_Price i" by blast
  have row: "sd_Supply i = supply_at asks (sd_Price i)" "sd_Demand i = demand_at bids (sd_Price i)"
    using i(2) by (simp_all add: row_of_def)
  have s: "0 < sd_Supply i" "int (sd_Supply i) < exact_limit" and d: "0 < sd_Demand i" "int (sd_Demand i) < exact_limit"
    using i(3) tot supply_le_total [of asks "sd_Price i"] demand_le_total [of bids "sd_Price i"]
    by (simp_all add: has_volumes_def row)
  have "clearance_volumes S i = Some (clearance_of (sd_Price i) (sd_Supply i) (sd_Demand i))"
    using clearance_volumes_spec [OF laws(1) s d] by (simp add: clearance_of_def Let_def)
  moreover have "curve asks bids \<noteq> []" using curve_has_volumes [OF tr] by auto
  ultimately have "GetClearanceState S srt (curve asks bids) = Ok (clearance_of (sd_Price i) (sd_Supply i) (sd_Demand i))"
    using i(1,4) s d by (simp add: GetClearanceState_def)
  then show ?thesis using that i(4) row s d by blast
qed

end
