(* ===== verification/OB_Matcher.thy ===== *)
theory OB_Matcher
  imports OB_Clearance
begin

text \<open>
  Module \<open>x/orderbook\<close>, fourth part: the matcher of a market (\<open>matcher.go\<close>) and the pool of matchers
  (\<open>matcher_pool.go\<close>). The main result is conservation of the traded volume: the bids and the asks of a market are
  filled for the same total quantity, the smaller of supply and demand at the clearance price, within the price limit
  and the quantity of every order.
\<close>

section \<open>Matcher\<close>

record Matcher =
  mt_marketID :: ID
  mt_bid :: "Order list"
  mt_ask :: "Order list"
  mt_aggBid :: "OrderAggregate list"
  mt_aggAsk :: "OrderAggregate list"
  mt_sdCurves :: "SDItem list"

record MatcherResult =
  mr_MarketID :: ID
  mr_BidOrdersCount :: nat
  mr_AskOrdersCount :: nat
  mr_ClearanceState :: ClearanceState
  mr_MatchedBidVolume :: int
  mr_MatchedAskVolume :: int
  mr_OrderFills :: "OrderFill list"

definition NewMatcher :: "ID \<Rightarrow> Matcher" where
  "NewMatcher marketID =
     \<lparr>mt_marketID = marketID, mt_bid = [], mt_ask = [], mt_aggBid = [], mt_aggAsk = [], mt_sdCurves = []\<rparr>"

abbreviation MaxInt :: nat where
  "MaxInt \<equiv> 9223372036854775807"

definition Matcher_AddOrder :: "Order \<Rightarrow> (Matcher, ob_error, unit) op" where
  "Matcher_AddOrder ord m =
     (if me_ID (o_Market ord) \<noteq> mt_marketID m then (Err ObErrInternal, m)
      else if o_Price ord = 0 then (Err ObErrInternal, m)
      else if o_Quantity ord = 0 then (Err ObErrInternal, m)
      else if o_Direction ord = Bid then
        (if length (mt_bid m) = MaxInt then (Err ObErrMaxOrders, m)
         else (Ok (), m\<lparr>mt_bid := mt_bid m @ [ord]\<rparr>))
      else if o_Direction ord = Ask then
        (if length (mt_ask m) = MaxInt then (Err ObErrMaxOrders, m)
         else (Ok (), m\<lparr>mt_ask := mt_ask m @ [ord]\<rparr>))
      else (Err ObErrDirection, m))"

text \<open>The fill quantity adjusted by a pro-rata coefficient, at most what is left of the maximal volume.\<close>

definition pro_rata_quantity :: "sdk \<Rightarrow> int \<Rightarrow> int \<Rightarrow> int \<Rightarrow> nat \<Rightarrow> nat option" where
  "pro_rata_quantity S coef maxVolume matchedVolume quantity =
     Option.bind (dec_of_int S (int quantity) 0) (\<lambda>orderQtyDec.
     Option.bind (dec_mul S orderQtyDec coef) (\<lambda>adjusted.
     let ceiled = dec_ceil S adjusted in
     Option.bind (dec_add S matchedVolume ceiled) (\<lambda>total.
     Option.bind (if maxVolume < total then dec_sub S maxVolume matchedVolume else Some ceiled) (\<lambda>qty.
     Option.bind (dec_round S qty) (uint_of_big S)))))"

text \<open>
  The loop of both fill functions. \<open>stop\<close> is the price limit, \<open>coef\<close> the coefficient of the side that is adjusted,
  if it is.
\<close>

fun fill_loop ::
  "sdk \<Rightarrow> nat \<Rightarrow> (Order \<Rightarrow> bool) \<Rightarrow> int option \<Rightarrow> int \<Rightarrow> Order list \<Rightarrow> OrderFill list \<Rightarrow> int \<Rightarrow> (OrderFill list \<times> int) option"
where
  "fill_loop S price stop coef maxVolume [] fills matchedVolume = Some (fills, matchedVolume)"
| "fill_loop S price stop coef maxVolume (ord # xs) fills matchedVolume =
     (if stop ord \<or> matchedVolume = maxVolume then Some (fills, matchedVolume)
      else Option.bind (case coef of None \<Rightarrow> Some (o_Quantity ord)
                        | Some c \<Rightarrow> pro_rata_quantity S c maxVolume matchedVolume (o_Quantity ord)) (\<lambda>fillQuantity.
        if fillQuantity = 0 then fill_loop S price stop coef maxVolume xs fills matchedVolume
        else Option.bind (Option.bind (dec_of_int S (int fillQuantity) 0) (dec_add S matchedVolume)) (\<lambda>matchedVolume'.
             Option.bind (uint_sub S (o_Quantity ord) fillQuantity) (\<lambda>unfilled.
               fill_loop S price stop coef maxVolume xs
                 (fills @ [\<lparr>f_Order = ord, f_ClearancePrice = price, f_QuantityFilled = fillQuantity,
                            f_QuantityUnfilled = unfilled\<rparr>]) matchedVolume'))))"

definition getBidOrderFills :: "sdk \<Rightarrow> ClearanceState \<Rightarrow> Matcher \<Rightarrow> (OrderFill list \<times> int) option" where
  "getBidOrderFills S cs m =
     fill_loop S (cs_Price cs) (\<lambda>ord. o_Price ord < cs_Price cs)
       (if \<not> dec_one < cs_ProRata cs then Some (cs_ProRata cs) else None) (cs_MaxBidVolume cs) (rev (mt_bid m)) [] 0"

definition getAskOrderFills :: "sdk \<Rightarrow> ClearanceState \<Rightarrow> Matcher \<Rightarrow> (OrderFill list \<times> int) option" where
  "getAskOrderFills S cs m =
     fill_loop S (cs_Price cs) (\<lambda>ord. cs_Price cs < o_Price ord)
       (if dec_one < cs_ProRata cs then Some (cs_ProRataInvert cs) else None) (cs_MaxAskVolume cs) (mt_ask m) [] 0"

text \<open>
  The two goroutines that sort and aggregate touch disjoint fields, so their order does not matter.
\<close>

definition aggregate_bids :: "sdk \<Rightarrow> Matcher \<Rightarrow> Matcher option" where
  "aggregate_bids S m =
     (let bids = sort_Sort Less_PriceAscIDDesc (mt_bid m) in
      map_option (\<lambda>a. m\<lparr>mt_bid := bids, mt_aggBid := a\<rparr>) (NewBidOrderAggregates S bids))"

definition aggregate_asks :: "sdk \<Rightarrow> Matcher \<Rightarrow> Matcher option" where
  "aggregate_asks S m =
     (let asks = sort_Sort Less_PriceAscIDAsc (mt_ask m) in
      map_option (\<lambda>a. m\<lparr>mt_ask := asks, mt_aggAsk := a\<rparr>) (NewAskOrderAggregates S asks))"

definition Match :: "sdk \<Rightarrow> (SDItem list \<Rightarrow> SDItem list) \<Rightarrow> (Matcher, ob_error, MatcherResult) op" where
  "Match S srt m =
     (case Option.bind (aggregate_bids S m) (aggregate_asks S) of
        None \<Rightarrow> (Panic, m)
      | Some m1 \<Rightarrow>
          (case NewSDCurves (mt_aggAsk m1) (mt_aggBid m1) of
             Panic \<Rightarrow> (Panic, m1)
           | Err e \<Rightarrow> (Err e, m1)
           | Ok curves \<Rightarrow>
               let m2 = m1\<lparr>mt_sdCurves := curves\<rparr> in
               (case GetClearanceState S srt curves of
                  Panic \<Rightarrow> (Panic, m2)
                | Err e \<Rightarrow> (Err e, m2)
                | Ok cs \<Rightarrow>
                    (case getBidOrderFills S cs m2 of
                       None \<Rightarrow> (Panic, m2)
                     | Some (bidFills, bidVolume) \<Rightarrow>
                         (case getAskOrderFills S cs m2 of
                            None \<Rightarrow> (Panic, m2)
                          | Some (askFills, askVolume) \<Rightarrow>
                              (Ok \<lparr>mr_MarketID = mt_marketID m2, mr_BidOrdersCount = length (mt_bid m2),
                                   mr_AskOrdersCount = length (mt_ask m2), mr_ClearanceState = cs,
                                   mr_MatchedBidVolume = bidVolume, mr_MatchedAskVolume = askVolume,
                                   mr_OrderFills = bidFills @ askFills\<rparr>, m2))))))"

lemma sort_commute: "Option.bind (aggregate_bids S m) (aggregate_asks S) = Option.bind (aggregate_asks S m) (aggregate_bids S)"
  by (cases "NewBidOrderAggregates S (sort_Sort Less_PriceAscIDDesc (mt_bid m))";
      cases "NewAskOrderAggregates S (sort_Sort Less_PriceAscIDAsc (mt_ask m))")
    (simp_all add: aggregate_bids_def aggregate_asks_def Let_def)

section \<open>The fill loop\<close>

text \<open>What a coefficient asks for of a quantity, rounded up.\<close>

definition need :: "int option \<Rightarrow> nat \<Rightarrow> nat" where
  "need coef q = (case coef of None \<Rightarrow> q | Some c \<Rightarrow> nat ((int q * c + dec_one - 1) div dec_one))"

lemma need_bounds:
  assumes "\<And>c. coef = Some c \<Longrightarrow> 0 < c \<and> c \<le> dec_one" and "0 < q"
  shows "0 < need coef q \<and> need coef q \<le> q"
proof (cases coef)
  case (Some c)
  with assms(1) have c: "0 < c" "c \<le> dec_one" by auto
  have "int q * c \<le> int q * dec_one" using c by (intro mult_left_mono) simp_all
  moreover have "1 \<le> int q * c" using c assms(2) by (simp add: int_one_le_iff_zero_less)
  ultimately have "1 \<le> (int q * c + dec_one - 1) div dec_one" "(int q * c + dec_one - 1) div dec_one \<le> int q"
    by linarith+
  with Some show ?thesis by (simp add: need_def)
qed (use assms in \<open>simp add: need_def\<close>)

lemma need_ge:
  "0 < c \<Longrightarrow> int q * c \<le> int (need (Some c) q) * dec_one"
proof -
  assume "0 < c"
  then have "0 \<le> int q * c" by simp
  then have "0 \<le> (int q * c + dec_one - 1) div dec_one" by (simp add: pos_imp_zdiv_nonneg_iff)
  then show ?thesis by (simp add: need_def)
qed

lemma dec_volume_laws:
  assumes "dec_laws S" and "k < 2 ^ 200"
  shows "dec_of_int S (int k) 0 = Some (int k * dec_one)"
    and "dec_round S (int k * dec_one) = Some (int k)"
    and "within 315 (int k * dec_one) = Some (int k * dec_one)"
proof -
  have k: "int k < 2 ^ 200" using assms(2) by (metis of_nat_less_iff of_nat_numeral of_nat_power)
  show "dec_of_int S (int k) 0 = Some (int k * dec_one)" by (simp add: dec_of_int_law [OF assms(1)])
  show "dec_round S (int k * dec_one) = Some (int k)"
    unfolding dec_round_law [OF assms(1)] chop_exact using k by (simp add: within_Some)
  show "within 315 (int k * dec_one) = Some (int k * dec_one)" using k by (simp add: within_Some)
qed

lemma pro_rata_quantity_spec:
  assumes laws: "dec_laws S" "uint_laws S" and c: "0 < c" "c \<le> dec_one" and q: "0 < q"
    and b: "v + q < 2 ^ 200" and vM: "v \<le> M"
  shows "pro_rata_quantity S c (int M * dec_one) (int v * dec_one) q = Some (min (need (Some c) q) (M - v))"
proof -
  define n where "n = need (Some c) q"
  have n: "0 < n" "n \<le> q" using need_bounds [of "Some c" q] c q by (simp_all add: n_def)
  have qc: "int q * dec_one * c = int q * c * dec_one" by simp
  have "int q * c \<le> int q * dec_one" using c by (intro mult_left_mono) simp_all
  moreover have "int q < 2 ^ 200" using b by (metis add_lessD1 add.commute of_nat_less_iff of_nat_numeral of_nat_power)
  ultimately have qcb: "0 \<le> int q * c" "int q * c < 2 ^ 315" using c by simp_all
  have mul: "dec_mul S (int q * dec_one) c = Some (int q * c)"
    unfolding dec_mul_law [OF laws(1)] qc chop_exact using qcb by (rule within_Some)
  have ceil: "dec_ceil S (int q * c) = int n * dec_one"
    using qcb(1) by (simp add: dec_ceil_law [OF laws(1)] n_def need_def pos_imp_zdiv_nonneg_iff)
  have vn: "v + n < 2 ^ 200" using b n by simp
  have add: "dec_add S (int v * dec_one) (int n * dec_one) = Some (int (v + n) * dec_one)"
    unfolding dec_add_law [OF laws(1)] distrib_right [symmetric] of_nat_add [symmetric] by (rule dec_volume_laws(3) [OF laws(1) vn])
  have cmp: "int M * dec_one < int (v + n) * dec_one \<longleftrightarrow> M < v + n"
    by (simp only: mult_less_cancel_right_pos zero_less_numeral of_nat_less_iff)
  have sub: "dec_sub S (int M * dec_one) (int v * dec_one) = Some (int (M - v) * dec_one)" if "M < v + n"
  proof -
    have "M - v < 2 ^ 200" using that vn by linarith
    note w = dec_volume_laws(3) [OF laws(1) this]
    have "int M * dec_one - int v * dec_one = int (M - v) * dec_one"
      by (simp only: of_nat_diff [OF vM] left_diff_distrib)
    then show ?thesis by (simp only: dec_sub_law [OF laws(1)] w)
  qed
  have big: "uint_of_big S (int k) = Some k" if "k < 2 ^ 200" for k
  proof -
    have "int k < 2 ^ 200" using that by (metis of_nat_less_iff of_nat_numeral of_nat_power)
    then show ?thesis by (simp add: uint_of_big_law [OF laws(2)])
  qed
  have q200: "q < 2 ^ 200" "n < 2 ^ 200" using b vn by simp_all
  have fin: "Option.bind (dec_round S (int k * dec_one)) (uint_of_big S) = Some k" if "k < 2 ^ 200" for k
    using dec_volume_laws(2) [OF laws(1) that] big [OF that] by simp
  show ?thesis
  proof (cases "M < v + n")
    case True
    then have "M - v < 2 ^ 200" "min n (M - v) = M - v" using vn vM by simp_all
    then show ?thesis
      using True by (simp only: pro_rata_quantity_def dec_volume_laws(1) [OF laws(1) q200(1)] mul ceil add cmp sub if_True
          Let_def Option.bind.simps fin n_def [symmetric])
  next
    case False
    then have "min n (M - v) = n" by simp
    then show ?thesis
      using False by (simp only: pro_rata_quantity_def dec_volume_laws(1) [OF laws(1) q200(1)] mul ceil add cmp if_False
          Let_def Option.bind.simps fin [OF q200(2)] n_def [symmetric])
  qed
qed

text \<open>A fill of an order: at the clearance price, not empty and within the quantity.\<close>

definition good_fill :: "nat \<Rightarrow> OrderFill \<Rightarrow> bool" where
  "good_fill price f \<longleftrightarrow>
     f_ClearancePrice f = price \<and> 0 < f_QuantityFilled f \<and>
     f_QuantityFilled f + f_QuantityUnfilled f = o_Quantity (f_Order f)"

definition filled_total :: "OrderFill list \<Rightarrow> nat" where
  "filled_total fs = sum_list (map f_QuantityFilled fs)"

definition need_total :: "int option \<Rightarrow> Order list \<Rightarrow> nat" where
  "need_total coef xs = sum_list (map (\<lambda>x. need coef (o_Quantity x)) xs)"

lemma filled_total_simps [simp]:
  "filled_total [] = 0" "filled_total (f # fs) = f_QuantityFilled f + filled_total fs"
  "filled_total (fs @ gs) = filled_total fs + filled_total gs"
  by (simp_all add: filled_total_def)

lemma fill_loop_spec:
  assumes laws: "dec_laws S" "uint_laws S"
    and coef: "\<And>c. coef = Some c \<Longrightarrow> 0 < c \<and> c \<le> dec_one"
  shows "\<lbrakk>\<forall>x \<in> set xs. 0 < o_Quantity x; v + total_quantity xs < 2 ^ 200; v \<le> M;
      coef = None \<longrightarrow> v + need_total coef (takeWhile (\<lambda>x. \<not> stop x) xs) \<le> M\<rbrakk> \<Longrightarrow>
    \<exists>fs. fill_loop S price stop coef (int M * dec_one) xs fills (int v * dec_one) =
        Some (fills @ fs, int (min M (v + need_total coef (takeWhile (\<lambda>x. \<not> stop x) xs))) * dec_one) \<and>
      (\<forall>f \<in> set fs. good_fill price f) \<and> map f_Order fs = take (length fs) (takeWhile (\<lambda>x. \<not> stop x) xs) \<and>
      v + filled_total fs = min M (v + need_total coef (takeWhile (\<lambda>x. \<not> stop x) xs))"
proof (induction xs arbitrary: v fills)
  case Nil
  then show ?case by (intro exI [of _ "[]"]) (simp add: need_total_def min_absorb2)
next
  case (Cons x xs)
  let ?e = "takeWhile (\<lambda>x. \<not> stop x) xs"
  show ?case
  proof (cases "stop x \<or> v = M")
    case True
    with Cons.prems show ?thesis by (intro exI [of _ "[]"]) (auto simp: need_total_def min_def)
  next
    case False
    define n where "n = need coef (o_Quantity x)"
    have q: "0 < o_Quantity x" using Cons.prems(1) by simp
    have n: "0 < n" "n \<le> o_Quantity x" using need_bounds [OF coef q] by (simp_all add: n_def)
    define k where "k = min n (M - v)"
    have k: "0 < k" "k \<le> o_Quantity x" "k \<le> M - v" using n False Cons.prems(3) by (auto simp: k_def)
    have tot: "v + o_Quantity x + total_quantity xs < 2 ^ 200" using Cons.prems(2) by (simp add: total_quantity_def)
    then have b: "v + o_Quantity x < 2 ^ 200" by simp
    have need: "need_total coef (takeWhile (\<lambda>x. \<not> stop x) (x # xs)) = n + need_total coef ?e"
      using False by (simp add: need_total_def n_def)
    have qty: "(case coef of None \<Rightarrow> Some (o_Quantity x)
        | Some c \<Rightarrow> pro_rata_quantity S c (int M * dec_one) (int v * dec_one) (o_Quantity x)) = Some k"
    proof (cases coef)
      case None
      then have "n \<le> M - v" using Cons.prems(4) need by simp
      then show ?thesis using None by (simp add: k_def n_def need_def)
    next
      case (Some c)
      then show ?thesis
        using pro_rata_quantity_spec [OF laws _ _ q b Cons.prems(3), of c] coef by (simp add: k_def n_def)
    qed
    have k200: "k < 2 ^ 200" "v + k < 2 ^ 200" using b k by simp_all
    have add: "Option.bind (dec_of_int S (int k) 0) (dec_add S (int v * dec_one)) = Some (int (v + k) * dec_one)"
      using dec_volume_laws(1) [OF laws(1) k200(1)] dec_volume_laws(3) [OF laws(1) k200(2)]
      by (simp add: dec_add_law [OF laws(1)] algebra_simps)
    have sub: "uint_sub S (o_Quantity x) k = Some (o_Quantity x - k)" using uint_sub_Some [OF laws(2) k(2)] .
    let ?f = "\<lparr>f_Order = x, f_ClearancePrice = price, f_QuantityFilled = k, f_QuantityUnfilled = o_Quantity x - k\<rparr>"
    have ne: "int v * dec_one \<noteq> int M * dec_one" using False by simp
    have step: "fill_loop S price stop coef (int M * dec_one) (x # xs) fills (int v * dec_one) =
        fill_loop S price stop coef (int M * dec_one) xs (fills @ [?f]) (int (v + k) * dec_one)"
      using False ne k(1) by (simp only: fill_loop.simps qty add sub Option.bind.simps) simp
    have p2: "v + k + total_quantity xs < 2 ^ 200" using tot k by simp
    have p3: "v + k \<le> M" using k Cons.prems(3) by simp
    have p4: "coef = None \<longrightarrow> v + k + need_total coef ?e \<le> M" using Cons.prems(4) need by (auto simp: k_def)
    have mineq: "min M (v + k + need_total coef ?e) = min M (v + (n + need_total coef ?e))"
      using Cons.prems(3) by (auto simp: k_def min_def)
    from Cons.IH [OF _ p2 p3 p4, of "fills @ [?f]"] Cons.prems(1) obtain fs where
      fs: "fill_loop S price stop coef (int M * dec_one) xs (fills @ [?f]) (int (v + k) * dec_one) =
          Some ((fills @ [?f]) @ fs, int (min M (v + (n + need_total coef ?e))) * dec_one)"
        "\<forall>f \<in> set fs. good_fill price f" "map f_Order fs = take (length fs) ?e"
        "v + k + filled_total fs = min M (v + (n + need_total coef ?e))"
      unfolding mineq by auto
    show ?thesis
      unfolding need using False step fs k by (intro exI [of _ "?f # fs"]) (simp add: good_fill_def)
  qed
qed

section \<open>Conservation of the matched volume\<close>

lemma need_total_None: "need_total None xs = total_quantity xs"
  by (simp add: need_total_def total_quantity_def need_def)

lemma need_total_ge:
  assumes "0 < c" and "chop (int (total_quantity xs) * c) = int t"
  shows "t \<le> need_total (Some c) xs"
proof -
  have "int (total_quantity xs) * c \<le> int (need_total (Some c) xs) * dec_one"
  proof (induction xs)
    case (Cons x xs)
    then show ?case
      using need_ge [OF assms(1), of "o_Quantity x"] by (simp add: need_total_def total_quantity_def distrib_right)
  qed (simp add: need_total_def total_quantity_def)
  moreover have "2 * (int t * dec_one) \<le> 2 * (int (total_quantity xs) * c) + dec_one"
    using chop_bounds [of "int (total_quantity xs) * c"] assms by simp
  ultimately show ?thesis by linarith
qed

lemma takeWhile_asks: "sorted (map o_Price xs) \<Longrightarrow> takeWhile (\<lambda>x. \<not> p < o_Price x) xs = filter (\<lambda>x. o_Price x \<le> p) xs"
  by (induction xs) (auto simp: not_less filter_empty_conv eq_commute [of "[]"])

lemma takeWhile_bids:
  "sorted (map o_Price xs) \<Longrightarrow> takeWhile (\<lambda>x. \<not> o_Price x < p) (rev xs) = rev (filter (\<lambda>x. p \<le> o_Price x) xs)"
proof (induction xs rule: rev_induct)
  case (snoc x xs)
  show ?case
  proof (cases "o_Price x < p")
    case True
    then have "filter (\<lambda>x. p \<le> o_Price x) xs = []" using snoc.prems by (auto simp: sorted_append filter_empty_conv)
    with True show ?thesis by simp
  next
    case False
    with snoc show ?thesis by (simp add: sorted_append)
  qed
qed simp

lemma total_filter:
  "total_quantity (filter (\<lambda>x. o_Price x \<le> p) xs) = supply_at xs p"
  "total_quantity (rev (filter (\<lambda>x. p \<le> o_Price x) xs)) = demand_at xs p"
  by (simp_all add: total_quantity_def supply_at_def demand_at_def rev_map [symmetric])

text \<open>The two sides of a clearance state, as the fill loops use them.\<close>

lemma clearance_sides:
  fixes s d :: nat
  assumes s: "0 < s" "int s < exact_limit" and d: "0 < d" "int d < exact_limit"
  defines "r \<equiv> pro_rata (int s) (int d)"
  defines "bc \<equiv> (if \<not> dec_one < r then Some r else None)" and "ac \<equiv> (if dec_one < r then Some (pro_rata_inv r) else None)"
    and "M \<equiv> nat (chop (int s * pro_rata_inv r))"
  shows "\<And>c. bc = Some c \<Longrightarrow> 0 < c \<and> c \<le> dec_one" and "\<And>c. ac = Some c \<Longrightarrow> 0 < c \<and> c \<le> dec_one"
    and "total_quantity xs = d \<Longrightarrow> min s (need_total bc xs) = min s d"
    and "total_quantity ys = s \<Longrightarrow> min M (need_total ac ys) = min s d"
    and "bc = None \<Longrightarrow> d \<le> s" and "ac = None \<Longrightarrow> s \<le> M"
    and "chop (int s * pro_rata_inv r) = int M"
proof -
  have r0: "0 < r" using pro_rata_pos [of "int s" "int d"] s d by (simp add: r_def)
  have gt: "dec_one < r \<longleftrightarrow> d < s" using pro_rata_gt_one_iff [of "int s" "int d"] s d by (simp add: r_def)
  note inv = pro_rata_inv_bounds [OF r0]
  have vol: "chop (int d * r) = int s" using pro_rata_volume [of "int s" "int d"] s d by (simp add: r_def)
  have inv_vol: "chop (int s * pro_rata_inv r) = int d" if "d < s"
    using pro_rata_inv_volume [of "int s" "int d"] s d gt that by (simp add: r_def)
  have M0: "0 \<le> chop (int s * pro_rata_inv r)" using inv(3) by (simp add: chop_nonneg)
  then show M: "chop (int s * pro_rata_inv r) = int M" by (simp add: M_def)
  have inv_le: "pro_rata_inv r \<le> dec_one" if "dec_one < r"
  proof -
    have "dec_one * dec_one * dec_one div r \<le> dec_one * dec_one * dec_one div dec_one"
      using that by (intro zdiv_mono2) simp_all
    then show ?thesis
      unfolding pro_rata_inv_def using r0 by (intro chop_le) (simp_all add: pos_imp_zdiv_nonneg_iff)
  qed
  have inv_pos: "0 < pro_rata_inv r" if "dec_one < r"
  proof -
    have "pro_rata_inv r \<noteq> 0" using inv_vol gt that d by (cases "pro_rata_inv r = 0") (simp_all add: chop_def chop_pos_def)
    with inv(3) show ?thesis by simp
  qed
  have ge: "s \<le> M" if "\<not> dec_one < r"
  proof -
    have "int s * dec_one \<le> int s * pro_rata_inv r"
      using pro_rata_inv_ge_one [OF r0] that by (intro mult_left_mono) simp_all
    then have "int s \<le> chop (int s * pro_rata_inv r)" by (intro chop_ge) simp_all
    with M show ?thesis by simp
  qed
  show "\<And>c. bc = Some c \<Longrightarrow> 0 < c \<and> c \<le> dec_one" using r0 by (auto simp: bc_def split: if_splits)
  show "\<And>c. ac = Some c \<Longrightarrow> 0 < c \<and> c \<le> dec_one" using inv_pos inv_le by (auto simp: ac_def split: if_splits)
  show "bc = None \<Longrightarrow> d \<le> s" using gt by (auto simp: bc_def split: if_splits)
  show "ac = None \<Longrightarrow> s \<le> M" using ge by (auto simp: ac_def split: if_splits)
  show "min s (need_total bc xs) = min s d" if xs: "total_quantity xs = d"
  proof (cases "dec_one < r")
    case False
    with need_total_ge [OF r0, of xs s] vol xs gt show ?thesis by (simp add: bc_def)
  qed (simp add: bc_def need_total_None xs)
  show "min M (need_total ac ys) = min s d" if ys: "total_quantity ys = s"
  proof (cases "dec_one < r")
    case True
    then have "M = d" using inv_vol M gt by simp
    with True need_total_ge [OF inv_pos, of ys d] inv_vol ys gt show ?thesis by (simp add: ac_def)
  next
    case False
    with ge gt show ?thesis by (simp add: ac_def need_total_None ys)
  qed
qed

text \<open>What a match of a market must be: the specification of the batch auction.\<close>

definition fills_of :: "Order list \<Rightarrow> (Order \<Rightarrow> bool) \<Rightarrow> nat \<Rightarrow> OrderFill list \<Rightarrow> bool" where
  "fills_of xs in_limit price fs \<longleftrightarrow>
     (\<forall>f \<in> set fs. good_fill price f \<and> in_limit (f_Order f)) \<and> mset (map f_Order fs) \<subseteq># mset xs"

definition match_spec :: "Order list \<Rightarrow> Order list \<Rightarrow> MatcherResult \<Rightarrow> bool" where
  "match_spec bids asks r \<longleftrightarrow>
     (let price = cs_Price (mr_ClearanceState r);
          volume = min (supply_at asks price) (demand_at bids price) in
      0 < price \<and> 0 < volume \<and>
      (\<exists>bf af. mr_OrderFills r = bf @ af \<and>
         fills_of bids (\<lambda>x. price \<le> o_Price x) price bf \<and> fills_of asks (\<lambda>x. o_Price x \<le> price) price af \<and>
         filled_total bf = volume \<and> filled_total af = volume) \<and>
      mr_MatchedBidVolume r = int volume * dec_one \<and> mr_MatchedAskVolume r = int volume * dec_one)"

lemma fills_of_take:
  assumes "\<forall>f \<in> set fs. good_fill price f" and "map f_Order fs = take n ys" and "mset ys \<subseteq># mset xs"
    and "\<forall>y \<in> set ys. in_limit y"
  shows "fills_of xs in_limit price fs"
proof -
  have "mset (map f_Order fs) \<subseteq># mset ys" unfolding assms(2)
    by (metis append_take_drop_id mset_append mset_subset_eq_add_left)
  then have "mset (map f_Order fs) \<subseteq># mset xs" using assms(3) by (rule subset_mset.order_trans)
  moreover have "in_limit (f_Order f)" if "f \<in> set fs" for f
  proof -
    have "f_Order f \<in> set (take n ys)" using that by (metis assms(2) image_eqI set_map)
    then show ?thesis using assms(4) by (meson in_set_takeD)
  qed
  ultimately show ?thesis using assms(1) by (simp add: fills_of_def)
qed

lemma mset_filter_sub: "mset (filter P xs) \<subseteq># mset xs"
  by (simp add: mset_filter)

lemma bid_fills_spec:
  assumes laws: "dec_laws S" "uint_laws S" and bids: "sorted (map o_Price bids)" "\<forall>x \<in> set bids. 0 < o_Quantity x"
      "int (total_quantity bids) < exact_limit" and coef: "\<And>c. coef = Some c \<Longrightarrow> 0 < c \<and> c \<le> dec_one"
    and M: "coef = None \<longrightarrow> demand_at bids p \<le> M"
    and t: "min M (need_total coef (rev (filter (\<lambda>x. p \<le> o_Price x) bids))) = t"
  shows "\<exists>fs. fill_loop S p (\<lambda>x. o_Price x < p) coef (int M * dec_one) (rev bids) [] 0 = Some (fs, int t * dec_one) \<and>
    fills_of bids (\<lambda>x. p \<le> o_Price x) p fs \<and> filled_total fs = t"
proof -
  let ?e = "rev (filter (\<lambda>x. p \<le> o_Price x) bids)"
  have tq: "total_quantity (rev bids) = total_quantity bids" by (rule total_mset) simp
  have b: "0 + total_quantity (rev bids) < 2 ^ 200" using bids(3) tq by simp
  have p4: "coef = None \<longrightarrow> 0 + need_total coef (takeWhile (\<lambda>x. \<not> o_Price x < p) (rev bids)) \<le> M"
    using M by (auto simp: takeWhile_bids [OF bids(1)] need_total_None total_filter)
  from fill_loop_spec [where coef = coef and stop = "\<lambda>x. o_Price x < p", OF laws coef _ b _ p4, of p "[]"] bids(2)
  obtain fs where fs: "fill_loop S p (\<lambda>x. o_Price x < p) coef (int M * dec_one) (rev bids) [] 0 = Some (fs, int t * dec_one)"
    "\<forall>f \<in> set fs. good_fill p f" "map f_Order fs = take (length fs) ?e" "filled_total fs = t"
    by (auto simp: takeWhile_bids [OF bids(1)] t)
  have "fills_of bids (\<lambda>x. p \<le> o_Price x) p fs"
    by (rule fills_of_take [OF fs(2,3)]) (use mset_filter_sub [of _ bids] in auto)
  with fs show ?thesis by blast
qed

lemma ask_fills_spec:
  assumes laws: "dec_laws S" "uint_laws S" and asks: "sorted (map o_Price asks)" "\<forall>x \<in> set asks. 0 < o_Quantity x"
      "int (total_quantity asks) < exact_limit" and coef: "\<And>c. coef = Some c \<Longrightarrow> 0 < c \<and> c \<le> dec_one"
    and M: "coef = None \<longrightarrow> supply_at asks p \<le> M"
    and t: "min M (need_total coef (filter (\<lambda>x. o_Price x \<le> p) asks)) = t"
  shows "\<exists>fs. fill_loop S p (\<lambda>x. p < o_Price x) coef (int M * dec_one) asks [] 0 = Some (fs, int t * dec_one) \<and>
    fills_of asks (\<lambda>x. o_Price x \<le> p) p fs \<and> filled_total fs = t"
proof -
  let ?e = "filter (\<lambda>x. o_Price x \<le> p) asks"
  have b: "0 + total_quantity asks < 2 ^ 200" using asks(3) by simp
  have p4: "coef = None \<longrightarrow> 0 + need_total coef (takeWhile (\<lambda>x. \<not> p < o_Price x) asks) \<le> M"
    using M by (auto simp: takeWhile_asks [OF asks(1)] need_total_None total_filter)
  from fill_loop_spec [where coef = coef and stop = "\<lambda>x. p < o_Price x", OF laws coef _ b _ p4, of p "[]"] asks(2)
  obtain fs where fs: "fill_loop S p (\<lambda>x. p < o_Price x) coef (int M * dec_one) asks [] 0 = Some (fs, int t * dec_one)"
    "\<forall>f \<in> set fs. good_fill p f" "map f_Order fs = take (length fs) ?e" "filled_total fs = t"
    by (auto simp: takeWhile_asks [OF asks(1)] t)
  have "fills_of asks (\<lambda>x. o_Price x \<le> p) p fs"
    by (rule fills_of_take [OF fs(2,3)]) (use mset_filter_sub [of _ asks] in auto)
  with fs show ?thesis by blast
qed

lemma tradable_cong: "\<lbrakk>set asks = set asks'; set bids = set bids'\<rbrakk> \<Longrightarrow> tradable asks bids \<longleftrightarrow> tradable asks' bids'"
  by (simp add: tradable_def)

lemma match_spec_cong:
  assumes "mset bids = mset bids'" and "mset asks = mset asks'"
  shows "match_spec bids asks r \<longleftrightarrow> match_spec bids' asks' r"
  by (simp add: match_spec_def fills_of_def supply_mset [OF assms(2)] demand_mset [OF assms(1)] assms)

lemma aggregate_spec:
  fixes m :: Matcher
  assumes laws: "uint_laws S" and t: "total_quantity (mt_bid m) < 2 ^ 256" "total_quantity (mt_ask m) < 2 ^ 256"
  defines "bids \<equiv> sort_Sort Less_PriceAscIDDesc (mt_bid m)" and "asks \<equiv> sort_Sort Less_PriceAscIDAsc (mt_ask m)"
  shows "Option.bind (aggregate_bids S m) (aggregate_asks S) =
    Some (m\<lparr>mt_bid := bids, mt_aggBid := map (agg_of (demand_at bids)) (prices bids),
            mt_ask := asks, mt_aggAsk := map (agg_of (supply_at asks)) (prices asks)\<rparr>)"
proof -
  have "total_quantity bids < 2 ^ 256" "total_quantity asks < 2 ^ 256"
    using t total_mset [of bids "mt_bid m"] total_mset [of asks "mt_ask m"] by (simp_all add: bids_def asks_def)
  then have "NewBidOrderAggregates S bids = Some (map (agg_of (demand_at bids)) (prices bids))"
      "NewAskOrderAggregates S asks = Some (map (agg_of (supply_at asks)) (prices asks))"
    using NewBidOrderAggregates_spec [OF laws, of bids] NewAskOrderAggregates_spec [OF laws, of asks]
    by (simp_all add: bids_def asks_def sort_bids_sorted sort_asks_sorted)
  then show ?thesis
    by (simp add: aggregate_bids_def aggregate_asks_def Let_def bids_def [symmetric] asks_def [symmetric])
qed

text \<open>A market without crossing orders is not matched, and nothing panics.\<close>

lemma Match_no_cross:
  assumes laws: "uint_laws S" and t: "total_quantity (mt_bid m) < 2 ^ 256" "total_quantity (mt_ask m) < 2 ^ 256"
    and q: "\<forall>x \<in> set (mt_bid m) \<union> set (mt_ask m). 0 < o_Quantity x"
    and none: "\<forall>a \<in> set (mt_ask m). \<forall>b \<in> set (mt_bid m). o_Price b < o_Price a"
  shows "\<exists>m'. Match S srt m = (Err (if mt_ask m = [] \<or> mt_bid m = [] then ObErrEmptyOrders else ObErrNoCross), m')"
proof -
  let ?b = "sort_Sort Less_PriceAscIDDesc (mt_bid m)" and ?a = "sort_Sort Less_PriceAscIDAsc (mt_ask m)"
  have nil: "?b = [] \<longleftrightarrow> mt_bid m = []" "?a = [] \<longleftrightarrow> mt_ask m = []"
    by (metis mset_sort_orders mset_zero_iff)+
  have "NewSDCurves (map (agg_of (supply_at ?a)) (prices ?a)) (map (agg_of (demand_at ?b)) (prices ?b)) =
      Err (if mt_ask m = [] \<or> mt_bid m = [] then ObErrEmptyOrders else ObErrNoCross)"
    using NewSDCurves_spec [of ?a ?b] q none by (auto simp: nil)
  then show ?thesis unfolding Match_def aggregate_spec [OF laws t] by simp
qed

text \<open>A market with crossing orders and small quantities is matched as specified.\<close>

lemma Match_ok:
  assumes laws: "dec_laws S" "uint_laws S" and srt: "sorts_by_diff srt"
    and tr: "tradable (mt_ask m) (mt_bid m)"
    and tb: "int (total_quantity (mt_bid m)) < exact_limit" and ta: "int (total_quantity (mt_ask m)) < exact_limit"
  shows "\<exists>r m'. Match S srt m = (Ok r, m') \<and> match_spec (mt_bid m) (mt_ask m) r \<and> mr_MarketID r = mt_marketID m"
proof -
  define bids asks where "bids = sort_Sort Less_PriceAscIDDesc (mt_bid m)" and "asks = sort_Sort Less_PriceAscIDAsc (mt_ask m)"
  have ms: "mset bids = mset (mt_bid m)" "mset asks = mset (mt_ask m)" by (simp_all add: bids_def asks_def)
  have tr': "tradable asks bids" using tr by (simp add: tradable_def bids_def asks_def)
  note pos = tradable_pos [OF tr']
  have srtd: "sorted (map o_Price bids)" "sorted (map o_Price asks)"
    by (simp_all add: bids_def asks_def sort_bids_sorted sort_asks_sorted)
  have tot: "int (total_quantity bids) < exact_limit" "int (total_quantity asks) < exact_limit"
    using tb ta total_mset [OF ms(1)] total_mset [OF ms(2)] by simp_all
  have agg: "Option.bind (aggregate_bids S m) (aggregate_asks S) =
      Some (m\<lparr>mt_bid := bids, mt_aggBid := map (agg_of (demand_at bids)) (prices bids),
              mt_ask := asks, mt_aggAsk := map (agg_of (supply_at asks)) (prices asks)\<rparr>)"
    unfolding bids_def asks_def using tb ta by (intro aggregate_spec [OF laws(2)]) simp_all
  have sd: "NewSDCurves (map (agg_of (supply_at asks)) (prices asks)) (map (agg_of (demand_at bids)) (prices bids)) =
      Ok (curve asks bids)"
  proof -
    from tr' obtain a b where "a \<in> set asks" "b \<in> set bids" "o_Price a \<le> o_Price b" by (auto simp: tradable_def)
    then have "\<not> (asks = [] \<or> bids = [])" "\<not> (\<forall>a \<in> set asks. \<forall>b \<in> set bids. o_Price b < o_Price a)"
      by (auto simp: not_less)
    then show ?thesis unfolding NewSDCurves_spec [OF pos] by (simp only: if_False)
  qed
  obtain p s d where cst: "GetClearanceState S srt (curve asks bids) = Ok (clearance_of p s d)" and p: "0 < p"
    and row: "s = supply_at asks p" "d = demand_at bids p"
    and s: "0 < s" "int s < exact_limit" and d: "0 < d" "int d < exact_limit"
    by (rule GetClearanceState_spec [OF laws srt tr' tot])
  define r where "r = pro_rata (int s) (int d)"
  define M where "M = nat (chop (int s * pro_rata_inv r))"
  note sides = clearance_sides [OF s d, folded r_def, folded M_def]
  define t where "t = min s d"
  let ?bc = "if \<not> dec_one < r then Some r else None" and ?ac = "if dec_one < r then Some (pro_rata_inv r) else None"
  have bN: "?bc = None \<longrightarrow> demand_at bids p \<le> s" and aN: "?ac = None \<longrightarrow> supply_at asks p \<le> M"
    unfolding row [symmetric] using sides(5,6) by blast+
  have bT: "min s (need_total ?bc (rev (filter (\<lambda>x. p \<le> o_Price x) bids))) = t"
    unfolding t_def by (rule sides(3)) (simp only: total_filter row)
  have aT: "min M (need_total ?ac (filter (\<lambda>x. o_Price x \<le> p) asks)) = t"
    unfolding t_def by (rule sides(4)) (simp only: total_filter row)
  from bid_fills_spec [where coef = ?bc, OF laws srtd(1) pos(2) tot(1) sides(1) bN bT]
  obtain bf where bf: "fill_loop S p (\<lambda>x. o_Price x < p) ?bc (int s * dec_one) (rev bids) [] 0 = Some (bf, int t * dec_one)"
    "fills_of bids (\<lambda>x. p \<le> o_Price x) p bf" "filled_total bf = t" by blast
  from ask_fills_spec [where coef = ?ac, OF laws srtd(2) pos(1) tot(2) sides(2) aN aT]
  obtain af where af: "fill_loop S p (\<lambda>x. p < o_Price x) ?ac (int M * dec_one) asks [] 0 = Some (af, int t * dec_one)"
    "fills_of asks (\<lambda>x. o_Price x \<le> p) p af" "filled_total af = t" by blast
  define res where "res = \<lparr>mr_MarketID = mt_marketID m, mr_BidOrdersCount = length bids, mr_AskOrdersCount = length asks,
     mr_ClearanceState = clearance_of p s d, mr_MatchedBidVolume = int t * dec_one, mr_MatchedAskVolume = int t * dec_one, mr_OrderFills = bf @ af\<rparr>"
  have sel: "cs_Price (clearance_of p s d) = p" "cs_ProRata (clearance_of p s d) = r"
    "cs_ProRataInvert (clearance_of p s d) = pro_rata_inv r" "cs_MaxBidVolume (clearance_of p s d) = int s * dec_one"
    "cs_MaxAskVolume (clearance_of p s d) = int M * dec_one"
    by (simp_all add: clearance_of_def Let_def r_def sides(7) [symmetric])
  have gb: "getBidOrderFills S (clearance_of p s d) m' = Some (bf, int t * dec_one)" if "mt_bid m' = bids" for m'
    unfolding getBidOrderFills_def sel that by (rule bf(1))
  have ga: "getAskOrderFills S (clearance_of p s d) m' = Some (af, int t * dec_one)" if "mt_ask m' = asks" for m'
    unfolding getAskOrderFills_def sel that by (rule af(1))
  have "fst (Match S srt m) = Ok res"
    unfolding Match_def agg by (simp add: sd cst gb ga Let_def res_def)
  moreover have "match_spec bids asks res"
    unfolding match_spec_def using bf af s d p
    by (simp add: res_def sel(1) row [symmetric] t_def Let_def) blast
  ultimately show ?thesis using match_spec_cong [OF ms] by (metis prod.collapse MatcherResult.select_convs(1) res_def)
qed

end
