(* ===== verification/Orders_Props.thy ===== *)
theory Orders_Props
  imports Orders
begin

text \<open>
  The properties of the orders module: the module account always covers the locked coins, revoking
  gives back exactly what was locked, only the owner cancels, the end of a block removes exactly the
  expired orders that can be unlocked; and three behaviours of the code that differ from its documentation
  (time-to-live overflow, genesis export after a revoked order, fills that are not taken from the module account).
\<close>

section \<open>Revoking\<close>

lemma lock_amount_le_total:
  "\<lbrakk>sdk_laws S; x \<in> set (Orders_GetList s)\<rbrakk> \<Longrightarrow> lock_amount S d x \<le> lock_total S d s"
  unfolding lock_total_def by (rule member_le_sum) (auto intro: lock_amount_nonneg simp: sdk_laws_def)

lemma RevokeOrder_succeeds:
  assumes laws: "sdk_laws S" "bank_laws B" and ok: "ord_ok S B s"
    and x: "x \<in> set (Orders_GetList s)" and c: "LockCoin S x = Ok c"
  shows "RevokeOrder S B (o_ID x) s =
    (Ok (), s\<lparr>os_bank := credit (o_Owner x) c (debit (module_address B orders_module) c (os_bank s)),
              os_orders := kv_del (okey (o_ID x)) (os_orders s)\<rparr>)"
proof -
  have c0: "0 \<le> snd c" using LockCoin_nonneg [OF sdk_lawsD(2,1) c] laws by blast
  have "snd c \<le> lock_total S (fst c) s"
    using lock_amount_le_total [OF laws(1) x, of "fst c"] lock_amount_coin [OF c] by simp
  also have "\<dots> \<le> os_bank s (module_address B orders_module) (fst c)"
    using ok by (simp add: ord_ok_def solvent_def)
  finally have "move (module_address B orders_module) (o_Owner x) c (os_bank s) =
      Some (credit (o_Owner x) c (debit (module_address B orders_module) c (os_bank s)))"
    by (simp add: move_def)
  with RevokeOrder_eq [of s x S c B] ok x c send_from_module_law [OF laws(2) c0] show ?thesis
    by (simp add: ord_ok_def)
qed

lemma end_block_loop_effect:
  assumes laws: "sdk_laws S" "bank_laws B"
  shows "\<lbrakk>ord_ok S B s; set xs \<subseteq> set (Orders_GetList s); distinct (map o_ID xs)\<rbrakk> \<Longrightarrow>
    \<exists>s'. end_block_loop S B now xs s = (Ok (), s') \<and>
      set (Orders_GetList s') =
        set (Orders_GetList s) - {x \<in> set xs. ttl_expired now x \<and> (\<exists>c. LockCoin S x = Ok c)}"
proof (induction xs arbitrary: s)
  case (Cons x xs)
  have x: "x \<in> set (Orders_GetList s)" using Cons.prems by simp
  have inv: "ord_inv s" using Cons.prems(1) by (simp add: ord_ok_def)
  show ?case
  proof (cases "ttl_expired now x \<and> (\<exists>c. LockCoin S x = Ok c)")
    case True
    then obtain c where e: "ttl_expired now x" and c: "LockCoin S x = Ok c" by blast
    obtain s1 where r: "RevokeOrder S B (o_ID x) s = (Ok (), s1)"
      using RevokeOrder_succeeds [OF laws Cons.prems(1) x c] by blast
    note ok1 = RevokeOrder_ok [OF laws Cons.prems(1) r]
    have list1: "set (Orders_GetList s1) = set (Orders_GetList s) - {x}"
      using ok1(2) ord_inv_unique [OF inv _ x] by auto
    have "x \<notin> set xs" using Cons.prems(3) by auto
    then have "set xs \<subseteq> set (Orders_GetList s1)" using Cons.prems(2) list1 by auto
    from Cons.IH [OF ok1(1) this] Cons.prems(3) e c r list1 show ?thesis by auto
  next
    case False
    have np: "LockCoin S x \<noteq> Panic" using Cons.prems(1) x by (simp add: ord_ok_def)
    have "end_block_loop S B now (x # xs) s = end_block_loop S B now xs s"
    proof (cases "ttl_expired now x")
      case True
      with False np obtain e where "LockCoin S x = Err e" by (cases "LockCoin S x") auto
      with RevokeOrder_Err [OF inv x] True show ?thesis by simp
    qed simp
    with Cons.IH [OF Cons.prems(1)] Cons.prems False show ?thesis by auto
  qed
qed simp

section \<open>Fills and genesis\<close>

lemma credit_other: "a \<noteq> b \<Longrightarrow> credit a c l b d = l b d"
  by (simp add: credit_def)

lemma close_fill_bank: "close_fill t f s = (r, s') \<Longrightarrow> os_bank s' = os_bank s"
  by (auto simp: close_fill_def Orders_del_def Orders_set_def split: if_splits option.splits)

lemma refund_fill_bank:
  assumes laws: "sdk_laws S" "bank_laws B" and r: "refund_fill S B t f s = (Ok (), s')"
    and m: "o_Owner (f_Order f) \<noteq> m"
  shows "os_bank s' m d = os_bank s m d \<and> os_bank s a d \<le> os_bank s' a d"
proof (cases "\<exists>c. RefundCoin S f = Ok (True, Some c)")
  case True
  then obtain c where c: "RefundCoin S f = Ok (True, Some c)" by blast
  have c0: "0 \<le> snd c" using RefundCoin_nonneg [OF sdk_lawsD(2,1) c] laws by blast
  from r c have "os_bank s' = credit (o_Owner (f_Order f)) c (os_bank s)"
    by (auto simp: refund_fill_def add_coins_law [OF laws(2) c0] dest: close_fill_bank)
  then show ?thesis using credit_ge [OF c0] credit_other [OF m] by simp
next
  case False
  with r have "os_bank s' = os_bank s"
    by (auto simp: refund_fill_def dest: close_fill_bank split: res.splits bool.splits option.splits)
  then show ?thesis by simp
qed

lemma execute_fill_bank:
  assumes laws: "sdk_laws S" "bank_laws B" and r: "execute_fill S B t f s = (Ok (), s')"
    and m: "o_Owner (f_Order f) \<noteq> m"
  shows "os_bank s' m d = os_bank s m d \<and> os_bank s a d \<le> os_bank s' a d"
proof (cases "FillCoin S f")
  case (Ok c)
  have c0: "0 \<le> snd c" using FillCoin_nonneg [OF sdk_lawsD(2,1) Ok] laws by blast
  from r Ok have rf: "refund_fill S B t f (s\<lparr>os_bank := credit (o_Owner (f_Order f)) c (os_bank s)\<rparr>) = (Ok (), s')"
    by (simp add: execute_fill_def add_coins_law [OF laws(2) c0])
  note b = refund_fill_bank [OF laws rf m, of d a]
  have "os_bank s a d \<le> credit (o_Owner (f_Order f)) c (os_bank s) a d" by (rule credit_ge [OF c0])
  moreover have "credit (o_Owner (f_Order f)) c (os_bank s) m d = os_bank s m d" by (rule credit_other [OF m])
  ultimately show ?thesis using b by simp
qed (use r in \<open>auto simp: execute_fill_def\<close>)

lemma ord_validate_loop_max:
  "ord_validate_loop S now t mx seen xs = Ok m \<Longrightarrow> m = mx \<or> m \<in> o_ID ` set xs"
  by (induction xs arbitrary: mx seen) (auto simp: bind_res_Ok_iff split: if_splits)

section \<open>Properties\<close>

text \<open>
  C4. In every reachable state and for every denomination, the balance of the orders module account
  is at least the sum of the coins locked by the active orders, so no order can drain what another one locked.
\<close>

theorem orders_solvent:
  assumes "ord_reach S B s" and "sdk_laws S" and "bank_laws B"
  shows "lock_total S d s \<le> os_bank s (module_address B orders_module) d"
  using ord_reach_ok [OF assms] by (simp add: ord_ok_def solvent_def)

definition ex_ledger :: ledger where
  "ex_ledger = (\<lambda>a d. if a = ''alice'' then 10000 else 0)"

definition ex_ord0 :: ord_state where
  "ex_ord0 = \<lparr>os_orders = [], os_lastID = None, os_bank = ex_ledger\<rparr>"

definition ex_order :: Order where
  "ex_order = NewOrder 5 0 ''alice'' ex_market Ask 9000000000 400 60"

definition ex_ord1 :: ord_state where
  "ex_ord1 = \<lparr>os_orders = [(okey 0, ex_order)], os_lastID = Some 0,
     os_bank = credit (''#orders'') (''btc'', 400) (debit ''alice'' (''btc'', 400) ex_ledger)\<rparr>"

lemma ex_ext: "GetExtended ex_ccs2 ex_mkt 0 = Ok ex_market"
  by (simp add: GetExtended_def Markets_Get_def ex_mkt_def kv_get_def ex_btc_usdt_def NewMarket_def
      GetCurrency_def HasCurrency_def kv_has_def ex_ccs2_def NewMarketExtended_def ex_market_def)

lemma ex_filter:
  "Markets_GetListFiltered ex_mkt ((NewMarketsFilter 1 1)\<lparr>mr_AssetCode := ''btc_usdt''\<rparr>) = Ok [ex_btc_usdt]"
  unfolding Markets_GetListFiltered_def NewMarketsFilter_def
  by (subst paginate_list_page)
    (simp_all add: iterateMarkets_def kv_vals_def ex_mkt_def market_matches_def GetAssetCode_def ex_btc_usdt_def NewMarket_def)

lemma ex_ref_denom [simp]: "ref_denom ''btc''" "ref_denom ''usdt''"
  by (simp_all add: ref_denom_def ref_denom_char_def)

lemma ex_lock: "LockCoin ref_sdk ex_order = Ok (''btc'', 400)"
  by (simp add: LockCoin_def ex_order_def NewOrder_def Ask_def Bid_def quantity_coin_def ref_sdk_def within_def
      BaseDenom_def ex_market_def)

lemma ex_vpq: "ValidatePriceQuantity ref_sdk ex_order = Ok ()"
  by (simp add: ValidatePriceQuantity_def ex_order_def NewOrder_def ref_sdk_def MinDecimal_def UintToDec_def ex_market_def)

lemma ex_post:
  "PostOrder ref_sdk ref_bank ex_ccs2 ex_mkt 5 ''alice'' ''btc_usdt'' Ask 9000000000 400 60 ex_ord0 = (Ok ex_order, ex_ord1)"
proof -
  have n: "Orders_nextID ref_sdk ex_ord0 = Some 0" by (simp add: Orders_nextID_def ex_ord0_def incr_id_def)
  have l: "LockOrderCoins ref_sdk ref_bank ex_order ex_ord0 = (Ok (), ex_ord0\<lparr>os_bank := os_bank ex_ord1\<rparr>)"
    unfolding LockOrderCoins_def ex_lock
    by (simp add: ref_bank_def move_def ex_order_def NewOrder_def ex_ord0_def ex_ord1_def ex_ledger_def)
  have m: "m_ID ex_btc_usdt = 0" by (simp add: ex_btc_usdt_def NewMarket_def)
  show ?thesis
    unfolding PostOrder_def ex_filter
    by (simp add: m ex_ext n ex_order_def [symmetric] ex_vpq l)
      (simp add: Orders_set_def GetOrderKey_eq ex_order_def NewOrder_def Orders_setID_def ex_ord0_def ex_ord1_def)
qed

lemma ex_ord0_reach: "ord_reach ref_sdk ref_bank ex_ord0"
  unfolding ex_ord0_def by (rule ord_start) (simp add: ex_ledger_def ref_bank_def)

lemma ex_ord1_reach: "ord_reach ref_sdk ref_bank ex_ord1"
  by (rule ord_post [OF ex_ord0_reach _ ex_post]) (simp add: ref_bank_def)

theorem orders_solvent_witness: "lock_total ref_sdk ''btc'' ex_ord1 \<le> 400"
  using orders_solvent [OF ex_ord1_reach ref_sdk_laws ref_bank_laws, of "''btc''"]
  by (simp add: ex_ord1_def ref_bank_def credit_def debit_def ex_ledger_def)

text \<open>
  C30. In every reachable state an active order whose lock coin can still be computed can be revoked: the
  call succeeds, its owner gets exactly the locked coin from the module account, the order is gone and
  every other order stays.
\<close>

theorem orders_revoke_succeeds:
  assumes "ord_reach S B s" and "sdk_laws S" and "bank_laws B"
    and "Orders_Get s i = Ok x" and "LockCoin S x = Ok c"
  shows "\<exists>s'. RevokeOrder S B i s = (Ok (), s') \<and>
    os_bank s' = credit (o_Owner x) c (debit (module_address B orders_module) c (os_bank s)) \<and>
    Orders_Get s' i = Err OrdErrWrongOrderID \<and>
    (\<forall>j y. j \<noteq> i \<longrightarrow> (Orders_Get s' j = Ok y \<longleftrightarrow> Orders_Get s j = Ok y))"
proof -
  note ok = ord_reach_ok [OF assms(1-3)]
  then have inv: "ord_inv s" by (simp add: ord_ok_def)
  from assms(4) have x: "x \<in> set (Orders_GetList s)" and i: "o_ID x = i" by (simp_all add: Orders_Get_iff [OF inv])
  from RevokeOrder_succeeds [OF assms(2,3) ok x assms(5)] obtain s' where
    r: "RevokeOrder S B i s = (Ok (), s')" and
    b: "os_bank s' = credit (o_Owner x) c (debit (module_address B orders_module) c (os_bank s))" and
    o: "os_orders s' = kv_del (okey i) (os_orders s)" by (simp add: i)
  note ok' = RevokeOrder_ok [OF assms(2,3) ok r]
  then have inv': "ord_inv s'" by (simp add: ord_ok_def)
  have "i < 2 ^ 64" using inv x i by (auto simp: ord_inv_def)
  then have "Orders_Get s' i = Err OrdErrWrongOrderID" by (simp add: Orders_Get_def GetOrderKey_eq o)
  moreover have "Orders_Get s' j = Ok y \<longleftrightarrow> Orders_Get s j = Ok y" if "j \<noteq> i" for j y
    using that ok'(2) by (auto simp: Orders_Get_iff [OF inv] Orders_Get_iff [OF inv'])
  ultimately show ?thesis using r b by blast
qed

lemma ex_get: "Orders_Get ex_ord1 0 = Ok ex_order"
  by (simp add: Orders_Get_def GetOrderKey_eq ex_ord1_def kv_get_def)

theorem orders_revoke_succeeds_witness:
  "\<exists>s'. RevokeOrder ref_sdk ref_bank 0 ex_ord1 = (Ok (), s') \<and> os_bank s' ''alice'' ''btc'' = 10000"
  using orders_revoke_succeeds [OF ex_ord1_reach ref_sdk_laws ref_bank_laws ex_get ex_lock]
  by (auto simp: ex_ord1_def ref_bank_def credit_def debit_def ex_ledger_def ex_order_def NewOrder_def)

text \<open>
  Posting an order and revoking it restores the ledger and the stored orders; only the identifier
  stays used.
\<close>

theorem orders_post_revoke:
  assumes "ord_reach S B s" and "sdk_laws S" and "bank_laws B" and "a \<noteq> module_address B orders_module"
    and "PostOrder S B cs ms t a ac dir p q ttl s = (Ok x, s1)"
  shows "\<exists>s2. RevokeOrder S B (o_ID x) s1 = (Ok (), s2) \<and> os_bank s2 = os_bank s \<and>
    os_orders s2 = os_orders s \<and> os_lastID s2 = Some (o_ID x)"
proof -
  note ok = ord_reach_ok [OF assms(1-3)]
  note ok1 = PostOrder_ok [OF assms(2,3) ok assms(4,5)]
  from ok have inv: "ord_inv s" and bd: "ids_bounded (os_lastID s) (ord_ids s)" by (simp_all add: ord_ok_def)
  have fresh: "o_ID x \<notin> ord_ids s"
    using ord_reg.created_fresh [OF inv bd ord_createdI [OF sdk_lawsD(1) [OF assms(2)] assms(5)]] .
  obtain m c l where x: "x = NewOrder t (next_id (os_lastID s)) a m dir p q ttl" and lt: "o_ID x < 2 ^ 64"
    and c: "LockCoin S x = Ok c" and l: "send_to_module B a orders_module c (os_bank s) = Some l"
    and s1: "s1 = \<lparr>os_orders = kv_set (okey (o_ID x)) x (os_orders s), os_lastID = Some (o_ID x), os_bank = l\<rparr>"
    by (rule PostOrder_Ok [OF assms(5) sdk_lawsD(1) [OF assms(2)]])
  have c0: "0 \<le> snd c" using LockCoin_nonneg [OF sdk_lawsD(2,1) c] assms(2) by blast
  have "l = credit (module_address B orders_module) c (debit a c (os_bank s))"
    using l by (simp add: send_to_module_law [OF assms(3) c0] move_def split: if_splits)
  then have "credit a c (debit (module_address B orders_module) c l) = os_bank s"
    by (cases c) (auto simp: fun_eq_iff credit_def debit_def)
  moreover have "kv_get (okey (o_ID x)) (os_orders s) = None"
    using inv fresh lt by (force simp: ord_inv_def kv_keyed_get_None ord_ids_def Orders_GetList_def okey_inject image_iff)
  then have "kv_del (okey (o_ID x)) (kv_set (okey (o_ID x)) x (os_orders s)) = os_orders s"
    using inv by (intro kv_set_del_fresh) (auto simp: ord_inv_def kv_keyed_def)
  moreover have "o_Owner x = a" by (simp add: x NewOrder_def)
  ultimately show ?thesis
    using RevokeOrder_succeeds [OF assms(2,3) ok1(1) _ c] ok1(2) by (simp add: s1)
qed

theorem orders_post_revoke_witness:
  "\<exists>s2. RevokeOrder ref_sdk ref_bank 0 ex_ord1 = (Ok (), s2) \<and> os_bank s2 = ex_ledger \<and> os_orders s2 = []"
  using orders_post_revoke [OF ex_ord0_reach ref_sdk_laws ref_bank_laws _ ex_post]
  by (auto simp: ref_bank_def ex_ord0_def ex_order_def NewOrder_def)

text \<open>
  A cancel message from anyone but the owner of the order is refused and changes nothing.
\<close>

theorem orders_cancel_owner_only:
  assumes "Orders_Get s i = Ok x" and "owner \<noteq> o_Owner x"
  shows "handleMsgCancelOrder S B owner i s = (Err OrdErrWrongOwner, s)"
  using assms by (simp add: handleMsgCancelOrder_def)

theorem orders_cancel_owner_only_witness:
  "handleMsgCancelOrder ref_sdk ref_bank ''bob'' 0 ex_ord1 = (Err OrdErrWrongOwner, ex_ord1)"
  using orders_cancel_owner_only [OF ex_get, of "''bob''"] by (simp add: ex_order_def NewOrder_def)

text \<open>
  C35. The end of a block never panics in a reachable state, and removes exactly the orders whose time to
  live is over and whose lock coin can be computed. An expired order whose remaining amount is below one unit
  of the quote currency (possible for a bid after a partial fill) is never removed.
\<close>

theorem orders_end_block:
  assumes "ord_reach S B s" and "sdk_laws S" and "bank_laws B"
  shows "\<exists>s'. Orders_EndBlocker S B now s = (Ok (), s') \<and>
    set (Orders_GetList s') =
      {x \<in> set (Orders_GetList s). \<not> (ttl_expired now x \<and> (\<exists>c. LockCoin S x = Ok c))}"
proof -
  note ok = ord_reach_ok [OF assms]
  have "distinct (map (\<lambda>x. okey (o_ID x)) (Orders_GetList s))"
    using ok kv_keyed_distinct [of "\<lambda>x. okey (o_ID x)" "os_orders s"]
    by (simp add: ord_ok_def ord_inv_def Orders_GetList_def)
  then have "distinct (map o_ID (Orders_GetList s))"
    by (simp add: distinct_map inj_on_def)
  from end_block_loop_effect [OF assms(2,3) ok order_refl this, of now] show ?thesis
    by (auto simp: Orders_EndBlocker_def set_diff_eq)
qed

theorem orders_end_block_witness:
  "\<exists>s'. Orders_EndBlocker ref_sdk ref_bank 60000000005 ex_ord1 = (Ok (), s') \<and> Orders_GetList s' = []"
proof -
  have list: "set (Orders_GetList ex_ord1) = {ex_order}" by (simp add: Orders_GetList_def kv_vals_def ex_ord1_def)
  have "ttl_expired 60000000005 ex_order" by (simp add: ttl_expired_def ex_order_def NewOrder_def time_sub_def)
  with list ex_lock have "{x \<in> set (Orders_GetList ex_ord1).
      \<not> (ttl_expired 60000000005 x \<and> (\<exists>c. LockCoin ref_sdk x = Ok c))} = {}" by auto
  note e = this
  from orders_end_block [OF ex_ord1_reach ref_sdk_laws ref_bank_laws, of 60000000005] show ?thesis
    unfolding e by simp
qed

text \<open>
  Executing fills pays the owners without taking anything from the module account: for every
  denomination its balance is unchanged and no balance decreases, although the coins of the filled orders were
  locked there and their orders are reduced or removed.
\<close>

theorem orders_fills_not_debited:
  assumes "sdk_laws S" and "bank_laws B"
    and "\<forall>f \<in> set fs. o_Owner (f_Order f) \<noteq> module_address B orders_module"
    and "ExecuteOrderFills S B t fs s = (Ok (), s')"
  shows "os_bank s' (module_address B orders_module) d = os_bank s (module_address B orders_module) d \<and>
    os_bank s a d \<le> os_bank s' a d"
  using assms(3,4)
proof (induction fs arbitrary: s)
  case (Cons f fs)
  from Cons.prems(2) obtain s1 where e: "execute_fill S B t f s = (Ok (), s1)"
    and r: "ExecuteOrderFills S B t fs s1 = (Ok (), s')"
    by (auto split: prod.splits res.splits)
  from Cons.IH [OF _ r] execute_fill_bank [OF assms(1,2) e, of "module_address B orders_module" d a] Cons.prems(1)
  show ?case by fastforce
qed simp

definition ex_fill :: OrderFill where
  "ex_fill = \<lparr>f_Order = ex_order, f_ClearancePrice = 9000000000, f_QuantityFilled = 400, f_QuantityUnfilled = 0\<rparr>"

definition ex_ord2 :: ord_state where
  "ex_ord2 = \<lparr>os_orders = [], os_lastID = Some 0,
     os_bank = credit ''alice'' (''usdt'', 36000) (os_bank ex_ord1)\<rparr>"

lemma ex_fill_coin: "FillCoin ref_sdk ex_fill = Ok (''usdt'', 36000)"
proof -
  have "BaseToQuoteQuantity ref_sdk ex_market 9000000000 400 = Ok 36000"
    by (subst BaseToQuoteQuantity_closed [OF ref_uint_laws ref_dec_laws])
      (simp_all add: market_decimals_ok_def ex_market_def quote_dec_def quote_amount_def chop_def chop_pos_def Let_def)
  then show ?thesis
    by (simp add: FillCoin_def ex_fill_def ex_order_def NewOrder_def Ask_def Bid_def quantity_coin_def ref_sdk_def within_def
        QuoteDenom_def ex_market_def)
qed

lemma ex_execute: "ExecuteOrderFills ref_sdk ref_bank 7 [ex_fill] ex_ord1 = (Ok (), ex_ord2)"
proof -
  have rc: "RefundCoin ref_sdk ex_fill = Ok (False, None)"
    by (simp add: RefundCoin_def ex_fill_def ex_order_def NewOrder_def Ask_def Bid_def)
  have o: "o_Owner (f_Order ex_fill) = ''alice''" "o_ID (f_Order ex_fill) = 0" "f_QuantityUnfilled ex_fill = 0"
    by (simp_all add: ex_fill_def ex_order_def NewOrder_def)
  have b: "add_coins ref_bank a c l = Some (credit a c l)" for a c l by (simp add: ref_bank_def)
  show ?thesis
    by (simp add: execute_fill_def ex_fill_coin refund_fill_def rc close_fill_def Orders_del_def GetOrderKey_eq o b)
      (simp add: ex_ord1_def ex_ord2_def kv_del_def)
qed

theorem orders_fills_not_debited_witness:
  "os_bank ex_ord2 ''#orders'' ''btc'' = 400 \<and> Orders_GetList ex_ord2 = []"
  using orders_fills_not_debited [OF ref_sdk_laws ref_bank_laws _ ex_execute, of "''btc''" "''alice''"]
  by (simp add: ex_fill_def ex_order_def NewOrder_def ref_bank_def ex_ord1_def credit_def debit_def ex_ledger_def
      Orders_GetList_def kv_vals_def ex_ord2_def)

text \<open>
  The time to live is multiplied at 64 bits: an order posted with a time to live of 9223372037 seconds
  (292 years) gets a negative duration and is expired in the block that created it.
\<close>

theorem orders_ttl_overflow:
  "o_Ttl (NewOrder t i a m dir p q 9223372037) = - 9223372036709551616 \<and>
   ttl_expired t (NewOrder t i a m dir p q 9223372037)"
  by (simp add: ttl_expired_def NewOrder_def time_sub_def)

text \<open>
  Once the order with the last identifier is gone (revoked, expired or filled), the exported genesis is
  refused: initialising from it panics, because the last identifier is required to be the largest stored one.
\<close>

theorem orders_export_init_panics:
  assumes "os_lastID s = Some i" and "\<forall>x \<in> set (Orders_GetList s). o_ID x < i"
  shows "Orders_InitGenesis S ms now t (Orders_ExportGenesis s) s0 = (Panic, s0)"
proof -
  have "OrdGenesis_Validate S now t (Orders_ExportGenesis s) \<noteq> Ok ()"
  proof
    assume v: "OrdGenesis_Validate S now t (Orders_ExportGenesis s) = Ok ()"
    then obtain m where m: "ord_validate_loop S now t 0 [] (Orders_GetList s) = Ok m" "i = m" "Orders_GetList s \<noteq> []"
      using assms(1) by (auto simp: OrdGenesis_Validate_def Orders_ExportGenesis_def bind_res_Ok_iff split: if_splits)
    then obtain x where "x \<in> set (Orders_GetList s)" by (meson list.set_sel(1))
    with assms(2) have "0 < i" by force
    with ord_validate_loop_max [OF m(1)] assms(2) m(2) show False by auto
  qed
  then show ?thesis
    by (cases "OrdGenesis_Validate S now t (Orders_ExportGenesis s)") (auto simp: Orders_InitGenesis_def)
qed

theorem orders_export_init_panics_witness:
  "Orders_InitGenesis ref_sdk ex_mkt 9 8 (Orders_ExportGenesis ex_ord2) ex_ord0 = (Panic, ex_ord0)"
  using orders_export_init_panics [of ex_ord2 0] by (simp add: ex_ord2_def Orders_GetList_def kv_vals_def)

end
