(* ===== verification/OrderBook.thy ===== *)
theory OrderBook
  imports OB_Matcher Orders_Props "HOL-Library.AList"
begin

text \<open>
  Module \<open>x/orderbook\<close>, last part: the pool of matchers (\<open>matcher_pool.go\<close>), the end of a block (\<open>abci.go\<close>), the history
  of clearance states (\<open>keeper/history.go\<close>, \<open>types/history.go\<close>, \<open>types/keys.go\<close>), its squashing for a restart at height
  zero (\<open>squash.go\<close>) and the genesis state. The fills handed to the orders module meet the contract under which
  that module stays solvent.
\<close>

section \<open>The pool of matchers\<close>

text \<open>
  The pool is a Go map from the rendered market identifier to the matcher. It is an association list here;
  the order in which \<open>Process\<close> visits it, random in Go, is a parameter.
\<close>

type_synonym MatcherPool = "(string \<times> Matcher) list"

definition Pool_AddOrder :: "Order \<Rightarrow> (MatcherPool, ob_error, unit) op" where
  "Pool_AddOrder ord pool =
     (let marketID = me_ID (o_Market ord);
          m = (case map_of pool (ID_String marketID) of None \<Rightarrow> NewMatcher marketID | Some m \<Rightarrow> m) in
      case Matcher_AddOrder ord m of (r, m') \<Rightarrow> (r, AList.update (ID_String marketID) m' pool))"

fun process_loop ::
  "sdk \<Rightarrow> (SDItem list \<Rightarrow> SDItem list) \<Rightarrow> MatcherPool \<Rightarrow> MatcherResult list \<Rightarrow> (ob_error, MatcherResult list) res" where
  "process_loop S srt [] results = Ok results"
| "process_loop S srt ((k, m) # pool) results =
     (case fst (Match S srt m) of
        Panic \<Rightarrow> Panic
      | Err e \<Rightarrow> if e = ObErrInternal then Panic else process_loop S srt pool results
      | Ok r \<Rightarrow> process_loop S srt pool (results @ [r]))"

definition Pool_Process ::
  "sdk \<Rightarrow> (SDItem list \<Rightarrow> SDItem list) \<Rightarrow> (MatcherPool \<Rightarrow> MatcherPool) \<Rightarrow> MatcherPool \<Rightarrow> (ob_error, MatcherResult list) res" where
  "Pool_Process S srt visit pool = process_loop S srt (visit pool) []"

definition visits :: "(MatcherPool \<Rightarrow> MatcherPool) \<Rightarrow> bool" where
  "visits visit \<longleftrightarrow> (\<forall>pool. mset (visit pool) = mset pool)"

section \<open>History\<close>

record HistoryItem =
  h_MarketID :: ID
  h_ClearancePrice :: nat
  h_BidOrdersCount :: int
  h_AskOrdersCount :: int
  h_BidVolume :: int
  h_AskVolume :: int
  h_MatchedBidVolume :: int
  h_MatchedAskVolume :: int
  h_Timestamp :: int
  h_BlockHeight :: int

definition HistoryItem_Valid :: "ID option \<Rightarrow> HistoryItem \<Rightarrow> (ob_error, unit) res" where
  "HistoryItem_Valid marketID h =
     (if ID_Valid marketID \<noteq> Ok () then Err (ObErrGenesis ''market_id'')
      else if h_ClearancePrice h = 0 then Err (ObErrGenesis ''clearance_price is zero'')
      else if h_BidOrdersCount h < 0 then Err (ObErrGenesis ''bid_orders_count has negative value'')
      else if h_AskOrdersCount h < 0 then Err (ObErrGenesis ''ask_orders_count has negative value'')
      else if h_Timestamp h < 0 then Err (ObErrGenesis ''timestamp is negative'')
      else if h_BlockHeight h < 0 then Err (ObErrGenesis ''block_height is negative'')
      else Ok ())"

definition NewHistoryItem :: "sdk \<Rightarrow> int \<Rightarrow> int \<Rightarrow> MatcherResult \<Rightarrow> HistoryItem option" where
  "NewHistoryItem S blockTime blockHeight r =
     Option.bind (dec_trunc S (cs_MaxBidVolume (mr_ClearanceState r))) (\<lambda>bv.
     Option.bind (dec_trunc S (cs_MaxAskVolume (mr_ClearanceState r))) (\<lambda>av.
     Option.bind (dec_trunc S (mr_MatchedBidVolume r)) (\<lambda>mbv.
     Option.bind (dec_trunc S (mr_MatchedAskVolume r)) (\<lambda>mav.
       Some \<lparr>h_MarketID = mr_MarketID r, h_ClearancePrice = cs_Price (mr_ClearanceState r),
             h_BidOrdersCount = int (mr_BidOrdersCount r), h_AskOrdersCount = int (mr_AskOrdersCount r),
             h_BidVolume = bv, h_AskVolume = av, h_MatchedBidVolume = mbv, h_MatchedAskVolume = mav,
             h_Timestamp = blockTime div 1000000000, h_BlockHeight = blockHeight\<rparr>))))"

text \<open>The conversion \<open>uint64(blockHeight)\<close> wraps negative heights.\<close>

definition GetHistoryItemKey :: "ID \<Rightarrow> int \<Rightarrow> bytes option" where
  "GetHistoryItemKey marketID blockHeight =
     map_option (\<lambda>n. join_with (CHR '':'') [''history_item'', be64 n, be64 (nat (blockHeight mod 2 ^ 64))]) (ID_UInt64 marketID)"

record ob_state =
  ob_history :: "HistoryItem kv"
  ob_orders :: ord_state

definition HasHistoryItem :: "ob_state \<Rightarrow> ID \<Rightarrow> int \<Rightarrow> bool option" where
  "HasHistoryItem s marketID blockHeight = map_option (\<lambda>k. kv_has k (ob_history s)) (GetHistoryItemKey marketID blockHeight)"

definition GetHistoryItem :: "ob_state \<Rightarrow> ID \<Rightarrow> int \<Rightarrow> (ob_error, HistoryItem) res" where
  "GetHistoryItem s marketID blockHeight =
     (case GetHistoryItemKey marketID blockHeight of
        None \<Rightarrow> Panic
      | Some k \<Rightarrow> (case kv_get k (ob_history s) of None \<Rightarrow> Err ObErrWrongHistoryItem | Some h \<Rightarrow> Ok h))"

definition GetHistoryItemsList :: "ob_state \<Rightarrow> HistoryItem list" where
  "GetHistoryItemsList s = kv_vals (ob_history s)"

text \<open>\<open>endHeight+1\<close> wraps at 64 bits, which the conversion of the key absorbs: it is taken modulo \<open>2^64\<close>.\<close>

definition GetHistoryItemsInBlockHeightRange :: "ob_state \<Rightarrow> ID \<Rightarrow> int \<Rightarrow> int \<Rightarrow> HistoryItem list option" where
  "GetHistoryItemsInBlockHeightRange s marketID startHeight endHeight =
     Option.bind (GetHistoryItemKey marketID startHeight) (\<lambda>startKey.
     Option.bind (GetHistoryItemKey marketID (endHeight + 1)) (\<lambda>endKey.
       Some (kv_vals (kv_range startKey endKey (ob_history s)))))"

definition SetHistoryItem :: "HistoryItem \<Rightarrow> ob_state \<Rightarrow> ob_state option" where
  "SetHistoryItem h s =
     map_option (\<lambda>k. s\<lparr>ob_history := kv_set k h (ob_history s)\<rparr>) (GetHistoryItemKey (h_MarketID h) (h_BlockHeight h))"

section \<open>End of a block\<close>

fun pool_loop :: "Order list \<Rightarrow> MatcherPool \<Rightarrow> MatcherPool option" where
  "pool_loop [] pool = Some pool"
| "pool_loop (ord # ords) pool =
     (case Pool_AddOrder ord pool of
        (Ok _, pool') \<Rightarrow> pool_loop ords pool'
      | _ \<Rightarrow> None)"

fun results_loop :: "sdk \<Rightarrow> bank \<Rightarrow> int \<Rightarrow> int \<Rightarrow> MatcherResult list \<Rightarrow> (ob_state, ob_error, unit) op" where
  "results_loop S B blockTime blockHeight [] s = (Ok (), s)"
| "results_loop S B blockTime blockHeight (r # rs) s =
     (case ExecuteOrderFills S B blockTime (mr_OrderFills r) (ob_orders s) of
        (Ok _, os) \<Rightarrow>
          let s1 = s\<lparr>ob_orders := os\<rparr> in
          (case Option.bind (NewHistoryItem S blockTime blockHeight r) (\<lambda>h. SetHistoryItem h s1) of
             None \<Rightarrow> (Panic, s1)
           | Some s2 \<Rightarrow> results_loop S B blockTime blockHeight rs s2)
      | (_, os) \<Rightarrow> (Panic, s\<lparr>ob_orders := os\<rparr>))"

definition OB_EndBlocker ::
  "sdk \<Rightarrow> bank \<Rightarrow> (SDItem list \<Rightarrow> SDItem list) \<Rightarrow> (MatcherPool \<Rightarrow> MatcherPool) \<Rightarrow> int \<Rightarrow> int \<Rightarrow> (ob_state, ob_error, unit) op" where
  "OB_EndBlocker S B srt visit blockTime blockHeight s =
     (case pool_loop (Orders_GetList (ob_orders s)) [] of
        None \<Rightarrow> (Panic, s)
      | Some pool \<Rightarrow>
          (case Pool_Process S srt visit pool of
             Ok rs \<Rightarrow> results_loop S B blockTime blockHeight rs s
           | Err e \<Rightarrow> (Err e, s)
           | Panic \<Rightarrow> (Panic, s)))"

section \<open>Squashing and genesis\<close>

text \<open>The latest item of each market, in a Go map keyed by the rendered market identifier.\<close>

fun ob_squash_loop :: "HistoryItem list \<Rightarrow> (string \<times> HistoryItem) list \<Rightarrow> ob_state \<Rightarrow> ((string \<times> HistoryItem) list \<times> ob_state) option" where
  "ob_squash_loop [] items s = Some (items, s)"
| "ob_squash_loop (h # hs) items s =
     (let k = ID_String (h_MarketID h);
          items' = (case map_of items k of
                      None \<Rightarrow> AList.update k h items
                    | Some e \<Rightarrow> if h_BlockHeight e < h_BlockHeight h then AList.update k h items else items) in
      Option.bind (GetHistoryItemKey (h_MarketID h) (h_BlockHeight h)) (\<lambda>key.
        ob_squash_loop hs items' (s\<lparr>ob_history := kv_del key (ob_history s)\<rparr>)))"

fun set_items :: "HistoryItem list \<Rightarrow> ob_state \<Rightarrow> ob_state option" where
  "set_items [] s = Some s"
| "set_items (h # hs) s = Option.bind (SetHistoryItem h s) (set_items hs)"

definition OB_PrepareForZeroHeight :: "((string \<times> HistoryItem) list \<Rightarrow> (string \<times> HistoryItem) list) \<Rightarrow> ob_state \<Rightarrow> ob_state option" where
  "OB_PrepareForZeroHeight visit s =
     Option.bind (ob_squash_loop (GetHistoryItemsList s) [] s) (\<lambda>(items, s1).
       set_items (map (\<lambda>(k, h). h\<lparr>h_BlockHeight := 0\<rparr>) (visit items)) s1)"

fun ob_validate_loop :: "int \<Rightarrow> int \<Rightarrow> (ID \<times> int) list \<Rightarrow> HistoryItem list \<Rightarrow> (ob_error, int) res" where
  "ob_validate_loop blockTime maxBlockHeight seen [] = Ok maxBlockHeight"
| "ob_validate_loop blockTime maxBlockHeight seen (h # hs) =
     bind_res (HistoryItem_Valid (Some (h_MarketID h)) h) (\<lambda>_.
       if blockTime \<noteq> time_zero \<and> blockTime < h_Timestamp h * 1000000000 then Err (ObErrGenesis ''timestamp after block time'')
       else if (h_MarketID h, h_BlockHeight h) \<in> set seen then Err (ObErrGenesis ''duplicated ID'')
       else ob_validate_loop blockTime (if maxBlockHeight < h_BlockHeight h then h_BlockHeight h else maxBlockHeight)
              ((h_MarketID h, h_BlockHeight h) # seen) hs)"

definition OBGenesis_Validate :: "int \<Rightarrow> int \<Rightarrow> HistoryItem list \<Rightarrow> (ob_error, unit) res" where
  "OBGenesis_Validate blockTime blockHeight items =
     bind_res (ob_validate_loop blockTime 0 [] items) (\<lambda>maxBlockHeight.
       if blockHeight \<noteq> - 1 \<and> blockHeight < maxBlockHeight then Err (ObErrGenesis ''blockHeight: GT current blockHeight'')
       else Ok ())"

definition OB_InitGenesis :: "int \<Rightarrow> int \<Rightarrow> HistoryItem list \<Rightarrow> (ob_state, ob_error, unit) op" where
  "OB_InitGenesis blockTime blockHeight items s =
     (case OBGenesis_Validate blockTime blockHeight items of
        Ok _ \<Rightarrow> (case set_items items s of None \<Rightarrow> (Panic, s) | Some s' \<Rightarrow> (Ok (), s'))
      | _ \<Rightarrow> (Panic, s))"

definition OB_ExportGenesis :: "ob_state \<Rightarrow> HistoryItem list" where
  "OB_ExportGenesis s = GetHistoryItemsList s"

section \<open>The pool holds the orders by market\<close>

lemma ID_String_eq [simp]: "ID_String i = ID_String j \<longleftrightarrow> i = j"
  by (simp add: ID_String_def)

definition market_of :: "Order \<Rightarrow> ID" where
  "market_of x = me_ID (o_Market x)"

definition market_side :: "Direction \<Rightarrow> ID \<Rightarrow> Order list \<Rightarrow> Order list" where
  "market_side d i xs = filter (\<lambda>x. market_of x = i \<and> o_Direction x = d) xs"

definition matcher_of :: "ID \<Rightarrow> Order list \<Rightarrow> Matcher" where
  "matcher_of i xs = (NewMatcher i)\<lparr>mt_bid := market_side Bid i xs, mt_ask := market_side Ask i xs\<rparr>"

definition matchable :: "Order \<Rightarrow> bool" where
  "matchable x \<longleftrightarrow> 0 < o_Price x \<and> 0 < o_Quantity x \<and> (o_Direction x = Bid \<or> o_Direction x = Ask)"

definition pool_orders :: "MatcherPool \<Rightarrow> Order multiset" where
  "pool_orders pool = (\<Sum>(k, m) \<leftarrow> pool. mset (mt_bid m) + mset (mt_ask m))"

definition pool_ok :: "Order list \<Rightarrow> MatcherPool \<Rightarrow> bool" where
  "pool_ok xs pool \<longleftrightarrow>
     distinct (map fst pool) \<and> fst ` set pool = (\<lambda>x. ID_String (market_of x)) ` set xs \<and>
     (\<forall>x \<in> set xs. map_of pool (ID_String (market_of x)) = Some (matcher_of (market_of x) xs)) \<and>
     pool_orders pool = mset xs"

lemma Bid_Ask_neq [simp]: "Bid \<noteq> Ask" "Ask \<noteq> Bid"
  by (simp_all add: Bid_def Ask_def)

lemma pool_orders_update:
  "distinct (map fst pool) \<Longrightarrow>
   pool_orders (AList.update k m' pool) +
     (case map_of pool k of None \<Rightarrow> {#} | Some m \<Rightarrow> mset (mt_bid m) + mset (mt_ask m)) =
   pool_orders pool + (mset (mt_bid m') + mset (mt_ask m'))"
proof (induction pool)
  case (Cons p pool)
  obtain j m where p: "p = (j, m)" by (cases p)
  show ?case
  proof (cases "j = k")
    case True
    then show ?thesis by (simp add: p pool_orders_def ac_simps)
  next
    case False
    with Cons show ?thesis by (auto simp: p pool_orders_def ac_simps split: option.splits)
  qed
qed (simp add: pool_orders_def)

lemma Matcher_AddOrder_ok:
  assumes "matchable x" and "length (market_side Bid (market_of x) ys) < MaxInt" and "length (market_side Ask (market_of x) ys) < MaxInt"
  shows "Matcher_AddOrder x (matcher_of (market_of x) ys) = (Ok (), matcher_of (market_of x) (ys @ [x]))"
  using assms by (auto simp: Matcher_AddOrder_def matcher_of_def NewMatcher_def matchable_def market_side_def market_of_def)

lemma matcher_of_other: "market_of x \<noteq> i \<Longrightarrow> matcher_of i (ys @ [x]) = matcher_of i ys"
  by (simp add: matcher_of_def market_side_def)

lemma matcher_of_new: "\<forall>y \<in> set ys. market_of y \<noteq> i \<Longrightarrow> matcher_of i ys = NewMatcher i"
  by (simp add: matcher_of_def market_side_def NewMatcher_def filter_empty_conv)

lemma length_side: "length (market_side d i ys) \<le> length ys"
  by (simp add: market_side_def)

lemma pool_add_ok:
  assumes ok: "pool_ok ys pool" and x: "matchable x" and len: "length ys < MaxInt"
  shows "\<exists>pool'. Pool_AddOrder x pool = (Ok (), pool') \<and> pool_ok (ys @ [x]) pool'"
proof -
  let ?i = "market_of x" and ?k = "ID_String (market_of x)"
  have l: "length (market_side Bid ?i ys) < MaxInt" "length (market_side Ask ?i ys) < MaxInt"
    using len length_side [of Bid ?i ys] length_side [of Ask ?i ys] by simp_all
  have cur: "(case map_of pool ?k of None \<Rightarrow> NewMatcher ?i | Some m \<Rightarrow> m) = matcher_of ?i ys"
  proof (cases "\<exists>y \<in> set ys. market_of y = ?i")
    case True
    then show ?thesis using ok by (auto simp: pool_ok_def)
  next
    case False
    then have "?k \<notin> fst ` set pool" using ok by (auto simp: pool_ok_def)
    then have "map_of pool ?k = None" by (simp add: map_of_eq_None_iff)
    with False show ?thesis by (simp add: matcher_of_new)
  qed
  let ?pool = "AList.update ?k (matcher_of ?i (ys @ [x])) pool"
  have add: "Pool_AddOrder x pool = (Ok (), ?pool)"
    unfolding Pool_AddOrder_def market_of_def [symmetric] Let_def cur using Matcher_AddOrder_ok [OF x l] by simp
  have d: "distinct (map fst pool)" using ok by (simp add: pool_ok_def)
  have orders: "pool_orders ?pool = mset (ys @ [x])"
  proof -
    have sides: "mset (mt_bid (matcher_of ?i (ys @ [x]))) + mset (mt_ask (matcher_of ?i (ys @ [x]))) =
        mset (mt_bid (matcher_of ?i ys)) + mset (mt_ask (matcher_of ?i ys)) + {#x#}"
      using x by (auto simp: matcher_of_def market_side_def matchable_def)
    have "(case map_of pool ?k of None \<Rightarrow> {#} | Some m \<Rightarrow> mset (mt_bid m) + mset (mt_ask m)) =
        mset (mt_bid (matcher_of ?i ys)) + mset (mt_ask (matcher_of ?i ys))"
      unfolding cur [symmetric] by (cases "map_of pool ?k") (simp_all add: NewMatcher_def)
    with pool_orders_update [OF d, of ?k "matcher_of ?i (ys @ [x])"] sides ok show ?thesis
      by (simp add: pool_ok_def)
  qed
  have "map_of ?pool (ID_String (market_of y)) = Some (matcher_of (market_of y) (ys @ [x]))" if "y \<in> set (ys @ [x])" for y
    using that ok matcher_of_other [of x "market_of y" ys] by (cases "market_of y = ?i") (auto simp: update_conv' pool_ok_def)
  moreover have "fst ` set ?pool = (\<lambda>x. ID_String (market_of x)) ` set (ys @ [x])"
    using ok by (simp add: dom_update pool_ok_def)
  ultimately have "pool_ok (ys @ [x]) ?pool"
    using d orders by (simp add: pool_ok_def distinct_update)
  with add show ?thesis by blast
qed

lemma pool_loop_ok:
  "\<lbrakk>pool_ok ys pool; \<forall>x \<in> set xs. matchable x; length (ys @ xs) \<le> MaxInt\<rbrakk> \<Longrightarrow>
   \<exists>pool'. pool_loop xs pool = Some pool' \<and> pool_ok (ys @ xs) pool'"
proof (induction xs arbitrary: ys pool)
  case (Cons x xs)
  from pool_add_ok [OF Cons.prems(1), of x] Cons.prems(2,3) obtain p1 where
    p1: "Pool_AddOrder x pool = (Ok (), p1)" "pool_ok (ys @ [x]) p1" by auto
  from Cons.IH [OF p1(2)] Cons.prems(2,3) p1(1) show ?case by simp
qed simp

lemma pool_ok_member:
  assumes "pool_ok xs pool" and "(k, m) \<in> set pool"
  shows "\<exists>i \<in> market_of ` set xs. k = ID_String i \<and> m = matcher_of i xs"
proof -
  have "k \<in> fst ` set pool" using assms(2) by force
  then obtain x where x: "x \<in> set xs" "k = ID_String (market_of x)" using assms(1) by (auto simp: pool_ok_def)
  moreover have "map_of pool k = Some m" using assms by (simp add: pool_ok_def)
  ultimately show ?thesis using assms(1) by (auto simp: pool_ok_def)
qed

section \<open>What a successful match hands over\<close>

lemma distinct_submset: "\<lbrakk>mset xs \<subseteq># mset ys; distinct ys\<rbrakk> \<Longrightarrow> distinct xs"
  by (metis distinct_append ex_mset mset_append mset_eq_imp_distinct_iff mset_subset_eq_exists_conv)

lemma mset_sub_Cons: "A \<subseteq># mset xs \<Longrightarrow> A \<subseteq># add_mset x (mset xs)"
  by (metis add_mset_add_single mset_subset_eq_add_left subset_mset.order_trans)

lemma fill_loop_struct:
  assumes laws: "uint_laws S"
  shows "fill_loop S price stop coef mx xs fills mv = Some (fs, v) \<Longrightarrow>
    \<exists>gs. fs = fills @ gs \<and> mset (map f_Order gs) \<subseteq># mset xs \<and> (\<forall>g \<in> set gs. good_fill price g)"
proof (induction xs arbitrary: fills mv)
  case (Cons x xs)
  show ?case
  proof (cases "stop x \<or> mv = mx")
    case True
    with Cons.prems show ?thesis by auto
  next
    case False
    with Cons.prems obtain q where
      q: "(case coef of None \<Rightarrow> Some (o_Quantity x) | Some c \<Rightarrow> pro_rata_quantity S c mx mv (o_Quantity x)) = Some q"
      by (auto simp: bind_eq_Some_conv)
    show ?thesis
    proof (cases "q = 0")
      case True
      with Cons.prems False q have "fill_loop S price stop coef mx xs fills mv = Some (fs, v)" by simp
      from Cons.IH [OF this] show ?thesis by (auto simp: subset_mset.add_increasing intro: mset_sub_Cons)
    next
      case nz: False
      from Cons.prems False q nz obtain mv' u where u: "uint_sub S (o_Quantity x) q = Some u"
        and r: "fill_loop S price stop coef mx xs
          (fills @ [\<lparr>f_Order = x, f_ClearancePrice = price, f_QuantityFilled = q, f_QuantityUnfilled = u\<rparr>]) mv' = Some (fs, v)"
        by (auto simp: bind_eq_Some_conv)
      have "u = o_Quantity x - q \<and> q \<le> o_Quantity x" by (rule uint_sub_SomeD [OF laws u])
      with Cons.IH [OF r] nz show ?thesis by (auto simp: good_fill_def)
    qed
  qed
qed simp

lemma Match_struct:
  assumes laws: "uint_laws S" and r: "fst (Match S srt m) = Ok r"
  shows "mset (map f_Order (mr_OrderFills r)) \<subseteq># mset (mt_bid m) + mset (mt_ask m) \<and>
    (\<forall>f \<in> set (mr_OrderFills r). good_fill (cs_Price (mr_ClearanceState r)) f)"
proof -
  let ?b = "sort_Sort Less_PriceAscIDDesc (mt_bid m)" and ?a = "sort_Sort Less_PriceAscIDAsc (mt_ask m)"
  from r obtain m1 cs bf bv af av where m1: "Option.bind (aggregate_bids S m) (aggregate_asks S) = Some m1"
    and b: "getBidOrderFills S cs m1 = Some (bf, bv)" and a: "getAskOrderFills S cs m1 = Some (af, av)"
    and res: "mr_OrderFills r = bf @ af" "mr_ClearanceState r = cs"
    by (auto simp: Match_def Let_def getBidOrderFills_def getAskOrderFills_def split: option.splits res.splits prod.splits)
  have sides: "mt_bid m1 = ?b" "mt_ask m1 = ?a"
    using m1 by (auto simp: aggregate_bids_def aggregate_asks_def Let_def bind_eq_Some_conv)
  from fill_loop_struct [OF laws b [unfolded getBidOrderFills_def]]
  have fb: "mset (map f_Order bf) \<subseteq># mset (mt_bid m)" "\<forall>g \<in> set bf. good_fill (cs_Price cs) g" by (auto simp: sides)
  from fill_loop_struct [OF laws a [unfolded getAskOrderFills_def]]
  have fa: "mset (map f_Order af) \<subseteq># mset (mt_ask m)" "\<forall>g \<in> set af. good_fill (cs_Price cs) g" by (auto simp: sides)
  show ?thesis using fb fa by (auto simp: res subset_mset.add_mono)
qed

definition all_fills :: "MatcherResult list \<Rightarrow> OrderFill list" where
  "all_fills rs = concat (map mr_OrderFills rs)"

lemma process_loop_struct:
  assumes laws: "uint_laws S"
  shows "process_loop S srt pool rs0 = Ok rs \<Longrightarrow>
    \<exists>rs1. rs = rs0 @ rs1 \<and> mset (map f_Order (all_fills rs1)) \<subseteq># pool_orders pool \<and>
      (\<forall>f \<in> set (all_fills rs1). \<exists>p. good_fill p f) \<and>
      (\<forall>r \<in> set rs1. \<exists>(k, m) \<in> set pool. fst (Match S srt m) = Ok r)"
proof (induction pool arbitrary: rs0)
  case (Cons p pool)
  obtain k m where p: "p = (k, m)" by (cases p)
  have po: "pool_orders (p # pool) = mset (mt_bid m) + mset (mt_ask m) + pool_orders pool" by (simp add: p pool_orders_def)
  show ?case
  proof (cases "fst (Match S srt m)")
    case (Ok r)
    with Cons.prems p have "process_loop S srt pool (rs0 @ [r]) = Ok rs" by simp
    from Cons.IH [OF this] obtain rs1 where rs1: "rs = rs0 @ r # rs1" "mset (map f_Order (all_fills rs1)) \<subseteq># pool_orders pool"
      "\<forall>f \<in> set (all_fills rs1). \<exists>p. good_fill p f" "\<forall>r \<in> set rs1. \<exists>(k, m) \<in> set pool. fst (Match S srt m) = Ok r" by auto
    have sub: "mset (map f_Order (all_fills (r # rs1))) \<subseteq># pool_orders (p # pool)"
      using Match_struct [OF laws Ok] rs1(2) unfolding po by (simp add: all_fills_def subset_mset.add_mono)
    show ?thesis
      using sub rs1 Match_struct [OF laws Ok] Ok by (intro exI [of _ "r # rs1"]) (auto simp: p all_fills_def)
  next
    case (Err e)
    with Cons.prems p have "process_loop S srt pool rs0 = Ok rs" by (simp split: if_splits)
    from Cons.IH [OF this] obtain rs1 where rs1: "rs = rs0 @ rs1" "mset (map f_Order (all_fills rs1)) \<subseteq># pool_orders pool"
      "\<forall>f \<in> set (all_fills rs1). \<exists>p. good_fill p f" "\<forall>r \<in> set rs1. \<exists>(k, m) \<in> set pool. fst (Match S srt m) = Ok r" by auto
    have "mset (map f_Order (all_fills rs1)) \<subseteq># pool_orders (p # pool)"
      unfolding po using rs1(2) mset_subset_eq_add_right by (rule subset_mset.order_trans)
    with rs1 show ?thesis by (intro exI [of _ rs1]) auto
  qed (use Cons.prems p in simp)
qed (simp add: all_fills_def)

lemma ExecuteOrderFills_append:
  "ExecuteOrderFills S B t (fs @ gs) s =
     (case ExecuteOrderFills S B t fs s of (Ok _, s') \<Rightarrow> ExecuteOrderFills S B t gs s' | (r, s') \<Rightarrow> (r, s'))"
  by (induction fs arbitrary: s) (auto split: prod.splits res.splits)

lemma results_loop_orders:
  "results_loop S B t h rs s = (Ok (), s') \<Longrightarrow>
   ExecuteOrderFills S B t (all_fills rs) (ob_orders s) = (Ok (), ob_orders s')"
proof (induction rs arbitrary: s)
  case (Cons r rs)
  from Cons.prems obtain os s2 where e: "ExecuteOrderFills S B t (mr_OrderFills r) (ob_orders s) = (Ok (), os)"
    and s2: "Option.bind (NewHistoryItem S t h r) (\<lambda>i. SetHistoryItem i (s\<lparr>ob_orders := os\<rparr>)) = Some s2"
    and r: "results_loop S B t h rs s2 = (Ok (), s')"
    by (auto simp: Let_def split: prod.splits res.splits option.splits)
  have "ob_orders s2 = os" using s2 by (auto simp: bind_eq_Some_conv SetHistoryItem_def)
  with Cons.IH [OF r] e show ?case by (simp add: all_fills_def ExecuteOrderFills_append)
qed (simp add: all_fills_def)

lemma Matcher_AddOrder_orders:
  "Matcher_AddOrder x m = (Ok (), m') \<Longrightarrow> mset (mt_bid m') + mset (mt_ask m') = mset (mt_bid m) + mset (mt_ask m) + {#x#}"
  by (auto simp: Matcher_AddOrder_def split: if_splits)

lemma pool_loop_orders:
  "\<lbrakk>distinct (map fst pool); pool_loop xs pool = Some pool'\<rbrakk> \<Longrightarrow> pool_orders pool' = pool_orders pool + mset xs"
proof (induction xs arbitrary: pool)
  case (Cons x xs)
  let ?k = "ID_String (me_ID (o_Market x))"
  let ?m = "case map_of pool ?k of None \<Rightarrow> NewMatcher (me_ID (o_Market x)) | Some m \<Rightarrow> m"
  from Cons.prems(2) obtain m' where a: "Matcher_AddOrder x ?m = (Ok (), m')"
    and r: "pool_loop xs (AList.update ?k m' pool) = Some pool'"
    by (auto simp: Pool_AddOrder_def Let_def split: prod.splits res.splits)
  have "(case map_of pool ?k of None \<Rightarrow> {#} | Some m \<Rightarrow> mset (mt_bid m) + mset (mt_ask m)) = mset (mt_bid ?m) + mset (mt_ask ?m)"
    by (cases "map_of pool ?k") (simp_all add: NewMatcher_def)
  with pool_orders_update [OF Cons.prems(1), of ?k m'] Matcher_AddOrder_orders [OF a]
  have "pool_orders (AList.update ?k m' pool) = pool_orders pool + {#x#}" by simp
  with Cons.IH [OF distinct_update [OF Cons.prems(1)] r] show ?case by simp
qed simp

text \<open>The fills of a block meet the contract of the orders module.\<close>

lemma end_block_fills:
  assumes laws: "uint_laws S" and v: "visits visit" and inv: "ord_inv s"
    and pool: "pool_loop (Orders_GetList s) [] = Some pool" and rs: "Pool_Process S srt visit pool = Ok rs"
  shows "\<forall>f \<in> set (all_fills rs). fill_ok s f" and "distinct (map (\<lambda>f. o_ID (f_Order f)) (all_fills rs))"
proof -
  have "pool_orders (visit pool) = pool_orders pool"
    using v unfolding visits_def pool_orders_def by (metis (no_types) mset_map sum_mset_sum_list)
  also have "\<dots> = mset (Orders_GetList s)" using pool_loop_orders [OF _ pool] by (simp add: pool_orders_def)
  finally have po: "pool_orders (visit pool) = mset (Orders_GetList s)" .
  from process_loop_struct [OF laws rs [unfolded Pool_Process_def]]
  have sub: "mset (map f_Order (all_fills rs)) \<subseteq># mset (Orders_GetList s)" and good: "\<forall>f \<in> set (all_fills rs). \<exists>p. good_fill p f"
    unfolding po by auto
  have "f_Order f \<in> set (Orders_GetList s)" if "f \<in> set (all_fills rs)" for f
  proof -
    have "f_Order f \<in># mset (map f_Order (all_fills rs))" using that by simp
    then show ?thesis using mset_subset_eqD [OF sub] by fastforce
  qed
  moreover have "f_QuantityUnfilled f \<le> o_Quantity (f_Order f)" if "f \<in> set (all_fills rs)" for f
    using good that by (fastforce simp: good_fill_def)
  ultimately show "\<forall>f \<in> set (all_fills rs). fill_ok s f" by (simp add: fill_ok_def)
  have "distinct (map (\<lambda>x. okey (o_ID x)) (Orders_GetList s))"
    using inv kv_keyed_distinct [of "\<lambda>x. okey (o_ID x)" "os_orders s"] by (simp add: ord_inv_def Orders_GetList_def)
  then have "distinct (map o_ID (Orders_GetList s))" by (simp add: distinct_map inj_on_def)
  moreover have "mset (map o_ID (map f_Order (all_fills rs))) \<subseteq># mset (map o_ID (Orders_GetList s))"
    using image_mset_subseteq_mono [OF sub, of o_ID] by (simp only: mset_map)
  ultimately have "distinct (map o_ID (map f_Order (all_fills rs)))"
    using distinct_submset by blast
  then show "distinct (map (\<lambda>f. o_ID (f_Order f)) (all_fills rs))" by (simp add: comp_def)
qed

section \<open>The pool is processed completely\<close>

definition market_crosses :: "ID \<Rightarrow> Order list \<Rightarrow> bool" where
  "market_crosses i xs \<longleftrightarrow> (\<exists>a \<in> set (market_side Ask i xs). \<exists>b \<in> set (market_side Bid i xs). o_Price a \<le> o_Price b)"

lemma process_loop_total:
  "\<forall>(k, m) \<in> set pool. fst (Match S srt m) \<noteq> Panic \<and> fst (Match S srt m) \<noteq> Err ObErrInternal \<Longrightarrow>
   \<exists>rs1. process_loop S srt pool rs0 = Ok (rs0 @ rs1) \<and> set rs1 = {r. \<exists>(k, m) \<in> set pool. fst (Match S srt m) = Ok r}"
proof (induction pool arbitrary: rs0)
  case (Cons p pool)
  obtain k m where p: "p = (k, m)" by (cases p)
  show ?case
  proof (cases "fst (Match S srt m)")
    case (Ok r)
    from Cons.IH [of "rs0 @ [r]"] Cons.prems obtain rs1 where
      "process_loop S srt pool (rs0 @ [r]) = Ok (rs0 @ [r] @ rs1)" "set rs1 = {r. \<exists>(k, m) \<in> set pool. fst (Match S srt m) = Ok r}"
      by auto
    with Ok p show ?thesis by (intro exI [of _ "r # rs1"]) auto
  next
    case (Err e)
    from Cons.IH [of rs0] Cons.prems obtain rs1 where
      "process_loop S srt pool rs0 = Ok (rs0 @ rs1)" "set rs1 = {r. \<exists>(k, m) \<in> set pool. fst (Match S srt m) = Ok r}" by auto
    with Err p Cons.prems show ?thesis by (intro exI [of _ rs1]) auto
  qed (use Cons.prems p in simp)
qed simp

text \<open>Orders small enough for exact arithmetic.\<close>

definition exact_orders :: "Order list \<Rightarrow> bool" where
  "exact_orders xs \<longleftrightarrow> (\<forall>x \<in> set xs. matchable x \<and> o_Price x < 2 ^ 255) \<and> int (total_quantity xs) < exact_limit \<and> length xs \<le> MaxInt"

lemma side_total: "total_quantity (market_side d i xs) \<le> total_quantity xs"
  using filter_sum_le [of _ xs] by (simp add: market_side_def total_quantity_def)

lemma matcher_of_match:
  assumes laws: "dec_laws S" "uint_laws S" and srt: "sorts_by_diff srt" and x: "exact_orders xs"
  shows "if market_crosses i xs
    then \<exists>r. fst (Match S srt (matcher_of i xs)) = Ok r \<and> mr_MarketID r = i \<and>
           match_spec (market_side Bid i xs) (market_side Ask i xs) r
    else \<exists>e. fst (Match S srt (matcher_of i xs)) = Err e \<and> e \<noteq> ObErrInternal"
proof -
  let ?m = "matcher_of i xs" and ?b = "market_side Bid i xs" and ?a = "market_side Ask i xs"
  have sides: "mt_bid ?m = ?b" "mt_ask ?m = ?a" "mt_marketID ?m = i" by (simp_all add: matcher_of_def NewMatcher_def)
  have tot: "int (total_quantity (mt_bid ?m)) < exact_limit" "int (total_quantity (mt_ask ?m)) < exact_limit"
    using x side_total [of Bid i xs] side_total [of Ask i xs] by (simp_all add: exact_orders_def sides)
  have q: "\<forall>x \<in> set ?a \<union> set ?b. 0 < o_Quantity x \<and> 0 < o_Price x \<and> o_Price x < 2 ^ 255"
    using x unfolding exact_orders_def matchable_def market_side_def by auto
  show ?thesis
  proof (cases "market_crosses i xs")
    case True
    then have tr: "tradable (mt_ask ?m) (mt_bid ?m)" using q unfolding tradable_def sides market_crosses_def by blast
    from Match_ok [OF laws srt tr tot] True show ?thesis by (auto simp: sides)
  next
    case False
    then have "\<forall>a \<in> set (mt_ask ?m). \<forall>b \<in> set (mt_bid ?m). o_Price b < o_Price a"
      by (auto simp: market_crosses_def sides not_le)
    moreover have "\<forall>x \<in> set (mt_bid ?m) \<union> set (mt_ask ?m). 0 < o_Quantity x" using q unfolding sides by blast
    moreover have "total_quantity (mt_bid ?m) < 2 ^ 256" "total_quantity (mt_ask ?m) < 2 ^ 256" using tot by simp_all
    ultimately obtain m' where
      "Match S srt ?m = (Err (if mt_ask ?m = [] \<or> mt_bid ?m = [] then ObErrEmptyOrders else ObErrNoCross), m')"
      using Match_no_cross [OF laws(2), of ?m srt] by blast
    then show ?thesis using False by simp
  qed
qed

end
