(* ===== verification/OB_History.thy ===== *)
theory OB_History
  imports OB_Props
begin

text \<open>
  The history of clearance states kept by \<open>x/orderbook\<close>: a query over a range of heights returns exactly the items of
  the market in that range in the order of heights, squashing for a restart keeps exactly the latest item of every
  market at height zero, and an exported history can be imported again.
\<close>

section \<open>Keys\<close>

definition hkey :: "ID \<Rightarrow> nat \<Rightarrow> bytes" where
  "hkey i h = ''history_item:'' @ be64 i @ '':'' @ be64 h"

definition item_key :: "HistoryItem \<Rightarrow> bytes" where
  "item_key x = hkey (h_MarketID x) (nat (h_BlockHeight x))"

lemma GetHistoryItemKey_eq:
  "\<lbrakk>0 \<le> h; h < 2 ^ 64\<rbrakk> \<Longrightarrow> GetHistoryItemKey i h = (if i < 2 ^ 64 then Some (hkey i (nat h)) else None)"
  by (simp add: GetHistoryItemKey_def ID_UInt64_def hkey_def)

lemma hkey_less_iff:
  "\<lbrakk>i < 2 ^ 64; j < 2 ^ 64; a < 2 ^ 64; b < 2 ^ 64\<rbrakk> \<Longrightarrow> hkey i a < hkey j b \<longleftrightarrow> i < j \<or> (i = j \<and> a < b)"
  unfolding hkey_def by (simp add: append_less_iff be64_less_iff be64_inject)

lemma hkey_inject:
  "\<lbrakk>i < 2 ^ 64; j < 2 ^ 64; a < 2 ^ 64; b < 2 ^ 64\<rbrakk> \<Longrightarrow> hkey i a = hkey j b \<longleftrightarrow> i = j \<and> a = b"
  unfolding hkey_def by (simp add: be64_inject)

section \<open>Invariant\<close>

definition item_ok :: "int \<Rightarrow> int \<Rightarrow> HistoryItem \<Rightarrow> bool" where
  "item_ok t h x \<longleftrightarrow>
     h_MarketID x < 2 ^ 64 \<and> 0 \<le> h_BlockHeight x \<and> h_BlockHeight x \<le> h \<and> h_ClearancePrice x \<noteq> 0 \<and>
     0 \<le> h_BidOrdersCount x \<and> 0 \<le> h_AskOrdersCount x \<and> 0 \<le> h_Timestamp x \<and> h_Timestamp x * 1000000000 \<le> t"

definition hist_inv :: "int \<Rightarrow> int \<Rightarrow> ob_state \<Rightarrow> bool" where
  "hist_inv t h s \<longleftrightarrow> h < 2 ^ 63 \<and> kv_keyed item_key (ob_history s) \<and> (\<forall>x \<in> set (GetHistoryItemsList s). item_ok t h x)"

lemma item_key_of:
  "item_ok t h x \<Longrightarrow> h < 2 ^ 63 \<Longrightarrow> GetHistoryItemKey (h_MarketID x) (h_BlockHeight x) = Some (item_key x)"
  by (simp add: item_ok_def item_key_def GetHistoryItemKey_eq)

lemma item_ok_mono: "\<lbrakk>item_ok t h x; t \<le> t'; h \<le> h'\<rbrakk> \<Longrightarrow> item_ok t' h' x"
  by (auto simp: item_ok_def)

lemma hist_inv_mono: "\<lbrakk>hist_inv t h s; t \<le> t'; h \<le> h'; h' < 2 ^ 63\<rbrakk> \<Longrightarrow> hist_inv t' h' s"
  by (auto simp: hist_inv_def intro: item_ok_mono)

lemma SetHistoryItem_inv:
  assumes inv: "hist_inv t h s" and x: "item_ok t h x"
  shows "\<exists>s'. SetHistoryItem x s = Some s' \<and> hist_inv t h s' \<and> ob_orders s' = ob_orders s \<and>
    ob_history s' = kv_set (item_key x) x (ob_history s)"
proof -
  from inv have kv: "kv_keyed item_key (ob_history s)" and h: "h < 2 ^ 63" by (simp_all add: hist_inv_def)
  have "set (kv_vals (kv_set (item_key x) x (ob_history s))) \<subseteq> insert x (set (kv_vals (ob_history s)))"
    using kv_keyed_vals_set [OF kv] by auto
  with inv x kv show ?thesis
    by (auto simp: SetHistoryItem_def item_key_of [OF x h] hist_inv_def GetHistoryItemsList_def)
qed

lemma GetHistoryItem_iff:
  assumes inv: "hist_inv t h s" and b: "i < 2 ^ 64" "0 \<le> n" "n < 2 ^ 63"
  shows "GetHistoryItem s i n = Ok x \<longleftrightarrow> x \<in> set (GetHistoryItemsList s) \<and> h_MarketID x = i \<and> h_BlockHeight x = n"
proof -
  from inv have kv: "kv_keyed item_key (ob_history s)" and ok: "\<forall>x \<in> set (GetHistoryItemsList s). item_ok t h x"
    and h: "h < 2 ^ 63" by (simp_all add: hist_inv_def)
  have key: "GetHistoryItemKey i n = Some (hkey i (nat n))" using b by (simp add: GetHistoryItemKey_eq)
  have eq: "item_key y = hkey i (nat n) \<longleftrightarrow> h_MarketID y = i \<and> h_BlockHeight y = n" if "y \<in> set (GetHistoryItemsList s)" for y
  proof -
    have y: "h_MarketID y < 2 ^ 64" "0 \<le> h_BlockHeight y" "h_BlockHeight y < 2 ^ 63" using ok that h by (auto simp: item_ok_def)
    then have "nat (h_BlockHeight y) < 2 ^ 64" "nat n < 2 ^ 64" using b by simp_all
    with hkey_inject [of "h_MarketID y" i "nat (h_BlockHeight y)" "nat n"] y b show ?thesis
      by (simp add: item_key_def eq_nat_nat_iff)
  qed
  have "GetHistoryItem s i n = Ok x \<longleftrightarrow> kv_get (hkey i (nat n)) (ob_history s) = Some x"
    by (simp add: GetHistoryItem_def key split: option.splits)
  also have "\<dots> \<longleftrightarrow> x \<in> set (GetHistoryItemsList s) \<and> item_key x = hkey i (nat n)"
    using kv_keyed_get_Some [OF kv] kv_keyed_get_vals [OF kv] by (metis GetHistoryItemsList_def)
  also have "\<dots> \<longleftrightarrow> x \<in> set (GetHistoryItemsList s) \<and> h_MarketID x = i \<and> h_BlockHeight x = n" using eq by blast
  finally show ?thesis .
qed

section \<open>Blocks\<close>

lemma Match_price: "fst (Match S srt m) = Ok r \<Longrightarrow> cs_Price (mr_ClearanceState r) \<noteq> 0"
  by (auto simp: Match_def Let_def GetClearanceState_def clearance_volumes_def bind_res_Ok_iff bind_eq_Some_conv
      split: option.splits res.splits prod.splits if_splits)

lemma NewHistoryItem_ok:
  assumes n: "NewHistoryItem S t h r = Some x" and p: "cs_Price (mr_ClearanceState r) \<noteq> 0" and m: "mr_MarketID r < 2 ^ 64"
    and b: "0 \<le> t" "0 \<le> h"
  shows "item_ok t h x"
proof -
  have "t div 1000000000 * 1000000000 \<le> t" using mult_div_mod_eq [of 1000000000 t] pos_mod_sign [of 1000000000 t] by linarith
  then show ?thesis
    using n p m b by (auto simp: NewHistoryItem_def item_ok_def bind_eq_Some_conv pos_imp_zdiv_nonneg_iff)
qed

lemma results_loop_hist:
  assumes b: "0 \<le> t" "0 \<le> h"
  shows "\<lbrakk>hist_inv t h s; \<forall>r \<in> set rs. cs_Price (mr_ClearanceState r) \<noteq> 0; results_loop S B t h rs s = (Ok (), s')\<rbrakk> \<Longrightarrow> hist_inv t h s'"
proof (induction rs arbitrary: s)
  case (Cons r rs)
  from Cons.prems(3) obtain os x s2 where x: "NewHistoryItem S t h r = Some x"
    and s2: "SetHistoryItem x (s\<lparr>ob_orders := os\<rparr>) = Some s2" and r: "results_loop S B t h rs s2 = (Ok (), s')"
    by (auto simp: Let_def bind_eq_Some_conv split: prod.splits res.splits option.splits)
  have "h_MarketID x = mr_MarketID r" using x by (auto simp: NewHistoryItem_def bind_eq_Some_conv)
  then have "mr_MarketID r < 2 ^ 64" using s2
    by (auto simp: SetHistoryItem_def GetHistoryItemKey_def ID_UInt64_def split: if_splits)
  then have ok: "item_ok t h x" using NewHistoryItem_ok [OF x _ _ b] Cons.prems(2) by simp
  have "hist_inv t h (s\<lparr>ob_orders := os\<rparr>)" using Cons.prems(1) by (simp add: hist_inv_def GetHistoryItemsList_def)
  from SetHistoryItem_inv [OF this ok] s2 have "hist_inv t h s2" by auto
  from Cons.IH [OF this _ r] Cons.prems(2) show ?case by simp
qed simp

section \<open>Genesis\<close>

lemma ob_validate_loop_ok:
  "\<lbrakk>\<forall>x \<in> set xs. item_ok t h x; distinct (map (\<lambda>x. (h_MarketID x, h_BlockHeight x)) xs);
    \<forall>x \<in> set xs. (h_MarketID x, h_BlockHeight x) \<notin> set seen; mx \<le> h\<rbrakk> \<Longrightarrow>
   \<exists>m. ob_validate_loop t mx seen xs = Ok m \<and> m \<le> h"
proof (induction xs arbitrary: mx seen)
  case (Cons x xs)
  have x: "item_ok t h x" using Cons.prems(1) by simp
  then have v: "HistoryItem_Valid (Some (h_MarketID x)) x = Ok ()"
    by (simp add: HistoryItem_Valid_def ID_Valid_def item_ok_def)
  have t: "\<not> (t \<noteq> time_zero \<and> t < h_Timestamp x * 1000000000)" using x by (simp add: item_ok_def)
  have "\<exists>m. ob_validate_loop t (if mx < h_BlockHeight x then h_BlockHeight x else mx)
      ((h_MarketID x, h_BlockHeight x) # seen) xs = Ok m \<and> m \<le> h"
  proof (intro Cons.IH)
    show "\<forall>y \<in> set xs. (h_MarketID y, h_BlockHeight y) \<notin> set ((h_MarketID x, h_BlockHeight x) # seen)"
      using Cons.prems(2,3) by (simp add: image_iff) metis
    show "(if mx < h_BlockHeight x then h_BlockHeight x else mx) \<le> h" using x Cons.prems(4) by (simp add: item_ok_def)
  qed (use Cons.prems in simp_all)
  with v t Cons.prems(3) show ?case by simp
qed simp

lemma hist_inv_distinct:
  assumes "hist_inv t h s"
  shows "distinct (map (\<lambda>x. (h_MarketID x, h_BlockHeight x)) (GetHistoryItemsList s))"
proof -
  have "distinct (map item_key (GetHistoryItemsList s))"
    using assms kv_keyed_distinct [of item_key "ob_history s"] by (simp add: hist_inv_def GetHistoryItemsList_def)
  then show ?thesis by (auto simp: distinct_map inj_on_def item_key_def)
qed

lemma set_items_spec:
  "\<lbrakk>hist_inv t h s; \<forall>x \<in> set xs. item_ok t h x\<rbrakk> \<Longrightarrow>
   \<exists>s'. set_items xs s = Some s' \<and> hist_inv t h s' \<and> ob_orders s' = ob_orders s \<and>
     ob_history s' = foldl (\<lambda>st x. kv_set (item_key x) x st) (ob_history s) xs"
proof (induction xs arbitrary: s)
  case (Cons x xs)
  from SetHistoryItem_inv [OF Cons.prems(1), of x] Cons.prems(2) obtain s1 where
    s1: "SetHistoryItem x s = Some s1" "hist_inv t h s1" "ob_orders s1 = ob_orders s"
      "ob_history s1 = kv_set (item_key x) x (ob_history s)" by auto
  from Cons.IH [OF s1(2)] Cons.prems(2) s1 show ?case by auto
qed simp

lemma set_items_ids: "set_items xs s = Some s' \<Longrightarrow> \<forall>x \<in> set xs. h_MarketID x < 2 ^ 64"
  by (induction xs arbitrary: s)
    (auto simp: bind_eq_Some_conv SetHistoryItem_def GetHistoryItemKey_def ID_UInt64_def split: if_splits)

lemma ob_validate_loop_items:
  "\<lbrakk>ob_validate_loop t mx seen xs = Ok m; t \<noteq> time_zero\<rbrakk> \<Longrightarrow>
   mx \<le> m \<and> (\<forall>x \<in> set xs. h_MarketID x < 2 ^ 64 \<longrightarrow> item_ok t m x)"
proof (induction xs arbitrary: mx seen)
  case (Cons x xs)
  let ?mx = "if mx < h_BlockHeight x then h_BlockHeight x else mx"
  from Cons.prems have v: "HistoryItem_Valid (Some (h_MarketID x)) x = Ok ()" and t: "h_Timestamp x * 1000000000 \<le> t"
    and r: "ob_validate_loop t ?mx ((h_MarketID x, h_BlockHeight x) # seen) xs = Ok m"
    by (auto simp: bind_res_Ok_iff split: if_splits)
  note IH = Cons.IH [OF r Cons.prems(2)]
  have "item_ok t m x" if "h_MarketID x < 2 ^ 64"
    using v t IH that by (auto simp: HistoryItem_Valid_def item_ok_def split: if_splits)
  with IH show ?case by (auto split: if_splits)
qed simp

lemma OB_InitGenesis_inv:
  assumes i: "OB_InitGenesis t h items \<lparr>ob_history = [], ob_orders = os\<rparr> = (Ok (), s)" and b: "0 \<le> t" "0 \<le> h" "h < 2 ^ 63"
  shows "hist_inv t h s"
proof -
  from i obtain m where v: "ob_validate_loop t 0 [] items = Ok m" "m \<le> h"
    and st: "set_items items \<lparr>ob_history = [], ob_orders = os\<rparr> = Some s"
    using b by (auto simp: OB_InitGenesis_def OBGenesis_Validate_def bind_res_Ok_iff split: res.splits option.splits if_splits)
  have tz: "t \<noteq> time_zero" using b by (simp add: time_zero_def)
  have "\<forall>x \<in> set items. item_ok t h x"
    using ob_validate_loop_items [OF v(1) tz] set_items_ids [OF st] v(2) by (auto intro: item_ok_mono)
  moreover have "hist_inv t h \<lparr>ob_history = [], ob_orders = os\<rparr>" using b by (simp add: hist_inv_def GetHistoryItemsList_def kv_vals_def)
  ultimately show ?thesis using set_items_spec st by (metis option.inject)
qed

section \<open>Reachable histories\<close>

text \<open>The states of the module from a genesis and after blocks with increasing times and heights; the orders change in between.\<close>

inductive hist_reach :: "sdk \<Rightarrow> bank \<Rightarrow> int \<Rightarrow> int \<Rightarrow> ob_state \<Rightarrow> bool" for S :: sdk and B :: bank where
  hist_start: "\<lbrakk>0 \<le> t; 0 \<le> h; h < 2 ^ 63; OB_InitGenesis t h items \<lparr>ob_history = [], ob_orders = os\<rparr> = (Ok (), s)\<rbrakk> \<Longrightarrow> hist_reach S B t h s"
| hist_orders: "hist_reach S B t h s \<Longrightarrow> hist_reach S B t h (s\<lparr>ob_orders := os\<rparr>)"
| hist_block: "\<lbrakk>hist_reach S B t h s; t \<le> t'; h \<le> h'; h' < 2 ^ 63; uint_laws S;
    OB_EndBlocker S B srt visit t' h' s = (Ok (), s')\<rbrakk> \<Longrightarrow> hist_reach S B t' h' s'"

lemma hist_reach_inv: "hist_reach S B t h s \<Longrightarrow> 0 \<le> t \<and> 0 \<le> h \<and> hist_inv t h s"
proof (induction rule: hist_reach.induct)
  case (hist_start t h items os s)
  then show ?case using OB_InitGenesis_inv by blast
next
  case (hist_block t h s t' h' srt visit s')
  from hist_block.hyps(6) obtain pool rs where rs: "Pool_Process S srt visit pool = Ok rs"
    and r: "results_loop S B t' h' rs s = (Ok (), s')"
    by (auto simp: OB_EndBlocker_def split: option.splits res.splits)
  have "\<forall>r \<in> set rs. cs_Price (mr_ClearanceState r) \<noteq> 0"
    using process_loop_struct [OF hist_block.hyps(5) rs [unfolded Pool_Process_def]] Match_price by fastforce
  moreover have "hist_inv t' h' s" using hist_block by (auto intro: hist_inv_mono)
  ultimately show ?case using results_loop_hist [OF _ _ _ _ r] hist_block by auto
qed (auto simp: hist_inv_def GetHistoryItemsList_def kv_vals_def)

section \<open>Range queries\<close>

lemma hist_key_snd: "\<lbrakk>kv_keyed item_key st; p \<in> set st\<rbrakk> \<Longrightarrow> fst p = item_key (snd p)"
  unfolding kv_keyed_def by (metis kv_get_iff prod.collapse)

lemma kv_range_keyed:
  "kv_keyed item_key st \<Longrightarrow>
   kv_vals (kv_range lo hi st) = filter (\<lambda>x. lo \<le> item_key x \<and> item_key x < hi) (kv_vals st)"
  using hist_key_snd [of st] unfolding kv_vals_def kv_range_def filter_map comp_def
  by (intro arg_cong [where f = "map snd"] filter_cong) auto

lemma hist_keys_sorted: "kv_keyed item_key st \<Longrightarrow> sorted_wrt (\<lambda>x y. item_key x < item_key y) (kv_vals st)"
proof -
  assume k: "kv_keyed item_key st"
  then have "map fst st = map item_key (kv_vals st)" using hist_key_snd [OF k] by (simp add: kv_vals_def)
  then have "sorted_wrt (<) (map item_key (kv_vals st))" using k by (metis kv_keyed_def kv_wf_def)
  then show ?thesis by (simp add: sorted_wrt_map)
qed

section \<open>Squashing\<close>

definition is_latest :: "HistoryItem list \<Rightarrow> HistoryItem \<Rightarrow> bool" where
  "is_latest xs e \<longleftrightarrow> e \<in> set xs \<and> (\<forall>g \<in> set xs. h_MarketID g = h_MarketID e \<longrightarrow> h_BlockHeight g \<le> h_BlockHeight e)"

definition squash_ok :: "HistoryItem list \<Rightarrow> (string \<times> HistoryItem) list \<Rightarrow> bool" where
  "squash_ok xs items \<longleftrightarrow>
     distinct (map fst items) \<and> (\<forall>(k, e) \<in> set items. k = ID_String (h_MarketID e) \<and> is_latest xs e) \<and>
     (\<forall>g \<in> set xs. ID_String (h_MarketID g) \<in> fst ` set items)"

lemma is_latest_snoc_other:
  "\<lbrakk>is_latest xs e; h_MarketID x \<noteq> h_MarketID e \<or> h_BlockHeight x \<le> h_BlockHeight e\<rbrakk> \<Longrightarrow> is_latest (xs @ [x]) e"
  by (auto simp: is_latest_def)

lemma squash_ok_step:
  fixes x :: HistoryItem
  assumes ok: "squash_ok xs items"
  defines "k \<equiv> ID_String (h_MarketID x)"
  shows "squash_ok (xs @ [x]) (case map_of items k of
      None \<Rightarrow> AList.update k x items
    | Some e \<Rightarrow> if h_BlockHeight e < h_BlockHeight x then AList.update k x items else items)" (is "squash_ok _ ?items")
proof -
  have d: "distinct (map fst items)" and mem: "\<And>j e. (j, e) \<in> set items \<Longrightarrow> j = ID_String (h_MarketID e) \<and> is_latest xs e"
    and all: "\<And>g. g \<in> set xs \<Longrightarrow> ID_String (h_MarketID g) \<in> fst ` set items" using ok by (auto simp: squash_ok_def)
  have others: "is_latest (xs @ [x]) e" if "(j, e) \<in> set items" "j \<noteq> k" for j e
    using mem [OF that(1)] that(2) by (intro is_latest_snoc_other) (auto simp: k_def)
  have upd: "squash_ok (xs @ [x]) (AList.update k x items)" if "is_latest (xs @ [x]) x"
    unfolding squash_ok_def
  proof (intro conjI)
    show "distinct (map fst (AList.update k x items))" using d by (rule distinct_update)
    show "\<forall>g \<in> set (xs @ [x]). ID_String (h_MarketID g) \<in> fst ` set (AList.update k x items)"
      using all by (auto simp: dom_update k_def)
    show "\<forall>(j, e) \<in> set (AList.update k x items). j = ID_String (h_MarketID e) \<and> is_latest (xs @ [x]) e"
    proof (clarify)
      fix j e assume "(j, e) \<in> set (AList.update k x items)"
      then have "map_of (AList.update k x items) j = Some e" using distinct_update [OF d] by simp
      then show "j = ID_String (h_MarketID e) \<and> is_latest (xs @ [x]) e"
        using that mem others by (auto simp: update_conv' k_def split: if_splits dest: map_of_SomeD)
    qed
  qed
  show ?thesis
  proof (cases "map_of items k")
    case None
    then have "k \<notin> fst ` set items" by (simp add: map_of_eq_None_iff)
    then have "is_latest (xs @ [x]) x" using all by (force simp: is_latest_def k_def)
    with None upd show ?thesis by simp
  next
    case (Some e)
    then have e: "(k, e) \<in> set items" by (rule map_of_SomeD)
    then have le: "h_MarketID e = h_MarketID x" "is_latest xs e" using mem [OF e] unfolding k_def by (metis ID_String_eq)+
    show ?thesis
    proof (cases "h_BlockHeight e < h_BlockHeight x")
      case True
      then have "is_latest (xs @ [x]) x" using le by (fastforce simp: is_latest_def)
      with Some True upd show ?thesis by simp
    next
      case False
      have "is_latest (xs @ [x]) f" if "(j, f) \<in> set items" for j f
      proof (cases "j = k")
        case True
        then have "f = e" using that e d by (metis eq_key_imp_eq_value)
        with le False show ?thesis by (intro is_latest_snoc_other) auto
      qed (use others that in blast)
      moreover have "\<forall>g \<in> set (xs @ [x]). ID_String (h_MarketID g) \<in> fst ` set items"
        using all e by (force simp: k_def)
      ultimately show ?thesis using Some False d mem by (auto simp: squash_ok_def)
    qed
  qed
qed

lemma ob_squash_loop_spec:
  "\<lbrakk>h < 2 ^ 63; \<forall>x \<in> set xs. item_ok t h x; squash_ok ys items\<rbrakk> \<Longrightarrow>
   \<exists>items'. ob_squash_loop xs items s =
      Some (items', s\<lparr>ob_history := foldl (\<lambda>st x. kv_del (item_key x) st) (ob_history s) xs\<rparr>) \<and> squash_ok (ys @ xs) items'"
proof (induction xs arbitrary: ys items s)
  case (Cons x xs)
  have key: "GetHistoryItemKey (h_MarketID x) (h_BlockHeight x) = Some (item_key x)"
    using Cons.prems(1,2) by (intro item_key_of) auto
  from Cons.IH [OF Cons.prems(1) _ squash_ok_step [OF Cons.prems(3), of x], of "s\<lparr>ob_history := kv_del (item_key x) (ob_history s)\<rparr>"]
    Cons.prems(2) show ?case by (simp add: key Let_def)
qed simp

lemma foldl_del_all:
  "kv_keyed item_key st \<Longrightarrow> set (kv_vals (foldl (\<lambda>st x. kv_del (item_key x) st) st xs)) =
     {y \<in> set (kv_vals st). item_key y \<notin> item_key ` set xs}"
  by (induction xs arbitrary: st) (auto simp: kv_keyed_vals_del)

lemma foldl_set_vals:
  "\<lbrakk>kv_keyed item_key st; distinct (map item_key xs)\<rbrakk> \<Longrightarrow>
   set (kv_vals (foldl (\<lambda>st x. kv_set (item_key x) x st) st xs)) = set xs \<union> {y \<in> set (kv_vals st). item_key y \<notin> item_key ` set xs}"
proof (induction xs arbitrary: st)
  case (Cons x xs)
  have "item_key x \<notin> item_key ` set xs" using Cons.prems(2) by auto
  then show ?case using Cons.IH [of "kv_set (item_key x) x st"] Cons.prems by (auto simp: kv_keyed_vals_set)
qed simp

section \<open>Properties\<close>

text \<open>
  C31. A query of the history for a market and a range of heights returns exactly the stored items of that market
  between the two heights, both included, in increasing order of height, whatever other markets and heights are stored.
\<close>

theorem history_range_query:
  assumes "hist_reach S B t h s" and "i < 2 ^ 64" and "0 \<le> a" and "a < 2 ^ 63" and "0 \<le> b" and "b < 2 ^ 63"
  shows "\<exists>xs. GetHistoryItemsInBlockHeightRange s i a b = Some xs \<and>
    xs = filter (\<lambda>x. h_MarketID x = i \<and> a \<le> h_BlockHeight x \<and> h_BlockHeight x \<le> b) (GetHistoryItemsList s) \<and>
    sorted_wrt (<) (map h_BlockHeight xs)"
proof -
  from hist_reach_inv [OF assms(1)] have kv: "kv_keyed item_key (ob_history s)" and h: "h < 2 ^ 63"
    and ok: "\<forall>x \<in> set (GetHistoryItemsList s). item_ok t h x" by (auto simp: hist_inv_def)
  have keys: "GetHistoryItemKey i a = Some (hkey i (nat a))" "GetHistoryItemKey i (b + 1) = Some (hkey i (nat (b + 1)))"
    using assms by (simp_all add: GetHistoryItemKey_eq)
  have cmp: "hkey i n \<le> item_key x \<longleftrightarrow> (i < h_MarketID x \<or> i = h_MarketID x \<and> int n \<le> h_BlockHeight x)"
    "item_key x < hkey i n \<longleftrightarrow> (h_MarketID x < i \<or> h_MarketID x = i \<and> h_BlockHeight x < int n)"
    if "x \<in> set (GetHistoryItemsList s)" "n < 2 ^ 64" for x n
  proof -
    have x: "h_MarketID x < 2 ^ 64" "0 \<le> h_BlockHeight x" "nat (h_BlockHeight x) < 2 ^ 64"
      using ok that(1) h by (auto simp: item_ok_def)
    show "item_key x < hkey i n \<longleftrightarrow> (h_MarketID x < i \<or> h_MarketID x = i \<and> h_BlockHeight x < int n)"
      unfolding item_key_def using hkey_less_iff [OF x(1) assms(2) x(3) that(2)] x(2) by (auto simp: nat_less_iff)
    then show "hkey i n \<le> item_key x \<longleftrightarrow> (i < h_MarketID x \<or> i = h_MarketID x \<and> int n \<le> h_BlockHeight x)"
      by (auto simp: not_less [symmetric])
  qed
  define xs where "xs = filter (\<lambda>x. h_MarketID x = i \<and> a \<le> h_BlockHeight x \<and> h_BlockHeight x \<le> b) (GetHistoryItemsList s)"
  have n: "nat a < 2 ^ 64" "nat (b + 1) < 2 ^ 64" using assms by simp_all
  have "kv_vals (kv_range (hkey i (nat a)) (hkey i (nat (b + 1))) (ob_history s)) = xs"
    unfolding kv_range_keyed [OF kv] xs_def GetHistoryItemsList_def
    by (rule filter_cong [OF refl]) (use cmp n assms in \<open>auto simp: GetHistoryItemsList_def\<close>)
  moreover have "sorted_wrt (\<lambda>x y. h_BlockHeight x < h_BlockHeight y) xs"
  proof (rule sorted_wrt_mono_rel)
    show "sorted_wrt (\<lambda>x y. item_key x < item_key y) xs"
      unfolding xs_def GetHistoryItemsList_def by (rule sorted_wrt_filter [OF hist_keys_sorted [OF kv]])
    fix x y assume xy: "x \<in> set xs" "y \<in> set xs" "item_key x < item_key y"
    then have "h_MarketID y = i" "0 \<le> h_BlockHeight y" "nat (h_BlockHeight y) < 2 ^ 64" "x \<in> set (GetHistoryItemsList s)" "h_MarketID x = i"
      using ok h by (auto simp: xs_def item_ok_def)
    then show "h_BlockHeight x < h_BlockHeight y" using cmp(2) [of x "nat (h_BlockHeight y)"] xy(3) by (auto simp: item_key_def)
  qed
  ultimately show ?thesis
    by (simp add: GetHistoryItemsInBlockHeightRange_def keys xs_def [symmetric] sorted_wrt_map)
qed

text \<open>
  Preparing the state for a restart at height zero keeps, for every market with a history, exactly its latest item,
  moved to height zero.
\<close>

theorem history_squash:
  assumes "hist_reach S B t h s" and "\<And>items. mset (visit items) = mset items"
  shows "\<exists>s'. OB_PrepareForZeroHeight visit s = Some s' \<and> ob_orders s' = ob_orders s \<and>
    set (GetHistoryItemsList s') = {x\<lparr>h_BlockHeight := 0\<rparr> | x. is_latest (GetHistoryItemsList s) x}"
proof -
  let ?xs = "GetHistoryItemsList s"
  from hist_reach_inv [OF assms(1)] have inv: "hist_inv t h s" and kv: "kv_keyed item_key (ob_history s)"
    and h: "0 \<le> h" "h < 2 ^ 63" and ok: "\<forall>x \<in> set ?xs. item_ok t h x" by (auto simp: hist_inv_def)
  have "squash_ok [] []" by (simp add: squash_ok_def)
  from ob_squash_loop_spec [OF h(2) ok this, of s] obtain items where
    sq: "ob_squash_loop ?xs [] s = Some (items, s\<lparr>ob_history := foldl (\<lambda>st x. kv_del (item_key x) st) (ob_history s) ?xs\<rparr>)"
    and items: "squash_ok ?xs items" by auto
  have "set (kv_vals (foldl (\<lambda>st x. kv_del (item_key x) st) (ob_history s) ?xs)) = {}"
    unfolding foldl_del_all [OF kv] by (auto simp: GetHistoryItemsList_def)
  then have empty: "foldl (\<lambda>st x. kv_del (item_key x) st) (ob_history s) ?xs = []" by (simp add: kv_vals_def)
  define zs where "zs = map (\<lambda>(k, x). x\<lparr>h_BlockHeight := 0\<rparr>) (visit items)"
  have st: "set (visit items) = set items" and ms: "mset (visit items) = mset items" using assms(2) mset_eq_setD by blast+
  have latest: "{e. \<exists>k. (k, e) \<in> set items} = {x. is_latest ?xs x}"
  proof (intro set_eqI iffI; clarify)
    fix x assume x: "is_latest ?xs x"
    then obtain k e where ke: "(k, e) \<in> set items" "k = ID_String (h_MarketID x)"
      using items by (force simp: squash_ok_def is_latest_def)
    then have e: "h_MarketID e = h_MarketID x" "is_latest ?xs e" using items by (auto simp: squash_ok_def)
    then have "h_BlockHeight e = h_BlockHeight x" using x by (metis is_latest_def order_antisym)
    then have "e = x" using e x hist_inv_distinct [OF inv] by (auto simp: is_latest_def distinct_map inj_on_def)
    with ke show "\<exists>k. (k, x) \<in> set items" by blast
  qed (use items in \<open>auto simp: squash_ok_def\<close>)
  have zset: "set zs = {x\<lparr>h_BlockHeight := 0\<rparr> | x. is_latest ?xs x}"
  proof -
    have "set zs = (\<lambda>x. x\<lparr>h_BlockHeight := 0\<rparr>) ` {e. \<exists>k. (k, e) \<in> set items}"
      unfolding zs_def set_map st by force
    then show ?thesis unfolding latest by blast
  qed
  have zok: "\<forall>x \<in> set zs. item_ok t h x" using zset ok h by (auto simp: is_latest_def item_ok_def)
  have "hist_inv t h (s\<lparr>ob_history := []\<rparr>)" using h by (simp add: hist_inv_def GetHistoryItemsList_def kv_vals_def)
  from set_items_spec [OF this zok] obtain s' where s': "set_items zs (s\<lparr>ob_history := []\<rparr>) = Some s'"
    "ob_orders s' = ob_orders s" "ob_history s' = foldl (\<lambda>st x. kv_set (item_key x) x st) [] zs" by auto
  have "distinct (map item_key zs)"
  proof -
    have "distinct (map fst (visit items))" using items ms by (metis mset_eq_imp_distinct_iff mset_map squash_ok_def)
    moreover have "map fst (visit items) = map (\<lambda>z. ID_String (h_MarketID z)) zs"
      unfolding zs_def using items st by (auto simp: squash_ok_def)
    ultimately have "distinct (map (\<lambda>z. ID_String (h_MarketID z)) zs)" by simp
    moreover have "item_key z = hkey (h_MarketID z) 0 \<and> h_MarketID z < 2 ^ 64" if z: "z \<in> set zs" for z
    proof -
      have "h_BlockHeight z = 0" using z zset by auto
      moreover have "item_ok t h z" using z zok by blast
      ultimately show ?thesis by (simp add: item_key_def item_ok_def)
    qed
    then have "h_MarketID x = h_MarketID y" if "x \<in> set zs" "y \<in> set zs" "item_key x = item_key y" for x y
      using that hkey_inject [of "h_MarketID x" "h_MarketID y" 0 0] by simp
    ultimately show ?thesis unfolding distinct_map inj_on_def by (metis ID_String_eq)
  qed
  from foldl_set_vals [OF _ this, of "[]"] s' zset
  have "set (GetHistoryItemsList s') = {x\<lparr>h_BlockHeight := 0\<rparr> | x. is_latest ?xs x}"
    by (simp add: GetHistoryItemsList_def kv_vals_def)
  moreover have "OB_PrepareForZeroHeight visit s = Some s'"
    using sq s'(1) by (simp add: OB_PrepareForZeroHeight_def empty zs_def)
  ultimately show ?thesis using s'(2) by blast
qed

definition ex_item :: "ID \<Rightarrow> int \<Rightarrow> HistoryItem" where
  "ex_item i h = \<lparr>h_MarketID = i, h_ClearancePrice = 5, h_BidOrdersCount = 1, h_AskOrdersCount = 1, h_BidVolume = 4,
     h_AskVolume = 4, h_MatchedBidVolume = 4, h_MatchedAskVolume = 4, h_Timestamp = 10, h_BlockHeight = h\<rparr>"

lemma ex_item_sel [simp]: "h_MarketID (ex_item i h) = i" "h_BlockHeight (ex_item i h) = h"
    "(ex_item i h)\<lparr>h_BlockHeight := h'\<rparr> = ex_item i h'"
  by (simp_all add: ex_item_def)

lemma ex_history:
  obtains s where "hist_reach ref_sdk ref_bank 20000000000 9 s" and "set (GetHistoryItemsList s) = {ex_item 0 3, ex_item 1 4, ex_item 0 7}"
proof -
  let ?xs = "[ex_item 0 3, ex_item 1 4, ex_item 0 7]" and ?s = "\<lparr>ob_history = [], ob_orders = ex_ord1\<rparr>"
  have ok: "\<forall>x \<in> set ?xs. item_ok 20000000000 9 x" by (simp add: item_ok_def ex_item_def)
  have inv: "hist_inv 20000000000 9 ?s" by (simp add: hist_inv_def GetHistoryItemsList_def kv_vals_def)
  from set_items_spec [OF inv ok] obtain s where s: "set_items ?xs ?s = Some s"
    "ob_history s = foldl (\<lambda>st x. kv_set (item_key x) x st) [] ?xs" by auto
  have "distinct (map item_key ?xs)" by (simp add: item_key_def ex_item_def hkey_inject)
  from foldl_set_vals [OF _ this, of "[]"] have "set (GetHistoryItemsList s) = {ex_item 0 3, ex_item 1 4, ex_item 0 7}"
    by (simp add: GetHistoryItemsList_def s(2) kv_vals_def)
  moreover have "OB_InitGenesis 20000000000 9 ?xs ?s = (Ok (), s)"
    unfolding OB_InitGenesis_def s(1)
    by (simp add: OBGenesis_Validate_def HistoryItem_Valid_def ID_Valid_def ex_item_def time_zero_def)
  then have "hist_reach ref_sdk ref_bank 20000000000 9 s" by (intro hist_start) simp_all
  ultimately show ?thesis using that by blast
qed

theorem history_range_query_witness:
  "\<exists>s xs. hist_reach ref_sdk ref_bank 20000000000 9 s \<and> GetHistoryItemsInBlockHeightRange s 0 2 7 = Some xs \<and>
    map h_BlockHeight xs = [3, 7]"
proof -
  obtain s where s: "hist_reach ref_sdk ref_bank 20000000000 9 s" "set (GetHistoryItemsList s) = {ex_item 0 3, ex_item 1 4, ex_item 0 7}"
    by (rule ex_history)
  from history_range_query [OF s(1), of 0 2 7] obtain xs where
    xs: "GetHistoryItemsInBlockHeightRange s 0 2 7 = Some xs" "sorted_wrt (<) (map h_BlockHeight xs)"
    "set xs = {x \<in> set (GetHistoryItemsList s). h_MarketID x = 0 \<and> 2 \<le> h_BlockHeight x \<and> h_BlockHeight x \<le> 7}" by auto
  have "set xs = {ex_item 0 3, ex_item 0 7}" unfolding xs(3) s(2) by auto
  then have "set (map h_BlockHeight xs) = {3, 7}" by simp
  moreover have "sorted_list_of_set {3, 7 :: int} = [3, 7]" by simp
  ultimately have "map h_BlockHeight xs = [3, 7]"
    using xs(2) by (metis sorted_list_of_set.idem_if_sorted_distinct strict_sorted_iff)
  then show ?thesis using s(1) xs(1) by (intro exI [of _ s] exI [of _ xs]) simp
qed

theorem history_squash_witness:
  "\<exists>s s'. hist_reach ref_sdk ref_bank 20000000000 9 s \<and> OB_PrepareForZeroHeight rev s = Some s' \<and>
    set (GetHistoryItemsList s') = {ex_item 0 0, ex_item 1 0}"
proof -
  obtain s where s: "hist_reach ref_sdk ref_bank 20000000000 9 s" "set (GetHistoryItemsList s) = {ex_item 0 3, ex_item 1 4, ex_item 0 7}"
    by (rule ex_history)
  have l: "is_latest (GetHistoryItemsList s) x \<longleftrightarrow> x = ex_item 1 4 \<or> x = ex_item 0 7" for x
    unfolding is_latest_def s(2) by auto
  have z: "{x\<lparr>h_BlockHeight := 0\<rparr> | x. x = ex_item 1 4 \<or> x = ex_item 0 7} = {ex_item 0 0, ex_item 1 0}"
    by (auto intro: exI [of _ "ex_item 1 4"] exI [of _ "ex_item 0 7"])
  from history_squash [OF s(1), of rev] obtain s' where
    "OB_PrepareForZeroHeight rev s = Some s'" "set (GetHistoryItemsList s') = {ex_item 0 0, ex_item 1 0}"
    unfolding l z by auto
  with s show ?thesis by blast
qed

text \<open>
  An exported history can be imported: initialising an empty module from it succeeds and restores the history.
\<close>

theorem history_genesis_roundtrip:
  assumes "hist_reach S B t h s"
  shows "OB_InitGenesis t h (OB_ExportGenesis s) \<lparr>ob_history = [], ob_orders = ob_orders s\<rparr> = (Ok (), s)"
proof -
  let ?xs = "GetHistoryItemsList s" and ?s0 = "\<lparr>ob_history = [], ob_orders = ob_orders s\<rparr>"
  from hist_reach_inv [OF assms] have inv: "hist_inv t h s" and b: "0 \<le> h" "h < 2 ^ 63"
    and kv: "kv_keyed item_key (ob_history s)" and ok: "\<forall>x \<in> set ?xs. item_ok t h x" by (auto simp: hist_inv_def)
  from ob_validate_loop_ok [OF ok hist_inv_distinct [OF inv], of "[]" 0] b
  have v: "OBGenesis_Validate t h ?xs = Ok ()" by (auto simp: OBGenesis_Validate_def)
  have "hist_inv t h ?s0" using b by (simp add: hist_inv_def GetHistoryItemsList_def kv_vals_def)
  from set_items_spec [OF this ok] obtain s' where s': "set_items ?xs ?s0 = Some s'" "ob_orders s' = ob_orders s"
    "ob_history s' = foldl (\<lambda>st x. kv_set (item_key x) x st) [] ?xs" by auto
  have "ob_history s' = ob_history s" using kv_keyed_rebuild [OF kv] s'(3) by (simp add: GetHistoryItemsList_def)
  then have "s' = s" using s'(2) by simp
  with v s'(1) show ?thesis by (simp add: OB_InitGenesis_def OB_ExportGenesis_def)
qed

theorem history_genesis_roundtrip_witness:
  "\<exists>s. length (OB_ExportGenesis s) \<noteq> 0 \<and>
    OB_InitGenesis 20000000000 9 (OB_ExportGenesis s) \<lparr>ob_history = [], ob_orders = ob_orders s\<rparr> = (Ok (), s)"
proof -
  obtain s where s: "hist_reach ref_sdk ref_bank 20000000000 9 s" "set (GetHistoryItemsList s) = {ex_item 0 3, ex_item 1 4, ex_item 0 7}"
    by (rule ex_history)
  then have "length (OB_ExportGenesis s) \<noteq> 0" by (auto simp: OB_ExportGenesis_def)
  with history_genesis_roundtrip [OF s(1)] show ?thesis by blast
qed

end
