(* ===== verification/Poa.thy ===== *)
theory Poa
  imports DnTypes
begin

text \<open>
  Module \<open>x/poa\<close>: the validators whose confirmations a multi-signature call needs. The keeper stores every validator
  under its address, the list of all of them, and a 16-bit counter; the invariant is that the three agree and that
  the counter is within the limit. The number of confirmations is a strict majority of the list.
\<close>

section \<open>Types\<close>

record Validator =
  v_Address :: bytes
  v_EthAddress :: string

record PoaParams =
  pp_MaxValidators :: "16 word"
  pp_MinValidators :: "16 word"

datatype poa_error =
    PoaErrInvalidAddress
  | PoaErrWrongEthereumAddress
  | PoaErrValidatorExists
  | PoaErrValidatorNotExists
  | PoaErrMaxValidatorsReached
  | PoaErrMinValidatorsReached
  | PoaErrUnknownRequest
  | PoaErrOnlyMultisigMsgs
  | PoaErrGenesis string

definition Validator_Validate :: "Validator \<Rightarrow> (poa_error, unit) res" where
  "Validator_Validate v =
     (if v_Address v = [] then Err PoaErrInvalidAddress
      else if length (v_EthAddress v) = 0 then Err PoaErrWrongEthereumAddress
      else if \<not> IsEthereumAddress (v_EthAddress v) then Err PoaErrWrongEthereumAddress
      else Ok ())"

abbreviation DefaultMaxValidators :: "16 word" where
  "DefaultMaxValidators \<equiv> 11"

abbreviation DefaultMinValidators :: "16 word" where
  "DefaultMinValidators \<equiv> 1"

definition PoaParams_Validate :: "PoaParams \<Rightarrow> (poa_error, unit) res" where
  "PoaParams_Validate p =
     (if pp_MinValidators p < DefaultMinValidators then Err (PoaErrGenesis ''minimum amount of validators'')
      else if DefaultMaxValidators < pp_MaxValidators p then Err (PoaErrGenesis ''maximum amount of validators'')
      else Ok ())"

section \<open>Keeper\<close>

text \<open>
  The keys of the validators are their 20-byte addresses, those of the counter and of the list have 15 and 10 bytes:
  they are separate fields here. A missing counter is zero, a missing list empty.
\<close>

record poa_state =
  ps_validators :: "Validator kv"
  ps_count :: "16 word option"
  ps_list :: "Validator list option"
  ps_params :: PoaParams

definition GetValidatorAmount :: "poa_state \<Rightarrow> 16 word" where
  "GetValidatorAmount s = (case ps_count s of None \<Rightarrow> 0 | Some n \<Rightarrow> n)"

definition GetEnoughConfirmations :: "poa_state \<Rightarrow> 16 word" where
  "GetEnoughConfirmations s = GetValidatorAmount s div 2 + 1"

definition increaseValidatorsAmount :: "poa_state \<Rightarrow> poa_state" where
  "increaseValidatorsAmount s = s\<lparr>ps_count := Some (GetValidatorAmount s + 1)\<rparr>"

definition decreaseValidatorsAmount :: "poa_state \<Rightarrow> poa_state" where
  "decreaseValidatorsAmount s = s\<lparr>ps_count := Some (GetValidatorAmount s - 1)\<rparr>"

definition GetValidators :: "poa_state \<Rightarrow> Validator list" where
  "GetValidators s = (case ps_list s of None \<Rightarrow> [] | Some l \<Rightarrow> l)"

definition addValidatorToList :: "Validator \<Rightarrow> poa_state \<Rightarrow> poa_state" where
  "addValidatorToList v s = s\<lparr>ps_list := Some (GetValidators s @ [v])\<rparr>"

fun remove_first :: "bytes \<Rightarrow> Validator list \<Rightarrow> Validator list option" where
  "remove_first a [] = None"
| "remove_first a (v # vs) = (if v_Address v = a then Some vs else map_option ((#) v) (remove_first a vs))"

definition removeValidatorFromList :: "bytes \<Rightarrow> poa_state \<Rightarrow> poa_state" where
  "removeValidatorFromList a s =
     (case remove_first a (GetValidators s) of
        None \<Rightarrow> s
      | Some vs \<Rightarrow> if length (GetValidators s) > 1 then s\<lparr>ps_list := Some vs\<rparr> else s\<lparr>ps_list := None\<rparr>)"

definition HasValidator :: "poa_state \<Rightarrow> bytes \<Rightarrow> bool" where
  "HasValidator s a = kv_has a (ps_validators s)"

definition GetValidator :: "poa_state \<Rightarrow> bytes \<Rightarrow> (poa_error, Validator) res" where
  "GetValidator s a = (case kv_get a (ps_validators s) of None \<Rightarrow> Err PoaErrValidatorNotExists | Some v \<Rightarrow> Ok v)"

definition poa_addValidator :: "bytes \<Rightarrow> string \<Rightarrow> bool \<Rightarrow> (poa_state, poa_error, unit) op" where
  "poa_addValidator a eth checkLimits s =
     (let v = \<lparr>v_Address = a, v_EthAddress = eth\<rparr> in
      case Validator_Validate v of
        Err e \<Rightarrow> (Err e, s)
      | Panic \<Rightarrow> (Panic, s)
      | Ok _ \<Rightarrow>
          if HasValidator s a then (Err PoaErrValidatorExists, s)
          else if checkLimits \<and> pp_MaxValidators (ps_params s) < GetValidatorAmount s + 1 then (Err PoaErrMaxValidatorsReached, s)
          else (Ok (), increaseValidatorsAmount (addValidatorToList v (s\<lparr>ps_validators := kv_set a v (ps_validators s)\<rparr>))))"

definition poa_removeValidator :: "bytes \<Rightarrow> bool \<Rightarrow> (poa_state, poa_error, unit) op" where
  "poa_removeValidator a checkLimits s =
     (if \<not> HasValidator s a then (Err PoaErrValidatorNotExists, s)
      else if checkLimits \<and> GetValidatorAmount s - 1 < pp_MinValidators (ps_params s) then (Err PoaErrMinValidatorsReached, s)
      else (Ok (), decreaseValidatorsAmount (removeValidatorFromList a (s\<lparr>ps_validators := kv_del a (ps_validators s)\<rparr>))))"

definition AddValidator :: "bytes \<Rightarrow> string \<Rightarrow> (poa_state, poa_error, unit) op" where
  "AddValidator a eth = poa_addValidator a eth True"

definition RemoveValidator :: "bytes \<Rightarrow> (poa_state, poa_error, unit) op" where
  "RemoveValidator a = poa_removeValidator a True"

definition ReplaceValidator :: "bytes \<Rightarrow> bytes \<Rightarrow> string \<Rightarrow> (poa_state, poa_error, unit) op" where
  "ReplaceValidator old new eth s =
     (case poa_removeValidator old False s of
        (Ok _, s1) \<Rightarrow> poa_addValidator new eth False s1
      | (r, s1) \<Rightarrow> (r, s1))"

section \<open>Messages\<close>

datatype PoaMsg =
    MsgAddValidator bytes string bytes
  | MsgRemoveValidator bytes bytes
  | MsgReplaceValidator bytes bytes string bytes

definition MsgAddValidator_ValidateBasic :: "bytes \<Rightarrow> string \<Rightarrow> bytes \<Rightarrow> (poa_error, unit) res" where
  "MsgAddValidator_ValidateBasic a eth sender =
     bind_res (Validator_Validate \<lparr>v_Address = a, v_EthAddress = eth\<rparr>) (\<lambda>_.
       if sender = [] then Err PoaErrInvalidAddress else Ok ())"

definition MsgRemoveValidator_ValidateBasic :: "bytes \<Rightarrow> bytes \<Rightarrow> (poa_error, unit) res" where
  "MsgRemoveValidator_ValidateBasic a sender =
     (if a = [] then Err PoaErrInvalidAddress else if sender = [] then Err PoaErrInvalidAddress else Ok ())"

definition MsgReplaceValidator_ValidateBasic :: "bytes \<Rightarrow> bytes \<Rightarrow> string \<Rightarrow> bytes \<Rightarrow> (poa_error, unit) res" where
  "MsgReplaceValidator_ValidateBasic old new eth sender =
     (if old = [] then Err PoaErrInvalidAddress
      else bind_res (Validator_Validate \<lparr>v_Address = new, v_EthAddress = eth\<rparr>) (\<lambda>_.
        if old = new then Err PoaErrInvalidAddress else if sender = [] then Err PoaErrInvalidAddress else Ok ()))"

fun PoaMsg_ValidateBasic :: "PoaMsg \<Rightarrow> (poa_error, unit) res" where
  "PoaMsg_ValidateBasic (MsgAddValidator a eth sender) = MsgAddValidator_ValidateBasic a eth sender"
| "PoaMsg_ValidateBasic (MsgRemoveValidator a sender) = MsgRemoveValidator_ValidateBasic a sender"
| "PoaMsg_ValidateBasic (MsgReplaceValidator old new eth sender) = MsgReplaceValidator_ValidateBasic old new eth sender"

text \<open>The handler of ordinary messages refuses everything: the messages only come through a multi-signature call.\<close>

definition Poa_NewHandler :: "PoaMsg \<Rightarrow> (poa_state, poa_error, unit) op" where
  "Poa_NewHandler msg s = (Err PoaErrOnlyMultisigMsgs, s)"

fun Poa_NewMsHandler :: "PoaMsg \<Rightarrow> (poa_state, poa_error, unit) op" where
  "Poa_NewMsHandler (MsgAddValidator a eth sender) s = AddValidator a eth s"
| "Poa_NewMsHandler (MsgRemoveValidator a sender) s = RemoveValidator a s"
| "Poa_NewMsHandler (MsgReplaceValidator old new eth sender) s = ReplaceValidator old new eth s"

section \<open>Genesis\<close>

record poa_genesis =
  pg_Parameters :: PoaParams
  pg_Validators :: "Validator list"

fun poa_validate_loop :: "bytes list \<Rightarrow> Validator list \<Rightarrow> (poa_error, unit) res" where
  "poa_validate_loop seen [] = Ok ()"
| "poa_validate_loop seen (v # vs) =
     bind_res (Validator_Validate v) (\<lambda>_.
       if v_Address v \<in> set seen then Err (PoaErrGenesis ''is a duplicate'')
       else poa_validate_loop (v_Address v # seen) vs)"

definition PoaGenesis_Validate :: "bool \<Rightarrow> poa_genesis \<Rightarrow> (poa_error, unit) res" where
  "PoaGenesis_Validate skipCountValidation g =
     bind_res (PoaParams_Validate (pg_Parameters g)) (\<lambda>_.
     bind_res (poa_validate_loop [] (pg_Validators g)) (\<lambda>_.
       if \<not> skipCountValidation then
         (if length (pg_Validators g) < unat (pp_MinValidators (pg_Parameters g)) then Err (PoaErrGenesis ''invalid validators amount: min'')
          else if unat (pp_MaxValidators (pg_Parameters g)) < length (pg_Validators g) then Err (PoaErrGenesis ''invalid validators amount: max'')
          else Ok ())
       else Ok ()))"

fun poa_init_loop :: "Validator list \<Rightarrow> (poa_state, poa_error, unit) op" where
  "poa_init_loop [] s = (Ok (), s)"
| "poa_init_loop (v # vs) s =
     (case AddValidator (v_Address v) (v_EthAddress v) s of
        (Ok _, s1) \<Rightarrow> poa_init_loop vs s1
      | (_, s1) \<Rightarrow> (Panic, s1))"

definition Poa_InitGenesis :: "poa_genesis \<Rightarrow> (poa_state, poa_error, unit) op" where
  "Poa_InitGenesis g s = poa_init_loop (pg_Validators g) (s\<lparr>ps_params := pg_Parameters g\<rparr>)"

definition Poa_ExportGenesis :: "poa_state \<Rightarrow> poa_genesis" where
  "Poa_ExportGenesis s = \<lparr>pg_Parameters = ps_params s, pg_Validators = GetValidators s\<rparr>"

section \<open>Invariant\<close>

definition poa_inv :: "poa_state \<Rightarrow> bool" where
  "poa_inv s \<longleftrightarrow>
     kv_keyed v_Address (ps_validators s) \<and> set (kv_vals (ps_validators s)) = set (GetValidators s) \<and>
     distinct (map v_Address (GetValidators s)) \<and> length (GetValidators s) < 2 ^ 16 \<and>
     GetValidatorAmount s = of_nat (length (GetValidators s)) \<and>
     (\<forall>v \<in> set (GetValidators s). Validator_Validate v = Ok ()) \<and> (ps_list s \<noteq> Some [])"

lemma poa_inv_has: "poa_inv s \<Longrightarrow> HasValidator s a \<longleftrightarrow> a \<in> v_Address ` set (GetValidators s)"
  unfolding poa_inv_def HasValidator_def kv_has_iff by (metis (no_types, lifting) imageE image_eqI kv_keyed_get_None)

lemma amount_unat: "poa_inv s \<Longrightarrow> unat (GetValidatorAmount s) = length (GetValidators s)"
  by (simp add: poa_inv_def unat_of_nat take_bit_nat_eq_self)

lemma remove_first_spec:
  "\<lbrakk>distinct (map v_Address vs); a \<in> v_Address ` set vs\<rbrakk> \<Longrightarrow>
   \<exists>ws. remove_first a vs = Some ws \<and> set ws = {v \<in> set vs. v_Address v \<noteq> a} \<and> distinct (map v_Address ws) \<and>
     Suc (length ws) = length vs"
proof (induction vs)
  case (Cons v vs)
  show ?case
  proof (cases "v_Address v = a")
    case True
    with Cons.prems show ?thesis by (auto simp: image_iff)
  next
    case False
    with Cons obtain ws where "remove_first a vs = Some ws" "set ws = {v \<in> set vs. v_Address v \<noteq> a}"
      "distinct (map v_Address ws)" "Suc (length ws) = length vs" by auto
    with False Cons.prems(1) show ?thesis by (auto simp: image_iff)
  qed
qed simp

lemma poa_add_ok:
  assumes inv: "poa_inv s" and len: "Suc (length (GetValidators s)) < 2 ^ 16"
    and r: "poa_addValidator a eth lim s = (Ok (), s')"
  shows "poa_inv s' \<and> GetValidators s' = GetValidators s @ [\<lparr>v_Address = a, v_EthAddress = eth\<rparr>] \<and>
    a \<notin> v_Address ` set (GetValidators s) \<and> ps_params s' = ps_params s"
proof -
  let ?v = "\<lparr>v_Address = a, v_EthAddress = eth\<rparr>"
  from r have v: "Validator_Validate ?v = Ok ()" and new: "\<not> HasValidator s a"
    and s': "s' = increaseValidatorsAmount (addValidatorToList ?v (s\<lparr>ps_validators := kv_set a ?v (ps_validators s)\<rparr>))"
    by (auto simp: poa_addValidator_def Let_def split: res.splits if_splits)
  have fresh: "a \<notin> v_Address ` set (GetValidators s)" using new poa_inv_has [OF inv] by simp
  have l: "GetValidators s' = GetValidators s @ [?v]"
    by (simp add: s' increaseValidatorsAmount_def addValidatorToList_def GetValidators_def)
  have kv: "ps_validators s' = kv_set (v_Address ?v) ?v (ps_validators s)" and p: "ps_params s' = ps_params s"
    and c: "GetValidatorAmount s' = GetValidatorAmount s + 1" and n: "ps_list s' = Some (GetValidators s @ [?v])"
    by (simp_all add: s' increaseValidatorsAmount_def addValidatorToList_def GetValidatorAmount_def GetValidators_def)
  have k: "kv_keyed v_Address (ps_validators s)" using inv by (simp add: poa_inv_def)
  have "set (kv_vals (ps_validators s')) = set (GetValidators s')"
    unfolding kv l kv_keyed_vals_set [OF k] using inv fresh by (auto simp: poa_inv_def image_iff)
  moreover have "kv_keyed v_Address (ps_validators s')" unfolding kv using k by (rule kv_keyed_set)
  ultimately have "poa_inv s'" using inv fresh len v by (auto simp: poa_inv_def l c n)
  then show ?thesis using l fresh p by simp
qed

lemma poa_remove_ok:
  assumes inv: "poa_inv s" and r: "poa_removeValidator a lim s = (Ok (), s')"
  shows "poa_inv s' \<and> set (GetValidators s') = {v \<in> set (GetValidators s). v_Address v \<noteq> a} \<and>
    Suc (length (GetValidators s')) = length (GetValidators s) \<and> ps_params s' = ps_params s"
proof -
  from r have h: "HasValidator s a"
    and s': "s' = decreaseValidatorsAmount (removeValidatorFromList a (s\<lparr>ps_validators := kv_del a (ps_validators s)\<rparr>))"
    by (auto simp: poa_removeValidator_def split: if_splits)
  have d: "distinct (map v_Address (GetValidators s))" using inv by (simp add: poa_inv_def)
  have "a \<in> v_Address ` set (GetValidators s)" using h poa_inv_has [OF inv] by simp
  from remove_first_spec [OF d this] obtain ws where ws: "remove_first a (GetValidators s) = Some ws"
    "set ws = {v \<in> set (GetValidators s). v_Address v \<noteq> a}" "distinct (map v_Address ws)" "Suc (length ws) = length (GetValidators s)"
    by blast
  have l0: "GetValidators (s\<lparr>ps_validators := k\<rparr>) = GetValidators s" for k by (simp add: GetValidators_def)
  have list: "GetValidators s' = ws" "ps_list s' \<noteq> Some []"
  proof -
    have eq: "ps_list s' = (if length (GetValidators s) > 1 then Some ws else None)"
      using ws(1) by (simp add: s' decreaseValidatorsAmount_def removeValidatorFromList_def l0)
    show "GetValidators s' = ws" "ps_list s' \<noteq> Some []"
      using eq ws(4) by (cases ws; auto simp: GetValidators_def [of s'])+
  qed
  have c: "GetValidatorAmount s' = GetValidatorAmount s - 1" and kv: "ps_validators s' = kv_del a (ps_validators s)"
    and p: "ps_params s' = ps_params s"
    using ws(1) by (auto simp: s' decreaseValidatorsAmount_def removeValidatorFromList_def l0 GetValidatorAmount_def)
  have k: "kv_keyed v_Address (ps_validators s)" using inv by (simp add: poa_inv_def)
  have "set (kv_vals (ps_validators s')) = set ws"
    unfolding kv kv_keyed_vals_del [OF k] ws(2) using inv by (auto simp: poa_inv_def)
  moreover have "GetValidatorAmount s' = of_nat (length ws)"
    using inv ws(4) unfolding c poa_inv_def by (metis add_diff_cancel_left' of_nat_Suc)
  ultimately have "poa_inv s'" using inv ws list k by (auto simp: poa_inv_def kv)
  then show ?thesis using list ws p by simp
qed

section \<open>Reachable states\<close>

definition poa_ok :: "poa_state \<Rightarrow> bool" where
  "poa_ok s \<longleftrightarrow> poa_inv s \<and> length (GetValidators s) \<le> unat (pp_MaxValidators (ps_params s))"

lemma word16_bound: "unat (w :: 16 word) < 2 ^ 16"
  using unsigned_less [of w] by simp

lemma AddValidator_poa_ok:
  assumes ok: "poa_ok s" and mx: "pp_MaxValidators (ps_params s) \<noteq> - 1" and r: "AddValidator a eth s = (Ok (), s')"
  shows "poa_ok s' \<and> ps_params s' = ps_params s \<and> GetValidators s' = GetValidators s @ [\<lparr>v_Address = a, v_EthAddress = eth\<rparr>]"
proof -
  let ?n = "length (GetValidators s)" and ?m = "unat (pp_MaxValidators (ps_params s))"
  have inv: "poa_inv s" and le: "?n \<le> ?m" using ok by (simp_all add: poa_ok_def)
  have m: "?m < 65535"
  proof -
    have "?m \<noteq> unat (- 1 :: 16 word)" using mx by (metis word_unat_eq_iff)
    then show ?thesis using word16_bound [of "pp_MaxValidators (ps_params s)"] by (simp add: unsigned_minus_1_eq_mask mask_eq_exp_minus_1)
  qed
  from r have "\<not> pp_MaxValidators (ps_params s) < GetValidatorAmount s + 1"
    by (auto simp: AddValidator_def poa_addValidator_def Let_def split: res.splits if_splits)
  moreover have "unat (GetValidatorAmount s + 1) = Suc ?n"
  proof -
    have "GetValidatorAmount s + 1 = of_nat (Suc ?n)" using inv by (simp add: poa_inv_def)
    then show ?thesis using le m by (simp only: unat_of_nat) (simp add: take_bit_nat_eq_self)
  qed
  ultimately have "Suc ?n \<le> ?m" by (simp add: word_less_nat_alt)
  moreover have "Suc ?n < 2 ^ 16" using le m by simp
  ultimately show ?thesis
    using poa_add_ok [OF inv _ r [unfolded AddValidator_def]] by (simp add: poa_ok_def)
qed

lemma ReplaceValidator_poa_ok:
  assumes ok: "poa_ok s" and r: "ReplaceValidator old new eth s = (Ok (), s')"
  shows "poa_ok s' \<and> ps_params s' = ps_params s \<and> length (GetValidators s') = length (GetValidators s)"
proof -
  from r obtain s1 where a: "poa_removeValidator old False s = (Ok (), s1)" and b: "poa_addValidator new eth False s1 = (Ok (), s')"
    by (auto simp: ReplaceValidator_def split: prod.splits res.splits)
  have inv: "poa_inv s" using ok by (simp add: poa_ok_def)
  note rem = poa_remove_ok [OF inv a]
  then have "Suc (length (GetValidators s1)) < 2 ^ 16" using inv by (simp add: poa_inv_def)
  from poa_add_ok [OF _ this b] rem ok show ?thesis by (simp add: poa_ok_def)
qed

text \<open>The states of the module: a genesis, then messages executed by the multi-signature module.\<close>

definition poa_empty :: "PoaParams \<Rightarrow> poa_state" where
  "poa_empty p = \<lparr>ps_validators = [], ps_count = None, ps_list = None, ps_params = p\<rparr>"

inductive poa_reach :: "PoaParams \<Rightarrow> poa_state \<Rightarrow> bool" for p :: PoaParams where
  poa_genesis: "\<lbrakk>pg_Parameters g = p; Poa_InitGenesis g (poa_empty p0) = (Ok (), s)\<rbrakk> \<Longrightarrow> poa_reach p s"
| poa_msg: "\<lbrakk>poa_reach p s; Poa_NewMsHandler msg s = (Ok (), s')\<rbrakk> \<Longrightarrow> poa_reach p s'"

lemma poa_init_loop_ok:
  "\<lbrakk>poa_ok s; pp_MaxValidators (ps_params s) \<noteq> - 1; poa_init_loop vs s = (Ok (), s')\<rbrakk> \<Longrightarrow>
   poa_ok s' \<and> ps_params s' = ps_params s"
proof (induction vs arbitrary: s)
  case (Cons v vs)
  from Cons.prems(3) obtain s1 where a: "AddValidator (v_Address v) (v_EthAddress v) s = (Ok (), s1)"
    and r: "poa_init_loop vs s1 = (Ok (), s')" by (auto split: prod.splits res.splits)
  note ok1 = AddValidator_poa_ok [OF Cons.prems(1,2) a]
  from Cons.IH [OF _ _ r] ok1 Cons.prems(2) show ?case by simp
qed simp

lemma poa_empty_ok: "poa_ok (poa_empty p)"
  by (simp add: poa_ok_def poa_inv_def poa_empty_def GetValidators_def GetValidatorAmount_def kv_vals_def)

lemma poa_reach_ok:
  assumes "pp_MaxValidators p \<noteq> - 1"
  shows "poa_reach p s \<Longrightarrow> poa_ok s \<and> ps_params s = p"
proof (induction rule: poa_reach.induct)
  case (poa_genesis g p0 s)
  have "poa_ok ((poa_empty p0)\<lparr>ps_params := p\<rparr>)" using poa_empty_ok [of p] by (simp add: poa_empty_def)
  with poa_init_loop_ok [of "(poa_empty p0)\<lparr>ps_params := p\<rparr>"] poa_genesis assms show ?case by (simp add: Poa_InitGenesis_def)
next
  case (poa_msg s msg s')
  then have ok: "poa_ok s" "poa_inv s" and mx: "pp_MaxValidators (ps_params s) \<noteq> - 1" and p: "ps_params s = p"
    using assms unfolding poa_ok_def by blast+
  show ?case
  proof (cases msg)
    case (MsgAddValidator a eth x)
    with poa_msg AddValidator_poa_ok [OF ok(1) mx] p show ?thesis by simp
  next
    case (MsgRemoveValidator a x)
    with poa_msg poa_remove_ok [OF ok(2), of a True s'] ok p show ?thesis by (simp add: RemoveValidator_def poa_ok_def)
  next
    case (MsgReplaceValidator a b eth x)
    with poa_msg ReplaceValidator_poa_ok [OF ok(1)] p show ?thesis by simp
  qed
qed

lemma poa_init_loop_exact:
  "\<lbrakk>poa_ok s; pp_MaxValidators (ps_params s) \<noteq> - 1; distinct (map v_Address (GetValidators s @ vs));
    \<forall>v \<in> set vs. Validator_Validate v = Ok (); length (GetValidators s @ vs) \<le> unat (pp_MaxValidators (ps_params s))\<rbrakk> \<Longrightarrow>
   \<exists>s'. poa_init_loop vs s = (Ok (), s') \<and> GetValidators s' = GetValidators s @ vs \<and> poa_ok s' \<and> ps_params s' = ps_params s"
proof (induction vs arbitrary: s)
  case (Cons v vs)
  have inv: "poa_inv s" using Cons.prems(1) by (simp add: poa_ok_def)
  have new: "\<not> HasValidator s (v_Address v)" using poa_inv_has [OF inv] Cons.prems(3) by auto
  have n: "Suc (length (GetValidators s)) \<le> unat (pp_MaxValidators (ps_params s))" using Cons.prems(5) by simp
  have "GetValidatorAmount s + 1 = of_nat (Suc (length (GetValidators s)))" using inv by (simp add: poa_inv_def)
  then have "unat (GetValidatorAmount s + 1) \<le> unat (pp_MaxValidators (ps_params s))"
    using n word16_bound [of "pp_MaxValidators (ps_params s)"] by (simp only: unat_of_nat) (simp add: take_bit_nat_eq_self)
  then have lim: "\<not> pp_MaxValidators (ps_params s) < GetValidatorAmount s + 1" by (simp add: word_less_nat_alt not_less)
  have "v = \<lparr>v_Address = v_Address v, v_EthAddress = v_EthAddress v\<rparr>" by simp
  then obtain s1 where a: "AddValidator (v_Address v) (v_EthAddress v) s = (Ok (), s1)"
    using Cons.prems(4) new lim by (simp add: AddValidator_def poa_addValidator_def)
  note ok1 = AddValidator_poa_ok [OF Cons.prems(1,2) a]
  then have l1: "GetValidators s1 = GetValidators s @ [v]" and p1: "ps_params s1 = ps_params s" by simp_all
  from Cons.IH [of s1] ok1 Cons.prems(2-5) obtain s' where
    "poa_init_loop vs s1 = (Ok (), s')" "GetValidators s' = GetValidators s1 @ vs" "poa_ok s'" "ps_params s' = ps_params s1"
    unfolding l1 p1 by auto
  with a l1 p1 show ?case by simp
qed simp

definition ex_validator :: "char \<Rightarrow> Validator" where
  "ex_validator c = \<lparr>v_Address = replicate 20 c, v_EthAddress = ''0x'' @ replicate 40 (CHR ''a'')\<rparr>"

abbreviation ex_poa_params :: PoaParams where
  "ex_poa_params \<equiv> \<lparr>pp_MaxValidators = 11, pp_MinValidators = 1\<rparr>"

lemma ex_poa:
  obtains s where "poa_reach ex_poa_params s"
    and "GetValidators s = [ex_validator (CHR ''A''), ex_validator (CHR ''B''), ex_validator (CHR ''C'')]"
proof -
  let ?vs = "[ex_validator (CHR ''A''), ex_validator (CHR ''B''), ex_validator (CHR ''C'')]"
  have v: "\<forall>v \<in> set ?vs. Validator_Validate v = Ok ()"
    by (simp add: Validator_Validate_def ex_validator_def IsEthereumAddress_def EthAddressLength_def isHex_def hex_char_def list_all_iff)
  have "\<exists>s. poa_init_loop ?vs (poa_empty ex_poa_params) = (Ok (), s) \<and> GetValidators s = GetValidators (poa_empty ex_poa_params) @ ?vs \<and>
      poa_ok s \<and> ps_params s = ps_params (poa_empty ex_poa_params)"
    by (rule poa_init_loop_exact [OF poa_empty_ok _ _ v])
      (simp_all add: poa_empty_def GetValidators_def ex_validator_def replicate_eq_replicate)
  then obtain s where s: "poa_init_loop ?vs (poa_empty ex_poa_params) = (Ok (), s)" "GetValidators s = ?vs"
    by (auto simp: poa_empty_def GetValidators_def)
  have "poa_reach ex_poa_params s"
    by (rule poa_genesis [of "\<lparr>pg_Parameters = ex_poa_params, pg_Validators = ?vs\<rparr>" _ ex_poa_params])
      (use s in \<open>simp_all add: Poa_InitGenesis_def poa_empty_def\<close>)
  with s that show ?thesis by blast
qed

section \<open>Quorums\<close>

text \<open>What the modules that collect confirmations rely on: the members that may confirm and how many have to.\<close>

locale quorum =
  fixes ok :: "'s \<Rightarrow> bool" and members :: "'s \<Rightarrow> bytes list" and need :: "'s \<Rightarrow> nat"
  assumes distinct_members: "ok s \<Longrightarrow> distinct (members s)"
    and majority: "\<lbrakk>ok s; members s \<noteq> []\<rbrakk> \<Longrightarrow> need s \<le> length (members s) \<and> length (members s) < 2 * need s"
begin

lemma quorums_meet:
  assumes "ok s" and "members s \<noteq> []" and "A \<subseteq> set (members s)" and "B \<subseteq> set (members s)"
    and "need s \<le> card A" and "need s \<le> card B"
  shows "A \<inter> B \<noteq> {}"
proof
  assume "A \<inter> B = {}"
  moreover have "finite A" "finite B" using assms(3,4) by (auto intro: finite_subset)
  ultimately have "card A + card B = card (A \<union> B)" by (simp add: card_Un_disjoint)
  also have "\<dots> \<le> length (members s)"
    using assms(3,4) card_mono [of "set (members s)" "A \<union> B"] card_length [of "members s"] by simp
  finally show False using majority [OF assms(1,2)] assms(5,6) by linarith
qed

lemma all_suffice: "\<lbrakk>ok s; members s \<noteq> []\<rbrakk> \<Longrightarrow> need s \<le> card (set (members s))"
  using majority [of s] distinct_members [of s] by (simp add: distinct_card)

end

lemma enough_majority:
  assumes ok: "poa_ok s" and ne: "GetValidators s \<noteq> []"
  shows "unat (GetEnoughConfirmations s) \<le> length (GetValidators s) \<and> length (GetValidators s) < 2 * unat (GetEnoughConfirmations s)"
proof -
  let ?n = "length (GetValidators s)"
  from ok have n: "unat (GetValidatorAmount s) = ?n" and lt: "?n < 2 ^ 16" using amount_unat by (auto simp: poa_ok_def poa_inv_def)
  have d: "unat (GetValidatorAmount s div 2) = ?n div 2" using n by (simp add: unat_div)
  have "unat (GetEnoughConfirmations s) = ?n div 2 + 1"
    unfolding GetEnoughConfirmations_def using d lt by (subst unat_add_lem [THEN iffD1]) auto
  moreover have "0 < ?n" using ne by simp
  ultimately show ?thesis by linarith
qed

interpretation poa_quorum: quorum poa_ok "\<lambda>s. map v_Address (GetValidators s)" "\<lambda>s. unat (GetEnoughConfirmations s)"
proof
  show "distinct (map v_Address (GetValidators s))" if "poa_ok s" for s using that by (simp add: poa_ok_def poa_inv_def)
qed (simp add: enough_majority)

section \<open>Properties\<close>

text \<open>
  C27. In every reachable state the validators stored by address, the stored list and the 16-bit counter agree: the list has
  no duplicates, an address is known exactly if it is in the list, the counter is the length of the list, and the list is
  within the maximum (as long as the maximum is not the largest 16-bit number).
\<close>

theorem poa_consistent:
  assumes "poa_reach p s" and "pp_MaxValidators p \<noteq> - 1"
  shows "distinct (map v_Address (GetValidators s)) \<and>
    (\<forall>a. HasValidator s a \<longleftrightarrow> a \<in> v_Address ` set (GetValidators s)) \<and>
    unat (GetValidatorAmount s) = length (GetValidators s) \<and>
    length (GetValidators s) \<le> unat (pp_MaxValidators p)"
proof -
  have ok: "poa_inv s" "length (GetValidators s) \<le> unat (pp_MaxValidators p)"
    using poa_reach_ok [OF assms(2,1)] by (auto simp: poa_ok_def)
  then show ?thesis using poa_inv_has amount_unat by (auto simp: poa_inv_def)
qed

theorem poa_consistent_witness:
  "\<exists>s. unat (GetValidatorAmount s) = 3 \<and> HasValidator s (replicate 20 (CHR ''B'')) \<and> \<not> HasValidator s (replicate 20 (CHR ''X''))"
proof -
  obtain s where s: "poa_reach ex_poa_params s"
    "GetValidators s = [ex_validator (CHR ''A''), ex_validator (CHR ''B''), ex_validator (CHR ''C'')]" by (rule ex_poa)
  from poa_consistent [OF s(1)] show ?thesis
    by (intro exI [of _ s]) (auto simp: s(2) ex_validator_def replicate_eq_replicate)
qed

text \<open>
  C28. The required number of confirmations is a strict majority of the validators that all of them together can reach, so any
  two sets of validators that can each carry a decision share a member.
\<close>

theorem poa_majority:
  assumes "poa_reach p s" and "pp_MaxValidators p \<noteq> - 1" and "GetValidators s \<noteq> []"
  shows "unat (GetEnoughConfirmations s) \<le> length (GetValidators s) \<and>
    length (GetValidators s) < 2 * unat (GetEnoughConfirmations s) \<and>
    (\<forall>A B. A \<subseteq> v_Address ` set (GetValidators s) \<longrightarrow> B \<subseteq> v_Address ` set (GetValidators s) \<longrightarrow>
       unat (GetEnoughConfirmations s) \<le> card A \<longrightarrow> unat (GetEnoughConfirmations s) \<le> card B \<longrightarrow> A \<inter> B \<noteq> {})"
proof -
  have ok: "poa_ok s" using poa_reach_ok [OF assms(2,1)] by simp
  with assms(3) show ?thesis using poa_quorum.quorums_meet [OF ok] poa_quorum.majority [OF ok] by simp
qed

theorem poa_majority_witness:
  "\<exists>s. length (GetValidators s) = 3 \<and> unat (GetEnoughConfirmations s) \<le> 3 \<and> 3 < 2 * unat (GetEnoughConfirmations s)"
proof -
  obtain s where s: "poa_reach ex_poa_params s"
    "GetValidators s = [ex_validator (CHR ''A''), ex_validator (CHR ''B''), ex_validator (CHR ''C'')]" by (rule ex_poa)
  from poa_majority [OF s(1)] show ?thesis by (intro exI [of _ s]) (simp add: s(2))
qed

text \<open>
  Exporting the state and initialising an empty module from it restores the parameters and the validators in their
  order.
\<close>

theorem poa_genesis_roundtrip:
  assumes "poa_reach p s" and "pp_MaxValidators p \<noteq> - 1"
  shows "\<exists>s'. Poa_InitGenesis (Poa_ExportGenesis s) (poa_empty p0) = (Ok (), s') \<and> Poa_ExportGenesis s' = Poa_ExportGenesis s \<and>
    (\<forall>a. GetValidator s' a = GetValidator s a)"
proof -
  have ok: "poa_ok s" and p: "ps_params s = p" using poa_reach_ok [OF assms(2,1)] by auto
  then have inv: "poa_inv s" by (simp add: poa_ok_def)
  let ?e = "(poa_empty p0)\<lparr>ps_params := p\<rparr>"
  have e: "poa_ok ?e" using poa_empty_ok [of p] by (simp add: poa_empty_def)
  have l: "GetValidators ?e = []" "ps_params ?e = p" by (simp_all add: poa_empty_def GetValidators_def)
  have "\<exists>s'. poa_init_loop (GetValidators s) ?e = (Ok (), s') \<and> GetValidators s' = GetValidators ?e @ GetValidators s \<and>
      poa_ok s' \<and> ps_params s' = ps_params ?e"
    by (rule poa_init_loop_exact [OF e]) (use ok p assms(2) in \<open>simp_all add: l poa_ok_def poa_inv_def\<close>)
  then obtain s' where
    s': "poa_init_loop (GetValidators s) ?e = (Ok (), s')" "GetValidators s' = GetValidators s" "poa_ok s'" "ps_params s' = p"
    unfolding l by auto
  have "set (kv_vals (ps_validators s')) = set (kv_vals (ps_validators s))" "kv_keyed v_Address (ps_validators s')" "kv_keyed v_Address (ps_validators s)"
    using s' inv by (auto simp: poa_ok_def poa_inv_def)
  then have "kv_get a (ps_validators s') = kv_get a (ps_validators s)" for a by (rule kv_keyed_vals_eq)
  with s' p show ?thesis by (simp add: Poa_InitGenesis_def Poa_ExportGenesis_def GetValidator_def)
qed

theorem poa_genesis_roundtrip_witness:
  "\<exists>s s'. length (GetValidators s) = 3 \<and> Poa_InitGenesis (Poa_ExportGenesis s) (poa_empty ex_poa_params) = (Ok (), s') \<and>
    Poa_ExportGenesis s' = Poa_ExportGenesis s"
proof -
  obtain s where s: "poa_reach ex_poa_params s"
    "GetValidators s = [ex_validator (CHR ''A''), ex_validator (CHR ''B''), ex_validator (CHR ''C'')]" by (rule ex_poa)
  from poa_genesis_roundtrip [OF s(1), of ex_poa_params] obtain s' where
    "Poa_InitGenesis (Poa_ExportGenesis s) (poa_empty ex_poa_params) = (Ok (), s')" "Poa_ExportGenesis s' = Poa_ExportGenesis s" by auto
  with s(2) show ?thesis by (intro exI [of _ s] exI [of _ s']) simp
qed

end
