(* ===== verification/Multisig.thy ===== *)
theory Multisig
  imports Poa "HOL-Library.Sublist"
begin

text \<open>
  Modules \<open>x/multisig\<close> and \<open>x/core/msmodule\<close>: calls submitted by a validator are executed at the end of a block once a
  majority of the validators has confirmed them. The messages carried by the calls and the other modules are
  parameters: a message has a route, a type and a payload, a route has a handler that works on the state of the other
  modules, of which only the validators (\<open>x/poa\<close>) are read here.
\<close>

section \<open>The router of multi-signature messages\<close>

record 'm MsMsg =
  mm_Route :: string
  mm_Type :: string
  mm_Valid :: bool
  mm_Data :: 'm

text \<open>The state of the other modules.\<close>

record 'x ms_app =
  ma_poa :: poa_state
  ma_rest :: 'x

text \<open>A handler returns the text of its error.\<close>

type_synonym ('x, 'm) MsHandler = "'m MsMsg \<Rightarrow> ('x ms_app, string, unit) op"

record ('x, 'm) msRouter =
  rt_routes :: "(string \<times> ('x, 'm) MsHandler) list"
  rt_sealed :: bool

definition is_alnum :: "char \<Rightarrow> bool" where
  "is_alnum c \<longleftrightarrow> (let n = (of_char c :: nat) in (48 \<le> n \<and> n \<le> 57) \<or> (65 \<le> n \<and> n \<le> 90) \<or> (97 \<le> n \<and> n \<le> 122))"

definition isAlphaNumeric :: "string \<Rightarrow> bool" where
  "isAlphaNumeric s \<longleftrightarrow> s \<noteq> [] \<and> list_all is_alnum s"

definition NewMsRouter :: "('x, 'm) msRouter" where
  "NewMsRouter = \<lparr>rt_routes = [], rt_sealed = False\<rparr>"

text \<open>\<open>None\<close> is a panic.\<close>

definition Router_Seal :: "('x, 'm) msRouter \<Rightarrow> ('x, 'm) msRouter option" where
  "Router_Seal r = (if rt_sealed r then None else Some (r\<lparr>rt_sealed := True\<rparr>))"

definition HasRoute :: "('x, 'm) msRouter \<Rightarrow> string \<Rightarrow> bool" where
  "HasRoute r path \<longleftrightarrow> map_of (rt_routes r) path \<noteq> None"

definition AddRoute :: "string \<Rightarrow> ('x, 'm) MsHandler \<Rightarrow> ('x, 'm) msRouter \<Rightarrow> ('x, 'm) msRouter option" where
  "AddRoute path h r =
     (if rt_sealed r then None
      else if \<not> isAlphaNumeric path then None
      else if HasRoute r path then None
      else Some (r\<lparr>rt_routes := (path, h) # rt_routes r\<rparr>))"

text \<open>\<open>GetRoute\<close> panics (\<open>None\<close>) on an unknown route; its callers check \<open>HasRoute\<close> first or panic themselves.\<close>

definition GetRoute :: "('x, 'm) msRouter \<Rightarrow> string \<Rightarrow> ('x, 'm) MsHandler option" where
  "GetRoute r path = map_of (rt_routes r) path"

text \<open>\<open>RegisterMsRoutes\<close> over the modules with a multi-signature handler, given with their routes.\<close>

fun register_loop :: "(string \<times> ('x, 'm) MsHandler) list \<Rightarrow> ('x, 'm) msRouter \<Rightarrow> ('x, 'm) msRouter option" where
  "register_loop [] r = Some r"
| "register_loop ((path, h) # ms) r =
     (if path \<noteq> [] then Option.bind (AddRoute path h r) (register_loop ms) else register_loop ms r)"

definition RegisterMsRoutes :: "(string \<times> ('x, 'm) MsHandler) list \<Rightarrow> ('x, 'm) msRouter \<Rightarrow> ('x, 'm) msRouter option" where
  "RegisterMsRoutes ms r = Option.bind (register_loop ms r) Router_Seal"

section \<open>Calls\<close>

record 'm Call =
  c_ID :: ID
  c_UniqueID :: string
  c_Creator :: bytes
  c_Approved :: bool
  c_Executed :: bool
  c_Failed :: bool
  c_Rejected :: bool
  c_Error :: string
  c_Msg :: "'m MsMsg"
  c_MsgRoute :: string
  c_MsgType :: string
  c_Height :: int

datatype ms_error =
    MsErrWrongCallId
  | MsErrWrongCallUniqueId
  | MsErrWrongMsg
  | MsErrWrongMsgRoute
  | MsErrWrongMsgType
  | MsErrVoteAlreadyApproved
  | MsErrVoteAlreadyConfirmed
  | MsErrVoteAlreadyRejected
  | MsErrVoteNoVotes
  | MsErrVoteNotApproved
  | MsErrPoaNotValidator
  | MsErrInvalidAddress
  | MsErrHandler string
  | MsErrGenesis string

text \<open>\<open>Valid\<close> is used on genesis objects, where the identifier and the message may be missing.\<close>

definition Call_Valid :: "int \<Rightarrow> ID option \<Rightarrow> 'm MsMsg option \<Rightarrow> 'm Call \<Rightarrow> (ms_error, unit) res" where
  "Call_Valid curBlockHeight i msg c =
     (if ID_Valid i \<noteq> Ok () then Err (MsErrGenesis ''id'')
      else if c_UniqueID c = [] then Err (MsErrGenesis ''unique_id: empty'')
      else if c_Creator c = [] then Err (MsErrGenesis ''creator: empty'')
      else if c_Approved c \<and> \<not> (c_Executed c \<or> c_Failed c) then Err (MsErrGenesis ''approved, but not executed/failed'')
      else if c_Rejected c \<and> (c_Approved c \<or> c_Executed c \<or> c_Failed c) then Err (MsErrGenesis ''rejected, but also approved/executed/failed'')
      else if msg = None then Err (MsErrGenesis ''msg: nil'')
      else if c_MsgRoute c = [] then Err (MsErrGenesis ''msg_route: empty'')
      else if c_MsgType c = [] then Err (MsErrGenesis ''msg_type: empty'')
      else if c_Height c < 0 then Err (MsErrGenesis ''height: LT 0'')
      else if curBlockHeight \<noteq> - 1 \<and> curBlockHeight < c_Height c then Err (MsErrGenesis ''height: GT current blockHeight'')
      else Ok ())"

definition CanBeVoted :: "'m Call \<Rightarrow> (ms_error, unit) res" where
  "CanBeVoted c =
     (if c_Approved c then Err MsErrVoteAlreadyApproved
      else if c_Rejected c then Err MsErrVoteAlreadyRejected
      else Ok ())"

definition NewCall :: "ID \<Rightarrow> string \<Rightarrow> 'm MsMsg option \<Rightarrow> int \<Rightarrow> bytes \<Rightarrow> (ms_error, 'm Call) res" where
  "NewCall i uniqueID msg blockHeight creator =
     (case msg of
        None \<Rightarrow> Err MsErrWrongMsg
      | Some mm \<Rightarrow>
          if mm_Route mm = [] then Err MsErrWrongMsgRoute
          else if mm_Type mm = [] then Err MsErrWrongMsgType
          else if ID_Valid (Some i) \<noteq> Ok () then Err MsErrWrongCallId
          else if uniqueID = [] then Err MsErrWrongCallUniqueId
          else if creator = [] then Err MsErrInvalidAddress
          else Ok \<lparr>c_ID = i, c_UniqueID = uniqueID, c_Creator = creator, c_Approved = False, c_Executed = False,
                   c_Failed = False, c_Rejected = False, c_Error = [], c_Msg = mm, c_MsgRoute = mm_Route mm,
                   c_MsgType = mm_Type mm, c_Height = blockHeight\<rparr>)"

section \<open>Keys\<close>

definition GetCallKey :: "ID \<Rightarrow> bytes" where
  "GetCallKey i = join_with (CHR '':'') [''call'', ID_String i]"

definition GetUniqueIDKey :: "string \<Rightarrow> bytes" where
  "GetUniqueIDKey u = join_with (CHR '':'') [''uniqueId'', u]"

definition GetVotesKey :: "ID \<Rightarrow> bytes" where
  "GetVotesKey i = join_with (CHR '':'') [''callVotes'', ID_String i]"

text \<open>The conversion \<open>uint64(blockHeight)\<close> wraps negative heights.\<close>

definition GetQueueKey :: "ID \<Rightarrow> int \<Rightarrow> bytes" where
  "GetQueueKey i blockHeight = join_with (CHR '':'') [''queue'', be64 (nat (blockHeight mod 2 ^ 64)), ID_String i]"

definition GetPrefixQueueKey :: "int \<Rightarrow> bytes" where
  "GetPrefixQueueKey blockHeight = join_with (CHR '':'') [''queue'', be64 (nat (blockHeight mod 2 ^ 64))]"

text \<open>\<open>None\<close> is a panic; \<open>binary.BigEndian.Uint64\<close> panics on fewer than eight bytes and reads the first eight.\<close>

definition MustParseQueueKey :: "sdk \<Rightarrow> bytes \<Rightarrow> (ID \<times> int) option" where
  "MustParseQueueKey S key =
     (let values = split_on (CHR '':'') key in
      if length values \<noteq> 3 then None
      else if values ! 0 \<noteq> ''queue'' then None
      else if length (values ! 1) < 8 then None
      else let blockHeight = sint (of_nat (be_to_nat 0 (take 8 (values ! 1))) :: 64 word) in
        (case NewIDFromString S (values ! 2) of Ok i \<Rightarrow> Some (i, blockHeight) | _ \<Rightarrow> None))"

section \<open>Keeper\<close>

record 'm ms_store =
  ms_calls :: "'m Call kv"
  ms_unique :: "ID kv"
  ms_votes :: "bytes list kv"
  ms_queue :: "ID kv"
  ms_lastID :: "ID option"
  ms_interval :: int

record ('x, 'm) ms_world =
  mw_store :: "'m ms_store"
  mw_app :: "'x ms_app"

definition HasCall :: "'m ms_store \<Rightarrow> ID \<Rightarrow> bool" where
  "HasCall s i = kv_has (GetCallKey i) (ms_calls s)"

definition HasCallByUniqueID :: "'m ms_store \<Rightarrow> string \<Rightarrow> bool" where
  "HasCallByUniqueID s u = kv_has (GetUniqueIDKey u) (ms_unique s)"

definition GetCall :: "'m ms_store \<Rightarrow> ID \<Rightarrow> (ms_error, 'm Call) res" where
  "GetCall s i = (case kv_get (GetCallKey i) (ms_calls s) of None \<Rightarrow> Err MsErrWrongCallId | Some c \<Rightarrow> Ok c)"

definition GetCallIDByUniqueID :: "'m ms_store \<Rightarrow> string \<Rightarrow> (ms_error, ID) res" where
  "GetCallIDByUniqueID s u =
     (case kv_get (GetUniqueIDKey u) (ms_unique s) of None \<Rightarrow> Err MsErrWrongCallUniqueId | Some i \<Rightarrow> Ok i)"

definition GetLastCallID :: "'m ms_store \<Rightarrow> ID" where
  "GetLastCallID s = (case ms_lastID s of None \<Rightarrow> 0 | Some i \<Rightarrow> i)"

definition StoreCall :: "'m Call \<Rightarrow> 'm ms_store \<Rightarrow> 'm ms_store" where
  "StoreCall c s = s\<lparr>ms_calls := kv_set (GetCallKey (c_ID c)) c (ms_calls s)\<rparr>"

definition getCalls :: "'m ms_store \<Rightarrow> 'm Call list" where
  "getCalls s = kv_vals (ms_calls s)"

definition RemoveCallFromQueue :: "ID \<Rightarrow> int \<Rightarrow> 'm ms_store \<Rightarrow> 'm ms_store" where
  "RemoveCallFromQueue i height s = s\<lparr>ms_queue := kv_del (GetQueueKey i height) (ms_queue s)\<rparr>"

definition addCallToQueue :: "ID \<Rightarrow> int \<Rightarrow> 'm ms_store \<Rightarrow> 'm ms_store" where
  "addCallToQueue i height s = s\<lparr>ms_queue := kv_set (GetQueueKey i height) i (ms_queue s)\<rparr>"

text \<open>
  An iterator from a key to \<open>sdk.PrefixEndBytes\<close> of a prefix: the keys not below the first that are below the prefix or
  extend it.
\<close>

definition kv_till :: "bytes \<Rightarrow> bytes \<Rightarrow> 'v kv \<Rightarrow> 'v kv" where
  "kv_till lo p st = filter (\<lambda>e. lo \<le> fst e \<and> (fst e < p \<or> prefix p (fst e))) st"

definition GetQueueIteratorStartEnd :: "'m ms_store \<Rightarrow> int \<Rightarrow> int \<Rightarrow> ID kv" where
  "GetQueueIteratorStartEnd s startHeight endHeight =
     kv_till (GetPrefixQueueKey startHeight) (GetPrefixQueueKey endHeight) (ms_queue s)"

definition GetQueueIteratorTill :: "'m ms_store \<Rightarrow> int \<Rightarrow> ID kv" where
  "GetQueueIteratorTill s endHeight = kv_till ''queue'' (GetPrefixQueueKey endHeight) (ms_queue s)"

definition setCallUniqueIDMatch :: "string \<Rightarrow> ID \<Rightarrow> 'm ms_store \<Rightarrow> 'm ms_store" where
  "setCallUniqueIDMatch u i s = s\<lparr>ms_unique := kv_set (GetUniqueIDKey u) i (ms_unique s)\<rparr>"

definition nextCallID :: "sdk \<Rightarrow> 'm ms_store \<Rightarrow> ID option" where
  "nextCallID S s = incr_id S (ms_lastID s)"

definition createCall :: "'m Call \<Rightarrow> 'm ms_store \<Rightarrow> 'm ms_store" where
  "createCall c s =
     addCallToQueue (c_ID c) (c_Height c)
       (StoreCall c (setCallUniqueIDMatch (c_UniqueID c) (c_ID c) (s\<lparr>ms_lastID := Some (c_ID c)\<rparr>)))"

subsection \<open>Votes\<close>

definition HasVote :: "'m ms_store \<Rightarrow> ID \<Rightarrow> bytes \<Rightarrow> (ms_error, bool) res" where
  "HasVote s i a =
     (case kv_get (GetVotesKey i) (ms_votes s) of
        None \<Rightarrow> Err MsErrVoteNoVotes
      | Some votes \<Rightarrow> Ok (a \<in> set votes))"

definition GetVotes :: "'m ms_store \<Rightarrow> ID \<Rightarrow> (ms_error, bytes list) res" where
  "GetVotes s i =
     (if \<not> HasCall s i then Err MsErrWrongCallId
      else case kv_get (GetVotesKey i) (ms_votes s) of None \<Rightarrow> Ok [] | Some votes \<Rightarrow> Ok votes)"

definition GetConfirmationsCount :: "'m ms_store \<Rightarrow> ID \<Rightarrow> (ms_error, nat) res" where
  "GetConfirmationsCount s i = bind_res (GetVotes s i) (\<lambda>votes. Ok (length votes))"

definition setVotes :: "ID \<Rightarrow> bytes list \<Rightarrow> 'm ms_store \<Rightarrow> 'm ms_store" where
  "setVotes i votes s = s\<lparr>ms_votes := kv_set (GetVotesKey i) votes (ms_votes s)\<rparr>"

definition removeVotes :: "ID \<Rightarrow> 'm ms_store \<Rightarrow> 'm ms_store" where
  "removeVotes i s = s\<lparr>ms_votes := kv_del (GetVotesKey i) (ms_votes s)\<rparr>"

text \<open>The votes read when the error of \<open>GetVotes\<close> is ignored: the zero value is empty.\<close>

definition votes_or_empty :: "'m ms_store \<Rightarrow> ID \<Rightarrow> bytes list" where
  "votes_or_empty s i = (case GetVotes s i of Ok votes \<Rightarrow> votes | _ \<Rightarrow> [])"

definition storeVote :: "'m Call \<Rightarrow> bytes \<Rightarrow> ('m ms_store, ms_error, unit) op" where
  "storeVote c a s =
     (case CanBeVoted c of
        Err e \<Rightarrow> (Err e, s)
      | Panic \<Rightarrow> (Panic, s)
      | Ok _ \<Rightarrow>
          (case HasVote s (c_ID c) a of
             Ok True \<Rightarrow> (Err MsErrVoteAlreadyConfirmed, s)
           | Err MsErrVoteNoVotes \<Rightarrow> (Ok (), setVotes (c_ID c) [a] s)
           | _ \<Rightarrow> (Ok (), setVotes (c_ID c) (votes_or_empty s (c_ID c) @ [a]) s)))"

text \<open>The loop that finds the vote; the slice expression panics when there is none.\<close>

fun remove_vote :: "bytes \<Rightarrow> bytes list \<Rightarrow> bytes list option" where
  "remove_vote a [] = None"
| "remove_vote a (v # vs) = (if v = a then Some vs else map_option ((#) v) (remove_vote a vs))"

definition revokeVote :: "'m Call \<Rightarrow> bytes \<Rightarrow> ('m ms_store, ms_error, unit) op" where
  "revokeVote c a s =
     (case CanBeVoted c of
        Err e \<Rightarrow> (Err e, s)
      | Panic \<Rightarrow> (Panic, s)
      | Ok _ \<Rightarrow>
          (case HasVote s (c_ID c) a of
             Ok True \<Rightarrow>
               let votes = votes_or_empty s (c_ID c) in
               if length votes = 1 then (Ok (), RemoveCallFromQueue (c_ID c) (c_Height c) (removeVotes (c_ID c) s))
               else (case remove_vote a votes of
                       None \<Rightarrow> (Panic, s)
                     | Some votes' \<Rightarrow> (Ok (), setVotes (c_ID c) votes' s))
           | _ \<Rightarrow> (Err MsErrVoteNotApproved, s)))"

definition ConfirmCall :: "ID \<Rightarrow> bytes \<Rightarrow> ('m ms_store, ms_error, unit) op" where
  "ConfirmCall i a s = (case GetCall s i of Ok c \<Rightarrow> storeVote c a s | Err e \<Rightarrow> (Err e, s) | Panic \<Rightarrow> (Panic, s))"

definition RevokeConfirmation :: "ID \<Rightarrow> bytes \<Rightarrow> ('m ms_store, ms_error, unit) op" where
  "RevokeConfirmation i a s = (case GetCall s i of Ok c \<Rightarrow> revokeVote c a s | Err e \<Rightarrow> (Err e, s) | Panic \<Rightarrow> (Panic, s))"

text \<open>
  \<open>SubmitCall\<close> runs the handler once on a discarded copy of the state; its error refuses the call.
\<close>

definition SubmitCall ::
  "sdk \<Rightarrow> ('x, 'm) msRouter \<Rightarrow> int \<Rightarrow> 'm MsMsg \<Rightarrow> string \<Rightarrow> bytes \<Rightarrow> 'x ms_app \<Rightarrow> ('m ms_store, ms_error, unit) op" where
  "SubmitCall S R blockHeight msg uniqueID sender app s =
     (if HasCallByUniqueID s uniqueID then
        (case GetCallIDByUniqueID s uniqueID of
           Ok i \<Rightarrow> ConfirmCall i sender s
         | Err e \<Rightarrow> (Err e, s)
         | Panic \<Rightarrow> (Panic, s))
      else
        (case nextCallID S s of
           None \<Rightarrow> (Panic, s)
         | Some i \<Rightarrow>
             (case NewCall i uniqueID (Some msg) blockHeight sender of
                Err e \<Rightarrow> (Err e, s)
              | Panic \<Rightarrow> (Panic, s)
              | Ok c \<Rightarrow>
                  (case GetRoute R (mm_Route msg) of
                     None \<Rightarrow> (Err MsErrWrongMsgRoute, s)
                   | Some handler \<Rightarrow>
                       (case fst (handler msg app) of
                          Err e \<Rightarrow> (Err (MsErrHandler e), s)
                        | Panic \<Rightarrow> (Panic, s)
                        | Ok _ \<Rightarrow> ConfirmCall (c_ID c) sender (createCall c s))))))"

section \<open>Messages\<close>

datatype 'm ms_msg =
    MsgSubmitCall "'m MsMsg" string bytes
  | MsgConfirmCall ID bytes
  | MsgRevokeConfirm ID bytes

definition MsgSubmitCall_ValidateBasic :: "'m MsMsg \<Rightarrow> string \<Rightarrow> bytes \<Rightarrow> (ms_error, unit) res" where
  "MsgSubmitCall_ValidateBasic msg uniqueID creator =
     (if uniqueID = [] then Err MsErrWrongCallUniqueId
      else if creator = [] then Err MsErrInvalidAddress
      else if \<not> mm_Valid msg then Err MsErrWrongMsg
      else Ok ())"

definition MsgConfirmCall_ValidateBasic :: "ID option \<Rightarrow> bytes \<Rightarrow> (ms_error, unit) res" where
  "MsgConfirmCall_ValidateBasic i sender =
     (if ID_Valid i \<noteq> Ok () then Err MsErrWrongCallId
      else if sender = [] then Err MsErrInvalidAddress
      else Ok ())"

definition MsgRevokeConfirm_ValidateBasic :: "ID option \<Rightarrow> bytes \<Rightarrow> (ms_error, unit) res" where
  "MsgRevokeConfirm_ValidateBasic i sender =
     (if ID_Valid i \<noteq> Ok () then Err MsErrWrongCallId
      else if sender = [] then Err MsErrInvalidAddress
      else Ok ())"

definition handleMsgSubmitCall ::
  "sdk \<Rightarrow> ('x, 'm) msRouter \<Rightarrow> int \<Rightarrow> 'm MsMsg \<Rightarrow> string \<Rightarrow> bytes \<Rightarrow> 'x ms_app \<Rightarrow> ('m ms_store, ms_error, unit) op" where
  "handleMsgSubmitCall S R blockHeight msg uniqueID creator app s =
     (if \<not> HasValidator (ma_poa app) creator then (Err MsErrPoaNotValidator, s)
      else SubmitCall S R blockHeight msg uniqueID creator app s)"

definition handleMsgConfirmCall :: "ID \<Rightarrow> bytes \<Rightarrow> 'x ms_app \<Rightarrow> ('m ms_store, ms_error, unit) op" where
  "handleMsgConfirmCall i sender app s =
     (if \<not> HasValidator (ma_poa app) sender then (Err MsErrPoaNotValidator, s) else ConfirmCall i sender s)"

definition handleMsgRevokeConfirm :: "ID \<Rightarrow> bytes \<Rightarrow> 'x ms_app \<Rightarrow> ('m ms_store, ms_error, unit) op" where
  "handleMsgRevokeConfirm i sender app s = RevokeConfirmation i sender s"

fun Ms_NewHandler :: "sdk \<Rightarrow> ('x, 'm) msRouter \<Rightarrow> int \<Rightarrow> 'm ms_msg \<Rightarrow> 'x ms_app \<Rightarrow> ('m ms_store, ms_error, unit) op" where
  "Ms_NewHandler S R h (MsgSubmitCall msg u a) app s = handleMsgSubmitCall S R h msg u a app s"
| "Ms_NewHandler S R h (MsgConfirmCall i a) app s = handleMsgConfirmCall i a app s"
| "Ms_NewHandler S R h (MsgRevokeConfirm i a) app s = handleMsgRevokeConfirm i a app s"

section \<open>End of a block\<close>

text \<open>
  The iterators read a snapshot of the queue: removing entries while iterating does not change what is
  visited. \<open>execute_call\<close> is the part for a call that is confirmed enough.
\<close>

definition execute_call :: "('x, 'm) msRouter \<Rightarrow> ID \<Rightarrow> 'm Call \<Rightarrow> (('x, 'm) ms_world, ms_error, unit) op" where
  "execute_call R callID call w =
     (case GetRoute R (mm_Route (c_Msg call)) of
        None \<Rightarrow> (Panic, w)
      | Some handler \<Rightarrow>
          (case handler (c_Msg call) (mw_app w) of
             (Panic, _) \<Rightarrow> (Panic, w)
           | (Err e, _) \<Rightarrow>
               (Ok (), w\<lparr>mw_store := RemoveCallFromQueue callID (c_Height call)
                   (StoreCall (call\<lparr>c_Approved := True, c_Failed := True, c_Error := e\<rparr>) (mw_store w))\<rparr>)
           | (Ok _, app') \<Rightarrow>
               (Ok (), w\<lparr>mw_app := app', mw_store := RemoveCallFromQueue callID (c_Height call)
                   (StoreCall (call\<lparr>c_Approved := True, c_Executed := True\<rparr>) (mw_store w))\<rparr>)))"

definition process_active :: "('x, 'm) msRouter \<Rightarrow> ID \<Rightarrow> (('x, 'm) ms_world, ms_error, unit) op" where
  "process_active R callID w =
     (case GetConfirmationsCount (mw_store w) callID of
        Ok confirmations \<Rightarrow>
          if GetEnoughConfirmations (ma_poa (mw_app w)) \<le> (of_nat confirmations :: 16 word) then
            (case GetCall (mw_store w) callID of
               Ok call \<Rightarrow> execute_call R callID call w
             | _ \<Rightarrow> (Panic, w))
          else (Ok (), w)
      | _ \<Rightarrow> (Panic, w))"

fun active_loop :: "('x, 'm) msRouter \<Rightarrow> ID list \<Rightarrow> (('x, 'm) ms_world, ms_error, unit) op" where
  "active_loop R [] w = (Ok (), w)"
| "active_loop R (i # is) w =
     (case process_active R i w of
        (Ok _, w') \<Rightarrow> active_loop R is w'
      | (r, w') \<Rightarrow> (r, w'))"

definition reject_call :: "ID \<Rightarrow> ('m ms_store, ms_error, unit) op" where
  "reject_call callID s =
     (case GetCall s callID of
        Ok call \<Rightarrow> (Ok (), RemoveCallFromQueue callID (c_Height call) (StoreCall (call\<lparr>c_Rejected := True\<rparr>) s))
      | _ \<Rightarrow> (Panic, s))"

fun reject_loop :: "ID list \<Rightarrow> ('m ms_store, ms_error, unit) op" where
  "reject_loop [] s = (Ok (), s)"
| "reject_loop (i # is) s =
     (case reject_call i s of
        (Ok _, s') \<Rightarrow> reject_loop is s'
      | (r, s') \<Rightarrow> (r, s'))"

definition start_height :: "int \<Rightarrow> 'm ms_store \<Rightarrow> int" where
  "start_height blockHeight s = (let start = blockHeight - ms_interval s in if start < 0 then 0 else start)"

definition Ms_EndBlocker :: "('x, 'm) msRouter \<Rightarrow> int \<Rightarrow> (('x, 'm) ms_world, ms_error, unit) op" where
  "Ms_EndBlocker R blockHeight w =
     (let start = start_height blockHeight (mw_store w) in
      case active_loop R (kv_vals (GetQueueIteratorStartEnd (mw_store w) start blockHeight)) w of
        (Ok _, w1) \<Rightarrow>
          if ms_interval (mw_store w1) < start then
            (case reject_loop (kv_vals (GetQueueIteratorTill (mw_store w1) start)) (mw_store w1) of
               (r, s2) \<Rightarrow> (r, w1\<lparr>mw_store := s2\<rparr>))
          else (Ok (), w1)
      | (r, w1) \<Rightarrow> (r, w1))"

section \<open>Squashing and genesis\<close>

fun ms_squash_loop :: "'m Call list \<Rightarrow> 'm ms_store \<Rightarrow> 'm ms_store" where
  "ms_squash_loop [] s = s"
| "ms_squash_loop (c # cs) s =
     (let s1 = (case CanBeVoted c of
                  Ok _ \<Rightarrow> addCallToQueue (c_ID c) 0 (RemoveCallFromQueue (c_ID c) (c_Height c) s)
                | _ \<Rightarrow> s) in
      ms_squash_loop cs (StoreCall (c\<lparr>c_Height := 0\<rparr>) s1))"

definition Ms_PrepareForZeroHeight :: "'m ms_store \<Rightarrow> 'm ms_store" where
  "Ms_PrepareForZeroHeight s = ms_squash_loop (getCalls s) s"

text \<open>The identifiers and messages of a decoded genesis are present, the tests of missing ones always pass.\<close>

record 'm ms_genesis =
  mg_Interval :: int
  mg_LastCallID :: "ID option"
  mg_CallItems :: "('m Call \<times> bytes list) list"
  mg_QueueItems :: "(ID \<times> int) list"

fun ms_validate_calls :: "int \<Rightarrow> ID \<Rightarrow> ID list \<Rightarrow> ('m Call \<times> bytes list) list \<Rightarrow> (ms_error, ID \<times> ID list) res" where
  "ms_validate_calls h maxID seen [] = Ok (maxID, seen)"
| "ms_validate_calls h maxID seen ((c, votes) # items) =
     (if c_ID c \<in> set seen then Err (MsErrGenesis ''call_id duplicated'')
      else bind_res (Call_Valid h (Some (c_ID c)) (Some (c_Msg c)) c) (\<lambda>_.
        ms_validate_calls h (if maxID < c_ID c then c_ID c else maxID) (c_ID c # seen) items))"

fun ms_validate_queue :: "int \<Rightarrow> ID list \<Rightarrow> (ID \<times> int) list \<Rightarrow> (ms_error, unit) res" where
  "ms_validate_queue h ids [] = Ok ()"
| "ms_validate_queue h ids ((i, bh) # items) =
     (if bh < 0 then Err (MsErrGenesis ''block_height: LT 0'')
      else if h \<noteq> - 1 \<and> h < bh then Err (MsErrGenesis ''block_height: GT current blockHeight'')
      else if i \<notin> set ids then Err (MsErrGenesis ''call_id not found in the genesisState'')
      else ms_validate_queue h ids items)"

abbreviation MinIntervalToExecute :: int where
  "MinIntervalToExecute \<equiv> 10"

definition MsGenesis_Validate :: "int \<Rightarrow> 'm ms_genesis \<Rightarrow> (ms_error, unit) res" where
  "MsGenesis_Validate h g =
     (if mg_Interval g < MinIntervalToExecute then Err (MsErrGenesis ''parameters'')
      else bind_res (ms_validate_calls h 0 [] (mg_CallItems g)) (\<lambda>(maxID, ids).
        bind_res (ms_validate_queue h ids (mg_QueueItems g)) (\<lambda>_.
          case mg_LastCallID g of
            None \<Rightarrow> if mg_CallItems g \<noteq> [] then Err (MsErrGenesis ''last_call_id: nil with existing calls'') else Ok ()
          | Some l \<Rightarrow>
              if mg_CallItems g = [] then Err (MsErrGenesis ''last_call_id: not nil without existing calls'')
              else if l \<noteq> maxID then Err (MsErrGenesis ''last_call_id: not equal to max call ID'')
              else Ok ())))"

fun ms_init_calls :: "('x, 'm) msRouter \<Rightarrow> ('m Call \<times> bytes list) list \<Rightarrow> 'm ms_store \<Rightarrow> 'm ms_store option" where
  "ms_init_calls R [] s = Some s"
| "ms_init_calls R ((c, votes) # items) s =
     (if \<not> HasRoute R (mm_Route (c_Msg c)) then None
      else let s1 = StoreCall c (setCallUniqueIDMatch (c_UniqueID c) (c_ID c) s) in
        ms_init_calls R items (if 0 < length votes then setVotes (c_ID c) votes s1 else s1))"

definition Ms_InitGenesis :: "('x, 'm) msRouter \<Rightarrow> int \<Rightarrow> 'm ms_genesis \<Rightarrow> ('m ms_store, ms_error, unit) op" where
  "Ms_InitGenesis R blockHeight g s =
     (case MsGenesis_Validate blockHeight g of
        Ok _ \<Rightarrow>
          let s1 = s\<lparr>ms_interval := mg_Interval g\<rparr>;
              s2 = (case mg_LastCallID g of None \<Rightarrow> s1 | Some i \<Rightarrow> s1\<lparr>ms_lastID := Some i\<rparr>) in
          (case ms_init_calls R (mg_CallItems g) s2 of
             None \<Rightarrow> (Panic, s2)
           | Some s3 \<Rightarrow> (Ok (), foldl (\<lambda>t (i, bh). addCallToQueue i bh t) s3 (mg_QueueItems g)))
      | _ \<Rightarrow> (Panic, s))"

fun parse_queue :: "sdk \<Rightarrow> ID kv \<Rightarrow> (ID \<times> int) list option" where
  "parse_queue S [] = Some []"
| "parse_queue S ((k, i) # q) =
     Option.bind (MustParseQueueKey S k) (\<lambda>item. Option.bind (parse_queue S q) (\<lambda>items. Some (item # items)))"

definition Ms_ExportGenesis :: "sdk \<Rightarrow> int \<Rightarrow> 'm ms_store \<Rightarrow> 'm ms_genesis option" where
  "Ms_ExportGenesis S blockHeight s =
     map_option (\<lambda>items.
         \<lparr>mg_Interval = ms_interval s, mg_LastCallID = ms_lastID s,
          mg_CallItems = map (\<lambda>c. (c, votes_or_empty s (c_ID c))) (getCalls s), mg_QueueItems = items\<rparr>)
       (parse_queue S (GetQueueIteratorTill s blockHeight))"

end
