(* ===== verification/Ms_Inv.thy ===== *)
theory Ms_Inv
  imports Multisig
begin

text \<open>
  The invariant of the multi-signature module: the four stores (calls, unique identifiers, votes, queue) agree, the
  status flags of a call exclude each other, and its preservation by every keeper operation, message and by the end
  of a block.
\<close>

section \<open>Keys\<close>

lemma GetCallKey_inject [key_simps, simp]: "GetCallKey i = GetCallKey j \<longleftrightarrow> i = j"
  by (simp add: GetCallKey_def ID_String_def)

lemma GetVotesKey_inject [key_simps, simp]: "GetVotesKey i = GetVotesKey j \<longleftrightarrow> i = j"
  by (simp add: GetVotesKey_def ID_String_def)

lemma GetUniqueIDKey_inject [key_simps, simp]: "GetUniqueIDKey u = GetUniqueIDKey v \<longleftrightarrow> u = v"
  by (simp add: GetUniqueIDKey_def)

abbreviation height_ok :: "int \<Rightarrow> bool" where
  "height_ok h \<equiv> 0 \<le> h \<and> h < 2 ^ 63"

lemma GetQueueKey_eq:
  "height_ok h \<Longrightarrow> GetQueueKey i h = ''queue:'' @ be64 (nat h) @ CHR '':'' # ID_String i"
  by (simp add: GetQueueKey_def)

lemma GetPrefixQueueKey_eq: "height_ok h \<Longrightarrow> GetPrefixQueueKey h = ''queue:'' @ be64 (nat h)"
  by (simp add: GetPrefixQueueKey_def)

lemma GetQueueKey_inject [key_simps]:
  "\<lbrakk>height_ok h; height_ok h'\<rbrakk> \<Longrightarrow> GetQueueKey i h = GetQueueKey j h' \<longleftrightarrow> i = j \<and> h = h'"
  by (auto simp: GetQueueKey_eq be64_inject ID_String_def nat_less_iff)

text \<open>The iterators of the queue select by height, both ends included.\<close>

lemma queue_key_ge_prefix:
  assumes "height_ok h" and "height_ok b"
  shows "GetPrefixQueueKey b \<le> GetQueueKey i h \<longleftrightarrow> b \<le> h"
proof -
  have "GetQueueKey i h < GetPrefixQueueKey b \<longleftrightarrow> be64 (nat h) @ CHR '':'' # ID_String i < be64 (nat b) @ []"
    using assms by (simp add: GetQueueKey_eq GetPrefixQueueKey_eq)
  also have "\<dots> \<longleftrightarrow> nat h < nat b"
    using assms by (subst append_less_iff) (auto simp: be64_less_iff nat_less_iff)
  finally show ?thesis using assms by (auto simp: not_less [symmetric])
qed

lemma queue_key_prefix:
  assumes "height_ok h" and "height_ok b"
  shows "prefix (GetPrefixQueueKey b) (GetQueueKey i h) \<longleftrightarrow> h = b"
proof
  assume "prefix (GetPrefixQueueKey b) (GetQueueKey i h)"
  then have "take 14 (GetPrefixQueueKey b) = take 14 (GetQueueKey i h)" using assms
    by (auto simp: prefix_def GetPrefixQueueKey_eq GetQueueKey_eq)
  then have "be64 (nat b) = be64 (nat h)" using assms by (simp add: GetPrefixQueueKey_eq GetQueueKey_eq)
  with assms show "h = b" by (auto simp: be64_inject nat_less_iff)
qed (use assms in \<open>simp add: GetQueueKey_eq GetPrefixQueueKey_eq\<close>)

lemma kv_till_window:
  assumes "height_ok h" and "height_ok lo" and "height_ok hi"
  shows "(GetPrefixQueueKey lo \<le> GetQueueKey i h \<and>
     (GetQueueKey i h < GetPrefixQueueKey hi \<or> prefix (GetPrefixQueueKey hi) (GetQueueKey i h))) \<longleftrightarrow> lo \<le> h \<and> h \<le> hi"
  using queue_key_ge_prefix [OF assms(1,2)] queue_key_ge_prefix [OF assms(1,3)] queue_key_prefix [OF assms(1,3)]
  by (auto simp: not_less [symmetric])

lemma queue_key_ge: "height_ok h \<Longrightarrow> ''queue'' \<le> GetQueueKey i h"
  by (simp add: GetQueueKey_eq)

section \<open>Views of the store\<close>

definition call_at :: "'m ms_store \<Rightarrow> ID \<Rightarrow> 'm Call option" where
  "call_at s i = kv_get (GetCallKey i) (ms_calls s)"

definition votes_at :: "'m ms_store \<Rightarrow> ID \<Rightarrow> bytes list option" where
  "votes_at s i = kv_get (GetVotesKey i) (ms_votes s)"

definition queued_at :: "'m ms_store \<Rightarrow> ID \<Rightarrow> int \<Rightarrow> bool" where
  "queued_at s i h \<longleftrightarrow> kv_has (GetQueueKey i h) (ms_queue s)"

lemma GetCall_at: "GetCall s i = (case call_at s i of None \<Rightarrow> Err MsErrWrongCallId | Some c \<Rightarrow> Ok c)"
  by (simp add: GetCall_def call_at_def)

lemma HasCall_at: "HasCall s i \<longleftrightarrow> call_at s i \<noteq> None"
  by (simp add: HasCall_def call_at_def kv_has_iff)

lemma HasVote_at: "HasVote s i a = (case votes_at s i of None \<Rightarrow> Err MsErrVoteNoVotes | Some vs \<Rightarrow> Ok (a \<in> set vs))"
  by (simp add: HasVote_def votes_at_def)

lemma votes_or_empty_at:
  "votes_or_empty s i = (if call_at s i = None then [] else case votes_at s i of None \<Rightarrow> [] | Some vs \<Rightarrow> vs)"
  by (auto simp: votes_or_empty_def GetVotes_def HasCall_at votes_at_def split: option.splits)

lemma call_at_simps [simp]:
  "call_at (StoreCall c s) j = (if j = c_ID c then Some c else call_at s j)"
  "call_at (setVotes i vs s) j = call_at s j" "call_at (removeVotes i s) j = call_at s j"
  "call_at (RemoveCallFromQueue i h s) j = call_at s j" "call_at (addCallToQueue i h s) j = call_at s j"
  "call_at (setCallUniqueIDMatch u i s) j = call_at s j"
  by (auto simp: call_at_def StoreCall_def setVotes_def removeVotes_def RemoveCallFromQueue_def addCallToQueue_def
    setCallUniqueIDMatch_def)

lemma votes_at_simps [simp]:
  "votes_at (StoreCall c s) j = votes_at s j"
  "votes_at (setVotes i vs s) j = (if j = i then Some vs else votes_at s j)"
  "votes_at (removeVotes i s) j = (if j = i then None else votes_at s j)"
  "votes_at (RemoveCallFromQueue i h s) j = votes_at s j" "votes_at (addCallToQueue i h s) j = votes_at s j"
  "votes_at (setCallUniqueIDMatch u i s) j = votes_at s j"
  by (auto simp: votes_at_def StoreCall_def setVotes_def removeVotes_def RemoveCallFromQueue_def addCallToQueue_def
    setCallUniqueIDMatch_def)

lemma queued_at_simps [simp]:
  "queued_at (StoreCall c s) j g = queued_at s j g"
  "queued_at (setVotes i vs s) j g = queued_at s j g"
  "queued_at (removeVotes i s) j g = queued_at s j g"
  "queued_at (RemoveCallFromQueue i h s) j g \<longleftrightarrow> queued_at s j g \<and> GetQueueKey j g \<noteq> GetQueueKey i h"
  "queued_at (addCallToQueue i h s) j g \<longleftrightarrow> queued_at s j g \<or> GetQueueKey j g = GetQueueKey i h"
  "queued_at (setCallUniqueIDMatch u i s) j g = queued_at s j g"
  by (auto simp: queued_at_def kv_has_iff StoreCall_def setVotes_def removeVotes_def RemoveCallFromQueue_def
    addCallToQueue_def setCallUniqueIDMatch_def)

lemma ms_field_simps [simp]:
  "ms_unique (StoreCall c s) = ms_unique s" "ms_unique (setVotes i vs s) = ms_unique s"
  "ms_unique (removeVotes i s) = ms_unique s" "ms_unique (RemoveCallFromQueue i h s) = ms_unique s"
  "ms_unique (addCallToQueue i h s) = ms_unique s"
  "ms_lastID (StoreCall c s) = ms_lastID s" "ms_lastID (setVotes i vs s) = ms_lastID s"
  "ms_lastID (removeVotes i s) = ms_lastID s" "ms_lastID (RemoveCallFromQueue i h s) = ms_lastID s"
  "ms_lastID (addCallToQueue i h s) = ms_lastID s" "ms_lastID (setCallUniqueIDMatch u i s) = ms_lastID s"
  "ms_interval (StoreCall c s) = ms_interval s" "ms_interval (setVotes i vs s) = ms_interval s"
  "ms_interval (removeVotes i s) = ms_interval s" "ms_interval (RemoveCallFromQueue i h s) = ms_interval s"
  "ms_interval (addCallToQueue i h s) = ms_interval s" "ms_interval (setCallUniqueIDMatch u i s) = ms_interval s"
  "ms_queue (StoreCall c s) = ms_queue s" "ms_queue (setVotes i vs s) = ms_queue s"
  "ms_queue (removeVotes i s) = ms_queue s" "ms_queue (setCallUniqueIDMatch u i s) = ms_queue s"
  "ms_votes (StoreCall c s) = ms_votes s" "ms_votes (RemoveCallFromQueue i h s) = ms_votes s"
  "ms_votes (addCallToQueue i h s) = ms_votes s" "ms_votes (setCallUniqueIDMatch u i s) = ms_votes s"
  "ms_calls (setVotes i vs s) = ms_calls s" "ms_calls (removeVotes i s) = ms_calls s"
  "ms_calls (RemoveCallFromQueue i h s) = ms_calls s" "ms_calls (addCallToQueue i h s) = ms_calls s"
  "ms_calls (setCallUniqueIDMatch u i s) = ms_calls s"
  by (simp_all add: StoreCall_def setVotes_def removeVotes_def RemoveCallFromQueue_def addCallToQueue_def
    setCallUniqueIDMatch_def)

section \<open>Invariant\<close>

definition call_ok :: "('x, 'm) msRouter \<Rightarrow> int \<Rightarrow> 'm Call \<Rightarrow> bool" where
  "call_ok R h c \<longleftrightarrow>
     c_UniqueID c \<noteq> [] \<and> c_Creator c \<noteq> [] \<and> 0 \<le> c_Height c \<and> c_Height c \<le> h \<and> c_ID c < 2 ^ 256 \<and>
     HasRoute R (mm_Route (c_Msg c)) \<and> c_MsgRoute c \<noteq> [] \<and> c_MsgType c \<noteq> [] \<and>
     (c_Approved c \<longleftrightarrow> c_Executed c \<or> c_Failed c) \<and> \<not> (c_Executed c \<and> c_Failed c) \<and> (c_Rejected c \<longrightarrow> \<not> c_Approved c)"

abbreviation call_key :: "'m Call \<Rightarrow> bytes" where
  "call_key c \<equiv> GetCallKey (c_ID c)"

definition calls_inv :: "('x, 'm) msRouter \<Rightarrow> int \<Rightarrow> 'm ms_store \<Rightarrow> bool" where
  "calls_inv R h s \<longleftrightarrow>
     kv_keyed call_key (ms_calls s) \<and> (\<forall>i c. call_at s i = Some c \<longrightarrow> call_ok R h c) \<and>
     (case ms_lastID s of
        None \<Rightarrow> (\<forall>i. call_at s i = None)
      | Some l \<Rightarrow> call_at s l \<noteq> None \<and> (\<forall>i. call_at s i \<noteq> None \<longrightarrow> i \<le> l))"

definition unique_inv :: "'m ms_store \<Rightarrow> bool" where
  "unique_inv s \<longleftrightarrow> kv_wf (ms_unique s) \<and>
     (\<forall>k i. kv_get k (ms_unique s) = Some i \<longleftrightarrow> (\<exists>c. call_at s i = Some c \<and> k = GetUniqueIDKey (c_UniqueID c)))"

definition votes_inv :: "'m ms_store \<Rightarrow> bool" where
  "votes_inv s \<longleftrightarrow> kv_wf (ms_votes s) \<and>
     (\<forall>k vs. kv_get k (ms_votes s) = Some vs \<longrightarrow>
        vs \<noteq> [] \<and> distinct vs \<and> (\<exists>i. k = GetVotesKey i \<and> call_at s i \<noteq> None))"

definition queue_inv :: "'m ms_store \<Rightarrow> bool" where
  "queue_inv s \<longleftrightarrow> kv_wf (ms_queue s) \<and>
     (\<forall>k i. kv_get k (ms_queue s) = Some i \<longrightarrow>
        (\<exists>c. call_at s i = Some c \<and> k = GetQueueKey i (c_Height c) \<and> CanBeVoted c = Ok () \<and> votes_at s i \<noteq> None))"

definition ms_inv :: "('x, 'm) msRouter \<Rightarrow> int \<Rightarrow> 'm ms_store \<Rightarrow> bool" where
  "ms_inv R h s \<longleftrightarrow> height_ok h \<and> MinIntervalToExecute \<le> ms_interval s \<and>
     calls_inv R h s \<and> unique_inv s \<and> votes_inv s \<and> queue_inv s"

lemma call_at_ID: "\<lbrakk>calls_inv R h s; call_at s i = Some c\<rbrakk> \<Longrightarrow> c_ID c = i"
  unfolding calls_inv_def kv_keyed_def call_at_def by (metis GetCallKey_inject)

lemma CanBeVoted_iff: "CanBeVoted c = Ok () \<longleftrightarrow> \<not> c_Approved c \<and> \<not> c_Rejected c"
  by (simp add: CanBeVoted_def)

lemma CanBeVoted_cases: "CanBeVoted c = Ok () \<or> (\<exists>e. CanBeVoted c = Err e)"
  by (simp add: CanBeVoted_def)

lemma call_ok_mono: "\<lbrakk>call_ok R h c; h \<le> h'\<rbrakk> \<Longrightarrow> call_ok R h' c"
  by (auto simp: call_ok_def)

lemma ms_inv_mono: "\<lbrakk>ms_inv R h s; h \<le> h'; h' < 2 ^ 63\<rbrakk> \<Longrightarrow> ms_inv R h' s"
  unfolding ms_inv_def calls_inv_def using call_ok_mono by fastforce

lemma ms_inv_height: "\<lbrakk>ms_inv R h s; call_at s i = Some c\<rbrakk> \<Longrightarrow> height_ok (c_Height c) \<and> c_Height c \<le> h"
  unfolding ms_inv_def calls_inv_def call_ok_def by fastforce

text \<open>An entry of the queue is the entry of a call that is open for votes.\<close>

lemma queue_entry:
  assumes "ms_inv R h s" and "queued_at s i (c_Height c)" and "call_at s i = Some c"
  shows "kv_get (GetQueueKey i (c_Height c)) (ms_queue s) = Some i \<and> CanBeVoted c = Ok () \<and> votes_at s i \<noteq> None"
proof -
  from assms(2) obtain j where j: "kv_get (GetQueueKey i (c_Height c)) (ms_queue s) = Some j"
    by (auto simp: queued_at_def kv_has_iff)
  then obtain d where d: "call_at s j = Some d" "GetQueueKey i (c_Height c) = GetQueueKey j (c_Height d)" "CanBeVoted d = Ok ()" "votes_at s j \<noteq> None"
    using assms(1) unfolding ms_inv_def queue_inv_def by meson
  have "height_ok (c_Height c)" "height_ok (c_Height d)"
    using ms_inv_height [OF assms(1,3)] ms_inv_height [OF assms(1) d(1)] by simp_all
  with d(2) have "i = j" by (simp add: GetQueueKey_inject)
  with j d(1,3,4) assms(3) show ?thesis by auto
qed

section \<open>Preservation by the writes of the keeper\<close>

lemma queue_at_simps:
  "kv_get k (ms_queue (RemoveCallFromQueue i h s)) = (if k = GetQueueKey i h then None else kv_get k (ms_queue s))"
  "kv_get k (ms_queue (addCallToQueue i h s)) = (if k = GetQueueKey i h then Some i else kv_get k (ms_queue s))"
  by (simp_all add: RemoveCallFromQueue_def addCallToQueue_def)

lemma votes_get_simps:
  "kv_get k (ms_votes (setVotes i vs s)) = (if k = GetVotesKey i then Some vs else kv_get k (ms_votes s))"
  "kv_get k (ms_votes (removeVotes i s)) = (if k = GetVotesKey i then None else kv_get k (ms_votes s))"
  by (simp_all add: setVotes_def removeVotes_def)

lemma ms_wf_simps [simp]:
  "kv_wf (ms_votes s) \<Longrightarrow> kv_wf (ms_votes (setVotes i vs s))"
  "kv_wf (ms_votes s) \<Longrightarrow> kv_wf (ms_votes (removeVotes i s))"
  "kv_wf (ms_queue s) \<Longrightarrow> kv_wf (ms_queue (RemoveCallFromQueue i h s))"
  "kv_wf (ms_queue s) \<Longrightarrow> kv_wf (ms_queue (addCallToQueue i h s))"
  "kv_wf (ms_unique s) \<Longrightarrow> kv_wf (ms_unique (setCallUniqueIDMatch u i s))"
  "kv_keyed call_key (ms_calls s) \<Longrightarrow> kv_keyed call_key (ms_calls (StoreCall c s))"
  by (simp_all add: setVotes_def removeVotes_def RemoveCallFromQueue_def addCallToQueue_def setCallUniqueIDMatch_def
    StoreCall_def kv_keyed_set [where key = call_key])

lemma setVotes_inv:
  assumes "ms_inv R h s" and "call_at s i \<noteq> None" and "vs \<noteq> []" and "distinct vs"
  shows "ms_inv R h (setVotes i vs s)"
proof -
  have "calls_inv R h (setVotes i vs s)" and "unique_inv (setVotes i vs s)"
    using assms(1) by (simp_all add: ms_inv_def calls_inv_def unique_inv_def cong: option.case_cong)
  moreover have "votes_inv (setVotes i vs s)"
    using assms by (auto simp: ms_inv_def votes_inv_def votes_get_simps)
  moreover have "queue_inv (setVotes i vs s)"
    using assms(1) by (fastforce simp: ms_inv_def queue_inv_def)
  ultimately show ?thesis using assms(1) by (simp add: ms_inv_def)
qed

lemma remove_last_vote_inv:
  assumes "ms_inv R h s" and "call_at s i = Some c"
  shows "ms_inv R h (RemoveCallFromQueue i (c_Height c) (removeVotes i s))"
proof -
  let ?s = "RemoveCallFromQueue i (c_Height c) (removeVotes i s)"
  have "calls_inv R h ?s" and "unique_inv ?s"
    using assms(1) by (simp_all add: ms_inv_def calls_inv_def unique_inv_def cong: option.case_cong)
  moreover have "votes_inv ?s"
    using assms(1) by (auto simp: ms_inv_def votes_inv_def votes_get_simps)
  moreover have "queue_inv ?s"
    unfolding queue_inv_def
  proof (intro conjI allI impI)
    show "kv_wf (ms_queue ?s)" using assms(1) by (simp add: ms_inv_def queue_inv_def)
    fix k j assume "kv_get k (ms_queue ?s) = Some j"
    then have kj: "kv_get k (ms_queue s) = Some j" "k \<noteq> GetQueueKey i (c_Height c)"
      by (simp_all add: queue_at_simps split: if_splits)
    then obtain d where d: "call_at s j = Some d" "k = GetQueueKey j (c_Height d)" "CanBeVoted d = Ok ()" "votes_at s j \<noteq> None"
      using assms(1) unfolding ms_inv_def queue_inv_def by meson
    then have "j \<noteq> i" using kj(2) assms(2) by auto
    with d show "\<exists>d. call_at ?s j = Some d \<and> k = GetQueueKey j (c_Height d) \<and> CanBeVoted d = Ok () \<and> votes_at ?s j \<noteq> None"
      by (intro exI [of _ d]) simp
  qed
  ultimately show ?thesis using assms(1) by (simp add: ms_inv_def)
qed

lemma close_call_inv:
  assumes inv: "ms_inv R h s" and c: "call_at s i = Some c"
    and c': "c_ID c' = i" "c_UniqueID c' = c_UniqueID c" "call_ok R h c'"
  shows "ms_inv R h (RemoveCallFromQueue i (c_Height c) (StoreCall c' s))"
proof -
  let ?s = "RemoveCallFromQueue i (c_Height c) (StoreCall c' s)"
  have at: "call_at ?s j = (if j = i then Some c' else call_at s j)" for j using c' by simp
  have "calls_inv R h ?s"
  proof -
    have ci: "calls_inv R h s" using inv by (simp add: ms_inv_def)
    have "call_at ?s j \<noteq> None \<longleftrightarrow> call_at s j \<noteq> None" for j using at c by simp
    with ci c c' at show ?thesis unfolding calls_inv_def by (auto split: option.splits)
  qed
  moreover have "unique_inv ?s"
  proof -
    have "(\<exists>d. call_at ?s j = Some d \<and> k = GetUniqueIDKey (c_UniqueID d)) \<longleftrightarrow>
        (\<exists>d. call_at s j = Some d \<and> k = GetUniqueIDKey (c_UniqueID d))" for j k
      using at c c' by auto
    then show ?thesis using inv unfolding ms_inv_def unique_inv_def by simp
  qed
  moreover have "votes_inv ?s"
    using inv at c unfolding ms_inv_def votes_inv_def by fastforce
  moreover have "queue_inv ?s"
    unfolding queue_inv_def
  proof (intro conjI allI impI)
    show "kv_wf (ms_queue ?s)" using inv by (simp add: ms_inv_def queue_inv_def)
    fix k j assume "kv_get k (ms_queue ?s) = Some j"
    then have kj: "kv_get k (ms_queue s) = Some j" "k \<noteq> GetQueueKey i (c_Height c)"
      by (simp_all add: queue_at_simps split: if_splits)
    then obtain d where d: "call_at s j = Some d" "k = GetQueueKey j (c_Height d)" "CanBeVoted d = Ok ()" "votes_at s j \<noteq> None"
      using inv unfolding ms_inv_def queue_inv_def by meson
    then have "j \<noteq> i" using kj(2) c by auto
    with d at show "\<exists>d. call_at ?s j = Some d \<and> k = GetQueueKey j (c_Height d) \<and> CanBeVoted d = Ok () \<and> votes_at ?s j \<noteq> None"
      by (intro exI [of _ d]) simp
  qed
  ultimately show ?thesis using inv by (simp add: ms_inv_def)
qed

lemma createCall_at:
  "call_at (createCall c s) j = (if j = c_ID c then Some c else call_at s j)"
  "votes_at (createCall c s) j = votes_at s j"
  "queued_at (createCall c s) j g \<longleftrightarrow> queued_at s j g \<or> GetQueueKey j g = GetQueueKey (c_ID c) (c_Height c)"
  "ms_lastID (createCall c s) = Some (c_ID c)" "ms_interval (createCall c s) = ms_interval s"
  "ms_votes (createCall c s) = ms_votes s"
  "kv_get k (ms_unique (createCall c s)) = (if k = GetUniqueIDKey (c_UniqueID c) then Some (c_ID c) else kv_get k (ms_unique s))"
  "kv_get k (ms_queue (createCall c s)) = (if k = GetQueueKey (c_ID c) (c_Height c) then Some (c_ID c) else kv_get k (ms_queue s))"
  "ms_calls (createCall c s) = kv_set (call_key c) c (ms_calls s)"
  by (simp_all add: createCall_def queue_at_simps)
    (auto simp: call_at_def votes_at_def queued_at_def setCallUniqueIDMatch_def StoreCall_def kv_has_iff)

lemma createCall_wf:
  "kv_wf (ms_unique s) \<Longrightarrow> kv_wf (ms_unique (createCall c s))"
  "kv_wf (ms_queue s) \<Longrightarrow> kv_wf (ms_queue (createCall c s))"
  by (simp_all add: createCall_def setCallUniqueIDMatch_def)

lemma next_id_fresh: "calls_inv R h s \<Longrightarrow> call_at s (next_id (ms_lastID s)) = None"
  unfolding calls_inv_def next_id_def by (cases "ms_lastID s") (auto dest: spec [of _ "Suc (the (ms_lastID s))"])

lemma votes_at_fresh: "\<lbrakk>votes_inv s; call_at s i = None\<rbrakk> \<Longrightarrow> votes_at s i = None"
  unfolding votes_inv_def votes_at_def by (metis GetVotesKey_inject not_None_eq)

lemma unique_fresh:
  "\<lbrakk>unique_inv s; \<not> HasCallByUniqueID s u; call_at s j = Some d\<rbrakk> \<Longrightarrow> c_UniqueID d \<noteq> u"
  unfolding unique_inv_def HasCallByUniqueID_def kv_has_iff by blast

lemma create_vote_inv:
  assumes inv: "ms_inv R h s" and i: "c_ID c = next_id (ms_lastID s)" and ok: "call_ok R h c"
    and opn: "CanBeVoted c = Ok ()" and u: "\<not> HasCallByUniqueID s (c_UniqueID c)"
  shows "ms_inv R h (setVotes (c_ID c) [a] (createCall c s))" (is "ms_inv R h ?s")
proof -
  have ci: "calls_inv R h s" and ui: "unique_inv s" and vi: "votes_inv s" and qi: "queue_inv s" and h: "height_ok h"
    using inv by (simp_all add: ms_inv_def)
  have fresh: "call_at s (c_ID c) = None" using next_id_fresh [OF ci] i by simp
  have at: "call_at ?s j = (if j = c_ID c then Some c else call_at s j)"
    and v: "votes_at ?s j = (if j = c_ID c then Some [a] else votes_at s j)" for j by (simp_all add: createCall_at)
  have "calls_inv R h ?s"
  proof -
    have "kv_keyed call_key (ms_calls ?s)"
      using ci by (simp add: createCall_at calls_inv_def kv_keyed_set [where key = call_key])
    moreover have "j \<le> c_ID c" if "call_at s j \<noteq> None" for j
      using ci that i unfolding calls_inv_def next_id_def by (cases "ms_lastID s") force+
    ultimately show ?thesis using ci ok at unfolding calls_inv_def by (simp add: createCall_at)
  qed
  moreover have "unique_inv ?s"
  proof -
    have new: "\<not> kv_has (GetUniqueIDKey (c_UniqueID c)) (ms_unique s)" using u by (simp add: HasCallByUniqueID_def)
    have "kv_get k (ms_unique ?s) = Some j \<longleftrightarrow> (\<exists>d. call_at ?s j = Some d \<and> k = GetUniqueIDKey (c_UniqueID d))" for k j
      using ui new fresh unfolding unique_inv_def kv_has_iff at by (auto simp: createCall_at)
    moreover have "kv_wf (ms_unique ?s)" using ui by (simp add: unique_inv_def createCall_wf)
    ultimately show ?thesis unfolding unique_inv_def by blast
  qed
  moreover have "votes_inv ?s"
  proof -
    have "vs \<noteq> [] \<and> distinct vs \<and> (\<exists>i. k = GetVotesKey i \<and> call_at ?s i \<noteq> None)"
      if "kv_get k (ms_votes ?s) = Some vs" for k vs
    proof (cases "k = GetVotesKey (c_ID c)")
      case True
      with that show ?thesis by (auto simp: createCall_at votes_get_simps)
    next
      case False
      with that have "kv_get k (ms_votes s) = Some vs" by (simp add: votes_get_simps createCall_at)
      then obtain j where "vs \<noteq> []" "distinct vs" "k = GetVotesKey j" "call_at s j \<noteq> None"
        using vi unfolding votes_inv_def by meson
      then show ?thesis by (auto simp: createCall_at intro!: exI [of _ j])
    qed
    moreover have "kv_wf (ms_votes ?s)" using vi by (simp add: votes_inv_def createCall_at)
    ultimately show ?thesis unfolding votes_inv_def by blast
  qed
  moreover have "queue_inv ?s"
  proof -
    have "\<exists>d. call_at ?s j = Some d \<and> k = GetQueueKey j (c_Height d) \<and> CanBeVoted d = Ok () \<and> votes_at ?s j \<noteq> None"
      if "kv_get k (ms_queue ?s) = Some j" for k j
    proof (cases "k = GetQueueKey (c_ID c) (c_Height c)")
      case True
      with that opn show ?thesis by (auto simp: at v createCall_at)
    next
      case False
      with that have "kv_get k (ms_queue s) = Some j" by (simp add: createCall_at)
      then obtain d where "call_at s j = Some d" "k = GetQueueKey j (c_Height d)" "CanBeVoted d = Ok ()" "votes_at s j \<noteq> None"
        using qi unfolding queue_inv_def by meson
      with fresh show ?thesis by (intro exI [of _ d]) (auto simp: createCall_at)
    qed
    moreover have "kv_wf (ms_queue ?s)" using qi by (simp add: queue_inv_def createCall_wf)
    ultimately show ?thesis unfolding queue_inv_def by blast
  qed
  ultimately show ?thesis using inv by (simp add: ms_inv_def createCall_at)
qed

section \<open>What the operations of the keeper do\<close>

lemma remove_vote_eq: "a \<in> set vs \<Longrightarrow> remove_vote a vs = Some (remove1 a vs)"
  by (induction vs) auto

lemma ConfirmCall_spec:
  assumes "ms_inv R h s"
  shows "ConfirmCall i a s =
    (case call_at s i of
       None \<Rightarrow> (Err MsErrWrongCallId, s)
     | Some c \<Rightarrow>
         if c_Approved c then (Err MsErrVoteAlreadyApproved, s)
         else if c_Rejected c then (Err MsErrVoteAlreadyRejected, s)
         else if a \<in> set (votes_or_empty s i) then (Err MsErrVoteAlreadyConfirmed, s)
         else (Ok (), setVotes i (votes_or_empty s i @ [a]) s))"
proof (cases "call_at s i")
  case (Some c)
  then have "c_ID c = i" using assms call_at_ID unfolding ms_inv_def by blast
  with Some show ?thesis
    by (auto simp: ConfirmCall_def GetCall_at storeVote_def CanBeVoted_def HasVote_at votes_or_empty_at split: option.splits bool.splits)
qed (simp add: ConfirmCall_def GetCall_at)

lemma RevokeConfirmation_spec:
  assumes "ms_inv R h s"
  shows "RevokeConfirmation i a s =
    (case call_at s i of
       None \<Rightarrow> (Err MsErrWrongCallId, s)
     | Some c \<Rightarrow>
         if c_Approved c then (Err MsErrVoteAlreadyApproved, s)
         else if c_Rejected c then (Err MsErrVoteAlreadyRejected, s)
         else if a \<notin> set (votes_or_empty s i) then (Err MsErrVoteNotApproved, s)
         else if votes_or_empty s i = [a] then (Ok (), RemoveCallFromQueue i (c_Height c) (removeVotes i s))
         else (Ok (), setVotes i (remove1 a (votes_or_empty s i)) s))"
proof (cases "call_at s i")
  case (Some c)
  then have i: "c_ID c = i" using assms call_at_ID unfolding ms_inv_def by blast
  have "length vs = 1 \<longleftrightarrow> vs = [a]" if "a \<in> set vs" for vs
    using that by (cases vs) auto
  with Some i show ?thesis
    by (auto simp: RevokeConfirmation_def GetCall_at revokeVote_def CanBeVoted_def HasVote_at votes_or_empty_at Let_def
      remove_vote_eq split: option.splits)
qed (simp add: RevokeConfirmation_def GetCall_at)

definition new_call :: "ID \<Rightarrow> string \<Rightarrow> 'm MsMsg \<Rightarrow> int \<Rightarrow> bytes \<Rightarrow> 'm Call" where
  "new_call i u msg h a =
     \<lparr>c_ID = i, c_UniqueID = u, c_Creator = a, c_Approved = False, c_Executed = False, c_Failed = False,
      c_Rejected = False, c_Error = [], c_Msg = msg, c_MsgRoute = mm_Route msg, c_MsgType = mm_Type msg, c_Height = h\<rparr>"

lemma new_call_sel [simp]:
  "c_ID (new_call i u msg h a) = i" "c_UniqueID (new_call i u msg h a) = u" "c_Msg (new_call i u msg h a) = msg"
  "c_Height (new_call i u msg h a) = h" "\<not> c_Approved (new_call i u msg h a)" "\<not> c_Rejected (new_call i u msg h a)"
  "\<not> c_Executed (new_call i u msg h a)" "\<not> c_Failed (new_call i u msg h a)"
  by (simp_all add: new_call_def)

lemma NewCall_Ok:
  "NewCall i u (Some msg) h a = Ok c \<longleftrightarrow>
   mm_Route msg \<noteq> [] \<and> mm_Type msg \<noteq> [] \<and> u \<noteq> [] \<and> a \<noteq> [] \<and> c = new_call i u msg h a"
  by (auto simp: NewCall_def ID_Valid_def new_call_def)

definition submitted :: "('x, 'm) msRouter \<Rightarrow> int \<Rightarrow> 'm MsMsg \<Rightarrow> string \<Rightarrow> bytes \<Rightarrow> 'x ms_app \<Rightarrow> 'm ms_store \<Rightarrow> ID \<Rightarrow> bool" where
  "submitted R h msg u a app s i \<longleftrightarrow>
     i = next_id (ms_lastID s) \<and> i < 2 ^ 256 \<and> \<not> HasCallByUniqueID s u \<and> mm_Route msg \<noteq> [] \<and> mm_Type msg \<noteq> [] \<and>
     u \<noteq> [] \<and> a \<noteq> [] \<and> (\<exists>hdl. GetRoute R (mm_Route msg) = Some hdl \<and> fst (hdl msg app) = Ok ())"

lemma confirm_created:
  assumes "votes_at s i = None"
  shows "ConfirmCall i a (createCall (new_call i u msg h b) s) = (Ok (), setVotes i [a] (createCall (new_call i u msg h b) s))"
  using assms by (simp add: ConfirmCall_def GetCall_at createCall_at storeVote_def CanBeVoted_def HasVote_at)

lemma SubmitCall_Ok:
  assumes inv: "ms_inv R h s" and U: "uint_laws S" and r: "SubmitCall S R h msg u a app s = (Ok (), s')"
  shows "(\<exists>i c. call_at s i = Some c \<and> c_UniqueID c = u \<and> ConfirmCall i a s = (Ok (), s')) \<or>
    (\<exists>i. submitted R h msg u a app s i \<and> s' = setVotes i [a] (createCall (new_call i u msg h a) s))"
proof (cases "HasCallByUniqueID s u")
  case True
  then obtain i where i: "kv_get (GetUniqueIDKey u) (ms_unique s) = Some i"
    by (auto simp: HasCallByUniqueID_def kv_has_iff)
  moreover have "unique_inv s" using inv by (simp add: ms_inv_def)
  ultimately obtain c where "call_at s i = Some c" "c_UniqueID c = u"
    unfolding unique_inv_def by auto
  with True i r show ?thesis by (auto simp: SubmitCall_def GetCallIDByUniqueID_def)
next
  case False
  with r obtain i hdl where i: "nextCallID S s = Some i" and n: "NewCall i u (Some msg) h a = Ok (new_call i u msg h a)"
    and hdl: "GetRoute R (mm_Route msg) = Some hdl" "fst (hdl msg app) = Ok ()"
    and s': "ConfirmCall i a (createCall (new_call i u msg h a) s) = (Ok (), s')"
    by (auto simp: SubmitCall_def NewCall_Ok split: option.splits res.splits)
  have "i = next_id (ms_lastID s)" "i < 2 ^ 256"
    using i incr_id_SomeD [OF U] incr_id_bound [OF U] by (auto simp: nextCallID_def)
  moreover from this inv have "votes_at s i = None"
    using next_id_fresh votes_at_fresh unfolding ms_inv_def by metis
  ultimately show ?thesis
    using s' n hdl False confirm_created [of s i a] by (auto simp: submitted_def NewCall_Ok)
qed

lemma submitted_inv:
  assumes inv: "ms_inv R h s" and sub: "submitted R h msg u a app s i"
  shows "ms_inv R h (setVotes i [a] (createCall (new_call i u msg h a) s))"
proof -
  have h: "height_ok h" using inv by (simp add: ms_inv_def)
  have "call_ok R h (new_call i u msg h a)"
    using sub h by (auto simp: submitted_def call_ok_def new_call_def HasRoute_def GetRoute_def)
  with create_vote_inv [OF inv, of "new_call i u msg h a" a] sub show ?thesis
    by (simp add: submitted_def CanBeVoted_def)
qed

lemma votes_or_empty_distinct: "votes_inv s \<Longrightarrow> distinct (votes_or_empty s i)"
  by (auto simp: votes_or_empty_at votes_inv_def votes_at_def split: option.splits)

lemma ConfirmCall_inv:
  assumes inv: "ms_inv R h s" and r: "ConfirmCall i a s = (Ok (), s')"
  shows "ms_inv R h s'"
proof -
  have "distinct (votes_or_empty s i)" using inv votes_or_empty_distinct by (auto simp: ms_inv_def)
  with r show ?thesis
    unfolding ConfirmCall_spec [OF inv] by (auto split: option.splits if_splits intro!: setVotes_inv [OF inv])
qed

lemma RevokeConfirmation_inv:
  assumes inv: "ms_inv R h s" and r: "RevokeConfirmation i a s = (Ok (), s')"
  shows "ms_inv R h s'"
proof -
  have "distinct (votes_or_empty s i)" using inv votes_or_empty_distinct by (auto simp: ms_inv_def)
  moreover have "remove1 a vs \<noteq> []" if "a \<in> set vs" "vs \<noteq> [a]" for vs
    using that by (cases vs) (auto split: if_splits)
  ultimately show ?thesis
    using r unfolding RevokeConfirmation_spec [OF inv]
    by (auto split: option.splits if_splits intro!: setVotes_inv [OF inv] remove_last_vote_inv [OF inv])
qed

lemma Ms_NewHandler_inv:
  assumes inv: "ms_inv R h s" and U: "uint_laws S" and r: "Ms_NewHandler S R h msg app s = (Ok (), s')"
  shows "ms_inv R h s'"
proof (cases msg)
  case (MsgSubmitCall m u a)
  with r have "SubmitCall S R h m u a app s = (Ok (), s')" by (auto simp: handleMsgSubmitCall_def split: if_splits)
  from SubmitCall_Ok [OF inv U this] show ?thesis using ConfirmCall_inv [OF inv] submitted_inv [OF inv] by blast
next
  case (MsgConfirmCall i a)
  with r show ?thesis using ConfirmCall_inv [OF inv] by (auto simp: handleMsgConfirmCall_def split: if_splits)
next
  case (MsgRevokeConfirm i a)
  with r show ?thesis using RevokeConfirmation_inv [OF inv] by (simp add: handleMsgRevokeConfirm_def)
qed

end
