(* ===== verification/Ms_Spec.thy ===== *)
theory Ms_Spec
  imports Ms_Inv
begin

text \<open>
  The abstract specification of the multi-signature module and its refinement. Abstractly a call has a status and a set
  of voters, the calls are a finite map, and one step changes one call. The keeper with its four stores, its messages
  and its end-of-block loops implements that specification.
\<close>

section \<open>Specification\<close>

text \<open>
  A pending call waits in the queue; a dormant one has lost its last vote once and left the queue: it can be
  confirmed again but not executed.
\<close>

datatype call_status = Pending "bytes set" | Dormant "bytes set" | Executed | Failed string | Rejected

record 'm spec_call =
  sc_UniqueID :: string
  sc_Msg :: "'m MsMsg"
  sc_Status :: call_status

record ('x, 'm) spec_state =
  sp_calls :: "ID \<rightharpoonup> 'm spec_call"
  sp_app :: "'x ms_app"

definition status_of :: "('x, 'm) spec_state \<Rightarrow> ID \<Rightarrow> call_status option" where
  "status_of \<sigma> i = map_option sc_Status (sp_calls \<sigma> i)"

definition set_status :: "ID \<Rightarrow> call_status \<Rightarrow> (ID \<rightharpoonup> 'm spec_call) \<Rightarrow> (ID \<rightharpoonup> 'm spec_call)" where
  "set_status i st m = m(i := map_option (\<lambda>c. c\<lparr>sc_Status := st\<rparr>) (m i))"

abbreviation majority :: "('x, 'm) spec_state \<Rightarrow> bytes set \<Rightarrow> bool" where
  "majority \<sigma> V \<equiv> unat (GetEnoughConfirmations (ma_poa (sp_app \<sigma>))) \<le> card V"

inductive spec_step :: "('x, 'm) msRouter \<Rightarrow> ('x, 'm) spec_state \<Rightarrow> ('x, 'm) spec_state \<Rightarrow> bool"
  for R :: "('x, 'm) msRouter" where
  spec_submit:
    "\<lbrakk>HasValidator (ma_poa (sp_app \<sigma>)) a; sp_calls \<sigma> i = None; \<forall>c \<in> ran (sp_calls \<sigma>). sc_UniqueID c \<noteq> u;
      GetRoute R (mm_Route msg) = Some hdl; fst (hdl msg (sp_app \<sigma>)) = Ok ()\<rbrakk> \<Longrightarrow>
     spec_step R \<sigma> (\<sigma>\<lparr>sp_calls := (sp_calls \<sigma>)(i \<mapsto> \<lparr>sc_UniqueID = u, sc_Msg = msg, sc_Status = Pending {a}\<rparr>)\<rparr>)"
| spec_confirm:
    "\<lbrakk>HasValidator (ma_poa (sp_app \<sigma>)) a; status_of \<sigma> i = Some (Pending V); a \<notin> V\<rbrakk> \<Longrightarrow>
     spec_step R \<sigma> (\<sigma>\<lparr>sp_calls := set_status i (Pending (insert a V)) (sp_calls \<sigma>)\<rparr>)"
| spec_confirm_dormant:
    "\<lbrakk>HasValidator (ma_poa (sp_app \<sigma>)) a; status_of \<sigma> i = Some (Dormant V); a \<notin> V\<rbrakk> \<Longrightarrow>
     spec_step R \<sigma> (\<sigma>\<lparr>sp_calls := set_status i (Dormant (insert a V)) (sp_calls \<sigma>)\<rparr>)"
| spec_revoke:
    "\<lbrakk>status_of \<sigma> i = Some (Pending V); a \<in> V; V \<noteq> {a}\<rbrakk> \<Longrightarrow>
     spec_step R \<sigma> (\<sigma>\<lparr>sp_calls := set_status i (Pending (V - {a})) (sp_calls \<sigma>)\<rparr>)"
| spec_revoke_last:
    "status_of \<sigma> i = Some (Pending {a}) \<Longrightarrow>
     spec_step R \<sigma> (\<sigma>\<lparr>sp_calls := set_status i (Dormant {}) (sp_calls \<sigma>)\<rparr>)"
| spec_revoke_dormant:
    "\<lbrakk>status_of \<sigma> i = Some (Dormant V); a \<in> V\<rbrakk> \<Longrightarrow>
     spec_step R \<sigma> (\<sigma>\<lparr>sp_calls := set_status i (Dormant (V - {a})) (sp_calls \<sigma>)\<rparr>)"
| spec_execute:
    "\<lbrakk>sp_calls \<sigma> i = Some c; sc_Status c = Pending V; majority \<sigma> V; GetRoute R (mm_Route (sc_Msg c)) = Some hdl;
      hdl (sc_Msg c) (sp_app \<sigma>) = (Ok (), app')\<rbrakk> \<Longrightarrow>
     spec_step R \<sigma> \<lparr>sp_calls = set_status i Executed (sp_calls \<sigma>), sp_app = app'\<rparr>"
| spec_fail:
    "\<lbrakk>sp_calls \<sigma> i = Some c; sc_Status c = Pending V; majority \<sigma> V; GetRoute R (mm_Route (sc_Msg c)) = Some hdl;
      fst (hdl (sc_Msg c) (sp_app \<sigma>)) = Err e\<rbrakk> \<Longrightarrow>
     spec_step R \<sigma> (\<sigma>\<lparr>sp_calls := set_status i (Failed e) (sp_calls \<sigma>)\<rparr>)"
| spec_reject:
    "status_of \<sigma> i = Some (Pending V) \<Longrightarrow> spec_step R \<sigma> (\<sigma>\<lparr>sp_calls := set_status i Rejected (sp_calls \<sigma>)\<rparr>)"
| spec_other: "spec_step R \<sigma> (\<sigma>\<lparr>sp_app := app'\<rparr>)"

text \<open>The last clause is a step of the other modules.\<close>

inductive_cases spec_stepE: "spec_step R \<sigma> \<sigma>'"

lemma status_set_status:
  "status_of (\<sigma>\<lparr>sp_calls := set_status i st (sp_calls \<sigma>)\<rparr>) j = (if j = i then map_option (\<lambda>_. st) (status_of \<sigma> i) else status_of \<sigma> j)"
  "status_of \<lparr>sp_calls = set_status i st m, sp_app = app\<rparr> j =
     (if j = i then map_option (\<lambda>_. st) (map_option sc_Status (m i)) else map_option sc_Status (m j))"
  by (auto simp: status_of_def set_status_def option.map_comp comp_def)

section \<open>Facts of the specification\<close>

fun final_status :: "call_status \<Rightarrow> bool" where
  "final_status (Pending V) = False"
| "final_status (Dormant V) = False"
| "final_status _ = True"

fun is_dormant :: "call_status \<Rightarrow> bool" where
  "is_dormant (Dormant V) = True"
| "is_dormant _ = False"

text \<open>A final status never changes, a dormant call stays dormant, and the message of a call never changes.\<close>

lemma spec_step_status:
  assumes "spec_step R \<sigma> \<sigma>'" and "status_of \<sigma> i = Some st"
  shows "\<exists>st'. status_of \<sigma>' i = Some st' \<and> (final_status st \<longrightarrow> st' = st) \<and> (is_dormant st \<longrightarrow> is_dormant st')"
  using assms by cases (auto simp: set_status_def status_of_def)

lemma spec_steps_status:
  assumes "(spec_step R)\<^sup>*\<^sup>* \<sigma> \<sigma>'" and "status_of \<sigma> i = Some st"
  shows "\<exists>st'. status_of \<sigma>' i = Some st' \<and> (final_status st \<longrightarrow> st' = st) \<and> (is_dormant st \<longrightarrow> is_dormant st')"
  using assms
proof (induction rule: rtranclp_induct)
  case (step \<sigma>' \<sigma>'')
  then show ?case using spec_step_status by metis
qed simp

lemma spec_step_msg:
  assumes "spec_step R \<sigma> \<sigma>'" and "sp_calls \<sigma> i = Some c"
  shows "\<exists>c'. sp_calls \<sigma>' i = Some c' \<and> sc_Msg c' = sc_Msg c \<and> sc_UniqueID c' = sc_UniqueID c"
  using assms by cases (auto simp: set_status_def)

lemma spec_steps_msg:
  assumes "(spec_step R)\<^sup>*\<^sup>* \<sigma> \<sigma>'" and "sp_calls \<sigma> i = Some c"
  shows "\<exists>c'. sp_calls \<sigma>' i = Some c' \<and> sc_Msg c' = sc_Msg c \<and> sc_UniqueID c' = sc_UniqueID c"
  using assms
proof (induction rule: rtranclp_induct)
  case (step \<sigma>' \<sigma>'')
  then show ?case using spec_step_msg by metis
qed simp

text \<open>A call becomes executed by the one step that runs its handler on a majority.\<close>

definition executes_at :: "('x, 'm) msRouter \<Rightarrow> ID \<Rightarrow> ('x, 'm) spec_state \<Rightarrow> ('x, 'm) spec_state \<Rightarrow> bool" where
  "executes_at R i \<sigma> \<sigma>' \<longleftrightarrow> spec_step R \<sigma> \<sigma>' \<and>
     (\<exists>c V hdl. sp_calls \<sigma> i = Some c \<and> sc_Status c = Pending V \<and> majority \<sigma> V \<and>
        GetRoute R (mm_Route (sc_Msg c)) = Some hdl \<and> hdl (sc_Msg c) (sp_app \<sigma>) = (Ok (), sp_app \<sigma>') \<and>
        status_of \<sigma>' i = Some Executed)"

lemma spec_step_executed:
  assumes "spec_step R \<sigma> \<sigma>'" and "status_of \<sigma>' i = Some Executed" and "status_of \<sigma> i \<noteq> Some Executed"
  shows "executes_at R i \<sigma> \<sigma>'"
  using assms
proof cases
  case (spec_execute j c V hdl app')
  with assms have "j = i" by (auto simp: set_status_def status_of_def split: if_splits)
  with spec_execute assms(1,2) show ?thesis by (auto simp: executes_at_def)
qed (auto simp: set_status_def status_of_def split: if_splits)

lemma spec_executed_once:
  assumes "(spec_step R)\<^sup>*\<^sup>* \<sigma>0 \<sigma>" and "status_of \<sigma> i = Some Executed" and "status_of \<sigma>0 i \<noteq> Some Executed"
  shows "\<exists>\<sigma>1 \<sigma>2. (spec_step R)\<^sup>*\<^sup>* \<sigma>0 \<sigma>1 \<and> executes_at R i \<sigma>1 \<sigma>2 \<and> (spec_step R)\<^sup>*\<^sup>* \<sigma>2 \<sigma>"
  using assms
proof (induction rule: rtranclp_induct)
  case (step \<sigma>' \<sigma>'')
  show ?case
  proof (cases "status_of \<sigma>' i = Some Executed")
    case True
    with step obtain \<sigma>1 \<sigma>2 where "(spec_step R)\<^sup>*\<^sup>* \<sigma>0 \<sigma>1" "executes_at R i \<sigma>1 \<sigma>2" "(spec_step R)\<^sup>*\<^sup>* \<sigma>2 \<sigma>'" by blast
    with step.hyps(2) show ?thesis by (meson rtranclp.rtrancl_into_rtrancl)
  next
    case False
    with step spec_step_executed [OF step.hyps(2)] show ?thesis by blast
  qed
qed simp

section \<open>Abstraction\<close>

definition call_status_of :: "'m ms_store \<Rightarrow> 'm Call \<Rightarrow> call_status" where
  "call_status_of s c =
     (if c_Executed c then Executed
      else if c_Failed c then Failed (c_Error c)
      else if c_Rejected c then Rejected
      else let V = set (votes_or_empty s (c_ID c)) in
        if queued_at s (c_ID c) (c_Height c) then Pending V else Dormant V)"

definition abs_call :: "'m ms_store \<Rightarrow> 'm Call \<Rightarrow> 'm spec_call" where
  "abs_call s c = \<lparr>sc_UniqueID = c_UniqueID c, sc_Msg = c_Msg c, sc_Status = call_status_of s c\<rparr>"

definition abs_calls :: "'m ms_store \<Rightarrow> ID \<rightharpoonup> 'm spec_call" where
  "abs_calls s i = map_option (abs_call s) (call_at s i)"

definition abs_world :: "('x, 'm) ms_world \<Rightarrow> ('x, 'm) spec_state" where
  "abs_world w = \<lparr>sp_calls = abs_calls (mw_store w), sp_app = mw_app w\<rparr>"

lemma abs_world_sel [simp]:
  "sp_calls (abs_world w) = abs_calls (mw_store w)" "sp_app (abs_world w) = mw_app w"
  by (simp_all add: abs_world_def)

lemma abs_calls_upd:
  assumes "\<And>j. j \<noteq> i \<Longrightarrow> abs_calls s' j = abs_calls s j" and "abs_calls s i = Some c" and "abs_calls s' i = Some (c\<lparr>sc_Status := st\<rparr>)"
  shows "abs_calls s' = set_status i st (abs_calls s)"
  using assms by (auto simp: set_status_def)

lemma ms_inv_calls: "ms_inv R h s \<Longrightarrow> calls_inv R h s"
  by (simp add: ms_inv_def)

lemma abs_calls_cong:
  assumes "ms_inv R h s" and "call_at s' j = call_at s j" and "votes_at s' j = votes_at s j"
    and "\<And>c. call_at s j = Some c \<Longrightarrow> queued_at s' j (c_Height c) = queued_at s j (c_Height c)"
  shows "abs_calls s' j = abs_calls s j"
proof (cases "call_at s j")
  case (Some c)
  then have "c_ID c = j" using assms(1) call_at_ID ms_inv_calls by blast
  with Some assms show ?thesis
    by (simp add: abs_calls_def abs_call_def call_status_of_def votes_or_empty_at)
qed (simp add: abs_calls_def assms)

lemma queue_key_other:
  assumes "ms_inv R h s" and "call_at s i = Some c" and "call_at s j = Some d" and "j \<noteq> i"
  shows "GetQueueKey j (c_Height d) \<noteq> GetQueueKey i (c_Height c)"
  using ms_inv_height [OF assms(1,2)] ms_inv_height [OF assms(1,3)] assms(4) by (simp add: GetQueueKey_inject)

lemma open_status:
  assumes "ms_inv R h s" and "call_at s i = Some c" and "\<not> c_Approved c" and "\<not> c_Rejected c"
  shows "call_status_of s c =
    (let V = set (votes_or_empty s i) in if queued_at s i (c_Height c) then Pending V else Dormant V)"
proof -
  have "c_ID c = i" and "call_ok R h c"
    using assms(1,2) call_at_ID unfolding ms_inv_def calls_inv_def by (blast dest: call_at_ID ms_inv_calls)+
  with assms show ?thesis by (auto simp: call_status_of_def call_ok_def)
qed

lemma abs_setVotes:
  assumes inv: "ms_inv R h s" and c: "call_at s i = Some c" and o: "\<not> c_Approved c" "\<not> c_Rejected c" and vs: "vs \<noteq> []" "distinct vs"
  shows "abs_calls (setVotes i vs s) =
    set_status i (if queued_at s i (c_Height c) then Pending (set vs) else Dormant (set vs)) (abs_calls s)"
proof (rule abs_calls_upd)
  show "abs_calls s i = Some (abs_call s c)" by (simp add: abs_calls_def c)
  have "ms_inv R h (setVotes i vs s)" using setVotes_inv [OF inv _ vs] c by simp
  from open_status [OF this _ o] c have "call_status_of (setVotes i vs s) c =
      (if queued_at s i (c_Height c) then Pending (set vs) else Dormant (set vs))"
    by (simp add: votes_or_empty_at)
  then show "abs_calls (setVotes i vs s) i =
      Some ((abs_call s c)\<lparr>sc_Status := if queued_at s i (c_Height c) then Pending (set vs) else Dormant (set vs)\<rparr>)"
    by (simp add: abs_calls_def abs_call_def c)
  show "abs_calls (setVotes i vs s) j = abs_calls s j" if "j \<noteq> i" for j
    using that by (intro abs_calls_cong [OF inv]) simp_all
qed

lemma abs_remove_last:
  assumes inv: "ms_inv R h s" and c: "call_at s i = Some c" and o: "\<not> c_Approved c" "\<not> c_Rejected c"
  shows "abs_calls (RemoveCallFromQueue i (c_Height c) (removeVotes i s)) = set_status i (Dormant {}) (abs_calls s)"
proof (rule abs_calls_upd)
  let ?s = "RemoveCallFromQueue i (c_Height c) (removeVotes i s)"
  show "abs_calls s i = Some (abs_call s c)" by (simp add: abs_calls_def c)
  from open_status [OF remove_last_vote_inv [OF inv c] _ o] c have "call_status_of ?s c = Dormant {}"
    by (simp add: votes_or_empty_at)
  then show "abs_calls ?s i = Some ((abs_call s c)\<lparr>sc_Status := Dormant {}\<rparr>)"
    by (simp add: abs_calls_def abs_call_def c)
  show "abs_calls ?s j = abs_calls s j" if "j \<noteq> i" for j
    using that queue_key_other [OF inv c] by (intro abs_calls_cong [OF inv]) simp_all
qed

lemma abs_close:
  assumes inv: "ms_inv R h s" and c: "call_at s i = Some c"
    and c': "c_ID c' = i" "c_UniqueID c' = c_UniqueID c" "c_Msg c' = c_Msg c"
    and st: "\<And>t. call_status_of t c' = st"
  shows "abs_calls (RemoveCallFromQueue i (c_Height c) (StoreCall c' s)) = set_status i st (abs_calls s)"
proof (rule abs_calls_upd)
  let ?s = "RemoveCallFromQueue i (c_Height c) (StoreCall c' s)"
  show "abs_calls s i = Some (abs_call s c)" by (simp add: abs_calls_def c)
  show "abs_calls ?s i = Some ((abs_call s c)\<lparr>sc_Status := st\<rparr>)"
    using c' st by (simp add: abs_calls_def abs_call_def)
  show "abs_calls ?s j = abs_calls s j" if "j \<noteq> i" for j
    using that c' queue_key_other [OF inv c] by (intro abs_calls_cong [OF inv]) simp_all
qed

lemma abs_submitted:
  assumes inv: "ms_inv R h s" and sub: "submitted R h msg u a app s i"
  shows "abs_calls (setVotes i [a] (createCall (new_call i u msg h a) s)) =
    (abs_calls s)(i \<mapsto> \<lparr>sc_UniqueID = u, sc_Msg = msg, sc_Status = Pending {a}\<rparr>)" (is "abs_calls ?s = _")
proof (rule ext)
  fix j
  have h: "height_ok h" using inv by (simp add: ms_inv_def)
  show "abs_calls ?s j = ((abs_calls s)(i \<mapsto> \<lparr>sc_UniqueID = u, sc_Msg = msg, sc_Status = Pending {a}\<rparr>)) j"
  proof (cases "j = i")
    case True
    have "call_at ?s i = Some (new_call i u msg h a)" by (simp add: createCall_at)
    with open_status [OF submitted_inv [OF inv sub] this] True show ?thesis
      by (simp add: abs_calls_def abs_call_def votes_or_empty_at createCall_at)
  next
    case False
    have "queued_at ?s j (c_Height d) = queued_at s j (c_Height d)" if "call_at s j = Some d" for d
      using False ms_inv_height [OF inv that] h by (simp add: createCall_at GetQueueKey_inject)
    moreover have "call_at ?s j = call_at s j" "votes_at ?s j = votes_at s j" using False by (simp_all add: createCall_at)
    ultimately have "abs_calls ?s j = abs_calls s j" by (intro abs_calls_cong [OF inv])
    with False show ?thesis by simp
  qed
qed

lemma remove1_Nil_singleton: "\<lbrakk>remove1 a vs = []; a \<in> set vs\<rbrakk> \<Longrightarrow> vs = [a]"
  by (cases vs) (auto split: if_splits)

lemma distinct_set_singleton: "\<lbrakk>distinct vs; set vs = {a}\<rbrakk> \<Longrightarrow> vs = [a]"
  by (cases vs; cases "tl vs") auto

section \<open>Simulation of the messages\<close>

lemma abs_status: "call_at (mw_store w) i = Some c \<Longrightarrow> status_of (abs_world w) i = Some (call_status_of (mw_store w) c)"
  by (simp add: status_of_def abs_calls_def abs_call_def)

lemma ConfirmCall_simulates:
  assumes inv: "ms_inv R h (mw_store w)" and v: "HasValidator (ma_poa (mw_app w)) a"
    and r: "ConfirmCall i a (mw_store w) = (Ok (), s')"
  shows "spec_step R (abs_world w) (abs_world (w\<lparr>mw_store := s'\<rparr>))"
proof -
  let ?s = "mw_store w" and ?vs = "votes_or_empty (mw_store w) i"
  from r obtain c where c: "call_at ?s i = Some c" "\<not> c_Approved c" "\<not> c_Rejected c" and a: "a \<notin> set ?vs"
    and s': "s' = setVotes i (?vs @ [a]) ?s"
    unfolding ConfirmCall_spec [OF inv] by (auto split: option.splits if_splits)
  have "distinct (?vs @ [a])" using a inv votes_or_empty_distinct by (auto simp: ms_inv_def)
  with abs_setVotes [OF inv c] have e: "abs_calls s' = set_status i
      (if queued_at ?s i (c_Height c) then Pending (insert a (set ?vs)) else Dormant (insert a (set ?vs))) (abs_calls ?s)"
    by (simp add: s')
  have st: "status_of (abs_world w) i = Some (if queued_at ?s i (c_Height c) then Pending (set ?vs) else Dormant (set ?vs))"
    using abs_status [OF c(1)] open_status [OF inv c] by (simp add: Let_def)
  have w': "abs_world (w\<lparr>mw_store := s'\<rparr>) = (abs_world w)\<lparr>sp_calls := abs_calls s'\<rparr>" by (simp add: abs_world_def)
  show ?thesis
    using spec_confirm [of "abs_world w" a i "set ?vs" R] spec_confirm_dormant [of "abs_world w" a i "set ?vs" R] st v a
    unfolding w' e by (simp split: if_splits)
qed

lemma RevokeConfirmation_simulates:
  assumes inv: "ms_inv R h (mw_store w)" and r: "RevokeConfirmation i a (mw_store w) = (Ok (), s')"
  shows "spec_step R (abs_world w) (abs_world (w\<lparr>mw_store := s'\<rparr>))"
proof -
  let ?s = "mw_store w" and ?vs = "votes_or_empty (mw_store w) i"
  from r obtain c where c: "call_at ?s i = Some c" "\<not> c_Approved c" "\<not> c_Rejected c" and a: "a \<in> set ?vs"
    and s': "s' = (if ?vs = [a] then RemoveCallFromQueue i (c_Height c) (removeVotes i ?s) else setVotes i (remove1 a ?vs) ?s)"
    unfolding RevokeConfirmation_spec [OF inv] by (auto split: option.splits if_splits)
  have d: "distinct ?vs" using inv votes_or_empty_distinct by (auto simp: ms_inv_def)
  have st: "status_of (abs_world w) i = Some (if queued_at ?s i (c_Height c) then Pending (set ?vs) else Dormant (set ?vs))"
    using abs_status [OF c(1)] open_status [OF inv c] by (simp add: Let_def)
  have w': "abs_world (w\<lparr>mw_store := s'\<rparr>) = (abs_world w)\<lparr>sp_calls := abs_calls s'\<rparr>" by (simp add: abs_world_def)
  show ?thesis
  proof (cases "?vs = [a]")
    case True
    then have "abs_calls s' = set_status i (Dormant {}) (abs_calls ?s)" using abs_remove_last [OF inv c] by (simp add: s')
    with True st show ?thesis
      using spec_revoke_last [of "abs_world w" i a R] spec_revoke_dormant [of "abs_world w" i "{a}" a R]
      unfolding w' by (simp split: if_splits)
  next
    case False
    have n: "remove1 a ?vs \<noteq> []" "set ?vs \<noteq> {a}" using a d False by (blast dest: remove1_Nil_singleton distinct_set_singleton)+
    have "abs_calls s' = set_status i
        (if queued_at ?s i (c_Height c) then Pending (set ?vs - {a}) else Dormant (set ?vs - {a})) (abs_calls ?s)"
      using abs_setVotes [OF inv c n(1)] d False by (simp add: s')
    with n(2) a st show ?thesis
      using spec_revoke [of "abs_world w" i "set ?vs" a R] spec_revoke_dormant [of "abs_world w" i "set ?vs" a R]
      unfolding w' by (simp split: if_splits)
  qed
qed

lemma submitted_simulates:
  assumes inv: "ms_inv R h (mw_store w)" and v: "HasValidator (ma_poa (mw_app w)) a"
    and sub: "submitted R h msg u a (mw_app w) (mw_store w) i"
  shows "spec_step R (abs_world w) (abs_world (w\<lparr>mw_store := setVotes i [a] (createCall (new_call i u msg h a) (mw_store w))\<rparr>))"
proof -
  let ?s = "mw_store w"
  obtain hdl where hdl: "GetRoute R (mm_Route msg) = Some hdl" "fst (hdl msg (mw_app w)) = Ok ()"
    using sub by (auto simp: submitted_def)
  have "call_at ?s i = None" using sub next_id_fresh [OF ms_inv_calls [OF inv]] by (simp add: submitted_def)
  moreover have "\<forall>c \<in> ran (abs_calls ?s). sc_UniqueID c \<noteq> u"
  proof -
    have "unique_inv ?s" "\<not> HasCallByUniqueID ?s u" using inv sub by (simp_all add: ms_inv_def submitted_def)
    then show ?thesis using unique_fresh by (fastforce simp: ran_def abs_calls_def abs_call_def)
  qed
  ultimately have "spec_step R (abs_world w)
      ((abs_world w)\<lparr>sp_calls := (sp_calls (abs_world w))(i \<mapsto> \<lparr>sc_UniqueID = u, sc_Msg = msg, sc_Status = Pending {a}\<rparr>)\<rparr>)"
    using v hdl by (intro spec_submit) (auto simp: abs_calls_def)
  then show ?thesis unfolding abs_world_def using abs_submitted [OF inv sub] by simp
qed

lemma Ms_NewHandler_simulates:
  assumes inv: "ms_inv R h (mw_store w)" and U: "uint_laws S" and r: "Ms_NewHandler S R h msg (mw_app w) (mw_store w) = (Ok (), s')"
  shows "spec_step R (abs_world w) (abs_world (w\<lparr>mw_store := s'\<rparr>))"
proof (cases msg)
  case (MsgSubmitCall m u a)
  with r have v: "HasValidator (ma_poa (mw_app w)) a" and s: "SubmitCall S R h m u a (mw_app w) (mw_store w) = (Ok (), s')"
    by (auto simp: handleMsgSubmitCall_def split: if_splits)
  from SubmitCall_Ok [OF inv U s] show ?thesis
    using ConfirmCall_simulates [OF inv v] submitted_simulates [OF inv v] by blast
next
  case (MsgConfirmCall i a)
  with r show ?thesis using ConfirmCall_simulates [OF inv] by (auto simp: handleMsgConfirmCall_def split: if_splits)
next
  case (MsgRevokeConfirm i a)
  with r show ?thesis using RevokeConfirmation_simulates [OF inv] by (simp add: handleMsgRevokeConfirm_def)
qed

end
