(* ===== verification/Ms_EndBlock.thy ===== *)
theory Ms_EndBlock
  imports Ms_Spec
begin

text \<open>
  The end of a block of the multi-signature module: the loops over the queue are sequences of steps of the
  specification, keep the invariant, and neither of them panics as long as the handlers do not.
\<close>

section \<open>Calls in the queue\<close>

definition waiting :: "'m ms_store \<Rightarrow> ID \<Rightarrow> bool" where
  "waiting s i \<longleftrightarrow> (\<exists>c. call_at s i = Some c \<and> queued_at s i (c_Height c))"

lemma waiting_call:
  assumes "ms_inv R h s" and "waiting s i"
  obtains c where "call_at s i = Some c" "c_ID c = i" "\<not> c_Approved c" "\<not> c_Rejected c" "call_ok R h c"
    "queued_at s i (c_Height c)" "call_status_of s c = Pending (set (votes_or_empty s i))"
proof -
  from assms(2) obtain c where c: "call_at s i = Some c" "queued_at s i (c_Height c)" by (auto simp: waiting_def)
  have "\<not> c_Approved c" "\<not> c_Rejected c" using queue_entry [OF assms(1) c(2,1)] by (auto simp: CanBeVoted_iff)
  moreover have "c_ID c = i" "call_ok R h c"
    using assms(1) c(1) call_at_ID unfolding ms_inv_def calls_inv_def by (blast dest: call_at_ID [OF ms_inv_calls [OF assms(1)]])+
  ultimately show ?thesis using that c open_status [OF assms(1) c(1)] by (simp add: Let_def)
qed

lemma distinct_snd:
  assumes "distinct (map fst xs)" and "\<forall>p \<in> set xs. fst p = f (snd p)"
  shows "distinct (map snd xs)"
proof -
  have "map fst xs = map f (map snd xs)" using assms(2) by (induction xs) auto
  with assms(1) show ?thesis by (metis distinct_map)
qed

text \<open>An iterator over the queue visits each waiting call in its window once.\<close>

lemma queue_key_of:
  assumes "ms_inv R h s" and "p \<in> set (ms_queue s)"
  obtains c where "call_at s (snd p) = Some c" "fst p = GetQueueKey (snd p) (c_Height c)" "waiting s (snd p)"
proof -
  have wf: "kv_wf (ms_queue s)" using assms(1) by (simp add: ms_inv_def queue_inv_def)
  have g: "kv_get (fst p) (ms_queue s) = Some (snd p)" using assms(2) by (simp add: kv_get_iff [OF wf])
  then obtain c where "call_at s (snd p) = Some c" "fst p = GetQueueKey (snd p) (c_Height c)"
    using assms(1) unfolding ms_inv_def queue_inv_def by meson
  with g that show ?thesis by (simp add: waiting_def queued_at_def kv_has_iff)
qed

lemma queue_window:
  assumes inv: "ms_inv R h s"
  shows "distinct (kv_vals (filter P (ms_queue s)))"
    and "set (kv_vals (filter P (ms_queue s))) =
      {i. waiting s i \<and> (\<forall>c. call_at s i = Some c \<longrightarrow> P (GetQueueKey i (c_Height c), i))}"
proof -
  have wf: "kv_wf (ms_queue s)" using inv by (simp add: ms_inv_def queue_inv_def)
  let ?f = "\<lambda>i. GetQueueKey i (c_Height (the (call_at s i)))"
  have "fst p = ?f (snd p)" if "p \<in> set (ms_queue s)" for p
    by (rule queue_key_of [OF inv that]) simp
  then show "distinct (kv_vals (filter P (ms_queue s)))"
    unfolding kv_vals_def using kv_wf_distinct [OF wf] by (intro distinct_snd [where f = ?f]) (auto simp: distinct_map_filter)
  show "set (kv_vals (filter P (ms_queue s))) =
      {i. waiting s i \<and> (\<forall>c. call_at s i = Some c \<longrightarrow> P (GetQueueKey i (c_Height c), i))}" (is "?A = ?B")
  proof (intro equalityI subsetI)
    fix i assume "i \<in> ?A"
    then obtain p where p: "p \<in> set (ms_queue s)" "P p" "i = snd p" by (auto simp: kv_vals_def)
    obtain c where "call_at s i = Some c" "fst p = GetQueueKey i (c_Height c)" "waiting s i"
      unfolding p(3) by (rule queue_key_of [OF inv p(1)])
    moreover from this p have "P (GetQueueKey i (c_Height c), i)" by (metis prod.collapse)
    ultimately show "i \<in> ?B" by simp
  next
    fix i assume i: "i \<in> ?B"
    then obtain c where c: "call_at s i = Some c" "queued_at s i (c_Height c)" by (auto simp: waiting_def)
    then have "(GetQueueKey i (c_Height c), i) \<in> set (ms_queue s)"
      using queue_entry [OF inv c(2,1)] by (simp add: kv_get_iff [OF wf])
    with i c(1) show "i \<in> ?A" by (force simp: kv_vals_def)
  qed
qed

lemma active_window:
  assumes "ms_inv R h s" and "height_ok lo" and "height_ok hi"
  shows "set (kv_vals (GetQueueIteratorStartEnd s lo hi)) =
    {i. waiting s i \<and> (\<forall>c. call_at s i = Some c \<longrightarrow> lo \<le> c_Height c \<and> c_Height c \<le> hi)}"
  unfolding GetQueueIteratorStartEnd_def kv_till_def queue_window(2) [OF assms(1)]
  using ms_inv_height [OF assms(1)] kv_till_window [OF _ assms(2,3)] by auto

lemma till_window:
  assumes "ms_inv R h s" and "height_ok hi"
  shows "set (kv_vals (GetQueueIteratorTill s hi)) =
    {i. waiting s i \<and> (\<forall>c. call_at s i = Some c \<longrightarrow> c_Height c \<le> hi)}"
  unfolding GetQueueIteratorTill_def kv_till_def queue_window(2) [OF assms(1)]
  using ms_inv_height [OF assms(1)] queue_key_ge queue_key_prefix [OF _ assms(2)] queue_key_ge_prefix [OF _ assms(2)]
  by (auto simp: not_less [symmetric])

lemma active_ids:
  assumes "ms_inv R h s" and "height_ok lo" and "height_ok hi"
  shows "\<forall>i \<in> set (kv_vals (GetQueueIteratorStartEnd s lo hi)). waiting s i"
    and "distinct (kv_vals (GetQueueIteratorStartEnd s lo hi))"
proof -
  show "\<forall>i \<in> set (kv_vals (GetQueueIteratorStartEnd s lo hi)). waiting s i"
    unfolding active_window [OF assms] by blast
  show "distinct (kv_vals (GetQueueIteratorStartEnd s lo hi))"
    unfolding GetQueueIteratorStartEnd_def kv_till_def by (rule queue_window(1) [OF assms(1)])
qed

lemma till_ids:
  assumes "ms_inv R h s" and "height_ok hi"
  shows "\<forall>i \<in> set (kv_vals (GetQueueIteratorTill s hi)). waiting s i"
    and "distinct (kv_vals (GetQueueIteratorTill s hi))"
proof -
  show "\<forall>i \<in> set (kv_vals (GetQueueIteratorTill s hi)). waiting s i"
    unfolding till_window [OF assms] by blast
  show "distinct (kv_vals (GetQueueIteratorTill s hi))"
    unfolding GetQueueIteratorTill_def kv_till_def by (rule queue_window(1) [OF assms(1)])
qed

section \<open>Closing a call\<close>

lemma close_frame:
  assumes inv: "ms_inv R h s" and c: "call_at s i = Some c" and c': "c_ID c' = i" and j: "j \<noteq> i"
  shows "call_at (RemoveCallFromQueue i (c_Height c) (StoreCall c' s)) j = call_at s j"
    and "votes_at (RemoveCallFromQueue i (c_Height c) (StoreCall c' s)) j = votes_at s j"
    and "waiting (RemoveCallFromQueue i (c_Height c) (StoreCall c' s)) j \<longleftrightarrow> waiting s j"
  using c' j queue_key_other [OF inv c] by (auto simp: waiting_def)

lemma process_active_spec:
  assumes inv: "ms_inv R h (mw_store w)" and wt: "waiting (mw_store w) i" and c: "call_at (mw_store w) i = Some c"
  shows "process_active R i w =
    (if GetEnoughConfirmations (ma_poa (mw_app w)) \<le> of_nat (length (votes_or_empty (mw_store w) i))
     then execute_call R i c w else (Ok (), w))"
proof -
  have "GetConfirmationsCount (mw_store w) i = Ok (length (votes_or_empty (mw_store w) i))"
    using c by (auto simp: GetConfirmationsCount_def GetVotes_def HasCall_at votes_or_empty_at votes_at_def split: option.splits)
  then show ?thesis using c by (simp add: process_active_def GetCall_at)
qed

lemma execute_call_cases:
  fixes w :: "('x, 'm) ms_world"
  assumes "call_ok R h c"
  obtains (Executed) hdl app' where "GetRoute R (mm_Route (c_Msg c)) = Some hdl" "hdl (c_Msg c) (mw_app w) = (Ok (), app')"
      "execute_call R i c w = (Ok (), w\<lparr>mw_app := app', mw_store := RemoveCallFromQueue i (c_Height c)
         (StoreCall (c\<lparr>c_Approved := True, c_Executed := True\<rparr>) (mw_store w))\<rparr>)"
    | (Failed) hdl e where "GetRoute R (mm_Route (c_Msg c)) = Some hdl" "fst (hdl (c_Msg c) (mw_app w)) = Err e"
      "execute_call R i c w = (Ok (), w\<lparr>mw_store := RemoveCallFromQueue i (c_Height c)
         (StoreCall (c\<lparr>c_Approved := True, c_Failed := True, c_Error := e\<rparr>) (mw_store w))\<rparr>)"
    | (Panics) hdl where "GetRoute R (mm_Route (c_Msg c)) = Some hdl" "fst (hdl (c_Msg c) (mw_app w)) = Panic"
      "execute_call R i c w = (Panic, w)"
proof -
  from assms obtain hdl where hdl: "GetRoute R (mm_Route (c_Msg c)) = Some hdl"
    by (auto simp: call_ok_def HasRoute_def GetRoute_def)
  obtain res app' where r: "hdl (c_Msg c) (mw_app w) = (res, app')" by (cases "hdl (c_Msg c) (mw_app w)")
  show ?thesis
  proof (cases res)
    case (Ok u)
    with hdl r show ?thesis by (intro Executed [of hdl app']) (simp_all add: execute_call_def)
  next
    case (Err e)
    with hdl r show ?thesis by (intro Failed [of hdl e]) (simp_all add: execute_call_def)
  next
    case Panic
    with hdl r show ?thesis by (intro Panics [of hdl]) (simp_all add: execute_call_def)
  qed
qed

text \<open>The number of confirmations is cut to 16 bits; the comparison still implies a majority of distinct voters.\<close>

lemma enough_card:
  assumes "GetEnoughConfirmations p \<le> of_nat (length vs)" and "distinct vs"
  shows "unat (GetEnoughConfirmations p) \<le> card (set vs)"
proof -
  have "unat (GetEnoughConfirmations p) \<le> unat (of_nat (length vs) :: 16 word)" using assms(1) by (simp add: word_le_nat_alt)
  also have "\<dots> \<le> length vs" by (simp add: unat_of_nat)
  finally show ?thesis using assms(2) by (simp add: distinct_card)
qed

lemma process_active_simulates:
  assumes inv: "ms_inv R h (mw_store w)" and wt: "waiting (mw_store w) i" and r: "process_active R i w = (Ok (), w')"
  shows "ms_inv R h (mw_store w') \<and> ms_interval (mw_store w') = ms_interval (mw_store w) \<and>
    (spec_step R)\<^sup>*\<^sup>* (abs_world w) (abs_world w') \<and>
    (\<forall>j. j \<noteq> i \<longrightarrow> call_at (mw_store w') j = call_at (mw_store w) j \<and> votes_at (mw_store w') j = votes_at (mw_store w) j \<and>
       (waiting (mw_store w') j \<longleftrightarrow> waiting (mw_store w) j))"
proof (cases "GetEnoughConfirmations (ma_poa (mw_app w)) \<le> of_nat (length (votes_or_empty (mw_store w) i))")
  case True
  let ?s = "mw_store w"
  obtain c where c: "call_at ?s i = Some c" "c_ID c = i" "\<not> c_Approved c" "\<not> c_Rejected c" "call_ok R h c"
    "call_status_of ?s c = Pending (set (votes_or_empty ?s i))" by (rule waiting_call [OF inv wt])
  have ex: "execute_call R i c w = (Ok (), w')" using process_active_spec [OF inv wt c(1)] True r by simp
  have maj: "majority (abs_world w) (set (votes_or_empty ?s i))"
    using enough_card [OF True] votes_or_empty_distinct inv by (auto simp: ms_inv_def)
  have a: "sp_calls (abs_world w) i = Some (abs_call ?s c)" "sc_Status (abs_call ?s c) = Pending (set (votes_or_empty ?s i))"
    "sc_Msg (abs_call ?s c) = c_Msg c"
    using c by (simp_all add: abs_calls_def abs_call_def)
  from c(5) show ?thesis
  proof (cases rule: execute_call_cases [where w = w and i = i])
    case (Executed hdl app')
    let ?c = "c\<lparr>c_Approved := True, c_Executed := True\<rparr>"
    have w': "w' = w\<lparr>mw_app := app', mw_store := RemoveCallFromQueue i (c_Height c) (StoreCall ?c ?s)\<rparr>"
      using ex Executed(3) by simp
    have ok: "call_ok R h ?c" using c by (auto simp: call_ok_def)
    have e: "abs_calls (mw_store w') = set_status i call_status.Executed (abs_calls ?s)"
      using abs_close [OF inv c(1), of ?c call_status.Executed] c(2) by (simp add: w' call_status_of_def)
    have "spec_step R (abs_world w) (abs_world w')"
      using spec_execute [OF a(1,2) maj, of R hdl app'] Executed(1,2) a(3) e by (simp add: abs_world_def w')
    then show ?thesis
      using close_call_inv [OF inv c(1), of ?c] ok c(2) close_frame [OF inv c(1), of ?c] by (simp add: w')
  next
    case (Failed hdl e)
    let ?c = "c\<lparr>c_Approved := True, c_Failed := True, c_Error := e\<rparr>"
    have w': "w' = w\<lparr>mw_store := RemoveCallFromQueue i (c_Height c) (StoreCall ?c ?s)\<rparr>"
      using ex Failed(3) by simp
    have ok: "call_ok R h ?c" and n: "\<not> c_Executed c" using c by (auto simp: call_ok_def)
    have e: "abs_calls (mw_store w') = set_status i (call_status.Failed e) (abs_calls ?s)"
      using abs_close [OF inv c(1), of ?c "call_status.Failed e"] c(2) n by (simp add: w' call_status_of_def)
    have "spec_step R (abs_world w) (abs_world w')"
      using spec_fail [OF a(1,2) maj, of R hdl e] Failed(1,2) a(3) e by (simp add: abs_world_def w')
    then show ?thesis
      using close_call_inv [OF inv c(1), of ?c] ok c(2) close_frame [OF inv c(1), of ?c] by (simp add: w')
  next
    case (Panics hdl)
    with ex show ?thesis by simp
  qed
next
  case False
  obtain c where "call_at (mw_store w) i = Some c" by (rule waiting_call [OF inv wt])
  with process_active_spec [OF inv wt] False r have "w' = w" by auto
  with inv show ?thesis by simp
qed

section \<open>The loop over the active calls\<close>

lemma active_loop_simulates:
  "\<lbrakk>ms_inv R h (mw_store w); \<forall>i \<in> set is. waiting (mw_store w) i; distinct is; active_loop R is w = (Ok (), w')\<rbrakk> \<Longrightarrow>
   ms_inv R h (mw_store w') \<and> ms_interval (mw_store w') = ms_interval (mw_store w) \<and>
   (spec_step R)\<^sup>*\<^sup>* (abs_world w) (abs_world w') \<and>
   (\<forall>j. j \<notin> set is \<longrightarrow> call_at (mw_store w') j = call_at (mw_store w) j \<and> votes_at (mw_store w') j = votes_at (mw_store w) j \<and>
      (waiting (mw_store w') j \<longleftrightarrow> waiting (mw_store w) j))"
proof (induction "is" arbitrary: w)
  case (Cons i "is")
  then obtain w1 where p: "process_active R i w = (Ok (), w1)" and l: "active_loop R is w1 = (Ok (), w')"
    by (auto split: prod.splits res.splits)
  note s1 = process_active_simulates [OF Cons.prems(1) _ p]
  then have f: "ms_inv R h (mw_store w1)" "\<forall>j \<in> set is. waiting (mw_store w1) j" using Cons.prems by auto
  from Cons.IH [OF f _ l] Cons.prems s1 show ?case by (auto intro: rtranclp_trans)
qed simp

definition handlers_total :: "('x, 'm) msRouter \<Rightarrow> bool" where
  "handlers_total R \<longleftrightarrow> (\<forall>path hdl msg app. GetRoute R path = Some hdl \<longrightarrow> fst (hdl msg app) \<noteq> Panic)"

lemma process_active_total:
  assumes "ms_inv R h (mw_store w)" and "waiting (mw_store w) i" and "handlers_total R"
  shows "\<exists>w'. process_active R i w = (Ok (), w')"
proof -
  obtain c where c: "call_at (mw_store w) i = Some c" "call_ok R h c" by (rule waiting_call [OF assms(1,2)])
  from c(2) show ?thesis
    using process_active_spec [OF assms(1,2) c(1)] assms(3) unfolding handlers_total_def
    by (cases rule: execute_call_cases [where w = w and i = i]) auto
qed

lemma active_loop_total:
  "\<lbrakk>ms_inv R h (mw_store w); \<forall>i \<in> set is. waiting (mw_store w) i; distinct is; handlers_total R\<rbrakk> \<Longrightarrow>
   \<exists>w'. active_loop R is w = (Ok (), w')"
proof (induction "is" arbitrary: w)
  case (Cons i "is")
  then obtain w1 where p: "process_active R i w = (Ok (), w1)" using process_active_total by (metis list.set_intros(1))
  note s1 = process_active_simulates [OF Cons.prems(1) _ p]
  then have f: "ms_inv R h (mw_store w1)" "\<forall>j \<in> set is. waiting (mw_store w1) j" using Cons.prems by auto
  from Cons.IH [OF f] Cons.prems p show ?case by auto
qed simp

text \<open>No waiting call changes the validators.\<close>

definition poa_kept :: "('x, 'm) msRouter \<Rightarrow> 'm ms_store \<Rightarrow> bool" where
  "poa_kept R s \<longleftrightarrow> (\<forall>i c hdl app app'. waiting s i \<and> call_at s i = Some c \<and> GetRoute R (mm_Route (c_Msg c)) = Some hdl \<and>
     hdl (c_Msg c) app = (Ok (), app') \<longrightarrow> ma_poa app' = ma_poa app)"

lemma process_active_poa:
  assumes "ms_inv R h (mw_store w)" and "waiting (mw_store w) i" and "poa_kept R (mw_store w)" and "process_active R i w = (Ok (), w')"
  shows "ma_poa (mw_app w') = ma_poa (mw_app w)"
proof -
  obtain c where c: "call_at (mw_store w) i = Some c" "call_ok R h c" by (rule waiting_call [OF assms(1,2)])
  from c(2) show ?thesis
  proof (cases rule: execute_call_cases [where w = w and i = i])
    case (Executed hdl app')
    then have "ma_poa app' = ma_poa (mw_app w)" using assms(2,3) c(1) unfolding poa_kept_def by blast
    then show ?thesis using process_active_spec [OF assms(1,2) c(1)] assms(4) Executed(3) by (auto split: if_splits)
  qed (use process_active_spec [OF assms(1,2) c(1)] assms(4) in \<open>auto split: if_splits\<close>)
qed

lemma process_active_executes:
  assumes "ms_inv R h (mw_store w)" and "waiting (mw_store w) i" and "process_active R i w = (Ok (), w')"
    and "GetEnoughConfirmations (ma_poa (mw_app w)) \<le> of_nat (length (votes_or_empty (mw_store w) i))"
  shows "\<exists>c'. call_at (mw_store w') i = Some c' \<and> c_Approved c'"
proof -
  obtain c where c: "call_at (mw_store w) i = Some c" "c_ID c = i" "call_ok R h c" by (rule waiting_call [OF assms(1,2)])
  from c(3) show ?thesis
    using process_active_spec [OF assms(1,2) c(1)] assms(3,4) c(2)
    by (cases rule: execute_call_cases [where w = w and i = i]) auto
qed

lemma active_loop_executes:
  "\<lbrakk>ms_inv R h (mw_store w); \<forall>i \<in> set is. waiting (mw_store w) i; distinct is; active_loop R is w = (Ok (), w');
    poa_kept R (mw_store w); i \<in> set is;
    GetEnoughConfirmations (ma_poa (mw_app w)) \<le> of_nat (length (votes_or_empty (mw_store w) i))\<rbrakk> \<Longrightarrow>
   \<exists>c'. call_at (mw_store w') i = Some c' \<and> c_Approved c'"
proof (induction "is" arbitrary: w)
  case (Cons j "is")
  then obtain w1 where p: "process_active R j w = (Ok (), w1)" and l: "active_loop R is w1 = (Ok (), w')"
    by (auto split: prod.splits res.splits)
  have j: "waiting (mw_store w) j" using Cons.prems(2) by simp
  note s1 = process_active_simulates [OF Cons.prems(1) j p]
  then have f: "ms_inv R h (mw_store w1)" "\<forall>k \<in> set is. waiting (mw_store w1) k" using Cons.prems by auto
  have d: "distinct is" using Cons.prems(3) by simp
  show ?case
  proof (cases "i = j")
    case True
    have "i \<notin> set is" using Cons.prems(3) True by simp
    with active_loop_simulates [OF f d l] have "call_at (mw_store w') i = call_at (mw_store w1) i" by blast
    with process_active_executes [OF Cons.prems(1) j p] Cons.prems(7) True show ?thesis by simp
  next
    case False
    have "waiting (mw_store w1) k \<Longrightarrow> waiting (mw_store w) k \<and> (k \<noteq> j \<longrightarrow> call_at (mw_store w1) k = call_at (mw_store w) k)" for k
      using s1 j by (cases "k = j") auto
    moreover have "c_Msg c = c_Msg d" if "call_at (mw_store w1) j = Some c" "call_at (mw_store w) j = Some d" for c d
    proof -
      have "sp_calls (abs_world w) j = Some (abs_call (mw_store w) d)" "sp_calls (abs_world w1) j = Some (abs_call (mw_store w1) c)"
        using that by (simp_all add: abs_calls_def)
      then show ?thesis using s1 spec_steps_msg [of R "abs_world w" "abs_world w1" j] by (fastforce simp: abs_call_def)
    qed
    ultimately have "poa_kept R (mw_store w1)"
      using Cons.prems(5) unfolding poa_kept_def waiting_def by metis
    moreover have "votes_or_empty (mw_store w1) i = votes_or_empty (mw_store w) i"
      using s1 False by (simp add: votes_or_empty_at)
    ultimately show ?thesis
      using Cons.IH [OF f d l] False Cons.prems(6,7) process_active_poa [OF Cons.prems(1) j Cons.prems(5) p] by simp
  qed
qed simp

section \<open>The loop over the outdated calls\<close>

lemma reject_call_spec:
  assumes inv: "ms_inv R h s" and wt: "waiting s i"
  obtains c s' where "call_at s i = Some c" and "reject_call i s = (Ok (), s')" and "ms_inv R h s'"
    and "ms_interval s' = ms_interval s" and "call_at s' i = Some (c\<lparr>c_Rejected := True\<rparr>)" and "\<not> waiting s' i"
    and "spec_step R \<lparr>sp_calls = abs_calls s, sp_app = app\<rparr> \<lparr>sp_calls = abs_calls s', sp_app = app\<rparr>"
    and "\<forall>j. j \<noteq> i \<longrightarrow> call_at s' j = call_at s j \<and> (waiting s' j \<longleftrightarrow> waiting s j)"
proof -
  obtain c where c: "call_at s i = Some c" "c_ID c = i" "\<not> c_Approved c" "\<not> c_Rejected c" "call_ok R h c"
    "call_status_of s c = Pending (set (votes_or_empty s i))" by (rule waiting_call [OF inv wt])
  let ?c = "c\<lparr>c_Rejected := True\<rparr>"
  let ?s = "RemoveCallFromQueue i (c_Height c) (StoreCall ?c s)"
  have n: "\<not> c_Executed c" "\<not> c_Failed c" "call_ok R h ?c" using c by (auto simp: call_ok_def)
  have e: "abs_calls ?s = set_status i Rejected (abs_calls s)"
    using abs_close [OF inv c(1), of ?c Rejected] c(2) n by (simp add: call_status_of_def)
  have "status_of \<lparr>sp_calls = abs_calls s, sp_app = app\<rparr> i = Some (Pending (set (votes_or_empty s i)))"
    using c by (simp add: status_of_def abs_calls_def abs_call_def)
  from spec_reject [OF this, of R] have "spec_step R \<lparr>sp_calls = abs_calls s, sp_app = app\<rparr> \<lparr>sp_calls = abs_calls ?s, sp_app = app\<rparr>"
    by (simp add: e)
  moreover have "reject_call i s = (Ok (), ?s)" using c by (simp add: reject_call_def GetCall_at)
  ultimately show ?thesis
    using that [OF c(1)] close_call_inv [OF inv c(1), of ?c] close_frame [OF inv c(1), of ?c] c(2) n(3)
    by (simp add: waiting_def)
qed

lemma reject_loop_spec:
  "\<lbrakk>ms_inv R h s; \<forall>i \<in> set is. waiting s i; distinct is\<rbrakk> \<Longrightarrow>
   \<exists>s'. reject_loop is s = (Ok (), s') \<and> ms_inv R h s' \<and> ms_interval s' = ms_interval s \<and>
     (spec_step R)\<^sup>*\<^sup>* \<lparr>sp_calls = abs_calls s, sp_app = app\<rparr> \<lparr>sp_calls = abs_calls s', sp_app = app\<rparr> \<and>
     (\<forall>j. call_at s' j = (if j \<in> set is then map_option (\<lambda>c. c\<lparr>c_Rejected := True\<rparr>) (call_at s j) else call_at s j)) \<and>
     (\<forall>j. waiting s' j \<longleftrightarrow> waiting s j \<and> j \<notin> set is)"
proof (induction "is" arbitrary: s)
  case (Cons i "is")
  have wi: "waiting s i" using Cons.prems(2) by simp
  obtain c s1 where c: "call_at s i = Some c" and s1: "reject_call i s = (Ok (), s1)" "ms_inv R h s1" "ms_interval s1 = ms_interval s"
    "call_at s1 i = Some (c\<lparr>c_Rejected := True\<rparr>)" "\<not> waiting s1 i"
    "spec_step R \<lparr>sp_calls = abs_calls s, sp_app = app\<rparr> \<lparr>sp_calls = abs_calls s1, sp_app = app\<rparr>"
    and f: "\<forall>j. j \<noteq> i \<longrightarrow> call_at s1 j = call_at s j \<and> (waiting s1 j \<longleftrightarrow> waiting s j)"
    by (rule reject_call_spec [OF Cons.prems(1) wi])
  have w: "\<forall>j \<in> set is. waiting s1 j" "distinct is" "i \<notin> set is" using Cons.prems(2,3) f by auto
  from Cons.IH [OF s1(2) w(1,2)] obtain s' where s': "reject_loop is s1 = (Ok (), s')" "ms_inv R h s'" "ms_interval s' = ms_interval s1"
    "(spec_step R)\<^sup>*\<^sup>* \<lparr>sp_calls = abs_calls s1, sp_app = app\<rparr> \<lparr>sp_calls = abs_calls s', sp_app = app\<rparr>"
    "\<forall>j. call_at s' j = (if j \<in> set is then map_option (\<lambda>c. c\<lparr>c_Rejected := True\<rparr>) (call_at s1 j) else call_at s1 j)"
    "\<forall>j. waiting s' j \<longleftrightarrow> waiting s1 j \<and> j \<notin> set is" by blast
  have "reject_loop (i # is) s = (Ok (), s')" using s1(1) s'(1) by simp
  moreover have "(spec_step R)\<^sup>*\<^sup>* \<lparr>sp_calls = abs_calls s, sp_app = app\<rparr> \<lparr>sp_calls = abs_calls s', sp_app = app\<rparr>"
    using s1(6) s'(4) by (rule converse_rtranclp_into_rtranclp)
  moreover have "call_at s' j = (if j \<in> set (i # is) then map_option (\<lambda>c. c\<lparr>c_Rejected := True\<rparr>) (call_at s j) else call_at s j)" for j
    using s'(5) s1(4) f c w(3) by (cases "j = i") auto
  moreover have "waiting s' j \<longleftrightarrow> waiting s j \<and> j \<notin> set (i # is)" for j
    using s'(6) s1(5) f by (cases "j = i") auto
  ultimately show ?case using s'(2,3) s1(3) by auto
qed simp

section \<open>The end of a block\<close>

lemma start_height_bounds:
  "\<lbrakk>height_ok h; MinIntervalToExecute \<le> ms_interval s\<rbrakk> \<Longrightarrow> height_ok (start_height h s) \<and> start_height h s \<le> h"
  by (auto simp: start_height_def Let_def)

text \<open>The block in two parts: what the loop over the active calls leaves, and what the loop over the outdated ones does to it.\<close>

lemma Ms_EndBlocker_parts:
  assumes inv: "ms_inv R h (mw_store w)" and r: "Ms_EndBlocker R h w = (Ok (), w')"
  defines "start \<equiv> start_height h (mw_store w)"
  obtains w1 where
    "active_loop R (kv_vals (GetQueueIteratorStartEnd (mw_store w) start h)) w = (Ok (), w1)"
    "ms_inv R h (mw_store w1)" "ms_interval (mw_store w1) = ms_interval (mw_store w)"
    "(spec_step R)\<^sup>*\<^sup>* (abs_world w) (abs_world w1)" "(spec_step R)\<^sup>*\<^sup>* (abs_world w1) (abs_world w')"
    "mw_app w' = mw_app w1" "ms_inv R h (mw_store w')"
    "\<forall>j. call_at (mw_store w') j =
      (if ms_interval (mw_store w) < start \<and> waiting (mw_store w1) j \<and> c_Height (the (call_at (mw_store w1) j)) \<le> start
       then map_option (\<lambda>c. c\<lparr>c_Rejected := True\<rparr>) (call_at (mw_store w1) j) else call_at (mw_store w1) j)"
    "\<forall>j. waiting (mw_store w') j \<longleftrightarrow> waiting (mw_store w1) j \<and>
      \<not> (ms_interval (mw_store w) < start \<and> c_Height (the (call_at (mw_store w1) j)) \<le> start)"
    "\<forall>j. \<not> waiting (mw_store w) j \<longrightarrow> call_at (mw_store w1) j = call_at (mw_store w) j \<and> \<not> waiting (mw_store w1) j"
    "\<forall>j c. call_at (mw_store w) j = Some c \<and> c_Height c < start \<longrightarrow>
      call_at (mw_store w1) j = Some c \<and> (waiting (mw_store w1) j \<longleftrightarrow> waiting (mw_store w) j)"
proof -
  let ?is = "kv_vals (GetQueueIteratorStartEnd (mw_store w) start h)"
  have hs: "height_ok h" "height_ok start" using inv start_height_bounds by (auto simp: ms_inv_def start_def)
  note win = active_ids [OF inv hs(2,1)]
  from r obtain w1 where l: "active_loop R ?is w = (Ok (), w1)"
    by (auto simp: Ms_EndBlocker_def start_def Let_def split: prod.splits res.splits)
  note s1 = active_loop_simulates [OF inv win l]
  then have inv1: "ms_inv R h (mw_store w1)" and iv: "ms_interval (mw_store w1) = ms_interval (mw_store w)" by auto
  have nw: "\<forall>j. \<not> waiting (mw_store w) j \<longrightarrow> call_at (mw_store w1) j = call_at (mw_store w) j \<and> \<not> waiting (mw_store w1) j"
    using s1 win(1) by blast
  have old: "\<forall>j c. call_at (mw_store w) j = Some c \<and> c_Height c < start \<longrightarrow>
      call_at (mw_store w1) j = Some c \<and> (waiting (mw_store w1) j \<longleftrightarrow> waiting (mw_store w) j)"
    using s1 active_window [OF inv hs(2,1)] by fastforce
  show ?thesis
  proof (cases "ms_interval (mw_store w) < start")
    case True
    let ?js = "kv_vals (GetQueueIteratorTill (mw_store w1) start)"
    have js: "set ?js = {i. waiting (mw_store w1) i \<and> c_Height (the (call_at (mw_store w1) i)) \<le> start}"
      unfolding till_window [OF inv1 hs(2)] by (auto simp: waiting_def)
    from reject_loop_spec [OF inv1 till_ids [OF inv1 hs(2)], of "mw_app w1"] obtain s2 where s2: "reject_loop ?js (mw_store w1) = (Ok (), s2)" "ms_inv R h s2"
      "(spec_step R)\<^sup>*\<^sup>* \<lparr>sp_calls = abs_calls (mw_store w1), sp_app = mw_app w1\<rparr> \<lparr>sp_calls = abs_calls s2, sp_app = mw_app w1\<rparr>"
      "\<forall>j. call_at s2 j = (if j \<in> set ?js then map_option (\<lambda>c. c\<lparr>c_Rejected := True\<rparr>) (call_at (mw_store w1) j) else call_at (mw_store w1) j)"
      "\<forall>j. waiting s2 j \<longleftrightarrow> waiting (mw_store w1) j \<and> j \<notin> set ?js" by blast
    have w': "w' = w1\<lparr>mw_store := s2\<rparr>"
      using r l s2(1) True iv by (simp add: Ms_EndBlocker_def start_def [symmetric] Let_def)
    show ?thesis
    proof (rule that [OF l inv1 iv])
      show "(spec_step R)\<^sup>*\<^sup>* (abs_world w1) (abs_world w')" using s2(3) by (simp add: w' abs_world_def)
    qed (use s1 s2(2,4,5) nw old True js in \<open>auto simp: w'\<close>)
  next
    case False
    then have "w' = w1" using r l iv by (simp add: Ms_EndBlocker_def start_def [symmetric] Let_def)
    then show ?thesis using that [OF l inv1 iv] s1 nw old False inv1 by auto
  qed
qed

lemma Ms_EndBlocker_simulates:
  assumes "ms_inv R h (mw_store w)" and "Ms_EndBlocker R h w = (Ok (), w')"
  shows "ms_inv R h (mw_store w') \<and> (spec_step R)\<^sup>*\<^sup>* (abs_world w) (abs_world w')"
proof -
  obtain w1 where "(spec_step R)\<^sup>*\<^sup>* (abs_world w) (abs_world w1)" "(spec_step R)\<^sup>*\<^sup>* (abs_world w1) (abs_world w')"
    "ms_inv R h (mw_store w')" by (rule Ms_EndBlocker_parts [OF assms])
  then show ?thesis by (meson rtranclp_trans)
qed

lemma Ms_EndBlocker_total:
  assumes inv: "ms_inv R h (mw_store w)" and tot: "handlers_total R"
  shows "\<exists>w'. Ms_EndBlocker R h w = (Ok (), w')"
proof -
  let ?start = "start_height h (mw_store w)"
  let ?is = "kv_vals (GetQueueIteratorStartEnd (mw_store w) ?start h)"
  have hs: "height_ok h" "height_ok ?start" using inv start_height_bounds by (auto simp: ms_inv_def)
  note win = active_ids [OF inv hs(2,1)]
  obtain w1 where l: "active_loop R ?is w = (Ok (), w1)" using active_loop_total [OF inv win tot] by blast
  then have inv1: "ms_inv R h (mw_store w1)" using active_loop_simulates [OF inv win] by blast
  let ?js = "kv_vals (GetQueueIteratorTill (mw_store w1) ?start)"
  from reject_loop_spec [OF inv1 till_ids [OF inv1 hs(2)]] obtain s2 where "reject_loop ?js (mw_store w1) = (Ok (), s2)" by blast
  with l show ?thesis by (auto simp: Ms_EndBlocker_def Let_def)
qed

end
