(* ===== verification/Ms_Props.thy ===== *)
theory Ms_Props
  imports Ms_EndBlock
begin

text \<open>
  The runs of the multi-signature module, its genesis, and its properties: refinement of the specification, safety of
  the execution of calls, what the end of a block does, and export and initialisation.
\<close>

section \<open>Runs\<close>

text \<open>A message of a transaction, a step of the other modules, or the end of a block, which raises the height.\<close>

inductive ms_step ::
  "sdk \<Rightarrow> ('x, 'm) msRouter \<Rightarrow> ('x, 'm) ms_world \<times> int \<Rightarrow> ('x, 'm) ms_world \<times> int \<Rightarrow> bool"
  for S :: sdk and R :: "('x, 'm) msRouter" where
  ms_msg: "Ms_NewHandler S R h msg (mw_app w) (mw_store w) = (Ok (), s') \<Longrightarrow> ms_step S R (w, h) (w\<lparr>mw_store := s'\<rparr>, h)"
| ms_other: "ms_step S R (w, h) (w\<lparr>mw_app := app'\<rparr>, h)"
| ms_end: "\<lbrakk>Ms_EndBlocker R h w = (Ok (), w'); h + 1 < 2 ^ 63\<rbrakk> \<Longrightarrow> ms_step S R (w, h) (w', h + 1)"

inductive_cases ms_stepE: "ms_step S R wh wh'"

definition ms_empty :: "int \<Rightarrow> 'm ms_store" where
  "ms_empty iv = \<lparr>ms_calls = [], ms_unique = [], ms_votes = [], ms_queue = [], ms_lastID = None, ms_interval = iv\<rparr>"

definition ms_initial :: "('x, 'm) ms_world \<Rightarrow> bool" where
  "ms_initial w \<longleftrightarrow> (\<exists>iv. MinIntervalToExecute \<le> iv \<and> mw_store w = ms_empty iv)"

definition ms_run :: "sdk \<Rightarrow> ('x, 'm) msRouter \<Rightarrow> ('x, 'm) ms_world \<Rightarrow> ('x, 'm) ms_world \<Rightarrow> int \<Rightarrow> bool" where
  "ms_run S R w0 w h \<longleftrightarrow> ms_initial w0 \<and> (\<exists>h0. height_ok h0 \<and> (ms_step S R)\<^sup>*\<^sup>* (w0, h0) (w, h))"

lemma empty_at: "call_at (ms_empty iv) i = None" "votes_at (ms_empty iv) i = None" "\<not> queued_at (ms_empty iv) i h"
  by (simp_all add: ms_empty_def call_at_def votes_at_def queued_at_def kv_has_def)

lemma empty_sel [simp]:
  "ms_lastID (ms_empty iv) = None" "ms_interval (ms_empty iv) = iv" "ms_calls (ms_empty iv) = []"
  "ms_unique (ms_empty iv) = []" "ms_votes (ms_empty iv) = []" "ms_queue (ms_empty iv) = []"
  by (simp_all add: ms_empty_def)

lemma ms_empty_inv: "\<lbrakk>MinIntervalToExecute \<le> iv; height_ok h\<rbrakk> \<Longrightarrow> ms_inv R h (ms_empty iv)"
  by (simp add: ms_inv_def calls_inv_def unique_inv_def votes_inv_def queue_inv_def empty_at)

lemma ms_step_inv:
  assumes "ms_step S R (w, h) (w', h')" and "uint_laws S" and "ms_inv R h (mw_store w)"
  shows "ms_inv R h' (mw_store w') \<and> (spec_step R)\<^sup>*\<^sup>* (abs_world w) (abs_world w')"
  using assms(1)
proof cases
  case (ms_msg msg s')
  then show ?thesis using Ms_NewHandler_inv [OF assms(3,2)] Ms_NewHandler_simulates [OF assms(3,2)] by auto
next
  case (ms_other app')
  then show ?thesis using assms(3) spec_other [of R "abs_world w" app'] by (auto simp: abs_world_def)
next
  case ms_end
  then have "ms_inv R h (mw_store w')" and s: "(spec_step R)\<^sup>*\<^sup>* (abs_world w) (abs_world w')"
    using Ms_EndBlocker_simulates [OF assms(3)] by auto
  then show ?thesis using ms_inv_mono [of R h _ h'] ms_end by simp
qed

lemma ms_steps_inv:
  assumes "(ms_step S R)\<^sup>*\<^sup>* (w, h) (w', h')" and "uint_laws S" and "ms_inv R h (mw_store w)"
  shows "ms_inv R h' (mw_store w') \<and> (spec_step R)\<^sup>*\<^sup>* (abs_world w) (abs_world w')"
  using assms(1)
proof (induction rule: rtranclp_induct2)
  case refl
  then show ?case using assms(3) by simp
next
  case (step w1 h1 w2 h2)
  then show ?case using ms_step_inv [OF step.hyps(2) assms(2)] by (meson rtranclp_trans)
qed

lemma ms_run_inv:
  assumes "ms_run S R w0 w h" and "uint_laws S"
  shows "ms_inv R h (mw_store w)" and "(spec_step R)\<^sup>*\<^sup>* (abs_world w0) (abs_world w)" and "abs_calls (mw_store w0) = Map.empty"
proof -
  from assms(1) obtain iv h0 where iv: "MinIntervalToExecute \<le> iv" "mw_store w0 = ms_empty iv" "height_ok h0"
    and st: "(ms_step S R)\<^sup>*\<^sup>* (w0, h0) (w, h)" by (auto simp: ms_run_def ms_initial_def)
  from ms_steps_inv [OF st assms(2)] iv ms_empty_inv [of iv h0 R]
  show "ms_inv R h (mw_store w)" and "(spec_step R)\<^sup>*\<^sup>* (abs_world w0) (abs_world w)" by simp_all
  show "abs_calls (mw_store w0) = Map.empty" by (auto simp: abs_calls_def iv empty_at)
qed

lemma ms_run_step: "\<lbrakk>ms_run S R w0 w h; ms_step S R (w, h) (w', h')\<rbrakk> \<Longrightarrow> ms_run S R w0 w' h'"
  unfolding ms_run_def by (meson rtranclp.rtrancl_into_rtrancl)

section \<open>An example\<close>

text \<open>A route to the validators module and a route to a module that counts the calls it executes.\<close>

definition poa_route :: "('x, PoaMsg + 'm) MsHandler" where
  "poa_route msg app =
     (case mm_Data msg of
        Inl pm \<Rightarrow>
          (case Poa_NewMsHandler pm (ma_poa app) of
             (Ok _, p) \<Rightarrow> (Ok (), app\<lparr>ma_poa := p\<rparr>)
           | (Err _, _) \<Rightarrow> (Err ''poa'', app)
           | (Panic, _) \<Rightarrow> (Panic, app))
      | Inr _ \<Rightarrow> (Err ''unrecognized message'', app))"

definition note_route :: "(nat, PoaMsg + nat) MsHandler" where
  "note_route msg app = (case mm_Data msg of Inr n \<Rightarrow> (Ok (), app\<lparr>ma_rest := ma_rest app + n\<rparr>) | Inl _ \<Rightarrow> (Err ''unrecognized message'', app))"

definition ex_router :: "(nat, PoaMsg + nat) msRouter" where
  "ex_router = \<lparr>rt_routes = [(''note'', note_route), (''poa'', poa_route)], rt_sealed = True\<rparr>"

lemma ex_router_registered: "RegisterMsRoutes [(''poa'', poa_route), (''note'', note_route)] NewMsRouter = Some ex_router"
  by (simp add: RegisterMsRoutes_def AddRoute_def NewMsRouter_def isAlphaNumeric_def is_alnum_def HasRoute_def Router_Seal_def
    ex_router_def)

lemma SubmitCall_new:
  assumes "ms_inv R h s" and "uint_laws S" and "submitted R h msg u a app s i"
  shows "SubmitCall S R h msg u a app s = (Ok (), setVotes i [a] (createCall (new_call i u msg h a) s))"
proof -
  have "nextCallID S s = Some i" using assms by (simp add: nextCallID_def submitted_def incr_id_Some)
  moreover have "NewCall i u (Some msg) h a = Ok (new_call i u msg h a)" using assms(3) by (auto simp: NewCall_Ok submitted_def)
  moreover have "votes_at s i = None"
    using assms next_id_fresh votes_at_fresh unfolding ms_inv_def submitted_def by metis
  ultimately show ?thesis using assms(3) confirm_created [of s i a u msg h a] by (auto simp: SubmitCall_def submitted_def)
qed

definition ex_msg :: "(PoaMsg + nat) MsMsg" where
  "ex_msg = \<lparr>mm_Route = ''note'', mm_Type = ''add'', mm_Valid = True, mm_Data = Inr 7\<rparr>"

abbreviation ex_A :: bytes where
  "ex_A \<equiv> v_Address (ex_validator (CHR ''A''))"

abbreviation ex_B :: bytes where
  "ex_B \<equiv> v_Address (ex_validator (CHR ''B''))"

definition ex_w :: "poa_state \<Rightarrow> (PoaMsg + nat) ms_store \<Rightarrow> (nat, PoaMsg + nat) ms_world" where
  "ex_w p s = \<lparr>mw_store = s, mw_app = \<lparr>ma_poa = p, ma_rest = 0\<rparr>\<rparr>"

abbreviation ex_call :: "int \<Rightarrow> (PoaMsg + nat) Call" where
  "ex_call h \<equiv> new_call 0 ''u'' ex_msg h ex_A"

definition ex_s1 :: "int \<Rightarrow> (PoaMsg + nat) ms_store" where
  "ex_s1 h = setVotes 0 [ex_A] (createCall (ex_call h) (ms_empty 10))"

definition ex_s2 :: "(PoaMsg + nat) ms_store" where
  "ex_s2 = setVotes 0 [ex_A, ex_B] (ex_s1 5)"

definition ex_three :: "poa_state \<Rightarrow> bool" where
  "ex_three p \<longleftrightarrow> poa_inv p \<and> GetValidators p = [ex_validator (CHR ''A''), ex_validator (CHR ''B''), ex_validator (CHR ''C'')]"

lemma ex_three_ex: obtains p where "ex_three p"
proof -
  obtain p where p: "poa_reach ex_poa_params p"
    "GetValidators p = [ex_validator (CHR ''A''), ex_validator (CHR ''B''), ex_validator (CHR ''C'')]" by (rule ex_poa)
  have "poa_ok p" using poa_reach_ok [OF _ p(1)] by simp
  with p(2) have "ex_three p" by (simp add: ex_three_def poa_ok_def)
  then show ?thesis by (rule that)
qed

lemma ex_three_facts:
  assumes "ex_three p"
  shows "HasValidator p ex_A" and "HasValidator p ex_B" and "GetEnoughConfirmations p = 2"
proof -
  have inv: "poa_inv p" and l: "GetValidators p = [ex_validator (CHR ''A''), ex_validator (CHR ''B''), ex_validator (CHR ''C'')]"
    using assms by (simp_all add: ex_three_def)
  show "HasValidator p ex_A" "HasValidator p ex_B" using poa_inv_has [OF inv] l by simp_all
  have "GetValidatorAmount p = 3" using inv by (simp add: poa_inv_def l)
  then show "GetEnoughConfirmations p = 2" by (simp add: GetEnoughConfirmations_def)
qed

lemma ex_A_B: "ex_A \<noteq> ex_B" "ex_A \<noteq> []" "ex_B \<noteq> []"
  by (simp_all add: ex_validator_def replicate_eq_replicate)

lemma ex_w_sel [simp]: "mw_store (ex_w p s) = s" "mw_app (ex_w p s) = \<lparr>ma_poa = p, ma_rest = 0\<rparr>"
  by (simp_all add: ex_w_def)

lemma ex_submitted: "submitted ex_router h ex_msg ''u'' ex_A \<lparr>ma_poa = p, ma_rest = 0\<rparr> (ms_empty 10) 0"
  by (simp add: submitted_def next_id_def HasCallByUniqueID_def kv_has_def ex_msg_def ex_A_B GetRoute_def ex_router_def note_route_def)

lemma ex_run1:
  assumes p: "ex_three p" and h: "height_ok h"
  shows "ms_run ref_sdk ex_router (ex_w p (ms_empty 10)) (ex_w p (ex_s1 h)) h"
proof -
  have inv: "ms_inv ex_router h (ms_empty 10)" using h by (simp add: ms_empty_inv)
  have "Ms_NewHandler ref_sdk ex_router h (MsgSubmitCall ex_msg ''u'' ex_A) (mw_app (ex_w p (ms_empty 10))) (mw_store (ex_w p (ms_empty 10))) =
      (Ok (), ex_s1 h)"
    using SubmitCall_new [OF inv ref_uint_laws ex_submitted] ex_three_facts(1) [OF p] by (simp add: handleMsgSubmitCall_def ex_s1_def)
  from ms_msg [OF this] have "ms_step ref_sdk ex_router (ex_w p (ms_empty 10), h) (ex_w p (ex_s1 h), h)" by (simp add: ex_w_def)
  then show ?thesis unfolding ms_run_def ms_initial_def using h by (intro conjI exI [of _ 10] exI [of _ h]) auto
qed

lemma ex_s1_at: "call_at (ex_s1 h) i = (if i = 0 then Some (ex_call h) else None)"
  "votes_at (ex_s1 h) i = (if i = 0 then Some [ex_A] else None)" "queued_at (ex_s1 h) 0 h" "ms_interval (ex_s1 h) = 10"
  by (simp_all add: ex_s1_def createCall_at empty_at)

lemma ex_step2:
  assumes p: "ex_three p"
  shows "ms_step ref_sdk ex_router (ex_w p (ex_s1 5), 5) (ex_w p ex_s2, 5)"
proof -
  have inv: "ms_inv ex_router 5 (ex_s1 5)" using ms_run_inv(1) [OF ex_run1 [OF p, of 5] ref_uint_laws] by simp
  have "Ms_NewHandler ref_sdk ex_router 5 (MsgConfirmCall 0 ex_B) (mw_app (ex_w p (ex_s1 5))) (mw_store (ex_w p (ex_s1 5))) = (Ok (), ex_s2)"
    using ex_three_facts(2) [OF p] ex_A_B
    by (simp add: handleMsgConfirmCall_def ConfirmCall_spec [OF inv] ex_s1_at votes_or_empty_at ex_s2_def)
  from ms_msg [OF this] show ?thesis by (simp add: ex_w_def)
qed

lemma ex_s2_at: "call_at ex_s2 i = (if i = 0 then Some (ex_call 5) else None)" "votes_at ex_s2 i = (if i = 0 then Some [ex_A, ex_B] else None)"
  "queued_at ex_s2 0 5" "ms_interval ex_s2 = 10"
  by (simp_all add: ex_s2_def ex_s1_at)

definition ex_w3 :: "poa_state \<Rightarrow> (nat, PoaMsg + nat) ms_world" where
  "ex_w3 p = \<lparr>mw_store = RemoveCallFromQueue 0 5 (StoreCall ((ex_call 5)\<lparr>c_Approved := True, c_Executed := True\<rparr>) ex_s2),
     mw_app = \<lparr>ma_poa = p, ma_rest = 7\<rparr>\<rparr>"

lemma ex_step3:
  assumes p: "ex_three p"
  shows "Ms_EndBlocker ex_router 5 (ex_w p ex_s2) = (Ok (), ex_w3 p)"
proof -
  have inv: "ms_inv ex_router 5 ex_s2"
    using ms_run_inv(1) [OF ms_run_step [OF ex_run1 [OF p, of 5] ex_step2 [OF p]] ref_uint_laws] by simp
  have wt: "waiting ex_s2 i \<longleftrightarrow> i = 0" for i using ex_s2_at by (auto simp: waiting_def)
  have "set (kv_vals (GetQueueIteratorStartEnd ex_s2 0 5)) = {0}"
    by (subst active_window [OF inv]) (auto simp: wt ex_s2_at)
  then have ids: "kv_vals (GetQueueIteratorStartEnd ex_s2 0 5) = [0]"
    using distinct_set_singleton active_ids(2) [OF inv, of 0 5] by auto
  have "process_active ex_router 0 (ex_w p ex_s2) = execute_call ex_router 0 (ex_call 5) (ex_w p ex_s2)"
    using process_active_spec [of ex_router 5 "ex_w p ex_s2" 0 "ex_call 5"] inv ex_three_facts(3) [OF p]
    by (simp add: wt ex_s2_at votes_or_empty_at)
  also have "\<dots> = (Ok (), ex_w3 p)"
    by (simp add: execute_call_def ex_msg_def GetRoute_def ex_router_def note_route_def ex_w3_def ex_w_def)
  finally show ?thesis
    by (simp add: Ms_EndBlocker_def start_height_def ex_s2_at ids) (simp add: ex_w3_def ex_s2_at)
qed

lemma ex_run3: "ex_three p \<Longrightarrow> ms_run ref_sdk ex_router (ex_w p (ms_empty 10)) (ex_w3 p) 6"
  using ms_run_step [OF ms_run_step [OF ex_run1 [of p 5] ex_step2] ms_end [OF ex_step3]] by simp

lemma ex_w3_executed: "status_of (abs_world (ex_w3 p)) 0 = Some Executed"
  by (simp add: status_of_def abs_calls_def abs_call_def call_status_of_def ex_w3_def)

lemma be_step: "0 < n \<Longrightarrow> be n v = char_of (v div 256 ^ (n - 1)) # be (n - 1) v"
  by (cases n) simp_all

lemma be64_58: "CHR '':'' \<in> set (be64 (nat 58))"
  by (simp add: be64_def be_step [of 8] be_step [of 7] be_step [of 6] be_step [of 5] be_step [of 4] be_step [of 3]
    be_step [of 2] be_step [of 1] char_of_def bit_0)

lemma be64_5: "CHR '':'' \<notin> set (be64 (nat 5))"
  by (simp add: be64_def be_step [of 8] be_step [of 7] be_step [of 6] be_step [of 5] be_step [of 4] be_step [of 3]
    be_step [of 2] be_step [of 1] char_of_def bit_0)

section \<open>Keys of the queue\<close>

lemma MustParseQueueKey_spec:
  assumes P: "parse_laws S" and h: "height_ok h" and i: "i < 2 ^ 256"
  shows "MustParseQueueKey S (GetQueueKey i h) = (if CHR '':'' \<in> set (be64 (nat h)) then None else Some (i, h))"
proof (cases "CHR '':'' \<in> set (be64 (nat h))")
  case True
  have "count_list (be64 (nat h)) (CHR '':'') \<noteq> 0" using True by (simp add: count_list_0_iff)
  then have "length (split_on (CHR '':'') (GetQueueKey i h)) \<noteq> 3"
    unfolding length_split_on GetQueueKey_eq [OF h] by (simp add: count_list_append)
  with True show ?thesis by (simp add: MustParseQueueKey_def Let_def)
next
  case False
  have v: "split_on (CHR '':'') (GetQueueKey i h) = [''queue'', be64 (nat h), ID_String i]"
    unfolding GetQueueKey_def using False h by (subst split_on_join) (auto simp: ID_String_def)
  have "be_to_nat 0 (be64 (nat h)) = nat h" using h by (intro be64_roundtrip) (simp add: nat_less_iff)
  moreover have "sint (of_nat (nat h) :: 64 word) = h"
    using h by (simp add: signed_of_int signed_take_bit_int_eq_self)
  ultimately show ?thesis using False by (simp add: MustParseQueueKey_def v NewIDFromString_String [OF P i])
qed

lemma parse_queue_spec:
  "\<forall>(k, i) \<in> set q. i < 2 ^ 256 \<and> height_ok (f i) \<and> k = GetQueueKey i (f i) \<Longrightarrow> parse_laws S \<Longrightarrow>
   parse_queue S q = (if \<exists>i \<in> set (kv_vals q). CHR '':'' \<in> set (be64 (nat (f i))) then None else Some (map (\<lambda>i. (i, f i)) (kv_vals q)))"
proof (induction q)
  case (Cons p q)
  then show ?case by (cases p) (simp add: MustParseQueueKey_spec kv_vals_set split del: if_split, simp add: kv_vals_def)
qed (simp add: kv_vals_def)

text \<open>All the entries of the queue are exported.\<close>

lemma queue_till_all:
  assumes "ms_inv R h s"
  shows "GetQueueIteratorTill s h = ms_queue s"
proof -
  have h: "height_ok h" using assms by (simp add: ms_inv_def)
  have "''queue'' \<le> fst p \<and> (fst p < GetPrefixQueueKey h \<or> prefix (GetPrefixQueueKey h) (fst p))" if p: "p \<in> set (ms_queue s)" for p
  proof -
    obtain c where c: "call_at s (snd p) = Some c" "fst p = GetQueueKey (snd p) (c_Height c)" by (rule queue_key_of [OF assms p])
    note hc = ms_inv_height [OF assms c(1)]
    then show ?thesis
      using queue_key_ge [of "c_Height c"] queue_key_ge_prefix [of "c_Height c" h] queue_key_prefix [of "c_Height c" h] h
      unfolding c(2) by (auto simp: not_less [symmetric])
  qed
  then show ?thesis unfolding GetQueueIteratorTill_def kv_till_def by (simp add: filter_id_conv)
qed

abbreviation height_at :: "'m ms_store \<Rightarrow> ID \<Rightarrow> int" where
  "height_at s i \<equiv> c_Height (the (call_at s i))"

lemma export_spec:
  assumes inv: "ms_inv R h s" and P: "parse_laws S"
  shows "Ms_ExportGenesis S h s =
    (if \<exists>i \<in> set (kv_vals (ms_queue s)). CHR '':'' \<in> set (be64 (nat (height_at s i))) then None
     else Some \<lparr>mg_Interval = ms_interval s, mg_LastCallID = ms_lastID s,
       mg_CallItems = map (\<lambda>c. (c, votes_or_empty s (c_ID c))) (getCalls s),
       mg_QueueItems = map (\<lambda>i. (i, height_at s i)) (kv_vals (ms_queue s))\<rparr>)"
proof -
  have "snd p < 2 ^ 256 \<and> height_ok (height_at s (snd p)) \<and> fst p = GetQueueKey (snd p) (height_at s (snd p))" if p: "p \<in> set (ms_queue s)" for p
  proof -
    obtain c where c: "call_at s (snd p) = Some c" "fst p = GetQueueKey (snd p) (c_Height c)" "waiting s (snd p)"
      by (rule queue_key_of [OF inv p])
    obtain d where "call_at s (snd p) = Some d" "call_ok R h d" "c_ID d = snd p" by (rule waiting_call [OF inv c(3)])
    with c ms_inv_height [OF inv c(1)] show ?thesis by (auto simp: call_ok_def)
  qed
  then have "\<forall>(k, i) \<in> set (ms_queue s). i < 2 ^ 256 \<and> height_ok (height_at s i) \<and> k = GetQueueKey i (height_at s i)" by force
  from parse_queue_spec [OF this P] show ?thesis unfolding Ms_ExportGenesis_def queue_till_all [OF inv] by simp
qed

lemma queue_vals_waiting: "ms_inv R h s \<Longrightarrow> set (kv_vals (ms_queue s)) = {i. waiting s i}"
  using queue_window(2) [of R h s "\<lambda>_. True"] by simp

section \<open>Genesis\<close>

abbreviation kv_puts :: "'v kv \<Rightarrow> (bytes \<times> 'v) list \<Rightarrow> 'v kv" where
  "kv_puts st es \<equiv> foldl (\<lambda>t p. kv_set (fst p) (snd p) t) st es"

lemma ms_init_calls_eq:
  "\<forall>p \<in> set items. HasRoute R (mm_Route (c_Msg (fst p))) \<Longrightarrow>
   ms_init_calls R items s = Some (s\<lparr>
     ms_calls := kv_puts (ms_calls s) (map (\<lambda>p. (call_key (fst p), fst p)) items),
     ms_unique := kv_puts (ms_unique s) (map (\<lambda>p. (GetUniqueIDKey (c_UniqueID (fst p)), c_ID (fst p))) items),
     ms_votes := kv_puts (ms_votes s) (map (\<lambda>p. (GetVotesKey (c_ID (fst p)), snd p)) (filter (\<lambda>p. snd p \<noteq> []) items))\<rparr>)"
proof (induction items arbitrary: s)
  case (Cons p items)
  then show ?case by (cases p) (simp add: StoreCall_def setCallUniqueIDMatch_def setVotes_def Let_def)
qed simp

lemma ms_init_queue_eq:
  "foldl (\<lambda>t (i, bh). addCallToQueue i bh t) s items =
   s\<lparr>ms_queue := kv_puts (ms_queue s) (map (\<lambda>p. (GetQueueKey (fst p) (snd p), fst p)) items)\<rparr>"
proof (induction items arbitrary: s)
  case (Cons p items)
  then show ?case by (cases p) (simp add: addCallToQueue_def)
qed simp

definition bigger :: "nat \<Rightarrow> nat \<Rightarrow> nat" where
  "bigger m i = (if m < i then i else m)"

lemma ms_validate_calls_ok:
  "\<lbrakk>distinct (map (c_ID \<circ> fst) items); \<forall>p \<in> set items. c_ID (fst p) \<notin> set seen \<and>
     Call_Valid h (Some (c_ID (fst p))) (Some (c_Msg (fst p))) (fst p) = Ok ()\<rbrakk> \<Longrightarrow>
   ms_validate_calls h m seen items = Ok (foldl bigger m (map (c_ID \<circ> fst) items), rev (map (c_ID \<circ> fst) items) @ seen)"
proof (induction items arbitrary: m seen)
  case (Cons p items)
  obtain c vs where p: "p = (c, vs)" by (cases p)
  have "\<forall>q \<in> set items. c_ID (fst q) \<notin> set (c_ID c # seen) \<and>
      Call_Valid h (Some (c_ID (fst q))) (Some (c_Msg (fst q))) (fst q) = Ok ()"
    using Cons.prems p by (auto simp: rev_image_eqI)
  from Cons.IH [OF _ this] Cons.prems p show ?case by (simp add: bigger_def)
qed simp

lemma foldl_max_eq: "\<lbrakk>\<forall>x \<in> set xs. x \<le> l; m \<le> l; m = l \<or> l \<in> set xs\<rbrakk> \<Longrightarrow> foldl bigger m xs = l" for l :: nat
  by (induction xs arbitrary: m) (auto simp: bigger_def)

lemma ms_validate_queue_ok:
  "\<forall>p \<in> set items. 0 \<le> snd p \<and> snd p \<le> h \<and> fst p \<in> set ids \<Longrightarrow> ms_validate_queue h ids items = Ok ()"
proof (induction items)
  case (Cons p items)
  then show ?case by (cases p) auto
qed simp

lemma call_ok_valid: "call_ok R h c \<Longrightarrow> Call_Valid h (Some i) (Some m) c = Ok ()"
  by (auto simp: call_ok_def Call_Valid_def ID_Valid_def)

lemma getCalls_iff:
  assumes "ms_inv R h s"
  shows "c \<in> set (getCalls s) \<longleftrightarrow> call_at s (c_ID c) = Some c"
  using assms kv_keyed_get_vals [of call_key "ms_calls s" c]
  by (simp add: ms_inv_def calls_inv_def getCalls_def call_at_def)

lemma getCalls_call_at: "ms_inv R h s \<Longrightarrow> c_ID ` set (getCalls s) = {i. call_at s i \<noteq> None}"
proof (intro equalityI subsetI)
  fix i assume inv: "ms_inv R h s" and "i \<in> {i. call_at s i \<noteq> None}"
  then obtain c where c: "call_at s i = Some c" by blast
  then have "c_ID c = i" using call_at_ID [OF ms_inv_calls [OF inv]] by simp
  with c show "i \<in> c_ID ` set (getCalls s)" using getCalls_iff [OF inv, of c] by blast
qed (auto simp: getCalls_iff)

lemma export_valid:
  assumes inv: "ms_inv R h s"
  shows "MsGenesis_Validate h \<lparr>mg_Interval = ms_interval s, mg_LastCallID = ms_lastID s,
    mg_CallItems = map (\<lambda>c. (c, votes_or_empty s (c_ID c))) (getCalls s),
    mg_QueueItems = map (\<lambda>i. (i, height_at s i)) (kv_vals (ms_queue s))\<rparr> = Ok ()" (is "MsGenesis_Validate h ?g = _")
proof -
  have ci: "calls_inv R h s" and iv: "MinIntervalToExecute \<le> ms_interval s" using inv by (simp_all add: ms_inv_def)
  let ?ids = "map c_ID (getCalls s)"
  have k: "kv_keyed call_key (ms_calls s)" using ci by (simp add: calls_inv_def)
  have d: "distinct ?ids" using kv_keyed_distinct [OF k] by (auto simp: getCalls_def distinct_map inj_on_def)
  have ok: "call_ok R h c" if "c \<in> set (getCalls s)" for c
    using ci that getCalls_iff [OF inv] unfolding calls_inv_def by blast
  have ids: "set ?ids = {i. call_at s i \<noteq> None}" using getCalls_call_at [OF inv] by simp
  have calls: "ms_validate_calls h 0 [] (mg_CallItems ?g) = Ok (foldl bigger 0 ?ids, rev ?ids)"
    by (subst ms_validate_calls_ok) (use d ok call_ok_valid [of R] in \<open>auto simp: comp_def\<close>)
  have queue: "ms_validate_queue h (rev ?ids) (mg_QueueItems ?g) = Ok ()"
  proof (rule ms_validate_queue_ok, intro ballI)
    fix p assume "p \<in> set (mg_QueueItems ?g)"
    then obtain i where p: "p = (i, height_at s i)" "waiting s i" using queue_vals_waiting [OF inv] by auto
    then obtain c where "call_at s i = Some c" by (auto simp: waiting_def)
    with p ms_inv_height [OF inv this] ids show "0 \<le> snd p \<and> snd p \<le> h \<and> fst p \<in> set (rev ?ids)" by simp
  qed
  show ?thesis
  proof (cases "ms_lastID s")
    case None
    with ci ids have "getCalls s = []" by (auto simp: calls_inv_def)
    with calls queue iv None show ?thesis by (simp add: MsGenesis_Validate_def)
  next
    case (Some l)
    then have l: "l \<in> set ?ids" "\<forall>i \<in> set ?ids. i \<le> l" unfolding ids using ci by (auto simp: calls_inv_def)
    then have "foldl bigger 0 ?ids = l" by (intro foldl_max_eq) blast+
    moreover have "getCalls s \<noteq> []" using l(1) by auto
    ultimately show ?thesis using calls queue iv Some by (simp add: MsGenesis_Validate_def)
  qed
qed

lemma keyed_entries: "kv_keyed key st \<Longrightarrow> map (\<lambda>x. (key x, x)) (kv_vals st) = st"
proof -
  assume k: "kv_keyed key st"
  then have "(key (snd p), snd p) = p" if "p \<in> set st" for p
    using that kv_get_iff [of st "fst p" "snd p"] by (simp add: kv_keyed_def prod_eq_iff)
  then show ?thesis unfolding kv_vals_def by (simp add: comp_def map_idI)
qed

lemma export_init:
  assumes inv: "ms_inv R h s"
  shows "Ms_InitGenesis R h \<lparr>mg_Interval = ms_interval s, mg_LastCallID = ms_lastID s,
    mg_CallItems = map (\<lambda>c. (c, votes_or_empty s (c_ID c))) (getCalls s),
    mg_QueueItems = map (\<lambda>i. (i, height_at s i)) (kv_vals (ms_queue s))\<rparr> (ms_empty iv0) = (Ok (), s)"
proof -
  have ci: "calls_inv R h s" and ui: "unique_inv s" and vi: "votes_inv s" and qi: "queue_inv s"
    using inv by (simp_all add: ms_inv_def)
  have k: "kv_keyed call_key (ms_calls s)" using ci by (simp add: calls_inv_def)
  have wf: "kv_wf (ms_calls s)" "kv_wf (ms_unique s)" "kv_wf (ms_votes s)" "kv_wf (ms_queue s)"
    using k ui vi qi by (simp_all add: kv_keyed_def unique_inv_def votes_inv_def queue_inv_def)
  let ?items = "map (\<lambda>c. (c, votes_or_empty s (c_ID c))) (getCalls s)"
  have at: "c \<in> set (getCalls s) \<longleftrightarrow> call_at s (c_ID c) = Some c" for c by (rule getCalls_iff [OF inv])
  have d: "distinct (map c_ID (getCalls s))" using kv_keyed_distinct [OF k] by (auto simp: getCalls_def distinct_map inj_on_def)
  have uniq: "c = c'" if "c \<in> set (getCalls s)" "c' \<in> set (getCalls s)" "c_UniqueID c = c_UniqueID c'" for c c'
  proof -
    have "kv_get (GetUniqueIDKey (c_UniqueID c)) (ms_unique s) = Some (c_ID c)"
      "kv_get (GetUniqueIDKey (c_UniqueID c')) (ms_unique s) = Some (c_ID c')"
      using that ui at unfolding unique_inv_def by blast+
    then show ?thesis using that at by simp
  qed
  have routes: "\<forall>p \<in> set ?items. HasRoute R (mm_Route (c_Msg (fst p)))"
    using ci at unfolding calls_inv_def call_ok_def by auto
  have calls: "kv_puts [] (map (\<lambda>p. (call_key (fst p), fst p)) ?items) = ms_calls s"
    using kv_foldl_rebuild [OF wf(1) kv_wf_distinct [OF wf(1)]] keyed_entries [OF k] by (simp add: comp_def getCalls_def)
  have unique: "kv_puts [] (map (\<lambda>p. (GetUniqueIDKey (c_UniqueID (fst p)), c_ID (fst p))) ?items) = ms_unique s"
  proof (rule kv_foldl_rebuild [OF wf(2)])
    show "distinct (map fst (map (\<lambda>p. (GetUniqueIDKey (c_UniqueID (fst p)), c_ID (fst p))) ?items))"
      using uniq d by (auto simp: comp_def distinct_map inj_on_def)
    show "set (map (\<lambda>p. (GetUniqueIDKey (c_UniqueID (fst p)), c_ID (fst p))) ?items) = set (ms_unique s)"
    proof (rule set_eqI)
      fix x
      have "x \<in> set (ms_unique s) \<longleftrightarrow> (\<exists>c. call_at s (snd x) = Some c \<and> fst x = GetUniqueIDKey (c_UniqueID c))"
        using ui unfolding unique_inv_def kv_get_iff [OF wf(2)] by (metis prod.collapse)
      also have "\<dots> \<longleftrightarrow> (\<exists>c \<in> set (getCalls s). x = (GetUniqueIDKey (c_UniqueID c), c_ID c))"
        unfolding Bex_def at prod_eq_iff fst_conv snd_conv using call_at_ID [OF ci] by metis
      finally show "x \<in> set (map (\<lambda>p. (GetUniqueIDKey (c_UniqueID (fst p)), c_ID (fst p))) ?items) \<longleftrightarrow> x \<in> set (ms_unique s)"
        by auto
    qed
  qed
  have votes: "kv_puts [] (map (\<lambda>p. (GetVotesKey (c_ID (fst p)), snd p)) (filter (\<lambda>p. snd p \<noteq> []) ?items)) = ms_votes s"
  proof (rule kv_foldl_rebuild [OF wf(3)])
    show "distinct (map fst (map (\<lambda>p. (GetVotesKey (c_ID (fst p)), snd p)) (filter (\<lambda>p. snd p \<noteq> []) ?items)))"
      using d by (auto simp: comp_def distinct_map inj_on_def filter_map)
    have e: "(GetVotesKey (c_ID c), votes_or_empty s (c_ID c)) \<in> set (ms_votes s)"
      if vc: "votes_or_empty s (c_ID c) \<noteq> []" for c
    proof -
      obtain vs where "votes_at s (c_ID c) = Some vs" "votes_or_empty s (c_ID c) = vs"
        using vc by (auto simp: votes_or_empty_at split: option.splits if_splits)
      then show ?thesis by (simp add: votes_at_def kv_get_mem)
    qed
    have "\<exists>c \<in> set (getCalls s). x = (GetVotesKey (c_ID c), votes_or_empty s (c_ID c)) \<and> votes_or_empty s (c_ID c) \<noteq> []"
      if x: "x \<in> set (ms_votes s)" for x
    proof -
      have g: "kv_get (fst x) (ms_votes s) = Some (snd x)" using x by (simp add: kv_get_iff [OF wf(3)])
      then obtain i c where i: "fst x = GetVotesKey i" "call_at s i = Some c" "snd x \<noteq> []" using vi unfolding votes_inv_def by blast
      then have "c_ID c = i" using call_at_ID [OF ci] by simp
      with g i at show ?thesis
        by (intro bexI [of _ c]) (auto simp: votes_or_empty_at votes_at_def prod_eq_iff)
    qed
    with e show "set (map (\<lambda>p. (GetVotesKey (c_ID (fst p)), snd p)) (filter (\<lambda>p. snd p \<noteq> []) ?items)) = set (ms_votes s)"
      by force
  qed
  have queue: "kv_puts [] (map (\<lambda>p. (GetQueueKey (fst p) (snd p), fst p)) (map (\<lambda>i. (i, height_at s i)) (kv_vals (ms_queue s)))) = ms_queue s"
  proof -
    have "(GetQueueKey (snd p) (height_at s (snd p)), snd p) = p" if p: "p \<in> set (ms_queue s)" for p
      by (rule queue_key_of [OF inv p]) (simp add: prod_eq_iff)
    then have "map (\<lambda>p. (GetQueueKey (fst p) (snd p), fst p)) (map (\<lambda>i. (i, height_at s i)) (kv_vals (ms_queue s))) = ms_queue s"
      by (simp add: kv_vals_def comp_def map_idI)
    then show ?thesis using kv_foldl_rebuild [OF wf(4) kv_wf_distinct [OF wf(4)]] by simp
  qed
  show ?thesis
    unfolding Ms_InitGenesis_def export_valid [OF inv] ms_init_queue_eq
    using ms_init_calls_eq [OF routes] calls unique votes queue
    by (cases "ms_lastID s") (simp_all add: ms_empty_def)
qed

section \<open>Properties\<close>





text \<open>
  A decided call stays as it is: in every later state an executed, failed or rejected call has the same
  status, and its message and unique identifier never change.
\<close>

theorem ms_final:
  assumes "ms_run S R w0 w h" and "uint_laws S" and "(ms_step S R)\<^sup>*\<^sup>* (w, h) (w', h')"
    and "call_at (mw_store w) i = Some c"
  shows "\<exists>c'. call_at (mw_store w') i = Some c' \<and> c_Msg c' = c_Msg c \<and> c_UniqueID c' = c_UniqueID c \<and>
    (c_Executed c \<or> c_Failed c \<or> c_Rejected c \<longrightarrow> call_status_of (mw_store w') c' = call_status_of (mw_store w) c)"
proof -
  have st: "(spec_step R)\<^sup>*\<^sup>* (abs_world w) (abs_world w')" using ms_steps_inv [OF assms(3,2) ms_run_inv(1) [OF assms(1,2)]] by simp
  have a: "sp_calls (abs_world w) i = Some (abs_call (mw_store w) c)" using assms(4) by (simp add: abs_calls_def)
  from spec_steps_msg [OF st a] obtain c' where c': "call_at (mw_store w') i = Some c'" "c_Msg c' = c_Msg c" "c_UniqueID c' = c_UniqueID c"
    by (auto simp: abs_calls_def abs_call_def)
  have "final_status (call_status_of (mw_store w) c)" if "c_Executed c \<or> c_Failed c \<or> c_Rejected c"
    using that by (auto simp: call_status_of_def)
  with spec_steps_status [OF st abs_status [OF assms(4)]] abs_status [OF c'(1)] c' show ?thesis by auto
qed

theorem ms_final_witness:
  "\<exists>p. call_status_of (mw_store (ex_w3 p)) ((ex_call 5)\<lparr>c_Approved := True, c_Executed := True\<rparr>) = Executed \<and>
    (\<forall>w' h'. (ms_step ref_sdk ex_router)\<^sup>*\<^sup>* (ex_w3 p, 6) (w', h') \<longrightarrow>
      (\<exists>c'. call_at (mw_store w') 0 = Some c' \<and> c_UniqueID c' = ''u'' \<and> call_status_of (mw_store w') c' = Executed))"
proof -
  obtain p where p: "ex_three p" by (rule ex_three_ex)
  let ?c = "(ex_call 5)\<lparr>c_Approved := True, c_Executed := True\<rparr>"
  have c: "call_at (mw_store (ex_w3 p)) 0 = Some ?c" by (simp add: ex_w3_def)
  have e: "call_status_of (mw_store (ex_w3 p)) ?c = Executed" by (simp add: call_status_of_def)
  show ?thesis
  proof (intro exI [of _ p] conjI allI impI)
    fix w' h' assume "(ms_step ref_sdk ex_router)\<^sup>*\<^sup>* (ex_w3 p, 6) (w', h')"
    from ms_final [OF ex_run3 [OF p] ref_uint_laws this c] e
    show "\<exists>c'. call_at (mw_store w') 0 = Some c' \<and> c_UniqueID c' = ''u'' \<and> call_status_of (mw_store w') c' = Executed" by auto
  qed (rule e)
qed

text \<open>
  C38. A call whose last confirmation is revoked is lost: it leaves the queue but stays stored and reserves its unique
  identifier; whatever the validators do afterwards, also when all of them confirm it again, it is neither executed nor
  rejected.
\<close>

theorem ms_revoked_call_lost:
  assumes "ms_run S R w0 w h" and "uint_laws S" and "RevokeConfirmation i a (mw_store w) = (Ok (), s1)"
    and "votes_or_empty (mw_store w) i = [a]" and "(ms_step S R)\<^sup>*\<^sup>* (w\<lparr>mw_store := s1\<rparr>, h) (w', h')"
  shows "\<exists>c'. call_at (mw_store w') i = Some c' \<and> \<not> c_Approved c' \<and> \<not> c_Rejected c' \<and>
    kv_get (GetUniqueIDKey (c_UniqueID c')) (ms_unique (mw_store w')) = Some i"
proof -
  have inv: "ms_inv R h (mw_store w)" using ms_run_inv(1) [OF assms(1,2)] .
  from assms(3,4) obtain c where c: "call_at (mw_store w) i = Some c" "\<not> c_Approved c" "\<not> c_Rejected c"
    and s1: "s1 = RemoveCallFromQueue i (c_Height c) (removeVotes i (mw_store w))"
    unfolding RevokeConfirmation_spec [OF inv] by (auto split: option.splits if_splits)
  have inv1: "ms_inv R h s1" unfolding s1 by (rule remove_last_vote_inv [OF inv c(1)])
  have c1: "call_at s1 i = Some c" using c(1) by (simp add: s1)
  have "abs_calls s1 = set_status i (Dormant {}) (abs_calls (mw_store w))" unfolding s1 by (rule abs_remove_last [OF inv c])
  then have st: "status_of (abs_world (w\<lparr>mw_store := s1\<rparr>)) i = Some (Dormant {})"
    using c(1) by (simp add: status_of_def set_status_def abs_calls_def)
  note fin = ms_steps_inv [OF assms(5,2)]
  then have inv': "ms_inv R h' (mw_store w')" and sp: "(spec_step R)\<^sup>*\<^sup>* (abs_world (w\<lparr>mw_store := s1\<rparr>)) (abs_world w')"
    using inv1 by auto
  from spec_steps_status [OF sp st] obtain V where d: "status_of (abs_world w') i = Some (Dormant V)"
    by (auto elim: is_dormant.elims)
  then obtain c' where c': "call_at (mw_store w') i = Some c'" "call_status_of (mw_store w') c' = Dormant V"
    by (auto simp: status_of_def abs_calls_def abs_call_def)
  moreover have "call_ok R h' c'" using inv' c'(1) by (auto simp: ms_inv_def calls_inv_def)
  ultimately have "\<not> c_Approved c'" "\<not> c_Rejected c'" by (auto simp: call_status_of_def call_ok_def Let_def split: if_splits)
  with c'(1) inv' show ?thesis by (auto simp: ms_inv_def unique_inv_def)
qed

theorem ms_revoked_call_lost_witness:
  "\<exists>p s1. RevokeConfirmation 0 ex_A (ex_s1 5) = (Ok (), s1) \<and>
    (\<forall>w' h'. (ms_step ref_sdk ex_router)\<^sup>*\<^sup>* (ex_w p s1, 5) (w', h') \<longrightarrow>
      (\<exists>c'. call_at (mw_store w') 0 = Some c' \<and> \<not> c_Approved c' \<and> \<not> c_Rejected c'))"
proof -
  obtain p where p: "ex_three p" by (rule ex_three_ex)
  have run: "ms_run ref_sdk ex_router (ex_w p (ms_empty 10)) (ex_w p (ex_s1 5)) 5" using ex_run1 [OF p, of 5] by simp
  have inv: "ms_inv ex_router 5 (ex_s1 5)" using ms_run_inv(1) [OF run ref_uint_laws] by simp
  have v: "votes_or_empty (mw_store (ex_w p (ex_s1 5))) 0 = [ex_A]" by (simp add: votes_or_empty_at ex_s1_at)
  then obtain s1 where s1: "RevokeConfirmation 0 ex_A (ex_s1 5) = (Ok (), s1)"
    by (simp add: RevokeConfirmation_spec [OF inv] ex_s1_at)
  have w: "(ex_w p (ex_s1 5))\<lparr>mw_store := s1\<rparr> = ex_w p s1" by (simp add: ex_w_def)
  show ?thesis
  proof (intro exI [of _ p] exI [of _ s1] conjI allI impI)
    fix w' h' assume "(ms_step ref_sdk ex_router)\<^sup>*\<^sup>* (ex_w p s1, 5) (w', h')"
    with ms_revoked_call_lost [OF run ref_uint_laws _ v, of s1 w' h'] s1 w
    show "\<exists>c'. call_at (mw_store w') 0 = Some c' \<and> \<not> c_Approved c' \<and> \<not> c_Rejected c'" by auto
  qed (rule s1)
qed


lemma ex_handlers_total: "handlers_total ex_router"
proof -
  have "fst (Poa_NewMsHandler m q) \<noteq> Panic" for m q
    by (cases m) (auto simp: AddValidator_def RemoveValidator_def ReplaceValidator_def poa_addValidator_def poa_removeValidator_def
      Validator_Validate_def Let_def split: prod.splits res.splits if_splits)
  then show ?thesis
    by (auto simp: handlers_total_def ex_router_def GetRoute_def note_route_def poa_route_def split: sum.splits prod.splits res.splits if_splits)
      (metis fst_conv)
qed

lemma ex_poa_kept: "poa_kept ex_router ex_s2"
  using ex_s2_at by (auto simp: poa_kept_def ex_msg_def GetRoute_def ex_router_def note_route_def split: if_splits)


text \<open>
  C25. In every reachable state the four stores agree: a unique identifier leads to exactly the call that has it,
  the votes of a call come from different addresses and are never an empty list, exactly the decided calls carry a final flag and at most one of
  executed, failed and rejected, an entry of the queue belongs to a call that is open for votes and has one, and the
  identifiers are not above the last one.
\<close>

theorem ms_consistent:
  assumes "ms_run S R w0 w h" and "uint_laws S"
  shows "(\<forall>u i. GetCallIDByUniqueID (mw_store w) u = Ok i \<longleftrightarrow> (\<exists>c. GetCall (mw_store w) i = Ok c \<and> c_UniqueID c = u)) \<and>
    (\<forall>i vs. GetVotes (mw_store w) i = Ok vs \<longrightarrow> distinct vs) \<and>
    (\<forall>i c. GetCall (mw_store w) i = Ok c \<longrightarrow> c_ID c = i \<and> i \<le> GetLastCallID (mw_store w) \<and>
       (c_Approved c \<longleftrightarrow> c_Executed c \<or> c_Failed c) \<and> \<not> (c_Executed c \<and> c_Failed c) \<and> \<not> (c_Approved c \<and> c_Rejected c)) \<and>
    (\<forall>k i. (k, i) \<in> set (ms_queue (mw_store w)) \<longrightarrow>
       (\<exists>c vs. GetCall (mw_store w) i = Ok c \<and> k = GetQueueKey i (c_Height c) \<and> CanBeVoted c = Ok () \<and>
          GetVotes (mw_store w) i = Ok vs \<and> vs \<noteq> []))"
proof (intro conjI allI impI)
  let ?s = "mw_store w"
  have inv: "ms_inv R h ?s" using ms_run_inv(1) [OF assms] .
  then have ci: "calls_inv R h ?s" and ui: "unique_inv ?s" and vi: "votes_inv ?s" and qi: "queue_inv ?s" by (simp_all add: ms_inv_def)
  have get: "GetCall ?s i = Ok c \<longleftrightarrow> call_at ?s i = Some c" for i c by (simp add: GetCall_at split: option.splits)
  have votes: "GetVotes ?s i = Ok vs \<longleftrightarrow> call_at ?s i \<noteq> None \<and> vs = votes_or_empty ?s i" for i vs
    by (auto simp: GetVotes_def HasCall_at votes_or_empty_at votes_at_def split: option.splits)
  show "GetCallIDByUniqueID ?s u = Ok i \<longleftrightarrow> (\<exists>c. GetCall ?s i = Ok c \<and> c_UniqueID c = u)" for u i
  proof -
    have "GetCallIDByUniqueID ?s u = Ok i \<longleftrightarrow> kv_get (GetUniqueIDKey u) (ms_unique ?s) = Some i"
      by (simp add: GetCallIDByUniqueID_def split: option.splits)
    also have "\<dots> \<longleftrightarrow> (\<exists>c. call_at ?s i = Some c \<and> c_UniqueID c = u)" using ui unfolding unique_inv_def by auto
    finally show ?thesis by (simp add: get)
  qed
  show "distinct vs" if "GetVotes ?s i = Ok vs" for i vs using that votes votes_or_empty_distinct [OF vi] by simp
  fix i c assume g: "GetCall ?s i = Ok c"
  then have ok: "call_ok R h c" and at: "call_at ?s i \<noteq> None" using ci by (auto simp: calls_inv_def get)
  show "c_ID c = i" using g call_at_ID [OF ci] by (simp add: get)
  show "i \<le> GetLastCallID ?s" using ci at by (auto simp: calls_inv_def GetLastCallID_def split: option.splits)
  show "c_Approved c \<longleftrightarrow> c_Executed c \<or> c_Failed c" "\<not> (c_Executed c \<and> c_Failed c)" "\<not> (c_Approved c \<and> c_Rejected c)"
    using ok by (auto simp: call_ok_def)
next
  let ?s = "mw_store w"
  have inv: "ms_inv R h ?s" using ms_run_inv(1) [OF assms] .
  fix k i assume p: "(k, i) \<in> set (ms_queue ?s)"
  obtain c where c: "call_at ?s i = Some c" "k = GetQueueKey i (c_Height c)" "waiting ?s i" using queue_key_of [OF inv p] by auto
  from c(1,3) have "queued_at ?s i (c_Height c)" by (auto simp: waiting_def)
  note q = queue_entry [OF inv this c(1)]
  then obtain vs where vs: "votes_at ?s i = Some vs" by auto
  then have "vs \<noteq> []" using inv by (auto simp: ms_inv_def votes_inv_def votes_at_def)
  with vs c q show "\<exists>c vs. GetCall ?s i = Ok c \<and> k = GetQueueKey i (c_Height c) \<and> CanBeVoted c = Ok () \<and> GetVotes ?s i = Ok vs \<and> vs \<noteq> []"
    by (auto simp: GetCall_at GetVotes_def HasCall_at votes_at_def)
qed

theorem ms_consistent_witness:
  "\<exists>p. GetCallIDByUniqueID (mw_store (ex_w p ex_s2)) ''u'' = Ok 0 \<and> distinct [ex_A, ex_B]"
proof -
  obtain p where p: "ex_three p" by (rule ex_three_ex)
  have run: "ms_run ref_sdk ex_router (ex_w p (ms_empty 10)) (ex_w p ex_s2) 5"
    using ms_run_step [OF ex_run1 [OF p, of 5] ex_step2 [OF p]] by simp
  note c = ms_consistent [OF run ref_uint_laws]
  have "GetCall (mw_store (ex_w p ex_s2)) 0 = Ok (ex_call 5)" by (simp add: GetCall_at ex_s2_at)
  moreover have "GetVotes (mw_store (ex_w p ex_s2)) 0 = Ok [ex_A, ex_B]"
    using ex_s2_at by (simp add: GetVotes_def HasCall_at votes_at_def)
  ultimately have "GetCallIDByUniqueID (mw_store (ex_w p ex_s2)) ''u'' = Ok 0" "distinct [ex_A, ex_B]"
    using c new_call_sel(2) [of 0 "''u''" ex_msg 5 ex_A] by blast+
  then show ?thesis by blast
qed

text \<open>
  C39. The export of the genesis splits the keys of the queue at the separator, which may occur in the eight bytes of the
  height: it panics exactly if a waiting call was submitted at a height with a byte 58 in its big-endian encoding.
\<close>

theorem ms_export_panics_iff:
  assumes "ms_run S R w0 w h" and "uint_laws S" and "parse_laws S"
  shows "Ms_ExportGenesis S h (mw_store w) = None \<longleftrightarrow>
    (\<exists>i c. waiting (mw_store w) i \<and> call_at (mw_store w) i = Some c \<and> CHR '':'' \<in> set (be64 (nat (c_Height c))))"
proof -
  have inv: "ms_inv R h (mw_store w)" using ms_run_inv(1) [OF assms(1,2)] .
  have "(\<exists>i \<in> set (kv_vals (ms_queue (mw_store w))). CHR '':'' \<in> set (be64 (nat (height_at (mw_store w) i)))) \<longleftrightarrow>
    (\<exists>i c. waiting (mw_store w) i \<and> call_at (mw_store w) i = Some c \<and> CHR '':'' \<in> set (be64 (nat (c_Height c))))"
    unfolding queue_vals_waiting [OF inv] by (auto simp: waiting_def)
  then show ?thesis unfolding export_spec [OF inv assms(3)] by simp
qed

theorem ms_export_panics_iff_witness:
  "\<exists>p. Ms_ExportGenesis ref_sdk 58 (mw_store (ex_w p (ex_s1 58))) = None \<and> Ms_ExportGenesis ref_sdk 5 (mw_store (ex_w p (ex_s1 5))) \<noteq> None"
proof -
  obtain p where p: "ex_three p" by (rule ex_three_ex)
  have wt: "waiting (ex_s1 h) i \<longleftrightarrow> i = 0" for h i using ex_s1_at by (auto simp: waiting_def)
  have r: "ms_run ref_sdk ex_router (ex_w p (ms_empty 10)) (ex_w p (ex_s1 58)) 58"
    "ms_run ref_sdk ex_router (ex_w p (ms_empty 10)) (ex_w p (ex_s1 5)) 5" using ex_run1 [OF p] by simp_all
  have "CHR '':'' \<in> set (be64 (nat 58))" "CHR '':'' \<notin> set (be64 (nat 5))" by (rule be64_58, rule be64_5)
  then show ?thesis
    using ms_export_panics_iff [OF r(1) ref_uint_laws ref_parse_laws] ms_export_panics_iff [OF r(2) ref_uint_laws ref_parse_laws]
    by (intro exI [of _ p]) (auto simp: wt ex_s1_at)
qed

text \<open>
  C40. Where the export returns, initialising an empty module from it at the same height succeeds and restores the whole
  store: the calls, unique identifiers, votes, queue, last identifier and interval.
\<close>

theorem ms_genesis_roundtrip:
  assumes "ms_run S R w0 w h" and "uint_laws S" and "parse_laws S" and "Ms_ExportGenesis S h (mw_store w) = Some g"
  shows "Ms_InitGenesis R h g (ms_empty iv) = (Ok (), mw_store w)"
proof -
  have inv: "ms_inv R h (mw_store w)" using ms_run_inv(1) [OF assms(1,2)] .
  from assms(4) export_init [OF inv, of iv] show ?thesis unfolding export_spec [OF inv assms(3)] by (simp split: if_splits)
qed

theorem ms_genesis_roundtrip_witness:
  "\<exists>p g. Ms_ExportGenesis ref_sdk 5 (mw_store (ex_w p (ex_s1 5))) = Some g \<and>
     Ms_InitGenesis ex_router 5 g (ms_empty 99) = (Ok (), mw_store (ex_w p (ex_s1 5)))"
proof -
  obtain p where p: "ex_three p" by (rule ex_three_ex)
  have run: "ms_run ref_sdk ex_router (ex_w p (ms_empty 10)) (ex_w p (ex_s1 5)) 5" using ex_run1 [OF p, of 5] by simp
  have inv: "ms_inv ex_router 5 (ex_s1 5)" using ms_run_inv(1) [OF run ref_uint_laws] by simp
  have wt: "waiting (ex_s1 h) i \<longleftrightarrow> i = 0" for h i using ex_s1_at by (auto simp: waiting_def)
  have "CHR '':'' \<notin> set (be64 (nat 5))" by (rule be64_5)
  then have "Ms_ExportGenesis ref_sdk 5 (ex_s1 5) \<noteq> None"
    unfolding export_spec [OF inv ref_parse_laws] queue_vals_waiting [OF inv] by (auto simp: wt ex_s1_at)
  then obtain g where "Ms_ExportGenesis ref_sdk 5 (mw_store (ex_w p (ex_s1 5))) = Some g" by auto
  with ms_genesis_roundtrip [OF run ref_uint_laws ref_parse_laws this, of 99] show ?thesis by blast
qed

end
