(* ===== verification/Currencies.thy ===== *)
theory Currencies
  imports CCStorage
begin

text \<open>
  Module \<open>x/currencies\<close>: issuing a currency (a multi-signature operation), withdrawing it to another chain, taking the
  staked coins of an account, the governance proposal that creates a currency, queries, the registered invariant and the
  genesis. The module changes the registry of currencies (\<open>x/ccstorage\<close>), the balances, and the total supply; the bank, supply and staking
  keepers are parameters.
\<close>

section \<open>Libraries\<close>

type_synonym totals = "bytes \<Rightarrow> int"

text \<open>
  \<open>raw_add\<close> is \<open>AddCoins\<close> with the coins \<open>sdk.Coins{coin}\<close>, which are not normalised; \<open>new_coins\<close> is \<open>sdk.NewCoins\<close> of
  one coin; \<open>total_add\<close> and \<open>total_sub\<close> are \<open>Add\<close> and \<open>Sub\<close> on the coins of the total supply. \<open>None\<close> is an error of
  \<open>raw_add\<close> and \<open>set_coins\<close> and a panic of the others.
\<close>

record cur_lib =
  raw_add :: "bytes \<Rightarrow> coin \<Rightarrow> ledger \<Rightarrow> ledger option"
  new_coins :: "coin \<Rightarrow> coin option"
  total_add :: "coin \<Rightarrow> totals \<Rightarrow> totals option"
  total_sub :: "coin \<Rightarrow> totals \<Rightarrow> totals option"
  get_coins :: "bytes \<Rightarrow> ledger \<Rightarrow> coin list"
  coins_sub :: "coin list \<Rightarrow> coin \<Rightarrow> coin list option"
  set_coins :: "bytes \<Rightarrow> coin list \<Rightarrow> ledger \<Rightarrow> ledger option"
  tx_hash :: "bytes \<Rightarrow> string"

definition cur_lib_laws :: "sdk \<Rightarrow> cur_lib \<Rightarrow> bool" where
  "cur_lib_laws S C \<longleftrightarrow>
     (\<forall>a c l. raw_add C a c l = (if 0 < snd c \<and> denom_valid S (fst c) then Some (credit a c l) else None)) \<and>
     (\<forall>c. 0 < snd c \<longrightarrow> new_coins C c = (if denom_valid S (fst c) then Some c else None)) \<and>
     (\<forall>c t. 0 \<le> snd c \<longrightarrow> total_add C c t =
        (if t (fst c) + snd c < 2 ^ 255 then Some (t(fst c := t (fst c) + snd c)) else None)) \<and>
     (\<forall>c t. 0 \<le> snd c \<longrightarrow> total_sub C c t =
        (if snd c \<le> t (fst c) then Some (t(fst c := t (fst c) - snd c)) else None)) \<and>
     (\<forall>a l. distinct (map fst (get_coins C a l)) \<and> (\<forall>d v. (d, v) \<in> set (get_coins C a l) \<longrightarrow> v = l a d \<and> 0 < v)) \<and>
     (\<forall>cs c. distinct (map fst cs) \<longrightarrow> c \<in> set cs \<longrightarrow> coins_sub C cs c = Some (filter (\<lambda>x. fst x \<noteq> fst c) cs)) \<and>
     (\<forall>b. tx_hash C b \<noteq> [])"

text \<open>
  The staking keeper over its own state \<open>'k\<close>. Removing the delegations of an account may pay coins back to accounts; it
  does not change the total supply.
\<close>

record 'k staking =
  is_banned :: "'k \<Rightarrow> bytes \<Rightarrow> bool"
  bond_denom :: "'k \<Rightarrow> bytes"
  lp_denom :: "'k \<Rightarrow> bytes"
  force_remove :: "bytes \<Rightarrow> 'k \<times> ledger \<Rightarrow> ('k \<times> ledger) option"
  ban_account :: "bytes \<Rightarrow> int \<Rightarrow> 'k \<Rightarrow> 'k"

section \<open>Types and keys\<close>

record Issue =
  is_Coin :: coin
  is_Payee :: bytes

record Withdraw =
  wd_ID :: ID
  wd_Coin :: coin
  wd_Spender :: bytes
  wd_PegZoneSpender :: string
  wd_PegZoneChainID :: string
  wd_Timestamp :: int
  wd_TxHash :: string

datatype cur_error =
    CurErrInternal
  | CurErrWrongDenom
  | CurErrWrongAmount
  | CurErrWrongIssueID
  | CurErrWrongWithdrawID
  | CurErrWrongPegZonePayee
  | CurErrGovInvalidProposal
  | CurErrForceUnstake
  | CurErrNulifyBalance
  | CurErrAccountBanned
  | CurErrInvalidAddress
  | CurErrInsufficientFunds
  | CurErrUnknownRequest
  | CurErrCcs ccs_error
  | CurErrGenesis string

definition Issue_Valid :: "sdk \<Rightarrow> Issue \<Rightarrow> (cur_error, unit) res" where
  "Issue_Valid S i =
     (if DenomFilter S (fst (is_Coin i)) \<noteq> Ok () then Err (CurErrGenesis ''coin: denom'')
      else if snd (is_Coin i) \<le> 0 then Err (CurErrGenesis ''coin: amount: LTE to zero'')
      else if is_Payee i = [] then Err (CurErrGenesis ''payee: empty'')
      else Ok ())"

definition NewIssue :: "coin \<Rightarrow> bytes \<Rightarrow> Issue" where
  "NewIssue coin payee = \<lparr>is_Coin = coin, is_Payee = payee\<rparr>"

text \<open>The block time is in nanoseconds, \<open>None\<close> for the zero time.\<close>

definition Withdraw_Valid :: "sdk \<Rightarrow> int option \<Rightarrow> Withdraw \<Rightarrow> (cur_error, unit) res" where
  "Withdraw_Valid S curBlockTime w =
     (if ID_Valid (Some (wd_ID w)) \<noteq> Ok () then Err (CurErrGenesis ''id'')
      else if DenomFilter S (fst (wd_Coin w)) \<noteq> Ok () then Err (CurErrGenesis ''coin: denom'')
      else if snd (wd_Coin w) \<le> 0 then Err (CurErrGenesis ''coin: amount: LTE to zero'')
      else if wd_Spender w = [] then Err (CurErrGenesis ''spender: empty'')
      else if wd_PegZoneSpender w = [] then Err (CurErrGenesis ''pegzone_spender: empty'')
      else if wd_Timestamp w \<le> 0 then Err (CurErrGenesis ''timestamp: invalid'')
      else if wd_TxHash w = [] then Err (CurErrGenesis ''tx_hash: empty'')
      else (case curBlockTime of
              None \<Rightarrow> Ok ()
            | Some t \<Rightarrow> if t < wd_Timestamp w * 1000000000 then Err (CurErrGenesis ''timestamp: is after current blockTime'') else Ok ()))"

definition NewWithdraw :: "cur_lib \<Rightarrow> ID \<Rightarrow> coin \<Rightarrow> bytes \<Rightarrow> string \<Rightarrow> string \<Rightarrow> int \<Rightarrow> bytes \<Rightarrow> Withdraw" where
  "NewWithdraw C i coin spender pzSpender pzChainID timestamp txBytes =
     \<lparr>wd_ID = i, wd_Coin = coin, wd_Spender = spender, wd_PegZoneSpender = pzSpender, wd_PegZoneChainID = pzChainID,
      wd_Timestamp = timestamp, wd_TxHash = tx_hash C txBytes\<rparr>"

definition GetIssuesKey :: "string \<Rightarrow> bytes" where
  "GetIssuesKey i = join_with (CHR '':'') [''issue'', i]"

definition MustParseIssueKey :: "bytes \<Rightarrow> string option" where
  "MustParseIssueKey key =
     (let values = split_on (CHR '':'') key in
      if length values \<noteq> 2 then None
      else if values ! 0 \<noteq> ''issue'' then None
      else Some (values ! 1))"

definition GetWithdrawKey :: "ID \<Rightarrow> bytes" where
  "GetWithdrawKey i = join_with (CHR '':'') [''withdraw'', ID_String i]"

section \<open>Keeper\<close>

record 'k cur_state =
  cu_issues :: "Issue kv"
  cu_withdraws :: "Withdraw kv"
  cu_lastWithdraw :: "ID option"
  cu_ccs :: ccs_state
  cu_ledger :: ledger
  cu_supply :: totals
  cu_staking :: 'k

definition HasIssue :: "'k cur_state \<Rightarrow> string \<Rightarrow> bool" where
  "HasIssue s i = kv_has (GetIssuesKey i) (cu_issues s)"

definition GetIssue :: "'k cur_state \<Rightarrow> string \<Rightarrow> (cur_error, Issue) res" where
  "GetIssue s i = (case kv_get (GetIssuesKey i) (cu_issues s) of None \<Rightarrow> Err CurErrWrongIssueID | Some x \<Rightarrow> Ok x)"

definition storeIssue :: "string \<Rightarrow> Issue \<Rightarrow> 'k cur_state \<Rightarrow> 'k cur_state" where
  "storeIssue i x s = s\<lparr>cu_issues := kv_set (GetIssuesKey i) x (cu_issues s)\<rparr>"

fun genesis_issues :: "Issue kv \<Rightarrow> (Issue \<times> string) list option" where
  "genesis_issues [] = Some []"
| "genesis_issues ((k, x) # st) =
     Option.bind (MustParseIssueKey k) (\<lambda>i. Option.bind (genesis_issues st) (\<lambda>xs. Some ((x, i) # xs)))"

definition GetGenesisIssues :: "'k cur_state \<Rightarrow> (Issue \<times> string) list option" where
  "GetGenesisIssues s = genesis_issues (cu_issues s)"

text \<open>The deferred \<open>recover\<close> turns a panic into an error.\<close>

definition recovered :: "('s, cur_error, 'a) op \<Rightarrow> ('s, cur_error, 'a) op" where
  "recovered m s = (case m s of (Panic, s') \<Rightarrow> (Err CurErrInternal, s') | (r, s') \<Rightarrow> (r, s'))"

definition issue_body ::
  "sdk \<Rightarrow> vm_lib \<Rightarrow> cur_lib \<Rightarrow> 'k staking \<Rightarrow> string \<Rightarrow> coin \<Rightarrow> bytes \<Rightarrow> ('k cur_state, cur_error, unit) op" where
  "issue_body S L C K i coin payee s =
     (if is_banned K (cu_staking s) payee then (Err CurErrAccountBanned, s)
      else if HasIssue s i then (Err CurErrWrongIssueID, s)
      else
        (case GetCurrency (cu_ccs s) (fst coin) of
           Err e \<Rightarrow> (Err (CurErrCcs e), s)
         | Panic \<Rightarrow> (Panic, s)
         | Ok _ \<Rightarrow>
             let s1 = storeIssue i (NewIssue coin payee) s in
             (case raw_add C payee coin (cu_ledger s1) of
                None \<Rightarrow> (Err CurErrInternal, s1)
              | Some l \<Rightarrow>
                  let s2 = s1\<lparr>cu_ledger := l\<rparr> in
                  (case IncreaseCurrencySupply S L coin (cu_ccs s2) of
                     (Err e, ccs) \<Rightarrow> (Err (CurErrCcs e), s2\<lparr>cu_ccs := ccs\<rparr>)
                   | (Panic, ccs) \<Rightarrow> (Panic, s2\<lparr>cu_ccs := ccs\<rparr>)
                   | (Ok _, ccs) \<Rightarrow>
                       let s3 = s2\<lparr>cu_ccs := ccs\<rparr> in
                       (case total_add C coin (cu_supply s3) of
                          None \<Rightarrow> (Panic, s3)
                        | Some t \<Rightarrow> (Ok (), s3\<lparr>cu_supply := t\<rparr>))))))"

definition IssueCurrency ::
  "sdk \<Rightarrow> vm_lib \<Rightarrow> cur_lib \<Rightarrow> 'k staking \<Rightarrow> string \<Rightarrow> coin \<Rightarrow> bytes \<Rightarrow> ('k cur_state, cur_error, unit) op" where
  "IssueCurrency S L C K i coin payee = recovered (issue_body S L C K i coin payee)"

definition HasWithdraw :: "'k cur_state \<Rightarrow> ID \<Rightarrow> bool" where
  "HasWithdraw s i = kv_has (GetWithdrawKey i) (cu_withdraws s)"

definition GetWithdraw :: "'k cur_state \<Rightarrow> ID \<Rightarrow> (cur_error, Withdraw) res" where
  "GetWithdraw s i = (case kv_get (GetWithdrawKey i) (cu_withdraws s) of None \<Rightarrow> Err CurErrWrongWithdrawID | Some w \<Rightarrow> Ok w)"

definition getWithdraws :: "'k cur_state \<Rightarrow> Withdraw list" where
  "getWithdraws s = kv_vals (cu_withdraws s)"

definition storeWithdraw :: "Withdraw \<Rightarrow> 'k cur_state \<Rightarrow> 'k cur_state" where
  "storeWithdraw w s = s\<lparr>cu_withdraws := kv_set (GetWithdrawKey (wd_ID w)) w (cu_withdraws s)\<rparr>"

definition getNextWithdrawID :: "sdk \<Rightarrow> 'k cur_state \<Rightarrow> ID option" where
  "getNextWithdrawID S s = incr_id S (cu_lastWithdraw s)"

text \<open>The time and the bytes of the transaction come from the context.\<close>

definition withdraw_body ::
  "sdk \<Rightarrow> vm_lib \<Rightarrow> cur_lib \<Rightarrow> bank \<Rightarrow> int \<Rightarrow> bytes \<Rightarrow> coin \<Rightarrow> bytes \<Rightarrow> string \<Rightarrow> string \<Rightarrow> ('k cur_state, cur_error, unit) op" where
  "withdraw_body S L C B time txBytes coin spender recipient chainID s =
     (case GetCurrency (cu_ccs s) (fst coin) of
        Err e \<Rightarrow> (Err (CurErrCcs e), s)
      | Panic \<Rightarrow> (Panic, s)
      | Ok _ \<Rightarrow>
          (case getNextWithdrawID S s of
             None \<Rightarrow> (Panic, s)
           | Some newId \<Rightarrow>
               let s1 = (storeWithdraw (NewWithdraw C newId coin spender recipient chainID time txBytes) s)\<lparr>cu_lastWithdraw := Some newId\<rparr> in
               (case new_coins C coin of
                  None \<Rightarrow> (Panic, s1)
                | Some newCoins \<Rightarrow>
                    (case sub_coins B spender newCoins (cu_ledger s1) of
                       None \<Rightarrow> (Err CurErrInsufficientFunds, s1)
                     | Some l \<Rightarrow>
                         let s2 = s1\<lparr>cu_ledger := l\<rparr> in
                         (case DecreaseCurrencySupply S L coin (cu_ccs s2) of
                            (Err e, ccs) \<Rightarrow> (Err (CurErrCcs e), s2\<lparr>cu_ccs := ccs\<rparr>)
                          | (Panic, ccs) \<Rightarrow> (Panic, s2\<lparr>cu_ccs := ccs\<rparr>)
                          | (Ok _, ccs) \<Rightarrow>
                              let s3 = s2\<lparr>cu_ccs := ccs\<rparr> in
                              (case total_sub C newCoins (cu_supply s3) of
                                 None \<Rightarrow> (Panic, s3)
                               | Some t \<Rightarrow> (Ok (), s3\<lparr>cu_supply := t\<rparr>)))))))"

definition WithdrawCurrency ::
  "sdk \<Rightarrow> vm_lib \<Rightarrow> cur_lib \<Rightarrow> bank \<Rightarrow> int \<Rightarrow> bytes \<Rightarrow> coin \<Rightarrow> bytes \<Rightarrow> string \<Rightarrow> string \<Rightarrow> ('k cur_state, cur_error, unit) op" where
  "WithdrawCurrency S L C B time txBytes coin spender recipient chainID =
     recovered (withdraw_body S L C B time txBytes coin spender recipient chainID)"

text \<open>
  The loop of the paginated query; an identifier that does not parse would panic (\<open>None\<close>), a missing withdraw ends it.
\<close>

function withdraws_loop :: "sdk \<Rightarrow> 'k cur_state \<Rightarrow> nat \<Rightarrow> nat \<Rightarrow> Withdraw list option" where
  "withdraws_loop S s startID endID =
     (if startID < endID then
        (case NewIDFromString S (dec_digits startID) of
           Ok i \<Rightarrow>
             (case GetWithdraw s i of
                Ok w \<Rightarrow> map_option (Cons w) (withdraws_loop S s (startID + 1) endID)
              | _ \<Rightarrow> Some [])
         | _ \<Rightarrow> None)
      else Some [])"
  by pat_completeness auto
termination by (relation "measure (\<lambda>(S, s, a, b). b - a)") auto

declare withdraws_loop.simps [simp del]

definition GetWithdrawsFiltered :: "sdk \<Rightarrow> 'k cur_state \<Rightarrow> nat \<Rightarrow> nat \<Rightarrow> Withdraw list option" where
  "GetWithdrawsFiltered S s page limit =
     Option.bind (if 0 < page then uint_sub S page 1 else Some page) (\<lambda>page'.
     Option.bind (uint_mul S page' limit) (\<lambda>startID.
     Option.bind (uint_add S startID limit) (\<lambda>endID. withdraws_loop S s startID endID)))"

text \<open>The loop over the balances of the account: what is left of them, the registry and the supply.\<close>

fun unstake_loop ::
  "sdk \<Rightarrow> vm_lib \<Rightarrow> cur_lib \<Rightarrow> bytes \<Rightarrow> bytes \<Rightarrow> coin list \<Rightarrow>
   coin list \<times> totals \<Rightarrow> (ccs_state, cur_error, coin list \<times> totals) op" where
  "unstake_loop S L C sd ld [] (balances, supply) ccs = (Ok (balances, supply), ccs)"
| "unstake_loop S L C sd ld (balance # bs) (balances, supply) ccs =
     (if fst balance = sd \<or> fst balance = ld then
        (case coins_sub C balances balance of
           None \<Rightarrow> (Panic, ccs)
         | Some balances' \<Rightarrow>
             (case DecreaseCurrencySupply S L balance ccs of
                (Err e, ccs') \<Rightarrow> (Err CurErrInternal, ccs')
              | (Panic, ccs') \<Rightarrow> (Panic, ccs')
              | (Ok _, ccs') \<Rightarrow>
                  (case total_sub C balance supply of
                     None \<Rightarrow> (Panic, ccs')
                   | Some supply' \<Rightarrow> unstake_loop S L C sd ld bs (balances', supply') ccs')))
      else unstake_loop S L C sd ld bs (balances, supply) ccs)"

definition UnstakeCurrency ::
  "sdk \<Rightarrow> vm_lib \<Rightarrow> cur_lib \<Rightarrow> 'k staking \<Rightarrow> int \<Rightarrow> bytes \<Rightarrow> ('k cur_state, cur_error, unit) op" where
  "UnstakeCurrency S L C K blockHeight staker s =
     (let sd = bond_denom K (cu_staking s); ld = lp_denom K (cu_staking s) in
      case force_remove K staker (cu_staking s, cu_ledger s) of
        None \<Rightarrow> (Err CurErrForceUnstake, s)
      | Some (k, l) \<Rightarrow>
          let s1 = s\<lparr>cu_staking := k, cu_ledger := l\<rparr>;
              balances = get_coins C staker l in
          (case unstake_loop S L C sd ld balances (balances, cu_supply s1) (cu_ccs s1) of
             (Err e, ccs) \<Rightarrow> (Err e, s1\<lparr>cu_ccs := ccs\<rparr>)
           | (Panic, ccs) \<Rightarrow> (Panic, s1\<lparr>cu_ccs := ccs\<rparr>)
           | (Ok (rest, supply), ccs) \<Rightarrow>
               let s2 = s1\<lparr>cu_ccs := ccs\<rparr> in
               (case set_coins C staker rest (cu_ledger s2) of
                  None \<Rightarrow> (Err CurErrNulifyBalance, s2)
                | Some l' \<Rightarrow>
                    (Ok (), s2\<lparr>cu_ledger := l', cu_supply := supply, cu_staking := ban_account K staker blockHeight (cu_staking s2)\<rparr>))))"

definition Cur_CreateCurrency :: "vm_lib \<Rightarrow> CurrencyParams \<Rightarrow> ('k cur_state, ccs_error, unit) op" where
  "Cur_CreateCurrency L params s = (case CreateCurrency L params (cu_ccs s) of (r, ccs) \<Rightarrow> (r, s\<lparr>cu_ccs := ccs\<rparr>))"

section \<open>Inflation\<close>

text \<open>
  At the beginning of a block the amounts of the mint events of the SDK are added to the registry; \<open>parse\<close> is \<open>sdk.NewIntFromString\<close>.
\<close>

definition MintDenom :: string where
  "MintDenom = ''xfi''"

definition MintEventType :: string where
  "MintEventType = ''mint''"

fun mint_events :: "sdk \<Rightarrow> vm_lib \<Rightarrow> (string \<Rightarrow> int option) \<Rightarrow> sdk_event list \<Rightarrow> (ccs_state, cur_error, unit) op" where
  "mint_events S L parse [] ccs = (Ok (), ccs)"
| "mint_events S L parse (event # es) ccs =
     (if fst event = MintEventType then
        (case map_of (snd event) ''amount'' of
           None \<Rightarrow> mint_events S L parse es ccs
         | Some v \<Rightarrow>
             (case Option.bind (parse v) (new_coin S MintDenom) of
                None \<Rightarrow> (Panic, ccs)
              | Some coin \<Rightarrow>
                  (case IncreaseCurrencySupply S L coin ccs of
                     (Ok _, ccs') \<Rightarrow> mint_events S L parse es ccs'
                   | (_, ccs') \<Rightarrow> (Panic, ccs'))))
      else mint_events S L parse es ccs)"

definition Cur_BeginBlocker ::
  "sdk \<Rightarrow> vm_lib \<Rightarrow> (string \<Rightarrow> int option) \<Rightarrow> int \<Rightarrow> sdk_event list \<Rightarrow> ('k cur_state, cur_error, unit) op" where
  "Cur_BeginBlocker S L parse blockHeight events s =
     (if 1 < blockHeight then (case mint_events S L parse events (cu_ccs s) of (r, ccs) \<Rightarrow> (r, s\<lparr>cu_ccs := ccs\<rparr>))
      else (Ok (), s))"

section \<open>Messages and proposals\<close>

datatype cur_ms_msg =
    MsgIssueCurrency string coin bytes
  | MsgUnstakeCurrency string bytes

record MsgWithdrawCurrency =
  mwc_Coin :: coin
  mwc_Payer :: bytes
  mwc_PegZonePayee :: string
  mwc_PegZoneChainID :: string

definition MsgIssueCurrency_ValidateBasic :: "sdk \<Rightarrow> string \<Rightarrow> coin \<Rightarrow> bytes \<Rightarrow> (cur_error, unit) res" where
  "MsgIssueCurrency_ValidateBasic S i coin payee =
     (if length i = 0 then Err CurErrWrongIssueID
      else if DenomFilter S (fst coin) \<noteq> Ok () then Err CurErrWrongDenom
      else if snd coin \<le> 0 then Err CurErrWrongAmount
      else if payee = [] then Err CurErrInvalidAddress
      else Ok ())"

definition MsgUnstakeCurrency_ValidateBasic :: "string \<Rightarrow> bytes \<Rightarrow> (cur_error, unit) res" where
  "MsgUnstakeCurrency_ValidateBasic i staker =
     (if length i = 0 then Err CurErrWrongIssueID else if staker = [] then Err CurErrInvalidAddress else Ok ())"

definition MsgWithdrawCurrency_ValidateBasic :: "sdk \<Rightarrow> MsgWithdrawCurrency \<Rightarrow> (cur_error, unit) res" where
  "MsgWithdrawCurrency_ValidateBasic S m =
     (if DenomFilter S (fst (mwc_Coin m)) \<noteq> Ok () then Err CurErrWrongDenom
      else if snd (mwc_Coin m) \<le> 0 then Err CurErrWrongAmount
      else if mwc_Payer m = [] then Err CurErrInvalidAddress
      else if mwc_PegZonePayee m = [] then Err CurErrWrongPegZonePayee
      else Ok ())"

definition handleMsgWithdraw ::
  "sdk \<Rightarrow> vm_lib \<Rightarrow> cur_lib \<Rightarrow> bank \<Rightarrow> int \<Rightarrow> bytes \<Rightarrow> MsgWithdrawCurrency \<Rightarrow> ('k cur_state, cur_error, unit) op" where
  "handleMsgWithdraw S L C B time txBytes m =
     WithdrawCurrency S L C B time txBytes (mwc_Coin m) (mwc_Payer m) (mwc_PegZonePayee m) (mwc_PegZoneChainID m)"

definition handleMsMsgIssueCurrency ::
  "sdk \<Rightarrow> vm_lib \<Rightarrow> cur_lib \<Rightarrow> 'k staking \<Rightarrow> string \<Rightarrow> coin \<Rightarrow> bytes \<Rightarrow> ('k cur_state, cur_error, unit) op" where
  "handleMsMsgIssueCurrency S L C K i coin payee = IssueCurrency S L C K i coin payee"

definition handleMsMsgUnstakeCurrency ::
  "sdk \<Rightarrow> vm_lib \<Rightarrow> cur_lib \<Rightarrow> 'k staking \<Rightarrow> int \<Rightarrow> bytes \<Rightarrow> ('k cur_state, cur_error, unit) op" where
  "handleMsMsgUnstakeCurrency S L C K blockHeight staker = UnstakeCurrency S L C K blockHeight staker"

fun Cur_NewMsHandler ::
  "sdk \<Rightarrow> vm_lib \<Rightarrow> cur_lib \<Rightarrow> 'k staking \<Rightarrow> int \<Rightarrow> cur_ms_msg \<Rightarrow> ('k cur_state, cur_error, unit) op" where
  "Cur_NewMsHandler S L C K h (MsgIssueCurrency i coin payee) s = handleMsMsgIssueCurrency S L C K i coin payee s"
| "Cur_NewMsHandler S L C K h (MsgUnstakeCurrency i staker) s = handleMsMsgUnstakeCurrency S L C K h staker s"

record AddCurrencyProposal =
  acp_Denom :: string
  acp_Decimals :: "8 word"
  acp_VmBalancePathHex :: string
  acp_VmInfoPathHex :: string
  acp_ContractAddress :: string

definition GetCurrencyParams :: "AddCurrencyProposal \<Rightarrow> CurrencyParams" where
  "GetCurrencyParams p = \<lparr>cp_Denom = acp_Denom p, cp_Decimals = acp_Decimals p, cp_ContractAddress = []\<rparr>"

definition AddCurrencyProposal_ValidateBasic :: "sdk \<Rightarrow> AddCurrencyProposal \<Rightarrow> (cur_error, unit) res" where
  "AddCurrencyProposal_ValidateBasic S p =
     (if DenomFilter S (acp_Denom p) \<noteq> Ok () then Err CurErrWrongDenom
      else if CurrencyParams_Validate S (GetCurrencyParams p) \<noteq> Ok () then Err CurErrWrongDenom
      else Ok ())"

definition handleAddCurrencyProposal :: "vm_lib \<Rightarrow> AddCurrencyProposal \<Rightarrow> ('k cur_state, cur_error, unit) op" where
  "handleAddCurrencyProposal L p s =
     (case Cur_CreateCurrency L (GetCurrencyParams p) s of
        (Ok _, s') \<Rightarrow> (Ok (), s')
      | (Err _, s') \<Rightarrow> (Err CurErrGovInvalidProposal, s')
      | (Panic, s') \<Rightarrow> (Panic, s'))"

section \<open>The registered invariant\<close>

fun currencies_totals :: "sdk \<Rightarrow> cur_lib \<Rightarrow> Currency list \<Rightarrow> totals \<Rightarrow> totals option" where
  "currencies_totals S C [] t = Some t"
| "currencies_totals S C (c # cs) t =
     Option.bind (GetSupplyCoin S c) (\<lambda>coin. Option.bind (total_add C coin t) (currencies_totals S C cs))"

text \<open>The result is whether the invariant is broken; \<open>None\<close> is a panic.\<close>

definition TotalSupply :: "sdk \<Rightarrow> cur_lib \<Rightarrow> 'k cur_state \<Rightarrow> bool option" where
  "TotalSupply S C s =
     map_option (\<lambda>currenciesCoins. let supplyCoins = cu_supply s in \<not> (currenciesCoins = currenciesCoins))
       (currencies_totals S C (GetCurrencies (cu_ccs s)) (\<lambda>_. 0))"

section \<open>Genesis\<close>

record cur_genesis =
  cg_Issues :: "(Issue \<times> string) list"
  cg_Withdraws :: "Withdraw list"
  cg_LastWithdrawID :: "ID option"

definition GenesisIssue_Valid :: "sdk \<Rightarrow> Issue \<times> string \<Rightarrow> (cur_error, unit) res" where
  "GenesisIssue_Valid S x =
     bind_res (Issue_Valid S (fst x)) (\<lambda>_. if snd x = [] then Err (CurErrGenesis ''id: empty'') else Ok ())"

fun validate_issues :: "sdk \<Rightarrow> string list \<Rightarrow> (Issue \<times> string) list \<Rightarrow> (cur_error, unit) res" where
  "validate_issues S seen [] = Ok ()"
| "validate_issues S seen (x # xs) =
     bind_res (GenesisIssue_Valid S x) (\<lambda>_.
       if snd x \<in> set seen then Err (CurErrGenesis ''duplicated ID'') else validate_issues S (snd x # seen) xs)"

fun validate_withdraws :: "sdk \<Rightarrow> int option \<Rightarrow> ID \<Rightarrow> ID list \<Rightarrow> Withdraw list \<Rightarrow> (cur_error, ID) res" where
  "validate_withdraws S t maxID seen [] = Ok maxID"
| "validate_withdraws S t maxID seen (w # ws) =
     bind_res (Withdraw_Valid S t w) (\<lambda>_.
       if wd_ID w \<in> set seen then Err (CurErrGenesis ''duplicated ID'')
       else validate_withdraws S t (if maxID < wd_ID w then wd_ID w else maxID) (wd_ID w # seen) ws)"

definition CurGenesis_Validate :: "sdk \<Rightarrow> int option \<Rightarrow> cur_genesis \<Rightarrow> (cur_error, unit) res" where
  "CurGenesis_Validate S t g =
     bind_res (validate_issues S [] (cg_Issues g)) (\<lambda>_.
     bind_res (validate_withdraws S t 0 [] (cg_Withdraws g)) (\<lambda>maxID.
       case cg_LastWithdrawID g of
         None \<Rightarrow> if cg_Withdraws g \<noteq> [] then Err (CurErrGenesis ''last_withdraw_id: nil with existing withdraws'') else Ok ()
       | Some l \<Rightarrow>
           if cg_Withdraws g = [] then Err (CurErrGenesis ''last_withdraw_id: not nil without existing withdraws'')
           else if l \<noteq> maxID then Err (CurErrGenesis ''last_withdraw_id: not equal to max withdraw ID'')
           else Ok ()))"

fun init_issues :: "(Issue \<times> string) list \<Rightarrow> 'k cur_state \<Rightarrow> 'k cur_state option" where
  "init_issues [] s = Some s"
| "init_issues (x # xs) s =
     (if HasCurrency (cu_ccs s) (fst (is_Coin (fst x))) then init_issues xs (storeIssue (snd x) (fst x) s) else None)"

fun init_withdraws :: "Withdraw list \<Rightarrow> 'k cur_state \<Rightarrow> 'k cur_state option" where
  "init_withdraws [] s = Some s"
| "init_withdraws (w # ws) s =
     (if HasCurrency (cu_ccs s) (fst (wd_Coin w)) then init_withdraws ws (storeWithdraw w s) else None)"

definition Cur_InitGenesis :: "sdk \<Rightarrow> int option \<Rightarrow> cur_genesis \<Rightarrow> 'k cur_state \<Rightarrow> 'k cur_state option" where
  "Cur_InitGenesis S t g s =
     (case CurGenesis_Validate S t g of
        Ok _ \<Rightarrow>
          let s1 = (case cg_LastWithdrawID g of None \<Rightarrow> s | Some l \<Rightarrow> s\<lparr>cu_lastWithdraw := Some l\<rparr>) in
          Option.bind (init_issues (cg_Issues g) s1) (init_withdraws (cg_Withdraws g))
      | _ \<Rightarrow> None)"

definition Cur_ExportGenesis :: "'k cur_state \<Rightarrow> cur_genesis option" where
  "Cur_ExportGenesis s =
     map_option (\<lambda>issues. \<lparr>cg_Issues = issues, cg_Withdraws = getWithdraws s, cg_LastWithdrawID = cu_lastWithdraw s\<rparr>)
       (GetGenesisIssues s)"

end
