(* ===== verification/Currencies_Props.thy ===== *)
theory Currencies_Props
  imports Currencies
begin

text \<open>
  Properties of \<open>x/currencies\<close>: the supply in the registry of currencies and the total supply of the supply module
  agree in every reachable state, an issue happens once, withdrawing undoes issuing, the pages of withdraws, and the
  genesis.
\<close>

section \<open>The registry of supplies\<close>

text \<open>
  What the module relies on of the registry: its two operations add to and subtract from the supply of one
  denomination.
\<close>

definition ok_state :: "('e, 'a) res \<times> 's \<Rightarrow> 's option" where
  "ok_state r = (case r of (Ok _, s) \<Rightarrow> Some s | _ \<Rightarrow> None)"

locale supply_registry =
  fixes supply_of :: "'s \<Rightarrow> totals"
    and inv :: "'s \<Rightarrow> bool"
    and incr :: "coin \<Rightarrow> 's \<Rightarrow> 's option"
    and decr :: "coin \<Rightarrow> 's \<Rightarrow> 's option"
  assumes incr_supply: "\<lbrakk>inv s; incr c s = Some s'\<rbrakk> \<Longrightarrow> supply_of s' = (supply_of s)(fst c := supply_of s (fst c) + snd c)"
    and decr_supply: "\<lbrakk>inv s; decr c s = Some s'\<rbrakk> \<Longrightarrow> supply_of s' = (supply_of s)(fst c := supply_of s (fst c) - snd c)"
    and incr_inv: "\<lbrakk>inv s; incr c s = Some s'\<rbrakk> \<Longrightarrow> inv s'"
    and decr_inv: "\<lbrakk>inv s; decr c s = Some s'\<rbrakk> \<Longrightarrow> inv s'"
begin

lemma incr_decr: "\<lbrakk>inv s; incr c s = Some s'; decr c s' = Some s''\<rbrakk> \<Longrightarrow> supply_of s'' = supply_of s"
  using incr_supply [of s c s'] decr_supply [of s' c s''] incr_inv [of s c s'] by simp

lemma incr_agrees: "\<lbrakk>inv s; incr c s = Some s'; t = supply_of s; t' = t(fst c := t (fst c) + snd c)\<rbrakk> \<Longrightarrow> t' = supply_of s'"
  using incr_supply by simp

lemma decr_agrees: "\<lbrakk>inv s; decr c s = Some s'; t = supply_of s; t' = t(fst c := t (fst c) - snd c)\<rbrakk> \<Longrightarrow> t' = supply_of s'"
  using decr_supply by simp

end

definition registry_supply :: "ccs_state \<Rightarrow> totals" where
  "registry_supply s d = (case GetCurrency s d of Ok c \<Rightarrow> cur_Supply c | _ \<Rightarrow> 0)"

lemma change_supply_registry:
  assumes inv: "ccs_inv L s" and f: "\<And>a b v. f a b = Some v \<Longrightarrow> v = g a b" and r: "change_supply f L coin s = (Ok (), s')"
  shows "registry_supply s' = (registry_supply s)(fst coin := g (registry_supply s (fst coin)) (snd coin))"
proof (rule ext)
  fix d
  from change_supply_Ok [OF r] obtain c v where c: "GetCurrency s (fst coin) = Ok c" "f (cur_Supply c) (snd coin) = Some v" by metis
  show "registry_supply s' d = ((registry_supply s)(fst coin := g (registry_supply s (fst coin)) (snd coin))) d"
    using change_supply_GetCurrency [OF inv r, of d] c f [OF c(2)] by (auto simp: registry_supply_def split: res.splits)
qed

abbreviation registry_inv :: "sdk \<Rightarrow> vm_lib \<Rightarrow> ccs_state \<Rightarrow> bool" where
  "registry_inv S L s \<equiv> int_laws S \<and> vm_lib_laws L \<and> ccs_inv L s"

interpretation reg: supply_registry registry_supply "registry_inv S L"
  "\<lambda>c s. ok_state (IncreaseCurrencySupply S L c s)" "\<lambda>c s. ok_state (DecreaseCurrencySupply S L c s)" for S L
proof (unfold_locales, goal_cases)
  case (1 s c s')
  then have "change_supply (int_add S) L c s = (Ok (), s')"
    by (auto simp: ok_state_def IncreaseCurrencySupply_def split: prod.splits res.splits)
  with 1 change_supply_registry [of L s "int_add S" "(+)"] show ?case by (auto simp: int_laws_def within_Some_iff)
next
  case (2 s c s')
  then have "change_supply (int_sub S) L c s = (Ok (), s')"
    by (auto simp: ok_state_def DecreaseCurrencySupply_def split: prod.splits res.splits)
  with 2 change_supply_registry [of L s "int_sub S" "(-)"] show ?case by (auto simp: int_laws_def within_Some_iff)
next
  case (3 s c s')
  then show ?case
    by (auto simp: ok_state_def IncreaseCurrencySupply_def split: prod.splits res.splits intro: change_supply_inv)
next
  case (4 s c s')
  then show ?case
    by (auto simp: ok_state_def DecreaseCurrencySupply_def split: prod.splits res.splits intro: change_supply_inv)
qed

lemma ok_state_Ok [simp]: "ok_state (Ok x, s) = Some s"
  by (simp add: ok_state_def)

section \<open>What the operations do\<close>

lemma recovered_Ok [simp]: "recovered m s = (Ok x, s') \<longleftrightarrow> m s = (Ok x, s')"
  by (auto simp: recovered_def split: prod.splits res.splits)

lemma recovered_not_Panic: "fst (recovered m s) \<noteq> Panic"
  by (auto simp: recovered_def split: prod.splits res.splits)

lemma IssueCurrency_Ok:
  assumes "IssueCurrency S L C K i coin payee s = (Ok (), s')"
  obtains l ccs t where "\<not> is_banned K (cu_staking s) payee" "\<not> HasIssue s i" "HasCurrency (cu_ccs s) (fst coin)"
    "raw_add C payee coin (cu_ledger s) = Some l" "IncreaseCurrencySupply S L coin (cu_ccs s) = (Ok (), ccs)"
    "total_add C coin (cu_supply s) = Some t"
    "s' = s\<lparr>cu_issues := kv_set (GetIssuesKey i) (NewIssue coin payee) (cu_issues s), cu_ledger := l, cu_ccs := ccs, cu_supply := t\<rparr>"
  using assms
  by (auto simp: IssueCurrency_def issue_body_def storeIssue_def Let_def HasCurrency_iff
    split: if_splits res.splits option.splits prod.splits)

lemma WithdrawCurrency_Ok:
  assumes "WithdrawCurrency S L C B time tx coin spender rcpt chain s = (Ok (), s')"
  obtains i cs l ccs t where "HasCurrency (cu_ccs s) (fst coin)" "getNextWithdrawID S s = Some i" "new_coins C coin = Some cs"
    "sub_coins B spender cs (cu_ledger s) = Some l" "DecreaseCurrencySupply S L coin (cu_ccs s) = (Ok (), ccs)"
    "total_sub C cs (cu_supply s) = Some t"
    "s' = s\<lparr>cu_withdraws := kv_set (GetWithdrawKey i) (NewWithdraw C i coin spender rcpt chain time tx) (cu_withdraws s),
       cu_lastWithdraw := Some i, cu_ledger := l, cu_ccs := ccs, cu_supply := t\<rparr>"
  using assms
  by (auto simp: WithdrawCurrency_def withdraw_body_def storeWithdraw_def Let_def HasCurrency_iff NewWithdraw_def
    split: if_splits res.splits option.splits prod.splits)

lemma raw_add_law: "cur_lib_laws S C \<Longrightarrow> raw_add C a c l = (if 0 < snd c \<and> denom_valid S (fst c) then Some (credit a c l) else None)"
  and new_coins_law: "\<lbrakk>cur_lib_laws S C; 0 < snd c\<rbrakk> \<Longrightarrow> new_coins C c = (if denom_valid S (fst c) then Some c else None)"
  and total_add_law: "\<lbrakk>cur_lib_laws S C; 0 \<le> snd c\<rbrakk> \<Longrightarrow>
    total_add C c t = (if t (fst c) + snd c < 2 ^ 255 then Some (t(fst c := t (fst c) + snd c)) else None)"
  and total_sub_law: "\<lbrakk>cur_lib_laws S C; 0 \<le> snd c\<rbrakk> \<Longrightarrow>
    total_sub C c t = (if snd c \<le> t (fst c) then Some (t(fst c := t (fst c) - snd c)) else None)"
  and get_coins_pos: "\<lbrakk>cur_lib_laws S C; x \<in> set (get_coins C a l)\<rbrakk> \<Longrightarrow> 0 < snd x"
  and tx_hash_law: "cur_lib_laws S C \<Longrightarrow> tx_hash C b \<noteq> []"
  unfolding cur_lib_laws_def by (simp_all only: prod.collapse) (metis prod.collapse)+

lemma total_add_agrees: "\<lbrakk>cur_lib_laws S C; 0 \<le> snd c; total_add C c t = Some t'\<rbrakk> \<Longrightarrow> t' = t(fst c := t (fst c) + snd c)"
  by (simp add: total_add_law split: if_splits)

lemma total_sub_agrees: "\<lbrakk>cur_lib_laws S C; 0 \<le> snd c; total_sub C c t = Some t'\<rbrakk> \<Longrightarrow> t' = t(fst c := t (fst c) - snd c)"
  by (simp add: total_sub_law split: if_splits)

lemma unstake_loop_agrees:
  assumes laws: "cur_lib_laws S C"
  shows "\<lbrakk>registry_inv S L ccs; t = registry_supply ccs; \<forall>c \<in> set bs. 0 < snd c;
    unstake_loop S L C sd ld bs (cs, t) ccs = (Ok (cs', t'), ccs')\<rbrakk> \<Longrightarrow>
    registry_inv S L ccs' \<and> t' = registry_supply ccs' \<and> (\<forall>d. HasCurrency ccs d \<longrightarrow> HasCurrency ccs' d)"
proof (induction bs arbitrary: cs t ccs)
  case (Cons b bs)
  show ?case
  proof (cases "fst b = sd \<or> fst b = ld")
    case False
    with Cons.prems(4) have "unstake_loop S L C sd ld bs (cs, t) ccs = (Ok (cs', t'), ccs')" by simp
    from Cons.IH [OF Cons.prems(1,2) _ this] Cons.prems(3) show ?thesis by simp
  next
    case True
    with Cons.prems(4) obtain cs1 ccs1 t1 where d: "DecreaseCurrencySupply S L b ccs = (Ok (), ccs1)"
      and t1: "total_sub C b t = Some t1" and r: "unstake_loop S L C sd ld bs (cs1, t1) ccs1 = (Ok (cs', t'), ccs')"
      by (auto split: option.splits prod.splits res.splits)
    have d': "ok_state (DecreaseCurrencySupply S L b ccs) = Some ccs1" by (simp add: d)
    have i1: "registry_inv S L ccs1" by (rule reg.decr_inv [OF Cons.prems(1) d'])
    have "t1 = registry_supply ccs1"
      using reg.decr_agrees [OF Cons.prems(1) d' Cons.prems(2)] total_sub_agrees [OF laws _ t1] Cons.prems(3) by simp
    moreover have "HasCurrency ccs d \<longrightarrow> HasCurrency ccs1 d" for d
      using change_supply_GetCurrency [of L ccs "int_sub S" b ccs1 d] d Cons.prems(1)
      by (auto simp: DecreaseCurrencySupply_def HasCurrency_iff split: if_splits)
    ultimately show ?thesis using Cons.IH [OF i1 _ _ r] Cons.prems(3) by simp
  qed
qed auto

lemma HasCurrency_change: "\<lbrakk>ccs_inv L s; change_supply f L coin s = (Ok (), s'); HasCurrency s d\<rbrakk> \<Longrightarrow> HasCurrency s' d"
  using change_supply_GetCurrency [of L s f coin s' d] by (auto simp: HasCurrency_iff split: if_splits)

text \<open>The mint module raises the total supply by the amount of every event it emits.\<close>

fun minted :: "cur_lib \<Rightarrow> (string \<Rightarrow> int option) \<Rightarrow> sdk_event list \<Rightarrow> totals \<Rightarrow> totals option" where
  "minted C parse [] t = Some t"
| "minted C parse (event # es) t =
     (case (if fst event = MintEventType then Option.bind (map_of (snd event) ''amount'') parse else None) of
        None \<Rightarrow> minted C parse es t
      | Some v \<Rightarrow> Option.bind (total_add C (MintDenom, v) t) (minted C parse es))"

lemma mint_events_agree:
  assumes laws: "cur_lib_laws S C" "int_laws S"
  shows "\<lbrakk>registry_inv S L ccs; t = registry_supply ccs; minted C parse es t = Some t'; mint_events S L parse es ccs = (Ok (), ccs')\<rbrakk> \<Longrightarrow>
    registry_inv S L ccs' \<and> t' = registry_supply ccs' \<and> (\<forall>d. HasCurrency ccs d \<longrightarrow> HasCurrency ccs' d)"
proof (induction es arbitrary: t ccs)
  case (Cons e es)
  show ?case
  proof (cases "if fst e = MintEventType then map_of (snd e) ''amount'' else None")
    case None
    with Cons.prems(3,4) have "minted C parse es t = Some t'" "mint_events S L parse es ccs = (Ok (), ccs')"
      by (auto split: if_splits option.splits)
    from Cons.IH [OF Cons.prems(1,2) this] show ?thesis .
  next
    case (Some v)
    with Cons.prems(4) obtain a coin ccs1 where c: "parse v = Some a" "new_coin S MintDenom a = Some coin"
      "IncreaseCurrencySupply S L coin ccs = (Ok (), ccs1)" and r: "mint_events S L parse es ccs1 = (Ok (), ccs')"
      by (auto simp: bind_eq_Some_conv split: if_splits option.splits prod.splits res.splits)
    have coin: "coin = (MintDenom, a)" "0 \<le> a" using c(2) laws(2) by (auto simp: int_laws_def split: if_splits)
    from Some c(1) Cons.prems(3) obtain t1 where t1: "total_add C coin t = Some t1" "minted C parse es t1 = Some t'"
      by (auto simp: coin bind_eq_Some_conv split: if_splits)
    have i: "ok_state (IncreaseCurrencySupply S L coin ccs) = Some ccs1" by (simp add: c(3))
    have i1: "registry_inv S L ccs1" by (rule reg.incr_inv [OF Cons.prems(1) i])
    have "t1 = registry_supply ccs1"
      using reg.incr_agrees [OF Cons.prems(1) i Cons.prems(2)] total_add_agrees [OF laws(1) _ t1(1)] coin(2) by (simp add: coin)
    moreover have "HasCurrency ccs d \<longrightarrow> HasCurrency ccs1 d" for d
      using HasCurrency_change [of L ccs "int_add S" coin ccs1 d] c(3) Cons.prems(1) by (simp add: IncreaseCurrencySupply_def)
    ultimately show ?thesis using Cons.IH [OF i1 _ t1(2) r] by simp
  qed
qed auto

section \<open>Reachable states\<close>

text \<open>
  The states of the module with the block time in nanoseconds: validated messages, passed proposals, minting, steps of the other
  modules on the balances and the staking state, and time.
\<close>

inductive cur_step ::
  "sdk \<Rightarrow> vm_lib \<Rightarrow> cur_lib \<Rightarrow> bank \<Rightarrow> 'k staking \<Rightarrow> int \<times> 'k cur_state \<Rightarrow> int \<times> 'k cur_state \<Rightarrow> bool"
  for S :: sdk and L :: vm_lib and C :: cur_lib and B :: bank and K :: "'k staking" where
  cur_issue: "\<lbrakk>MsgIssueCurrency_ValidateBasic S i coin payee = Ok ();
     Cur_NewMsHandler S L C K h (MsgIssueCurrency i coin payee) s = (Ok (), s')\<rbrakk> \<Longrightarrow> cur_step S L C B K (t, s) (t, s')"
| cur_unstake: "Cur_NewMsHandler S L C K h (MsgUnstakeCurrency i staker) s = (Ok (), s') \<Longrightarrow> cur_step S L C B K (t, s) (t, s')"
| cur_withdraw: "\<lbrakk>MsgWithdrawCurrency_ValidateBasic S m = Ok ();
     handleMsgWithdraw S L C B (t div 1000000000) tx m s = (Ok (), s')\<rbrakk> \<Longrightarrow> cur_step S L C B K (t, s) (t, s')"
| cur_propose: "handleAddCurrencyProposal L p s = (Ok (), s') \<Longrightarrow> cur_step S L C B K (t, s) (t, s')"
| cur_mint: "\<lbrakk>1 < h; minted C parse evs (cu_supply s) = Some tt; Cur_BeginBlocker S L parse h evs (s\<lparr>cu_supply := tt\<rparr>) = (Ok (), s')\<rbrakk> \<Longrightarrow>
     cur_step S L C B K (t, s) (t, s')"
| cur_other: "cur_step S L C B K (t, s) (t, s\<lparr>cu_ledger := l, cu_staking := k\<rparr>)"
| cur_time: "t \<le> t' \<Longrightarrow> cur_step S L C B K (t, s) (t', s)"

inductive_cases cur_stepE: "cur_step S L C B K ts ts'"

inductive cur_reach ::
  "sdk \<Rightarrow> vm_lib \<Rightarrow> cur_lib \<Rightarrow> bank \<Rightarrow> 'k staking \<Rightarrow> int \<Rightarrow> 'k cur_state \<Rightarrow> bool"
  for S :: sdk and L :: vm_lib and C :: cur_lib and B :: bank and K :: "'k staking" where
  cur_start: "\<lbrakk>cu_issues s = []; cu_withdraws s = []; cu_lastWithdraw s = None; ccs_reach S L (cu_ccs s);
     cu_supply s = registry_supply (cu_ccs s); 1000000000 \<le> t\<rbrakk> \<Longrightarrow> cur_reach S L C B K t s"
| cur_next: "\<lbrakk>cur_reach S L C B K t s; cur_step S L C B K (t, s) (t', s')\<rbrakk> \<Longrightarrow> cur_reach S L C B K t' s'"

abbreviation withdraw_key :: "Withdraw \<Rightarrow> bytes" where
  "withdraw_key w \<equiv> GetWithdrawKey (wd_ID w)"

definition issues_ok :: "sdk \<Rightarrow> 'k cur_state \<Rightarrow> bool" where
  "issues_ok S s \<longleftrightarrow> kv_wf (cu_issues s) \<and>
     (\<forall>k x. kv_get k (cu_issues s) = Some x \<longrightarrow>
        (\<exists>i. k = GetIssuesKey i \<and> i \<noteq> []) \<and> Issue_Valid S x = Ok () \<and> HasCurrency (cu_ccs s) (fst (is_Coin x)))"

definition withdraws_ok :: "sdk \<Rightarrow> int \<Rightarrow> 'k cur_state \<Rightarrow> bool" where
  "withdraws_ok S t s \<longleftrightarrow> kv_keyed withdraw_key (cu_withdraws s) \<and>
     (\<forall>w \<in> set (getWithdraws s). Withdraw_Valid S (Some t) w = Ok () \<and> HasCurrency (cu_ccs s) (fst (wd_Coin w))) \<and>
     (\<forall>i. HasWithdraw s i \<longleftrightarrow> i < next_id (cu_lastWithdraw s)) \<and> next_id (cu_lastWithdraw s) \<le> 2 ^ 256"

definition cur_inv :: "sdk \<Rightarrow> vm_lib \<Rightarrow> int \<Rightarrow> 'k cur_state \<Rightarrow> bool" where
  "cur_inv S L t s \<longleftrightarrow> 1000000000 \<le> t \<and> ccs_inv L (cu_ccs s) \<and> cu_supply s = registry_supply (cu_ccs s) \<and>
     issues_ok S s \<and> withdraws_ok S t s"

lemma GetIssuesKey_inject [key_simps, simp]: "GetIssuesKey i = GetIssuesKey j \<longleftrightarrow> i = j"
  by (simp add: GetIssuesKey_def)

lemma GetWithdrawKey_inject [key_simps, simp]: "GetWithdrawKey i = GetWithdrawKey j \<longleftrightarrow> i = j"
  by (simp add: GetWithdrawKey_def ID_String_def)

lemma issues_ok_frame:
  assumes "issues_ok S s" and "cu_issues s' = cu_issues s" and "\<And>d. HasCurrency (cu_ccs s) d \<Longrightarrow> HasCurrency (cu_ccs s') d"
  shows "issues_ok S s'"
  using assms unfolding issues_ok_def by metis

lemma withdraws_ok_frame:
  assumes "withdraws_ok S t s" and "cu_withdraws s' = cu_withdraws s" and "cu_lastWithdraw s' = cu_lastWithdraw s"
    and "\<And>d. HasCurrency (cu_ccs s) d \<Longrightarrow> HasCurrency (cu_ccs s') d"
  shows "withdraws_ok S t s'"
  using assms unfolding withdraws_ok_def HasWithdraw_def getWithdraws_def by metis

lemma issue_step:
  assumes laws: "int_laws S" "vm_lib_laws L" "cur_lib_laws S C" and inv: "cur_inv S L t s"
    and v: "MsgIssueCurrency_ValidateBasic S i coin payee = Ok ()" and r: "IssueCurrency S L C K i coin payee s = (Ok (), s')"
  shows "cur_inv S L t s'"
proof -
  from r obtain l ccs tt where o: "HasCurrency (cu_ccs s) (fst coin)"
    "IncreaseCurrencySupply S L coin (cu_ccs s) = (Ok (), ccs)" "total_add C coin (cu_supply s) = Some tt"
    and s': "s' = s\<lparr>cu_issues := kv_set (GetIssuesKey i) (NewIssue coin payee) (cu_issues s), cu_ledger := l, cu_ccs := ccs, cu_supply := tt\<rparr>"
    by (rule IssueCurrency_Ok)
  have ri: "registry_inv S L (cu_ccs s)" and ag: "cu_supply s = registry_supply (cu_ccs s)" using inv laws by (simp_all add: cur_inv_def)
  have os: "ok_state (IncreaseCurrencySupply S L coin (cu_ccs s)) = Some ccs" by (simp add: o(2))
  have pos: "0 < snd coin" "i \<noteq> []" and val: "Issue_Valid S (NewIssue coin payee) = Ok ()"
    using v by (auto simp: MsgIssueCurrency_ValidateBasic_def Issue_Valid_def NewIssue_def split: if_splits)
  have "tt = registry_supply ccs"
    using reg.incr_agrees [OF ri os ag] total_add_agrees [OF laws(3) _ o(3)] pos(1) by simp
  moreover have "ccs_inv L ccs" using reg.incr_inv [OF ri os] by simp
  moreover have has: "HasCurrency ccs d" if "HasCurrency (cu_ccs s) d" for d
    using HasCurrency_change [of L "cu_ccs s" "int_add S" coin ccs d] ri o(2) that by (simp add: IncreaseCurrencySupply_def)
  moreover have "issues_ok S s'"
  proof -
    have io: "issues_ok S s" using inv by (simp add: cur_inv_def)
    have "(\<exists>j. k = GetIssuesKey j \<and> j \<noteq> []) \<and> Issue_Valid S x = Ok () \<and> HasCurrency ccs (fst (is_Coin x))"
      if g: "kv_get k (cu_issues s') = Some x" for k x
    proof (cases "k = GetIssuesKey i")
      case True
      with g have "x = NewIssue coin payee" by (simp add: s')
      with True pos(2) val has [OF o(1)] show ?thesis by (auto simp: NewIssue_def)
    next
      case False
      with g have "kv_get k (cu_issues s) = Some x" by (simp add: s')
      with io has show ?thesis unfolding issues_ok_def by blast
    qed
    moreover have "kv_wf (cu_issues s')" using io by (simp add: s' issues_ok_def)
    ultimately show ?thesis unfolding issues_ok_def by (simp add: s')
  qed
  moreover have "withdraws_ok S t s'"
  proof (rule withdraws_ok_frame)
    show "withdraws_ok S t s" using inv by (simp add: cur_inv_def)
  qed (simp_all add: s' has)
  ultimately show ?thesis using inv by (simp add: cur_inv_def s')
qed

lemma withdraw_step:
  assumes laws: "int_laws S" "vm_lib_laws L" "cur_lib_laws S C" "uint_laws S" and inv: "cur_inv S L t s"
    and v: "MsgWithdrawCurrency_ValidateBasic S m = Ok ()" and r: "handleMsgWithdraw S L C B (t div 1000000000) tx m s = (Ok (), s')"
  shows "cur_inv S L t s'"
proof -
  let ?coin = "mwc_Coin m"
  from r obtain i cs l ccs tt where o: "HasCurrency (cu_ccs s) (fst ?coin)" "getNextWithdrawID S s = Some i" "new_coins C ?coin = Some cs"
    "DecreaseCurrencySupply S L ?coin (cu_ccs s) = (Ok (), ccs)" "total_sub C cs (cu_supply s) = Some tt"
    and s': "s' = s\<lparr>cu_withdraws := kv_set (GetWithdrawKey i)
        (NewWithdraw C i ?coin (mwc_Payer m) (mwc_PegZonePayee m) (mwc_PegZoneChainID m) (t div 1000000000) tx) (cu_withdraws s),
       cu_lastWithdraw := Some i, cu_ledger := l, cu_ccs := ccs, cu_supply := tt\<rparr>"
    unfolding handleMsgWithdraw_def by (rule WithdrawCurrency_Ok)
  let ?w = "NewWithdraw C i ?coin (mwc_Payer m) (mwc_PegZonePayee m) (mwc_PegZoneChainID m) (t div 1000000000) tx"
  have ri: "registry_inv S L (cu_ccs s)" and ag: "cu_supply s = registry_supply (cu_ccs s)" and tt: "1000000000 \<le> t"
    using inv laws by (simp_all add: cur_inv_def)
  have os: "ok_state (DecreaseCurrencySupply S L ?coin (cu_ccs s)) = Some ccs" by (simp add: o(4))
  have pos: "0 < snd ?coin" using v by (auto simp: MsgWithdrawCurrency_ValidateBasic_def split: if_splits)
  have cs: "cs = ?coin" using o(3) new_coins_law [OF laws(3) pos] by (simp split: if_splits)
  have "tt = registry_supply ccs"
    using reg.decr_agrees [OF ri os ag] total_sub_agrees [OF laws(3) _ o(5)] pos cs by simp
  moreover have "ccs_inv L ccs" using reg.decr_inv [OF ri os] by simp
  moreover have has: "HasCurrency ccs d" if "HasCurrency (cu_ccs s) d" for d
    using HasCurrency_change [of L "cu_ccs s" "int_sub S" ?coin ccs d] ri o(4) that by (simp add: DecreaseCurrencySupply_def)
  moreover have "issues_ok S s'"
  proof (rule issues_ok_frame)
    show "issues_ok S s" using inv by (simp add: cur_inv_def)
  qed (simp_all add: s' has)
  moreover have "withdraws_ok S t s'"
  proof -
    have wo: "withdraws_ok S t s" using inv by (simp add: cur_inv_def)
    have i: "i = next_id (cu_lastWithdraw s)" "i < 2 ^ 256"
      using o(2) incr_id_SomeD [OF laws(4)] incr_id_bound [OF laws(4)] by (auto simp: getNextWithdrawID_def)
    have k: "kv_keyed withdraw_key (cu_withdraws s)" using wo by (simp add: withdraws_ok_def)
    have kv: "cu_withdraws s' = kv_set (withdraw_key ?w) ?w (cu_withdraws s)" by (simp add: s' NewWithdraw_def)
    have "0 < t div 1000000000" "t div 1000000000 * 1000000000 \<le> t" using tt by (simp_all add: pos_imp_zdiv_pos_iff)
    then have "Withdraw_Valid S (Some t) ?w = Ok ()"
      using v tx_hash_law [OF laws(3)] by (auto simp: MsgWithdrawCurrency_ValidateBasic_def Withdraw_Valid_def NewWithdraw_def ID_Valid_def split: if_splits)
    then have "\<forall>w \<in> set (getWithdraws s'). Withdraw_Valid S (Some t) w = Ok () \<and> HasCurrency (cu_ccs s') (fst (wd_Coin w))"
      using wo has o(1) unfolding getWithdraws_def kv kv_keyed_vals_set [OF k]
      by (auto simp: withdraws_ok_def getWithdraws_def s' NewWithdraw_def)
    moreover have "HasWithdraw s' j \<longleftrightarrow> j < next_id (cu_lastWithdraw s')" for j
    proof -
      have "HasWithdraw s' j \<longleftrightarrow> HasWithdraw s j \<or> j = i" by (simp add: HasWithdraw_def kv_has_iff s')
      also have "\<dots> \<longleftrightarrow> j < Suc i" using wo i(1) unfolding withdraws_ok_def by auto
      finally show ?thesis by (simp add: s' next_id_def)
    qed
    moreover have "kv_keyed withdraw_key (cu_withdraws s')" unfolding kv by (rule kv_keyed_set [OF k])
    ultimately show ?thesis using i(2) by (simp add: withdraws_ok_def s' next_id_def)
  qed
  ultimately show ?thesis using inv by (simp add: cur_inv_def s')
qed

lemma unstake_step:
  assumes laws: "int_laws S" "vm_lib_laws L" "cur_lib_laws S C" and inv: "cur_inv S L t s"
    and r: "UnstakeCurrency S L C K h staker s = (Ok (), s')"
  shows "cur_inv S L t s'"
proof -
  from r obtain k l rest tt ccs l' where
    u: "unstake_loop S L C (bond_denom K (cu_staking s)) (lp_denom K (cu_staking s)) (get_coins C staker l)
      (get_coins C staker l, cu_supply s) (cu_ccs s) = (Ok (rest, tt), ccs)"
    and s': "s' = s\<lparr>cu_ccs := ccs, cu_ledger := l', cu_supply := tt, cu_staking := ban_account K staker h k\<rparr>"
    by (auto simp: UnstakeCurrency_def Let_def split: option.splits prod.splits res.splits)
  have ri: "registry_inv S L (cu_ccs s)" and ag: "cu_supply s = registry_supply (cu_ccs s)" using inv laws by (simp_all add: cur_inv_def)
  have "\<forall>c \<in> set (get_coins C staker l). 0 < snd c" using get_coins_pos [OF laws(3)] by blast
  note a = unstake_loop_agrees [OF laws(3) ri ag this u]
  then have has: "HasCurrency (cu_ccs s) d \<Longrightarrow> HasCurrency ccs d" for d by blast
  have "issues_ok S s'"
  proof (rule issues_ok_frame)
    show "issues_ok S s" using inv by (simp add: cur_inv_def)
  qed (simp_all add: s' has)
  moreover have "withdraws_ok S t s'"
  proof (rule withdraws_ok_frame)
    show "withdraws_ok S t s" using inv by (simp add: cur_inv_def)
  qed (simp_all add: s' has)
  ultimately show ?thesis using inv a by (simp add: cur_inv_def s')
qed

lemma CreateCurrency_supply:
  assumes "CreateCurrency L p s = (Ok (), s')"
  shows "registry_supply s' = registry_supply s"
proof (rule ext)
  fix d
  have "\<not> HasCurrency s (cp_Denom p)" by (rule CreateCurrency_Ok(1) [OF assms])
  then have "\<forall>c. GetCurrency s (cp_Denom p) \<noteq> Ok c" by (auto simp: HasCurrency_iff)
  then show "registry_supply s' d = registry_supply s d"
    using CreateCurrency_GetCurrency [OF assms, of d] by (auto simp: registry_supply_def NewCurrency_def split: res.splits)
qed

lemma propose_step:
  assumes laws: "vm_lib_laws L" and inv: "cur_inv S L t s" and r: "handleAddCurrencyProposal L p s = (Ok (), s')"
  shows "cur_inv S L t s'"
proof -
  from r obtain ccs where c: "CreateCurrency L (GetCurrencyParams p) (cu_ccs s) = (Ok (), ccs)" and s': "s' = s\<lparr>cu_ccs := ccs\<rparr>"
    by (auto simp: handleAddCurrencyProposal_def Cur_CreateCurrency_def split: prod.splits res.splits)
  have has: "HasCurrency (cu_ccs s) d \<Longrightarrow> HasCurrency ccs d" for d
    using CreateCurrency_GetCurrency [OF c, of d] by (auto simp: HasCurrency_iff)
  have "issues_ok S s'"
  proof (rule issues_ok_frame)
    show "issues_ok S s" using inv by (simp add: cur_inv_def)
  qed (simp_all add: s' has)
  moreover have "withdraws_ok S t s'"
  proof (rule withdraws_ok_frame)
    show "withdraws_ok S t s" using inv by (simp add: cur_inv_def)
  qed (simp_all add: s' has)
  moreover have "ccs_inv L ccs" using CreateCurrency_inv [OF laws _ c] inv by (simp add: cur_inv_def)
  ultimately show ?thesis using inv CreateCurrency_supply [OF c] by (simp add: cur_inv_def s')
qed

lemma mint_step:
  assumes laws: "int_laws S" "vm_lib_laws L" "cur_lib_laws S C" and inv: "cur_inv S L t s" and m: "minted C parse evs (cu_supply s) = Some tt"
    and r: "Cur_BeginBlocker S L parse h evs (s\<lparr>cu_supply := tt\<rparr>) = (Ok (), s')" and h: "1 < h"
  shows "cur_inv S L t s'"
proof -
  from r h obtain ccs where c: "mint_events S L parse evs (cu_ccs s) = (Ok (), ccs)" and s': "s' = s\<lparr>cu_ccs := ccs, cu_supply := tt\<rparr>"
    by (auto simp: Cur_BeginBlocker_def split: prod.splits)
  have ri: "registry_inv S L (cu_ccs s)" and ag: "cu_supply s = registry_supply (cu_ccs s)" using inv laws by (simp_all add: cur_inv_def)
  note a = mint_events_agree [OF laws(3,1) ri ag m c]
  then have has: "HasCurrency (cu_ccs s) d \<Longrightarrow> HasCurrency ccs d" for d by blast
  have "issues_ok S s'"
  proof (rule issues_ok_frame)
    show "issues_ok S s" using inv by (simp add: cur_inv_def)
  qed (simp_all add: s' has)
  moreover have "withdraws_ok S t s'"
  proof (rule withdraws_ok_frame)
    show "withdraws_ok S t s" using inv by (simp add: cur_inv_def)
  qed (simp_all add: s' has)
  ultimately show ?thesis using inv a by (simp add: cur_inv_def s')
qed

lemma Withdraw_Valid_mono: "\<lbrakk>Withdraw_Valid S (Some t) w = Ok (); t \<le> t'\<rbrakk> \<Longrightarrow> Withdraw_Valid S (Some t') w = Ok ()"
  by (auto simp: Withdraw_Valid_def split: if_splits)

lemma cur_step_inv:
  assumes laws: "int_laws S" "vm_lib_laws L" "cur_lib_laws S C" "uint_laws S" and inv: "cur_inv S L t s"
    and st: "cur_step S L C B K (t, s) (t', s')"
  shows "cur_inv S L t' s'"
  using st
proof cases
  case (cur_issue i coin payee h)
  then show ?thesis using issue_step [OF laws(1-3) inv] by (simp add: handleMsMsgIssueCurrency_def)
next
  case (cur_unstake h i staker)
  then show ?thesis using unstake_step [OF laws(1-3) inv] by (simp add: handleMsMsgUnstakeCurrency_def)
next
  case (cur_withdraw m tx)
  then show ?thesis using withdraw_step [OF laws inv] by blast
next
  case (cur_propose p)
  then show ?thesis using propose_step [OF laws(2) inv] by blast
next
  case (cur_mint h parse evs tt)
  then show ?thesis using mint_step [OF laws(1-3) inv] by blast
next
  case (cur_other l k)
  then show ?thesis using inv by (simp add: cur_inv_def issues_ok_def withdraws_ok_def getWithdraws_def HasWithdraw_def)
next
  case cur_time
  then show ?thesis using inv Withdraw_Valid_mono [of S t _ t'] by (auto simp: cur_inv_def withdraws_ok_def)
qed

lemma cur_reach_inv:
  assumes laws: "int_laws S" "vm_lib_laws L" "cur_lib_laws S C" "uint_laws S"
  shows "cur_reach S L C B K t s \<Longrightarrow> cur_inv S L t s"
proof (induction rule: cur_reach.induct)
  case (cur_start s t)
  then show ?case
    using ccs_reach_inv [OF cur_start(4) laws(2)]
    by (simp add: cur_inv_def issues_ok_def withdraws_ok_def getWithdraws_def HasWithdraw_def kv_has_iff kv_vals_def next_id_def)
next
  case (cur_next t s t' s')
  then show ?case using cur_step_inv [OF laws cur_next.IH] by blast
qed

text \<open>An issue is never removed or changed.\<close>

lemma GetIssue_Ok: "GetIssue s i = Ok x \<longleftrightarrow> kv_get (GetIssuesKey i) (cu_issues s) = Some x"
  by (simp add: GetIssue_def split: option.splits)

lemma cur_step_issue:
  assumes "cur_step S L C B K (t, s) (t', s')" and g: "GetIssue s i = Ok x"
  shows "GetIssue s' i = Ok x"
  using assms(1)
proof cases
  case (cur_issue j coin payee h)
  then have "IssueCurrency S L C K j coin payee s = (Ok (), s')" by (simp add: handleMsMsgIssueCurrency_def)
  then obtain l ccs tt where "\<not> HasIssue s j"
    and s': "s' = s\<lparr>cu_issues := kv_set (GetIssuesKey j) (NewIssue coin payee) (cu_issues s), cu_ledger := l, cu_ccs := ccs, cu_supply := tt\<rparr>"
    by (rule IssueCurrency_Ok)
  then show ?thesis using g by (auto simp: GetIssue_Ok HasIssue_def kv_has_iff)
next
  case (cur_unstake h j staker)
  then show ?thesis using g
    by (auto simp: handleMsMsgUnstakeCurrency_def UnstakeCurrency_def Let_def GetIssue_Ok split: option.splits prod.splits res.splits)
next
  case (cur_withdraw m tx)
  from cur_withdraw(3) have "cu_issues s' = cu_issues s"
    unfolding handleMsgWithdraw_def by (rule WithdrawCurrency_Ok) simp
  with g show ?thesis by (simp add: GetIssue_def)
next
  case (cur_propose p)
  then show ?thesis using g
    by (auto simp: handleAddCurrencyProposal_def Cur_CreateCurrency_def GetIssue_Ok split: prod.splits res.splits)
next
  case (cur_mint h parse evs tt)
  then show ?thesis using g by (auto simp: Cur_BeginBlocker_def GetIssue_Ok split: prod.splits)
qed (use g in \<open>simp_all add: GetIssue_Ok\<close>)

lemma cur_steps_issue:
  assumes "(cur_step S L C B K)\<^sup>*\<^sup>* (t, s) (t', s')" and "GetIssue s i = Ok x"
  shows "GetIssue s' i = Ok x"
  using assms(1)
proof (induction rule: rtranclp_induct2)
  case refl
  show ?case by fact
next
  case (step t1 s1 t2 s2)
  then show ?case using cur_step_issue by blast
qed

section \<open>An example\<close>

definition ref_cur_lib :: cur_lib where
  "ref_cur_lib = \<lparr>
     raw_add = (\<lambda>a c l. if 0 < snd c \<and> ref_denom (fst c) then Some (credit a c l) else None),
     new_coins = (\<lambda>c. if ref_denom (fst c) then Some c else None),
     total_add = (\<lambda>c t. if t (fst c) + snd c < 2 ^ 255 then Some (t(fst c := t (fst c) + snd c)) else None),
     total_sub = (\<lambda>c t. if snd c \<le> t (fst c) then Some (t(fst c := t (fst c) - snd c)) else None),
     get_coins = (\<lambda>a l. map (\<lambda>d. (d, l a d)) (filter (\<lambda>d. 0 < l a d) [''sxfi'', ''xfi''])),
     coins_sub = (\<lambda>cs c. Some (filter (\<lambda>x. fst x \<noteq> fst c) cs)),
     set_coins = (\<lambda>a cs l. Some (l(a := coin_amount cs))),
     tx_hash = (\<lambda>b. ''e3b0c442'')\<rparr>"

lemma ref_cur_lib_laws: "cur_lib_laws ref_sdk ref_cur_lib"
  by (auto simp: cur_lib_laws_def ref_cur_lib_def ref_sdk_def)

definition ref_staking :: "unit staking" where
  "ref_staking = \<lparr>is_banned = (\<lambda>k a. False), bond_denom = (\<lambda>k. ''sxfi''), lp_denom = (\<lambda>k. ''lpt''),
     force_remove = (\<lambda>a kl. Some kl), ban_account = (\<lambda>a h k. k)\<rparr>"

definition ex_cur0 :: "unit cur_state" where
  "ex_cur0 = \<lparr>cu_issues = [], cu_withdraws = [], cu_lastWithdraw = None, cu_ccs = ex_ccs0, cu_ledger = (\<lambda>_ _. 0),
     cu_supply = (\<lambda>_. 0), cu_staking = ()\<rparr>"

definition ex_cur1 :: "string \<Rightarrow> unit cur_state" where
  "ex_cur1 i = ex_cur0\<lparr>cu_issues := [(GetIssuesKey i, NewIssue (''xfi'', 5) (replicate 20 (CHR ''p'')))],
     cu_ledger := credit (replicate 20 (CHR ''p'')) (''xfi'', 5) (\<lambda>_ _. 0), cu_ccs := ex_ccs, cu_supply := (\<lambda>_. 0)(''xfi'' := 5)\<rparr>"

lemma ex_ccs0_supply: "registry_supply ex_ccs0 = (\<lambda>_. 0)"
  using CreateCurrency_supply [OF ex_ccs0_create] by (auto simp: registry_supply_def GetCurrency_def HasCurrency_def kv_has_def)

lemma ref_denom_xfi: "ref_denom ''xfi''"
  by (simp add: ref_denom_def ref_denom_char_def)

lemma ex_issue: "IssueCurrency ref_sdk ref_vm_lib ref_cur_lib ref_staking i (''xfi'', 5) (replicate 20 (CHR ''p'')) ex_cur0 = (Ok (), ex_cur1 i)"
  by (simp add: IssueCurrency_def issue_body_def ref_staking_def HasIssue_def kv_has_iff ex_cur0_def ex_ccs0_xfi storeIssue_def
    ref_cur_lib_def ref_denom_xfi ex_ccs_increase ex_cur1_def)

lemma ex_cur1_reach:
  assumes "i \<noteq> []"
  shows "cur_reach ref_sdk ref_vm_lib ref_cur_lib ref_bank ref_staking 2000000000 (ex_cur1 i)"
proof -
  have "cur_reach ref_sdk ref_vm_lib ref_cur_lib ref_bank ref_staking 2000000000 ex_cur0"
    by (rule cur_start)
      (simp_all add: ex_cur0_def ex_ccs0_supply ccs_create [OF ccs_start ex_ccs0_create])
  moreover have "MsgIssueCurrency_ValidateBasic ref_sdk i (''xfi'', 5) (replicate 20 (CHR ''p'')) = Ok ()"
    using assms by (simp add: MsgIssueCurrency_ValidateBasic_def ex_denom)
  then have "cur_step ref_sdk ref_vm_lib ref_cur_lib ref_bank ref_staking (2000000000, ex_cur0) (2000000000, ex_cur1 i)"
    by (rule cur_issue [where h = 1]) (simp add: handleMsMsgIssueCurrency_def ex_issue)
  ultimately show ?thesis by (rule cur_next)
qed

section \<open>Pages of withdraws\<close>

lemma withdraws_loop_spec:
  assumes P: "parse_laws S" and has: "\<And>i. HasWithdraw s i \<longleftrightarrow> i < n"
  shows "b < 2 ^ 256 \<Longrightarrow> withdraws_loop S s a b = Some (map (\<lambda>i. the (kv_get (GetWithdrawKey i) (cu_withdraws s))) [a..<min b n])"
proof (induction "b - a" arbitrary: a)
  case 0
  then show ?case by (subst withdraws_loop.simps) simp
next
  case (Suc m)
  then have ab: "a < b" and p: "NewIDFromString S (dec_digits a) = Ok a"
    using NewIDFromString_String [OF P, of a] by (simp_all add: ID_String_def)
  show ?case
  proof (cases "a < n")
    case an: True
    then obtain w where w: "kv_get (GetWithdrawKey a) (cu_withdraws s) = Some w"
      using has [of a] by (auto simp: HasWithdraw_def kv_has_iff)
    then have g: "GetWithdraw s a = Ok w" by (simp add: GetWithdraw_def)
    have "withdraws_loop S s (a + 1) b = Some (map (\<lambda>i. the (kv_get (GetWithdrawKey i) (cu_withdraws s))) [a + 1..<min b n])"
      using Suc.hyps(1) [of "a + 1"] Suc.hyps(2) Suc.prems by simp
    with ab an p g w show ?thesis by (subst withdraws_loop.simps) (simp add: upt_conv_Cons)
  next
    case False
    then have "GetWithdraw s a = Err CurErrWrongWithdrawID"
      using has [of a] by (simp add: GetWithdraw_def HasWithdraw_def kv_has_iff)
    with ab p False show ?thesis by (subst withdraws_loop.simps) simp
  qed
qed

section \<open>Genesis\<close>

lemma MustParseIssueKey_spec: "MustParseIssueKey (GetIssuesKey i) = (if CHR '':'' \<in> set i then None else Some i)"
proof (cases "CHR '':'' \<in> set i")
  case True
  then have "count_list i (CHR '':'') \<noteq> 0" by (simp add: count_list_0_iff)
  then have "length (split_on (CHR '':'') (GetIssuesKey i)) \<noteq> 2"
    unfolding length_split_on GetIssuesKey_def by (simp add: count_list_append)
  with True show ?thesis by (simp add: MustParseIssueKey_def Let_def)
next
  case False
  then have "split_on (CHR '':'') (GetIssuesKey i) = [''issue'', i]"
    unfolding GetIssuesKey_def by (subst split_on_join) auto
  with False show ?thesis by (simp add: MustParseIssueKey_def)
qed

lemma genesis_issues_spec:
  "\<forall>p \<in> set st. fst p = GetIssuesKey (f (fst p)) \<Longrightarrow>
   genesis_issues st = (if \<exists>p \<in> set st. CHR '':'' \<in> set (f (fst p)) then None else Some (map (\<lambda>p. (snd p, f (fst p))) st))"
proof (induction st)
  case (Cons p st)
  obtain k x where p: "p = (k, x)" by (cases p)
  have "MustParseIssueKey k = (if CHR '':'' \<in> set (f k) then None else Some (f k))"
    using MustParseIssueKey_spec [of "f k"] Cons.prems p by simp
  with Cons p show ?case by (simp split del: if_split) auto
qed simp

definition issue_id :: "bytes \<Rightarrow> string" where
  "issue_id k = drop 6 k"

lemma issue_id_key [simp]: "issue_id (GetIssuesKey i) = i"
  by (simp add: issue_id_def GetIssuesKey_def)

lemma issue_keys:
  assumes "issues_ok S s"
  shows "\<forall>p \<in> set (cu_issues s). fst p = GetIssuesKey (issue_id (fst p)) \<and> issue_id (fst p) \<noteq> [] \<and> Issue_Valid S (snd p) = Ok () \<and>
    HasCurrency (cu_ccs s) (fst (is_Coin (snd p)))"
proof
  fix p assume p: "p \<in> set (cu_issues s)"
  have "kv_wf (cu_issues s)" using assms by (simp add: issues_ok_def)
  then have "kv_get (fst p) (cu_issues s) = Some (snd p)" using p by (simp add: kv_get_iff)
  with assms obtain i where "fst p = GetIssuesKey i" "i \<noteq> []" "Issue_Valid S (snd p) = Ok ()" "HasCurrency (cu_ccs s) (fst (is_Coin (snd p)))"
    unfolding issues_ok_def by meson
  then show "fst p = GetIssuesKey (issue_id (fst p)) \<and> issue_id (fst p) \<noteq> [] \<and> Issue_Valid S (snd p) = Ok () \<and>
    HasCurrency (cu_ccs s) (fst (is_Coin (snd p)))" by simp
qed

lemma export_issues:
  assumes "issues_ok S s"
  shows "Cur_ExportGenesis s =
    (if \<exists>p \<in> set (cu_issues s). CHR '':'' \<in> set (issue_id (fst p)) then None
     else Some \<lparr>cg_Issues = map (\<lambda>p. (snd p, issue_id (fst p))) (cu_issues s), cg_Withdraws = getWithdraws s,
       cg_LastWithdrawID = cu_lastWithdraw s\<rparr>)"
  using genesis_issues_spec [of "cu_issues s" issue_id] issue_keys [OF assms]
  by (simp add: Cur_ExportGenesis_def GetGenesisIssues_def)

lemma validate_issues_ok:
  "\<lbrakk>\<forall>x \<in> set xs. Issue_Valid S (fst x) = Ok () \<and> snd x \<noteq> [] \<and> snd x \<notin> set seen; distinct (map snd xs)\<rbrakk> \<Longrightarrow>
   validate_issues S seen xs = Ok ()"
proof (induction xs arbitrary: seen)
  case (Cons x xs)
  have "\<forall>y \<in> set xs. Issue_Valid S (fst y) = Ok () \<and> snd y \<noteq> [] \<and> snd y \<notin> set (snd x # seen)"
    using Cons.prems by (auto simp: rev_image_eqI)
  from Cons.IH [OF this] Cons.prems show ?case by (simp add: GenesisIssue_Valid_def)
qed simp

lemma validate_withdraws_ok:
  "\<lbrakk>\<forall>w \<in> set ws. Withdraw_Valid S t w = Ok () \<and> wd_ID w \<notin> set seen; distinct (map wd_ID ws);
    \<forall>w \<in> set ws. wd_ID w \<le> l; m \<le> l; m = l \<or> l \<in> wd_ID ` set ws\<rbrakk> \<Longrightarrow>
   validate_withdraws S t m seen ws = Ok l"
proof (induction ws arbitrary: seen m)
  case (Cons w ws)
  have "\<forall>x \<in> set ws. Withdraw_Valid S t x = Ok () \<and> wd_ID x \<notin> set (wd_ID w # seen)"
    using Cons.prems(1,2) by (auto simp: rev_image_eqI)
  from Cons.IH [OF this, of "if m < wd_ID w then wd_ID w else m"] Cons.prems show ?case by auto
qed simp

lemma init_issues_eq:
  "\<forall>x \<in> set xs. HasCurrency (cu_ccs s) (fst (is_Coin (fst x))) \<Longrightarrow>
   init_issues xs s = Some (s\<lparr>cu_issues := foldl (\<lambda>t p. kv_set (fst p) (snd p) t) (cu_issues s) (map (\<lambda>x. (GetIssuesKey (snd x), fst x)) xs)\<rparr>)"
  by (induction xs arbitrary: s) (simp_all add: storeIssue_def)

lemma init_withdraws_eq:
  "\<forall>w \<in> set ws. HasCurrency (cu_ccs s) (fst (wd_Coin w)) \<Longrightarrow>
   init_withdraws ws s = Some (s\<lparr>cu_withdraws := foldl (\<lambda>t w. kv_set (withdraw_key w) w t) (cu_withdraws s) ws\<rparr>)"
  by (induction ws arbitrary: s) (simp_all add: storeWithdraw_def)

definition cur_blank :: "'k cur_state \<Rightarrow> 'k cur_state" where
  "cur_blank s = s\<lparr>cu_issues := [], cu_withdraws := [], cu_lastWithdraw := None\<rparr>"

lemma withdraw_ids:
  assumes "withdraws_ok S t s"
  shows "wd_ID ` set (getWithdraws s) = {..<next_id (cu_lastWithdraw s)}" and "distinct (map wd_ID (getWithdraws s))"
proof -
  have k: "kv_keyed withdraw_key (cu_withdraws s)" using assms by (simp add: withdraws_ok_def)
  have "i \<in> wd_ID ` set (getWithdraws s) \<longleftrightarrow> HasWithdraw s i" for i
    using kv_keyed_get_None [OF k, of "GetWithdrawKey i"] by (auto simp: HasWithdraw_def kv_has_iff getWithdraws_def)
  then show "wd_ID ` set (getWithdraws s) = {..<next_id (cu_lastWithdraw s)}" using assms unfolding withdraws_ok_def by auto
  show "distinct (map wd_ID (getWithdraws s))"
    using kv_keyed_distinct [OF k] by (auto simp: getWithdraws_def distinct_map inj_on_def)
qed

lemma export_valid_cur:
  assumes io: "issues_ok S s" and wo: "withdraws_ok S t s"
  shows "CurGenesis_Validate S (Some t) \<lparr>cg_Issues = map (\<lambda>p. (snd p, issue_id (fst p))) (cu_issues s),
    cg_Withdraws = getWithdraws s, cg_LastWithdrawID = cu_lastWithdraw s\<rparr> = Ok ()"
proof -
  have wf: "kv_wf (cu_issues s)" using io by (simp add: issues_ok_def)
  have "inj_on issue_id (fst ` set (cu_issues s))"
    using issue_keys [OF io] by (intro inj_onI) (metis imageE)
  then have d: "distinct (map (\<lambda>p. issue_id (fst p)) (cu_issues s))"
    using kv_wf_distinct [OF wf] by (simp add: distinct_map inj_on_def)
  have v1: "validate_issues S [] (map (\<lambda>p. (snd p, issue_id (fst p))) (cu_issues s)) = Ok ()"
    by (rule validate_issues_ok) (use issue_keys [OF io] d in \<open>auto simp: comp_def\<close>)
  note ids = withdraw_ids [OF wo]
  have val: "\<forall>w \<in> set (getWithdraws s). Withdraw_Valid S (Some t) w = Ok ()" using wo by (simp add: withdraws_ok_def)
  show ?thesis
  proof (cases "cu_lastWithdraw s")
    case None
    then have "getWithdraws s = []" using ids(1) by (simp add: next_id_def)
    with None v1 show ?thesis by (simp add: CurGenesis_Validate_def)
  next
    case (Some l)
    then have i: "wd_ID ` set (getWithdraws s) = {..<Suc l}" using ids(1) by (simp add: next_id_def)
    have "validate_withdraws S (Some t) 0 [] (getWithdraws s) = Ok l"
    proof (rule validate_withdraws_ok)
      show "\<forall>w \<in> set (getWithdraws s). wd_ID w \<le> l" using i by (metis imageI lessThan_iff less_Suc_eq_le)
    qed (use val ids(2) i in auto)
    moreover have "getWithdraws s \<noteq> []" using i by auto
    ultimately show ?thesis using Some v1 by (simp add: CurGenesis_Validate_def)
  qed
qed

lemma export_init_cur:
  assumes io: "issues_ok S s" and wo: "withdraws_ok S t s"
  shows "Cur_InitGenesis S (Some t) \<lparr>cg_Issues = map (\<lambda>p. (snd p, issue_id (fst p))) (cu_issues s),
    cg_Withdraws = getWithdraws s, cg_LastWithdrawID = cu_lastWithdraw s\<rparr> (cur_blank s) = Some s"
proof -
  let ?s1 = "(cur_blank s)\<lparr>cu_lastWithdraw := cu_lastWithdraw s\<rparr>"
  have s1: "(case cu_lastWithdraw s of None \<Rightarrow> cur_blank s | Some l \<Rightarrow> (cur_blank s)\<lparr>cu_lastWithdraw := Some l\<rparr>) = ?s1"
    by (cases "cu_lastWithdraw s") (simp_all add: cur_blank_def)
  have wf: "kv_wf (cu_issues s)" using io by (simp add: issues_ok_def)
  have "map (\<lambda>x. (GetIssuesKey (snd x), fst x)) (map (\<lambda>p. (snd p, issue_id (fst p))) (cu_issues s)) = cu_issues s"
    using issue_keys [OF io] by (simp add: comp_def map_idI prod_eq_iff)
  then have i: "init_issues (map (\<lambda>p. (snd p, issue_id (fst p))) (cu_issues s)) ?s1 = Some (?s1\<lparr>cu_issues := cu_issues s\<rparr>)"
    using issue_keys [OF io] kv_foldl_rebuild [OF wf kv_wf_distinct [OF wf]]
    by (subst init_issues_eq) (auto simp: cur_blank_def)
  have w: "init_withdraws (getWithdraws s) (?s1\<lparr>cu_issues := cu_issues s\<rparr>) = Some s"
    using wo kv_keyed_rebuild [of withdraw_key "cu_withdraws s"]
    by (subst init_withdraws_eq) (auto simp: withdraws_ok_def cur_blank_def getWithdraws_def)
  show ?thesis unfolding Cur_InitGenesis_def export_valid_cur [OF assms] using s1 i w by simp
qed

section \<open>Properties\<close>





text \<open>Taking back what was added to the supply of a currency succeeds: its resource was encoded before.\<close>

lemma decrease_after_increase:
  assumes I: "int_laws S" and L: "vm_lib_laws L" and inv: "ccs_inv L s" and nn: "0 \<le> registry_supply s (fst coin)" "0 < snd coin"
    and r: "IncreaseCurrencySupply S L coin s = (Ok (), s1)"
  shows "\<exists>s2. DecreaseCurrencySupply S L coin s1 = (Ok (), s2)"
proof -
  from r obtain c v where c: "GetCurrency s (fst coin) = Ok c" and v: "int_add S (cur_Supply c) (snd coin) = Some v"
    by (auto simp: IncreaseCurrencySupply_def elim: change_supply_Ok)
  have v': "v = cur_Supply c + snd coin" "\<bar>v\<bar> < 2 ^ 255" using v I by (auto simp: int_laws_def within_Some_iff)
  have nc: "0 \<le> cur_Supply c" using nn(1) c by (simp add: registry_supply_def)
  have g: "GetCurrency s1 (fst coin) = Ok (c\<lparr>cur_Supply := v\<rparr>)"
    using change_supply_GetCurrency [OF inv r [unfolded IncreaseCurrencySupply_def], of "fst coin"] c v by simp
  have "int_sub S v (snd coin) = Some (cur_Supply c)" using I v' nn(2) nc by (simp add: int_laws_def within_def)
  moreover have "ccs_mirrored L s c" using inv c by (auto simp: ccs_inv_def GetCurrency_Ok_iff)
  then obtain bz where "lcs_info L (std_info c) = Some bz" by (auto simp: ccs_mirrored_def)
  then have "\<exists>s2. store_both L c s1 = (Ok (), s2)" by (simp add: store_both_def storeRes_eq Let_def)
  ultimately show ?thesis using g by (simp add: DecreaseCurrencySupply_def change_supply_def)
qed

text \<open>
  A withdraw by the payee of the coin just issued undoes the issue: it is accepted, and the balances, the supply in the registry
  and the total supply are what they were before; the withdraw is recorded under the next identifier.
\<close>

theorem cur_issue_withdraw:
  assumes "cur_reach S L C B K t s" and "int_laws S" and "vm_lib_laws L" and "cur_lib_laws S C" and "uint_laws S" and "bank_laws B"
    and "IssueCurrency S L C K i coin payee s = (Ok (), s1)"
    and "0 \<le> cu_ledger s payee (fst coin)" and "0 \<le> cu_supply s (fst coin)" and "next_id (cu_lastWithdraw s) < 2 ^ 256"
  shows "\<exists>s2. WithdrawCurrency S L C B time tx coin payee rcpt chain s1 = (Ok (), s2) \<and>
    cu_ledger s2 = cu_ledger s \<and> cu_supply s2 = cu_supply s \<and> registry_supply (cu_ccs s2) = registry_supply (cu_ccs s) \<and>
    GetWithdraw s2 (next_id (cu_lastWithdraw s)) = Ok (NewWithdraw C (next_id (cu_lastWithdraw s)) coin payee rcpt chain time tx)"
proof -
  let ?j = "next_id (cu_lastWithdraw s)"
  from assms(7) obtain l ccs tt where o: "HasCurrency (cu_ccs s) (fst coin)" "raw_add C payee coin (cu_ledger s) = Some l"
    "IncreaseCurrencySupply S L coin (cu_ccs s) = (Ok (), ccs)" "total_add C coin (cu_supply s) = Some tt"
    and s1: "s1 = s\<lparr>cu_issues := kv_set (GetIssuesKey i) (NewIssue coin payee) (cu_issues s), cu_ledger := l, cu_ccs := ccs, cu_supply := tt\<rparr>"
    by (rule IssueCurrency_Ok)
  have inv: "cur_inv S L t s" using cur_reach_inv [OF assms(2-5,1)] .
  have pos: "0 < snd coin" and l: "l = credit payee coin (cu_ledger s)" and dv: "denom_valid S (fst coin)"
    using o(2) by (simp_all add: raw_add_law [OF assms(4)] split: if_splits)
  have t1: "tt = (cu_supply s)(fst coin := cu_supply s (fst coin) + snd coin)" using total_add_agrees [OF assms(4) _ o(4)] pos by simp
  have n: "new_coins C coin = Some coin" using new_coins_law [OF assms(4) pos] dv by simp
  have lb: "sub_coins B payee coin l = Some (cu_ledger s)"
  proof -
    have "sub_coins B payee coin l = (if snd coin \<le> l payee (fst coin) then Some (debit payee coin l) else None)"
      using assms(6) pos unfolding bank_laws_def by (metis less_imp_le)
    moreover have "snd coin \<le> l payee (fst coin)" using assms(8) by (simp add: l credit_def)
    moreover have "debit payee coin l = cu_ledger s" by (auto simp: l credit_def debit_def fun_eq_iff)
    ultimately show ?thesis by simp
  qed
  have tb: "total_sub C coin tt = Some (cu_supply s)" using assms(9) pos by (simp add: total_sub_law [OF assms(4)] t1)
  have ri: "registry_inv S L (cu_ccs s)" using inv assms(2,3) by (simp add: cur_inv_def)
  have "0 \<le> registry_supply (cu_ccs s) (fst coin)" using inv assms(9) by (simp add: cur_inv_def)
  then obtain ccs2 where d: "DecreaseCurrencySupply S L coin ccs = (Ok (), ccs2)"
    using decrease_after_increase [OF assms(2,3) _ _ pos o(3)] ri by blast
  have rs: "registry_supply ccs2 = registry_supply (cu_ccs s)"
    using reg.incr_decr [OF ri, of coin ccs ccs2] o(3) d by simp
  have j: "getNextWithdrawID S s1 = Some ?j" using incr_id_Some [OF assms(5,10)] by (simp add: getNextWithdrawID_def s1)
  have "\<exists>c. GetCurrency ccs (fst coin) = Ok c"
    using d by (auto simp: DecreaseCurrencySupply_def elim: change_supply_Ok)
  then show ?thesis
    using j n lb tb d rs
    by (auto simp: WithdrawCurrency_def withdraw_body_def s1 storeWithdraw_def GetWithdraw_def NewWithdraw_def)
qed

theorem cur_issue_withdraw_witness:
  "\<exists>s2. WithdrawCurrency ref_sdk ref_vm_lib ref_cur_lib ref_bank 2 ''tx'' (''xfi'', 5) (replicate 20 (CHR ''p'')) ''eth'' ''c'' (ex_cur1 ''i1'') = (Ok (), s2) \<and>
     cu_supply s2 = (\<lambda>_. 0)"
proof -
  have r0: "cur_reach ref_sdk ref_vm_lib ref_cur_lib ref_bank ref_staking 2000000000 ex_cur0"
    by (rule cur_start) (simp_all add: ex_cur0_def ex_ccs0_supply ccs_create [OF ccs_start ex_ccs0_create])
  from cur_issue_withdraw [OF r0 ref_int_laws ref_vm_lib_laws ref_cur_lib_laws ref_uint_laws ref_bank_laws ex_issue,
      of 2 "''tx''" "''eth''" "''c''" "''i1''"]
  show ?thesis by (auto simp: ex_cur0_def next_id_def)
qed



text \<open>
  The export of the genesis parses the storage keys of the issues: it panics exactly if the identifier of some issue, which the
  submitter chooses freely, contains the separator.
\<close>

theorem cur_export_panics_iff:
  assumes "cur_reach S L C B K t s" and "int_laws S" and "vm_lib_laws L" and "cur_lib_laws S C" and "uint_laws S"
  shows "Cur_ExportGenesis s = None \<longleftrightarrow> (\<exists>i. HasIssue s i \<and> CHR '':'' \<in> set i)"
proof -
  have io: "issues_ok S s" using cur_reach_inv [OF assms(2-5,1)] by (simp add: cur_inv_def)
  have wf: "kv_wf (cu_issues s)" using io by (simp add: issues_ok_def)
  have "(\<exists>p \<in> set (cu_issues s). CHR '':'' \<in> set (issue_id (fst p))) \<longleftrightarrow> (\<exists>i. HasIssue s i \<and> CHR '':'' \<in> set i)"
  proof
    assume "\<exists>p \<in> set (cu_issues s). CHR '':'' \<in> set (issue_id (fst p))"
    then obtain p where p: "p \<in> set (cu_issues s)" "CHR '':'' \<in> set (issue_id (fst p))" by blast
    then have "kv_get (GetIssuesKey (issue_id (fst p))) (cu_issues s) = Some (snd p)"
      using issue_keys [OF io] kv_get_iff [OF wf, of "fst p" "snd p"] by simp
    with p(2) show "\<exists>i. HasIssue s i \<and> CHR '':'' \<in> set i" by (auto simp: HasIssue_def kv_has_iff)
  next
    assume "\<exists>i. HasIssue s i \<and> CHR '':'' \<in> set i"
    then obtain i x where "kv_get (GetIssuesKey i) (cu_issues s) = Some x" "CHR '':'' \<in> set i" by (auto simp: HasIssue_def kv_has_iff)
    then show "\<exists>p \<in> set (cu_issues s). CHR '':'' \<in> set (issue_id (fst p))" by (force dest: kv_get_mem)
  qed
  then show ?thesis unfolding export_issues [OF io] by simp
qed

theorem cur_export_panics_iff_witness:
  "Cur_ExportGenesis (ex_cur1 ''eth:1'') = None \<and> Cur_ExportGenesis (ex_cur1 ''i1'') \<noteq> None"
proof -
  have r: "cur_reach ref_sdk ref_vm_lib ref_cur_lib ref_bank ref_staking 2000000000 (ex_cur1 ''eth:1'')"
    "cur_reach ref_sdk ref_vm_lib ref_cur_lib ref_bank ref_staking 2000000000 (ex_cur1 ''i1'')" by (rule ex_cur1_reach, simp)+
  have h: "HasIssue (ex_cur1 j) i \<longleftrightarrow> i = j" for i j
    by (auto simp: HasIssue_def kv_has_iff kv_get_def ex_cur1_def)
  show ?thesis
    using cur_export_panics_iff [OF r(1) ref_int_laws ref_vm_lib_laws ref_cur_lib_laws ref_uint_laws]
      cur_export_panics_iff [OF r(2) ref_int_laws ref_vm_lib_laws ref_cur_lib_laws ref_uint_laws] by (simp add: h)
qed

text \<open>
  Where the export returns, its genesis is valid at the current time and initialising the module from it restores the
  issues, the withdraws and the last identifier.
\<close>

theorem cur_genesis_roundtrip:
  assumes "cur_reach S L C B K t s" and "int_laws S" and "vm_lib_laws L" and "cur_lib_laws S C" and "uint_laws S"
    and "Cur_ExportGenesis s = Some g"
  shows "Cur_InitGenesis S (Some t) g (s\<lparr>cu_issues := [], cu_withdraws := [], cu_lastWithdraw := None\<rparr>) = Some s"
proof -
  have io: "issues_ok S s" and wo: "withdraws_ok S t s" using cur_reach_inv [OF assms(2-5,1)] by (simp_all add: cur_inv_def)
  from assms(6) export_init_cur [OF io wo] show ?thesis
    unfolding export_issues [OF io] by (simp add: cur_blank_def split: if_splits)
qed

theorem cur_genesis_roundtrip_witness:
  "\<exists>g. Cur_ExportGenesis (ex_cur1 ''i1'') = Some g \<and>
    Cur_InitGenesis ref_sdk (Some 2000000000) g ((ex_cur1 ''i1'')\<lparr>cu_issues := [], cu_withdraws := [], cu_lastWithdraw := None\<rparr>) = Some (ex_cur1 ''i1'')"
proof -
  have r: "cur_reach ref_sdk ref_vm_lib ref_cur_lib ref_bank ref_staking 2000000000 (ex_cur1 ''i1'')" by (rule ex_cur1_reach) simp
  have "issues_ok ref_sdk (ex_cur1 ''i1'')"
    using cur_reach_inv [OF ref_int_laws ref_vm_lib_laws ref_cur_lib_laws ref_uint_laws r] by (simp add: cur_inv_def)
  from export_issues [OF this] obtain g where "Cur_ExportGenesis (ex_cur1 ''i1'') = Some g" by (simp add: ex_cur1_def ex_cur0_def)
  with cur_genesis_roundtrip [OF r ref_int_laws ref_vm_lib_laws ref_cur_lib_laws ref_uint_laws this] show ?thesis by blast
qed

text \<open>
  The registered invariant of the module compares the supplies of the registry with themselves: it is never reported as broken, not
  even in a state in which the registry and the supply module disagree.
\<close>

lemma cur_total_supply_vacuous:
  "TotalSupply S C s \<noteq> Some True \<and>
   (\<exists>s0 :: unit cur_state. TotalSupply ref_sdk ref_cur_lib s0 = Some False \<and> GetCurrency (cu_ccs s0) ''xfi'' = Ok (NewCurrency ex_params 5) \<and>
      cu_supply s0 ''xfi'' = 77)"
proof
  show "TotalSupply S C s \<noteq> Some True" by (simp add: TotalSupply_def)
  let ?s = "(ex_cur1 ''i1'')\<lparr>cu_supply := (\<lambda>_. 0)(''xfi'' := 77)\<rparr>"
  have "currencies_totals ref_sdk ref_cur_lib (GetCurrencies ex_ccs) (\<lambda>_. 0) = Some ((\<lambda>_. 0)(''xfi'' := 5))"
    by (simp add: ex_ccs_currencies GetSupplyCoin_def NewCurrency_def ex_params_def ref_sdk_def ref_denom_xfi ref_cur_lib_def)
  then have "TotalSupply ref_sdk ref_cur_lib ?s = Some False" by (simp add: TotalSupply_def ex_cur1_def)
  then show "\<exists>s0 :: unit cur_state. TotalSupply ref_sdk ref_cur_lib s0 = Some False \<and>
      GetCurrency (cu_ccs s0) ''xfi'' = Ok (NewCurrency ex_params 5) \<and> cu_supply s0 ''xfi'' = 77"
    by (intro exI [of _ ?s]) (simp add: ex_cur1_def ex_ccs_xfi)
qed

end
