(* ===== verification/Oracle.thy ===== *)
theory Oracle
  imports CommonVM "HOL-Library.Multiset"
begin

text \<open>
  Module \<open>x/oracle\<close>: the assets with their price sources (oracles), managed by nominees; the prices the
  oracles post during a block; the median that becomes the current price at the end of the block, written
  also to the storage of the virtual machine, for the asset and for the reversed asset; queries and genesis.
  This theory has the definitions.
\<close>

section \<open>Libraries\<close>

text \<open>
  \<open>OracleAccessVector\<close> is the access path of \<open>glav\<close>, \<open>lcs_price\<close> the serialisation of a price, \<open>addr_string\<close> the
  text form of an address, \<open>int_quo\<close> the division of \<open>sdk.Int\<close>. The fields \<open>d_\<dots>\<close> are the decimals of
  \<open>shopspring/decimal\<close> over their type \<open>'d\<close>. \<open>sort_slice f\<close> is \<open>sort.Slice\<close> with the order of the values of \<open>f\<close>: it is not
  stable, so only its result up to equal values is known.
\<close>

record PostedPrice =
  po_AssetCode :: AssetCode
  po_OracleAddress :: bytes
  po_AskPrice :: int
  po_BidPrice :: int
  po_ReceivedAt :: int

record 'd orc_lib =
  OracleAccessVector :: "string \<Rightarrow> string \<Rightarrow> bytes"
  lcs_price :: "int \<Rightarrow> bytes option"
  addr_string :: "bytes \<Rightarrow> string"
  int_quo :: "int \<Rightarrow> int \<Rightarrow> int option"
  d_new :: "int \<Rightarrow> int \<Rightarrow> 'd"
  d_div :: "'d \<Rightarrow> 'd \<Rightarrow> 'd option"
  d_mul :: "'d \<Rightarrow> 'd \<Rightarrow> 'd"
  d_pow :: "'d \<Rightarrow> 'd \<Rightarrow> 'd"
  d_big :: "'d \<Rightarrow> int"
  sort_slice :: "(PostedPrice \<Rightarrow> int) \<Rightarrow> PostedPrice list \<Rightarrow> PostedPrice list"

section \<open>Types and keys\<close>

record Oracle =
  or_Address :: bytes

record Asset =
  as_AssetCode :: AssetCode
  as_Oracles :: "Oracle list"
  as_Active :: bool

text \<open>\<open>ReceivedAtDiffInS\<close> is a \<open>uint32\<close>.\<close>

record PostPriceParams =
  pp_ReceivedAtDiffInS :: "32 word"

record OrcParams =
  op_Assets :: "Asset list"
  op_Nominees :: "string list"
  op_PostPrice :: PostPriceParams

record CurrentPrice =
  cp_AssetCode :: AssetCode
  cp_AskPrice :: int
  cp_BidPrice :: int
  cp_ReceivedAt :: int

record CurrentAssetPrice =
  ca_AssetCode :: AssetCode
  ca_Price :: int
  ca_ReceivedAt :: int

record OrcGenesis =
  og_Params :: OrcParams
  og_CurrentPrices :: "CurrentPrice list"

datatype orc_error =
    OrcErrInternal | OrcErrInvalidAsset | OrcErrInvalidOracle | OrcErrExistingAsset | OrcErrInvalidReceivedAt
  | OrcErrInvalidAddress | OrcErrUnknownRequest
  | OrcErrNotNominee | OrcErrAssetNotFound | OrcErrAssetExists | OrcErrOracleNotFound | OrcErrOracleExists
  | OrcErrAssetCode filter_error | OrcErrPrice | OrcErrGenesis

definition NewOracle :: "bytes \<Rightarrow> Oracle" where
  "NewOracle address = \<lparr>or_Address = address\<rparr>"

definition Asset_ValidateBasic :: "Asset \<Rightarrow> (orc_error, unit) res" where
  "Asset_ValidateBasic a =
     (case AssetCode_Validate (as_AssetCode a) of
        Err e \<Rightarrow> Err OrcErrInternal
      | Panic \<Rightarrow> Panic
      | Ok _ \<Rightarrow> if length (as_Oracles a) = 0 then Err OrcErrInternal else Ok ())"

definition FormatInt :: "int \<Rightarrow> string" where
  "FormatInt i = (if i < 0 then CHR ''-'' # dec_digits (nat (- i)) else dec_digits (nat i))"

definition GetRawPricesKey :: "AssetCode \<Rightarrow> int \<Rightarrow> bytes" where
  "GetRawPricesKey assetCode blockHeight = join_with (CHR '':'') [''oracle'', ''raw'', assetCode, FormatInt blockHeight]"

definition GetCurrentPricePrefix :: bytes where
  "GetCurrentPricePrefix = join_with (CHR '':'') [''oracle'', ''currentprice'']"

definition GetCurrentPriceKey :: "AssetCode \<Rightarrow> bytes" where
  "GetCurrentPriceKey assetCode = join_with (CHR '':'') [GetCurrentPricePrefix, assetCode]"

text \<open>The reversed price of \<open>GetReversedAssetCurrentPrice\<close>; \<open>None\<close> is a panic.\<close>

definition reverseInt :: "sdk \<Rightarrow> 'd orc_lib \<Rightarrow> int \<Rightarrow> int option" where
  "reverseInt S D p =
     Option.bind (d_div D (d_new D 1 0) (d_new D p (- 8))) (\<lambda>decP.
       int_of_big S (d_big D (d_mul D decP (d_pow D (d_new D 10 0) (d_new D 8 0)))))"

definition GetReversedAssetCurrentPrice :: "sdk \<Rightarrow> 'd orc_lib \<Rightarrow> CurrentPrice \<Rightarrow> CurrentPrice option" where
  "GetReversedAssetCurrentPrice S D cp =
     Option.bind (ReverseCode (cp_AssetCode cp)) (\<lambda>code.
     Option.bind (reverseInt S D (cp_BidPrice cp)) (\<lambda>ask.
     Option.bind (reverseInt S D (cp_AskPrice cp)) (\<lambda>bid.
       Some \<lparr>cp_AssetCode = code, cp_AskPrice = ask, cp_BidPrice = bid, cp_ReceivedAt = cp_ReceivedAt cp\<rparr>)))"

definition CurrentPrice_Valid :: "CurrentPrice \<Rightarrow> (orc_error, unit) res" where
  "CurrentPrice_Valid cp =
     (case AssetCode_Validate (cp_AssetCode cp) of
        Err e \<Rightarrow> Err (OrcErrAssetCode e)
      | Panic \<Rightarrow> Panic
      | Ok _ \<Rightarrow>
          if cp_AskPrice cp = 0 then Err OrcErrPrice
          else if cp_AskPrice cp < 0 then Err OrcErrPrice
          else if cp_BidPrice cp = 0 then Err OrcErrPrice
          else if cp_BidPrice cp < 0 then Err OrcErrPrice
          else if cp_ReceivedAt cp = time_zero then Err OrcErrPrice
          else Ok ())"

fun validate_assets :: "Asset list \<Rightarrow> (orc_error, unit) res" where
  "validate_assets [] = Ok ()"
| "validate_assets (a # as) =
     (case AssetCode_Validate (as_AssetCode a) of
        Err e \<Rightarrow> Err (OrcErrAssetCode e)
      | Panic \<Rightarrow> Panic
      | Ok _ \<Rightarrow> validate_assets as)"

definition OrcParams_Validate :: "OrcParams \<Rightarrow> (orc_error, unit) res" where
  "OrcParams_Validate p =
     (case validate_assets (op_Assets p) of
        Ok _ \<Rightarrow> if [] \<in> set (op_Nominees p) then Err OrcErrGenesis else Ok ()
      | r \<Rightarrow> r)"

fun orc_validate_loop :: "int \<Rightarrow> CurrentPrice list \<Rightarrow> AssetCode set \<Rightarrow> (orc_error, unit) res" where
  "orc_validate_loop blockTime [] assets = Ok ()"
| "orc_validate_loop blockTime (cPrice # cps) assets =
     (case CurrentPrice_Valid cPrice of
        Ok _ \<Rightarrow>
          if blockTime \<noteq> time_zero \<and> blockTime < cp_ReceivedAt cPrice then Err OrcErrGenesis
          else if cp_AssetCode cPrice \<in> assets then Err OrcErrGenesis
          else orc_validate_loop blockTime cps (insert (cp_AssetCode cPrice) assets)
      | r \<Rightarrow> r)"

definition OrcGenesis_Validate :: "int \<Rightarrow> OrcGenesis \<Rightarrow> (orc_error, unit) res" where
  "OrcGenesis_Validate blockTime gs =
     (case OrcParams_Validate (og_Params gs) of
        Ok _ \<Rightarrow> orc_validate_loop blockTime (og_CurrentPrices gs) {}
      | r \<Rightarrow> r)"

text \<open>\<open>GetAssetCodePath\<close> and \<open>NewResPriceStorageValuesPanic\<close> (\<open>None\<close> is the panic).\<close>

definition GetAssetCodePath :: "'d orc_lib \<Rightarrow> AssetCode \<Rightarrow> VMAccessPath option" where
  "GetAssetCodePath D assetCode =
     (let assets = split_on AssetCodeDelimiter assetCode in
      if length assets \<noteq> 2 then None
      else Some \<lparr>ap_Address = StdLibAddress, ap_Path = OracleAccessVector D (assets ! 0) (assets ! 1)\<rparr>)"

definition NewResPriceStorageValuesPanic :: "'d orc_lib \<Rightarrow> AssetCode \<Rightarrow> int \<Rightarrow> (VMAccessPath \<times> bytes) option" where
  "NewResPriceStorageValuesPanic D assetCode price =
     Option.bind (GetAssetCodePath D assetCode) (\<lambda>key.
     Option.bind (lcs_price D price) (\<lambda>value. Some (key, value)))"

section \<open>Parameters, assets and oracles\<close>

text \<open>
  The state: the parameters, the posted prices (prefix \<open>raw\<close>), the current prices (prefix \<open>currentprice\<close>) and the
  storage of the virtual machine.
\<close>

record orc_state =
  or_params :: OrcParams
  or_raw :: "PostedPrice list kv"
  or_current :: "CurrentPrice kv"
  or_vm :: vm_store

definition GetAssetParams :: "orc_state \<Rightarrow> Asset list" where
  "GetAssetParams s = op_Assets (or_params s)"

definition IsNominee :: "orc_state \<Rightarrow> string \<Rightarrow> (orc_error, unit) res" where
  "IsNominee s address = (if address \<in> set (op_Nominees (or_params s)) then Ok () else Err OrcErrNotNominee)"

definition set_assets :: "Asset list \<Rightarrow> orc_state \<Rightarrow> orc_state" where
  "set_assets as s = s\<lparr>or_params := (or_params s)\<lparr>op_Assets := as\<rparr>\<rparr>"

fun find_asset :: "AssetCode \<Rightarrow> Asset list \<Rightarrow> Asset option" where
  "find_asset assetCode [] = None"
| "find_asset assetCode (a # as) = (if as_AssetCode a = assetCode then Some a else find_asset assetCode as)"

definition GetAsset :: "orc_state \<Rightarrow> AssetCode \<Rightarrow> Asset option" where
  "GetAsset s assetCode = find_asset assetCode (GetAssetParams s)"

text \<open>The loops over the assets that replace every asset with the code and note whether there is one.\<close>

fun update_assets :: "AssetCode \<Rightarrow> (Asset \<Rightarrow> Asset) \<Rightarrow> Asset list \<Rightarrow> Asset list \<times> bool" where
  "update_assets assetCode f [] = ([], False)"
| "update_assets assetCode f (a # as) =
     (let (as', found) = update_assets assetCode f as in
      if assetCode = as_AssetCode a then (f a # as', True) else (a # as', found))"

definition SetAsset :: "string \<Rightarrow> Asset \<Rightarrow> (orc_state, orc_error, unit) op" where
  "SetAsset nominee asset s =
     (case IsNominee s nominee of
        Ok _ \<Rightarrow>
          (let (updateAssets, found) = update_assets (as_AssetCode asset) (\<lambda>_. asset) (GetAssetParams s) in
           if found then (Ok (), set_assets updateAssets s) else (Err OrcErrAssetNotFound, s))
      | r \<Rightarrow> (r, s))"

definition AddAsset :: "string \<Rightarrow> Asset \<Rightarrow> (orc_state, orc_error, unit) op" where
  "AddAsset nominee asset s =
     (case IsNominee s nominee of
        Ok _ \<Rightarrow>
          if GetAsset s (as_AssetCode asset) \<noteq> None then (Err OrcErrAssetExists, s)
          else (Ok (), set_assets (GetAssetParams s @ [asset]) s)
      | r \<Rightarrow> (r, s))"

definition GetOracles :: "orc_state \<Rightarrow> AssetCode \<Rightarrow> (orc_error, Oracle list) res" where
  "GetOracles s assetCode =
     (case find_asset assetCode (GetAssetParams s) of Some a \<Rightarrow> Ok (as_Oracles a) | None \<Rightarrow> Err OrcErrOracleNotFound)"

definition GetOracle :: "orc_state \<Rightarrow> AssetCode \<Rightarrow> bytes \<Rightarrow> (orc_error, Oracle) res" where
  "GetOracle s assetCode address =
     (case GetOracles s assetCode of
        Ok oracles \<Rightarrow>
          (case find (\<lambda>x. address = or_Address x) oracles of Some x \<Rightarrow> Ok x | None \<Rightarrow> Err OrcErrOracleNotFound)
      | Err e \<Rightarrow> Err e
      | Panic \<Rightarrow> Panic)"

definition AddOracle :: "string \<Rightarrow> AssetCode \<Rightarrow> bytes \<Rightarrow> (orc_state, orc_error, unit) op" where
  "AddOracle nominee assetCode address s =
     (case IsNominee s nominee of
        Ok _ \<Rightarrow>
          if is_ok (GetOracle s assetCode address) then (Err OrcErrOracleExists, s)
          else
            (let (updateAssets, found) =
                   update_assets assetCode (\<lambda>a. a\<lparr>as_Oracles := as_Oracles a @ [NewOracle address]\<rparr>) (GetAssetParams s) in
             if found then (Ok (), set_assets updateAssets s) else (Err OrcErrAssetNotFound, s))
      | r \<Rightarrow> (r, s))"

definition SetOracles :: "string \<Rightarrow> AssetCode \<Rightarrow> Oracle list \<Rightarrow> (orc_state, orc_error, unit) op" where
  "SetOracles nominee assetCode addresses s =
     (case IsNominee s nominee of
        Ok _ \<Rightarrow>
          (let (updateAssets, found) = update_assets assetCode (\<lambda>a. a\<lparr>as_Oracles := addresses\<rparr>) (GetAssetParams s) in
           if found then (Ok (), set_assets updateAssets s) else (Err OrcErrAssetNotFound, s))
      | r \<Rightarrow> (r, s))"

section \<open>Posted prices\<close>

definition GetRawPrices :: "orc_state \<Rightarrow> AssetCode \<Rightarrow> int \<Rightarrow> PostedPrice list" where
  "GetRawPrices s assetCode blockHeight =
     (case kv_get (GetRawPricesKey assetCode blockHeight) (or_raw s) of Some ps \<Rightarrow> ps | None \<Rightarrow> [])"

text \<open>A duration is an \<open>int64\<close>: the negation of the least one is itself.\<close>

definition absDuration :: "64 word \<Rightarrow> 64 word" where
  "absDuration dur = (if sint dur < 0 then - dur else dur)"

definition checkPriceReceivedAtTimestamp :: "int \<Rightarrow> int \<Rightarrow> orc_state \<Rightarrow> (orc_error, unit) res" where
  "checkPriceReceivedAtTimestamp blockTime receivedAt s =
     (let cfg = op_PostPrice (or_params s) in
      if 0 < pp_ReceivedAtDiffInS cfg then
        let thresholdDur = ucast (pp_ReceivedAtDiffInS cfg) * (1000000000 :: 64 word);
            diffDur = word_of_int (time_sub blockTime receivedAt) :: 64 word
        in if sint thresholdDur < sint (absDuration diffDur) then Err OrcErrInvalidReceivedAt else Ok ()
      else Ok ())"

fun put_price :: "PostedPrice \<Rightarrow> PostedPrice list \<Rightarrow> PostedPrice list" where
  "put_price p [] = [p]"
| "put_price p (x # xs) = (if po_OracleAddress x = po_OracleAddress p then p # xs else x # put_price p xs)"

definition SetPrice :: "int \<Rightarrow> int \<Rightarrow> bytes \<Rightarrow> AssetCode \<Rightarrow> int \<Rightarrow> int \<Rightarrow> int \<Rightarrow> (orc_state, orc_error, PostedPrice) op" where
  "SetPrice blockHeight blockTime oracle assetCode askPrice bidPrice receivedAt s =
     (case checkPriceReceivedAtTimestamp blockTime receivedAt s of
        Ok _ \<Rightarrow>
          let p = \<lparr>po_AssetCode = assetCode, po_OracleAddress = oracle, po_AskPrice = askPrice, po_BidPrice = bidPrice,
                   po_ReceivedAt = receivedAt\<rparr>;
              prices = put_price p (GetRawPrices s assetCode blockHeight)
          in (Ok p, s\<lparr>or_raw := kv_set (GetRawPricesKey assetCode blockHeight) prices (or_raw s)\<rparr>)
      | Err e \<Rightarrow> (Err e, s)
      | Panic \<Rightarrow> (Panic, s))"

definition ValidatePostPrice :: "AssetCode \<Rightarrow> bytes \<Rightarrow> orc_state \<Rightarrow> (orc_error, unit) res" where
  "ValidatePostPrice assetCode from s =
     (if GetAsset s assetCode = None then Err OrcErrInvalidAsset
      else if \<not> is_ok (GetOracle s assetCode from) then Err OrcErrInvalidOracle
      else Ok ())"

section \<open>Current prices\<close>

text \<open>The missing price is decoded to the zero value.\<close>

definition no_price :: CurrentPrice where
  "no_price = \<lparr>cp_AssetCode = [], cp_AskPrice = 0, cp_BidPrice = 0, cp_ReceivedAt = time_zero\<rparr>"

definition GetCurrentPrice :: "orc_state \<Rightarrow> AssetCode \<Rightarrow> CurrentPrice" where
  "GetCurrentPrice s assetCode =
     (case kv_get (GetCurrentPriceKey assetCode) (or_current s) of Some p \<Rightarrow> p | None \<Rightarrow> no_price)"

definition GetCurrentPricesList :: "orc_state \<Rightarrow> CurrentPrice list" where
  "GetCurrentPricesList s = kv_vals (or_current s)"

definition addCurrentPrice :: "CurrentPrice \<Rightarrow> orc_state \<Rightarrow> orc_state" where
  "addCurrentPrice cp s = s\<lparr>or_current := kv_set (GetCurrentPriceKey (cp_AssetCode cp)) cp (or_current s)\<rparr>"

text \<open>
  The medians of ask and bid and the time of the price, \<open>None\<close> for a panic. The slice sorted by ask price is
  \<open>rawPrices\<close> itself (\<open>askRawPrices := rawPrices\<close>), so the time of an odd number of prices belongs to the median ask.
\<close>

definition median_prices :: "sdk \<Rightarrow> 'd orc_lib \<Rightarrow> int \<Rightarrow> PostedPrice list \<Rightarrow> (int \<times> int \<times> int) option" where
  "median_prices S D blockTime rawPrices =
     (let l = length rawPrices in
      if l = 0 then Some (0, 0, time_zero)
      else if l = 1 then Some (po_AskPrice (rawPrices ! 0), po_BidPrice (rawPrices ! 0), po_ReceivedAt (rawPrices ! 0))
      else
        let askRawPrices = sort_slice D po_AskPrice rawPrices;
            bidRawPrices = sort_slice D po_BidPrice rawPrices
        in if l mod 2 = 0 then
             Option.bind (int_add S (po_AskPrice (askRawPrices ! (l div 2 - 1))) (po_AskPrice (askRawPrices ! (l div 2)))) (\<lambda>sumA.
             Option.bind (int_add S (po_BidPrice (bidRawPrices ! (l div 2 - 1))) (po_BidPrice (bidRawPrices ! (l div 2)))) (\<lambda>sumB.
             Option.bind (int_quo D sumA 2) (\<lambda>medianAskPrice.
             Option.bind (int_quo D sumB 2) (\<lambda>medianBidPrice.
               Some (medianAskPrice, medianBidPrice, blockTime)))))
           else Some (po_AskPrice (askRawPrices ! (l div 2)), po_BidPrice (bidRawPrices ! (l div 2)),
                      po_ReceivedAt (askRawPrices ! (l div 2))))"

text \<open>Storing a new price: the price, its resource and the resource of the reversed asset.\<close>

definition store_price :: "sdk \<Rightarrow> 'd orc_lib \<Rightarrow> CurrentPrice \<Rightarrow> (orc_state, orc_error, unit) op" where
  "store_price S D newPrice s =
     (let s1 = addCurrentPrice newPrice s in
      case NewResPriceStorageValuesPanic D (cp_AssetCode newPrice) (cp_AskPrice newPrice) of
        None \<Rightarrow> (Panic, s1)
      | Some (path, v) \<Rightarrow>
          let s2 = s1\<lparr>or_vm := setValue path v (or_vm s1)\<rparr> in
          (case GetReversedAssetCurrentPrice S D newPrice of
             None \<Rightarrow> (Panic, s2)
           | Some newPriceReversed \<Rightarrow>
               (case NewResPriceStorageValuesPanic D (cp_AssetCode newPriceReversed) (cp_AskPrice newPriceReversed) of
                  None \<Rightarrow> (Panic, s2)
                | Some (path', v') \<Rightarrow> (Ok (), s2\<lparr>or_vm := setValue path' v' (or_vm s2)\<rparr>))))"

definition set_current_price :: "sdk \<Rightarrow> 'd orc_lib \<Rightarrow> int \<Rightarrow> int \<Rightarrow> AssetCode \<Rightarrow> (orc_state, orc_error, unit) op" where
  "set_current_price S D blockHeight blockTime assetCode s =
     (case median_prices S D blockTime (GetRawPrices s assetCode blockHeight) of
        None \<Rightarrow> (Panic, s)
      | Some (medianAskPrice, medianBidPrice, medianReceivedAt) \<Rightarrow>
          if medianAskPrice = 0 \<or> medianBidPrice = 0 then (Ok (), s)
          else let oldPrice = GetCurrentPrice s assetCode in
            if cp_AssetCode oldPrice \<noteq> [] \<and> cp_AskPrice oldPrice = medianAskPrice \<and> cp_BidPrice oldPrice = medianBidPrice
            then (Ok (), s)
            else store_price S D \<lparr>cp_AssetCode = assetCode, cp_AskPrice = medianAskPrice, cp_BidPrice = medianBidPrice,
                                  cp_ReceivedAt = medianReceivedAt\<rparr> s)"

fun set_prices_loop :: "sdk \<Rightarrow> 'd orc_lib \<Rightarrow> int \<Rightarrow> int \<Rightarrow> Asset list \<Rightarrow> (orc_state, orc_error, unit) op" where
  "set_prices_loop S D blockHeight blockTime [] s = (Ok (), s)"
| "set_prices_loop S D blockHeight blockTime (v # assets) s =
     (case set_current_price S D blockHeight blockTime (as_AssetCode v) s of
        (Ok _, s') \<Rightarrow> set_prices_loop S D blockHeight blockTime assets s'
      | (r, s') \<Rightarrow> (r, s'))"

definition SetCurrentPrices :: "sdk \<Rightarrow> 'd orc_lib \<Rightarrow> int \<Rightarrow> int \<Rightarrow> (orc_state, orc_error, unit) op" where
  "SetCurrentPrices S D blockHeight blockTime s = set_prices_loop S D blockHeight blockTime (GetAssetParams s) s"

definition Orc_EndBlocker :: "sdk \<Rightarrow> 'd orc_lib \<Rightarrow> int \<Rightarrow> int \<Rightarrow> (orc_state, orc_error, unit) op" where
  "Orc_EndBlocker S D blockHeight blockTime s =
     (case SetCurrentPrices S D blockHeight blockTime s of
        (Ok _, s') \<Rightarrow> (Ok (), s')
      | (_, s') \<Rightarrow> (Panic, s'))"

section \<open>Messages\<close>

datatype orc_msg =
    MsgPostPrice bytes AssetCode int int int
  | MsgAddOracle bytes bytes AssetCode
  | MsgSetOracles "Oracle list" bytes AssetCode
  | MsgSetAsset bytes Asset
  | MsgAddAsset bytes Asset

definition MsgPostPrice_ValidateBasic :: "bytes \<Rightarrow> AssetCode \<Rightarrow> int \<Rightarrow> int \<Rightarrow> (orc_error, unit) res" where
  "MsgPostPrice_ValidateBasic from assetCode askPrice bidPrice =
     (if from = [] then Err OrcErrInternal
      else if AssetCode_Validate assetCode \<noteq> Ok () then Err OrcErrInternal
      else if askPrice < 0 then Err OrcErrInternal
      else if \<not> \<bar>askPrice\<bar> < 2 ^ 64 then Err OrcErrInternal
      else if bidPrice < 0 then Err OrcErrInternal
      else if \<not> \<bar>bidPrice\<bar> < 2 ^ 64 then Err OrcErrInternal
      else Ok ())"

definition MsgAddOracle_ValidateBasic :: "bytes \<Rightarrow> bytes \<Rightarrow> AssetCode \<Rightarrow> (orc_error, unit) res" where
  "MsgAddOracle_ValidateBasic oracle nominee assetCode =
     (if oracle = [] then Err OrcErrInvalidAddress
      else if AssetCode_Validate assetCode \<noteq> Ok () then Err OrcErrInternal
      else if nominee = [] then Err OrcErrInvalidAddress
      else Ok ())"

definition MsgSetOracles_ValidateBasic :: "Oracle list \<Rightarrow> bytes \<Rightarrow> AssetCode \<Rightarrow> (orc_error, unit) res" where
  "MsgSetOracles_ValidateBasic oracles nominee assetCode =
     (if length oracles = 0 then Err OrcErrInvalidAddress
      else if AssetCode_Validate assetCode \<noteq> Ok () then Err OrcErrInternal
      else if nominee = [] then Err OrcErrInvalidAddress
      else Ok ())"

definition MsgSetAsset_ValidateBasic :: "bytes \<Rightarrow> Asset \<Rightarrow> (orc_error, unit) res" where
  "MsgSetAsset_ValidateBasic nominee asset =
     (case Asset_ValidateBasic asset of
        Ok _ \<Rightarrow> if nominee = [] then Err OrcErrInvalidAddress else Ok ()
      | r \<Rightarrow> r)"

definition MsgAddAsset_ValidateBasic :: "bytes \<Rightarrow> Asset \<Rightarrow> (orc_error, unit) res" where
  "MsgAddAsset_ValidateBasic nominee asset =
     (case Asset_ValidateBasic asset of
        Ok _ \<Rightarrow> if nominee = [] then Err OrcErrInvalidAddress else Ok ()
      | r \<Rightarrow> r)"

fun orc_msg_valid :: "orc_msg \<Rightarrow> (orc_error, unit) res" where
  "orc_msg_valid (MsgPostPrice from code ask bid recv) = MsgPostPrice_ValidateBasic from code ask bid"
| "orc_msg_valid (MsgAddOracle oracle nominee code) = MsgAddOracle_ValidateBasic oracle nominee code"
| "orc_msg_valid (MsgSetOracles oracles nominee code) = MsgSetOracles_ValidateBasic oracles nominee code"
| "orc_msg_valid (MsgSetAsset nominee asset) = MsgSetAsset_ValidateBasic nominee asset"
| "orc_msg_valid (MsgAddAsset nominee asset) = MsgAddAsset_ValidateBasic nominee asset"

definition internal_error :: "(orc_error, unit) res \<times> orc_state \<Rightarrow> (orc_error, unit) res \<times> orc_state" where
  "internal_error r = (case r of (Err e, s) \<Rightarrow> (Err OrcErrInternal, s) | _ \<Rightarrow> r)"

definition handleMsgPostPrice ::
  "int \<Rightarrow> int \<Rightarrow> bytes \<Rightarrow> AssetCode \<Rightarrow> int \<Rightarrow> int \<Rightarrow> int \<Rightarrow> (orc_state, orc_error, unit) op" where
  "handleMsgPostPrice blockHeight blockTime from assetCode askPrice bidPrice receivedAt s =
     (case ValidatePostPrice assetCode from s of
        Err e \<Rightarrow> (Err e, s)
      | Panic \<Rightarrow> (Panic, s)
      | Ok _ \<Rightarrow>
          if \<not> is_ok (GetOracle s assetCode from) then (Err OrcErrInvalidOracle, s)
          else (case SetPrice blockHeight blockTime from assetCode askPrice bidPrice receivedAt s of
                  (Ok _, s') \<Rightarrow> (Ok (), s')
                | (Err e, s') \<Rightarrow> (Err e, s')
                | (Panic, s') \<Rightarrow> (Panic, s')))"

definition handleMsgAddOracle :: "'d orc_lib \<Rightarrow> bytes \<Rightarrow> bytes \<Rightarrow> AssetCode \<Rightarrow> (orc_state, orc_error, unit) op" where
  "handleMsgAddOracle D oracle nominee assetCode s =
     (case MsgAddOracle_ValidateBasic oracle nominee assetCode of
        Ok _ \<Rightarrow>
          if is_ok (GetOracle s assetCode oracle) then (Err OrcErrInvalidOracle, s)
          else internal_error (AddOracle (addr_string D nominee) assetCode oracle s)
      | r \<Rightarrow> (r, s))"

definition handleMsgSetOracles :: "'d orc_lib \<Rightarrow> Oracle list \<Rightarrow> bytes \<Rightarrow> AssetCode \<Rightarrow> (orc_state, orc_error, unit) op" where
  "handleMsgSetOracles D oracles nominee assetCode s =
     (case MsgSetOracles_ValidateBasic oracles nominee assetCode of
        Ok _ \<Rightarrow>
          if GetAsset s assetCode = None then (Err OrcErrInvalidAsset, s)
          else internal_error (SetOracles (addr_string D nominee) assetCode oracles s)
      | r \<Rightarrow> (r, s))"

definition handleMsgSetAsset :: "'d orc_lib \<Rightarrow> bytes \<Rightarrow> Asset \<Rightarrow> (orc_state, orc_error, unit) op" where
  "handleMsgSetAsset D nominee asset s =
     (case MsgSetAsset_ValidateBasic nominee asset of
        Ok _ \<Rightarrow>
          if GetAsset s (as_AssetCode asset) = None then (Err OrcErrInvalidAsset, s)
          else internal_error (SetAsset (addr_string D nominee) asset s)
      | r \<Rightarrow> (r, s))"

definition handleMsgAddAsset :: "'d orc_lib \<Rightarrow> bytes \<Rightarrow> Asset \<Rightarrow> (orc_state, orc_error, unit) op" where
  "handleMsgAddAsset D nominee asset s =
     (case MsgAddAsset_ValidateBasic nominee asset of
        Ok _ \<Rightarrow>
          if GetAsset s (as_AssetCode asset) \<noteq> None then (Err OrcErrExistingAsset, s)
          else internal_error (AddAsset (addr_string D nominee) asset s)
      | r \<Rightarrow> (r, s))"

fun Orc_NewHandler :: "'d orc_lib \<Rightarrow> int \<Rightarrow> int \<Rightarrow> orc_msg \<Rightarrow> (orc_state, orc_error, unit) op" where
  "Orc_NewHandler D h t (MsgPostPrice from code ask bid recv) s = handleMsgPostPrice h t from code ask bid recv s"
| "Orc_NewHandler D h t (MsgAddOracle oracle nominee code) s = handleMsgAddOracle D oracle nominee code s"
| "Orc_NewHandler D h t (MsgSetOracles oracles nominee code) s = handleMsgSetOracles D oracles nominee code s"
| "Orc_NewHandler D h t (MsgSetAsset nominee asset) s = handleMsgSetAsset D nominee asset s"
| "Orc_NewHandler D h t (MsgAddAsset nominee asset) s = handleMsgAddAsset D nominee asset s"

section \<open>Queries\<close>

definition queryCurrentPrice :: "sdk \<Rightarrow> 'd orc_lib \<Rightarrow> AssetCode \<Rightarrow> orc_state \<Rightarrow> (orc_error, CurrentAssetPrice) res" where
  "queryCurrentPrice S D assetCode s =
     (let out = (\<lambda>cp. \<lparr>ca_AssetCode = cp_AssetCode cp, ca_Price = cp_AskPrice cp, ca_ReceivedAt = cp_ReceivedAt cp\<rparr>) in
      if GetAsset s assetCode \<noteq> None then Ok (out (GetCurrentPrice s assetCode))
      else (case ReverseCode assetCode of
              None \<Rightarrow> Panic
            | Some reversedAssetCode \<Rightarrow>
                if GetAsset s reversedAssetCode = None then Err OrcErrUnknownRequest
                else let currentPrice = GetCurrentPrice s reversedAssetCode in
                  if cp_AssetCode currentPrice \<noteq> [] then
                    (case GetReversedAssetCurrentPrice S D currentPrice of None \<Rightarrow> Panic | Some cp \<Rightarrow> Ok (out cp))
                  else Ok (out currentPrice)))"

text \<open>\<open>strconv.ParseInt(s, 10, 64)\<close>.\<close>

definition ParseInt :: "string \<Rightarrow> int option" where
  "ParseInt str =
     (let (neg, ds) = (case str of c # cs \<Rightarrow> if c = CHR ''-'' then (True, cs) else if c = CHR ''+'' then (False, cs) else (False, str)
                       | [] \<Rightarrow> (False, [])) in
      if ds = [] \<or> \<not> list_all (\<lambda>c. 48 \<le> (of_char c :: nat) \<and> (of_char c :: nat) \<le> 57) ds then None
      else let v = (if neg then - int (dec_value 0 ds) else int (dec_value 0 ds)) in
        if - (2 ^ 63) \<le> v \<and> v < 2 ^ 63 then Some v else None)"

definition queryRawPrices :: "AssetCode \<Rightarrow> string \<Rightarrow> orc_state \<Rightarrow> (orc_error, PostedPrice list) res" where
  "queryRawPrices assetCode height s =
     (if GetAsset s assetCode = None then Err OrcErrUnknownRequest
      else (case ParseInt height of
              None \<Rightarrow> Err OrcErrUnknownRequest
            | Some blockHeight \<Rightarrow> Ok (GetRawPrices s assetCode blockHeight)))"

definition queryAssets :: "orc_state \<Rightarrow> Asset list" where
  "queryAssets s = GetAssetParams s"

section \<open>Genesis\<close>

fun orc_init_prices :: "CurrentPrice list \<Rightarrow> (orc_state, orc_error, unit) op" where
  "orc_init_prices [] s = (Ok (), s)"
| "orc_init_prices (cPrice # cps) s =
     (if GetAsset s (cp_AssetCode cPrice) = None then (Panic, s)
      else orc_init_prices cps (addCurrentPrice cPrice s))"

definition Orc_InitGenesis :: "int \<Rightarrow> OrcGenesis \<Rightarrow> (orc_state, orc_error, unit) op" where
  "Orc_InitGenesis blockTime state s =
     (case OrcGenesis_Validate blockTime state of
        Ok _ \<Rightarrow> orc_init_prices (og_CurrentPrices state) (s\<lparr>or_params := og_Params state\<rparr>)
      | _ \<Rightarrow> (Panic, s))"

definition Orc_ExportGenesis :: "orc_state \<Rightarrow> OrcGenesis" where
  "Orc_ExportGenesis s = \<lparr>og_Params = or_params s, og_CurrentPrices = GetCurrentPricesList s\<rparr>"

definition orc_DefaultParams :: OrcParams where
  "orc_DefaultParams = \<lparr>op_Assets = [], op_Nominees = [], op_PostPrice = \<lparr>pp_ReceivedAtDiffInS = 60 * 60\<rparr>\<rparr>"

definition orc_DefaultGenesisState :: OrcGenesis where
  "orc_DefaultGenesisState = \<lparr>og_Params = orc_DefaultParams, og_CurrentPrices = []\<rparr>"

end
