(* ===== verification/Oracle_Inv.thy ===== *)
theory Oracle_Inv
  imports Oracle Complex_Main
begin

text \<open>
  Lemmas on the oracle module: what the properties rely on of the libraries, asset codes and keys, reversed prices, medians, the invariant of
  the state and the end of the block.
\<close>

section \<open>Laws of the libraries\<close>

text \<open>
  \<open>val\<close> is the number a decimal stands for. A quotient is rounded to 16 places, a half away from zero; \<open>BigInt\<close> drops the
  fraction.
\<close>

definition round16 :: "rat \<Rightarrow> rat" where
  "round16 q = of_int \<lfloor>q * 10 ^ 16 + 1 / 2\<rfloor> / 10 ^ 16"

definition decimal_laws :: "('d \<Rightarrow> rat) \<Rightarrow> 'd orc_lib \<Rightarrow> bool" where
  "decimal_laws val D \<longleftrightarrow>
     (\<forall>i n. val (d_new D i (- int n)) = of_int i / 10 ^ n) \<and>
     (\<forall>x y. 0 \<le> val x \<longrightarrow> 0 < val y \<longrightarrow> (\<exists>z. d_div D x y = Some z \<and> val z = round16 (val x / val y))) \<and>
     (\<forall>x y. val (d_mul D x y) = val x * val y) \<and>
     (\<forall>x y n. val y = of_nat n \<longrightarrow> val (d_pow D x y) = val x ^ n) \<and>
     (\<forall>x. 0 \<le> val x \<longrightarrow> d_big D x = \<lfloor>val x\<rfloor>)"

definition orc_laws :: "('d \<Rightarrow> rat) \<Rightarrow> 'd orc_lib \<Rightarrow> bool" where
  "orc_laws val D \<longleftrightarrow>
     decimal_laws val D \<and>
     (\<forall>a b c d. OracleAccessVector D a b = OracleAccessVector D c d \<longleftrightarrow> a = c \<and> b = d) \<and>
     (\<forall>v. 0 \<le> v \<longrightarrow> v < 2 ^ 128 \<longrightarrow> lcs_price D v \<noteq> None) \<and>
     (\<forall>a b. 0 \<le> a \<longrightarrow> 0 < b \<longrightarrow> int_quo D a b = Some (a div b)) \<and>
     (\<forall>f xs. mset (sort_slice D f xs) = mset xs \<and> sorted (map f (sort_slice D f xs)))"

text \<open>A library that satisfies the laws, on rational numbers.\<close>

definition ref_orc_lib :: "rat orc_lib" where
  "ref_orc_lib =
     \<lparr>OracleAccessVector = (\<lambda>a b. dec_digits (length a) @ '':'' @ a @ b),
      lcs_price = (\<lambda>v. if 0 \<le> v \<and> v < 2 ^ 128 then Some (be 16 (nat v)) else None),
      addr_string = (\<lambda>a. ''wallet1'' @ a),
      int_quo = (\<lambda>a b. if b = 0 then None else Some (sgn a * sgn b * (\<bar>a\<bar> div \<bar>b\<bar>))),
      d_new = (\<lambda>i e. of_int i * (if 0 \<le> e then 10 ^ nat e else 1 / 10 ^ nat (- e))),
      d_div = (\<lambda>x y. if y = 0 then None else Some (round16 (x / y))),
      d_mul = (*),
      d_pow = (\<lambda>x y. x ^ nat \<lfloor>y\<rfloor>),
      d_big = (\<lambda>x. \<lfloor>x\<rfloor>),
      sort_slice = sort_key\<rparr>"

section \<open>Asset codes\<close>

abbreviation code_ok :: "AssetCode \<Rightarrow> bool" where
  "code_ok c \<equiv> AssetCode_Validate c = Ok ()"

lemma code_ok_split:
  assumes "code_ok c"
  obtains b q where "c = b @ ''_'' @ q" and "CHR ''_'' \<notin> set b" and "CHR ''_'' \<notin> set q"
proof -
  from assms have "count_list c (CHR ''_'') = 1"
    by (simp add: AssetCode_Validate_def AssetCodeFilter_Ok_iff)
  then show ?thesis using that by (elim one_delimiter_split) simp
qed

lemma code_ok_iff:
  "code_ok c \<longleftrightarrow> c \<noteq> [] \<and> hd c \<noteq> CHR ''_'' \<and> List.last c \<noteq> CHR ''_'' \<and> count_list c (CHR ''_'') = 1 \<and>
     (\<forall>x \<in> set c. x = CHR ''_'' \<or> is_lower_ascii x)"
  by (simp add: AssetCode_Validate_def AssetCodeFilter_Ok_iff)

lemma code_ok_no_colon: "code_ok c \<Longrightarrow> CHR '':'' \<notin> set c"
proof
  assume c: "code_ok c" and "CHR '':'' \<in> set c"
  then have "CHR '':'' = CHR ''_'' \<or> is_lower_ascii (CHR '':'')" unfolding code_ok_iff by blast
  then show False by (simp add: is_lower_ascii_def)
qed

lemma code_ok_nonempty: "code_ok c \<Longrightarrow> c \<noteq> []"
  by (auto simp: AssetCode_Validate_def AssetCodeFilter_Ok_iff)

text \<open>The reversed code of a well-formed code, and its involution.\<close>

definition rev_code :: "AssetCode \<Rightarrow> AssetCode" where
  "rev_code c = the (ReverseCode c)"

lemma ReverseCode_ok: "code_ok c \<Longrightarrow> ReverseCode c = Some (rev_code c)"
  by (erule code_ok_split) (simp add: rev_code_def ReverseCode_pair [simplified])

lemma code_ok_pair:
  assumes "CHR ''_'' \<notin> set b" and "CHR ''_'' \<notin> set q"
  shows "code_ok (b @ ''_'' @ q) \<longleftrightarrow> b \<noteq> [] \<and> q \<noteq> [] \<and> (\<forall>x \<in> set b \<union> set q. is_lower_ascii x)"
proof -
  have "hd (b @ ''_'' @ q) \<noteq> CHR ''_'' \<longleftrightarrow> b \<noteq> []" using assms(1) by (cases b) auto
  moreover have "List.last (b @ ''_'' @ q) \<noteq> CHR ''_'' \<longleftrightarrow> q \<noteq> []" using assms(2) by (cases q rule: rev_cases) auto
  moreover have "count_list (b @ ''_'' @ q) (CHR ''_'') = 1" using assms by (simp add: count_list_0_iff)
  moreover have "(\<forall>x \<in> set (b @ ''_'' @ q). x = CHR ''_'' \<or> is_lower_ascii x) \<longleftrightarrow> (\<forall>x \<in> set b \<union> set q. is_lower_ascii x)"
    using assms by (simp only: set_append Ball_def Un_iff set_simps insert_iff empty_iff) metis
  ultimately show ?thesis unfolding code_ok_iff by blast
qed

lemma rev_code_ok: "code_ok c \<Longrightarrow> code_ok (rev_code c)"
proof -
  assume c: "code_ok c"
  then obtain b q where d: "c = b @ ''_'' @ q" and n: "CHR ''_'' \<notin> set b" "CHR ''_'' \<notin> set q"
    by (rule code_ok_split)
  then have r: "rev_code c = q @ ''_'' @ b" by (simp add: rev_code_def ReverseCode_pair [simplified])
  from c have "b \<noteq> []" "q \<noteq> []" "\<forall>x \<in> set b \<union> set q. is_lower_ascii x" unfolding d code_ok_pair [OF n] by auto
  then show "code_ok (rev_code c)" unfolding r code_ok_pair [OF n(2,1)] by auto
qed

lemma rev_code_rev: "code_ok c \<Longrightarrow> rev_code (rev_code c) = c"
  by (erule code_ok_split) (simp add: rev_code_def ReverseCode_pair [simplified])

definition price_path :: "'d orc_lib \<Rightarrow> AssetCode \<Rightarrow> VMAccessPath" where
  "price_path D c = the (GetAssetCodePath D c)"

lemma GetAssetCodePath_pair:
  assumes "CHR ''_'' \<notin> set b" and "CHR ''_'' \<notin> set q"
  shows "GetAssetCodePath D (b @ ''_'' @ q) = Some \<lparr>ap_Address = StdLibAddress, ap_Path = OracleAccessVector D b q\<rparr>"
  using split_on_append_sep [OF assms(1), of q] split_on_notin [OF assms(2)]
  by (simp add: GetAssetCodePath_def AssetCodeDelimiter_def)

lemma GetAssetCodePath_ok: "code_ok c \<Longrightarrow> GetAssetCodePath D c = Some (price_path D c)"
  by (erule code_ok_split) (simp add: price_path_def GetAssetCodePath_pair [simplified])

lemma price_path_inject:
  assumes "orc_laws val D" and "code_ok c" and "code_ok d"
  shows "price_path D c = price_path D d \<longleftrightarrow> c = d"
proof -
  have inj: "OracleAccessVector D a b = OracleAccessVector D a' b' \<longleftrightarrow> a = a' \<and> b = b'" for a b a' b'
    using assms(1) unfolding orc_laws_def by blast
  from assms(2) obtain b q where c: "c = b @ ''_'' @ q" "CHR ''_'' \<notin> set b" "CHR ''_'' \<notin> set q" by (rule code_ok_split)
  from assms(3) obtain b' q' where d: "d = b' @ ''_'' @ q'" "CHR ''_'' \<notin> set b'" "CHR ''_'' \<notin> set q'" by (rule code_ok_split)
  show ?thesis
    unfolding price_path_def c(1) d(1) GetAssetCodePath_pair [OF c(2,3)] GetAssetCodePath_pair [OF d(2,3)]
    using sep_append [of b "CHR ''_''" q b' q'] c(2) d(2) by (auto simp: inj)
qed

lemma price_path_vm [simp]: "code_ok c \<Longrightarrow> vm_path_ok (price_path D c)"
  by (erule code_ok_split)
    (auto simp: price_path_def GetAssetCodePath_pair [simplified] vm_path_ok_def StdLibAddress_def VMAddressLength_def)

section \<open>Keys\<close>

lemma GetCurrentPriceKey_inject [key_simps, simp]: "GetCurrentPriceKey a = GetCurrentPriceKey b \<longleftrightarrow> a = b"
  by (simp add: GetCurrentPriceKey_def)

lemma FormatInt_inject [simp]: "FormatInt a = FormatInt b \<longleftrightarrow> a = b"
proof -
  have "dec_digits n \<noteq> CHR ''-'' # ds" for n ds
    using dec_digits_chars [of "CHR ''-''" n] by auto
  then have "dec_digits n \<noteq> CHR ''-'' # ds" "CHR ''-'' # ds \<noteq> dec_digits n" for n ds by metis+
  then show ?thesis by (auto simp: FormatInt_def split: if_splits)
qed

lemma GetRawPricesKey_inject [key_simps]:
  "\<lbrakk>code_ok a; code_ok b\<rbrakk> \<Longrightarrow> GetRawPricesKey a h = GetRawPricesKey b k \<longleftrightarrow> a = b \<and> h = k"
  by (auto dest!: sep_append simp: GetRawPricesKey_def code_ok_no_colon)

section \<open>Reversed prices\<close>

definition rev_price :: "int \<Rightarrow> int" where
  "rev_price p = (2 * 10 ^ 24 + p) div (2 * p) div 10 ^ 8"

lemma floor_half_up:
  assumes "0 < p"
  shows "\<lfloor>(of_int n / of_int p + 1 / 2) :: rat\<rfloor> = (2 * n + p) div (2 * p)"
proof -
  have "(of_int n / of_int p + 1 / 2 :: rat) = of_int (2 * n + p) / of_int (2 * p)"
    using assms by (simp add: field_simps)
  then show ?thesis by (simp only: floor_divide_of_int_eq)
qed

lemma div_mult_bounds: "0 < (c :: int) \<Longrightarrow> a div c * c \<le> a \<and> a < (a div c + 1) * c"
  by (smt (verit) div_mult_mod_eq mult.commute pos_mod_bound pos_mod_sign distrib_left mult_cancel_left2)

lemma le_div_intI: "\<lbrakk>0 < (c :: int); k * c \<le> a\<rbrakk> \<Longrightarrow> k \<le> a div c"
  using zdiv_mono1 [of "k * c" a c] by simp

lemma div_le_intI: "\<lbrakk>0 < (c :: int); a < (k + 1) * c\<rbrakk> \<Longrightarrow> a div c \<le> k"
  using div_mult_bounds [of c a] mult_right_mono [of "k + 1" "a div c" c] by linarith

lemma rev_price_bounds:
  assumes "0 < p"
  shows "10 ^ 16 div p \<le> rev_price p \<and> rev_price p \<le> 10 ^ 16 div p + 1"
proof -
  let ?k = "10 ^ 16 div p"
  have k: "?k * p \<le> 10 ^ 16" "10 ^ 16 < (?k + 1) * p" using div_mult_bounds [OF assms, of "10 ^ 16"] by auto
  have "?k * 10 ^ 8 * (2 * p) \<le> 2 * 10 ^ 24 + p" using k(1) assms by (simp add: algebra_simps)
  then have l: "?k * 10 ^ 8 \<le> (2 * 10 ^ 24 + p) div (2 * p)" using assms by (intro le_div_intI) auto
  have "2 * 10 ^ 24 + p < ((?k + 1) * 10 ^ 8 + 1) * (2 * p)" using k(2) assms by (simp add: algebra_simps)
  then have u: "(2 * 10 ^ 24 + p) div (2 * p) \<le> (?k + 1) * 10 ^ 8" using assms by (intro div_le_intI) auto
  have "?k \<le> rev_price p" unfolding rev_price_def by (rule le_div_intI) (use l in simp_all)
  moreover have "rev_price p \<le> ?k + 1" unfolding rev_price_def by (rule div_le_intI) (use u in simp_all)
  ultimately show ?thesis by simp
qed

lemma rev_price_range: "0 < p \<Longrightarrow> 0 \<le> rev_price p \<and> rev_price p \<le> 10 ^ 16 + 1"
  using rev_price_bounds [of p] zdiv_mono2 [of "10 ^ 16" 1 p] pos_imp_zdiv_nonneg_iff [of p "10 ^ 16"] by auto

lemma reverseInt_spec:
  assumes S: "uint_laws S" and D: "orc_laws val D" and p: "0 < p"
  shows "reverseInt S D p = Some (rev_price p)"
proof -
  from D have d: "decimal_laws val D" by (simp add: orc_laws_def)
  note L = d [unfolded decimal_laws_def]
  have n: "val (d_new D i (- int k)) = of_int i / 10 ^ k" for i k using L by blast
  have v: "val (d_new D 1 0) = 1" "val (d_new D 10 0) = 10" "val (d_new D 8 0) = of_nat 8"
    using n [of _ 0] by simp_all
  have w: "val (d_new D p (- 8)) = of_int p / 10 ^ 8" using n [of p 8] by simp
  have "0 \<le> val (d_new D 1 0)" "0 < val (d_new D p (- 8))" unfolding v w using p by simp_all
  then obtain z where z: "d_div D (d_new D 1 0) (d_new D p (- 8)) = Some z" "val z = round16 (1 / (of_int p / 10 ^ 8))"
    using L unfolding v(1) [symmetric] w [symmetric] by blast
  have e: "(1 / (of_int p / 10 ^ 8)) * 10 ^ 16 = (of_int (10 ^ 24) / of_int p :: rat)" using p by simp
  let ?x = "(2 * 10 ^ 24 + p) div (2 * p)"
  have zv: "val z = of_int ?x / 10 ^ 16" unfolding z(2) round16_def e floor_half_up [OF p] ..
  have "val (d_pow D (d_new D 10 0) (d_new D 8 0)) = 10 ^ 8" using L v(2,3) by metis
  then have m: "val (d_mul D z (d_pow D (d_new D 10 0) (d_new D 8 0))) = of_int ?x / of_int (10 ^ 8)"
    using L zv by simp
  have x: "0 \<le> ?x" using p by (simp add: pos_imp_zdiv_nonneg_iff)
  then have "0 \<le> val (d_mul D z (d_pow D (d_new D 10 0) (d_new D 8 0)))" unfolding m by simp
  then have "d_big D (d_mul D z (d_pow D (d_new D 10 0) (d_new D 8 0))) = \<lfloor>of_int ?x / of_int (10 ^ 8) :: rat\<rfloor>"
    using L m by metis
  also have "\<dots> = rev_price p" unfolding rev_price_def by (rule floor_divide_of_int_eq)
  finally show ?thesis
    using S rev_price_range [OF p] by (simp add: reverseInt_def z(1) uint_laws_def within_def)
qed

section \<open>Medians\<close>

text \<open>
  The median of a list: the middle of the sorted list, or the mean of the two middle values, rounded down. A value range that holds
  more than half of the elements holds the median.
\<close>

definition median :: "int list \<Rightarrow> int" where
  "median xs =
     (let ys = sort xs; l = length xs in
      if l = 0 then 0 else if even l then (ys ! (l div 2 - 1) + ys ! (l div 2)) div 2 else ys ! (l div 2))"

lemma sorted_below:
  assumes "sorted xs" and "i < length xs" and "xs ! i < lo"
  shows "Suc i \<le> length (filter (\<lambda>x. x < lo) (xs :: int list))"
proof -
  have "xs ! j < lo" if "j \<le> i" for j using assms sorted_nth_mono [OF assms(1) that] by simp
  then have "\<forall>x \<in> set (take (Suc i) xs). x < lo" by (auto simp: in_set_conv_nth)
  then have "filter (\<lambda>x. x < lo) (take (Suc i) xs) = take (Suc i) xs" by (simp add: filter_id_conv)
  then have "Suc i = length (filter (\<lambda>x. x < lo) (take (Suc i) xs))" using assms(2) by simp
  also have "\<dots> \<le> length (filter (\<lambda>x. x < lo) (take (Suc i) xs @ drop (Suc i) xs))" by (simp only: filter_append length_append)
  finally show ?thesis by simp
qed

lemma sorted_above:
  assumes "sorted xs" and "i < length xs" and "hi < xs ! i"
  shows "length xs - i \<le> length (filter (\<lambda>x. hi < x) (xs :: int list))"
proof -
  have "hi < xs ! j" if "i \<le> j" "j < length xs" for j using assms sorted_nth_mono [OF assms(1) that] by simp
  then have "\<forall>x \<in> set (drop i xs). hi < x" by (auto simp: in_set_conv_nth)
  then have "filter (\<lambda>x. hi < x) (drop i xs) = drop i xs" by (simp add: filter_id_conv)
  then have "length xs - i = length (filter (\<lambda>x. hi < x) (drop i xs))" by simp
  also have "\<dots> \<le> length (filter (\<lambda>x. hi < x) (take i xs @ drop i xs))" by (simp only: filter_append length_append)
  finally show ?thesis by simp
qed

lemma middle_in_range:
  assumes "sorted xs" and "length xs < 2 * length (filter (\<lambda>x. lo \<le> x \<and> x \<le> hi) (xs :: int list))"
    and "i < length xs" and "length xs \<le> 2 * Suc i" and "2 * i \<le> length xs"
  shows "lo \<le> xs ! i \<and> xs ! i \<le> hi"
proof -
  have "length (filter (\<lambda>x. lo \<le> x \<and> x \<le> hi) ys) + length (filter (\<lambda>x. x < lo) ys) \<le> length ys"
    "length (filter (\<lambda>x. lo \<le> x \<and> x \<le> hi) ys) + length (filter (\<lambda>x. hi < x) ys) \<le> length ys" for ys
    by (induction ys) auto
  note this [of xs]
  moreover note sorted_below [OF assms(1,3), of lo] sorted_above [OF assms(1,3), of hi]
  ultimately show ?thesis using assms(2-5) by (cases "xs ! i < lo"; cases "hi < xs ! i") auto
qed

lemma filter_sort_length: "length (filter P (sort xs)) = length (filter P xs)"
  by (metis mset_filter mset_sort size_mset)

lemma median_majority:
  assumes "length xs < 2 * length (filter (\<lambda>x. lo \<le> x \<and> x \<le> hi) xs)"
  shows "lo \<le> median xs \<and> median xs \<le> hi"
proof -
  let ?l = "length xs" and ?ys = "sort xs"
  have r: "lo \<le> ?ys ! i \<and> ?ys ! i \<le> hi" if "i < ?l" "?l \<le> 2 * Suc i" "2 * i \<le> ?l" for i
    by (rule middle_in_range) (use that assms in \<open>simp_all add: filter_sort_length\<close>)
  have l: "0 < ?l" using assms by (cases xs) auto
  show ?thesis
  proof (cases "even ?l")
    case True
    with l have "2 \<le> ?l" by presburger
    then have "lo \<le> ?ys ! (?l div 2 - 1) \<and> ?ys ! (?l div 2 - 1) \<le> hi" "lo \<le> ?ys ! (?l div 2) \<and> ?ys ! (?l div 2) \<le> hi"
      using True by (intro r; auto elim!: evenE)+
    with True l show ?thesis by (auto simp: median_def Let_def)
  next
    case False
    then have "lo \<le> ?ys ! (?l div 2) \<and> ?ys ! (?l div 2) \<le> hi" by (intro r) (auto elim!: oddE)
    with False show ?thesis using l by (simp add: median_def Let_def)
  qed
qed

lemma median_range:
  assumes "xs \<noteq> []" and "\<forall>x \<in> set xs. lo \<le> x \<and> x \<le> hi"
  shows "lo \<le> median xs \<and> median xs \<le> hi"
proof -
  have "filter (\<lambda>x. lo \<le> x \<and> x \<le> hi) xs = xs" using assms(2) by (simp add: filter_id_conv)
  then show ?thesis using assms(1) by (intro median_majority) simp
qed

definition posts_ok :: "AssetCode \<Rightarrow> PostedPrice list \<Rightarrow> bool" where
  "posts_ok c ps \<longleftrightarrow> distinct (map po_OracleAddress ps) \<and>
     (\<forall>p \<in> set ps. po_AssetCode p = c \<and> 0 \<le> po_AskPrice p \<and> po_AskPrice p < 2 ^ 64 \<and> 0 \<le> po_BidPrice p \<and> po_BidPrice p < 2 ^ 64)"

lemma sort_slice_map:
  assumes "orc_laws val D"
  shows "map f (sort_slice D f ps) = sort (map f ps)"
proof -
  from assms have m: "mset (sort_slice D f ps) = mset ps" and s: "sorted (map f (sort_slice D f ps))"
    unfolding orc_laws_def by blast+
  show ?thesis by (rule properties_for_sort [symmetric]) (use m s in \<open>auto simp: mset_map\<close>)
qed

lemma sort_slice_nth:
  assumes "orc_laws val D" and "i < length ps"
  shows "f (sort_slice D f ps ! i) = sort (map f ps) ! i"
proof -
  have "length (sort_slice D f ps) = length ps"
    using assms(1) unfolding orc_laws_def by (metis mset_eq_length)
  then show ?thesis using assms(2) unfolding sort_slice_map [OF assms(1), symmetric] by simp
qed

lemma sort_range: "\<lbrakk>\<forall>x \<in> set xs. 0 \<le> x \<and> x < B; i < length xs\<rbrakk> \<Longrightarrow> 0 \<le> sort xs ! i \<and> sort xs ! i < (B :: int)"
  by (metis length_sort nth_mem set_sort)

lemma median_prices_spec:
  assumes S: "int_laws S" and D: "orc_laws val D" and ok: "posts_ok c ps"
  obtains t where "median_prices S D now ps = Some (median (map po_AskPrice ps), median (map po_BidPrice ps), t)"
proof -
  let ?l = "length ps"
  have q: "int_quo D a 2 = Some (a div 2)" if "0 \<le> a" for a
    using D that unfolding orc_laws_def by (meson zero_less_numeral)
  have add: "int_add S (sort xs ! i) (sort xs ! j) = Some (sort xs ! i + sort xs ! j) \<and> 0 \<le> sort xs ! i + sort xs ! j"
    if "\<forall>x \<in> set xs. 0 \<le> x \<and> x < 2 ^ 64" "i < length xs" "j < length xs" for xs i j
    using sort_range [OF that(1,2)] sort_range [OF that(1,3)] S by (simp add: int_laws_def within_def)
  have r: "\<forall>x \<in> set (map po_AskPrice ps). 0 \<le> x \<and> x < 2 ^ 64" "\<forall>x \<in> set (map po_BidPrice ps). 0 \<le> x \<and> x < 2 ^ 64"
    using ok by (auto simp: posts_ok_def)
  have n: "f (sort_slice D f ps ! i) = sort (map f ps) ! i" if "i < ?l" for i f
    using sort_slice_nth [OF D that] .
  consider "?l = 0" | "?l = 1" | "2 \<le> ?l" "even ?l" | "2 \<le> ?l" "odd ?l" by linarith
  then show ?thesis
  proof cases
    case 1
    then show ?thesis using that by (simp add: median_prices_def median_def)
  next
    case 2
    then obtain p where "ps = [p]" by (auto simp: length_Suc_conv)
    then show ?thesis using that by (simp add: median_prices_def median_def)
  next
    case 3
    have i: "?l div 2 - 1 < ?l" "?l div 2 < ?l" using 3 by auto
    have ne: "ps \<noteq> []" using 3 by auto
    note A = add [OF r(1), unfolded length_map, OF i] add [OF r(2), unfolded length_map, OF i]
    show ?thesis
      by (rule that [of now]) (use 3 ne A in \<open>simp add: median_prices_def median_def Let_def n i q even_iff_mod_2_eq_zero\<close>)
  next
    case 4
    have i: "?l div 2 < ?l" using 4 by auto
    show ?thesis
      by (rule that [of "po_ReceivedAt (sort_slice D po_AskPrice ps ! (?l div 2))"]) (use 4 in \<open>auto simp: median_prices_def median_def Let_def n i even_iff_mod_2_eq_zero\<close>)
  qed
qed

section \<open>The invariant\<close>

definition codes :: "orc_state \<Rightarrow> AssetCode set" where
  "codes s = as_AssetCode ` set (GetAssetParams s)"

lemma find_asset_None: "find_asset c as = None \<longleftrightarrow> c \<notin> as_AssetCode ` set as"
  by (induction as) auto

lemma GetAsset_None: "GetAsset s c = None \<longleftrightarrow> c \<notin> codes s"
  by (simp add: GetAsset_def codes_def find_asset_None)

abbreviation price_key :: "CurrentPrice \<Rightarrow> bytes" where
  "price_key cp \<equiv> GetCurrentPriceKey (cp_AssetCode cp)"

definition price_ok :: "orc_state \<Rightarrow> CurrentPrice \<Rightarrow> bool" where
  "price_ok s cp \<longleftrightarrow> cp_AssetCode cp \<in> codes s \<and> 0 < cp_AskPrice cp \<and> 0 < cp_BidPrice cp"

definition orc_inv :: "orc_state \<Rightarrow> bool" where
  "orc_inv s \<longleftrightarrow>
     (\<forall>c \<in> codes s. code_ok c) \<and> [] \<notin> set (op_Nominees (or_params s)) \<and>
     (\<forall>c h. code_ok c \<longrightarrow> posts_ok c (GetRawPrices s c h)) \<and>
     kv_keyed price_key (or_current s) \<and> (\<forall>cp \<in> set (GetCurrentPricesList s). price_ok s cp)"

text \<open>The resources of the virtual machine, for assets whose reversed asset is not registered as well.\<close>

definition mirrored :: "'d orc_lib \<Rightarrow> orc_state \<Rightarrow> CurrentPrice \<Rightarrow> bool" where
  "mirrored D s cp \<longleftrightarrow>
     lcs_price D (cp_AskPrice cp) \<noteq> None \<and>
     getValue (or_vm s) (price_path D (cp_AssetCode cp)) = lcs_price D (cp_AskPrice cp) \<and>
     getValue (or_vm s) (price_path D (rev_code (cp_AssetCode cp))) = lcs_price D (rev_price (cp_BidPrice cp))"

definition orc_mirror :: "'d orc_lib \<Rightarrow> orc_state \<Rightarrow> bool" where
  "orc_mirror D s \<longleftrightarrow> (\<forall>cp \<in> set (GetCurrentPricesList s). rev_code (cp_AssetCode cp) \<notin> codes s \<longrightarrow> mirrored D s cp)"

definition orc_ok :: "'d orc_lib \<Rightarrow> orc_state \<Rightarrow> bool" where
  "orc_ok D s \<longleftrightarrow> orc_inv s \<and> orc_mirror D s"

lemma codes_cong [simp]: "codes (s\<lparr>or_raw := x\<rparr>) = codes s" "codes (s\<lparr>or_current := y\<rparr>) = codes s" "codes (s\<lparr>or_vm := z\<rparr>) = codes s"
  by (simp_all add: codes_def GetAssetParams_def)

section \<open>End of block\<close>

definition stored :: "'d orc_lib \<Rightarrow> CurrentPrice \<Rightarrow> orc_state \<Rightarrow> orc_state" where
  "stored D cp s =
     (addCurrentPrice cp s)\<lparr>or_vm :=
        setValue (price_path D (rev_code (cp_AssetCode cp))) (the (lcs_price D (rev_price (cp_BidPrice cp))))
          (setValue (price_path D (cp_AssetCode cp)) (the (lcs_price D (cp_AskPrice cp))) (or_vm s))\<rparr>"

lemma lcs_price_small: "\<lbrakk>orc_laws val D; 0 \<le> v; v < 2 ^ 128\<rbrakk> \<Longrightarrow> lcs_price D v = Some (the (lcs_price D v))"
  by (auto simp: orc_laws_def)

lemma store_price_spec:
  assumes S: "uint_laws S" and D: "orc_laws val D" and c: "code_ok (cp_AssetCode cp)"
    and a: "0 < cp_AskPrice cp" "cp_AskPrice cp < 2 ^ 64" and b: "0 < cp_BidPrice cp"
  shows "store_price S D cp s = (Ok (), stored D cp s)"
proof -
  have l: "lcs_price D (cp_AskPrice cp) = Some (the (lcs_price D (cp_AskPrice cp)))"
    "lcs_price D (rev_price (cp_BidPrice cp)) = Some (the (lcs_price D (rev_price (cp_BidPrice cp))))"
    using a rev_price_range [OF b] by (auto intro!: lcs_price_small [OF D])
  then obtain v w where vw: "lcs_price D (cp_AskPrice cp) = Some v" "lcs_price D (rev_price (cp_BidPrice cp)) = Some w" by blast
  show ?thesis
    using c by (simp add: store_price_def NewResPriceStorageValuesPanic_def GetAssetCodePath_ok rev_code_ok vw Let_def
        GetReversedAssetCurrentPrice_def ReverseCode_ok reverseInt_spec [OF S D] a b stored_def addCurrentPrice_def)
qed

lemma stored_sel [simp]:
  "or_params (stored D cp s) = or_params s" "or_raw (stored D cp s) = or_raw s" "codes (stored D cp s) = codes s"
  "or_current (stored D cp s) = kv_set (price_key cp) cp (or_current s)"
  by (simp_all add: stored_def addCurrentPrice_def codes_def GetAssetParams_def)

lemma GetRawPrices_cong: "or_raw t = or_raw s \<Longrightarrow> GetRawPrices t = GetRawPrices s"
  by (simp add: GetRawPrices_def fun_eq_iff)

lemma stored_inv:
  assumes i: "orc_inv s" and c: "price_ok s cp"
  shows "orc_inv (stored D cp s)"
proof -
  from i have k: "kv_keyed price_key (or_current s)" by (simp add: orc_inv_def)
  show ?thesis
    using i c kv_keyed_set [OF k] kv_keyed_vals_set [OF k, of cp] GetRawPrices_cong [of "stored D cp s" s]
    by (auto simp: orc_inv_def GetCurrentPricesList_def price_ok_def)
qed

lemma stored_mirror:
  assumes D: "orc_laws val D" and ok: "orc_ok D s" and c: "price_ok s cp" and a: "cp_AskPrice cp < 2 ^ 64"
  shows "orc_mirror D (stored D cp s)"
  unfolding orc_mirror_def
proof (intro ballI impI)
  from ok have i: "orc_inv s" and m: "orc_mirror D s" by (simp_all add: orc_ok_def)
  then have k: "kv_keyed price_key (or_current s)" and co: "\<forall>c \<in> codes s. code_ok c" by (simp_all add: orc_inv_def)
  let ?c = "cp_AssetCode cp"
  fix x assume x: "x \<in> set (GetCurrentPricesList (stored D cp s))" and r: "rev_code (cp_AssetCode x) \<notin> codes (stored D cp s)"
  let ?d = "cp_AssetCode x"
  have cc: "?c \<in> codes s" "code_ok ?c" "code_ok (rev_code ?c)" using c co rev_code_ok by (auto simp: price_ok_def)
  have x': "x = cp \<or> x \<in> set (GetCurrentPricesList s) \<and> ?d \<noteq> ?c"
    using x kv_keyed_vals_set [OF k, of cp] by (auto simp: GetCurrentPricesList_def)
  then have dd: "?d \<in> codes s" "code_ok ?d" "code_ok (rev_code ?d)"
    using i cc rev_code_ok by (auto simp: orc_inv_def price_ok_def)
  have get: "getValue (or_vm (stored D cp s)) (price_path D e) =
      (if e = rev_code ?c then Some (the (lcs_price D (rev_price (cp_BidPrice cp))))
       else if e = ?c then Some (the (lcs_price D (cp_AskPrice cp))) else getValue (or_vm s) (price_path D e))" if "code_ok e" for e
    using that cc price_path_inject [OF D that] by (simp add: stored_def vms.get_set)
  show "mirrored D (stored D cp s) x"
  proof (cases "x = cp")
    case True
    have "?c \<noteq> rev_code ?c" using r cc(1) True by auto
    then show ?thesis
      using True get [OF cc(2)] get [OF cc(3)] lcs_price_small [OF D, of "cp_AskPrice cp"]
        lcs_price_small [OF D, of "rev_price (cp_BidPrice cp)"] rev_price_range [of "cp_BidPrice cp"] c a
      by (auto simp: mirrored_def price_ok_def)
  next
    case False
    then have xs: "x \<in> set (GetCurrentPricesList s)" "?d \<noteq> ?c" using x' by auto
    have "?d \<noteq> rev_code ?c" using r cc rev_code_rev [of ?c] by auto
    moreover have "rev_code ?d \<noteq> ?c" using r cc by auto
    moreover have "rev_code ?d \<noteq> rev_code ?c" using xs(2) rev_code_rev [OF cc(2)] rev_code_rev [OF dd(2)] by metis
    moreover have "mirrored D s x" using m xs r by (simp add: orc_mirror_def)
    ultimately show ?thesis using get [OF dd(2)] get [OF dd(3)] xs(2) by (simp add: mirrored_def)
  qed
qed

text \<open>The price of an asset after it was set; other assets keep theirs.\<close>

definition raw_median :: "(PostedPrice \<Rightarrow> int) \<Rightarrow> orc_state \<Rightarrow> AssetCode \<Rightarrow> int \<Rightarrow> int" where
  "raw_median f s c h = median (map f (GetRawPrices s c h))"

definition has_price :: "orc_state \<Rightarrow> AssetCode \<Rightarrow> int \<Rightarrow> int \<Rightarrow> bool" where
  "has_price s c ask bid \<longleftrightarrow> cp_AssetCode (GetCurrentPrice s c) = c \<and> cp_AskPrice (GetCurrentPrice s c) = ask \<and> cp_BidPrice (GetCurrentPrice s c) = bid"

definition medians_ok :: "orc_state \<Rightarrow> AssetCode \<Rightarrow> int \<Rightarrow> bool" where
  "medians_ok s c h \<longleftrightarrow> raw_median po_AskPrice s c h \<noteq> 0 \<and> raw_median po_BidPrice s c h \<noteq> 0"

lemma raw_median_range:
  assumes "orc_inv s" and "code_ok c" and "f = po_AskPrice \<or> f = po_BidPrice"
  shows "0 \<le> raw_median f s c h \<and> raw_median f s c h < 2 ^ 64"
proof (cases "GetRawPrices s c h = []")
  case False
  have "\<forall>x \<in> set (map f (GetRawPrices s c h)). 0 \<le> x \<and> x \<le> 2 ^ 64 - 1"
    using assms by (fastforce simp: orc_inv_def posts_ok_def)
  then have "0 \<le> raw_median f s c h \<and> raw_median f s c h \<le> 2 ^ 64 - 1"
    unfolding raw_median_def using False by (intro median_range) auto
  then show ?thesis by linarith
qed (simp add: raw_median_def median_def)

lemma GetCurrentPrice_code:
  assumes "orc_inv s" and "cp_AssetCode (GetCurrentPrice s c) \<noteq> []"
  shows "cp_AssetCode (GetCurrentPrice s c) = c"
proof -
  from assms have "kv_keyed price_key (or_current s)" by (simp add: orc_inv_def)
  with assms(2) show ?thesis
    by (auto simp: GetCurrentPrice_def no_price_def split: option.splits dest: kv_keyed_get_Some)
qed

lemma GetCurrentPrice_listed:
  assumes "orc_inv s" and "cp_AssetCode (GetCurrentPrice s c) \<noteq> []"
  shows "GetCurrentPrice s c \<in> set (GetCurrentPricesList s)"
proof -
  from assms have "kv_keyed price_key (or_current s)" by (simp add: orc_inv_def)
  with assms(2) show ?thesis
    by (auto simp: GetCurrentPrice_def GetCurrentPricesList_def no_price_def split: option.splits dest: kv_keyed_get_Some)
qed

lemma set_current_price_spec:
  assumes S: "uint_laws S" "int_laws S" and D: "orc_laws val D" and ok: "orc_ok D s" and c: "c \<in> codes s"
  obtains s' where "set_current_price S D h now c s = (Ok (), s')" and "orc_ok D s'"
    and "or_params s' = or_params s" and "or_raw s' = or_raw s"
    and "medians_ok s c h \<Longrightarrow> has_price s' c (raw_median po_AskPrice s c h) (raw_median po_BidPrice s c h)"
    and "\<not> medians_ok s c h \<Longrightarrow> s' = s"
    and "\<And>d. d \<noteq> c \<Longrightarrow> GetCurrentPrice s' d = GetCurrentPrice s d"
proof -
  let ?A = "raw_median po_AskPrice s c h" and ?B = "raw_median po_BidPrice s c h" and ?old = "GetCurrentPrice s c"
  from ok c have i: "orc_inv s" and cok: "code_ok c" by (auto simp: orc_ok_def orc_inv_def)
  then have "posts_ok c (GetRawPrices s c h)" by (simp add: orc_inv_def)
  then obtain t where m: "median_prices S D now (GetRawPrices s c h) = Some (?A, ?B, t)"
    unfolding raw_median_def by (rule median_prices_spec [OF S(2) D])
  have rA: "0 \<le> ?A" "?A < 2 ^ 64" and rB: "0 \<le> ?B" using raw_median_range [OF i cok] by auto
  let ?cp = "\<lparr>cp_AssetCode = c, cp_AskPrice = ?A, cp_BidPrice = ?B, cp_ReceivedAt = t\<rparr>"
  let ?same = "cp_AssetCode ?old \<noteq> [] \<and> cp_AskPrice ?old = ?A \<and> cp_BidPrice ?old = ?B"
  show thesis
  proof (cases "medians_ok s c h \<and> \<not> ?same")
    case True
    then have p: "price_ok s ?cp" using rA rB c by (simp add: medians_ok_def price_ok_def)
    have "set_current_price S D h now c s = store_price S D ?cp s"
      using True m by (auto simp: set_current_price_def medians_ok_def)
    also have "\<dots> = (Ok (), stored D ?cp s)"
      by (rule store_price_spec [OF S(1) D]) (use p cok rA in \<open>auto simp: price_ok_def\<close>)
    finally have e: "set_current_price S D h now c s = (Ok (), stored D ?cp s)" .
    have "orc_ok D (stored D ?cp s)"
      using stored_inv [OF i p] stored_mirror [OF D ok p] rA(2) by (simp add: orc_ok_def)
    then show thesis
      by (rule that [OF e]) (use True in \<open>simp_all add: has_price_def GetCurrentPrice_def\<close>)
  next
    case False
    then have "set_current_price S D h now c s = (Ok (), s)"
      using m by (auto simp: set_current_price_def medians_ok_def)
    then show thesis
      by (rule that [OF _ ok refl refl]) (use False GetCurrentPrice_code [OF i, of c] in \<open>auto simp: has_price_def\<close>)
  qed
qed

lemma raw_median_cong: "or_raw t = or_raw s \<Longrightarrow> raw_median f t = raw_median f s \<and> medians_ok t = medians_ok s"
  using GetRawPrices_cong [of t s] by (simp add: raw_median_def medians_ok_def fun_eq_iff)

lemma set_prices_loop_spec:
  assumes S: "uint_laws S" "int_laws S" and D: "orc_laws val D" and ok: "orc_ok D s" and c: "as_AssetCode ` set as \<subseteq> codes s"
  shows "\<exists>s'. set_prices_loop S D h now as s = (Ok (), s') \<and> orc_ok D s' \<and> or_params s' = or_params s \<and> or_raw s' = or_raw s \<and>
    (\<forall>d. if d \<in> as_AssetCode ` set as \<and> medians_ok s d h
         then has_price s' d (raw_median po_AskPrice s d h) (raw_median po_BidPrice s d h)
         else GetCurrentPrice s' d = GetCurrentPrice s d)"
  using ok c
proof (induction as arbitrary: s)
  case (Cons a as)
  let ?c = "as_AssetCode a"
  from Cons.prems have "?c \<in> codes s" by simp
  from set_current_price_spec [OF S D Cons.prems(1) this, where h = h and now = now] obtain s1 where
    s1: "set_current_price S D h now ?c s = (Ok (), s1)" "orc_ok D s1" "or_params s1 = or_params s" "or_raw s1 = or_raw s"
      "medians_ok s ?c h \<Longrightarrow> has_price s1 ?c (raw_median po_AskPrice s ?c h) (raw_median po_BidPrice s ?c h)"
      "\<not> medians_ok s ?c h \<Longrightarrow> s1 = s" "\<And>d. d \<noteq> ?c \<Longrightarrow> GetCurrentPrice s1 d = GetCurrentPrice s d" by blast
  have "codes s1 = codes s" using s1(3) by (simp add: codes_def GetAssetParams_def)
  with Cons.IH [OF s1(2)] Cons.prems(2) obtain s' where
    s': "set_prices_loop S D h now as s1 = (Ok (), s')" "orc_ok D s'" "or_params s' = or_params s1" "or_raw s' = or_raw s1"
      "\<And>d. if d \<in> as_AssetCode ` set as \<and> medians_ok s1 d h
         then has_price s' d (raw_median po_AskPrice s1 d h) (raw_median po_BidPrice s1 d h)
         else GetCurrentPrice s' d = GetCurrentPrice s1 d" by auto
  have e: "raw_median f s1 d h = raw_median f s d h" "medians_ok s1 d h = medians_ok s d h" for f d
    using raw_median_cong [OF s1(4)] by auto
  have "if d \<in> as_AssetCode ` set (a # as) \<and> medians_ok s d h
         then has_price s' d (raw_median po_AskPrice s d h) (raw_median po_BidPrice s d h)
         else GetCurrentPrice s' d = GetCurrentPrice s d" for d
    using s'(5) [of d] s1(5-7) unfolding e
    by (cases "d = ?c"; cases "d \<in> as_AssetCode ` set as"; cases "medians_ok s d h") (auto simp: has_price_def)
  with s1(1,3,4) s' show ?case by auto
qed simp

lemma Orc_EndBlocker_spec:
  assumes "uint_laws S" "int_laws S" "orc_laws val D" "orc_ok D s"
  shows "\<exists>s'. Orc_EndBlocker S D h now s = (Ok (), s') \<and> orc_ok D s' \<and> or_params s' = or_params s \<and> or_raw s' = or_raw s \<and>
    (\<forall>d. if d \<in> codes s \<and> medians_ok s d h
         then has_price s' d (raw_median po_AskPrice s d h) (raw_median po_BidPrice s d h)
         else GetCurrentPrice s' d = GetCurrentPrice s d)"
  using set_prices_loop_spec [OF assms, of "GetAssetParams s" h now]
  by (auto simp: Orc_EndBlocker_def SetCurrentPrices_def codes_def)

end
