(* ===== verification/Oracle_Props.thy ===== *)
theory Oracle_Props
  imports Oracle_Inv
begin

text \<open>
  Properties of the oracle module over its reachable states: which prices are accepted, how a minority of the oracles cannot
  move the median, and the shape of the state with the resources of the virtual machine.
\<close>

section \<open>Messages\<close>

lemma update_assets_eq:
  "update_assets c f as = (map (\<lambda>a. if as_AssetCode a = c then f a else a) as, c \<in> as_AssetCode ` set as)"
  by (induction as) auto

lemma set_assets_sel [simp]:
  "or_raw (set_assets as s) = or_raw s" "or_current (set_assets as s) = or_current s" "or_vm (set_assets as s) = or_vm s"
  "op_Nominees (or_params (set_assets as s)) = op_Nominees (or_params s)" "codes (set_assets as s) = as_AssetCode ` set as"
  by (simp_all add: set_assets_def codes_def GetAssetParams_def)

lemma set_assets_ok:
  assumes ok: "orc_ok D s" and c: "codes s \<subseteq> as_AssetCode ` set as" "\<forall>c \<in> as_AssetCode ` set as. code_ok c"
  shows "orc_ok D (set_assets as s)"
proof -
  have l: "GetCurrentPricesList (set_assets as s) = GetCurrentPricesList s" by (simp add: GetCurrentPricesList_def)
  have r: "GetRawPrices (set_assets as s) = GetRawPrices s" by (rule GetRawPrices_cong) simp
  show ?thesis
    using ok c unfolding orc_ok_def orc_inv_def orc_mirror_def l r
    by (auto simp: price_ok_def mirrored_def)
qed

lemma codes_update:
  assumes "\<And>a. as_AssetCode a = c \<Longrightarrow> as_AssetCode (f a) = c"
  shows "as_AssetCode ` set (map (\<lambda>a. if as_AssetCode a = c then f a else a) as) = as_AssetCode ` set as"
proof -
  have "as_AssetCode (if as_AssetCode a = c then f a else a) = as_AssetCode a" for a using assms by simp
  then show ?thesis by (simp add: image_image del: if_image_distrib)
qed

text \<open>A message of a nominee keeps the state and replaces the list of assets, dropping no asset.\<close>

definition managed :: "'d orc_lib \<Rightarrow> bytes \<Rightarrow> orc_state \<Rightarrow> orc_state \<Rightarrow> bool" where
  "managed D nominee s s' \<longleftrightarrow> addr_string D nominee \<in> set (op_Nominees (or_params s)) \<and>
     (\<exists>as. s' = set_assets as s \<and> codes s \<subseteq> as_AssetCode ` set as \<and>
        ((\<forall>c \<in> codes s. code_ok c) \<longrightarrow> (\<forall>c \<in> as_AssetCode ` set as. code_ok c)))"

lemma IsNominee_Ok: "IsNominee s n = Ok () \<longleftrightarrow> n \<in> set (op_Nominees (or_params s))"
  by (simp add: IsNominee_def)

lemma managed_update:
  assumes "addr_string D n \<in> set (op_Nominees (or_params s))" and "\<And>a. as_AssetCode a = c \<Longrightarrow> as_AssetCode (f a) = c"
  shows "managed D n s (set_assets (map (\<lambda>a. if as_AssetCode a = c then f a else a) (GetAssetParams s)) s)"
  unfolding managed_def using assms(1) codes_update [of c f "GetAssetParams s", OF assms(2)]
  by (intro conjI exI [of _ "map (\<lambda>a. if as_AssetCode a = c then f a else a) (GetAssetParams s)"]) (auto simp: codes_def)

lemma internal_error_Ok: "internal_error r = (Ok (), s') \<longleftrightarrow> r = (Ok (), s')"
  by (auto simp: internal_error_def split: prod.splits res.splits)

lemmas managing_defs = handleMsgAddOracle_def handleMsgSetOracles_def handleMsgSetAsset_def handleMsgAddAsset_def
  AddOracle_def SetOracles_def SetAsset_def AddAsset_def update_assets_eq internal_error_Ok IsNominee_def

lemma handleMsgAddOracle_Ok: "handleMsgAddOracle D x n c s = (Ok (), s') \<Longrightarrow> managed D n s s'"
  by (auto simp: managing_defs split: res.splits if_splits intro!: managed_update)

lemma handleMsgSetOracles_Ok: "handleMsgSetOracles D xs n c s = (Ok (), s') \<Longrightarrow> managed D n s s'"
  by (auto simp: managing_defs split: res.splits if_splits intro!: managed_update)

lemma handleMsgSetAsset_Ok: "handleMsgSetAsset D n a s = (Ok (), s') \<Longrightarrow> managed D n s s'"
  by (auto simp: managing_defs split: res.splits if_splits intro!: managed_update)

lemma handleMsgAddAsset_Ok: "handleMsgAddAsset D n a s = (Ok (), s') \<Longrightarrow> managed D n s s'"
  by (auto simp: managing_defs managed_def MsgAddAsset_ValidateBasic_def Asset_ValidateBasic_def codes_def
      split: res.splits if_splits intro!: exI [of _ "GetAssetParams s @ [a]"])

section \<open>Posting\<close>

definition received_ok :: "orc_state \<Rightarrow> int \<Rightarrow> int \<Rightarrow> bool" where
  "received_ok s now recv \<longleftrightarrow>
     (let d = uint (pp_ReceivedAtDiffInS (op_PostPrice (or_params s))) in
      d = 0 \<or> \<bar>now - recv\<bar> \<le> d * 1000000000 \<or> now - recv \<le> - (2 ^ 63))"

lemma sint64: "- (2 ^ 63) \<le> x \<Longrightarrow> x < 2 ^ 63 \<Longrightarrow> sint (word_of_int x :: 64 word) = x"
  by (simp add: sint_sbintrunc' signed_take_bit_int_eq_self)

lemma absDuration_spec:
  assumes "- (2 ^ 63) \<le> x" and "x < 2 ^ 63"
  shows "sint (absDuration (word_of_int x)) = (if x = - (2 ^ 63) then - (2 ^ 63) else \<bar>x\<bar>)"
proof -
  have sx: "sint (word_of_int x :: 64 word) = x" by (rule sint64 [OF assms])
  consider "0 \<le> x" | "x = - (2 ^ 63)" | "- (2 ^ 63) < x" "x < 0" using assms by linarith
  then show ?thesis
  proof cases
    case 1
    then show ?thesis unfolding absDuration_def sx using sx by simp
  next
    case 2
    have "- word_of_int x = (word_of_int x :: 64 word)" unfolding 2 by simp
    with 2 show ?thesis unfolding absDuration_def sx using sx by (simp only:) simp
  next
    case 3
    then have "sint (word_of_int (- x) :: 64 word) = - x" by (intro sint64) auto
    with 3 show ?thesis unfolding absDuration_def sx by (simp only: wi_hom_neg [symmetric]) simp
  qed
qed

lemma checkPriceReceivedAtTimestamp_spec:
  "checkPriceReceivedAtTimestamp now recv s = (if received_ok s now recv then Ok () else Err OrcErrInvalidReceivedAt)"
proof -
  let ?w = "pp_ReceivedAtDiffInS (op_PostPrice (or_params s))"
  let ?d = "uint ?w" and ?x = "time_sub now recv"
  have d: "0 \<le> ?d" "?d < 2 ^ 32" using uint_lt2p [of ?w] by auto
  have z: "0 < ?w \<longleftrightarrow> ?d \<noteq> 0" by (simp add: word_gt_0 uint_0_iff)
  have "ucast ?w * (1000000000 :: 64 word) = word_of_int (?d * 1000000000)"
    unfolding ucast_eq word_numeral_alt wi_hom_mult ..
  moreover have "- (2 ^ 63) \<le> v * 1000000000" "v * 1000000000 < 2 ^ 63" if "0 \<le> v" "v < 2 ^ 32" for v :: int
    using that by auto
  note this [OF d]
  ultimately have thr: "sint (ucast ?w * (1000000000 :: 64 word)) = ?d * 1000000000" by (simp only: sint64)
  have x: "- (2 ^ 63) \<le> ?x" "?x < 2 ^ 63" by (auto simp: time_sub_def)
  note ax = absDuration_spec [OF x]
  have "(v * 1000000000 < (if ?x = - (2 ^ 63) then - (2 ^ 63) else \<bar>?x\<bar>)) \<longleftrightarrow>
      \<not> (\<bar>now - recv\<bar> \<le> v * 1000000000 \<or> now - recv \<le> - (2 ^ 63))" if "0 \<le> v" "v < 2 ^ 32" for v
    using that by (auto simp: time_sub_def)
  from this [OF d] show ?thesis
    using d z unfolding checkPriceReceivedAtTimestamp_def Let_def thr ax received_ok_def by auto
qed

lemma put_price_set:
  "distinct (map po_OracleAddress ps) \<Longrightarrow>
   set (put_price p ps) = insert p {q \<in> set ps. po_OracleAddress q \<noteq> po_OracleAddress p}"
  by (induction ps) (auto simp: image_iff)

lemma put_price_addresses: "po_OracleAddress ` set (put_price p ps) = insert (po_OracleAddress p) (po_OracleAddress ` set ps)"
  by (induction ps) auto

lemma put_price_distinct: "distinct (map po_OracleAddress ps) \<Longrightarrow> distinct (map po_OracleAddress (put_price p ps))"
  by (induction ps) (auto simp: put_price_addresses [simplified image_def] image_def)

definition posted :: "int \<Rightarrow> bytes \<Rightarrow> AssetCode \<Rightarrow> int \<Rightarrow> int \<Rightarrow> int \<Rightarrow> orc_state \<Rightarrow> orc_state" where
  "posted h from c ask bid recv s =
     s\<lparr>or_raw := kv_set (GetRawPricesKey c h)
        (put_price \<lparr>po_AssetCode = c, po_OracleAddress = from, po_AskPrice = ask, po_BidPrice = bid, po_ReceivedAt = recv\<rparr>
          (GetRawPrices s c h)) (or_raw s)\<rparr>"

definition is_oracle :: "orc_state \<Rightarrow> AssetCode \<Rightarrow> bytes \<Rightarrow> bool" where
  "is_oracle s c x \<longleftrightarrow> (\<exists>a. GetAsset s c = Some a \<and> x \<in> or_Address ` set (as_Oracles a))"

lemma GetOracle_ok: "is_ok (GetOracle s c x) \<longleftrightarrow> is_oracle s c x"
  by (auto simp: GetOracle_def GetOracles_def is_oracle_def GetAsset_def find_None_iff is_ok_iff find_Some_iff image_iff
      split: option.splits res.splits)

lemma handleMsgPostPrice_spec:
  "if is_oracle s c from \<and> received_ok s now recv
   then handleMsgPostPrice h now from c ask bid recv s = (Ok (), posted h from c ask bid recv s)
   else \<exists>e. handleMsgPostPrice h now from c ask bid recv s = (Err e, s)"
  by (auto simp: handleMsgPostPrice_def ValidatePostPrice_def SetPrice_def checkPriceReceivedAtTimestamp_spec GetOracle_ok posted_def Let_def
      split: res.splits) (auto simp: is_oracle_def)

lemma GetRawPrices_posted:
  assumes "code_ok c" and "code_ok d"
  shows "GetRawPrices (posted h from c ask bid recv s) d k =
    (if d = c \<and> k = h
     then put_price \<lparr>po_AssetCode = c, po_OracleAddress = from, po_AskPrice = ask, po_BidPrice = bid, po_ReceivedAt = recv\<rparr>
            (GetRawPrices s c h)
     else GetRawPrices s d k)"
  using GetRawPricesKey_inject [OF assms(2,1), of k h] by (auto simp: posted_def GetRawPrices_def)

lemma posts_ok_put:
  assumes "posts_ok c ps" and "0 \<le> ask" "ask < 2 ^ 64" "0 \<le> bid" "bid < 2 ^ 64"
  shows "posts_ok c (put_price \<lparr>po_AssetCode = c, po_OracleAddress = x, po_AskPrice = ask, po_BidPrice = bid, po_ReceivedAt = t\<rparr> ps)"
  using assms put_price_distinct [of ps] put_price_set [of ps] by (auto simp: posts_ok_def)

lemma posted_ok:
  assumes ok: "orc_ok D s" and v: "MsgPostPrice_ValidateBasic from c ask bid = Ok ()"
  shows "orc_ok D (posted h from c ask bid recv s)"
proof -
  from v have c: "code_ok c" and r: "0 \<le> ask" "ask < 2 ^ 64" "0 \<le> bid" "bid < 2 ^ 64"
    by (auto simp: MsgPostPrice_ValidateBasic_def split: if_splits)
  have p: "posts_ok d (GetRawPrices (posted h from c ask bid recv s) d k)" if "code_ok d" for d k
    using ok that r unfolding GetRawPrices_posted [OF c that] by (auto simp: orc_ok_def orc_inv_def intro!: posts_ok_put)
  have f: "codes (posted h from c ask bid recv s) = codes s" "or_params (posted h from c ask bid recv s) = or_params s"
    "or_current (posted h from c ask bid recv s) = or_current s" "or_vm (posted h from c ask bid recv s) = or_vm s"
    by (simp_all add: posted_def)
  show ?thesis
    using ok p by (simp add: orc_ok_def orc_inv_def orc_mirror_def f GetCurrentPricesList_def price_ok_def mirrored_def)
qed

section \<open>Reachable states\<close>

text \<open>
  The chain starts from a genesis whose prices are in the storage of the virtual machine already (that storage has its own genesis), and
  goes on with messages that pass their validation and ends of blocks.
\<close>

inductive orc_reach :: "sdk \<Rightarrow> 'd orc_lib \<Rightarrow> orc_state \<Rightarrow> bool" for S :: sdk and D :: "'d orc_lib" where
  init: "\<lbrakk>Orc_InitGenesis now g \<lparr>or_params = p, or_raw = [], or_current = [], or_vm = vm\<rparr> = (Ok (), s); orc_mirror D s\<rbrakk>
         \<Longrightarrow> orc_reach S D s"
| message: "\<lbrakk>orc_reach S D s; orc_msg_valid m = Ok (); atomically (Orc_NewHandler D h now m) s = (r, s')\<rbrakk> \<Longrightarrow> orc_reach S D s'"
| end_block: "\<lbrakk>orc_reach S D s; Orc_EndBlocker S D h now s = (Ok (), s')\<rbrakk> \<Longrightarrow> orc_reach S D s'"

lemma Orc_NewHandler_ok:
  assumes "orc_ok D s" and "orc_msg_valid m = Ok ()" and "Orc_NewHandler D h now m s = (Ok (), s')"
  shows "orc_ok D s'"
proof -
  have man: "orc_ok D s'" if "managed D n s s'" for n
    using that assms(1) set_assets_ok [OF assms(1)] by (auto simp: managed_def orc_ok_def orc_inv_def)
  show ?thesis
  proof (cases m)
    case (MsgPostPrice x c ask bid recv)
    with assms posted_ok [OF assms(1), of x c ask bid] handleMsgPostPrice_spec [of s c x now recv h ask bid]
    show ?thesis by (auto split: if_splits)
  qed (use assms(3) in \<open>auto intro: man handleMsgAddOracle_Ok handleMsgSetOracles_Ok handleMsgSetAsset_Ok handleMsgAddAsset_Ok\<close>)
qed

lemma orc_init_prices_ok:
  assumes "orc_init_prices cps s = (Ok (), s')" and "orc_inv s"
    and "\<forall>cp \<in> set cps. CurrentPrice_Valid cp = Ok ()"
  shows "orc_inv s'"
  using assms
proof (induction cps arbitrary: s)
  case (Cons cp cps)
  from Cons.prems have g: "cp_AssetCode cp \<in> codes s" and rest: "orc_init_prices cps (addCurrentPrice cp s) = (Ok (), s')"
    by (auto simp: GetAsset_None split: if_splits)
  have v: "0 < cp_AskPrice cp" "0 < cp_BidPrice cp"
    using Cons.prems(3) by (auto simp: CurrentPrice_Valid_def split: res.splits if_splits)
  have k: "kv_keyed price_key (or_current s)" using Cons.prems(2) by (simp add: orc_inv_def)
  have r: "GetRawPrices (addCurrentPrice cp s) = GetRawPrices s" by (rule GetRawPrices_cong) (simp add: addCurrentPrice_def)
  have "orc_inv (addCurrentPrice cp s)"
    using Cons.prems(2) g v kv_keyed_set [OF k] kv_keyed_vals_set [OF k, of cp] unfolding orc_inv_def r
    by (auto simp: addCurrentPrice_def GetCurrentPricesList_def price_ok_def)
  with Cons.IH [OF rest] Cons.prems(3) show ?case by simp
qed simp

lemma validate_assets_ok: "validate_assets as = Ok () \<Longrightarrow> \<forall>a \<in> set as. code_ok (as_AssetCode a)"
  by (induction as) (auto split: res.splits)

lemma orc_validate_loop_ok: "orc_validate_loop now cps seen = Ok () \<Longrightarrow> \<forall>cp \<in> set cps. CurrentPrice_Valid cp = Ok ()"
  by (induction cps arbitrary: seen) (auto split: res.splits if_splits)

lemma Orc_InitGenesis_inv:
  assumes "Orc_InitGenesis now g s0 = (Ok (), s)" and "or_raw s0 = []" and "or_current s0 = []"
  shows "orc_inv s"
proof -
  from assms(1) have v: "validate_assets (op_Assets (og_Params g)) = Ok ()" "[] \<notin> set (op_Nominees (og_Params g))"
      "orc_validate_loop now (og_CurrentPrices g) {} = Ok ()"
    and i: "orc_init_prices (og_CurrentPrices g) (s0\<lparr>or_params := og_Params g\<rparr>) = (Ok (), s)"
    by (auto simp: Orc_InitGenesis_def OrcGenesis_Validate_def OrcParams_Validate_def split: res.splits if_splits)
  have "orc_inv (s0\<lparr>or_params := og_Params g\<rparr>)"
    using validate_assets_ok [OF v(1)] v(2) assms(2,3)
    by (simp add: orc_inv_def codes_def GetAssetParams_def GetRawPrices_def GetCurrentPricesList_def kv_vals_def posts_ok_def)
  with i orc_validate_loop_ok [OF v(3)] show ?thesis by (intro orc_init_prices_ok [OF i])
qed

lemma orc_reach_ok:
  assumes "uint_laws S" "int_laws S" "orc_laws val D" "orc_reach S D s"
  shows "orc_ok D s"
  using assms(4)
proof (induction rule: orc_reach.induct)
  case (init now g p vm s)
  then show ?case using Orc_InitGenesis_inv [OF init(1)] by (simp add: orc_ok_def)
next
  case (message s m h now r s')
  then show ?case
    using atomically_invariant [of "Orc_NewHandler D h now m" s "orc_ok D"] Orc_NewHandler_ok [OF message(4,2)] by auto
next
  case (end_block s h now s')
  then show ?case using Orc_EndBlocker_spec [OF assms(1-3) end_block(3), of h now] by auto
qed

section \<open>Instances\<close>

lemma ref_vector_inject: "OracleAccessVector ref_orc_lib a b = OracleAccessVector ref_orc_lib c d \<longleftrightarrow> a = c \<and> b = d"
proof
  assume "OracleAccessVector ref_orc_lib a b = OracleAccessVector ref_orc_lib c d"
  then have "dec_digits (length a) @ CHR '':'' # (a @ b) = dec_digits (length c) @ CHR '':'' # (c @ d)"
    by (simp add: ref_orc_lib_def)
  then have "dec_digits (length a) = dec_digits (length c) \<and> a @ b = c @ d" by (rule sep_append) simp_all
  then show "a = c \<and> b = d" by (metis append_eq_append_conv dec_digits_inject)
qed simp

lemma ref_orc_laws: "orc_laws id ref_orc_lib"
  unfolding orc_laws_def
proof (intro conjI allI impI)
  show "decimal_laws id ref_orc_lib" by (auto simp: decimal_laws_def ref_orc_lib_def)
qed (simp_all only: ref_vector_inject, simp_all add: ref_orc_lib_def sgn_if)

definition ex_code :: AssetCode where
  "ex_code = ''btc_xfi''"

definition ex_orc_params :: OrcParams where
  "ex_orc_params = \<lparr>op_Assets = [\<lparr>as_AssetCode = ex_code, as_Oracles = map NewOracle [''A'', ''B'', ''C''], as_Active = True\<rparr>],
     op_Nominees = [''wallet1N''], op_PostPrice = \<lparr>pp_ReceivedAtDiffInS = 3600\<rparr>\<rparr>"

definition ex_orc0 :: orc_state where
  "ex_orc0 = \<lparr>or_params = ex_orc_params, or_raw = [], or_current = [], or_vm = []\<rparr>"

definition ex_orc3 :: orc_state where
  "ex_orc3 = posted 1 ''C'' ex_code 100000 1 0 (posted 1 ''B'' ex_code 110 95 0 (posted 1 ''A'' ex_code 100 90 0 ex_orc0))"

lemma ex_code_ok: "code_ok ex_code"
  by (simp add: code_ok_iff ex_code_def is_lower_ascii_def)

lemma ex_orc0_reach: "orc_reach S D ex_orc0"
  by (rule orc_reach.init [where now = 0 and g = "\<lparr>og_Params = ex_orc_params, og_CurrentPrices = []\<rparr>" and p = ex_orc_params and vm = "[]"])
    (use ex_code_ok in \<open>simp_all add: Orc_InitGenesis_def OrcGenesis_Validate_def OrcParams_Validate_def ex_orc_params_def
       ex_orc0_def orc_mirror_def GetCurrentPricesList_def kv_vals_def\<close>)

lemma ex_post_reach:
  assumes "orc_reach S D s" and "or_params s = ex_orc_params" and "x \<in> {''A'', ''B'', ''C''}" and "ask \<in> {0 ..< 2 ^ 64}" "bid \<in> {0 ..< 2 ^ 64}"
  shows "orc_reach S D (posted 1 x ex_code ask bid 0 s) \<and> or_params (posted 1 x ex_code ask bid 0 s) = ex_orc_params"
proof -
  have "is_oracle s ex_code x" "received_ok s 0 0"
    using assms(2,3) by (auto simp: is_oracle_def GetAsset_def GetAssetParams_def ex_orc_params_def NewOracle_def received_ok_def)
  then have "handleMsgPostPrice 1 0 x ex_code ask bid 0 s = (Ok (), posted 1 x ex_code ask bid 0 s)"
    using handleMsgPostPrice_spec [of s ex_code x 0 0 1 ask bid] by simp
  then have "atomically (Orc_NewHandler D 1 0 (MsgPostPrice x ex_code ask bid 0)) s = (Ok (), posted 1 x ex_code ask bid 0 s)"
    by (intro atomically_Ok) simp
  moreover have "orc_msg_valid (MsgPostPrice x ex_code ask bid 0) = Ok ()"
    using assms(3-5) ex_code_ok by (auto simp: MsgPostPrice_ValidateBasic_def)
  ultimately have "orc_reach S D (posted 1 x ex_code ask bid 0 s)" using assms(1) by (blast intro: orc_reach.message)
  then show ?thesis using assms(2) by (simp add: posted_def)
qed

lemma ex_orc3_reach: "orc_reach S D ex_orc3 \<and> or_params ex_orc3 = ex_orc_params"
proof -
  have "or_params ex_orc0 = ex_orc_params" by (simp add: ex_orc0_def)
  then show ?thesis unfolding ex_orc3_def
    by (intro ex_post_reach conjunct1 [OF ex_post_reach] conjunct2 [OF ex_post_reach] ex_orc0_reach) auto
qed

lemma ex_orc3_raw:
  "map po_AskPrice (GetRawPrices ex_orc3 ex_code 1) = [100, 110, 100000]" "map po_BidPrice (GetRawPrices ex_orc3 ex_code 1) = [90, 95, 1]"
  by (simp_all add: ex_orc3_def GetRawPrices_posted [OF ex_code_ok ex_code_ok])
    (simp_all add: GetRawPrices_def ex_orc0_def)

section \<open>Properties\<close>

text \<open>
  C6. No oracle is counted twice in a block, and while more than half of the prices posted for an asset lie within limits, the end of the block
  sets a current price within these limits, for ask and for bid, whatever the other oracles posted; the virtual machine sees that price,
  unless the reversed asset is registered too.
\<close>

theorem oracle_price_robust:
  assumes laws: "uint_laws S" "int_laws S" "orc_laws val D"
    and reach: "orc_reach S D s" and c: "GetAsset s c \<noteq> None" and pos: "0 < lo" "0 < lo'"
    and ask: "length (GetRawPrices s c h) < 2 * length (filter (\<lambda>p. lo \<le> po_AskPrice p \<and> po_AskPrice p \<le> hi) (GetRawPrices s c h))"
    and bid: "length (GetRawPrices s c h) < 2 * length (filter (\<lambda>p. lo' \<le> po_BidPrice p \<and> po_BidPrice p \<le> hi') (GetRawPrices s c h))"
  shows "distinct (map po_OracleAddress (GetRawPrices s c h)) \<and>
    (\<exists>s'. Orc_EndBlocker S D h now s = (Ok (), s') \<and> cp_AssetCode (GetCurrentPrice s' c) = c \<and>
       lo \<le> cp_AskPrice (GetCurrentPrice s' c) \<and> cp_AskPrice (GetCurrentPrice s' c) \<le> hi \<and>
       lo' \<le> cp_BidPrice (GetCurrentPrice s' c) \<and> cp_BidPrice (GetCurrentPrice s' c) \<le> hi' \<and>
       (GetAsset s (rev_code c) = None \<longrightarrow>
          getValue (or_vm s') (price_path D c) = lcs_price D (cp_AskPrice (GetCurrentPrice s' c)) \<and>
          lcs_price D (cp_AskPrice (GetCurrentPrice s' c)) \<noteq> None))"
proof -
  have ok: "orc_ok D s" by (rule orc_reach_ok [OF laws reach])
  have cc: "c \<in> codes s" "code_ok c" using c ok by (auto simp: GetAsset_None orc_ok_def orc_inv_def)
  let ?A = "raw_median po_AskPrice s c h" and ?B = "raw_median po_BidPrice s c h"
  have A: "lo \<le> ?A \<and> ?A \<le> hi" unfolding raw_median_def
    by (rule median_majority) (use ask in \<open>simp add: filter_map o_def\<close>)
  have B: "lo' \<le> ?B \<and> ?B \<le> hi'" unfolding raw_median_def
    by (rule median_majority) (use bid in \<open>simp add: filter_map o_def\<close>)
  have m: "medians_ok s c h" using A B pos by (auto simp: medians_ok_def)
  obtain s' where s': "Orc_EndBlocker S D h now s = (Ok (), s')" "orc_ok D s'" "or_params s' = or_params s" "has_price s' c ?A ?B"
    using Orc_EndBlocker_spec [OF laws ok, of h now] cc m by meson
  have "codes s' = codes s" using s'(3) by (simp add: codes_def GetAssetParams_def)
  moreover have "GetCurrentPrice s' c \<in> set (GetCurrentPricesList s')"
    by (rule GetCurrentPrice_listed) (use s'(2,4) cc(2) code_ok_nonempty in \<open>auto simp: orc_ok_def has_price_def\<close>)
  ultimately have "mirrored D s' (GetCurrentPrice s' c)" if "rev_code c \<notin> codes s"
    using s'(2,4) that by (auto simp: orc_ok_def orc_mirror_def has_price_def)
  moreover have "distinct (map po_OracleAddress (GetRawPrices s c h))"
    using ok cc by (auto simp: orc_ok_def orc_inv_def posts_ok_def)
  ultimately show ?thesis
    using s'(1,4) A B by (intro conjI exI [of _ s']) (auto simp: has_price_def mirrored_def GetAsset_None)
qed

theorem oracle_price_robust_witness:
  "\<exists>s'. Orc_EndBlocker ref_sdk ref_orc_lib 1 0 ex_orc3 = (Ok (), s') \<and>
     100 \<le> cp_AskPrice (GetCurrentPrice s' ex_code) \<and> cp_AskPrice (GetCurrentPrice s' ex_code) \<le> 110 \<and>
     90 \<le> cp_BidPrice (GetCurrentPrice s' ex_code) \<and> cp_BidPrice (GetCurrentPrice s' ex_code) \<le> 95"
proof -
  have r: "orc_reach ref_sdk ref_orc_lib ex_orc3" and p: "or_params ex_orc3 = ex_orc_params" using ex_orc3_reach by auto
  have a: "GetAsset ex_orc3 ex_code \<noteq> None" by (simp add: GetAsset_def GetAssetParams_def p ex_orc_params_def)
  have f: "length (filter (\<lambda>p. x \<le> f p \<and> f p \<le> y) xs) = length (filter (\<lambda>v. x \<le> v \<and> v \<le> y) (map f xs))"
    for x y and f :: "PostedPrice \<Rightarrow> int" and xs by (simp add: filter_map o_def)
  have l: "length (GetRawPrices ex_orc3 ex_code 1) = 3" using arg_cong [OF ex_orc3_raw(1), of length] by simp
  from oracle_price_robust [OF ref_uint_laws ref_int_laws ref_orc_laws r a, of 100 90 1 110 95 0]
  show ?thesis unfolding f l ex_orc3_raw by auto
qed

text \<open>
  C29. Every reachable state is well-formed: asset codes have the format, nominees are not empty, the prices posted for an asset in a block
  belong to it, come from distinct oracles and fit 64 bits; current prices are positive, belong to registered assets, one to an asset, and
  agree with the resources of the virtual machine for the asset and for the reversed asset, whose price is the quotient of \<open>10\<^sup>1\<^sup>6\<close> and the bid
  price or one more (unless the reversed asset is registered too). From such a state every end of block completes.
\<close>

theorem oracle_well_formed:
  assumes laws: "uint_laws S" "int_laws S" "orc_laws val D" and reach: "orc_reach S D s"
  shows "(\<forall>a \<in> set (GetAssetParams s). AssetCode_Validate (as_AssetCode a) = Ok ()) \<and>
    [] \<notin> set (op_Nominees (or_params s)) \<and>
    (\<forall>a \<in> set (GetAssetParams s). \<forall>h. distinct (map po_OracleAddress (GetRawPrices s (as_AssetCode a) h)) \<and>
       (\<forall>p \<in> set (GetRawPrices s (as_AssetCode a) h). po_AssetCode p = as_AssetCode a \<and>
          0 \<le> po_AskPrice p \<and> po_AskPrice p < 2 ^ 64 \<and> 0 \<le> po_BidPrice p \<and> po_BidPrice p < 2 ^ 64)) \<and>
    distinct (map cp_AssetCode (GetCurrentPricesList s)) \<and>
    (\<forall>cp \<in> set (GetCurrentPricesList s). GetAsset s (cp_AssetCode cp) \<noteq> None \<and> 0 < cp_AskPrice cp \<and> 0 < cp_BidPrice cp \<and>
       (\<forall>rc. ReverseCode (cp_AssetCode cp) = Some rc \<longrightarrow> GetAsset s rc = None \<longrightarrow>
          (\<exists>path path' q. GetAssetCodePath D (cp_AssetCode cp) = Some path \<and> GetAssetCodePath D rc = Some path' \<and>
             getValue (or_vm s) path = lcs_price D (cp_AskPrice cp) \<and> getValue (or_vm s) path' = lcs_price D q \<and>
             10 ^ 16 div cp_BidPrice cp \<le> q \<and> q \<le> 10 ^ 16 div cp_BidPrice cp + 1))) \<and>
    (\<exists>s'. Orc_EndBlocker S D h now s = (Ok (), s'))"
proof -
  have ok: "orc_ok D s" by (rule orc_reach_ok [OF laws reach])
  then have inv: "orc_inv s" and k: "kv_keyed price_key (or_current s)" by (simp_all add: orc_ok_def orc_inv_def)
  have co: "code_ok c" if "c \<in> codes s" for c using that inv by (simp add: orc_inv_def)
  have ac: "as_AssetCode a \<in> codes s" if "a \<in> set (GetAssetParams s)" for a using that by (simp add: codes_def)
  have 1: "code_ok (as_AssetCode a) \<and> (\<forall>h. posts_ok (as_AssetCode a) (GetRawPrices s (as_AssetCode a) h))"
    if "a \<in> set (GetAssetParams s)" for a using co [OF ac [OF that]] inv by (auto simp: orc_inv_def)
  have 2: "distinct (map cp_AssetCode (GetCurrentPricesList s))"
    using kv_keyed_distinct [OF k] by (simp add: GetCurrentPricesList_def distinct_map inj_on_def)
  have 3: "\<exists>path path' q. GetAssetCodePath D (cp_AssetCode cp) = Some path \<and> GetAssetCodePath D rc = Some path' \<and>
        getValue (or_vm s) path = lcs_price D (cp_AskPrice cp) \<and> getValue (or_vm s) path' = lcs_price D q \<and>
        10 ^ 16 div cp_BidPrice cp \<le> q \<and> q \<le> 10 ^ 16 div cp_BidPrice cp + 1"
    if "cp \<in> set (GetCurrentPricesList s)" "ReverseCode (cp_AssetCode cp) = Some rc" "GetAsset s rc = None" for cp rc
  proof -
    have p: "price_ok s cp" using that(1) inv by (simp add: orc_inv_def)
    then have c: "code_ok (cp_AssetCode cp)" using co by (simp add: price_ok_def)
    then have rc: "rc = rev_code (cp_AssetCode cp)" using that(2) ReverseCode_ok by simp
    then have "mirrored D s cp" using ok that by (simp add: orc_ok_def orc_mirror_def GetAsset_None)
    with p c rc show ?thesis
      using GetAssetCodePath_ok [OF c] GetAssetCodePath_ok [OF rev_code_ok [OF c]] rev_price_bounds [of "cp_BidPrice cp"]
      by (auto simp: mirrored_def price_ok_def)
  qed
  have 4: "GetAsset s (cp_AssetCode cp) \<noteq> None \<and> 0 < cp_AskPrice cp \<and> 0 < cp_BidPrice cp" if "cp \<in> set (GetCurrentPricesList s)" for cp
    using that inv by (auto simp: orc_inv_def price_ok_def GetAsset_None)
  have 5: "\<exists>s'. Orc_EndBlocker S D h now s = (Ok (), s')" using Orc_EndBlocker_spec [OF laws ok, of h now] by blast
  have 6: "[] \<notin> set (op_Nominees (or_params s))" using inv by (simp add: orc_inv_def)
  show ?thesis using 1 2 3 4 5 6 unfolding posts_ok_def by blast
qed

theorem oracle_well_formed_witness:
  "distinct (map po_OracleAddress (GetRawPrices ex_orc3 ex_code 1)) \<and> length (GetRawPrices ex_orc3 ex_code 1) = 3 \<and>
   (\<exists>s'. Orc_EndBlocker ref_sdk ref_orc_lib 1 0 ex_orc3 = (Ok (), s'))"
proof -
  have r: "orc_reach ref_sdk ref_orc_lib ex_orc3" and p: "or_params ex_orc3 = ex_orc_params" using ex_orc3_reach by auto
  have "\<lparr>as_AssetCode = ex_code, as_Oracles = map NewOracle [''A'', ''B'', ''C''], as_Active = True\<rparr> \<in> set (GetAssetParams ex_orc3)"
    by (simp add: GetAssetParams_def p ex_orc_params_def)
  with oracle_well_formed [OF ref_uint_laws ref_int_laws ref_orc_laws r, of 1 0]
  have "distinct (map po_OracleAddress (GetRawPrices ex_orc3 ex_code 1))" "\<exists>s'. Orc_EndBlocker ref_sdk ref_orc_lib 1 0 ex_orc3 = (Ok (), s')"
    by fastforce+
  moreover have "length (GetRawPrices ex_orc3 ex_code 1) = 3" using arg_cong [OF ex_orc3_raw(1), of length] by simp
  ultimately show ?thesis by simp
qed

text \<open>
  C32. A price is accepted exactly from an oracle of a registered asset with a timestamp no further from the block time than the parameter
  allows, or at least \<open>2\<^sup>6\<^sup>3\<close> nanoseconds (292 years) in the future, where the duration overflows; it replaces the price the oracle posted before in the
  block and touches nothing else. A refused price leaves the state unchanged.
\<close>

theorem oracle_post_price:
  assumes laws: "uint_laws S" "int_laws S" "orc_laws val D" and reach: "orc_reach S D s"
    and valid: "MsgPostPrice_ValidateBasic x c ask bid = Ok ()"
    and res: "handleMsgPostPrice h now x c ask bid recv s = (r, s')"
  shows "(is_ok r \<longleftrightarrow>
      (\<exists>a. GetAsset s c = Some a \<and> x \<in> or_Address ` set (as_Oracles a)) \<and>
      (let d = uint (pp_ReceivedAtDiffInS (op_PostPrice (or_params s))) in
       d = 0 \<or> \<bar>now - recv\<bar> \<le> d * 10 ^ 9 \<or> recv - now \<ge> 2 ^ 63)) \<and>
    (is_ok r \<longrightarrow>
      set (GetRawPrices s' c h) =
        insert \<lparr>po_AssetCode = c, po_OracleAddress = x, po_AskPrice = ask, po_BidPrice = bid, po_ReceivedAt = recv\<rparr>
          {p \<in> set (GetRawPrices s c h). po_OracleAddress p \<noteq> x} \<and>
      (\<forall>d k. AssetCode_Validate d = Ok () \<longrightarrow> (d, k) \<noteq> (c, h) \<longrightarrow> GetRawPrices s' d k = GetRawPrices s d k) \<and>
      or_params s' = or_params s \<and> or_current s' = or_current s \<and> or_vm s' = or_vm s) \<and>
    (\<not> is_ok r \<longrightarrow> s' = s)"
proof -
  have ok: "orc_ok D s" by (rule orc_reach_ok [OF laws reach])
  have c: "code_ok c" using valid by (auto simp: MsgPostPrice_ValidateBasic_def split: if_splits)
  have acc: "is_ok r \<longleftrightarrow> is_oracle s c x \<and> received_ok s now recv"
    and st: "is_ok r \<Longrightarrow> s' = posted h x c ask bid recv s" "\<not> is_ok r \<Longrightarrow> s' = s"
    using handleMsgPostPrice_spec [of s c x now recv h ask bid] res by (auto split: if_splits)
  have "distinct (map po_OracleAddress (GetRawPrices s c h))" using ok c by (auto simp: orc_ok_def orc_inv_def posts_ok_def)
  note put = put_price_set [OF this, of "\<lparr>po_AssetCode = c, po_OracleAddress = x, po_AskPrice = ask, po_BidPrice = bid, po_ReceivedAt = recv\<rparr>"]
  have "is_ok r \<Longrightarrow> set (GetRawPrices s' c h) =
        insert \<lparr>po_AssetCode = c, po_OracleAddress = x, po_AskPrice = ask, po_BidPrice = bid, po_ReceivedAt = recv\<rparr>
          {p \<in> set (GetRawPrices s c h). po_OracleAddress p \<noteq> x}"
    using st(1) put by (simp add: GetRawPrices_posted [OF c c])
  moreover have "is_ok r \<Longrightarrow> \<forall>d k. code_ok d \<longrightarrow> (d, k) \<noteq> (c, h) \<longrightarrow> GetRawPrices s' d k = GetRawPrices s d k"
    using st(1) GetRawPrices_posted [OF c] by auto
  moreover have "is_ok r \<Longrightarrow> or_params s' = or_params s \<and> or_current s' = or_current s \<and> or_vm s' = or_vm s"
    using st(1) by (simp add: posted_def)
  moreover have "received_ok s now recv \<longleftrightarrow> (let d = uint (pp_ReceivedAtDiffInS (op_PostPrice (or_params s))) in
       d = 0 \<or> \<bar>now - recv\<bar> \<le> d * 10 ^ 9 \<or> recv - now \<ge> 2 ^ 63)"
    by (auto simp: received_ok_def Let_def)
  ultimately show ?thesis using acc st(2) unfolding is_oracle_def by blast
qed

theorem oracle_post_price_witness:
  "is_ok (fst (handleMsgPostPrice 1 0 ''B'' ex_code 7 7 (2 ^ 63) ex_orc3)) \<and>
   \<not> is_ok (fst (handleMsgPostPrice 1 0 ''B'' ex_code 7 7 (2 ^ 62) ex_orc3))"
proof -
  have r: "orc_reach ref_sdk ref_orc_lib ex_orc3" and p: "or_params ex_orc3 = ex_orc_params" using ex_orc3_reach by auto
  have v: "MsgPostPrice_ValidateBasic ''B'' ex_code 7 7 = Ok ()" using ex_code_ok by (simp add: MsgPostPrice_ValidateBasic_def)
  note T = oracle_post_price [OF ref_uint_laws ref_int_laws ref_orc_laws r v surjective_pairing, THEN conjunct1]
  have "\<exists>a. GetAsset ex_orc3 ex_code = Some a \<and> ''B'' \<in> or_Address ` set (as_Oracles a)"
    by (simp add: GetAsset_def GetAssetParams_def p ex_orc_params_def NewOracle_def)
  then show ?thesis unfolding T by (simp add: p ex_orc_params_def)
qed

end
