(* ===== verification/VM_Types.thy ===== *)
theory VM_Types
  imports CommonVM
begin

text \<open>
  Data of module \<open>x/vm\<close> (directory \<open>x/vm/internal/types\<close>): the answers of the virtual machine, the names of event types with the gas charged for
  building them, execution statuses and the events that report them, messages, governance proposals and the genesis format.
\<close>

section \<open>Gas meters\<close>

text \<open>\<open>DumbGasMeter\<close>, the meter of the data-source context: it counts nothing.\<close>

definition DumbGasMeter :: "unit gas_lib" where
  "DumbGasMeter = \<lparr>g_Limit = (\<lambda>_. 0), g_Consumed = (\<lambda>_. 0), g_Consume = (\<lambda>_ g. Some g)\<rparr>"

section \<open>Hexadecimal strings\<close>

text \<open>\<open>hex.EncodeToString\<close> and \<open>hex.DecodeString\<close> (\<open>None\<close> is the error).\<close>

definition hex_digit :: "nat \<Rightarrow> char" where
  "hex_digit n = (if n < 10 then char_of (48 + n) else char_of (87 + n))"

definition hex_value :: "char \<Rightarrow> nat option" where
  "hex_value c =
     (let n = (of_char c :: nat) in
      if 48 \<le> n \<and> n \<le> 57 then Some (n - 48)
      else if 97 \<le> n \<and> n \<le> 102 then Some (n - 87)
      else if 65 \<le> n \<and> n \<le> 70 then Some (n - 55)
      else None)"

fun EncodeToString :: "bytes \<Rightarrow> string" where
  "EncodeToString [] = []"
| "EncodeToString (c # cs) = hex_digit (of_char c div 16) # hex_digit (of_char c mod 16) # EncodeToString cs"

fun DecodeString :: "string \<Rightarrow> bytes option" where
  "DecodeString [] = Some []"
| "DecodeString [c] = None"
| "DecodeString (c # d # cs) =
     (case (hex_value c, hex_value d) of
        (Some x, Some y) \<Rightarrow> map_option (Cons (char_of (16 * x + y))) (DecodeString cs)
      | _ \<Rightarrow> None)"

section \<open>Answers of the virtual machine\<close>

text \<open>
  The messages of the protocol, with the fields the code reads; pointers that may be nil are options. \<open>LcsOther\<close> carries the name that the generated
  table has for a type the code does not name.
\<close>

datatype LcsType = LcsBool | LcsU8 | LcsU64 | LcsU128 | LcsSigner | LcsVector | LcsStruct | LcsOther string

datatype LcsTag = LcsTag (tag_TypeTag: LcsType) (tag_VectorType: "LcsTag option") (tag_StructIdent: "StructIdent option")
  and StructIdent = StructIdent (si_Address: bytes) (si_Module: string) (si_Name: string) (si_TypeParams: "LcsTag option list")

record AbortLocation =
  al_Address :: "bytes option"
  al_Module :: string

text \<open>The alternatives of the error of a status, each with an object that may be nil.\<close>

datatype StatusError =
    VMStatus_Abort "(64 word \<times> AbortLocation option) option"
  | VMStatus_ExecutionFailure "(64 word \<times> AbortLocation option) option"
  | VMStatus_MoveError "64 word option"

record grpc_VMStatus =
  vs_Error :: "StatusError option"
  vs_Message :: "string option"

datatype VmWriteOp = VmWriteOp_Value | VmWriteOp_Deletion | VmWriteOp_Other

record VMValue =
  vv_Type :: VmWriteOp
  vv_Value :: bytes
  vv_Path :: VMAccessPath

record VMEvent =
  ev_SenderAddress :: bytes
  ev_SenderModule :: "(bytes \<times> string) option"
  ev_EventType :: "LcsTag option"
  ev_EventData :: bytes

record VMExecuteResponse =
  ex_WriteSet :: "VMValue list"
  ex_Events :: "VMEvent option list"
  ex_GasUsed :: "64 word"
  ex_Status :: "grpc_VMStatus option"

datatype vm_error =
    VmErrInternal | VmErrEmptyContract | VmErrVMCrashed | VmErrNotFound
  | VmErrWrongArgTypeTag | VmErrWrongArgValue | VmErrWrongExecutionResponse | VmErrGovInvalidProposal
  | VmErrInvalidAddress | VmErrInvalidRequest | VmErrRequest | VmErrEventType | VmErrViewer | VmErrGenesis | VmErrGovRoute | VmErrGovContent

section \<open>Names of event types\<close>

definition EventTypeProcessingGas :: "64 word" where
  "EventTypeProcessingGas = 10000"

definition EventTypeNoGasLevels :: "64 word" where
  "EventTypeNoGasLevels = 2"

text \<open>\<open>A\<close> is the text form of an account address (\<open>AccAddress.String\<close> of the SDK).\<close>

definition StringifySenderAddress :: "(bytes \<Rightarrow> string) \<Rightarrow> bytes \<Rightarrow> string" where
  "StringifySenderAddress A addr = (if addr = StdLibAddress then ''0x1'' else A addr)"

fun lcsTypeToString :: "LcsType \<Rightarrow> string" where
  "lcsTypeToString LcsBool = ''bool''"
| "lcsTypeToString LcsU8 = ''u8''"
| "lcsTypeToString LcsU64 = ''u64''"
| "lcsTypeToString LcsU128 = ''u128''"
| "lcsTypeToString LcsSigner = ''signer''"
| "lcsTypeToString LcsVector = ''vector''"
| "lcsTypeToString LcsStruct = ''struct''"
| "lcsTypeToString (LcsOther name) = name"

text \<open>The charge at a nesting level: the new value of \<open>gas\<close>, and the meter after it was consumed.\<close>

definition event_gas :: "64 word \<Rightarrow> 64 word \<Rightarrow> 64 word" where
  "event_gas gas depth =
     (if EventTypeNoGasLevels < depth then gas + EventTypeProcessingGas * (depth - EventTypeNoGasLevels - 1) else gas)"

definition event_charge :: "'g gas_lib \<Rightarrow> 64 word \<Rightarrow> 64 word \<Rightarrow> 'g \<Rightarrow> 'g option" where
  "event_charge G gas depth g = (if EventTypeNoGasLevels < depth then g_Consume G (event_gas gas depth) g else Some g)"

definition join_strings :: "string \<Rightarrow> string list \<Rightarrow> string" where
  "join_strings sep xs = (case xs of [] \<Rightarrow> [] | x # ys \<Rightarrow> x @ concat (map (\<lambda>y. sep @ y) ys))"

fun processEventType ::
  "'g gas_lib \<Rightarrow> (bytes \<Rightarrow> string) \<Rightarrow> LcsTag option \<Rightarrow> 64 word \<Rightarrow> 64 word \<Rightarrow> ('g, vm_error, string) op"
and processTypeParams ::
  "'g gas_lib \<Rightarrow> (bytes \<Rightarrow> string) \<Rightarrow> LcsTag option list \<Rightarrow> 64 word \<Rightarrow> 64 word \<Rightarrow> ('g, vm_error, string list) op"
where
  "processEventType G A None gas depth g =
     (case event_charge G gas depth g of None \<Rightarrow> (Panic, g) | Some g1 \<Rightarrow> (Ok [], g1))"
| "processEventType G A (Some (LcsTag t vec str)) gas depth g =
     (case event_charge G gas depth g of
        None \<Rightarrow> (Panic, g)
      | Some g1 \<Rightarrow>
          if t = LcsVector \<and> vec = None then (Err VmErrEventType, g1)
          else if t = LcsStruct \<and> str = None then (Err VmErrEventType, g1)
          else (case vec of
                  Some v \<Rightarrow>
                    (case processEventType G A (Some v) (event_gas gas depth) (depth + 1) g1 of
                       (Ok x, g2) \<Rightarrow> (Ok (lcsTypeToString LcsVector @ ''<'' @ x @ ''>''), g2)
                     | (r, g2) \<Rightarrow> (r, g2))
                | None \<Rightarrow>
                    (case str of
                       Some (StructIdent a m n ps) \<Rightarrow>
                         let structType = StringifySenderAddress A a @ ''::'' @ m @ ''::'' @ n in
                         if ps = [] then (Ok structType, g1)
                         else (case processTypeParams G A ps (event_gas gas depth) (depth + 1) g1 of
                                 (Ok xs, g2) \<Rightarrow> (Ok (structType @ ''<'' @ join_strings '', '' xs @ ''>''), g2)
                               | (Err e, g2) \<Rightarrow> (Err e, g2)
                               | (Panic, g2) \<Rightarrow> (Panic, g2))
                     | None \<Rightarrow> (Ok (lcsTypeToString t), g1))))"
| "processTypeParams G A [] gas depth g = (Ok [], g)"
| "processTypeParams G A (p # ps) gas depth g =
     (case processEventType G A p gas depth g of
        (Ok x, g1) \<Rightarrow>
          (case processTypeParams G A ps gas depth g1 of
             (Ok xs, g2) \<Rightarrow> (Ok (x # xs), g2)
           | (Err e, g2) \<Rightarrow> (Err e, g2)
           | (Panic, g2) \<Rightarrow> (Panic, g2))
      | (Err e, g1) \<Rightarrow> (Err e, g1)
      | (Panic, g1) \<Rightarrow> (Panic, g1))"

definition StringifyEventType :: "'g gas_lib \<Rightarrow> (bytes \<Rightarrow> string) \<Rightarrow> LcsTag option \<Rightarrow> ('g, vm_error, string) op" where
  "StringifyEventType G A tag = processEventType G A tag EventTypeProcessingGas 1"

definition StringifyEventTypePanic :: "'g gas_lib \<Rightarrow> (bytes \<Rightarrow> string) \<Rightarrow> LcsTag option \<Rightarrow> ('g, vm_error, string) op" where
  "StringifyEventTypePanic G A tag g =
     (case StringifyEventType G A tag g of (Ok x, g') \<Rightarrow> (Ok x, g') | (_, g') \<Rightarrow> (Panic, g'))"

section \<open>Statuses and their events\<close>

definition VMExecutedCode :: "64 word" where
  "VMExecutedCode = 4001"

definition VMAbortedCode :: "64 word" where
  "VMAbortedCode = 4016"

text \<open>Major and sub status with the location; \<open>None\<close> is the panic on a nil error object.\<close>

definition GetStatusCodesFromVMStatus :: "grpc_VMStatus \<Rightarrow> (64 word \<times> 64 word \<times> AbortLocation option) option" where
  "GetStatusCodesFromVMStatus status =
     (case vs_Error status of
        Some (VMStatus_Abort x) \<Rightarrow> map_option (\<lambda>(code, l). (VMAbortedCode, code, l)) x
      | Some (VMStatus_ExecutionFailure x) \<Rightarrow> map_option (\<lambda>(code, l). (code, 0, l)) x
      | Some (VMStatus_MoveError x) \<Rightarrow> map_option (\<lambda>code. (code, 0, None)) x
      | None \<Rightarrow> Some (VMExecutedCode, 0, None))"

definition FormatUint :: "64 word \<Rightarrow> string" where
  "FormatUint w = dec_digits (unat w)"

definition location_attributes :: "AbortLocation option \<Rightarrow> (string \<times> string) list" where
  "location_attributes l =
     (case l of
        None \<Rightarrow> []
      | Some loc \<Rightarrow>
          (case al_Address loc of Some a \<Rightarrow> [(''location_address'', a)] | None \<Rightarrow> []) @
          (if al_Module loc \<noteq> [] then [(''location_module'', al_Module loc)] else []))"

definition EventTypeContractStatus :: string where
  "EventTypeContractStatus = ''vm.contract_status''"

definition EventTypeMoveEvent :: string where
  "EventTypeMoveEvent = ''vm.contract_events''"

definition NewContractEvents :: "VMExecuteResponse \<Rightarrow> sdk_event list option" where
  "NewContractEvents exec =
     (case ex_Status exec of
        None \<Rightarrow> None
      | Some status \<Rightarrow>
          if vs_Error status = None then Some [(EventTypeContractStatus, [(''status'', ''keep'')])]
          else (case GetStatusCodesFromVMStatus status of
                  None \<Rightarrow> None
                | Some (majorStatus, subStatus, abortLocation) \<Rightarrow>
                    Some [(EventTypeContractStatus,
                      [(''status'', ''discard'')] @ location_attributes abortLocation @
                      [(''major_status'', FormatUint majorStatus), (''sub_status'', FormatUint subStatus)] @
                      (case vs_Message status of Some m \<Rightarrow> [(''message'', m)] | None \<Rightarrow> []))]))"

definition GetEventSourceAttribute :: "(bytes \<Rightarrow> string) \<Rightarrow> (bytes \<times> string) option \<Rightarrow> string" where
  "GetEventSourceAttribute A senderModule =
     (case senderModule of None \<Rightarrow> ''script'' | Some (a, n) \<Rightarrow> StringifySenderAddress A a @ ''::'' @ n)"

definition NewMoveEvent :: "'g gas_lib \<Rightarrow> (bytes \<Rightarrow> string) \<Rightarrow> VMEvent option \<Rightarrow> ('g, vm_error, sdk_event) op" where
  "NewMoveEvent G A vmEvent g =
     (case vmEvent of
        None \<Rightarrow> (Panic, g)
      | Some e \<Rightarrow>
          (case StringifyEventTypePanic G A (ev_EventType e) g of
             (Ok t, g') \<Rightarrow>
               (Ok (EventTypeMoveEvent,
                 [(''sender_address'', StringifySenderAddress A (ev_SenderAddress e)),
                  (''source'', GetEventSourceAttribute A (ev_SenderModule e)),
                  (''type'', t), (''data'', EncodeToString (ev_EventData e))]), g')
           | (_, g') \<Rightarrow> (Panic, g')))"

text \<open>The table of the status codes.\<close>

definition errorCodes :: "(string \<times> string) list" where
  "errorCodes = [
    (''3001'', ''MALFORMED''), (''4016'', ''ABORTED''), (''7'', ''SENDING_ACCOUNT_DOES_NOT_EXIST''), (''18'', ''SENDING_ACCOUNT_FROZEN''),
    (''1027'', ''STLOC_TYPE_MISMATCH_ERROR''), (''1077'', ''LOOP_IN_INSTANTIATION_GRAPH''), (''2011'', ''UNREACHABLE''),
    (''1025'', ''BR_TYPE_MISMATCH_ERROR''), (''1095'', ''DUPLICATE_MODULE_NAME''), (''1038'', ''COPYLOC_RESOURCE_ERROR''),
    (''2014'', ''INVALID_CODE_CACHE''), (''3004'', ''UNKNOWN_TABLE_TYPE''), (''3017'', ''BAD_U16''), (''1074'', ''GLOBAL_REFERENCE_ERROR''),
    (''1029'', ''UNSAFE_RET_LOCAL_OR_RESOURCE_STILL_BORROWED''), (''1049'', ''READREF_TYPE_MISMATCH_ERROR''), (''1022'', ''POP_REFERENCE_ERROR''),
    (''1052'', ''WRITEREF_TYPE_MISMATCH_ERROR''), (''1040'', ''MOVELOC_UNAVAILABLE_ERROR''), (''1005'', ''RECURSIVE_STRUCT_DEFINITION''),
    (''1050'', ''READREF_RESOURCE_ERROR''), (''1030'', ''RET_TYPE_MISMATCH_ERROR''), (''4025'', ''VM_MAX_VALUE_DEPTH_REACHED''),
    (''21'', ''INVALID_MODULE_PUBLISHER''), (''1070'', ''MISSING_ACQUIRES_RESOURCE_ANNOTATION_ERROR''), (''3006'', ''UNKNOWN_SERIALIZED_TYPE''),
    (''16'', ''GAS_UNIT_PRICE_ABOVE_MAX_BOUND''), (''1053'', ''WRITEREF_RESOURCE_ERROR''), (''1046'', ''CALL_BORROWED_MUTABLE_REFERENCE_ERROR''),
    (''1011'', ''INVALID_MAIN_FUNCTION_SIGNATURE''), (''1028'', ''STLOC_UNSAFE_TO_DESTROY_ERROR''), (''1065'', ''MOVETO_NO_RESOURCE_ERROR''),
    (''1'', ''INVALID_SIGNATURE''), (''1013'', ''INVALID_MODULE_HANDLE''), (''3007'', ''UNKNOWN_OPCODE''), (''3010'', ''DUPLICATE_TABLE''),
    (''3014'', ''UNKNOWN_NATIVE_STRUCT_FLAG''), (''1084'', ''EMPTY_CODE_UNIT''), (''3018'', ''BAD_U32''),
    (''1009'', ''NEGATIVE_STACK_SIZE_WITHIN_BLOCK''), (''1004'', ''INVALID_FIELD_DEF''), (''4'', ''SEQUENCE_NUMBER_TOO_NEW''),
    (''12'', ''UNKNOWN_MODULE''), (''0'', ''UNKNOWN_VALIDATION_STATUS''), (''1037'', ''COPYLOC_UNAVAILABLE_ERROR''),
    (''1047'', ''PACK_TYPE_MISMATCH_ERROR''), (''1055'', ''WRITEREF_NO_MUTABLE_REFERENCE_ERROR''), (''1091'', ''FUNCTION_RESOLUTION_FAILURE''),
    (''1094'', ''INVALID_OPERATION_IN_SCRIPT''), (''4001'', ''EXECUTED''), (''1026'', ''ABORT_TYPE_MISMATCH_ERROR''),
    (''1057'', ''BOOLEAN_OP_TYPE_MISMATCH_ERROR''), (''1069'', ''POSITIVE_STACK_SIZE_AT_BLOCK_END''), (''4007'', ''TYPE_ERROR''),
    (''4012'', ''CANNOT_WRITE_EXISTING_RESOURCE''), (''14'', ''MAX_GAS_UNITS_BELOW_MIN_TRANSACTION_GAS_UNITS''), (''1068'', ''NO_MODULE_HANDLES''),
    (''4009'', ''DATA_FORMAT_ERROR''), (''2000'', ''UNKNOWN_INVARIANT_VIOLATION_ERROR''), (''1024'', ''RELEASEREF_TYPE_MISMATCH_ERROR''),
    (''3005'', ''UNKNOWN_SIGNATURE_TYPE''), (''5'', ''INSUFFICIENT_BALANCE_FOR_TRANSACTION_FEE''), (''4003'', ''RESOURCE_DOES_NOT_EXIST''),
    (''1008'', ''JOIN_FAILURE''), (''1066'', ''CREATEACCOUNT_TYPE_MISMATCH_ERROR''), (''2006'', ''VERIFICATION_ERROR''),
    (''4021'', ''CALL_STACK_OVERFLOW''), (''1042'', ''BORROWLOC_REFERENCE_ERROR''), (''1061'', ''BORROWGLOBAL_NO_RESOURCE_ERROR''),
    (''1071'', ''EXTRANEOUS_ACQUIRES_RESOURCE_ANNOTATION_ERROR''), (''1002'', ''RANGE_OUT_OF_BOUNDS''), (''4004'', ''RESOURCE_ALREADY_EXISTS''),
    (''4018'', ''DYNAMIC_REFERENCE_ERROR''), (''3012'', ''UNKNOWN_NOMINAL_RESOURCE''), (''1056'', ''INTEGER_OP_TYPE_MISMATCH_ERROR''),
    (''3023'', ''VALUE_DESERIALIZATION_ERROR''), (''1072'', ''DUPLICATE_ACQUIRES_RESOURCE_ANNOTATION_ERROR''), (''1018'', ''VISIBILITY_MISMATCH''),
    (''3021'', ''BAD_ULEB_U8''), (''19'', ''UNABLE_TO_DESERIALIZE_ACCOUNT''), (''1064'', ''MOVETO_TYPE_MISMATCH_ERROR''), (''23'', ''BAD_CHAIN_ID''),
    (''1062'', ''MOVEFROM_TYPE_MISMATCH_ERROR''), (''3003'', ''UNKNOWN_VERSION''), (''2005'', ''PC_OVERFLOW''), (''3019'', ''BAD_U64''),
    (''1015'', ''INCONSISTENT_FIELDS''), (''1060'', ''BORROWGLOBAL_TYPE_MISMATCH_ERROR''), (''1054'', ''WRITEREF_EXISTS_BORROW_ERROR''),
    (''2'', ''INVALID_AUTH_KEY''), (''1059'', ''EXISTS_RESOURCE_TYPE_MISMATCH_ERROR''), (''1078'', ''UNUSED_LOCALS_SIGNATURE''),
    (''4000'', ''UNKNOWN_RUNTIME_STATUS''), (''10'', ''EXCEEDED_MAX_TRANSACTION_SIZE''), (''1031'', ''RET_BORROWED_MUTABLE_REFERENCE_ERROR''),
    (''2009'', ''INTERNAL_TYPE_ERROR''), (''2001'', ''OUT_OF_BOUNDS_INDEX''), (''3015'', ''BAD_ULEB_U16''), (''1020'', ''TYPE_MISMATCH''),
    (''1067'', ''MODULE_ADDRESS_DOES_NOT_MATCH_SENDER''), (''1016'', ''UNUSED_FIELD''), (''3009'', ''UNEXPECTED_SIGNATURE_TYPE''),
    (''1044'', ''BORROWLOC_EXISTS_BORROW_ERROR''), (''2002'', ''OUT_OF_BOUNDS_RANGE''), (''1012'', ''DUPLICATE_ELEMENT''),
    (''1080'', ''ZERO_SIZED_STRUCT''), (''4008'', ''MISSING_DATA''), (''1021'', ''MISSING_DEPENDENCY''), (''15'', ''GAS_UNIT_PRICE_BELOW_MIN_BOUND''),
    (''3000'', ''UNKNOWN_BINARY_ERROR''), (''4017'', ''ARITHMETIC_ERROR''), (''1083'', ''MALFORMED_CONSTANT_DATA''),
    (''3022'', ''VALUE_SERIALIZATION_ERROR''), (''1001'', ''INDEX_OUT_OF_BOUNDS''), (''2008'', ''STORAGE_ERROR''),
    (''1048'', ''UNPACK_TYPE_MISMATCH_ERROR''), (''2004'', ''EMPTY_CALL_STACK''), (''13'', ''MAX_GAS_UNITS_EXCEEDS_MAX_GAS_UNITS_BOUND''),
    (''1003'', ''INVALID_SIGNATURE_TOKEN''), (''1079'', ''UNUSED_TYPE_SIGNATURE''), (''1088'', ''UNSAFE_RET_UNUSED_RESOURCES''),
    (''1081'', ''LINKER_ERROR''), (''11'', ''UNKNOWN_SCRIPT''), (''1058'', ''EQUALITY_OP_TYPE_MISMATCH_ERROR''),
    (''20'', ''CURRENCY_INFO_DOES_NOT_EXIST''), (''1086'', ''INVALID_LOOP_BREAK''), (''1023'', ''POP_RESOURCE_ERROR''),
    (''1082'', ''INVALID_CONSTANT_TYPE''), (''3'', ''SEQUENCE_NUMBER_TOO_OLD''), (''1014'', ''UNIMPLEMENTED_HANDLE''),
    (''1045'', ''CALL_TYPE_MISMATCH_ERROR''), (''2012'', ''VM_STARTUP_FAILURE''), (''4011'', ''REMOTE_DATA_ERROR''), (''22'', ''NO_ACCOUNT_ROLE''),
    (''1089'', ''TOO_MANY_LOCALS''), (''1085'', ''INVALID_LOOP_SPLIT''), (''1033'', ''FREEZEREF_EXISTS_MUTABLE_BORROW_ERROR''),
    (''1010'', ''UNBALANCED_STACK''), (''1035'', ''BORROWFIELD_BAD_FIELD_ERROR''), (''1017'', ''LOOKUP_FAILED''),
    (''1075'', ''CONSTRAINT_KIND_MISMATCH''), (''1000'', ''UNKNOWN_VERIFICATION_ERROR''), (''1043'', ''BORROWLOC_UNAVAILABLE_ERROR''),
    (''1073'', ''INVALID_ACQUIRES_RESOURCE_ANNOTATION_ERROR''), (''4024'', ''VM_MAX_TYPE_DEPTH_REACHED''), (''9'', ''INVALID_WRITE_SET''),
    (''4005'', ''EVICTED_ACCOUNT_ACCESS''), (''3020'', ''BAD_U128''), (''2003'', ''EMPTY_VALUE_STACK''),
    (''4006'', ''ACCOUNT_ADDRESS_ALREADY_EXISTS''), (''1041'', ''MOVELOC_EXISTS_BORROW_ERROR''), (''1051'', ''READREF_EXISTS_MUTABLE_BORROW_ERROR''),
    (''4010'', ''INVALID_DATA''), (''3016'', ''BAD_ULEB_U32''), (''1007'', ''INVALID_FALL_THROUGH''), (''1087'', ''INVALID_LOOP_CONTINUE''),
    (''1090'', ''GENERIC_MEMBER_OPCODE_MISMATCH''), (''4023'', ''GAS_SCHEDULE_ERROR''), (''2013'', ''NATIVE_FUNCTION_INTERNAL_INCONSISTENCY''),
    (''1036'', ''BORROWFIELD_EXISTS_MUTABLE_BORROW_ERROR''), (''8'', ''REJECTED_WRITE_SET''), (''3011'', ''VERIFIER_INVARIANT_VIOLATION''),
    (''18446744073709551615'', ''UNKNOWN_STATUS''), (''2010'', ''EVENT_KEY_MISMATCH''), (''3008'', ''BAD_HEADER_TABLE''),
    (''17'', ''INVALID_GAS_SPECIFIER''), (''3024'', ''CODE_DESERIALIZATION_ERROR''), (''1019'', ''TYPE_RESOLUTION_FAILURE''),
    (''1063'', ''MOVEFROM_NO_RESOURCE_ERROR''), (''1006'', ''INVALID_RESOURCE_FIELD''), (''2007'', ''LOCAL_REFERENCE_ERROR''),
    (''1076'', ''NUMBER_OF_TYPE_ARGUMENTS_MISMATCH''), (''3002'', ''BAD_MAGIC''), (''4020'', ''EXECUTION_STACK_OVERFLOW''),
    (''4002'', ''OUT_OF_GAS''), (''6'', ''TRANSACTION_EXPIRED''), (''1032'', ''FREEZEREF_TYPE_MISMATCH_ERROR''),
    (''1034'', ''BORROWFIELD_TYPE_MISMATCH_ERROR''), (''1039'', ''COPYLOC_EXISTS_BORROW_ERROR''), (''3013'', ''UNKNOWN_KIND'')]"

definition GetStrCode :: "string \<Rightarrow> string" where
  "GetStrCode majorCode = (case map_of errorCodes majorCode of Some v \<Rightarrow> v | None \<Rightarrow> ''unknown'')"

record VMStatus =
  st_Status :: string
  st_MajorCode :: string
  st_SubCode :: string
  st_StrCode :: string
  st_Message :: string

definition NewVMStatus :: "string \<Rightarrow> string \<Rightarrow> string \<Rightarrow> string \<Rightarrow> VMStatus" where
  "NewVMStatus status majorCode subCode message =
     \<lparr>st_Status = status, st_MajorCode = majorCode, st_SubCode = subCode,
      st_StrCode = (if status \<noteq> ''keep'' then GetStrCode majorCode else []), st_Message = message\<rparr>"

text \<open>The first loop over the attributes: the status and whether it is one of a failure.\<close>

primrec find_status :: "(string \<times> string) list \<Rightarrow> string \<Rightarrow> string \<times> bool" where
  "find_status [] status = (status, False)"
| "find_status (attr # attrs) status =
     (if fst attr = ''status'' then
        if snd attr = ''discard'' \<or> snd attr = ''error'' then (snd attr, True) else find_status attrs (snd attr)
      else find_status attrs status)"

definition set_code :: "string \<times> string \<times> string \<Rightarrow> string \<times> string \<Rightarrow> string \<times> string \<times> string" where
  "set_code acc attr =
     (let (majorCode, subCode, message) = acc; (k, v) = attr in
      if k = ''major_status'' then (v, subCode, message)
      else if k = ''sub_status'' then (majorCode, v, message)
      else if k = ''message'' then (majorCode, subCode, v)
      else acc)"

definition find_codes :: "(string \<times> string) list \<Rightarrow> string \<times> string \<times> string" where
  "find_codes attrs = foldl set_code ([], [], []) attrs"

definition event_status :: "sdk_event \<Rightarrow> VMStatus option" where
  "event_status event =
     (if fst event = EventTypeContractStatus then
        let (status, isFound) = find_status (snd event) [];
            (majorCode, subCode, message) = (if isFound then find_codes (snd event) else ([], [], []))
        in Some (NewVMStatus status majorCode subCode message)
      else None)"

text \<open>The statuses of a transaction, from the events of its logs.\<close>

definition NewVMStatusFromABCILogs :: "sdk_event list list \<Rightarrow> VMStatus list" where
  "NewVMStatusFromABCILogs logs = List.map_filter event_status (concat logs)"

section \<open>Messages\<close>

type_synonym Contract = bytes

record MsgDeployModule =
  md_Signer :: bytes
  md_Module :: "Contract list"

text \<open>The type of an argument is the number of a tag; \<open>tags\<close> are the numbers the generated table knows.\<close>

record ScriptArg =
  sa_Type :: int
  sa_Value :: bytes

record MsgExecuteScript =
  ms_Signer :: bytes
  ms_Script :: Contract
  ms_Args :: "ScriptArg list"

definition MsgDeployModule_ValidateBasic :: "MsgDeployModule \<Rightarrow> (vm_error, unit) res" where
  "MsgDeployModule_ValidateBasic msg =
     (if md_Signer msg = [] then Err VmErrInvalidAddress
      else if length (md_Module msg) = 0 then Err VmErrEmptyContract
      else Ok ())"

fun validate_args :: "(int \<Rightarrow> bool) \<Rightarrow> ScriptArg list \<Rightarrow> (vm_error, unit) res" where
  "validate_args tags [] = Ok ()"
| "validate_args tags (arg # args) =
     (if \<not> tags (sa_Type arg) then Err VmErrWrongArgTypeTag
      else if length (sa_Value arg) = 0 then Err VmErrWrongArgValue
      else validate_args tags args)"

definition MsgExecuteScript_ValidateBasic :: "(int \<Rightarrow> bool) \<Rightarrow> MsgExecuteScript \<Rightarrow> (vm_error, unit) res" where
  "MsgExecuteScript_ValidateBasic tags msg =
     (if ms_Signer msg = [] then Err VmErrInvalidAddress
      else if length (ms_Script msg) = 0 then Err VmErrEmptyContract
      else validate_args tags (ms_Args msg))"

section \<open>Governance proposals\<close>

record Plan =
  pl_Height :: int

definition Plan_ValidateBasic :: "Plan \<Rightarrow> (vm_error, unit) res" where
  "Plan_ValidateBasic p = (if pl_Height p \<le> 0 then Err VmErrInvalidRequest else Ok ())"

definition ShouldExecute :: "int \<Rightarrow> Plan \<Rightarrow> bool" where
  "ShouldExecute blockHeight p = (if 0 < pl_Height p then pl_Height p \<le> blockHeight else False)"

record StdlibUpdateProposal =
  sp_Url :: string
  sp_UpdateDescription :: string
  sp_Plan :: Plan
  sp_Code :: bytes

text \<open>\<open>url_ok\<close> tells whether \<open>url.Parse\<close> accepts the string.\<close>

definition StdlibUpdateProposal_ValidateBasic :: "(string \<Rightarrow> bool) \<Rightarrow> StdlibUpdateProposal \<Rightarrow> (vm_error, unit) res" where
  "StdlibUpdateProposal_ValidateBasic url_ok p =
     (if Plan_ValidateBasic (sp_Plan p) \<noteq> Ok () then Err VmErrGovInvalidProposal
      else if sp_Url p = [] then Err VmErrGovInvalidProposal
      else if \<not> url_ok (sp_Url p) then Err VmErrGovInvalidProposal
      else if sp_UpdateDescription p = [] then Err VmErrGovInvalidProposal
      else if length (sp_Code p) = 0 then Err VmErrGovInvalidProposal
      else Ok ())"

text \<open>The proposals that can be planned; \<open>TestProposal\<close> is a type of the tests that the codec knows as well.\<close>

datatype PlannedProposal = StdlibUpdate StdlibUpdateProposal | TestProposal Plan int

fun GetPlan :: "PlannedProposal \<Rightarrow> Plan" where
  "GetPlan (StdlibUpdate p) = sp_Plan p"
| "GetPlan (TestProposal plan v) = plan"

definition GetProposalQueueKey :: "64 word \<Rightarrow> bytes" where
  "GetProposalQueueKey i = join_with (CHR '':'') [''proposal_queue'', be64 (unat i)]"

text \<open>\<open>binary.BigEndian.Uint64\<close> panics on fewer than eight bytes.\<close>

definition SplitProposalQueueKey :: "bytes \<Rightarrow> 64 word option" where
  "SplitProposalQueueKey key =
     (let idBytes = drop (length ''proposal_queue'' + 1) key in
      if length idBytes < 8 then None else Some (of_nat (be_to_nat 0 (take 8 idBytes))))"

section \<open>Genesis\<close>

record GenesisWriteOp =
  gw_Address :: string
  gw_Path :: string
  gw_Value :: string

definition ToBytes :: "GenesisWriteOp \<Rightarrow> (VMAccessPath \<times> bytes) option" where
  "ToBytes writeOp =
     Option.bind (DecodeString (gw_Address writeOp)) (\<lambda>bzAddr.
     Option.bind (DecodeString (gw_Path writeOp)) (\<lambda>bzPath.
     Option.bind (DecodeString (gw_Value writeOp)) (\<lambda>bzValue.
       Some (\<lparr>ap_Address = bzAddr, ap_Path = bzPath\<rparr>, bzValue))))"

definition GenesisWriteOp_String :: "GenesisWriteOp \<Rightarrow> string" where
  "GenesisWriteOp_String writeOp = gw_Address writeOp @ ''::'' @ gw_Path writeOp"

fun vm_validate_loop :: "GenesisWriteOp list \<Rightarrow> string set \<Rightarrow> (vm_error, unit) res" where
  "vm_validate_loop [] writeOpsSet = Ok ()"
| "vm_validate_loop (writeOp # ops) writeOpsSet =
     (case DecodeString (gw_Address writeOp) of
        None \<Rightarrow> Err VmErrGenesis
      | Some bzAddr \<Rightarrow>
          if length bzAddr \<noteq> VMAddressLength then Err VmErrGenesis
          else if DecodeString (gw_Path writeOp) = None then Err VmErrGenesis
          else if DecodeString (gw_Value writeOp) = None then Err VmErrGenesis
          else if GenesisWriteOp_String writeOp \<in> writeOpsSet then Err VmErrGenesis
          else vm_validate_loop ops (insert (GenesisWriteOp_String writeOp) writeOpsSet))"

definition VmGenesis_Validate :: "GenesisWriteOp list \<Rightarrow> (vm_error, unit) res" where
  "VmGenesis_Validate writeSet = vm_validate_loop writeSet {}"

end
