(* ===== verification/VM.thy ===== *)
theory VM
  imports VM_Types "HOL-Library.Monad_Syntax"
begin

text \<open>
  Module \<open>x/vm\<close>: sending modules and scripts to the virtual machine, applying its answers to the storage, the queue of governance
  proposals that update the standard library, the data source the virtual machine reads from, queries and the genesis. The virtual machine itself is a server
  outside the repository, reached over the network: a parameter.
\<close>

section \<open>State and context\<close>

text \<open>
  The gas meter and the events of the running transaction, the values of the virtual machine, the queue of proposals with its last
  identifier, and the flag that the genesis was initialised.
\<close>

record 'g vm_world =
  vw_gas :: 'g
  vw_events :: "sdk_event list"
  vw_store :: vm_store
  vw_queue :: "PlannedProposal kv"
  vw_proposalID :: "64 word option"
  vw_genInit :: bool

section \<open>Requests\<close>

definition VMMaxGasLimit :: "64 word" where
  "VMMaxGasLimit = (- 1) div 1000 - 1"

definition VmGasPrice :: "64 word" where
  "VmGasPrice = 1"

record VMPublishModule =
  pm_Sender :: bytes
  pm_MaxGasAmount :: "64 word"
  pm_GasUnitPrice :: "64 word"
  pm_Code :: bytes

record VMExecuteScript =
  es_Senders :: "bytes list"
  es_MaxGasAmount :: "64 word"
  es_GasUnitPrice :: "64 word"
  es_Code :: bytes
  es_Args :: "(int \<times> bytes) list"

definition GetFreeGas :: "'g gas_lib \<Rightarrow> 'g \<Rightarrow> 64 word" where
  "GetFreeGas G g = g_Limit G g - g_Consumed G g"

definition getVMLimitedGas :: "64 word \<Rightarrow> 64 word" where
  "getVMLimitedGas gas = (if VMMaxGasLimit < gas then VMMaxGasLimit else gas)"

definition NewDeployContract :: "bytes \<Rightarrow> 64 word \<Rightarrow> bytes \<Rightarrow> VMPublishModule" where
  "NewDeployContract address maxGas code =
     \<lparr>pm_Sender = Bech32ToLibra address, pm_MaxGasAmount = getVMLimitedGas maxGas, pm_GasUnitPrice = VmGasPrice, pm_Code = code\<rparr>"

definition NewExecuteContract :: "bytes \<Rightarrow> 64 word \<Rightarrow> bytes \<Rightarrow> ScriptArg list \<Rightarrow> VMExecuteScript" where
  "NewExecuteContract address maxGas code args =
     \<lparr>es_Senders = [Bech32ToLibra address], es_MaxGasAmount = getVMLimitedGas maxGas, es_GasUnitPrice = VmGasPrice, es_Code = code,
      es_Args = map (\<lambda>arg. (sa_Type arg, sa_Value arg)) args\<rparr>"

definition NewDeployRequest :: "'g gas_lib \<Rightarrow> 'g \<Rightarrow> bytes \<Rightarrow> Contract \<Rightarrow> VMPublishModule" where
  "NewDeployRequest G g signer contract = NewDeployContract signer (GetFreeGas G g) contract"

definition NewExecuteRequest :: "'g gas_lib \<Rightarrow> 'g \<Rightarrow> MsgExecuteScript \<Rightarrow> VMExecuteScript" where
  "NewExecuteRequest G g msg = NewExecuteContract (ms_Signer msg) (GetFreeGas G g) (ms_Script msg) (ms_Args msg)"

text \<open>
  The server: what the attempt with a number answers to a request when the storage has the given values; \<open>None\<close> is an error of the
  connection. The configured number of attempts belongs to it, zero for no limit.
\<close>

record vm_server =
  srv_PublishModule :: "vm_store \<Rightarrow> VMPublishModule \<Rightarrow> nat \<Rightarrow> VMExecuteResponse option"
  srv_ExecuteScript :: "vm_store \<Rightarrow> VMExecuteScript \<Rightarrow> nat \<Rightarrow> VMExecuteResponse option"
  srv_MaxAttempts :: "64 word"

text \<open>Of the two pointers of the request exactly one is set (\<open>sendExecuteReq\<close> checks it).\<close>

datatype raw_request = RawModule VMPublishModule | RawScript VMExecuteScript

record RetryExecReq =
  rr_Raw :: raw_request
  rr_MaxAttempts :: "64 word"

text \<open>
  The loop of the attempts: \<open>None\<close> if it never ends, otherwise the answer or the error of the last attempt. The loop may run forever when there is no
  limit.
\<close>

partial_function (option) retry_loop ::
  "(nat \<Rightarrow> VMExecuteResponse option) \<Rightarrow> 64 word \<Rightarrow> 64 word \<Rightarrow> nat \<Rightarrow> VMExecuteResponse option option"
where
  "retry_loop attempt maxAttempts curAttempt n =
     (case attempt n of
        Some resp \<Rightarrow> Some (Some resp)
      | None \<Rightarrow>
          if maxAttempts \<noteq> 0 \<and> curAttempt + 1 = maxAttempts then Some None
          else retry_loop attempt maxAttempts (curAttempt + 1) (n + 1))"

definition retryExecReq :: "vm_server \<Rightarrow> vm_store \<Rightarrow> RetryExecReq \<Rightarrow> VMExecuteResponse option option" where
  "retryExecReq V st req =
     retry_loop (case rr_Raw req of RawModule m \<Rightarrow> srv_PublishModule V st m | RawScript sc \<Rightarrow> srv_ExecuteScript V st sc)
       (rr_MaxAttempts req) 0 0"

definition sendExecuteReq ::
  "vm_server \<Rightarrow> vm_store \<Rightarrow> VMPublishModule option \<Rightarrow> VMExecuteScript option \<Rightarrow> (vm_error, VMExecuteResponse) res option" where
  "sendExecuteReq V st moduleReq scriptReq =
     (let send = (\<lambda>raw. map_option (\<lambda>r. case r of Some resp \<Rightarrow> Ok resp | None \<Rightarrow> Err VmErrRequest)
                     (retryExecReq V st \<lparr>rr_Raw = raw, rr_MaxAttempts = srv_MaxAttempts V\<rparr>)) in
      case (moduleReq, scriptReq) of
        (None, None) \<Rightarrow> Some (Err VmErrRequest)
      | (Some _, Some _) \<Rightarrow> Some (Err VmErrRequest)
      | (Some m, None) \<Rightarrow> send (RawModule m)
      | (None, Some sc) \<Rightarrow> send (RawScript sc))"

section \<open>Execution\<close>

fun processWriteSet :: "VMValue list \<Rightarrow> (vm_store, vm_error, unit) op" where
  "processWriteSet [] st = (Ok (), st)"
| "processWriteSet (value # vs) st =
     (case vv_Type value of
        VmWriteOp_Deletion \<Rightarrow> processWriteSet vs (delValue (vv_Path value) st)
      | VmWriteOp_Value \<Rightarrow> processWriteSet vs (setValue (vv_Path value) (vv_Value value) st)
      | VmWriteOp_Other \<Rightarrow> (Panic, st))"

definition NewModuleNameEvent :: "string \<Rightarrow> sdk_event" where
  "NewModuleNameEvent name = (''message'', [(''module'', name)])"

fun emit_move_events :: "'g gas_lib \<Rightarrow> (bytes \<Rightarrow> string) \<Rightarrow> VMEvent option list \<Rightarrow> ('g vm_world, vm_error, unit) op" where
  "emit_move_events G A [] w = (Ok (), w)"
| "emit_move_events G A (vmEvent # es) w =
     (case NewMoveEvent G A vmEvent (vw_gas w) of
        (Ok e, g) \<Rightarrow> emit_move_events G A es (w\<lparr>vw_gas := g, vw_events := vw_events w @ [e]\<rparr>)
      | (_, g) \<Rightarrow> (Panic, w\<lparr>vw_gas := g\<rparr>))"

text \<open>\<open>exec.GetStatus().GetError() == nil\<close>; the accessors of a nil status give nil.\<close>

definition exec_kept :: "VMExecuteResponse \<Rightarrow> bool" where
  "exec_kept exec \<longleftrightarrow> (case ex_Status exec of None \<Rightarrow> True | Some st \<Rightarrow> vs_Error st = None)"

definition processExecution ::
  "'g gas_lib \<Rightarrow> (bytes \<Rightarrow> string) \<Rightarrow> VMExecuteResponse \<Rightarrow> ('g vm_world, vm_error, unit) op" where
  "processExecution G A exec w =
     (case g_Consume G (ex_GasUsed exec) (vw_gas w) of
        None \<Rightarrow> (Panic, w)
      | Some g \<Rightarrow>
          let w1 = w\<lparr>vw_gas := g, vw_events := vw_events w @ [NewModuleNameEvent ''vm'']\<rparr> in
          (case NewContractEvents exec of
             None \<Rightarrow> (Panic, w1)
           | Some evs \<Rightarrow>
               let w2 = w1\<lparr>vw_events := vw_events w1 @ evs\<rparr> in
               if exec_kept exec then
                 (case processWriteSet (ex_WriteSet exec) (vw_store w2) of
                    (Ok _, st) \<Rightarrow> emit_move_events G A (ex_Events exec) (w2\<lparr>vw_store := st\<rparr>)
                  | (r, st) \<Rightarrow> (r, w2\<lparr>vw_store := st\<rparr>))
               else (Ok (), w2)))"

text \<open>The results of the following operations are \<open>None\<close> if a request never returns.\<close>

definition ExecuteScript ::
  "'g gas_lib \<Rightarrow> (bytes \<Rightarrow> string) \<Rightarrow> vm_server \<Rightarrow> MsgExecuteScript \<Rightarrow> 'g vm_world \<Rightarrow> ((vm_error, unit) res \<times> 'g vm_world) option" where
  "ExecuteScript G A V msg w =
     map_option (\<lambda>r. case r of Ok exec \<Rightarrow> processExecution G A exec w | _ \<Rightarrow> (Panic, w))
       (sendExecuteReq V (vw_store w) None (Some (NewExecuteRequest G (vw_gas w) msg)))"

definition ExecuteScriptNoProcessing ::
  "'g gas_lib \<Rightarrow> vm_server \<Rightarrow> MsgExecuteScript \<Rightarrow> 'g vm_world \<Rightarrow> (vm_error, VMExecuteResponse) res option" where
  "ExecuteScriptNoProcessing G V msg w = sendExecuteReq V (vw_store w) None (Some (NewExecuteRequest G (vw_gas w) msg))"

text \<open>The requests of all modules of a message; the inner \<open>None\<close> is the panic on an error.\<close>

fun deploy_requests ::
  "'g gas_lib \<Rightarrow> vm_server \<Rightarrow> bytes \<Rightarrow> Contract list \<Rightarrow> 'g vm_world \<Rightarrow> VMExecuteResponse list option option" where
  "deploy_requests G V signer [] w = Some (Some [])"
| "deploy_requests G V signer (contract # cs) w =
     Option.bind (sendExecuteReq V (vw_store w) (Some (NewDeployRequest G (vw_gas w) signer contract)) None) (\<lambda>r.
       case r of
         Ok exec \<Rightarrow> map_option (map_option (Cons exec)) (deploy_requests G V signer cs w)
       | _ \<Rightarrow> Some None)"

fun process_executions :: "'g gas_lib \<Rightarrow> (bytes \<Rightarrow> string) \<Rightarrow> VMExecuteResponse list \<Rightarrow> ('g vm_world, vm_error, unit) op" where
  "process_executions G A [] w = (Ok (), w)"
| "process_executions G A (exec # execs) w =
     (case processExecution G A exec w of
        (Ok _, w') \<Rightarrow> process_executions G A execs w'
      | (r, w') \<Rightarrow> (r, w'))"

definition DeployContract ::
  "'g gas_lib \<Rightarrow> (bytes \<Rightarrow> string) \<Rightarrow> vm_server \<Rightarrow> MsgDeployModule \<Rightarrow> 'g vm_world \<Rightarrow> ((vm_error, unit) res \<times> 'g vm_world) option" where
  "DeployContract G A V msg w =
     map_option (\<lambda>r. case r of None \<Rightarrow> (Panic, w) | Some execList \<Rightarrow> process_executions G A execList w)
       (deploy_requests G V (md_Signer msg) (md_Module msg) w)"

fun dry_run_loop :: "'g gas_lib \<Rightarrow> vm_server \<Rightarrow> bytes \<Rightarrow> Contract list \<Rightarrow> 'g vm_world \<Rightarrow> (vm_error, unit) res option" where
  "dry_run_loop G V signer [] w = Some (Ok ())"
| "dry_run_loop G V signer (contract # cs) w =
     Option.bind (sendExecuteReq V (vw_store w) (Some (NewDeployRequest G (vw_gas w) signer contract)) None) (\<lambda>r.
       case r of
         Ok exec \<Rightarrow> if exec_kept exec then dry_run_loop G V signer cs w else Some (Err VmErrWrongExecutionResponse)
       | _ \<Rightarrow> Some (Err VmErrVMCrashed))"

definition DeployContractDryRun ::
  "'g gas_lib \<Rightarrow> vm_server \<Rightarrow> MsgDeployModule \<Rightarrow> 'g vm_world \<Rightarrow> (vm_error, unit) res option" where
  "DeployContractDryRun G V msg w = dry_run_loop G V (md_Signer msg) (md_Module msg) w"

text \<open>The handler of the messages, each with a new event manager.\<close>

datatype vm_msg = DeployModule MsgDeployModule | ExecuteScriptMsg MsgExecuteScript

definition Vm_NewHandler ::
  "'g gas_lib \<Rightarrow> (bytes \<Rightarrow> string) \<Rightarrow> vm_server \<Rightarrow> vm_msg \<Rightarrow> 'g vm_world \<Rightarrow> ((vm_error, unit) res \<times> 'g vm_world) option" where
  "Vm_NewHandler G A V msg w =
     (case msg of
        DeployModule m \<Rightarrow> DeployContract G A V m (w\<lparr>vw_events := []\<rparr>)
      | ExecuteScriptMsg m \<Rightarrow> ExecuteScript G A V m (w\<lparr>vw_events := []\<rparr>))"

section \<open>Proposals\<close>

definition getNextProposalID :: "'g vm_world \<Rightarrow> 64 word" where
  "getNextProposalID w = (case vw_proposalID w of None \<Rightarrow> 0 | Some i \<Rightarrow> i + 1)"

definition addProposalToQueue :: "PlannedProposal \<Rightarrow> 'g vm_world \<Rightarrow> 'g vm_world" where
  "addProposalToQueue p w =
     (let i = getNextProposalID w in
      w\<lparr>vw_queue := kv_set (GetProposalQueueKey i) p (vw_queue w), vw_proposalID := Some i\<rparr>)"

definition ScheduleProposal :: "int \<Rightarrow> PlannedProposal \<Rightarrow> ('g vm_world, vm_error, unit) op" where
  "ScheduleProposal blockHeight p w =
     (if pl_Height (GetPlan p) \<le> blockHeight then (Err VmErrInvalidRequest, w) else (Ok (), addProposalToQueue p w))"

definition RemoveProposalFromQueue :: "64 word \<Rightarrow> 'g vm_world \<Rightarrow> 'g vm_world" where
  "RemoveProposalFromQueue i w = w\<lparr>vw_queue := kv_del (GetProposalQueueKey i) (vw_queue w)\<rparr>"

definition getStdlibUpdateMsg :: "StdlibUpdateProposal \<Rightarrow> (vm_error, MsgDeployModule) res" where
  "getStdlibUpdateMsg proposal =
     (let msg = \<lparr>md_Signer = StdLibAddress, md_Module = [sp_Code proposal]\<rparr> in
      case MsgDeployModule_ValidateBasic msg of Ok _ \<Rightarrow> Ok msg | Err e \<Rightarrow> Err e | Panic \<Rightarrow> Panic)"

definition handleUpdateStdlibProposalDryRun ::
  "'g gas_lib \<Rightarrow> vm_server \<Rightarrow> int \<Rightarrow> StdlibUpdateProposal \<Rightarrow> 'g vm_world \<Rightarrow> ((vm_error, unit) res \<times> 'g vm_world) option" where
  "handleUpdateStdlibProposalDryRun G V blockHeight proposal w =
     (case getStdlibUpdateMsg proposal of
        Ok msg \<Rightarrow>
          map_option (\<lambda>r. case r of
              Ok _ \<Rightarrow> ScheduleProposal blockHeight (StdlibUpdate proposal) w
            | Err e \<Rightarrow> (Err e, w)
            | Panic \<Rightarrow> (Panic, w)) (DeployContractDryRun G V msg w)
      | Err e \<Rightarrow> Some (Err e, w)
      | Panic \<Rightarrow> Some (Panic, w))"

text \<open>The content of a governance proposal: its route, and the update of the standard library if it has that type.\<close>

record vm_content =
  vc_ProposalRoute :: string
  vc_StdlibUpdate :: "StdlibUpdateProposal option"

definition Vm_GovRouterKey :: string where
  "Vm_GovRouterKey = ''vm''"

definition Vm_NewGovHandler ::
  "'g gas_lib \<Rightarrow> vm_server \<Rightarrow> int \<Rightarrow> vm_content \<Rightarrow> 'g vm_world \<Rightarrow> ((vm_error, unit) res \<times> 'g vm_world) option" where
  "Vm_NewGovHandler G V blockHeight c w =
     (if vc_ProposalRoute c \<noteq> Vm_GovRouterKey then Some (Err VmErrGovRoute, w)
      else (case vc_StdlibUpdate c of
              Some p \<Rightarrow> handleUpdateStdlibProposalDryRun G V blockHeight p w
            | None \<Rightarrow> Some (Err VmErrGovContent, w)))"

text \<open>An error of \<open>getStdlibUpdateMsg\<close> is dropped and leaves the empty message.\<close>

definition handleStdlibUpdateProposalExecution ::
  "'g gas_lib \<Rightarrow> (bytes \<Rightarrow> string) \<Rightarrow> vm_server \<Rightarrow> StdlibUpdateProposal \<Rightarrow> 'g vm_world \<Rightarrow> ((vm_error, unit) res \<times> 'g vm_world) option" where
  "handleStdlibUpdateProposalExecution G A V proposal w =
     (let msg = (case getStdlibUpdateMsg proposal of Ok m \<Rightarrow> m | _ \<Rightarrow> \<lparr>md_Signer = [], md_Module = []\<rparr>) in
      DeployContract G A V msg w)"

text \<open>The handler of one queued proposal and the iteration over the queue, which is read before it is changed.\<close>

definition execute_proposal ::
  "'g gas_lib \<Rightarrow> (bytes \<Rightarrow> string) \<Rightarrow> vm_server \<Rightarrow> int \<Rightarrow> 64 word \<Rightarrow> PlannedProposal \<Rightarrow> 'g vm_world \<Rightarrow> ((vm_error, unit) res \<times> 'g vm_world) option" where
  "execute_proposal G A V blockHeight i p w =
     (if \<not> ShouldExecute blockHeight (GetPlan p) then Some (Ok (), w)
      else (case p of
              StdlibUpdate proposal \<Rightarrow>
                map_option (\<lambda>(r, w'). case r of Panic \<Rightarrow> (Panic, w') | _ \<Rightarrow> (Ok (), RemoveProposalFromQueue i w'))
                  (handleStdlibUpdateProposalExecution G A V proposal w)
            | TestProposal _ _ \<Rightarrow> Some (Panic, w)))"

fun iterate_proposals ::
  "'g gas_lib \<Rightarrow> (bytes \<Rightarrow> string) \<Rightarrow> vm_server \<Rightarrow> int \<Rightarrow> (bytes \<times> PlannedProposal) list \<Rightarrow> 'g vm_world \<Rightarrow> ((vm_error, unit) res \<times> 'g vm_world) option" where
  "iterate_proposals G A V blockHeight [] w = Some (Ok (), w)"
| "iterate_proposals G A V blockHeight ((k, p) # ps) w =
     (case SplitProposalQueueKey k of
        None \<Rightarrow> Some (Panic, w)
      | Some i \<Rightarrow>
          Option.bind (execute_proposal G A V blockHeight i p w) (\<lambda>(r, w').
            case r of Ok _ \<Rightarrow> iterate_proposals G A V blockHeight ps w' | Err e \<Rightarrow> Some (Err e, w') | Panic \<Rightarrow> Some (Panic, w')))"

definition Vm_BeginBlocker ::
  "'g gas_lib \<Rightarrow> (bytes \<Rightarrow> string) \<Rightarrow> vm_server \<Rightarrow> int \<Rightarrow> 'g vm_world \<Rightarrow> ((vm_error, unit) res \<times> 'g vm_world) option" where
  "Vm_BeginBlocker G A V blockHeight w = iterate_proposals G A V blockHeight (vw_queue w) w"

section \<open>Data source\<close>

text \<open>
  \<open>BlockMetadataVector\<close> and \<open>TimeMetadataVector\<close> are paths of \<open>glav\<close>, \<open>lcs_u64\<close> the serialisation of a structure with one 64-bit number. A middleware
  answers with \<open>None\<close> for an error, \<open>Some None\<close> if the path is not its own.
\<close>

record vm_meta =
  BlockMetadataVector :: bytes
  TimeMetadataVector :: bytes
  lcs_u64 :: "64 word \<Rightarrow> bytes option"

record vm_block =
  vb_Height :: int
  vb_Time :: int

type_synonym DSDataMiddleware = "vm_block \<Rightarrow> VMAccessPath \<Rightarrow> bytes option option"

definition NewBlockMiddleware :: "vm_meta \<Rightarrow> DSDataMiddleware" where
  "NewBlockMiddleware L ctx path =
     (if ap_Address path = StdLibAddress \<and> ap_Path path = BlockMetadataVector L
      then map_option Some (lcs_u64 L (word_of_int (vb_Height ctx))) else Some None)"

definition NewTimeMiddleware :: "vm_meta \<Rightarrow> DSDataMiddleware" where
  "NewTimeMiddleware L ctx path =
     (if ap_Address path = StdLibAddress \<and> ap_Path path = TimeMetadataVector L
      then map_option Some (lcs_u64 L (word_of_int (vb_Time ctx div 1000000000))) else Some None)"

fun processMiddlewares :: "DSDataMiddleware list \<Rightarrow> vm_block \<Rightarrow> VMAccessPath \<Rightarrow> bytes option option" where
  "processMiddlewares [] ctx path = Some None"
| "processMiddlewares (f # fs) ctx path =
     (case f ctx path of
        None \<Rightarrow> None
      | Some (Some data) \<Rightarrow> Some (Some data)
      | Some None \<Rightarrow> processMiddlewares fs ctx path)"

definition data_middlewares :: "vm_meta \<Rightarrow> DSDataMiddleware list" where
  "data_middlewares L = [NewBlockMiddleware L, NewTimeMiddleware L]"

text \<open>The answer of the data source: \<open>None\<close> is the code \<open>NO_DATA\<close>.\<close>

definition GetRaw :: "vm_meta \<Rightarrow> vm_block \<Rightarrow> VMAccessPath \<Rightarrow> vm_store \<Rightarrow> bytes option" where
  "GetRaw L ctx path st =
     (case processMiddlewares (data_middlewares L) ctx path of
        None \<Rightarrow> None
      | Some (Some blob) \<Rightarrow> Some blob
      | Some None \<Rightarrow> if \<not> hasValue st path then None else getValue st path)"

fun value_middlewares :: "DSDataMiddleware list \<Rightarrow> vm_block \<Rightarrow> VMAccessPath \<Rightarrow> vm_store \<Rightarrow> bytes option" where
  "value_middlewares [] ctx path st = getValue st path"
| "value_middlewares (f # fs) ctx path st =
     (case f ctx path of
        None \<Rightarrow> None
      | Some (Some data) \<Rightarrow> Some data
      | Some None \<Rightarrow> value_middlewares fs ctx path st)"

definition GetValueWithMiddlewares :: "vm_meta \<Rightarrow> vm_block \<Rightarrow> VMAccessPath \<Rightarrow> vm_store \<Rightarrow> bytes option" where
  "GetValueWithMiddlewares L ctx path st = value_middlewares (data_middlewares L) ctx path st"

definition queryGetValue :: "vm_meta \<Rightarrow> vm_block \<Rightarrow> bytes \<Rightarrow> bytes \<Rightarrow> vm_store \<Rightarrow> bytes option" where
  "queryGetValue L ctx address path st = GetValueWithMiddlewares L ctx \<lparr>ap_Address = address, ap_Path = path\<rparr> st"

section \<open>Genesis\<close>

fun vm_init_loop :: "GenesisWriteOp list \<Rightarrow> vm_store \<Rightarrow> vm_store option" where
  "vm_init_loop [] st = Some st"
| "vm_init_loop (genWriteOp # ops) st =
     (case ToBytes genWriteOp of None \<Rightarrow> None | Some (accessPath, v) \<Rightarrow> vm_init_loop ops (setValue accessPath v st))"

definition Vm_InitGenesis :: "GenesisWriteOp list \<Rightarrow> ('g vm_world, vm_error, unit) op" where
  "Vm_InitGenesis writeSet w =
     (case vm_init_loop writeSet (vw_store w) of
        None \<Rightarrow> (Panic, w)
      | Some st \<Rightarrow> (Ok (), w\<lparr>vw_store := st, vw_genInit := True\<rparr>))"

fun iterateOverValues :: "vm_store \<Rightarrow> (VMAccessPath \<times> bytes) list option" where
  "iterateOverValues [] = Some []"
| "iterateOverValues ((k, v) # es) =
     Option.bind (MustParsePathKey k) (\<lambda>accessPath. map_option (Cons (accessPath, v)) (iterateOverValues es))"

definition Vm_ExportGenesis :: "'g vm_world \<Rightarrow> GenesisWriteOp list option" where
  "Vm_ExportGenesis w =
     map_option (map (\<lambda>(accessPath, v).
         \<lparr>gw_Address = EncodeToString (ap_Address accessPath), gw_Path = EncodeToString (ap_Path accessPath), gw_Value = EncodeToString v\<rparr>))
       (iterateOverValues (vw_store w))"

end
