(* ===== verification/VM_Gas.thy ===== *)
theory VM_Gas
  imports VM_Types
begin

text \<open>
  The gas charged for building the name of an event type: a reference definition of the name and of the charge over natural numbers, and the proof that
  the code with its 64-bit arithmetic computes them.
\<close>

section \<open>Reference definitions\<close>

text \<open>The charge of a level, the sum of the charges above it, the cost of a type and the number of its parts below the free levels.\<close>

primrec gas_at :: "nat \<Rightarrow> nat" where
  "gas_at 0 = 10000"
| "gas_at (Suc d) = gas_at d + 10000 * (d - 2)"

definition level_charge :: "nat \<Rightarrow> nat" where
  "level_charge d = (if 2 < d then gas_at d else 0)"

primrec spent :: "nat \<Rightarrow> nat" where
  "spent 0 = 0"
| "spent (Suc d) = spent d + level_charge d"

fun event_cost :: "nat \<Rightarrow> LcsTag option \<Rightarrow> nat" and params_cost :: "nat \<Rightarrow> LcsTag option list \<Rightarrow> nat" where
  "event_cost d None = level_charge d"
| "event_cost d (Some (LcsTag t vec str)) =
     level_charge d +
     (case vec of
        Some v \<Rightarrow> event_cost (Suc d) (Some v)
      | None \<Rightarrow> (case str of Some (StructIdent a m n ps) \<Rightarrow> params_cost (Suc d) ps | None \<Rightarrow> 0))"
| "params_cost d [] = 0"
| "params_cost d (p # ps) = event_cost d p + params_cost d ps"

fun deep_parts :: "nat \<Rightarrow> LcsTag option \<Rightarrow> nat" and deep_params :: "nat \<Rightarrow> LcsTag option list \<Rightarrow> nat" where
  "deep_parts d None = (if 2 < d then 1 else 0)"
| "deep_parts d (Some (LcsTag t vec str)) =
     (if 2 < d then 1 else 0) +
     (case vec of
        Some v \<Rightarrow> deep_parts (Suc d) (Some v)
      | None \<Rightarrow> (case str of Some (StructIdent a m n ps) \<Rightarrow> deep_params (Suc d) ps | None \<Rightarrow> 0))"
| "deep_params d [] = 0"
| "deep_params d (p # ps) = deep_parts d p + deep_params d ps"

text \<open>The name of a type without gas; \<open>None\<close> if a vector or structure has no description.\<close>

fun event_name :: "(bytes \<Rightarrow> string) \<Rightarrow> LcsTag option \<Rightarrow> string option"
and param_names :: "(bytes \<Rightarrow> string) \<Rightarrow> LcsTag option list \<Rightarrow> string list option" where
  "event_name A None = Some []"
| "event_name A (Some (LcsTag t vec str)) =
     (if t = LcsVector \<and> vec = None \<or> t = LcsStruct \<and> str = None then None
      else (case vec of
              Some v \<Rightarrow> map_option (\<lambda>x. ''vector<'' @ x @ ''>'') (event_name A (Some v))
            | None \<Rightarrow>
                (case str of
                   Some (StructIdent a m n ps) \<Rightarrow>
                     let s = StringifySenderAddress A a @ ''::'' @ m @ ''::'' @ n in
                     if ps = [] then Some s
                     else map_option (\<lambda>xs. s @ ''<'' @ join_strings '', '' xs @ ''>'') (param_names A ps)
                 | None \<Rightarrow> Some (lcsTypeToString t))))"
| "param_names A [] = Some []"
| "param_names A (p # ps) =
     Option.bind (event_name A p) (\<lambda>x. map_option (Cons x) (param_names A ps))"

section \<open>Growth of the charges\<close>

lemma gas_at_num:
  shows gas_at_1: "gas_at (Suc 0) = 10000" and gas_at_2: "gas_at 2 = 10000" and gas_at_3: "gas_at 3 = 10000"
    and gas_at_4: "gas_at 4 = 20000" and gas_at_5: "gas_at 5 = 40000" and gas_at_6: "gas_at 6 = 70000"
proof -
  show 1: "gas_at (Suc 0) = 10000" using gas_at.simps(2) [of 0] by simp
  then show 2: "gas_at 2 = 10000" using gas_at.simps(2) [of "Suc 0"] by (simp add: numeral_2_eq_2)
  then show 3: "gas_at 3 = 10000" using gas_at.simps(2) [of 2] by simp
  then show 4: "gas_at 4 = 20000" using gas_at.simps(2) [of 3] by simp
  then show 5: "gas_at 5 = 40000" using gas_at.simps(2) [of 4] by simp
  then show "gas_at 6 = 70000" using gas_at.simps(2) [of 5] by simp
qed

lemma gas_at_closed: "2 * gas_at (d + 3) = 10000 * (2 + d * (d + 1))"
proof (induction d)
  case 0
  then show ?case by (simp add: gas_at_3)
next
  case (Suc d)
  then show ?case using gas_at.simps(2) [of "d + 3"] by (simp add: algebra_simps)
qed

lemma gas_at_low: "10000 \<le> gas_at d"
  by (induction d) auto

lemma gas_at_linear: "5 \<le> d \<Longrightarrow> 10000 * (d - 1) \<le> gas_at d"
proof (induction d rule: dec_induct)
  case base
  show ?case by (simp add: gas_at_num)
qed auto

lemma spent_mono: "spent d \<le> spent (Suc d)"
  by simp

lemma gas_at_spent: "gas_at d \<le> max (spent d) 110000"
proof (cases "7 \<le> d")
  case True
  then have d: "d = Suc (Suc (d - 2))" and k: "5 \<le> d - 2" by simp_all
  let ?k = "d - 2"
  have "gas_at d = gas_at (Suc ?k) + 10000 * (?k - 1)" by (subst d) simp
  also have "\<dots> \<le> gas_at (Suc ?k) + gas_at ?k" using gas_at_linear [OF k] by simp
  also have "\<dots> \<le> spent d" by (subst (3) d) (use k in \<open>simp add: level_charge_def\<close>)
  finally show ?thesis by simp
next
  case False
  then have "d \<in> {0, 1, 2, 3, 4, 5, 6}" by auto
  then show ?thesis using gas_at_num by auto
qed

lemma depth_le_gas: "2 < d \<Longrightarrow> d \<le> gas_at d"
proof (cases "5 \<le> d")
  case True
  assume "2 < d"
  with gas_at_linear [OF True] show ?thesis by simp
next
  case False
  with gas_at_low [of d] show ?thesis by simp
qed

section \<open>The machine arithmetic\<close>

text \<open>As long as the gas spent so far fits the meter, neither the charge of the next level nor the depth overflows.\<close>

lemma event_gas_word:
  assumes "spent (Suc d) < 2 ^ 64"
  shows "event_gas (of_nat (gas_at d)) (of_nat (Suc d)) = of_nat (gas_at (Suc d))"
    and "(EventTypeNoGasLevels < (of_nat (Suc d) :: 64 word)) = (2 < Suc d)"
    and "unat (of_nat (gas_at (Suc d)) :: 64 word) = gas_at (Suc d)"
proof -
  have g: "gas_at (Suc d) < 2 ^ 64" using gas_at_spent [of "Suc d"] assms by simp
  have "Suc d < 2 ^ 64" using depth_le_gas [of "Suc d"] g by (cases "2 < Suc d") auto
  then have d: "unat (of_nat (Suc d) :: 64 word) = Suc d" by (intro unat64) simp
  show c: "(EventTypeNoGasLevels < (of_nat (Suc d) :: 64 word)) = (2 < Suc d)"
    unfolding word_less_nat_alt d by (simp add: EventTypeNoGasLevels_def)
  show "unat (of_nat (gas_at (Suc d)) :: 64 word) = gas_at (Suc d)" using g by (intro unat64) simp
  show "event_gas (of_nat (gas_at d)) (of_nat (Suc d)) = of_nat (gas_at (Suc d))"
  proof (cases "2 < Suc d")
    case True
    then obtain k where "d = k + 2" by (metis Suc_1 Suc_less_eq add.commute less_iff_Suc_add Suc_leI le_Suc_ex)
    then show ?thesis using c True by (simp add: event_gas_def EventTypeNoGasLevels_def EventTypeProcessingGas_def)
  next
    case False
    with c show ?thesis by (auto simp: event_gas_def)
  qed
qed

definition metered :: "'g gas_lib \<Rightarrow> 'a option \<Rightarrow> nat \<Rightarrow> 'g \<Rightarrow> (vm_error, 'a) res \<times> 'g \<Rightarrow> bool" where
  "metered G name cost g r \<longleftrightarrow>
     (case name of
        None \<Rightarrow> \<not> is_ok (fst r)
      | Some x \<Rightarrow>
          if unat (g_Consumed G g) + cost \<le> unat (g_Limit G g)
          then fst r = Ok x \<and> g_Limit G (snd r) = g_Limit G g \<and> unat (g_Consumed G (snd r)) = unat (g_Consumed G g) + cost
          else fst r = Panic)"

definition meter_at :: "'g gas_lib \<Rightarrow> nat \<Rightarrow> 'g \<Rightarrow> bool" where
  "meter_at G d g \<longleftrightarrow> spent d \<le> unat (g_Consumed G g) \<and> unat (g_Consumed G g) \<le> unat (g_Limit G g)"

lemma unat_less64: "unat (w :: 64 word) < 2 ^ 64"
  using unsigned_less [of w] by simp

lemma consume_Some:
  assumes G: "gas_laws G" and c: "g_Consume G a g = Some g1"
  shows "g_Limit G g1 = g_Limit G g" and "unat (g_Consumed G g) + unat a \<le> unat (g_Limit G g)"
    and "unat (g_Consumed G g1) = unat (g_Consumed G g) + unat a"
proof -
  show l: "g_Limit G g1 = g_Limit G g" using G c by (auto simp: gas_laws_def)
  have "\<not> unat (g_Limit G g) < unat (g_Consumed G g) + unat a" using G c by (metis gas_laws_def option.distinct(1))
  then show le: "unat (g_Consumed G g) + unat a \<le> unat (g_Limit G g)" by simp
  have "g_Consumed G g1 = g_Consumed G g + a" using G c by (auto simp: gas_laws_def)
  then show "unat (g_Consumed G g1) = unat (g_Consumed G g) + unat a"
    using le unat_less64 [of "g_Limit G g"] by (simp add: unat_plus_if')
qed

lemma event_charge_metered:
  assumes G: "gas_laws G" and m: "meter_at G (Suc d) g"
  shows "case event_charge G (of_nat (gas_at d)) (of_nat (Suc d)) g of
      None \<Rightarrow> unat (g_Limit G g) < unat (g_Consumed G g) + level_charge (Suc d)
    | Some g1 \<Rightarrow> g_Limit G g1 = g_Limit G g \<and> unat (g_Consumed G g1) = unat (g_Consumed G g) + level_charge (Suc d) \<and>
        meter_at G (Suc (Suc d)) g1"
proof -
  have "spent (Suc d) < 2 ^ 64" using m unat_less64 [of "g_Consumed G g"] unfolding meter_at_def by simp
  note w = event_gas_word [OF this]
  let ?c = "of_nat (gas_at (Suc d)) :: 64 word"
  show ?thesis
  proof (cases "2 < Suc d")
    case False
    then have "level_charge (Suc d) = 0" "spent (Suc (Suc d)) = spent (Suc d)" by (simp_all add: level_charge_def)
    with False m w(2) show ?thesis by (simp add: event_charge_def meter_at_def)
  next
    case True
    then have l: "level_charge (Suc d) = unat ?c" using w(3) by (simp add: level_charge_def)
    have e: "event_charge G (of_nat (gas_at d)) (of_nat (Suc d)) g = g_Consume G ?c g"
      unfolding event_charge_def w(1) w(2) using True by simp
    show ?thesis
    proof (cases "g_Consume G ?c g")
      case None
      then have "unat (g_Limit G g) < unat (g_Consumed G g) + unat ?c" using G by (simp add: gas_laws_def)
      then show ?thesis unfolding e None l by simp
    next
      case (Some g1)
      note g1 = consume_Some [OF G Some]
      have "spent (Suc (Suc d)) = spent (Suc d) + unat ?c" by (subst spent.simps(2)) (simp only: l)
      then show ?thesis using m g1(2,3) unfolding e Some l meter_at_def option.case g1(1)
        by (elim conjE, intro conjI refl) linarith+
    qed
  qed
qed

section \<open>The code and the reference\<close>

text \<open>Sequencing, a result wrapped into a longer name, and a charge paid before.\<close>

lemma metered_bind:
  assumes r: "metered G n c g (r, g1)" and k: "\<And>x. r = Ok x \<Longrightarrow> n = Some x \<Longrightarrow> metered G (f x) c' g1 (k x)"
  shows "metered G (Option.bind n f) (c + c') g (case r of Ok x \<Rightarrow> k x | Err e \<Rightarrow> (Err e, g1) | Panic \<Rightarrow> (Panic, g1))"
  using assms by (cases n; cases r) (auto simp: metered_def add.assoc split: option.splits if_splits)

lemma metered_map:
  "metered G n c g (r, g1) \<Longrightarrow>
   metered G (map_option f n) c g (case r of Ok x \<Rightarrow> (Ok (f x), g1) | Err e \<Rightarrow> (Err e, g1) | Panic \<Rightarrow> (Panic, g1))"
  by (cases n; cases r) (auto simp: metered_def split: if_splits)

lemma metered_paid:
  assumes "g_Limit G g1 = g_Limit G g" and "unat (g_Consumed G g1) = unat (g_Consumed G g) + c" and "metered G n c' g1 r"
  shows "metered G n (c + c') g r"
  using assms by (auto simp: metered_def add.assoc split: option.splits if_splits)

lemma metered_return: "meter_at G d g \<Longrightarrow> metered G (Some x) 0 g (Ok x, g)"
  by (simp add: metered_def meter_at_def)

lemma metered_panic: "unat (g_Limit G g) < unat (g_Consumed G g) + c \<Longrightarrow> metered G n (c + c') g (Panic, g)"
  by (simp add: metered_def split: option.split)

lemma metered_meter_at:
  "metered G n c g (Ok x, g1) \<Longrightarrow> meter_at G d g \<Longrightarrow> meter_at G d g1"
  by (auto simp: metered_def meter_at_def split: option.splits if_splits)

lemma charge_metered:
  assumes G: "gas_laws G" and m: "meter_at G (Suc d) g"
    and k: "\<And>g1. event_charge G (of_nat (gas_at d)) (of_nat (Suc d)) g = Some g1 \<Longrightarrow> meter_at G (Suc (Suc d)) g1 \<Longrightarrow>
      metered G n c g1 (k g1)"
  shows "metered G n (level_charge (Suc d) + c) g
    (case event_charge G (of_nat (gas_at d)) (of_nat (Suc d)) g of None \<Rightarrow> (Panic, g) | Some g1 \<Rightarrow> k g1)"
proof (cases "event_charge G (of_nat (gas_at d)) (of_nat (Suc d)) g")
  case None
  with event_charge_metered [OF G m] show ?thesis unfolding None option.case by (intro metered_panic) simp
next
  case (Some g1)
  with event_charge_metered [OF G m]
  have g1: "g_Limit G g1 = g_Limit G g" "unat (g_Consumed G g1) = unat (g_Consumed G g) + level_charge (Suc d)"
    "meter_at G (Suc (Suc d)) g1" by simp_all
  show ?thesis unfolding Some option.case by (rule metered_paid [OF g1(1,2) k [OF Some g1(3)]])
qed

text \<open>The name of a type after its charge, in the three shapes it has.\<close>

lemma named_metered:
  assumes m: "meter_at G d g" and ok: "\<not> (t = LcsVector \<and> vec = None)" "\<not> (t = LcsStruct \<and> str = None)"
    and v: "\<And>v. vec = Some v \<Longrightarrow> metered G (event_name A (Some v)) (event_cost d (Some v)) g (pv v)"
    and s: "\<And>a m n ps. vec = None \<Longrightarrow> str = Some (StructIdent a m n ps) \<Longrightarrow> ps \<noteq> [] \<Longrightarrow>
      metered G (param_names A ps) (params_cost d ps) g (pp ps)"
  shows "metered G (event_name A (Some (LcsTag t vec str)))
      (case vec of Some v \<Rightarrow> event_cost d (Some v)
       | None \<Rightarrow> (case str of Some (StructIdent a m n ps) \<Rightarrow> params_cost d ps | None \<Rightarrow> 0)) g
      (case vec of
         Some v \<Rightarrow> (case pv v of (Ok x, g2) \<Rightarrow> (Ok (lcsTypeToString LcsVector @ ''<'' @ x @ ''>''), g2) | (r, g2) \<Rightarrow> (r, g2))
       | None \<Rightarrow>
           (case str of
              Some (StructIdent a m n ps) \<Rightarrow>
                let structType = StringifySenderAddress A a @ ''::'' @ m @ ''::'' @ n in
                if ps = [] then (Ok structType, g)
                else (case pp ps of
                        (Ok xs, g2) \<Rightarrow> (Ok (structType @ ''<'' @ join_strings '', '' xs @ ''>''), g2)
                      | (Err e, g2) \<Rightarrow> (Err e, g2)
                      | (Panic, g2) \<Rightarrow> (Panic, g2))
            | None \<Rightarrow> (Ok (lcsTypeToString t), g)))"
proof (cases vec)
  case (Some v')
  obtain r g2 where r: "pv v' = (r, g2)" by fastforce
  from metered_map [OF v [OF Some, unfolded r], of "\<lambda>x. ''vector<'' @ x @ ''>''"] Some ok r show ?thesis
    by (cases r) auto
next
  case None
  show ?thesis
  proof (cases str)
    case str: None
    with None ok metered_return [OF m] show ?thesis by auto
  next
    case (Some si)
    obtain a md nm ps where si: "str = Some (StructIdent a md nm ps)" using Some by (cases si) auto
    obtain r g2 where r: "pp ps = (r, g2)" by fastforce
    let ?f = "\<lambda>xs. (StringifySenderAddress A a @ ''::'' @ md @ ''::'' @ nm) @ ''<'' @ join_strings '', '' xs @ ''>''"
    show ?thesis
    proof (cases "ps = []")
      case True
      with None ok si metered_return [OF m] show ?thesis by (auto simp: Let_def)
    next
      case False
      from metered_map [OF s [OF None si False, unfolded r], of ?f] None ok si r False show ?thesis
        by (cases r) (auto simp: Let_def)
    qed
  qed
qed

lemma processEventType_metered:
  shows "gas_laws G \<Longrightarrow> gas = of_nat (gas_at d) \<Longrightarrow> depth = of_nat (Suc d) \<Longrightarrow> meter_at G (Suc d) g \<Longrightarrow>
      metered G (event_name A tag) (event_cost (Suc d) tag) g (processEventType G A tag gas depth g)"
    and "gas_laws G \<Longrightarrow> gas = of_nat (gas_at d) \<Longrightarrow> depth = of_nat (Suc d) \<Longrightarrow> meter_at G (Suc d) g \<Longrightarrow>
      metered G (param_names A ps) (params_cost (Suc d) ps) g (processTypeParams G A ps gas depth g)"
proof (induction G A tag gas depth g and G A ps gas depth g arbitrary: d and d rule: processEventType_processTypeParams.induct)
  case (1 G A gas depth g)
  have "metered G (Some []) (level_charge (Suc d) + 0) g (processEventType G A None gas depth g)"
    unfolding processEventType.simps 1(2,3) by (rule charge_metered [OF 1(1,4)]) (rule metered_return)
  then show ?case by simp
next
  case (2 G A t vec str gas depth g)
  have "spent (Suc d) < 2 ^ 64" using 2(6) unat_less64 [of "g_Consumed G g"] unfolding meter_at_def by simp
  then have gas: "event_gas gas depth = of_nat (gas_at (Suc d))" using event_gas_word(1) 2(4,5) by simp
  have depth: "depth + 1 = of_nat (Suc (Suc d))" using 2(5) by simp
  show ?case
    unfolding event_cost.simps processEventType.simps 2(4,5)
  proof (rule charge_metered [OF 2(3,6)], fold 2(4,5), goal_cases)
    case (1 g1)
    note c = 1(1) and m = 1(2)
    note v = 2(2) [OF c _ _ _ 2(3) gas depth m] and s = 2(1) [OF c _ _ _ _ refl refl _ 2(3) gas depth m]
    consider "t = LcsVector \<and> vec = None \<or> t = LcsStruct \<and> str = None"
      | "\<not> (t = LcsVector \<and> vec = None)" "\<not> (t = LcsStruct \<and> str = None)" by blast
    then show ?case
    proof cases
      case 1
      then show ?thesis by (auto simp: metered_def)
    next
      case ok: 2
      show ?thesis unfolding if_not_P [OF ok(1)] if_not_P [OF ok(2)]
        by (rule named_metered [OF m ok]) (rule v s; use ok in simp)+
    qed
  qed
next
  case (3 G A gas depth g)
  then show ?case using metered_return [OF 3(4), of "[]"] by simp
next
  case (4 G A p ps gas depth g)
  obtain r g1 where r: "processEventType G A p gas depth g = (r, g1)" by fastforce
  have m: "metered G (event_name A p) (event_cost (Suc d) p) g (r, g1)" using 4(1) [OF 4(3-6)] r by simp
  have k: "metered G (map_option (Cons x) (param_names A ps)) (params_cost (Suc d) ps) g1
      (case processTypeParams G A ps gas depth g1 of
         (Ok xs, g2) \<Rightarrow> (Ok (x # xs), g2) | (Err e, g2) \<Rightarrow> (Err e, g2) | (Panic, g2) \<Rightarrow> (Panic, g2))" if x: "r = Ok x" for x
  proof -
    have "meter_at G (Suc d) g1" by (rule metered_meter_at [OF m [unfolded x] 4(6)])
    from 4(2) [OF r [symmetric] x 4(3-5) this]
    have "metered G (param_names A ps) (params_cost (Suc d) ps) g1 (processTypeParams G A ps gas depth g1)" .
    then show ?thesis using metered_map by (cases "processTypeParams G A ps gas depth g1") fastforce
  qed
  have "metered G (param_names A (p # ps)) (params_cost (Suc d) (p # ps)) g
      (case r of Ok x \<Rightarrow> (case processTypeParams G A ps gas depth g1 of
         (Ok xs, g2) \<Rightarrow> (Ok (x # xs), g2) | (Err e, g2) \<Rightarrow> (Err e, g2) | (Panic, g2) \<Rightarrow> (Panic, g2))
       | Err e \<Rightarrow> (Err e, g1) | Panic \<Rightarrow> (Panic, g1))"
    unfolding param_names.simps params_cost.simps by (rule metered_bind [OF m]) (rule k)
  then show ?case unfolding processTypeParams.simps r by (cases r) simp_all
qed

section \<open>The gas of an event\<close>

lemma deep_le_cost:
  shows "10000 * deep_parts d tag \<le> event_cost d tag" and "10000 * deep_params d ps \<le> params_cost d ps"
proof (induction d tag and d ps rule: deep_parts_deep_params.induct)
  case (2 d t vec str)
  have "10000 * (if 2 < d then 1 else 0) \<le> level_charge d" using gas_at_low [of d] by (simp add: level_charge_def)
  with 2 show ?case by (auto split: option.splits StructIdent.splits)
qed (use gas_at_low in \<open>auto simp: level_charge_def\<close>)

lemma meter_at_1: "meter_at G 1 g \<longleftrightarrow> g_Consumed G g \<le> g_Limit G g"
  by (simp add: meter_at_def level_charge_def word_le_nat_alt)

lemma StringifyEventType_metered:
  assumes "gas_laws G" and "meter_at G 1 g"
  shows "metered G (event_name A tag) (event_cost 1 tag) g (StringifyEventType G A tag g)"
  using processEventType_metered(1) [OF assms(1), of EventTypeProcessingGas 0 1 g A tag] assms(2)
  by (simp add: StringifyEventType_def EventTypeProcessingGas_def)

text \<open>
  C21. Naming the type of an event (\<open>StringifyEventType\<close>), bounds: a type without a description missing gets its name if and only if the gas left on the meter covers
  the cost of the name; exactly that cost is then consumed, otherwise the transaction panics, and a type with a description missing never gets a name. The
  64-bit arithmetic of the charges never wraps around, whatever the nesting of the type. Every part of the type below the second level costs at
  least 10000 units, so the gas bounds the size of the names that are built, and the charge of a level grows quadratically with the depth.
\<close>

theorem vm_event_gas:
  assumes "gas_laws G" and "g_Consumed G g \<le> g_Limit G g"
  shows "(case event_name A tag of
      None \<Rightarrow> \<not> is_ok (fst (StringifyEventType G A tag g))
    | Some x \<Rightarrow>
        if unat (g_Consumed G g) + event_cost 1 tag \<le> unat (g_Limit G g)
        then fst (StringifyEventType G A tag g) = Ok x \<and>
          g_Limit G (snd (StringifyEventType G A tag g)) = g_Limit G g \<and>
          unat (g_Consumed G (snd (StringifyEventType G A tag g))) = unat (g_Consumed G g) + event_cost 1 tag
        else fst (StringifyEventType G A tag g) = Panic) \<and>
    10000 * deep_parts 1 tag \<le> event_cost 1 tag \<and>
    2 * level_charge (k + 3) = 10000 * (k * (k + 1) + 2)"
proof -
  have "metered G (event_name A tag) (event_cost 1 tag) g (StringifyEventType G A tag g)"
    using assms by (intro StringifyEventType_metered) (simp_all only: meter_at_1)
  moreover have "10000 * deep_parts 1 tag \<le> event_cost 1 tag" by (rule deep_le_cost)
  moreover have "2 * level_charge (k + 3) = 10000 * (k * (k + 1) + 2)" using gas_at_closed [of k] by (simp add: level_charge_def)
  ultimately show ?thesis unfolding metered_def by (intro conjI)
qed

definition nested_vector :: "LcsTag option" where
  "nested_vector =
     (let v = (\<lambda>t. LcsTag LcsVector (Some t) None) in Some (v (v (v (v (LcsTag LcsU8 None None))))))"

theorem vm_event_gas_witness:
  "fst (StringifyEventType ref_gas (\<lambda>a. a) nested_vector (100000, 30000)) = Ok ''vector<vector<vector<vector<u8>>>>'' \<and>
   fst (StringifyEventType ref_gas (\<lambda>a. a) nested_vector (99999, 30000)) = Panic"
proof -
  have n: "event_name (\<lambda>a. a) nested_vector = Some ''vector<vector<vector<vector<u8>>>>''" and c: "event_cost 1 nested_vector = 70000"
    by (simp_all add: nested_vector_def level_charge_def)
  show ?thesis
    using vm_event_gas [OF ref_gas_laws, of "(100000, 30000)" "\<lambda>a. a" nested_vector 0]
      vm_event_gas [OF ref_gas_laws, of "(99999, 30000)" "\<lambda>a. a" nested_vector 0] unfolding n c
    by (simp add: ref_gas_def)
qed

end
