(* ===== verification/VM_Props.thy ===== *)
theory VM_Props
  imports VM VM_Gas
begin

text \<open>
  Properties of the execution of module \<open>x/vm\<close>: the loop of attempts, the effect of an answer of the virtual machine and the genesis.
\<close>

section \<open>Attempts\<close>

definition attempts :: "vm_server \<Rightarrow> vm_store \<Rightarrow> raw_request \<Rightarrow> nat \<Rightarrow> VMExecuteResponse option" where
  "attempts V st raw = (case raw of RawModule m \<Rightarrow> srv_PublishModule V st m | RawScript sc \<Rightarrow> srv_ExecuteScript V st sc)"

lemma retryExecReq_loop: "retryExecReq V st req = retry_loop (attempts V st (rr_Raw req)) (rr_MaxAttempts req) (of_nat 0) 0"
  by (simp add: retryExecReq_def attempts_def)

lemma attempt_below: "Suc n < unat M \<Longrightarrow> of_nat n + 1 \<noteq> (M :: 64 word)"
  using unat64 [of "Suc n"] unat_less64 [of M] by (cases "of_nat (Suc n) = M") auto

text \<open>The first answer ends the loop, if the limit does not come before.\<close>

lemma retry_answer:
  assumes "att i = Some r" and "\<forall>j < i. att j = None" and "M = 0 \<or> i < unat M" and "n \<le> i"
  shows "retry_loop att M (of_nat n) n = Some (Some r)"
  using assms(4)
proof (induction n rule: inc_induct)
  case base
  show ?case using assms(1) by (subst retry_loop.simps) simp
next
  case (step n)
  have "\<not> (M \<noteq> 0 \<and> of_nat n + 1 = M)" using assms(3) step.hyps attempt_below [of n M] by auto
  with step assms(2) show ?case by (subst retry_loop.simps) (simp add: add.commute)
qed

lemma retry_limit:
  assumes "M \<noteq> 0" and "\<forall>j < unat M. att j = None" and "n \<le> unat M - 1"
  shows "retry_loop att M (of_nat n) n = Some None"
  using assms(3)
proof (induction n rule: inc_induct)
  case base
  obtain k where k: "M = of_nat k" "k < 2 ^ 64" by (cases M rule: word_nat_cases) simp
  with assms(1) unat64 have "unat M = k" "0 < k" by (auto intro: gr0I)
  with k have "of_nat (unat M - 1) + 1 = M" by (cases k) simp_all
  with assms show ?case by (subst retry_loop.simps) (simp add: unat_gt_0)
next
  case (step n)
  have "of_nat n + 1 \<noteq> M" using step.hyps attempt_below [of n M] by simp
  with step assms(2) show ?case by (subst retry_loop.simps) (simp add: add.commute)
qed

text \<open>Without a limit the loop ends only with an answer.\<close>

lemma retry_ends:
  assumes "retry_loop att 0 c n = Some y"
  shows "\<exists>i r. att i = Some r"
proof -
  have "M = 0 \<longrightarrow> (\<exists>i r. att i = Some r)" if "retry_loop att M c n = Some y" for M
    by (rule retry_loop.raw_induct [where P = "\<lambda>att M c n y. M = 0 \<longrightarrow> (\<exists>i r. att i = Some r)", OF _ that])
      (auto split: option.splits if_splits, metis)
  with assms show ?thesis by blast
qed

lemma first_answer: "att (k :: nat) = Some r \<Longrightarrow> \<exists>i \<le> k. att i \<noteq> None \<and> (\<forall>j < i. att j = None)"
  using ex_least_nat_le [of "\<lambda>i. att i \<noteq> None" k] by auto


definition ex_response :: VMExecuteResponse where
  "ex_response = \<lparr>ex_WriteSet = [], ex_Events = [], ex_GasUsed = 5, ex_Status = Some \<lparr>vs_Error = None, vs_Message = None\<rparr>\<rparr>"

definition ex_flaky :: vm_server where
  "ex_flaky = \<lparr>srv_PublishModule = (\<lambda>_ _ _. None), srv_ExecuteScript = (\<lambda>_ _ n. if n < 2 then None else Some ex_response), srv_MaxAttempts = 0\<rparr>"


section \<open>The effect of an answer\<close>

text \<open>
  What an answer asks for: the last operation on a path, the gas of the execution and of the names of its events, and the answers the keeper can process.
\<close>

primrec last_op :: "VMAccessPath \<Rightarrow> VMValue list \<Rightarrow> bytes option option" where
  "last_op p [] = None"
| "last_op p (value # vs) =
     (case last_op p vs of
        Some x \<Rightarrow> Some x
      | None \<Rightarrow> if vv_Path value = p then Some (if vv_Type value = VmWriteOp_Deletion then None else Some (vv_Value value)) else None)"

definition events_cost :: "VMEvent option list \<Rightarrow> nat" where
  "events_cost es = sum_list (map (\<lambda>e. case e of Some ev \<Rightarrow> event_cost 1 (ev_EventType ev) | None \<Rightarrow> 0) es)"

definition exec_cost :: "VMExecuteResponse \<Rightarrow> nat" where
  "exec_cost exec = unat (ex_GasUsed exec) + (if exec_kept exec then events_cost (ex_Events exec) else 0)"

definition event_ok :: "(bytes \<Rightarrow> string) \<Rightarrow> VMEvent option \<Rightarrow> bool" where
  "event_ok A e = (case e of Some ev \<Rightarrow> event_name A (ev_EventType ev) \<noteq> None | None \<Rightarrow> False)"

definition exec_ok :: "(bytes \<Rightarrow> string) \<Rightarrow> VMExecuteResponse \<Rightarrow> bool" where
  "exec_ok A exec \<longleftrightarrow>
     NewContractEvents exec \<noteq> None \<and>
     (exec_kept exec \<longrightarrow> (\<forall>v \<in> set (ex_WriteSet exec). vv_Type v \<noteq> VmWriteOp_Other) \<and> (\<forall>e \<in> set (ex_Events exec). event_ok A e))"

definition move_event :: "(bytes \<Rightarrow> string) \<Rightarrow> VMEvent option \<Rightarrow> sdk_event" where
  "move_event A e =
     (case e of
        Some ev \<Rightarrow>
          (EventTypeMoveEvent,
            [(''sender_address'', StringifySenderAddress A (ev_SenderAddress ev)),
             (''source'', GetEventSourceAttribute A (ev_SenderModule ev)),
             (''type'', the (event_name A (ev_EventType ev))), (''data'', EncodeToString (ev_EventData ev))])
      | None \<Rightarrow> ([], []))"

lemma processWriteSet_ok: "fst (processWriteSet vs st) = Ok () \<longleftrightarrow> (\<forall>v \<in> set vs. vv_Type v \<noteq> VmWriteOp_Other)"
  by (induction vs st rule: processWriteSet.induct) (auto split: VmWriteOp.splits)

lemma processWriteSet_no_err: "fst (processWriteSet vs st) \<noteq> Err e"
  by (induction vs st rule: processWriteSet.induct) (auto split: VmWriteOp.splits)

lemma processWriteSet_get:
  assumes "processWriteSet vs st = (Ok (), st')" and "\<forall>v \<in> set vs. vm_path_ok (vv_Path v)" and "vm_path_ok p"
  shows "getValue st' p = (case last_op p vs of Some x \<Rightarrow> x | None \<Rightarrow> getValue st p)"
  using assms(1,2)
proof (induction vs st rule: processWriteSet.induct)
  case (2 x vs st)
  then show ?case
    using assms(3) by (auto simp: getValue_def setValue_def delValue_def GetPathKey_inject split: VmWriteOp.splits option.splits)
qed simp

lemma NewMoveEvent_metered:
  assumes "gas_laws G" and "meter_at G 1 g"
  shows "metered G (if event_ok A e then Some (move_event A e) else None) (events_cost [e]) g (NewMoveEvent G A e g)"
proof (cases e)
  case None
  then show ?thesis by (simp add: NewMoveEvent_def metered_def event_ok_def)
next
  case (Some ev)
  obtain r g' where r: "StringifyEventType G A (ev_EventType ev) g = (r, g')" by fastforce
  have "metered G (event_name A (ev_EventType ev)) (event_cost 1 (ev_EventType ev)) g (r, g')"
    using StringifyEventType_metered [OF assms] unfolding r [symmetric] .
  then show ?thesis using Some r
    by (cases r; cases "event_name A (ev_EventType ev)")
      (auto simp: NewMoveEvent_def StringifyEventTypePanic_def metered_def event_ok_def move_event_def events_cost_def split: if_splits)
qed

definition emitted :: "'g vm_world \<Rightarrow> sdk_event list \<Rightarrow> 'g vm_world \<Rightarrow> bool" where
  "emitted w es w' \<longleftrightarrow> (\<exists>g. w' = w\<lparr>vw_gas := g, vw_events := vw_events w @ es\<rparr>)"

lemma emit_move_events_metered:
  assumes G: "gas_laws G" and m: "meter_at G 1 (vw_gas w)" and e: "emit_move_events G A es w = (r, w')"
  shows "metered G (if \<forall>e \<in> set es. event_ok A e then Some () else None) (events_cost es) (vw_gas w) (r, vw_gas w') \<and>
    (\<forall>e. r \<noteq> Err e) \<and> (r = Ok () \<longrightarrow> emitted w (map (move_event A) es) w')"
  using m e
proof (induction es arbitrary: w)
  case Nil
  have "emitted w [] w" unfolding emitted_def by (rule exI [of _ "vw_gas w"]) simp
  with Nil show ?case by (auto simp: metered_def events_cost_def meter_at_def)
next
  case (Cons x es)
  obtain q g where q: "NewMoveEvent G A x (vw_gas w) = (q, g)" by fastforce
  have m: "metered G (if event_ok A x then Some (move_event A x) else None) (events_cost [x]) (vw_gas w) (q, g)"
    using NewMoveEvent_metered [OF G Cons.prems(1)] unfolding q [symmetric] .
  have c: "events_cost (x # es) = events_cost [x] + events_cost es" by (simp add: events_cost_def)
  show ?case
  proof (cases q)
    case (Ok ev)
    let ?w = "w\<lparr>vw_gas := g, vw_events := vw_events w @ [ev]\<rparr>"
    have x: "event_ok A x" "ev = move_event A x" using m Ok by (auto simp: metered_def split: if_splits)
    have "meter_at G 1 (vw_gas ?w)" using metered_meter_at [OF m [unfolded Ok] Cons.prems(1)] by simp
    moreover have "emit_move_events G A es ?w = (r, w')" using Cons.prems(2) q Ok by simp
    ultimately have "metered G (if \<forall>e \<in> set es. event_ok A e then Some () else None) (events_cost es) g (r, vw_gas w') \<and>
        (\<forall>e. r \<noteq> Err e) \<and> (r = Ok () \<longrightarrow> emitted ?w (map (move_event A) es) w')" using Cons.IH by fastforce
    with m x Ok show ?thesis unfolding c
      by (auto simp: metered_def emitted_def add.assoc split: if_splits)
  next
    case (Err err)
    with m q Cons.prems(2) show ?thesis unfolding c by (auto simp: metered_def split: if_splits)
  next
    case Panic
    with m q Cons.prems(2) show ?thesis unfolding c by (auto simp: metered_def split: if_splits)
  qed
qed

lemma processExecution_effect:
  assumes G: "gas_laws G" and m: "g_Consumed G (vw_gas w) \<le> g_Limit G (vw_gas w)"
    and paths: "\<forall>v \<in> set (ex_WriteSet exec). vm_path_ok (vv_Path v)"
  shows "\<exists>r w'. processExecution G A exec w = (r, w') \<and>
    (if exec_ok A exec \<and> unat (g_Consumed G (vw_gas w)) + exec_cost exec \<le> unat (g_Limit G (vw_gas w))
     then r = Ok () \<and>
       unat (g_Consumed G (vw_gas w')) = unat (g_Consumed G (vw_gas w)) + exec_cost exec \<and> g_Limit G (vw_gas w') = g_Limit G (vw_gas w) \<and>
       (\<forall>p. vm_path_ok p \<longrightarrow> getValue (vw_store w') p =
          (if exec_kept exec then case last_op p (ex_WriteSet exec) of Some x \<Rightarrow> x | None \<Rightarrow> getValue (vw_store w) p
           else getValue (vw_store w) p)) \<and>
       w' = w\<lparr>vw_gas := vw_gas w', vw_store := (if exec_kept exec then vw_store w' else vw_store w),
         vw_events := vw_events w @ NewModuleNameEvent ''vm'' # the (NewContractEvents exec) @
           (if exec_kept exec then map (move_event A) (ex_Events exec) else [])\<rparr>
     else r = Panic)"
proof (cases "g_Consume G (ex_GasUsed exec) (vw_gas w)")
  case None
  then have "unat (g_Limit G (vw_gas w)) < unat (g_Consumed G (vw_gas w)) + unat (ex_GasUsed exec)" using G by (simp add: gas_laws_def)
  with None show ?thesis by (auto simp: processExecution_def exec_cost_def)
next
  case (Some g)
  note g = consume_Some [OF G Some]
  have mg: "meter_at G 1 g" using g by (simp add: meter_at_def level_charge_def)
  let ?w1 = "\<lambda>evs. w\<lparr>vw_gas := g, vw_events := (vw_events w @ [NewModuleNameEvent ''vm'']) @ evs\<rparr>"
  show ?thesis
  proof (cases "NewContractEvents exec")
    case None
    with Some show ?thesis by (simp add: processExecution_def exec_ok_def)
  next
    case evs: (Some evs)
    show ?thesis
    proof (cases "exec_kept exec")
      case False
      with Some evs g show ?thesis by (simp add: processExecution_def exec_ok_def exec_cost_def)
    next
      case kept: True
      obtain q st where q: "processWriteSet (ex_WriteSet exec) (vw_store w) = (q, st)" by fastforce
      obtain r w' where r: "emit_move_events G A (ex_Events exec) ((?w1 evs)\<lparr>vw_store := st\<rparr>) = (r, w')" by fastforce
      from emit_move_events_metered [OF G _ this] mg
      have e: "metered G (if \<forall>e \<in> set (ex_Events exec). event_ok A e then Some () else None) (events_cost (ex_Events exec)) g (r, vw_gas w')"
        "\<forall>e. r \<noteq> Err e" "r = Ok () \<longrightarrow> emitted ((?w1 evs)\<lparr>vw_store := st\<rparr>) (map (move_event A) (ex_Events exec)) w'" by auto
      show ?thesis
      proof (cases "q = Ok ()")
        case False
        then have "q = Panic" using processWriteSet_no_err [of "ex_WriteSet exec" "vw_store w"] q by (cases q) auto
        moreover have "\<not> exec_ok A exec" using processWriteSet_ok [of "ex_WriteSet exec" "vw_store w"] q False kept
          by (auto simp: exec_ok_def)
        ultimately show ?thesis using Some evs kept q by (simp add: processExecution_def)
      next
        case ok: True
        have p: "processExecution G A exec w = (r, w')" using Some evs kept q ok r by (simp add: processExecution_def)
        have "exec_ok A exec \<longleftrightarrow> (\<forall>e \<in> set (ex_Events exec). event_ok A e)"
          using processWriteSet_ok [of "ex_WriteSet exec" "vw_store w"] q ok kept evs by (auto simp: exec_ok_def)
        with e g kept p evs processWriteSet_get [OF _ paths, of "vw_store w" st] q ok show ?thesis
          by (cases r) (auto simp: metered_def emitted_def exec_cost_def split: if_splits)
      qed
    qed
  qed
qed

lemma request_gas:
  "g_Consumed G g \<le> g_Limit G g \<Longrightarrow> unat (getVMLimitedGas (GetFreeGas G g)) \<le> unat (g_Limit G g) - unat (g_Consumed G g)"
  by (auto simp: getVMLimitedGas_def GetFreeGas_def unat_sub word_le_nat_alt word_less_nat_alt)


definition ex_path :: "nat \<Rightarrow> VMAccessPath" where
  "ex_path n = \<lparr>ap_Address = StdLibAddress, ap_Path = replicate n CHR ''x''\<rparr>"

definition ex_exec :: VMExecuteResponse where
  "ex_exec = \<lparr>ex_WriteSet = [\<lparr>vv_Type = VmWriteOp_Value, vv_Value = ''a'', vv_Path = ex_path 1\<rparr>,
      \<lparr>vv_Type = VmWriteOp_Value, vv_Value = ''b'', vv_Path = ex_path 2\<rparr>, \<lparr>vv_Type = VmWriteOp_Deletion, vv_Value = [], vv_Path = ex_path 1\<rparr>],
    ex_Events = [Some \<lparr>ev_SenderAddress = StdLibAddress, ev_SenderModule = None, ev_EventType = nested_vector, ev_EventData = ''d''\<rparr>],
    ex_GasUsed = 5, ex_Status = Some \<lparr>vs_Error = None, vs_Message = None\<rparr>\<rparr>"

definition ex_server :: vm_server where
  "ex_server = \<lparr>srv_PublishModule = (\<lambda>_ _ _. Some ex_exec), srv_ExecuteScript = (\<lambda>_ _ _. Some ex_exec), srv_MaxAttempts = 0\<rparr>"

definition ex_vm_world :: "64 word \<Rightarrow> (64 word \<times> 64 word) vm_world" where
  "ex_vm_world limit = \<lparr>vw_gas = (limit, 10), vw_events = [], vw_store = setValue (ex_path 1) ''o'' [], vw_queue = [], vw_proposalID = None, vw_genInit = True\<rparr>"

definition ex_script :: MsgExecuteScript where
  "ex_script = \<lparr>ms_Signer = replicate 20 CHR ''s'', ms_Script = ''c'', ms_Args = []\<rparr>"

lemma ex_exec_facts: "exec_ok (\<lambda>a. a) ex_exec" "exec_cost ex_exec = 70005" "exec_kept ex_exec"
  "\<forall>v \<in> set (ex_WriteSet ex_exec). vm_path_ok (vv_Path v)"
  by (simp_all add: exec_ok_def ex_exec_def NewContractEvents_def exec_kept_def event_ok_def nested_vector_def exec_cost_def
      events_cost_def level_charge_def vm_path_ok_def ex_path_def StdLibAddress_def VMAddressLength_def)

lemma ex_server_answers: "sendExecuteReq ex_server st None (Some req) = Some (Ok ex_exec)"
  "sendExecuteReq ex_server st (Some req') None = Some (Ok ex_exec)"
  by (simp_all add: sendExecuteReq_def retryExecReq_def ex_server_def retry_loop.simps)


section \<open>Genesis\<close>

lemma hex_value_digit: "n < 16 \<Longrightarrow> hex_value (hex_digit n) = Some n"
proof -
  assume "n < 16"
  then have "n \<in> {0..<16}" by simp
  moreover have "\<forall>n \<in> {0..<16}. hex_value (hex_digit n) = Some n"
    unfolding atLeastLessThan_upt by (simp add: upt_rec hex_value_def hex_digit_def)
  ultimately show ?thesis by blast
qed

lemma hex_roundtrip [simp]: "DecodeString (EncodeToString x) = Some x"
proof (induction x)
  case (Cons c x)
  have "(of_char c :: nat) < 16 * 16" by simp
  then have "of_char c div 16 < (16 :: nat)" by (rule less_mult_imp_div_less)
  then have "hex_value (hex_digit (of_char c div 16)) = Some (of_char c div 16)" "hex_value (hex_digit (of_char c mod 16)) = Some (of_char c mod 16)"
    by (simp_all add: hex_value_digit)
  with Cons show ?case by simp
qed simp

lemma hex_inject [simp]: "EncodeToString x = EncodeToString y \<longleftrightarrow> x = y"
  by (metis hex_roundtrip option.inject)

lemma hex_length [simp]: "length (EncodeToString x) = 2 * length x"
  by (induction x) simp_all

definition vm_store_ok :: "vm_store \<Rightarrow> bool" where
  "vm_store_ok st \<longleftrightarrow> kv_wf st \<and> (\<forall>k \<in> fst ` set st. \<exists>p. vm_path_ok p \<and> k = GetPathKey p)"

lemma iterateOverValues_eq:
  "iterateOverValues st =
    (if \<exists>k \<in> fst ` set st. MustParsePathKey k = None then None else Some (map (\<lambda>(k, v). (the (MustParsePathKey k), v)) st))"
proof (induction st rule: iterateOverValues.induct)
  case (2 k v es)
  then show ?case by (cases "MustParsePathKey k") auto
qed simp

lemma MustParse_None: "vm_path_ok p \<Longrightarrow> MustParsePathKey (GetPathKey p) = None \<longleftrightarrow> ap_Path p = []"
proof (cases "ap_Path p = []")
  case True
  assume p: "vm_path_ok p"
  have "False" if "MustParsePathKey (GetPathKey p) = Some q" for q
    using MustParsePathKey_SomeD [OF that] p True GetPathKey_inject by blast
  with True show ?thesis by (cases "MustParsePathKey (GetPathKey p)") auto
qed (simp add: MustParsePathKey_GetPathKey)

definition write_op :: "VMAccessPath \<times> bytes \<Rightarrow> GenesisWriteOp" where
  "write_op = (\<lambda>(p, v). \<lparr>gw_Address = EncodeToString (ap_Address p), gw_Path = EncodeToString (ap_Path p), gw_Value = EncodeToString v\<rparr>)"

lemma ToBytes_write_op: "ToBytes (write_op x) = Some x"
  by (cases x) (simp add: write_op_def ToBytes_def)

lemma write_op_string: "vm_path_ok p \<Longrightarrow> vm_path_ok q \<Longrightarrow>
    GenesisWriteOp_String (write_op (p, v)) = GenesisWriteOp_String (write_op (q, u)) \<longleftrightarrow> p = q"
  by (cases p; cases q) (auto simp: GenesisWriteOp_String_def write_op_def vm_path_ok_def)

lemma vm_init_loop_write_ops: "vm_init_loop (map write_op xs) st = Some (foldl (\<lambda>s x. setValue (fst x) (snd x) s) st xs)"
  by (induction xs arbitrary: st) (simp_all add: ToBytes_write_op split_def)

lemma vm_validate_write_ops:
  "distinct (map fst xs) \<Longrightarrow> (\<forall>x \<in> set xs. vm_path_ok (fst x)) \<Longrightarrow>
   S \<inter> (\<lambda>x. GenesisWriteOp_String (write_op x)) ` set xs = {} \<Longrightarrow> vm_validate_loop (map write_op xs) S = Ok ()"
proof (induction xs arbitrary: S)
  case (Cons x xs)
  obtain p v where x: "x = (p, v)" by fastforce
  have "insert (GenesisWriteOp_String (write_op x)) S \<inter> (\<lambda>x. GenesisWriteOp_String (write_op x)) ` set xs = {}"
  proof -
    have "GenesisWriteOp_String (write_op x) \<noteq> GenesisWriteOp_String (write_op y)" if "y \<in> set xs" for y
      using Cons.prems(1,2) x that write_op_string [of p "fst y" v "snd y"] by force
    with Cons.prems(3) show ?thesis by auto
  qed
  from Cons.IH [OF _ _ this] Cons.prems show ?case
    by (auto simp: x write_op_def vm_path_ok_def split: option.split)
qed simp

lemma vm_store_parsed:
  assumes st: "vm_store_ok st" and ok: "\<forall>k \<in> fst ` set st. MustParsePathKey k \<noteq> None"
  defines "xs \<equiv> map (\<lambda>(k, v). (the (MustParsePathKey k), v)) st"
  shows "map (\<lambda>x. (GetPathKey (fst x), snd x)) xs = st" and "distinct (map fst xs)" and "\<forall>x \<in> set xs. vm_path_ok (fst x)"
proof -
  have k: "GetPathKey (the (MustParsePathKey k)) = k \<and> vm_path_ok (the (MustParsePathKey k))" if "k \<in> fst ` set st" for k
    using ok that MustParsePathKey_SomeD by fastforce
  show m: "map (\<lambda>x. (GetPathKey (fst x), snd x)) xs = st" unfolding xs_def map_map
    by (rule map_idI) (use k in \<open>force simp: split_def\<close>)
  have "distinct (map fst st)" using st kv_wf_distinct by (auto simp: vm_store_ok_def)
  then have "distinct (map GetPathKey (map fst xs))" by (subst (asm) m [symmetric]) (simp add: o_def)
  then show "distinct (map fst xs)" by (simp only: distinct_map)
  show "\<forall>x \<in> set xs. vm_path_ok (fst x)" using k by (force simp: xs_def)
qed

text \<open>
  C37. Genesis of the virtual machine, round trip: for a storage whose keys are paths with addresses of 20 bytes, the export panics exactly if some value is stored under an empty
  path. An exported genesis passes its validation, and initialising an empty storage from it gives the storage back. The queue of
  planned proposals is not part of the exported genesis: neither does the export depend on it nor does the initialisation change it.
\<close>

theorem vm_genesis_roundtrip:
  fixes w :: "'a vm_world"
  assumes "vm_store_ok (vw_store w)"
  shows "(Vm_ExportGenesis w = None \<longleftrightarrow> (\<exists>p. vm_path_ok p \<and> ap_Path p = [] \<and> hasValue (vw_store w) p)) \<and>
    Vm_ExportGenesis (w\<lparr>vw_queue := q, vw_proposalID := i\<rparr>) = Vm_ExportGenesis w \<and>
    (\<forall>ops (w0 :: 'a vm_world). Vm_ExportGenesis w = Some ops \<and> vw_store w0 = [] \<longrightarrow>
       VmGenesis_Validate ops = Ok () \<and> Vm_InitGenesis ops w0 = (Ok (), w0\<lparr>vw_store := vw_store w, vw_genInit := True\<rparr>))"
proof (intro conjI allI impI)
  let ?st = "vw_store w" and ?xs = "map (\<lambda>(k, v). (the (MustParsePathKey k), v)) (vw_store w)"
  have e: "Vm_ExportGenesis w = (if \<exists>k \<in> fst ` set ?st. MustParsePathKey k = None then None else Some (map write_op ?xs))"
    by (simp add: Vm_ExportGenesis_def iterateOverValues_eq write_op_def)
  have "(\<exists>k \<in> fst ` set ?st. MustParsePathKey k = None) \<longleftrightarrow> (\<exists>p. vm_path_ok p \<and> ap_Path p = [] \<and> GetPathKey p \<in> fst ` set ?st)"
    using assms MustParse_None unfolding vm_store_ok_def by metis
  then show "Vm_ExportGenesis w = None \<longleftrightarrow> (\<exists>p. vm_path_ok p \<and> ap_Path p = [] \<and> hasValue ?st p)"
    by (simp add: e hasValue_def kv_has_def map_of_eq_None_iff)
  show "Vm_ExportGenesis (w\<lparr>vw_queue := q, vw_proposalID := i\<rparr>) = Vm_ExportGenesis w" by (simp add: Vm_ExportGenesis_def)
  fix ops and w0 :: "'a vm_world"
  assume "Vm_ExportGenesis w = Some ops \<and> vw_store w0 = []"
  then have ok: "\<forall>k \<in> fst ` set ?st. MustParsePathKey k \<noteq> None" and ops: "ops = map write_op ?xs" and w0: "vw_store w0 = []"
    by (auto simp: e split: if_splits)
  note xs = vm_store_parsed [OF assms ok]
  show "VmGenesis_Validate ops = Ok ()"
    unfolding VmGenesis_Validate_def ops by (rule vm_validate_write_ops [OF xs(2,3)]) simp
  have "foldl (\<lambda>s x. setValue (fst x) (snd x) s) [] ?xs = foldl (\<lambda>t p. kv_set (fst p) (snd p) t) [] (map (\<lambda>x. (GetPathKey (fst x), snd x)) ?xs)"
    by (simp add: foldl_map setValue_def)
  also have "\<dots> = ?st" unfolding xs(1) using assms kv_wf_distinct by (intro kv_foldl_rebuild) (auto simp: vm_store_ok_def)
  finally show "Vm_InitGenesis ops w0 = (Ok (), w0\<lparr>vw_store := ?st, vw_genInit := True\<rparr>)"
    unfolding Vm_InitGenesis_def ops w0 vm_init_loop_write_ops by simp
qed

theorem vm_genesis_roundtrip_witness:
  "\<exists>ops. Vm_ExportGenesis (ex_vm_world 0) = Some ops \<and> length ops = 1 \<and> VmGenesis_Validate ops = Ok () \<and>
     vw_store (snd (Vm_InitGenesis ops ((ex_vm_world 0)\<lparr>vw_store := []\<rparr>))) = vw_store (ex_vm_world 0)"
proof -
  have p: "vm_path_ok (ex_path 1)" by (simp add: vm_path_ok_def ex_path_def StdLibAddress_def VMAddressLength_def)
  have st: "vw_store (ex_vm_world 0) = [(GetPathKey (ex_path 1), ''o'')]" by (simp add: ex_vm_world_def setValue_def)
  have s: "vm_store_ok (vw_store (ex_vm_world 0))" using p unfolding st by (auto simp: vm_store_ok_def kv_wf_def)
  have "MustParsePathKey (GetPathKey (ex_path 1)) = Some (ex_path 1)" using p by (intro MustParsePathKey_GetPathKey) (simp_all add: ex_path_def)
  then obtain ops where o: "Vm_ExportGenesis (ex_vm_world 0) = Some ops" "length ops = 1" by (simp add: Vm_ExportGenesis_def st)
  from vm_genesis_roundtrip [OF s, THEN conjunct2, THEN conjunct2, rule_format, of ops "(ex_vm_world 0)\<lparr>vw_store := []\<rparr>"] o
  show ?thesis by (intro exI [of _ ops]) simp
qed

end
