(* ===== verification/VM_Gov.thy ===== *)
theory VM_Gov
  imports VM_Props
begin

text \<open>
  The queue of planned proposals of module \<open>x/vm\<close>: its invariant over the steps of the module, and the execution of the proposals at the beginning of the
  block they are planned for.
\<close>

section \<open>Keys of the queue\<close>

lemma proposal_key: "GetProposalQueueKey i = ''proposal_queue:'' @ be64 (unat i)"
  by (simp add: GetProposalQueueKey_def)

lemma proposal_key_inject [simp]: "GetProposalQueueKey i = GetProposalQueueKey j \<longleftrightarrow> i = j"
  using unat_less64 [of i] unat_less64 [of j] by (auto simp: proposal_key be64_inject intro: unsigned_word_eqI [where ?'a = nat])

lemma proposal_key_less: "GetProposalQueueKey i < GetProposalQueueKey j \<longleftrightarrow> i < j"
  using unat_less64 [of i] unat_less64 [of j] by (simp add: proposal_key be64_less_iff word_less_nat_alt)

lemma proposal_key_split [simp]: "SplitProposalQueueKey (GetProposalQueueKey i) = Some i"
  using unat_less64 [of i] by (simp add: SplitProposalQueueKey_def proposal_key be64_roundtrip)

section \<open>Executions do not see the queue\<close>

abbreviation with_queue :: "PlannedProposal kv \<Rightarrow> 'g vm_world \<Rightarrow> 'g vm_world" where
  "with_queue q w \<equiv> w\<lparr>vw_queue := q\<rparr>"

lemma queue_outside:
  "vw_gas_update f (vw_queue_update h w) = vw_queue_update h (vw_gas_update f w)"
  "vw_events_update f' (vw_queue_update h w) = vw_queue_update h (vw_events_update f' w)"
  "vw_store_update f'' (vw_queue_update h w) = vw_queue_update h (vw_store_update f'' w)"
  by (cases w; simp)+

lemma emit_move_events_queue: "emit_move_events G A es (with_queue q w) = map_prod id (with_queue q) (emit_move_events G A es w)"
  by (induction es arbitrary: w) (auto simp: queue_outside split: prod.splits res.splits)

lemma processExecution_queue: "processExecution G A exec (with_queue q w) = map_prod id (with_queue q) (processExecution G A exec w)"
  by (auto simp: processExecution_def Let_def queue_outside emit_move_events_queue split: option.splits prod.splits res.splits)

lemma process_executions_queue:
  "process_executions G A es (with_queue q w) = map_prod id (with_queue q) (process_executions G A es w)"
  by (induction es arbitrary: w) (auto simp: processExecution_queue split: prod.splits res.splits)

lemma deploy_requests_queue: "deploy_requests G V s cs (with_queue q w) = deploy_requests G V s cs w"
  by (induction cs) simp_all

lemma DeployContract_queue:
  "DeployContract G A V msg (with_queue q w) = map_option (map_prod id (with_queue q)) (DeployContract G A V msg w)"
  by (auto simp: DeployContract_def deploy_requests_queue process_executions_queue option.map_comp o_def split: option.splits
      intro!: option.map_cong)

text \<open>Neither do they change the queue or the last identifier.\<close>

definition same_queue :: "'g vm_world \<Rightarrow> 'g vm_world \<Rightarrow> bool" where
  "same_queue w w' \<longleftrightarrow> vw_queue w' = vw_queue w \<and> vw_proposalID w' = vw_proposalID w"

lemma emit_move_events_same: "emit_move_events G A es w = (r, w') \<Longrightarrow> same_queue w w'"
  by (induction es arbitrary: w) (auto simp: same_queue_def split: prod.splits res.splits)

lemma processExecution_same: "processExecution G A exec w = (r, w') \<Longrightarrow> same_queue w w'"
  by (auto simp: processExecution_def Let_def same_queue_def split: option.splits prod.splits res.splits if_splits
      dest: emit_move_events_same)

lemma process_executions_same: "process_executions G A es w = (r, w') \<Longrightarrow> same_queue w w'"
  by (induction es arbitrary: w) (auto simp: same_queue_def split: prod.splits res.splits dest!: processExecution_same)

lemma DeployContract_same: "DeployContract G A V msg w = Some (r, w') \<Longrightarrow> same_queue w w'"
  by (auto simp: DeployContract_def same_queue_def split: option.splits dest!: process_executions_same)

lemma ExecuteScript_same: "ExecuteScript G A V msg w = Some (r, w') \<Longrightarrow> same_queue w w'"
proof -
  assume "ExecuteScript G A V msg w = Some (r, w')"
  then obtain z :: "(vm_error, VMExecuteResponse) res"
    where "(case z of Ok exec \<Rightarrow> processExecution G A exec w | _ \<Rightarrow> (Panic, w)) = (r, w')" by (auto simp: ExecuteScript_def)
  then show ?thesis by (cases z) (auto simp: same_queue_def dest!: processExecution_same)
qed

lemma Vm_NewHandler_same: "Vm_NewHandler G A V m w = Some (r, w') \<Longrightarrow> same_queue w w'"
  by (cases m) (auto simp: Vm_NewHandler_def same_queue_def dest!: DeployContract_same ExecuteScript_same)

section \<open>The iteration\<close>

text \<open>The updates of the standard library one after the other, without the queue.\<close>

definition stdlib_msg :: "StdlibUpdateProposal \<Rightarrow> MsgDeployModule" where
  "stdlib_msg u = \<lparr>md_Signer = StdLibAddress, md_Module = [sp_Code u]\<rparr>"

fun deploy_all ::
  "'g gas_lib \<Rightarrow> (bytes \<Rightarrow> string) \<Rightarrow> vm_server \<Rightarrow> StdlibUpdateProposal list \<Rightarrow> 'g vm_world \<Rightarrow> ((vm_error, unit) res \<times> 'g vm_world) option" where
  "deploy_all G A V [] w = Some (Ok (), w)"
| "deploy_all G A V (u # us) w =
     Option.bind (DeployContract G A V (stdlib_msg u) w) (\<lambda>(r, w'). if r = Panic then Some (Panic, w') else deploy_all G A V us w')"

lemma getStdlibUpdateMsg_ok: "getStdlibUpdateMsg u = Ok (stdlib_msg u)"
  by (simp add: getStdlibUpdateMsg_def stdlib_msg_def MsgDeployModule_ValidateBasic_def StdLibAddress_def)

lemma deploy_all_queue:
  "deploy_all G A V us (with_queue q w) = map_option (map_prod id (with_queue q)) (deploy_all G A V us w)"
  by (induction us arbitrary: w) (auto simp: DeployContract_queue split: option.splits bind_splits)

definition proposal_of :: "PlannedProposal \<Rightarrow> StdlibUpdateProposal" where
  "proposal_of p = (case p of StdlibUpdate u \<Rightarrow> u)"

definition due :: "int \<Rightarrow> PlannedProposal kv \<Rightarrow> PlannedProposal kv" where
  "due h q = filter (\<lambda>e. ShouldExecute h (GetPlan (snd e))) q"

definition stdlib_queue :: "PlannedProposal kv \<Rightarrow> bool" where
  "stdlib_queue q \<longleftrightarrow> (\<forall>e \<in> set q. (\<exists>i. fst e = GetProposalQueueKey i) \<and> (\<exists>u. snd e = StdlibUpdate u))"

lemma requeue:
  "(\<exists>w1. map_option (map_prod id (with_queue q)) x = Some (Ok (), w1) \<and> w' = with_queue q' w1) \<longleftrightarrow>
   (\<exists>w1. x = Some (Ok (), w1) \<and> w' = with_queue q' w1)"
  by (cases x) auto

lemma iterate_proposals_iff:
  "stdlib_queue es \<Longrightarrow>
   iterate_proposals G A V h es w = Some (Ok (), w') \<longleftrightarrow>
   (\<exists>w1. deploy_all G A V (map (proposal_of \<circ> snd) (due h es)) w = Some (Ok (), w1) \<and>
      w' = with_queue (filter (\<lambda>e. fst e \<notin> fst ` set (due h es)) (vw_queue w)) w1)"
proof (induction es arbitrary: w)
  case Nil
  then show ?case by (auto simp: due_def)
next
  case (Cons e es)
  obtain k p where e: "e = (k, p)" by fastforce
  with Cons.prems obtain i u where k: "k = GetProposalQueueKey i" and p: "p = StdlibUpdate u" by (auto simp: stdlib_queue_def)
  have es: "stdlib_queue es" using Cons.prems by (simp add: stdlib_queue_def)
  show ?case
  proof (cases "ShouldExecute h (sp_Plan u)")
    case False
    then show ?thesis using Cons.IH [OF es, of w] by (simp add: e k p execute_proposal_def due_def)
  next
    case True
    show ?thesis
    proof (cases "DeployContract G A V (stdlib_msg u) w")
      case None
      then show ?thesis
        using True by (simp add: e k p execute_proposal_def handleStdlibUpdateProposalExecution_def getStdlibUpdateMsg_ok due_def proposal_of_def)
    next
      case (Some rw)
      obtain r w2 where d: "DeployContract G A V (stdlib_msg u) w = Some (r, w2)" using Some by (cases rw) auto
      have q: "vw_queue w2 = vw_queue w" using DeployContract_same [OF d] by (simp add: same_queue_def)
      let ?w3 = "with_queue (kv_del k (vw_queue w)) w2"
      have x: "execute_proposal G A V h i p w = Some (if r = Panic then (Panic, w2) else (Ok (), ?w3))"
        using True d q by (cases r)
          (simp_all add: p k execute_proposal_def handleStdlibUpdateProposalExecution_def getStdlibUpdateMsg_ok RemoveProposalFromQueue_def)
      have f: "filter (\<lambda>e. fst e \<notin> fst ` set (due h es)) (kv_del k (vw_queue w)) =
          filter (\<lambda>e. fst e \<notin> insert k (fst ` set (due h es))) (vw_queue w)" by (simp add: kv_del_def conj_commute)
      have dd: "map (proposal_of \<circ> snd) (due h (e # es)) = u # map (proposal_of \<circ> snd) (due h es)"
        "fst ` set (due h (e # es)) = insert k (fst ` set (due h es))" using True by (simp_all add: e p due_def proposal_of_def)
      show ?thesis
      proof (cases "r = Panic")
        case True
        then show ?thesis unfolding dd using x d by (simp add: e k)
      next
        case False
        then have "iterate_proposals G A V h (e # es) w = iterate_proposals G A V h es ?w3" using x by (simp add: e k)
        moreover have "deploy_all G A V (u # us) w = deploy_all G A V us w2" for us using d False by simp
        ultimately show ?thesis
          using Cons.IH [OF es, of ?w3] unfolding deploy_all_queue requeue dd by (simp add: f)
      qed
    qed
  qed
qed

section \<open>The steps of the module\<close>

text \<open>
  The module between blocks and at the beginning of a block, with the height of the last block: an accepted governance proposal (fewer than 2 to the 64 of them), a message, a
  new gas meter, and the next block. The server may answer differently every time.
\<close>

inductive vm_step :: "'g gas_lib \<Rightarrow> (bytes \<Rightarrow> string) \<Rightarrow> 'g vm_world \<times> int \<Rightarrow> 'g vm_world \<times> int \<Rightarrow> bool"
  for G :: "'g gas_lib" and A :: "bytes \<Rightarrow> string" where
  step_gov: "\<lbrakk>Vm_NewGovHandler G V h c w = Some (Ok (), w'); vw_proposalID w \<noteq> Some (- 1)\<rbrakk> \<Longrightarrow> vm_step G A (w, h) (w', h)"
| step_msg: "Vm_NewHandler G A V m w = Some (Ok (), w') \<Longrightarrow> vm_step G A (w, h) (w', h)"
| step_meter: "vm_step G A (w, h) (w\<lparr>vw_gas := g\<rparr>, h)"
| step_block: "Vm_BeginBlocker G A V (h + 1) w = Some (Ok (), w') \<Longrightarrow> vm_step G A (w, h) (w', h + 1)"

definition vm_start :: "'g vm_world \<Rightarrow> bool" where
  "vm_start w \<longleftrightarrow> vw_queue w = [] \<and> vw_proposalID w = None"

definition vm_run :: "'g gas_lib \<Rightarrow> (bytes \<Rightarrow> string) \<Rightarrow> 'g vm_world \<Rightarrow> int \<Rightarrow> bool" where
  "vm_run G A w h \<longleftrightarrow> (\<exists>w0 h0. vm_start w0 \<and> 0 \<le> h0 \<and> (vm_step G A)\<^sup>*\<^sup>* (w0, h0) (w, h))"

section \<open>Identifiers\<close>

definition queue_ids :: "'g vm_world \<Rightarrow> nat set" where
  "queue_ids w = {unat i |i. kv_has (GetProposalQueueKey i) (vw_queue w)}"

definition queued :: "'g vm_world \<Rightarrow> nat \<Rightarrow> 'g vm_world \<Rightarrow> bool" where
  "queued w i w' \<longleftrightarrow> vw_proposalID w \<noteq> Some (- 1) \<and> i = unat (getNextProposalID w) \<and> (\<exists>p. w' = addProposalToQueue p w)"

lemma unat_next_proposal:
  "vw_proposalID w \<noteq> Some (- 1) \<Longrightarrow> unat (getNextProposalID w) = next_id (map_option unat (vw_proposalID w))"
proof (cases "vw_proposalID w")
  case (Some i)
  assume "vw_proposalID w \<noteq> Some (- 1)"
  with Some have "1 + i \<noteq> 0" by (metis add_eq_0_iff)
  then have "unat (i + 1) = Suc (unat i)" unfolding add.commute [of i 1] by (rule unatSuc)
  then show ?thesis using Some by (simp add: getNextProposalID_def next_id_def)
qed (simp add: getNextProposalID_def next_id_def)

interpretation vmq: id_registry "\<lambda>w. map_option unat (vw_proposalID w)" queue_ids "\<lambda>w. kv_wf (vw_queue w)" queued
proof (standard, goal_cases)
  case (1 w i w')
  then show ?case by (auto simp: queued_def unat_next_proposal)
next
  case (2 w i w')
  then show ?case by (auto simp: queued_def addProposalToQueue_def Let_def)
next
  case (3 w i w')
  then show ?case by (auto simp: queued_def addProposalToQueue_def Let_def queue_ids_def kv_has_def kv_get_def [symmetric]
      split: if_splits)
next
  case (4 w i w')
  then show ?case by (auto simp: queued_def addProposalToQueue_def Let_def)
qed

section \<open>The invariant\<close>

definition queue_ok :: "int \<Rightarrow> 'g vm_world \<Rightarrow> bool" where
  "queue_ok h w \<longleftrightarrow>
     0 \<le> h \<and> kv_wf (vw_queue w) \<and> stdlib_queue (vw_queue w) \<and> ids_bounded (map_option unat (vw_proposalID w)) (queue_ids w) \<and>
     (\<forall>e \<in> set (vw_queue w). h < pl_Height (GetPlan (snd e)))"

lemma gov_accepted:
  assumes "Vm_NewGovHandler G V h c w = Some (Ok (), w')"
  shows "\<exists>u. vc_StdlibUpdate c = Some u \<and> h < pl_Height (sp_Plan u) \<and> w' = addProposalToQueue (StdlibUpdate u) w"
proof -
  from assms obtain u where u: "vc_StdlibUpdate c = Some u" "handleUpdateStdlibProposalDryRun G V h u w = Some (Ok (), w')"
    by (auto simp: Vm_NewGovHandler_def split: if_splits option.splits)
  then obtain z :: "(vm_error, unit) res"
    where "(case z of Ok _ \<Rightarrow> ScheduleProposal h (StdlibUpdate u) w | Err e \<Rightarrow> (Err e, w) | Panic \<Rightarrow> (Panic, w)) = (Ok (), w')"
    by (auto simp: handleUpdateStdlibProposalDryRun_def getStdlibUpdateMsg_ok)
  with u(1) show ?thesis by (cases z) (auto simp: ScheduleProposal_def split: if_splits)
qed

lemma queue_ok_add:
  assumes "queue_ok h w" and "vw_proposalID w \<noteq> Some (- 1)" and "h < pl_Height (sp_Plan u)"
  shows "queue_ok h (addProposalToQueue (StdlibUpdate u) w)"
proof -
  let ?w = "addProposalToQueue (StdlibUpdate u) w"
  have q: "queued w (unat (getNextProposalID w)) ?w" using assms(2) by (auto simp: queued_def)
  have e: "e = (GetProposalQueueKey (getNextProposalID w), StdlibUpdate u) \<or> e \<in> set (vw_queue w)" if "e \<in> set (vw_queue ?w)" for e
  proof -
    have "kv_get (fst e) (vw_queue ?w) = Some (snd e)" using that assms(1) by (subst kv_get_iff) (simp_all add: queue_ok_def addProposalToQueue_def Let_def)
    then show ?thesis using kv_get_mem [of "fst e" "vw_queue w" "snd e"]
      by (cases e) (auto simp: addProposalToQueue_def Let_def split: if_splits)
  qed
  show ?thesis
    using assms vmq.created_bounded [OF _ _ q] vmq.created_inv [OF _ q] e
    by (fastforce simp: queue_ok_def stdlib_queue_def)
qed

lemma queue_due:
  assumes "queue_ok h w"
  shows "due (h + 1) (vw_queue w) = filter (\<lambda>e. pl_Height (GetPlan (snd e)) = h + 1) (vw_queue w)"
  unfolding due_def using assms by (intro filter_cong) (auto simp: queue_ok_def ShouldExecute_def)

lemma queue_not_due:
  assumes "queue_ok h w"
  shows "filter (\<lambda>e. fst e \<notin> fst ` set (due (h + 1) (vw_queue w))) (vw_queue w) =
    filter (\<lambda>e. pl_Height (GetPlan (snd e)) \<noteq> h + 1) (vw_queue w)"
proof (intro filter_cong refl)
  fix e assume e: "e \<in> set (vw_queue w)"
  have "inj_on fst (set (vw_queue w))" using assms kv_wf_distinct by (auto simp: queue_ok_def distinct_map)
  with e have "fst e \<in> fst ` set (due (h + 1) (vw_queue w)) \<longleftrightarrow> e \<in> set (due (h + 1) (vw_queue w))"
    unfolding queue_due [OF assms] by (auto simp: inj_on_def)
  with e show "fst e \<notin> fst ` set (due (h + 1) (vw_queue w)) \<longleftrightarrow> pl_Height (GetPlan (snd e)) \<noteq> h + 1"
    unfolding queue_due [OF assms] by simp
qed

lemma begin_block_iff:
  assumes "queue_ok h w"
  shows "Vm_BeginBlocker G A V (h + 1) w = Some (Ok (), w') \<longleftrightarrow>
    (\<exists>w1. deploy_all G A V (map (proposal_of \<circ> snd) (filter (\<lambda>e. pl_Height (GetPlan (snd e)) = h + 1) (vw_queue w))) w = Some (Ok (), w1) \<and>
       w' = with_queue (filter (\<lambda>e. pl_Height (GetPlan (snd e)) \<noteq> h + 1) (vw_queue w)) w1)"
  using iterate_proposals_iff [of "vw_queue w" G A V "h + 1" w w'] assms
  unfolding Vm_BeginBlocker_def unfolding queue_not_due [OF assms] unfolding queue_due [OF assms] by (simp add: queue_ok_def)

lemma deploy_all_same: "deploy_all G A V us w = Some (r, w') \<Longrightarrow> same_queue w w'"
proof (induction us arbitrary: w)
  case (Cons u us)
  then obtain r1 w1 where d: "DeployContract G A V (stdlib_msg u) w = Some (r1, w1)"
    and k: "r1 = Panic \<and> w' = w1 \<or> deploy_all G A V us w1 = Some (r, w')" by (auto simp: bind_eq_Some_conv split: if_splits)
  from Cons.IH [of w1] k DeployContract_same [OF d] show ?case by (auto simp: same_queue_def)
qed (simp add: same_queue_def)

lemma queue_ok_block:
  assumes "queue_ok h w" and "Vm_BeginBlocker G A V (h + 1) w = Some (Ok (), w')"
  shows "queue_ok (h + 1) w'"
proof -
  from assms(2) obtain w1 where "same_queue w w1"
    and w': "w' = with_queue (filter (\<lambda>e. pl_Height (GetPlan (snd e)) \<noteq> h + 1) (vw_queue w)) w1"
    unfolding begin_block_iff [OF assms(1)] by (auto dest: deploy_all_same)
  then have q: "vw_queue w' = filter (\<lambda>e. pl_Height (GetPlan (snd e)) \<noteq> h + 1) (vw_queue w)" "vw_proposalID w' = vw_proposalID w"
    by (simp_all add: same_queue_def)
  have "kv_wf (vw_queue w')" using assms(1) unfolding q queue_ok_def kv_wf_def
    by (auto simp: sorted_wrt_map intro: sorted_wrt_filter)
  moreover have "queue_ids w' \<subseteq> queue_ids w"
  proof -
    have "fst ` set (vw_queue w') \<subseteq> fst ` set (vw_queue w)" by (auto simp: q)
    then show ?thesis unfolding queue_ids_def kv_has_def map_of_eq_None_iff by blast
  qed
  ultimately show ?thesis
    using assms(1) ids_bounded_subset by (fastforce simp: queue_ok_def stdlib_queue_def q)
qed

lemma vm_run_queue_ok: "vm_run G A w h \<Longrightarrow> queue_ok h w"
proof -
  assume "vm_run G A w h"
  then obtain w0 h0 where s: "vm_start w0" "0 \<le> h0" and r: "(vm_step G A)\<^sup>*\<^sup>* (w0, h0) (w, h)" by (auto simp: vm_run_def)
  have "queue_ok (snd x) (fst x)" if "(vm_step G A)\<^sup>*\<^sup>* (w0, h0) x" for x
    using that
  proof (induction rule: rtranclp_induct)
    case base
    show ?case using s by (simp add: queue_ok_def vm_start_def kv_wf_def stdlib_queue_def ids_bounded_def queue_ids_def kv_has_def)
  next
    case (step y z)
    from step.hyps(2) step.IH show ?case
    proof cases
      case (step_gov V h c w w')
      with step.IH gov_accepted [OF step_gov(3)] show ?thesis by (auto intro: queue_ok_add)
    next
      case (step_msg V m w w' h)
      with step.IH Vm_NewHandler_same [OF step_msg(3)] show ?thesis by (simp add: queue_ok_def same_queue_def queue_ids_def)
    next
      case (step_meter w h g)
      with step.IH show ?thesis by (simp add: queue_ok_def queue_ids_def)
    next
      case (step_block V h w w')
      with step.IH show ?thesis by (auto intro: queue_ok_block)
    qed
  qed
  from this [OF r] show ?thesis by simp
qed

section \<open>The proposals are executed when planned\<close>

lemma queue_ids_sorted:
  assumes "queue_ok h w"
  shows "sorted_wrt (<) (map (\<lambda>e. the (SplitProposalQueueKey (fst e))) (vw_queue w))"
proof -
  have "sorted_wrt (\<lambda>e e'. fst e < fst e') (vw_queue w)" using assms by (simp add: queue_ok_def kv_wf_def sorted_wrt_map)
  then have "sorted_wrt (\<lambda>e e'. the (SplitProposalQueueKey (fst e)) < the (SplitProposalQueueKey (fst e'))) (vw_queue w)"
  proof (rule sorted_wrt_mono_rel [rotated])
    fix e e' assume "e \<in> set (vw_queue w)" "e' \<in> set (vw_queue w)" "fst e < fst e'"
    moreover from this assms obtain i j where "fst e = GetProposalQueueKey i" "fst e' = GetProposalQueueKey j"
      unfolding queue_ok_def stdlib_queue_def by metis
    ultimately show "the (SplitProposalQueueKey (fst e)) < the (SplitProposalQueueKey (fst e'))" by (simp add: proposal_key_less)
  qed
  then show ?thesis by (simp add: sorted_wrt_map)
qed

definition vm_responsive :: "'g gas_lib \<Rightarrow> (bytes \<Rightarrow> string) \<Rightarrow> vm_server \<Rightarrow> bool" where
  "vm_responsive G A V \<longleftrightarrow>
     (\<forall>st m. \<exists>exec. sendExecuteReq V st (Some m) None = Some (Ok exec) \<and> (\<forall>w. fst (processExecution G A exec w) = Ok ()))"

lemma deploy_all_responsive: "vm_responsive G A V \<Longrightarrow> \<exists>w'. deploy_all G A V us w = Some (Ok (), w')"
proof (induction us arbitrary: w)
  case (Cons u us)
  let ?m = "NewDeployRequest G (vw_gas w) StdLibAddress (sp_Code u)"
  from Cons.prems obtain exec where x: "sendExecuteReq V (vw_store w) (Some ?m) None = Some (Ok exec)" "fst (processExecution G A exec w) = Ok ()"
    unfolding vm_responsive_def by blast
  obtain w1 where "processExecution G A exec w = (Ok (), w1)" using x(2) by (cases "processExecution G A exec w") auto
  with x(1) have "DeployContract G A V (stdlib_msg u) w = Some (Ok (), w1)" by (simp add: DeployContract_def stdlib_msg_def)
  with Cons.IH [OF Cons.prems] show ?case by simp
qed simp

text \<open>
  C15. Planned proposals (\<open>NewGovHandler\<close>, \<open>BeginBlocker\<close>), liveness: in every reachable state the queue holds only proposals planned for a later block, in the order of their
  identifiers; an accepted proposal is added under an identifier that was not in use. The beginning of the next block executes exactly the
  proposals planned for it, one after the other in the order of their identifiers, and removes exactly these from the queue, so every accepted
  proposal is executed once, in its block. The block succeeds whenever the virtual machine answers with answers the keeper can process.
\<close>

theorem vm_proposals:
  assumes "vm_run G A w h"
  shows "(\<forall>e \<in> set (vw_queue w). h < pl_Height (GetPlan (snd e))) \<and>
    sorted_wrt (<) (map (\<lambda>e. the (SplitProposalQueueKey (fst e))) (vw_queue w)) \<and>
    (\<forall>V c w'. Vm_NewGovHandler G V h c w = Some (Ok (), w') \<and> vw_proposalID w \<noteq> Some (- 1) \<longrightarrow>
       (\<exists>u. vc_StdlibUpdate c = Some u \<and> kv_get (GetProposalQueueKey (getNextProposalID w)) (vw_queue w) = None \<and>
          vw_queue w' = kv_set (GetProposalQueueKey (getNextProposalID w)) (StdlibUpdate u) (vw_queue w))) \<and>
    (\<forall>V w'. Vm_BeginBlocker G A V (h + 1) w = Some (Ok (), w') \<longleftrightarrow>
       (\<exists>w1. deploy_all G A V (map (proposal_of \<circ> snd) (filter (\<lambda>e. pl_Height (GetPlan (snd e)) = h + 1) (vw_queue w))) w = Some (Ok (), w1) \<and>
          w' = w1\<lparr>vw_queue := filter (\<lambda>e. pl_Height (GetPlan (snd e)) \<noteq> h + 1) (vw_queue w)\<rparr>)) \<and>
    (\<forall>V. vm_responsive G A V \<longrightarrow> (\<exists>w'. Vm_BeginBlocker G A V (h + 1) w = Some (Ok (), w')))"
proof (intro conjI allI impI)
  note ok = vm_run_queue_ok [OF assms]
  show "\<forall>e \<in> set (vw_queue w). h < pl_Height (GetPlan (snd e))" using ok by (simp add: queue_ok_def)
  show "sorted_wrt (<) (map (\<lambda>e. the (SplitProposalQueueKey (fst e))) (vw_queue w))" by (rule queue_ids_sorted [OF ok])
  show b: "Vm_BeginBlocker G A V (h + 1) w = Some (Ok (), w') \<longleftrightarrow>
       (\<exists>w1. deploy_all G A V (map (proposal_of \<circ> snd) (filter (\<lambda>e. pl_Height (GetPlan (snd e)) = h + 1) (vw_queue w))) w = Some (Ok (), w1) \<and>
          w' = w1\<lparr>vw_queue := filter (\<lambda>e. pl_Height (GetPlan (snd e)) \<noteq> h + 1) (vw_queue w)\<rparr>)" for V w'
    by (rule begin_block_iff [OF ok])
  show "\<exists>w'. Vm_BeginBlocker G A V (h + 1) w = Some (Ok (), w')" if "vm_responsive G A V" for V
    unfolding b using deploy_all_responsive [OF that] by blast
  fix V c w'
  assume a: "Vm_NewGovHandler G V h c w = Some (Ok (), w') \<and> vw_proposalID w \<noteq> Some (- 1)"
  then obtain u where u: "vc_StdlibUpdate c = Some u" "w' = addProposalToQueue (StdlibUpdate u) w" using gov_accepted by blast
  have "queued w (unat (getNextProposalID w)) w'" using a u(2) by (auto simp: queued_def)
  from vmq.created_fresh [OF _ _ this] ok have "kv_get (GetProposalQueueKey (getNextProposalID w)) (vw_queue w) = None"
    by (auto simp: queue_ok_def queue_ids_def kv_has_def kv_get_def)
  with u show "\<exists>u. vc_StdlibUpdate c = Some u \<and> kv_get (GetProposalQueueKey (getNextProposalID w)) (vw_queue w) = None \<and>
      vw_queue w' = kv_set (GetProposalQueueKey (getNextProposalID w)) (StdlibUpdate u) (vw_queue w)"
    by (auto simp: addProposalToQueue_def Let_def)
qed

text \<open>A proposal planned for block 2, accepted before block 1.\<close>

definition ex_update :: StdlibUpdateProposal where
  "ex_update = \<lparr>sp_Url = ''u'', sp_UpdateDescription = ''d'', sp_Plan = \<lparr>pl_Height = 2\<rparr>, sp_Code = ''c''\<rparr>"

definition ex_gov_world :: "unit vm_world" where
  "ex_gov_world = \<lparr>vw_gas = (), vw_events = [], vw_store = [], vw_queue = [], vw_proposalID = None, vw_genInit = True\<rparr>"

definition ex_gov_next :: "unit vm_world" where
  "ex_gov_next = addProposalToQueue (StdlibUpdate ex_update) ex_gov_world"

lemma ex_responsive: "vm_responsive DumbGasMeter (\<lambda>a. a) ex_server"
  unfolding vm_responsive_def ex_server_answers
  by (auto simp: processExecution_def DumbGasMeter_def ex_exec_def NewContractEvents_def exec_kept_def NewMoveEvent_def
      StringifyEventTypePanic_def StringifyEventType_def nested_vector_def event_charge_def Let_def)

lemma ex_gov_next_queue: "vw_queue ex_gov_next = [(GetProposalQueueKey 0, StdlibUpdate ex_update)]" "vw_proposalID ex_gov_next = Some 0"
  by (simp_all add: ex_gov_next_def addProposalToQueue_def ex_gov_world_def getNextProposalID_def Let_def)

lemma ex_gov_accepted:
  "Vm_NewGovHandler DumbGasMeter ex_server 0 \<lparr>vc_ProposalRoute = ''vm'', vc_StdlibUpdate = Some ex_update\<rparr> ex_gov_world = Some (Ok (), ex_gov_next)"
  by (simp add: Vm_NewGovHandler_def Vm_GovRouterKey_def handleUpdateStdlibProposalDryRun_def getStdlibUpdateMsg_ok DeployContractDryRun_def
      stdlib_msg_def ex_server_answers ex_exec_facts ScheduleProposal_def ex_update_def ex_gov_next_def)

lemma ex_gov_run: "vm_run DumbGasMeter (\<lambda>a. a) ex_gov_next 1"
proof -
  let ?s = "vm_step DumbGasMeter (\<lambda>a. a)"
  have "?s (ex_gov_world, 0) (ex_gov_next, 0)" by (rule step_gov [OF ex_gov_accepted]) (simp add: ex_gov_world_def)
  moreover have "Vm_BeginBlocker DumbGasMeter (\<lambda>a. a) ex_server (0 + 1) ex_gov_next = Some (Ok (), ex_gov_next)"
    by (simp add: Vm_BeginBlocker_def ex_gov_next_queue execute_proposal_def ShouldExecute_def ex_update_def)
  then have "?s (ex_gov_next, 0) (ex_gov_next, 0 + 1)" by (rule step_block)
  ultimately have "?s\<^sup>*\<^sup>* (ex_gov_world, 0) (ex_gov_next, 1)" by auto
  then show ?thesis unfolding vm_run_def by (intro exI [of _ ex_gov_world] exI [of _ 0]) (simp add: vm_start_def ex_gov_world_def)
qed

theorem vm_proposals_witness:
  "vw_queue ex_gov_next \<noteq> [] \<and>
   (\<exists>w1 w'. deploy_all DumbGasMeter (\<lambda>a. a) ex_server [ex_update] ex_gov_next = Some (Ok (), w1) \<and>
      Vm_BeginBlocker DumbGasMeter (\<lambda>a. a) ex_server 2 ex_gov_next = Some (Ok (), w') \<and> w' = w1\<lparr>vw_queue := []\<rparr>)"
proof -
  note p = vm_proposals [OF ex_gov_run, unfolded ex_gov_next_queue]
  have h: "pl_Height (GetPlan (StdlibUpdate ex_update)) = 2" by (simp add: ex_update_def)
  from p ex_responsive obtain w' where w': "Vm_BeginBlocker DumbGasMeter (\<lambda>a. a) ex_server 2 ex_gov_next = Some (Ok (), w')" by auto
  with p h obtain w1 where "deploy_all DumbGasMeter (\<lambda>a. a) ex_server [ex_update] ex_gov_next = Some (Ok (), w1)" "w' = w1\<lparr>vw_queue := []\<rparr>"
    by (auto simp: proposal_of_def)
  with w' show ?thesis by (simp add: ex_gov_next_queue)
qed

end
