(* ===== verification/VMAuth.thy ===== *)
theory VMAuth
  imports CCStorage
begin

text \<open>
  Module \<open>x/vmauth\<close>: the account keeper of the SDK, wrapped so that the coins of an account and the balance resources of the virtual machine agree. The
  keeper of the SDK and its operations on coins are parameters.
\<close>

section \<open>Accounts\<close>

text \<open>The data of an account; \<open>acc_Module\<close> are the name and the permissions of a module account.\<close>

record Account =
  acc_Address :: bytes
  acc_Coins :: "coin list"
  acc_PubKey :: "bytes option"
  acc_Number :: "64 word"
  acc_Sequence :: "64 word"
  acc_Module :: "(string \<times> string list) option"

text \<open>
  The account keeper of the SDK over its store \<open>'a\<close> and the operations on coins. \<open>au_New\<close> is \<open>NewAccountWithAddress\<close>, which draws the next account number;
  \<open>au_All\<close> are the accounts in the order of the iteration. \<open>None\<close> is an error of the setters and a panic of the operations on coins.
\<close>

record 'a auth_lib =
  au_Get :: "bytes \<Rightarrow> 'a \<Rightarrow> Account option"
  au_Set :: "Account \<Rightarrow> 'a \<Rightarrow> 'a"
  au_Remove :: "Account \<Rightarrow> 'a \<Rightarrow> 'a"
  au_New :: "bytes \<Rightarrow> 'a \<Rightarrow> Account \<times> 'a"
  au_All :: "'a \<Rightarrow> Account list"
  au_SetCoins :: "coin list \<Rightarrow> Account \<Rightarrow> Account option"
  au_SetPubKey :: "bytes \<Rightarrow> Account \<Rightarrow> Account option"
  au_SetSequence :: "64 word \<Rightarrow> Account \<Rightarrow> Account option"
  coins_IsEqual :: "coin list \<Rightarrow> coin list \<Rightarrow> bool option"
  coins_New :: "coin \<Rightarrow> coin list option"
  coins_Sub :: "coin list \<Rightarrow> coin list \<Rightarrow> coin list option"
  coins_Add :: "coin list \<Rightarrow> coin \<Rightarrow> coin list option"

definition auth_laws :: "'a auth_lib \<Rightarrow> bool" where
  "auth_laws K \<longleftrightarrow>
     (\<forall>a acc s. au_Get K a (au_Set K acc s) = (if a = acc_Address acc then Some acc else au_Get K a s)) \<and>
     (\<forall>a acc s. au_Get K a (au_Remove K acc s) = (if a = acc_Address acc then None else au_Get K a s)) \<and>
     (\<forall>a b s. au_Get K b (snd (au_New K a s)) = au_Get K b s \<and> acc_Address (fst (au_New K a s)) = a) \<and>
     (\<forall>a acc s. au_Get K a s = Some acc \<longrightarrow> acc_Address acc = a) \<and>
     (\<forall>cs acc. au_SetCoins K cs acc = Some (acc\<lparr>acc_Coins := cs\<rparr>)) \<and>
     (\<forall>cs. coins_IsEqual K cs cs = Some True) \<and>
     (\<forall>cs ds. coins_IsEqual K cs ds = Some True \<longrightarrow> mset cs = mset ds)"

record 'a va_state =
  va_ccs :: ccs_state
  va_auth :: 'a

datatype va_error =
    VaErrUnknownAddress | VaErrUnknownQuery | VaErrSetCoins | VaErrAddress | VaErrParseCoins | VaErrDenom | VaErrRemoveRename

section \<open>Keeper\<close>

text \<open>The supply of the coins of an account that the keeper of the SDK does not know.\<close>

fun new_account_supply :: "sdk \<Rightarrow> vm_lib \<Rightarrow> coin list \<Rightarrow> (ccs_state, va_error, unit) op" where
  "new_account_supply S L [] s = (Ok (), s)"
| "new_account_supply S L (coin # coins) s =
     (case IncreaseCurrencySupply S L coin s of
        (Ok _, s') \<Rightarrow> new_account_supply S L coins s'
      | (_, s') \<Rightarrow> (Panic, s'))"

definition VA_SetAccount :: "sdk \<Rightarrow> vm_lib \<Rightarrow> 'a auth_lib \<Rightarrow> Account \<Rightarrow> ('a va_state, va_error, unit) op" where
  "VA_SetAccount S L K acc w =
     (case (if au_Get K (acc_Address acc) (va_auth w) = None then new_account_supply S L (acc_Coins acc) (va_ccs w)
            else (Ok (), va_ccs w)) of
        (Ok _, s1) \<Rightarrow>
          (case SetAccountBalanceResources S L (acc_Address acc) (acc_Coins acc) s1 of
             (Ok _, s2) \<Rightarrow> (Ok (), \<lparr>va_ccs = s2, va_auth = au_Set K acc (va_auth w)\<rparr>)
           | (_, s2) \<Rightarrow> (Panic, w\<lparr>va_ccs := s2\<rparr>))
      | (_, s1) \<Rightarrow> (Panic, w\<lparr>va_ccs := s1\<rparr>))"

text \<open>An account read, after its coins were set to the balances of the virtual machine.\<close>

definition set_real_coins ::
  "sdk \<Rightarrow> vm_lib \<Rightarrow> 'a auth_lib \<Rightarrow> coin list \<Rightarrow> Account \<Rightarrow> ('a va_state, va_error, Account option) op" where
  "set_real_coins S L K realCoins acc w =
     (case au_SetCoins K realCoins acc of
        None \<Rightarrow> (Panic, w)
      | Some acc' \<Rightarrow>
          (case VA_SetAccount S L K acc' w of
             (Ok _, w') \<Rightarrow> (Ok (Some acc'), w')
           | (_, w') \<Rightarrow> (Panic, w')))"

definition VA_GetAccount :: "sdk \<Rightarrow> vm_lib \<Rightarrow> 'a auth_lib \<Rightarrow> bytes \<Rightarrow> ('a va_state, va_error, Account option) op" where
  "VA_GetAccount S L K addr w =
     (case GetAccountBalanceResources L (va_ccs w) addr of
        Ok balances \<Rightarrow>
          if 0 < length balances then
            (case Balances_Coins S balances of
               None \<Rightarrow> (Panic, w)
             | Some realCoins \<Rightarrow>
                 (case au_Get K addr (va_auth w) of
                    Some acc \<Rightarrow>
                      (case coins_IsEqual K realCoins (acc_Coins acc) of
                         None \<Rightarrow> (Panic, w)
                       | Some True \<Rightarrow> (Ok (Some acc), w)
                       | Some False \<Rightarrow> set_real_coins S L K realCoins acc w)
                  | None \<Rightarrow>
                      (case au_New K addr (va_auth w) of
                         (acc, au) \<Rightarrow> set_real_coins S L K realCoins acc (w\<lparr>va_auth := au\<rparr>))))
          else (Ok (au_Get K addr (va_auth w)), w)
      | _ \<Rightarrow> (Panic, w))"

definition VA_GetAllAccounts :: "'a auth_lib \<Rightarrow> 'a va_state \<Rightarrow> Account list" where
  "VA_GetAllAccounts K w = au_All K (va_auth w)"

definition VA_RemoveAccount :: "vm_lib \<Rightarrow> 'a auth_lib \<Rightarrow> Account \<Rightarrow> 'a va_state \<Rightarrow> 'a va_state" where
  "VA_RemoveAccount L K acc w =
     \<lparr>va_ccs = RemoveAccountBalanceResources L (acc_Address acc) (va_ccs w), va_auth = au_Remove K acc (va_auth w)\<rparr>"

text \<open>The iteration with a handler that may stop it; the handlers of the module dereference the account they get.\<close>

fun iterate_accounts ::
  "sdk \<Rightarrow> vm_lib \<Rightarrow> 'a auth_lib \<Rightarrow> (Account \<Rightarrow> ('a va_state, va_error, bool) op) \<Rightarrow> Account list \<Rightarrow> ('a va_state, va_error, unit) op" where
  "iterate_accounts S L K cb [] w = (Ok (), w)"
| "iterate_accounts S L K cb (account # accounts) w =
     (case VA_GetAccount S L K (acc_Address account) w of
        (Ok (Some acc), w1) \<Rightarrow>
          (case cb acc w1 of
             (Ok stop, w2) \<Rightarrow> if stop then (Ok (), w2) else iterate_accounts S L K cb accounts w2
           | (Err e, w2) \<Rightarrow> (Err e, w2)
           | (Panic, w2) \<Rightarrow> (Panic, w2))
      | (Ok None, w1) \<Rightarrow> (Panic, w1)
      | (_, w1) \<Rightarrow> (Panic, w1))"

definition VA_IterateAccounts ::
  "sdk \<Rightarrow> vm_lib \<Rightarrow> 'a auth_lib \<Rightarrow> (Account \<Rightarrow> ('a va_state, va_error, bool) op) \<Rightarrow> ('a va_state, va_error, unit) op" where
  "VA_IterateAccounts S L K cb w = iterate_accounts S L K cb (au_All K (va_auth w)) w"

definition GetSignerAcc :: "sdk \<Rightarrow> vm_lib \<Rightarrow> 'a auth_lib \<Rightarrow> bytes \<Rightarrow> ('a va_state, va_error, Account) op" where
  "GetSignerAcc S L K addr w =
     (case VA_GetAccount S L K addr w of
        (Ok (Some acc), w') \<Rightarrow> (Ok acc, w')
      | (Ok None, w') \<Rightarrow> (Err VaErrUnknownAddress, w')
      | (Err e, w') \<Rightarrow> (Err e, w')
      | (Panic, w') \<Rightarrow> (Panic, w'))"

text \<open>The querier: the endpoint and the address of the request.\<close>

definition VA_NewQuerier :: "sdk \<Rightarrow> vm_lib \<Rightarrow> 'a auth_lib \<Rightarrow> string \<Rightarrow> bytes \<Rightarrow> ('a va_state, va_error, Account) op" where
  "VA_NewQuerier S L K path addr w =
     (if path = ''account'' then GetSignerAcc S L K addr w else (Err VaErrUnknownQuery, w))"

section \<open>Squash\<close>

record addAccountOperation =
  aa_Address :: bytes
  aa_Coins :: "coin list"

record accountBalanceOperation =
  ab_Denom :: string
  ab_Remove :: bool
  ab_RenameTo :: string

record va_SquashOptions =
  addAccountOps :: "addAccountOperation list"
  accountBalanceOps :: "accountBalanceOperation list"

text \<open>\<open>bech32\<close> and \<open>parse\<close> are \<open>AccAddressFromBech32\<close> and \<open>ParseCoins\<close> of the SDK.\<close>

definition SetAddAccountOp ::
  "(string \<Rightarrow> bytes option) \<Rightarrow> (string \<Rightarrow> coin list option) \<Rightarrow> string \<Rightarrow> string \<Rightarrow> (va_SquashOptions, va_error, unit) op" where
  "SetAddAccountOp bech32 parse addressRaw coinsRaw opts =
     (case bech32 addressRaw of
        None \<Rightarrow> (Err VaErrAddress, opts)
      | Some addr \<Rightarrow>
          (case parse coinsRaw of
             None \<Rightarrow> (Err VaErrParseCoins, opts)
           | Some coins \<Rightarrow> (Ok (), opts\<lparr>addAccountOps := addAccountOps opts @ [\<lparr>aa_Address = addr, aa_Coins = coins\<rparr>]\<rparr>)))"

definition SetAccountBalanceOp :: "sdk \<Rightarrow> string \<Rightarrow> bool \<Rightarrow> string \<Rightarrow> (va_SquashOptions, va_error, unit) op" where
  "SetAccountBalanceOp S denomRaw remove renameToRaw opts =
     (if remove \<and> renameToRaw \<noteq> [] then (Err VaErrRemoveRename, opts)
      else if \<not> denom_valid S denomRaw then (Err VaErrDenom, opts)
      else if renameToRaw \<noteq> [] \<and> \<not> denom_valid S renameToRaw then (Err VaErrDenom, opts)
      else (Ok (), opts\<lparr>accountBalanceOps := accountBalanceOps opts @ [\<lparr>ab_Denom = denomRaw, ab_Remove = remove, ab_RenameTo = renameToRaw\<rparr>]\<rparr>))"

definition VA_NewEmptySquashOptions :: va_SquashOptions where
  "VA_NewEmptySquashOptions = \<lparr>addAccountOps = [], accountBalanceOps = []\<rparr>"

fun add_accounts :: "sdk \<Rightarrow> vm_lib \<Rightarrow> 'a auth_lib \<Rightarrow> addAccountOperation list \<Rightarrow> ('a va_state, va_error, unit) op" where
  "add_accounts S L K [] w = (Ok (), w)"
| "add_accounts S L K (accOpt # ops) w =
     (case au_New K (aa_Address accOpt) (va_auth w) of
        (acc, au) \<Rightarrow>
          (case au_SetCoins K (aa_Coins accOpt) acc of
             None \<Rightarrow> (Err VaErrSetCoins, w\<lparr>va_auth := au\<rparr>)
           | Some acc' \<Rightarrow>
               (case VA_SetAccount S L K acc' (w\<lparr>va_auth := au\<rparr>) of
                  (Ok _, w') \<Rightarrow> add_accounts S L K ops w'
                | (r, w') \<Rightarrow> (r, w'))))"

text \<open>
  The coin of the denomination in the coins of the account, zero if there is none; the handlers of the two operations (an error of
  \<open>SetCoins\<close> stops the iteration and is returned after it).
\<close>

definition found_coin :: "sdk \<Rightarrow> string \<Rightarrow> coin list \<Rightarrow> coin option" where
  "found_coin S denom coins =
     map_option (\<lambda>c. (fst c, case map_of coins denom of Some v \<Rightarrow> v | None \<Rightarrow> snd c)) (new_coin S denom 0)"

definition store_coins :: "sdk \<Rightarrow> vm_lib \<Rightarrow> 'a auth_lib \<Rightarrow> coin list option \<Rightarrow> Account \<Rightarrow> ('a va_state, va_error, bool) op" where
  "store_coins S L K coins acc w =
     (case coins of
        None \<Rightarrow> (Panic, w)
      | Some cs \<Rightarrow>
          (case au_SetCoins K cs acc of
             None \<Rightarrow> (Err VaErrSetCoins, w)
           | Some acc' \<Rightarrow>
               (case VA_SetAccount S L K acc' w of
                  (Ok _, w') \<Rightarrow> (Ok False, w')
                | (Err e, w') \<Rightarrow> (Err e, w')
                | (Panic, w') \<Rightarrow> (Panic, w'))))"

definition remove_coins :: "sdk \<Rightarrow> 'a auth_lib \<Rightarrow> accountBalanceOperation \<Rightarrow> coin list \<Rightarrow> coin list option" where
  "remove_coins S K bop coins =
     Option.bind (found_coin S (ab_Denom bop) coins) (\<lambda>coinToDel.
     Option.bind (coins_New K coinToDel) (coins_Sub K coins))"

definition rename_coins :: "sdk \<Rightarrow> 'a auth_lib \<Rightarrow> accountBalanceOperation \<Rightarrow> coin list \<Rightarrow> coin list option" where
  "rename_coins S K bop coins =
     Option.bind (found_coin S (ab_Denom bop) coins) (\<lambda>oldCoin.
     Option.bind (new_coin S (ab_RenameTo bop) (snd oldCoin)) (\<lambda>newCoin.
     Option.bind (coins_New K oldCoin) (\<lambda>old.
     Option.bind (coins_Sub K coins old) (\<lambda>rest. coins_Add K rest newCoin))))"

fun balance_ops ::
  "sdk \<Rightarrow> vm_lib \<Rightarrow> 'a auth_lib \<Rightarrow> (accountBalanceOperation \<Rightarrow> bool) \<Rightarrow> (accountBalanceOperation \<Rightarrow> coin list \<Rightarrow> coin list option) \<Rightarrow>
   accountBalanceOperation list \<Rightarrow> ('a va_state, va_error, unit) op" where
  "balance_ops S L K sel f [] w = (Ok (), w)"
| "balance_ops S L K sel f (bop # ops) w =
     (if sel bop then
        (case VA_IterateAccounts S L K (\<lambda>acc. store_coins S L K (f bop (acc_Coins acc)) acc) w of
           (Ok _, w') \<Rightarrow> balance_ops S L K sel f ops w'
         | (r, w') \<Rightarrow> (r, w'))
      else balance_ops S L K sel f ops w)"

definition VA_PrepareForZeroHeight :: "sdk \<Rightarrow> vm_lib \<Rightarrow> 'a auth_lib \<Rightarrow> va_SquashOptions \<Rightarrow> ('a va_state, va_error, unit) op" where
  "VA_PrepareForZeroHeight S L K opts w =
     (case add_accounts S L K (addAccountOps opts) w of
        (Ok _, w1) \<Rightarrow>
          (case balance_ops S L K ab_Remove (remove_coins S K) (accountBalanceOps opts) w1 of
             (Ok _, w2) \<Rightarrow> balance_ops S L K (\<lambda>bop. ab_RenameTo bop \<noteq> []) (rename_coins S K) (accountBalanceOps opts) w2
           | (r, w2) \<Rightarrow> (r, w2))
      | (r, w1) \<Rightarrow> (r, w1))"

section \<open>A reference account keeper\<close>

text \<open>An association list by address, with the account numbers counted; coins as lists of amounts by denomination.\<close>

definition ref_auth :: "(Account list \<times> 64 word) auth_lib" where
  "ref_auth = \<lparr>
     au_Get = (\<lambda>a s. List.find (\<lambda>x. acc_Address x = a) (fst s)),
     au_Set = (\<lambda>acc s. (acc # filter (\<lambda>x. acc_Address x \<noteq> acc_Address acc) (fst s), snd s)),
     au_Remove = (\<lambda>acc s. (filter (\<lambda>x. acc_Address x \<noteq> acc_Address acc) (fst s), snd s)),
     au_New = (\<lambda>a s. (\<lparr>acc_Address = a, acc_Coins = [], acc_PubKey = None, acc_Number = snd s, acc_Sequence = 0, acc_Module = None\<rparr>, (fst s, snd s + 1))),
     au_All = fst,
     au_SetCoins = (\<lambda>cs acc. Some (acc\<lparr>acc_Coins := cs\<rparr>)),
     au_SetPubKey = (\<lambda>pk acc. if acc_Module acc = None then Some (acc\<lparr>acc_PubKey := Some pk\<rparr>) else None),
     au_SetSequence = (\<lambda>q acc. if acc_Module acc = None then Some (acc\<lparr>acc_Sequence := q\<rparr>) else None),
     coins_IsEqual = (\<lambda>cs ds. Some (cs = ds)),
     coins_New = (\<lambda>c. Some (if snd c = 0 then [] else [c])),
     coins_Sub = (\<lambda>cs ds.
       if \<forall>(d, v) \<in> set ds. v \<le> coin_amount cs d
       then Some (filter (\<lambda>c. snd c \<noteq> 0) (map (\<lambda>c. (fst c, snd c - coin_amount ds (fst c))) cs)) else None),
     coins_Add = (\<lambda>cs c.
       Some (if snd c = 0 then cs
             else if fst c \<in> fst ` set cs then map (\<lambda>x. if fst x = fst c then (fst x, snd x + snd c) else x) cs
             else insort_key fst c cs))\<rparr>"

lemma find_filter_addr:
  "List.find (\<lambda>x. acc_Address x = a) (filter (\<lambda>x. acc_Address x \<noteq> b) xs) = (if a = b then None else List.find (\<lambda>x. acc_Address x = a) xs)"
  by (induction xs) auto

lemma ref_auth_laws: "auth_laws ref_auth"
  by (auto simp: auth_laws_def ref_auth_def find_filter_addr find_Some_iff)

section \<open>The registry under the keeper\<close>

definition denoms :: "ccs_state \<Rightarrow> string list" where
  "denoms s = map cur_Denom (GetCurrencies s)"

lemma kv_set_map_vals: "kv_wf st \<Longrightarrow> kv_get k st = Some v \<Longrightarrow> g v' = g v \<Longrightarrow> map g (kv_vals (kv_set k v' st)) = map g (kv_vals st)"
proof (induction st)
  case (Cons e st)
  obtain k' u where e: "e = (k', u)" by fastforce
  have "k' < k" if "k \<noteq> k'" using Cons.prems(1,2) that e by (force simp: kv_wf_def kv_get_def dest: map_of_SomeD)
  then show ?case using Cons e by (auto simp: kv_vals_def kv_get_def kv_wf_def)
qed (simp add: kv_get_def)

lemma change_supply_denoms:
  assumes inv: "ccs_inv L s" and r: "change_supply f L coin s = (Ok (), s')"
  shows "denoms s' = denoms s"
proof -
  from change_supply_Ok [OF r] obtain c v where c: "GetCurrency s (fst coin) = Ok c" "store_both L (c\<lparr>cur_Supply := v\<rparr>) s = (Ok (), s')" by metis
  have d: "cur_Denom c = fst coin" by (rule GetCurrency_denom [OF inv c(1)])
  have "kv_wf (ccs_currencies s)" using inv by (simp add: ccs_inv_def)
  then show ?thesis
    using store_both_currencies [OF c(2)] c(1) d kv_set_map_vals [of "ccs_currencies s" "GetCurrencyKey (fst coin)" c cur_Denom "c\<lparr>cur_Supply := v\<rparr>"]
    by (simp add: denoms_def GetCurrencies_def GetCurrency_Ok_iff)
qed

lemma denoms_distinct: "ccs_inv L s \<Longrightarrow> distinct (denoms s)"
proof -
  assume inv: "ccs_inv L s"
  then have "kv_keyed (\<lambda>c. GetCurrencyKey (cur_Denom c)) (ccs_currencies s)" by (auto simp: ccs_inv_def kv_keyed_def)
  from kv_keyed_distinct [OF this] show ?thesis
    unfolding denoms_def GetCurrencies_def by (simp add: distinct_map inj_on_def)
qed

lemma new_account_supply_effect:
  assumes laws: "vm_lib_laws L" "int_laws S"
  shows "\<lbrakk>ccs_inv L s; distinct (map fst coins); new_account_supply S L coins s = (Ok (), s')\<rbrakk> \<Longrightarrow>
    ccs_inv L s' \<and> denoms s' = denoms s \<and>
    (\<forall>d c. GetCurrency s d = Ok c \<longrightarrow> GetCurrency s' d = Ok (c\<lparr>cur_Supply := cur_Supply c + coin_amount coins d\<rparr>))"
proof (induction coins arbitrary: s)
  case Nil
  then show ?case by (simp add: coin_amount_def)
next
  case (Cons coin coins)
  obtain d0 v0 where coin: "coin = (d0, v0)" by fastforce
  from Cons.prems(3) obtain s1 where i: "change_supply (int_add S) L coin s = (Ok (), s1)" and r: "new_account_supply S L coins s1 = (Ok (), s')"
    by (auto simp: IncreaseCurrencySupply_def split: prod.splits res.splits)
  have inv1: "ccs_inv L s1" by (rule change_supply_inv [OF laws(1) Cons.prems(1) i])
  from change_supply_Ok [OF i] obtain c0 v where c0: "GetCurrency s d0 = Ok c0" "int_add S (cur_Supply c0) v0 = Some v" by (metis coin fst_conv snd_conv)
  then have v: "v = cur_Supply c0 + v0" using laws(2) by (simp add: int_laws_def within_Some_iff)
  have none: "map_of coins d0 = None" using Cons.prems(2) by (simp add: coin map_of_eq_None_iff)
  from Cons.IH [OF inv1 _ r] Cons.prems(2)
  have ih: "ccs_inv L s'" "denoms s' = denoms s1"
    "\<forall>d c. GetCurrency s1 d = Ok c \<longrightarrow> GetCurrency s' d = Ok (c\<lparr>cur_Supply := cur_Supply c + coin_amount coins d\<rparr>)" by auto
  have "GetCurrency s' d = Ok (c\<lparr>cur_Supply := cur_Supply c + coin_amount (coin # coins) d\<rparr>)" if g: "GetCurrency s d = Ok c" for d c
  proof (cases "d = d0")
    case True
    then have "GetCurrency s1 d = Ok (c\<lparr>cur_Supply := cur_Supply c + v0\<rparr>)"
      using change_supply_GetCurrency [OF Cons.prems(1) i, of d] g c0 v by (simp add: coin)
    with ih(3) True none show ?thesis by (simp add: coin coin_amount_def)
  next
    case False
    then have "GetCurrency s1 d = Ok c" using change_supply_GetCurrency [OF Cons.prems(1) i, of d] g by (simp add: coin)
    with ih(3) False show ?thesis by (auto simp: coin coin_amount_def)
  qed
  with ih change_supply_denoms [OF Cons.prems(1) i] show ?case by simp
qed

lemma SetAccountBalanceResources_currencies: "SetAccountBalanceResources S L a coins s = (r, s') \<Longrightarrow> ccs_currencies s' = ccs_currencies s"
  by (auto simp: SetAccountBalanceResources_def split: option.splits prod.splits res.splits)

section \<open>Setting and reading an account\<close>

text \<open>Coins in the order of the registry, without zero amounts; amounts the virtual machine can store.\<close>

definition in_order :: "string list \<Rightarrow> coin list \<Rightarrow> bool" where
  "in_order ds coins \<longleftrightarrow> coins = map (\<lambda>d. (d, coin_amount coins d)) (filter (\<lambda>d. coin_amount coins d \<noteq> 0) ds)"

abbreviation canonical :: "ccs_state \<Rightarrow> coin list \<Rightarrow> bool" where
  "canonical s coins \<equiv> in_order (denoms s) coins"

definition storable :: "vm_lib \<Rightarrow> coin list \<Rightarrow> bool" where
  "storable L coins \<longleftrightarrow> (\<forall>v \<in> insert 0 (snd ` set coins). lcs_bal L v \<noteq> None \<and> 0 \<le> v \<and> v < 2 ^ 255)"

definition registry_ok :: "sdk \<Rightarrow> vm_lib \<Rightarrow> ccs_state \<Rightarrow> bool" where
  "registry_ok S L s \<longleftrightarrow> ccs_inv L s \<and> (\<forall>d \<in> set (denoms s). DenomFilter S d = Ok ())"

definition real_coins :: "sdk \<Rightarrow> vm_lib \<Rightarrow> ccs_state \<Rightarrow> bytes \<Rightarrow> coin list option" where
  "real_coins S L s a = (case GetAccountBalanceResources L s a of Ok bs \<Rightarrow> Balances_Coins S bs | _ \<Rightarrow> None)"

lemma canonical_distinct: "registry_ok S L s \<Longrightarrow> canonical s coins \<Longrightarrow> distinct (map fst coins)"
proof -
  assume r: "registry_ok S L s" and "canonical s coins"
  then have "map fst coins = filter (\<lambda>d. coin_amount coins d \<noteq> 0) (denoms s)"
    unfolding in_order_def by (metis (no_types, lifting) comp_apply fst_conv map_idI map_map)
  with denoms_distinct [of L s] r show ?thesis by (simp add: registry_ok_def)
qed

lemma VA_SetAccount_effect:
  assumes laws: "auth_laws K" "vm_lib_laws L" "int_laws S" "uint_laws S" and reg: "registry_ok S L (va_ccs w)"
    and len: "length (acc_Address acc) = 20" and coins: "canonical (va_ccs w) (acc_Coins acc)" "storable L (acc_Coins acc)"
    and new: "au_Get K (acc_Address acc) (va_auth w) = None \<Longrightarrow> fst (new_account_supply S L (acc_Coins acc) (va_ccs w)) = Ok ()"
  shows "\<exists>s'. VA_SetAccount S L K acc w = (Ok (), \<lparr>va_ccs = s', va_auth = au_Set K acc (va_auth w)\<rparr>) \<and>
    registry_ok S L s' \<and> denoms s' = denoms (va_ccs w) \<and> real_coins S L s' (acc_Address acc) = Some (acc_Coins acc) \<and>
    (\<forall>d c. GetCurrency (va_ccs w) d = Ok c \<longrightarrow> GetCurrency s' d = Ok (c\<lparr>cur_Supply := cur_Supply c +
       (if au_Get K (acc_Address acc) (va_auth w) = None then coin_amount (acc_Coins acc) d else 0)\<rparr>))"
proof -
  let ?a = "acc_Address acc" and ?cs = "acc_Coins acc" and ?s = "va_ccs w"
  let ?new = "au_Get K ?a (va_auth w) = None"
  have dist: "distinct (map fst ?cs)" by (rule canonical_distinct [OF reg coins(1)])
  obtain s1 where s1: "(if ?new then new_account_supply S L ?cs ?s else (Ok (), ?s)) = (Ok (), s1)"
    using new by (cases "new_account_supply S L ?cs ?s"; cases ?new) auto
  have e1: "ccs_inv L s1 \<and> denoms s1 = denoms ?s \<and>
      (\<forall>d c. GetCurrency ?s d = Ok c \<longrightarrow> GetCurrency s1 d = Ok (c\<lparr>cur_Supply := cur_Supply c + (if ?new then coin_amount ?cs d else 0)\<rparr>))"
    using s1 new_account_supply_effect [OF laws(2,3) _ dist, of ?s s1] reg by (auto simp: registry_ok_def split: if_splits)
  have v: "\<And>c. c \<in> set (GetCurrencies s1) \<Longrightarrow> DenomFilter S (cur_Denom c) = Ok ()"
    using reg e1 unfolding registry_ok_def denoms_def by (metis (no_types, lifting) image_eqI list.set_map)
  have st: "\<And>v. v \<in> insert 0 (snd ` set ?cs) \<Longrightarrow> lcs_bal L v \<noteq> None \<and> 0 \<le> v \<and> v < 2 ^ 255"
    using coins(2) unfolding storable_def by blast
  from balances_read_back [OF laws(2-4) len dist st v, where s = s1] obtain s2 bs where
    b: "SetAccountBalanceResources S L ?a ?cs s1 = (Ok (), s2)" "GetAccountBalanceResources L s2 ?a = Ok bs"
    "Balances_Coins S bs = Some (map (\<lambda>d. (d, coin_amount ?cs d)) (filter (\<lambda>d. coin_amount ?cs d \<noteq> 0) (denoms s1)))"
    unfolding denoms_def by auto
  have g: "GetCurrency s2 d = GetCurrency s1 d" "denoms s2 = denoms s1" for d
    using SetAccountBalanceResources_currencies [OF b(1)] by (simp_all add: GetCurrency_def HasCurrency_def denoms_def GetCurrencies_def)
  have "ccs_inv L s2" using SetAccountBalanceResources_inv [OF laws(2) _ len b(1)] e1 by blast
  with e1 g reg have "registry_ok S L s2" "denoms s2 = denoms ?s" by (simp_all add: registry_ok_def)
  moreover have "real_coins S L s2 ?a = Some ?cs" using b coins(1) e1 by (simp add: real_coins_def in_order_def)
  moreover have "VA_SetAccount S L K acc w = (Ok (), \<lparr>va_ccs = s2, va_auth = au_Set K acc (va_auth w)\<rparr>)"
    unfolding VA_SetAccount_def s1 by (simp add: b(1))
  ultimately show ?thesis using e1 g by metis
qed

lemma in_order_Cons:
  assumes "d \<notin> fst ` set coins" and "v \<noteq> 0" and "d \<notin> set ds" and "in_order ds coins"
  shows "in_order (d # ds) ((d, v) # coins)"
proof -
  have "coin_amount ((d, v) # coins) e = coin_amount coins e" if "e \<in> set ds" for e using that assms(3) by (auto simp: coin_amount_def)
  then have "map (\<lambda>e. (e, coin_amount ((d, v) # coins) e)) (filter (\<lambda>e. coin_amount ((d, v) # coins) e \<noteq> 0) ds) =
      map (\<lambda>e. (e, coin_amount coins e)) (filter (\<lambda>e. coin_amount coins e \<noteq> 0) ds)" by (simp cong: filter_cong map_cong)
  with assms show ?thesis by (simp add: in_order_def coin_amount_def)
qed

lemma in_order_skip: "d \<notin> fst ` set coins \<Longrightarrow> in_order ds coins \<Longrightarrow> in_order (d # ds) coins"
proof -
  assume d: "d \<notin> fst ` set coins" and o: "in_order ds coins"
  have "coin_amount coins d = 0" using d by (simp add: coin_amount_def map_of_eq_None_iff [THEN iffD2])
  with o show ?thesis by (simp add: in_order_def)
qed

lemma read_in_order:
  assumes laws: "int_laws S" "uint_laws S"
  shows "\<lbrakk>distinct (map cur_Denom cs); read_balances L vm a cs = Ok bs; Balances_Coins S bs = Some coins\<rbrakk> \<Longrightarrow>
    in_order (map cur_Denom cs) coins \<and> fst ` set coins \<subseteq> cur_Denom ` set cs"
proof (induction cs arbitrary: bs coins)
  case (Cons c cs)
  show ?case
  proof (cases "getValue vm (balance_path L a c)")
    case None
    with Cons.prems have "read_balances L vm a cs = Ok bs" "distinct (map cur_Denom cs)" by simp_all
    from Cons.IH [OF this(2,1) Cons.prems(3)] Cons.prems(1) show ?thesis by (auto intro: in_order_skip)
  next
    case (Some bz)
    with Cons.prems(2) obtain v bs' where v: "lcs_bal_un L bz = Some v" "read_balances L vm a cs = Ok bs'"
      "bs = \<lparr>bal_Denom = cur_Denom c, bal_AccessPath = balance_path L a c, bal_Value = v\<rparr> # bs'"
      by (auto simp: NewBalance_def bind_res_Ok_iff split: option.splits if_splits)
    show ?thesis
    proof (cases "v = 0")
      case True
      with v Cons.prems(3) have "Balances_Coins S bs' = Some coins" by simp
      from Cons.IH [OF _ v(2) this] Cons.prems(1) show ?thesis by (auto intro: in_order_skip)
    next
      case False
      with v Cons.prems(3) laws obtain coins' where c': "Balances_Coins S bs' = Some coins'" "coins = (cur_Denom c, v) # coins'"
        by (auto simp: Balance_Coin_def bind_eq_Some_conv uint_laws_def int_laws_def within_Some_iff split: if_splits)
      from Cons.IH [OF _ v(2) c'(1)] Cons.prems(1) False show ?thesis
        unfolding c'(2) list.map(2) by (auto intro!: in_order_Cons)
    qed
  qed
qed (auto simp: in_order_def)

lemma real_coins_canonical:
  assumes "int_laws S" "uint_laws S" "registry_ok S L s" and "real_coins S L s a = Some coins"
  shows "canonical s coins"
proof -
  from assms(4) obtain bs where b: "read_balances L (ccs_vm s) a (GetCurrencies s) = Ok bs" "Balances_Coins S bs = Some coins"
    by (auto simp: real_coins_def GetAccountBalanceResources_def split: res.splits)
  have "distinct (map cur_Denom (GetCurrencies s))" using denoms_distinct assms(3) by (auto simp: registry_ok_def denoms_def)
  from read_in_order [OF assms(1,2) this b] show ?thesis by (simp add: denoms_def)
qed

lemma VA_GetAccount_synced:
  assumes "auth_laws K" and "real_coins S L (va_ccs w) a = Some coins" and "au_Get K a (va_auth w) = Some acc" and "acc_Coins acc = coins"
  shows "VA_GetAccount S L K a w = (Ok (Some acc), w)"
  using assms by (auto simp: VA_GetAccount_def real_coins_def auth_laws_def split: res.splits)

lemma au_New_law: "auth_laws K \<Longrightarrow> au_New K a s = (acc, s') \<Longrightarrow> acc_Address acc = a \<and> au_Get K b s' = au_Get K b s"
  unfolding auth_laws_def by (metis fst_conv snd_conv)

definition grown :: "bool \<Rightarrow> coin list \<Rightarrow> ccs_state \<Rightarrow> ccs_state \<Rightarrow> bool" where
  "grown new coins s s' \<longleftrightarrow>
     (\<forall>d c. GetCurrency s d = Ok c \<longrightarrow> GetCurrency s' d = Ok (c\<lparr>cur_Supply := cur_Supply c + (if new then coin_amount coins d else 0)\<rparr>))"

lemma grown_refl: "grown False coins s s"
  by (simp add: grown_def)

lemma set_real_coins_effect:
  assumes "auth_laws K" "vm_lib_laws L" "int_laws S" "uint_laws S" and "registry_ok S L (va_ccs w)" and "length a = 20"
    and "canonical (va_ccs w) coins" "storable L coins" and "acc_Address acc0 = a"
    and "au_Get K a (va_auth w) = None \<Longrightarrow> fst (new_account_supply S L coins (va_ccs w)) = Ok ()"
  shows "\<exists>w'. set_real_coins S L K coins acc0 w = (Ok (Some (acc0\<lparr>acc_Coins := coins\<rparr>)), w') \<and>
    au_Get K a (va_auth w') = Some (acc0\<lparr>acc_Coins := coins\<rparr>) \<and> real_coins S L (va_ccs w') a = Some coins \<and>
    VA_GetAccount S L K a w' = (Ok (Some (acc0\<lparr>acc_Coins := coins\<rparr>)), w') \<and>
    grown (au_Get K a (va_auth w) = None) coins (va_ccs w) (va_ccs w')"
proof -
  let ?acc = "acc0\<lparr>acc_Coins := coins\<rparr>"
  obtain w' where w': "VA_SetAccount S L K ?acc w = (Ok (), w')" "au_Get K a (va_auth w') = Some ?acc" "real_coins S L (va_ccs w') a = Some coins"
    "grown (au_Get K a (va_auth w) = None) coins (va_ccs w) (va_ccs w')"
    using VA_SetAccount_effect [OF assms(1-5), of ?acc] assms(1,6-10) by (auto simp: auth_laws_def grown_def)
  have "VA_GetAccount S L K a w' = (Ok (Some ?acc), w')" by (rule VA_GetAccount_synced [OF assms(1) w'(3,2)]) simp
  moreover have "set_real_coins S L K coins acc0 w = (Ok (Some ?acc), w')" using w'(1) assms(1) by (simp add: set_real_coins_def auth_laws_def)
  ultimately show ?thesis using w' by blast
qed

text \<open>
  C16. Storing an account (\<open>SetAccount\<close>), round trip: an account whose coins are amounts of registered currencies is stored, and reading it back through the
  balance resources of the virtual machine gives the same account without any further change. Other accounts are untouched. The supply of the registry
  grows by the coins if the account is new and stays as it is otherwise.
\<close>

theorem vmauth_set_get:
  assumes "auth_laws K" "vm_lib_laws L" "int_laws S" "uint_laws S" and "registry_ok S L (va_ccs w)"
    and "length (acc_Address acc) = 20" and "canonical (va_ccs w) (acc_Coins acc)" and "storable L (acc_Coins acc)"
    and "au_Get K (acc_Address acc) (va_auth w) = None \<Longrightarrow> fst (new_account_supply S L (acc_Coins acc) (va_ccs w)) = Ok ()"
  shows "\<exists>w'. VA_SetAccount S L K acc w = (Ok (), w') \<and> VA_GetAccount S L K (acc_Address acc) w' = (Ok (Some acc), w') \<and>
    (\<forall>b. b \<noteq> acc_Address acc \<longrightarrow> au_Get K b (va_auth w') = au_Get K b (va_auth w)) \<and>
    grown (au_Get K (acc_Address acc) (va_auth w) = None) (acc_Coins acc) (va_ccs w) (va_ccs w')"
proof -
  let ?w = "\<lambda>s'. \<lparr>va_ccs = s', va_auth = au_Set K acc (va_auth w)\<rparr>"
  from VA_SetAccount_effect [OF assms] obtain s' where s': "VA_SetAccount S L K acc w = (Ok (), ?w s')"
    "real_coins S L s' (acc_Address acc) = Some (acc_Coins acc)"
    "grown (au_Get K (acc_Address acc) (va_auth w) = None) (acc_Coins acc) (va_ccs w) s'" unfolding grown_def by blast
  have "VA_GetAccount S L K (acc_Address acc) (?w s') = (Ok (Some acc), ?w s')"
    using s'(2) assms(1) by (intro VA_GetAccount_synced [OF assms(1)]) (auto simp: auth_laws_def)
  with s' assms(1) show ?thesis by (intro exI [of _ "?w s'"]) (simp add: auth_laws_def)
qed


section \<open>An example\<close>

definition ex_holder :: Account where
  "ex_holder = \<lparr>acc_Address = replicate 20 CHR ''h'', acc_Coins = [(''xfi'', 7)], acc_PubKey = None, acc_Number = 0, acc_Sequence = 0, acc_Module = None\<rparr>"

definition ex_va :: "ccs_state \<Rightarrow> (Account list \<times> 64 word) va_state" where
  "ex_va s = \<lparr>va_ccs = s, va_auth = ([], 0)\<rparr>"

lemma ex_denoms: "denoms ex_ccs = [''xfi'']"
  by (simp add: denoms_def ex_ccs_currencies NewCurrency_def ex_params_def)

lemma ex_registry_ok: "registry_ok ref_sdk ref_vm_lib ex_ccs"
  using ccs_reach_inv [OF ex_ccs_reach ref_vm_lib_laws] ex_denom by (simp add: registry_ok_def ex_denoms)

lemma ex_storable: "storable ref_vm_lib [(''xfi'', 7)]"
  by (simp add: storable_def ref_vm_lib_def)

lemma ex_new_supply:
  assumes "GetCurrency s ''xfi'' = Ok (NewCurrency ex_params 5)"
  shows "fst (new_account_supply ref_sdk ref_vm_lib [(''xfi'', 7)] s) = Ok ()"
proof -
  have "IncreaseCurrencySupply ref_sdk ref_vm_lib (''xfi'', 7) s = store_both ref_vm_lib (NewCurrency ex_params 12) s"
    using assms by (simp add: IncreaseCurrencySupply_def change_supply_def ref_sdk_def within_def NewCurrency_def)
  moreover obtain s' where "store_both ref_vm_lib (NewCurrency ex_params 12) s = (Ok (), s')"
    using ref_store_both [of "NewCurrency ex_params 12" s] by (auto simp: NewCurrency_def ex_params_def)
  ultimately show ?thesis by simp
qed

theorem vmauth_set_get_witness:
  "\<exists>w'. VA_SetAccount ref_sdk ref_vm_lib ref_auth ex_holder (ex_va ex_ccs) = (Ok (), w') \<and>
     VA_GetAccount ref_sdk ref_vm_lib ref_auth (acc_Address ex_holder) w' = (Ok (Some ex_holder), w') \<and>
     GetCurrency (va_ccs w') ''xfi'' = Ok (NewCurrency ex_params 12)"
proof -
  have e: "va_ccs (ex_va ex_ccs) = ex_ccs" "acc_Coins ex_holder = [(''xfi'', 7)]" "length (acc_Address ex_holder) = 20"
    "au_Get ref_auth (acc_Address ex_holder) (va_auth (ex_va ex_ccs)) = None"
    by (simp_all add: ex_va_def ex_holder_def ref_auth_def)
  have c: "in_order (denoms (va_ccs (ex_va ex_ccs))) (acc_Coins ex_holder)" by (simp add: e ex_denoms in_order_def coin_amount_def)
  from vmauth_set_get [OF ref_auth_laws ref_vm_lib_laws ref_int_laws ref_uint_laws _ e(3) c, unfolded e]
    ex_registry_ok ex_storable ex_new_supply [OF ex_ccs_xfi]
  obtain w' where w': "VA_SetAccount ref_sdk ref_vm_lib ref_auth ex_holder (ex_va ex_ccs) = (Ok (), w')"
    "VA_GetAccount ref_sdk ref_vm_lib ref_auth (acc_Address ex_holder) w' = (Ok (Some ex_holder), w')" "grown True [(''xfi'', 7)] ex_ccs (va_ccs w')"
    by auto
  from w'(3) ex_ccs_xfi have "GetCurrency (va_ccs w') ''xfi'' = Ok (NewCurrency ex_params 12)"
    by (auto simp: grown_def coin_amount_def NewCurrency_def)
  with w' show ?thesis by blast
qed


end
