(* ===== verification/Ante.thy ===== *)
theory Ante
  imports VMAuth
begin

text \<open>
  The chain of decorators every transaction passes before its messages run (\<open>x/core\<close>): fee denomination, gas of the transaction and of its signatures,
  public keys, fees, signatures, sequence numbers. Transactions, keys, gas meters and the decorators taken from the SDK are parameters.
\<close>

section \<open>Transactions and parameters\<close>

text \<open>What the decorators read of the context; the gas meter is part of the state.\<close>

record ante_ctx =
  ctx_Height :: int
  ctx_ReCheck :: bool
  ctx_TxBytes :: bytes

record auth_params =
  TxSizeCostPerByte :: "64 word"
  TxSigLimit :: "64 word"

text \<open>
  A transaction is a value of \<open>'x\<close>: which interfaces it implements, its fee, payer, signers, public keys and signatures (\<open>None\<close> is nil), and
  the bytes a signer signs, which depend on the number and the sequence of the account.
\<close>

record 'x tx_lib =
  tx_IsStdTx :: "'x \<Rightarrow> bool"
  tx_IsSigTx :: "'x \<Rightarrow> bool"
  tx_IsFeeTx :: "'x \<Rightarrow> bool"
  tx_Fee :: "'x \<Rightarrow> coin list"
  tx_FeePayer :: "'x \<Rightarrow> bytes"
  tx_Signers :: "'x \<Rightarrow> bytes list"
  tx_PubKeys :: "'x \<Rightarrow> bytes option list"
  tx_Sigs :: "'x \<Rightarrow> bytes option list"
  tx_SignBytes :: "ante_ctx \<Rightarrow> Account \<Rightarrow> 'x \<Rightarrow> bytes"

datatype core_error =
    CoreErrInternal | CoreErrFeeRequired | CoreErrWrongFeeDenom | CoreErrTxDecode | CoreErrUnknownAddress | CoreErrInvalidPubKey
  | CoreErrUnauthorized | CoreErrSdk

record ('a, 'g) ante_state =
  an_va :: "'a va_state"
  an_gas :: 'g

type_synonym ('a, 'g, 'x) AnteHandler = "ante_ctx \<Rightarrow> 'x \<Rightarrow> bool \<Rightarrow> (('a, 'g) ante_state, core_error, unit) op"

type_synonym ('a, 'g, 'x) AnteDecorator = "('a, 'g, 'x) AnteHandler \<Rightarrow> ('a, 'g, 'x) AnteHandler"

text \<open>
  The rest of the SDK: the meter set for a transaction, the decorators used as they are, the gas of a signature, the transfer of the fee, the
  parameters of the auth module, keys, the encoding of a signature and two predicates on coins.
\<close>

record ('a, 'g, 'x) ante_lib =
  al_Gas :: "'g gas_lib"
  al_Tx :: "'x tx_lib"
  al_Params :: auth_params
  al_SetGasMeter :: "bool \<Rightarrow> ante_ctx \<Rightarrow> 64 word \<Rightarrow> 'g"
  al_SetUpContext :: "('a, 'g, 'x) AnteDecorator"
  al_MempoolFee :: "('a, 'g, 'x) AnteDecorator"
  al_ValidateBasic :: "('a, 'g, 'x) AnteDecorator"
  al_ValidateMemo :: "('a, 'g, 'x) AnteDecorator"
  al_ValidateSigCount :: "('a, 'g, 'x) AnteDecorator"
  al_SigGas :: "auth_params \<Rightarrow> bytes option \<Rightarrow> bytes option \<Rightarrow> ('g, core_error, unit) op"
  al_FeeCollector :: "bytes option"
  al_DeductFees :: "Account \<Rightarrow> coin list \<Rightarrow> ('a va_state, core_error, unit) op"
  al_MarshalSig :: "bytes \<Rightarrow> bytes \<Rightarrow> bytes"
  pk_Address :: "bytes \<Rightarrow> bytes"
  pk_VerifyBytes :: "bytes \<Rightarrow> bytes \<Rightarrow> bytes option \<Rightarrow> bool"
  pk_IsMultisig :: "bytes \<Rightarrow> bool"
  coins_IsZero :: "coin list \<Rightarrow> bool"
  coins_DenomsSubsetOf :: "coin list \<Rightarrow> coin list \<Rightarrow> bool"

section \<open>Decorators\<close>

definition MainDenom :: string where
  "MainDenom = ''xfi''"

definition DefaultFees :: "coin list" where
  "DefaultFees = [(MainDenom, 1)]"

definition simSecp256k1Pubkey :: bytes where
  "simSecp256k1Pubkey = replicate 33 (CHR 0x00)"

definition simSecp256k1Sig :: bytes where
  "simSecp256k1Sig = replicate 64 (CHR 0x00)"

definition DenomDecorator :: "('a, 'g, 'x) ante_lib \<Rightarrow> ('a, 'g, 'x) AnteDecorator" where
  "DenomDecorator A nxt ctx tx simulate st =
     (let stop = st\<lparr>an_gas := al_SetGasMeter A simulate ctx 0\<rparr> in
      if \<not> tx_IsStdTx (al_Tx A) tx then (Err CoreErrInternal, stop)
      else if 0 < ctx_Height ctx \<and> coins_IsZero A (tx_Fee (al_Tx A) tx) then (Err CoreErrFeeRequired, stop)
      else if 0 < ctx_Height ctx \<and> \<not> coins_DenomsSubsetOf A (tx_Fee (al_Tx A) tx) DefaultFees then (Err CoreErrWrongFeeDenom, stop)
      else nxt ctx tx simulate st)"

text \<open>Reading the account of a signer.\<close>

definition an_GetAccount ::
  "sdk \<Rightarrow> vm_lib \<Rightarrow> 'a auth_lib \<Rightarrow> bytes \<Rightarrow> (('a, 'g) ante_state, core_error, Account option) op" where
  "an_GetAccount S L K addr st =
     (case VA_GetAccount S L K addr (an_va st) of
        (Ok acc, w) \<Rightarrow> (Ok acc, st\<lparr>an_va := w\<rparr>)
      | (_, w) \<Rightarrow> (Panic, st\<lparr>an_va := w\<rparr>))"

definition an_SetAccount :: "sdk \<Rightarrow> vm_lib \<Rightarrow> 'a auth_lib \<Rightarrow> Account \<Rightarrow> (('a, 'g) ante_state, core_error, unit) op" where
  "an_SetAccount S L K acc st =
     (case VA_SetAccount S L K acc (an_va st) of
        (Ok _, w) \<Rightarrow> (Ok (), st\<lparr>an_va := w\<rparr>)
      | (_, w) \<Rightarrow> (Panic, st\<lparr>an_va := w\<rparr>))"

definition Core_GetSignerAcc ::
  "sdk \<Rightarrow> vm_lib \<Rightarrow> 'a auth_lib \<Rightarrow> bytes \<Rightarrow> (('a, 'g) ante_state, core_error, Account) op" where
  "Core_GetSignerAcc S L K addr st =
     (case an_GetAccount S L K addr st of
        (Ok (Some acc), st') \<Rightarrow> (Ok acc, st')
      | (Ok None, st') \<Rightarrow> (Err CoreErrUnknownAddress, st')
      | (Err e, st') \<Rightarrow> (Err e, st')
      | (Panic, st') \<Rightarrow> (Panic, st'))"

definition consume_gas :: "('a, 'g, 'x) ante_lib \<Rightarrow> 64 word \<Rightarrow> (('a, 'g) ante_state, core_error, unit) op" where
  "consume_gas A amount st =
     (case g_Consume (al_Gas A) amount (an_gas st) of
        None \<Rightarrow> (Panic, st)
      | Some g \<Rightarrow> (Ok (), st\<lparr>an_gas := g\<rparr>))"

text \<open>The gas of the signatures a simulated transaction does not carry yet; the cost is computed at 64 bits.\<close>

definition sim_sig_cost :: "('a, 'g, 'x) ante_lib \<Rightarrow> Account option \<Rightarrow> 64 word" where
  "sim_sig_cost A acc =
     (let pubkey = (case Option.bind acc acc_PubKey of None \<Rightarrow> simSecp256k1Pubkey | Some pk \<Rightarrow> pk);
          cost = of_nat (length (al_MarshalSig A simSecp256k1Sig pubkey) + 6) in
      if pk_IsMultisig A pubkey then cost * TxSigLimit (al_Params A) else cost)"

fun sim_sigs_gas ::
  "sdk \<Rightarrow> vm_lib \<Rightarrow> 'a auth_lib \<Rightarrow> ('a, 'g, 'x) ante_lib \<Rightarrow> bytes list \<Rightarrow> bytes option list \<Rightarrow> (('a, 'g) ante_state, core_error, unit) op" where
  "sim_sigs_gas S L K A [] sigs st = (Ok (), st)"
| "sim_sigs_gas S L K A (signer # signers) [] st = (Panic, st)"
| "sim_sigs_gas S L K A (signer # signers) (Some sig # sigs) st = sim_sigs_gas S L K A signers sigs st"
| "sim_sigs_gas S L K A (signer # signers) (None # sigs) st =
     (case an_GetAccount S L K signer st of
        (Ok acc, st1) \<Rightarrow>
          (case consume_gas A (TxSizeCostPerByte (al_Params A) * sim_sig_cost A acc) st1 of
             (Ok _, st2) \<Rightarrow> sim_sigs_gas S L K A signers sigs st2
           | (r, st2) \<Rightarrow> (r, st2))
      | (_, st1) \<Rightarrow> (Panic, st1))"

definition ConsumeTxSizeGasDecorator ::
  "sdk \<Rightarrow> vm_lib \<Rightarrow> 'a auth_lib \<Rightarrow> ('a, 'g, 'x) ante_lib \<Rightarrow> ('a, 'g, 'x) AnteDecorator" where
  "ConsumeTxSizeGasDecorator S L K A nxt ctx tx simulate st =
     (if \<not> tx_IsSigTx (al_Tx A) tx then (Err CoreErrTxDecode, st)
      else
        (case consume_gas A (TxSizeCostPerByte (al_Params A) * of_nat (length (ctx_TxBytes ctx))) st of
           (Ok _, st1) \<Rightarrow>
             (case (if simulate then sim_sigs_gas S L K A (tx_Signers (al_Tx A) tx) (tx_Sigs (al_Tx A) tx) st1 else (Ok (), st1)) of
                (Ok _, st2) \<Rightarrow> nxt ctx tx simulate st2
              | (r, st2) \<Rightarrow> (r, st2))
         | (r, st1) \<Rightarrow> (r, st1)))"

text \<open>The public keys of a transaction are set on the accounts of its signers; a missing signer is an index out of range.\<close>

definition set_pub_key ::
  "sdk \<Rightarrow> vm_lib \<Rightarrow> 'a auth_lib \<Rightarrow> bytes \<Rightarrow> bytes \<Rightarrow> (('a, 'g) ante_state, core_error, unit) op" where
  "set_pub_key S L K pk signer st =
     (case Core_GetSignerAcc S L K signer st of
        (Ok acc, st1) \<Rightarrow>
          if acc_PubKey acc \<noteq> None then (Ok (), st1)
          else (case au_SetPubKey K pk acc of
                  None \<Rightarrow> (Err CoreErrInvalidPubKey, st1)
                | Some acc' \<Rightarrow> an_SetAccount S L K acc' st1)
      | (Err e, st1) \<Rightarrow> (Err e, st1)
      | (Panic, st1) \<Rightarrow> (Panic, st1))"

fun set_pub_keys ::
  "sdk \<Rightarrow> vm_lib \<Rightarrow> 'a auth_lib \<Rightarrow> ('a, 'g, 'x) ante_lib \<Rightarrow> bool \<Rightarrow> bytes option list \<Rightarrow> bytes list \<Rightarrow> (('a, 'g) ante_state, core_error, unit) op" where
  "set_pub_keys S L K A simulate [] signers st = (Ok (), st)"
| "set_pub_keys S L K A simulate (key # pubkeys) signers st =
     (if key = None \<and> \<not> simulate then set_pub_keys S L K A simulate pubkeys (tl signers) st
      else
        (case signers of
           [] \<Rightarrow> (Panic, st)
         | signer # signers' \<Rightarrow>
             let pk = (case key of None \<Rightarrow> simSecp256k1Pubkey | Some pk \<Rightarrow> pk) in
             if \<not> simulate \<and> pk_Address A pk \<noteq> signer then (Err CoreErrInvalidPubKey, st)
             else
               (case set_pub_key S L K pk signer st of
                  (Ok _, st1) \<Rightarrow> set_pub_keys S L K A simulate pubkeys signers' st1
                | (r, st1) \<Rightarrow> (r, st1))))"

definition SetPubKeyDecorator ::
  "sdk \<Rightarrow> vm_lib \<Rightarrow> 'a auth_lib \<Rightarrow> ('a, 'g, 'x) ante_lib \<Rightarrow> ('a, 'g, 'x) AnteDecorator" where
  "SetPubKeyDecorator S L K A nxt ctx tx simulate st =
     (if \<not> tx_IsSigTx (al_Tx A) tx then (Err CoreErrTxDecode, st)
      else
        (case set_pub_keys S L K A simulate (tx_PubKeys (al_Tx A) tx) (tx_Signers (al_Tx A) tx) st of
           (Ok _, st1) \<Rightarrow> nxt ctx tx simulate st1
         | (r, st1) \<Rightarrow> (r, st1)))"

definition DeductFeeDecorator ::
  "sdk \<Rightarrow> vm_lib \<Rightarrow> 'a auth_lib \<Rightarrow> ('a, 'g, 'x) ante_lib \<Rightarrow> ('a, 'g, 'x) AnteDecorator" where
  "DeductFeeDecorator S L K A nxt ctx tx simulate st =
     (if \<not> tx_IsFeeTx (al_Tx A) tx then (Err CoreErrTxDecode, st)
      else if al_FeeCollector A = None then (Panic, st)
      else
        (case an_GetAccount S L K (tx_FeePayer (al_Tx A) tx) st of
           (Ok None, st1) \<Rightarrow> (Err CoreErrUnknownAddress, st1)
         | (Ok (Some acc), st1) \<Rightarrow>
             if coins_IsZero A (tx_Fee (al_Tx A) tx) then nxt ctx tx simulate st1
             else (case al_DeductFees A acc (tx_Fee (al_Tx A) tx) (an_va st1) of
                     (Ok _, w) \<Rightarrow> nxt ctx tx simulate (st1\<lparr>an_va := w\<rparr>)
                   | (r, w) \<Rightarrow> (r, st1\<lparr>an_va := w\<rparr>))
         | (_, st1) \<Rightarrow> (Panic, st1)))"

fun sigs_gas ::
  "sdk \<Rightarrow> vm_lib \<Rightarrow> 'a auth_lib \<Rightarrow> ('a, 'g, 'x) ante_lib \<Rightarrow> bool \<Rightarrow> bytes option list \<Rightarrow> bytes list \<Rightarrow> (('a, 'g) ante_state, core_error, unit) op" where
  "sigs_gas S L K A simulate [] signers st = (Ok (), st)"
| "sigs_gas S L K A simulate (sig # sigs) [] st = (Panic, st)"
| "sigs_gas S L K A simulate (sig # sigs) (signer # signers) st =
     (case Core_GetSignerAcc S L K signer st of
        (Ok acc, st1) \<Rightarrow>
          (let pubKey = (if simulate \<and> acc_PubKey acc = None then Some simSecp256k1Pubkey else acc_PubKey acc) in
           case al_SigGas A (al_Params A) sig pubKey (an_gas st1) of
             (Ok _, g) \<Rightarrow> sigs_gas S L K A simulate sigs signers (st1\<lparr>an_gas := g\<rparr>)
           | (r, g) \<Rightarrow> (r, st1\<lparr>an_gas := g\<rparr>))
      | (Err e, st1) \<Rightarrow> (Err e, st1)
      | (Panic, st1) \<Rightarrow> (Panic, st1))"

definition SigGasConsumeDecorator ::
  "sdk \<Rightarrow> vm_lib \<Rightarrow> 'a auth_lib \<Rightarrow> ('a, 'g, 'x) ante_lib \<Rightarrow> ('a, 'g, 'x) AnteDecorator" where
  "SigGasConsumeDecorator S L K A nxt ctx tx simulate st =
     (if \<not> tx_IsSigTx (al_Tx A) tx then (Err CoreErrTxDecode, st)
      else
        (case sigs_gas S L K A simulate (tx_Sigs (al_Tx A) tx) (tx_Signers (al_Tx A) tx) st of
           (Ok _, st1) \<Rightarrow> nxt ctx tx simulate st1
         | (r, st1) \<Rightarrow> (r, st1)))"

fun verify_sigs ::
  "sdk \<Rightarrow> vm_lib \<Rightarrow> 'a auth_lib \<Rightarrow> ('a, 'g, 'x) ante_lib \<Rightarrow> ante_ctx \<Rightarrow> 'x \<Rightarrow> bool \<Rightarrow> bytes option list \<Rightarrow> bytes list \<Rightarrow>
   (('a, 'g) ante_state, core_error, unit) op" where
  "verify_sigs S L K A ctx tx simulate [] signers st = (Ok (), st)"
| "verify_sigs S L K A ctx tx simulate (sig # sigs) [] st = (Panic, st)"
| "verify_sigs S L K A ctx tx simulate (sig # sigs) (signer # signers) st =
     (case Core_GetSignerAcc S L K signer st of
        (Ok acc, st1) \<Rightarrow>
          (let signBytes = tx_SignBytes (al_Tx A) ctx acc tx in
           if simulate then verify_sigs S L K A ctx tx simulate sigs signers st1
           else
             (case acc_PubKey acc of
                None \<Rightarrow> (Err CoreErrInvalidPubKey, st1)
              | Some pubKey \<Rightarrow>
                  if pk_VerifyBytes A pubKey signBytes sig then verify_sigs S L K A ctx tx simulate sigs signers st1
                  else (Err CoreErrUnauthorized, st1)))
      | (Err e, st1) \<Rightarrow> (Err e, st1)
      | (Panic, st1) \<Rightarrow> (Panic, st1))"

definition SigVerificationDecorator ::
  "sdk \<Rightarrow> vm_lib \<Rightarrow> 'a auth_lib \<Rightarrow> ('a, 'g, 'x) ante_lib \<Rightarrow> ('a, 'g, 'x) AnteDecorator" where
  "SigVerificationDecorator S L K A nxt ctx tx simulate st =
     (if ctx_ReCheck ctx then nxt ctx tx simulate st
      else if \<not> tx_IsSigTx (al_Tx A) tx then (Err CoreErrTxDecode, st)
      else if length (tx_Sigs (al_Tx A) tx) \<noteq> length (tx_Signers (al_Tx A) tx) then (Err CoreErrUnauthorized, st)
      else
        (case verify_sigs S L K A ctx tx simulate (tx_Sigs (al_Tx A) tx) (tx_Signers (al_Tx A) tx) st of
           (Ok _, st1) \<Rightarrow> nxt ctx tx simulate st1
         | (r, st1) \<Rightarrow> (r, st1)))"

fun increment_sequences ::
  "sdk \<Rightarrow> vm_lib \<Rightarrow> 'a auth_lib \<Rightarrow> bytes list \<Rightarrow> (('a, 'g) ante_state, core_error, unit) op" where
  "increment_sequences S L K [] st = (Ok (), st)"
| "increment_sequences S L K (addr # addrs) st =
     (case an_GetAccount S L K addr st of
        (Ok (Some acc), st1) \<Rightarrow>
          (case au_SetSequence K (acc_Sequence acc + 1) acc of
             None \<Rightarrow> (Panic, st1)
           | Some acc' \<Rightarrow>
               (case an_SetAccount S L K acc' st1 of
                  (Ok _, st2) \<Rightarrow> increment_sequences S L K addrs st2
                | (r, st2) \<Rightarrow> (r, st2)))
      | (_, st1) \<Rightarrow> (Panic, st1))"

definition IncrementSequenceDecorator ::
  "sdk \<Rightarrow> vm_lib \<Rightarrow> 'a auth_lib \<Rightarrow> ('a, 'g, 'x) ante_lib \<Rightarrow> ('a, 'g, 'x) AnteDecorator" where
  "IncrementSequenceDecorator S L K A nxt ctx tx simulate st =
     (if \<not> tx_IsSigTx (al_Tx A) tx then (Err CoreErrTxDecode, st)
      else
        (case increment_sequences S L K (tx_Signers (al_Tx A) tx) st of
           (Ok _, st1) \<Rightarrow> nxt ctx tx simulate st1
         | (r, st1) \<Rightarrow> (r, st1)))"

text \<open>The chain: every decorator runs the rest of it; the last one runs a handler that accepts.\<close>

definition ante_end :: "('a, 'g, 'x) AnteHandler" where
  "ante_end ctx tx simulate st = (Ok (), st)"

definition NewAnteHandler :: "sdk \<Rightarrow> vm_lib \<Rightarrow> 'a auth_lib \<Rightarrow> ('a, 'g, 'x) ante_lib \<Rightarrow> ('a, 'g, 'x) AnteHandler" where
  "NewAnteHandler S L K A =
     DenomDecorator A (al_SetUpContext A (al_MempoolFee A (al_ValidateBasic A (al_ValidateMemo A
       (ConsumeTxSizeGasDecorator S L K A (SetPubKeyDecorator S L K A (al_ValidateSigCount A
       (DeductFeeDecorator S L K A (SigGasConsumeDecorator S L K A (SigVerificationDecorator S L K A
       (IncrementSequenceDecorator S L K A ante_end)))))))))))"

section \<open>What the SDK promises\<close>

text \<open>
  \<open>keeps\<close>: accounts keep their number, sequence and key, and an account that appears has no key. A decorator of the SDK changes no account before it runs
  the rest of the chain; the transfer of a fee changes coins only.
\<close>

definition same_id :: "Account \<Rightarrow> Account \<Rightarrow> bool" where
  "same_id acc acc' \<longleftrightarrow>
     acc_Address acc' = acc_Address acc \<and> acc_PubKey acc' = acc_PubKey acc \<and> acc_Number acc' = acc_Number acc \<and> acc_Sequence acc' = acc_Sequence acc"

definition keeps :: "'a auth_lib \<Rightarrow> 'a va_state \<Rightarrow> 'a va_state \<Rightarrow> bool" where
  "keeps K w w' \<longleftrightarrow>
     (\<forall>b acc. au_Get K b (va_auth w) = Some acc \<longrightarrow> (\<exists>acc'. au_Get K b (va_auth w') = Some acc' \<and> same_id acc acc')) \<and>
     (\<forall>b acc'. au_Get K b (va_auth w) = None \<longrightarrow> au_Get K b (va_auth w') = Some acc' \<longrightarrow> acc_PubKey acc' = None)"

definition auth_key_laws :: "'a auth_lib \<Rightarrow> bool" where
  "auth_key_laws K \<longleftrightarrow>
     (\<forall>pk acc acc'. au_SetPubKey K pk acc = Some acc' \<longrightarrow> acc' = acc\<lparr>acc_PubKey := Some pk\<rparr>) \<and>
     (\<forall>q acc acc'. au_SetSequence K q acc = Some acc' \<longrightarrow> acc' = acc\<lparr>acc_Sequence := q\<rparr>) \<and>
     (\<forall>a s. acc_PubKey (fst (au_New K a s)) = None)"

definition dec_law :: "('a, 'g, 'x) AnteDecorator \<Rightarrow> bool" where
  "dec_law D \<longleftrightarrow>
     (\<forall>nxt ctx tx sim st st'. D nxt ctx tx sim st = (Ok (), st') \<longrightarrow> (\<exists>st1. an_va st1 = an_va st \<and> nxt ctx tx sim st1 = (Ok (), st')))"

definition ante_laws :: "'a auth_lib \<Rightarrow> ('a, 'g, 'x) ante_lib \<Rightarrow> bool" where
  "ante_laws K A \<longleftrightarrow>
     dec_law (al_SetUpContext A) \<and> dec_law (al_MempoolFee A) \<and> dec_law (al_ValidateBasic A) \<and> dec_law (al_ValidateMemo A) \<and> dec_law (al_ValidateSigCount A) \<and>
     (\<forall>acc fee w w'. al_DeductFees A acc fee w = (Ok (), w') \<longrightarrow> keeps K w w') \<and>
     (\<forall>cs. coins_IsZero A cs \<longleftrightarrow> (\<forall>c \<in> set cs. snd c = 0)) \<and>
     (\<forall>cs ds. coins_DenomsSubsetOf A cs ds \<longrightarrow> fst ` set cs \<subseteq> fst ` set ds)"

section \<open>The accounts under the chain\<close>

lemma same_id_refl [simp]: "same_id acc acc"
  by (simp add: same_id_def)

lemma same_id_coins [simp]: "same_id acc (acc\<lparr>acc_Coins := cs\<rparr>)"
  by (simp add: same_id_def)

lemma same_id_trans: "same_id a b \<Longrightarrow> same_id b c \<Longrightarrow> same_id a c"
  by (simp add: same_id_def)

lemma keeps_refl [simp]: "keeps K w w"
  by (auto simp: keeps_def)

lemma keepsD: "keeps K w w' \<Longrightarrow> au_Get K b (va_auth w) = Some acc \<Longrightarrow> \<exists>acc'. au_Get K b (va_auth w') = Some acc' \<and> same_id acc acc'"
  by (auto simp: keeps_def)

lemma keeps_new: "keeps K w w' \<Longrightarrow> au_Get K b (va_auth w) = None \<Longrightarrow> au_Get K b (va_auth w') = Some acc' \<Longrightarrow> acc_PubKey acc' = None"
  by (auto simp: keeps_def)

lemma keeps_trans:
  assumes "keeps K w w1" and "keeps K w1 w2"
  shows "keeps K w w2"
  unfolding keeps_def
proof (intro conjI allI impI)
  fix b acc
  assume "au_Get K b (va_auth w) = Some acc"
  then show "\<exists>acc'. au_Get K b (va_auth w2) = Some acc' \<and> same_id acc acc'"
    using keepsD [OF assms(1)] keepsD [OF assms(2)] same_id_trans by meson
next
  fix b acc'
  assume n: "au_Get K b (va_auth w) = None" and s: "au_Get K b (va_auth w2) = Some acc'"
  show "acc_PubKey acc' = None"
  proof (cases "au_Get K b (va_auth w1)")
    case None
    then show ?thesis using keeps_new [OF assms(2)] s by blast
  next
    case (Some acc1)
    then show ?thesis using keeps_new [OF assms(1) n] keepsD [OF assms(2) Some] s by (auto simp: same_id_def)
  qed
qed

lemma au_Get_Set: "auth_laws K \<Longrightarrow> au_Get K b (au_Set K acc s) = (if b = acc_Address acc then Some acc else au_Get K b s)"
  by (simp add: auth_laws_def)

lemma VA_SetAccount_Ok:
  "auth_laws K \<Longrightarrow> VA_SetAccount S L K acc w = (Ok u, w') \<Longrightarrow>
   au_Get K b (va_auth w') = (if b = acc_Address acc then Some acc else au_Get K b (va_auth w))"
proof -
  assume K: "auth_laws K" and "VA_SetAccount S L K acc w = (Ok u, w')"
  then have "va_auth w' = au_Set K acc (va_auth w)" by (auto simp: VA_SetAccount_def split: prod.splits res.splits if_splits)
  with K show ?thesis by (simp add: au_Get_Set)
qed

lemma set_real_coins_Ok:
  assumes "auth_laws K" and "set_real_coins S L K cs acc w = (Ok r, w')"
  shows "r = Some (acc\<lparr>acc_Coins := cs\<rparr>) \<and>
    (\<forall>b. au_Get K b (va_auth w') = (if b = acc_Address acc then Some (acc\<lparr>acc_Coins := cs\<rparr>) else au_Get K b (va_auth w)))"
proof -
  have "au_SetCoins K cs acc = Some (acc\<lparr>acc_Coins := cs\<rparr>)" using assms(1) by (simp add: auth_laws_def)
  with assms show ?thesis by (auto simp: set_real_coins_def VA_SetAccount_Ok split: prod.splits res.splits)
qed

lemma VA_GetAccount_Ok:
  assumes "auth_laws K" "auth_key_laws K" and g: "VA_GetAccount S L K a w = (Ok r, w')"
  shows "keeps K w w' \<and> au_Get K a (va_auth w') = r"
proof (cases "au_Get K a (va_auth w)")
  case None
  obtain acc au where n: "au_New K a (va_auth w) = (acc, au)" by fastforce
  have n': "acc_Address acc = a" "au_Get K b au = au_Get K b (va_auth w)" "acc_PubKey acc = None" for b
    using au_New_law [OF assms(1) n] n assms(2) by (auto simp: auth_key_laws_def) (metis fst_conv)
  have "r = None \<and> w' = w \<or> (\<exists>cs. set_real_coins S L K cs acc (w\<lparr>va_auth := au\<rparr>) = (Ok r, w'))"
    using g None n by (auto simp: VA_GetAccount_def split: res.splits option.splits if_splits)
  then show ?thesis
  proof
    assume "\<exists>cs. set_real_coins S L K cs acc (w\<lparr>va_auth := au\<rparr>) = (Ok r, w')"
    then obtain cs where "set_real_coins S L K cs acc (w\<lparr>va_auth := au\<rparr>) = (Ok r, w')" ..
    from set_real_coins_Ok [OF assms(1) this] n' None show ?thesis by (auto simp: keeps_def)
  qed (use None in simp)
next
  case (Some acc)
  have "acc_Address acc = a" using Some assms(1) unfolding auth_laws_def by blast
  have "r = Some acc \<and> w' = w \<or> (\<exists>cs. set_real_coins S L K cs acc w = (Ok r, w'))"
    using g Some by (auto simp: VA_GetAccount_def split: res.splits option.splits if_splits bool.splits)
  then show ?thesis
  proof
    assume "\<exists>cs. set_real_coins S L K cs acc w = (Ok r, w')"
    then obtain cs where "set_real_coins S L K cs acc w = (Ok r, w')" ..
    from set_real_coins_Ok [OF assms(1) this] Some \<open>acc_Address acc = a\<close> show ?thesis by (auto simp: keeps_def)
  qed (use Some in simp)
qed

lemma an_GetAccount_Ok:
  assumes "auth_laws K" "auth_key_laws K" and "an_GetAccount S L K a st = (Ok r, st')"
  shows "keeps K (an_va st) (an_va st') \<and> au_Get K a (va_auth (an_va st')) = r \<and> an_gas st' = an_gas st"
  using assms(3) VA_GetAccount_Ok [OF assms(1,2)] by (auto simp: an_GetAccount_def split: prod.splits res.splits)

lemma Core_GetSignerAcc_Ok:
  assumes "auth_laws K" "auth_key_laws K" and "Core_GetSignerAcc S L K a st = (Ok acc, st')"
  shows "keeps K (an_va st) (an_va st') \<and> au_Get K a (va_auth (an_va st')) = Some acc \<and> acc_Address acc = a"
proof -
  have "an_GetAccount S L K a st = (Ok (Some acc), st')" using assms(3) by (auto simp: Core_GetSignerAcc_def split: prod.splits res.splits option.splits)
  from an_GetAccount_Ok [OF assms(1,2) this] assms(1) show ?thesis unfolding auth_laws_def by blast
qed

lemma an_SetAccount_Ok:
  "auth_laws K \<Longrightarrow> an_SetAccount S L K acc st = (Ok u, st') \<Longrightarrow>
   au_Get K b (va_auth (an_va st')) = (if b = acc_Address acc then Some acc else au_Get K b (va_auth (an_va st)))"
  using VA_SetAccount_Ok by (fastforce simp: an_SetAccount_def split: prod.splits res.splits)

text \<open>Every key in the store belongs to its account; numbers and sequences are kept while keys are set.\<close>

definition keys_ok :: "'a auth_lib \<Rightarrow> ('a, 'g, 'x) ante_lib \<Rightarrow> 'a va_state \<Rightarrow> bool" where
  "keys_ok K A w \<longleftrightarrow> (\<forall>b acc pk. au_Get K b (va_auth w) = Some acc \<longrightarrow> acc_PubKey acc = Some pk \<longrightarrow> pk_Address A pk = b)"

definition keyed :: "'a auth_lib \<Rightarrow> ('a, 'g, 'x) ante_lib \<Rightarrow> 'a va_state \<Rightarrow> 'a va_state \<Rightarrow> bool" where
  "keyed K A w w' \<longleftrightarrow>
     (\<forall>b acc. au_Get K b (va_auth w) = Some acc \<longrightarrow>
        (\<exists>acc'. au_Get K b (va_auth w') = Some acc' \<and> acc_Number acc' = acc_Number acc \<and> acc_Sequence acc' = acc_Sequence acc \<and>
           (acc_PubKey acc \<noteq> None \<longrightarrow> acc_PubKey acc' = acc_PubKey acc))) \<and>
     (keys_ok K A w \<longrightarrow> keys_ok K A w')"

lemma keeps_keyed: "keeps K w w' \<Longrightarrow> keyed K A w w'"
proof -
  assume k: "keeps K w w'"
  have "keys_ok K A w'" if ok: "keys_ok K A w"
    unfolding keys_ok_def
  proof (intro allI impI)
    fix b acc' pk
    assume g: "au_Get K b (va_auth w') = Some acc'" "acc_PubKey acc' = Some pk"
    show "pk_Address A pk = b"
    proof (cases "au_Get K b (va_auth w)")
      case None
      then show ?thesis using keeps_new [OF k None g(1)] g(2) by simp
    next
      case (Some acc)
      from keepsD [OF k Some] g have "acc_PubKey acc = Some pk" by (auto simp: same_id_def)
      with ok Some show ?thesis unfolding keys_ok_def by blast
    qed
  qed
  moreover have "\<exists>acc'. au_Get K b (va_auth w') = Some acc' \<and> acc_Number acc' = acc_Number acc \<and> acc_Sequence acc' = acc_Sequence acc \<and>
      (acc_PubKey acc \<noteq> None \<longrightarrow> acc_PubKey acc' = acc_PubKey acc)"
    if "au_Get K b (va_auth w) = Some acc" for b acc
    using keepsD [OF k that] by (auto simp: same_id_def)
  ultimately show ?thesis unfolding keyed_def by blast
qed

lemma keyedD:
  "keyed K A w w' \<Longrightarrow> au_Get K b (va_auth w) = Some acc \<Longrightarrow>
   \<exists>acc'. au_Get K b (va_auth w') = Some acc' \<and> acc_Number acc' = acc_Number acc \<and> acc_Sequence acc' = acc_Sequence acc \<and>
     (acc_PubKey acc \<noteq> None \<longrightarrow> acc_PubKey acc' = acc_PubKey acc)"
  by (simp add: keyed_def)

lemma keyed_trans:
  assumes "keyed K A w w1" and "keyed K A w1 w2"
  shows "keyed K A w w2"
proof -
  have "\<exists>acc'. au_Get K b (va_auth w2) = Some acc' \<and> acc_Number acc' = acc_Number acc \<and> acc_Sequence acc' = acc_Sequence acc \<and>
      (acc_PubKey acc \<noteq> None \<longrightarrow> acc_PubKey acc' = acc_PubKey acc)" if g: "au_Get K b (va_auth w) = Some acc" for b acc
  proof -
    from keyedD [OF assms(1) g] obtain acc1 where a: "au_Get K b (va_auth w1) = Some acc1" "acc_Number acc1 = acc_Number acc"
      "acc_Sequence acc1 = acc_Sequence acc" "acc_PubKey acc \<noteq> None \<longrightarrow> acc_PubKey acc1 = acc_PubKey acc" by blast
    from keyedD [OF assms(2) a(1)] a(2-4) show ?thesis by auto
  qed
  moreover have "keys_ok K A w \<longrightarrow> keys_ok K A w2" using assms by (simp add: keyed_def)
  ultimately show ?thesis unfolding keyed_def by blast
qed

lemma keyed_refl [simp]: "keyed K A w w"
  by (simp add: keyed_def)

section \<open>The decorators on accepted transactions\<close>

lemma set_pub_key_Ok:
  assumes laws: "auth_laws K" "auth_key_laws K" and r: "set_pub_key S L K pk signer st = (Ok u, st')" and pk: "pk_Address A pk = signer"
  shows "keyed K A (an_va st) (an_va st')"
proof -
  from r obtain acc st1 where g: "Core_GetSignerAcc S L K signer st = (Ok acc, st1)"
    by (auto simp: set_pub_key_def split: prod.splits res.splits)
  from Core_GetSignerAcc_Ok [OF laws this] have k: "keyed K A (an_va st) (an_va st1)" and a: "au_Get K signer (va_auth (an_va st1)) = Some acc" "acc_Address acc = signer"
    by (auto intro: keeps_keyed)
  show ?thesis
  proof (cases "acc_PubKey acc")
    case None
    then obtain acc' where s: "au_SetPubKey K pk acc = Some acc'" "an_SetAccount S L K acc' st1 = (Ok u, st')"
      using r g by (auto simp: set_pub_key_def split: option.splits)
    have acc': "acc' = acc\<lparr>acc_PubKey := Some pk\<rparr>" using s(1) laws(2) by (simp add: auth_key_laws_def)
    have g': "au_Get K b (va_auth (an_va st')) = (if b = signer then Some (acc\<lparr>acc_PubKey := Some pk\<rparr>) else au_Get K b (va_auth (an_va st1)))" for b
      using an_SetAccount_Ok [OF laws(1) s(2)] a(2) acc' by simp
    have "keyed K A (an_va st1) (an_va st')" unfolding keyed_def keys_ok_def g' using a(1) pk None by simp
    with k show ?thesis by (rule keyed_trans)
  next
    case (Some x)
    with r g k show ?thesis by (auto simp: set_pub_key_def)
  qed
qed

lemma set_pub_keys_Ok:
  assumes laws: "auth_laws K" "auth_key_laws K"
  shows "set_pub_keys S L K A False keys signers st = (Ok u, st') \<Longrightarrow> keyed K A (an_va st) (an_va st')"
proof (induction keys arbitrary: signers st)
  case (Cons key keys)
  show ?case
  proof (cases key)
    case None
    with Cons show ?thesis by simp
  next
    case (Some pk)
    with Cons.prems obtain signers' st1 where s: "signers = pk_Address A pk # signers'" "set_pub_key S L K pk (pk_Address A pk) st = (Ok (), st1)"
      "set_pub_keys S L K A False keys signers' st1 = (Ok u, st')"
      by (auto simp: Let_def split: list.splits if_splits prod.splits res.splits)
    from set_pub_key_Ok [OF laws s(2) refl] Cons.IH [OF s(3)] show ?thesis by (rule keyed_trans)
  qed
qed simp

lemma sigs_gas_Ok:
  assumes laws: "auth_laws K" "auth_key_laws K"
  shows "sigs_gas S L K A sim sigs signers st = (Ok u, st') \<Longrightarrow> keeps K (an_va st) (an_va st')"
proof (induction sigs arbitrary: signers st)
  case (Cons sig sigs)
  from Cons.prems obtain signer signers' where s: "signers = signer # signers'" by (cases signers) auto
  with Cons.prems obtain acc st1 g where c: "Core_GetSignerAcc S L K signer st = (Ok acc, st1)"
    "sigs_gas S L K A sim sigs signers' (st1\<lparr>an_gas := g\<rparr>) = (Ok u, st')"
    by (auto simp: Let_def split: if_splits prod.splits res.splits)
  from Core_GetSignerAcc_Ok [OF laws c(1)] have "keeps K (an_va st) (an_va st1)" by blast
  moreover from Cons.IH [OF c(2)] have "keeps K (an_va st1) (an_va st')" by simp
  ultimately show ?case by (rule keeps_trans)
qed simp

definition verified :: "('a, 'g, 'x) ante_lib \<Rightarrow> ante_ctx \<Rightarrow> 'x \<Rightarrow> Account \<Rightarrow> bytes option \<Rightarrow> bool" where
  "verified A ctx tx acc sig \<longleftrightarrow> (\<exists>pk. acc_PubKey acc = Some pk \<and> pk_VerifyBytes A pk (tx_SignBytes (al_Tx A) ctx acc tx) sig)"

lemma verify_sigs_Ok:
  assumes laws: "auth_laws K" "auth_key_laws K"
  shows "verify_sigs S L K A ctx tx False sigs signers st = (Ok u, st') \<Longrightarrow>
    keeps K (an_va st) (an_va st') \<and>
    (\<forall>(sig, signer) \<in> set (zip sigs signers). \<exists>acc acc'. verified A ctx tx acc sig \<and> au_Get K signer (va_auth (an_va st')) = Some acc' \<and> same_id acc acc')"
proof (induction sigs arbitrary: signers st)
  case (Cons sig sigs)
  from Cons.prems obtain signer signers' where s: "signers = signer # signers'" by (cases signers) auto
  with Cons.prems obtain acc st1 pk where c: "Core_GetSignerAcc S L K signer st = (Ok acc, st1)" "acc_PubKey acc = Some pk"
    "pk_VerifyBytes A pk (tx_SignBytes (al_Tx A) ctx acc tx) sig" "verify_sigs S L K A ctx tx False sigs signers' st1 = (Ok u, st')"
    by (auto simp: Let_def split: if_splits prod.splits res.splits option.splits)
  from Core_GetSignerAcc_Ok [OF laws c(1)] have k: "keeps K (an_va st) (an_va st1)" and a: "au_Get K signer (va_auth (an_va st1)) = Some acc" by auto
  note ih = Cons.IH [OF c(4)]
  from ih have k1: "keeps K (an_va st1) (an_va st')" by blast
  from keepsD [OF k1 a] c(2,3) have "\<exists>acc acc'. verified A ctx tx acc sig \<and> au_Get K signer (va_auth (an_va st')) = Some acc' \<and> same_id acc acc'"
    by (auto simp: verified_def)
  with ih s keeps_trans [OF k k1] show ?case by auto
qed simp

definition stepped :: "Account \<Rightarrow> Account \<Rightarrow> bool" where
  "stepped acc acc' \<longleftrightarrow>
     acc_PubKey acc' = acc_PubKey acc \<and> acc_Number acc' = acc_Number acc \<and> acc_Sequence acc' = acc_Sequence acc + 1"

lemma increment_sequences_Ok:
  assumes laws: "auth_laws K" "auth_key_laws K"
  shows "distinct addrs \<Longrightarrow> increment_sequences S L K addrs st = (Ok u, st') \<Longrightarrow>
    (keys_ok K A (an_va st) \<longrightarrow> keys_ok K A (an_va st')) \<and>
    (\<forall>b acc. au_Get K b (va_auth (an_va st)) = Some acc \<longrightarrow>
       (\<exists>acc'. au_Get K b (va_auth (an_va st')) = Some acc' \<and> (if b \<in> set addrs then stepped acc acc' else same_id acc acc')))"
proof (induction addrs arbitrary: st)
  case (Cons addr addrs)
  from Cons.prems obtain acc st1 acc1 st2 where c: "an_GetAccount S L K addr st = (Ok (Some acc), st1)"
    "au_SetSequence K (acc_Sequence acc + 1) acc = Some acc1" "an_SetAccount S L K acc1 st1 = (Ok (), st2)"
    "increment_sequences S L K addrs st2 = (Ok u, st')"
    by (auto split: prod.splits res.splits option.splits)
  have acc1: "acc1 = acc\<lparr>acc_Sequence := acc_Sequence acc + 1\<rparr>" using c(2) laws(2) by (simp add: auth_key_laws_def)
  from an_GetAccount_Ok [OF laws c(1)] have k: "keeps K (an_va st) (an_va st1)" and g: "au_Get K addr (va_auth (an_va st1)) = Some acc" by auto
  then have addr: "acc_Address acc = addr" using laws(1) unfolding auth_laws_def by blast
  have g2: "au_Get K b (va_auth (an_va st2)) = (if b = addr then Some acc1 else au_Get K b (va_auth (an_va st1)))" for b
    using an_SetAccount_Ok [OF laws(1) c(3)] acc1 addr by simp
  have ok: "keys_ok K A (an_va st1) \<longrightarrow> keys_ok K A (an_va st2)" using g g2 acc1 by (auto simp: keys_ok_def)
  have ih: "keys_ok K A (an_va st2) \<longrightarrow> keys_ok K A (an_va st')"
    "\<And>b acc. au_Get K b (va_auth (an_va st2)) = Some acc \<Longrightarrow>
       \<exists>acc'. au_Get K b (va_auth (an_va st')) = Some acc' \<and> (if b \<in> set addrs then stepped acc acc' else same_id acc acc')"
    using Cons.IH [OF _ c(4)] Cons.prems(1) by auto
  have "\<exists>acc'. au_Get K b (va_auth (an_va st')) = Some acc' \<and> (if b \<in> set (addr # addrs) then stepped acc0 acc' else same_id acc0 acc')"
    if b: "au_Get K b (va_auth (an_va st)) = Some acc0" for b acc0
  proof -
    from keepsD [OF k b] obtain acc2 where a2: "au_Get K b (va_auth (an_va st1)) = Some acc2" "same_id acc0 acc2" by blast
    show ?thesis
    proof (cases "b = addr")
      case True
      then have "au_Get K b (va_auth (an_va st2)) = Some acc1" "b \<notin> set addrs" using g2 Cons.prems(1) by auto
      with ih(2) obtain acc' where "au_Get K b (va_auth (an_va st')) = Some acc'" "same_id acc1 acc'" by fastforce
      then show ?thesis using True a2 g acc1 by (auto simp: same_id_def stepped_def)
    next
      case False
      then have "au_Get K b (va_auth (an_va st2)) = Some acc2" using g2 a2 by simp
      from ih(2) [OF this] False a2(2) show ?thesis by (auto simp: same_id_def stepped_def)
    qed
  qed
  moreover have "keys_ok K A (an_va st) \<longrightarrow> keys_ok K A (an_va st')" using keeps_keyed [OF k, of A] ok ih(1) by (auto simp: keyed_def)
  ultimately show ?case by blast
qed auto

section \<open>The chain\<close>

lemma dec_lawD: "dec_law D \<Longrightarrow> D nxt ctx tx sim st = (Ok (), st') \<Longrightarrow> \<exists>st1. an_va st1 = an_va st \<and> nxt ctx tx sim st1 = (Ok (), st')"
  by (simp add: dec_law_def)

lemma sdk_decs:
  assumes "dec_law D1" "dec_law D2" "dec_law D3" "dec_law D4" and "D1 (D2 (D3 (D4 nxt))) ctx tx sim st = (Ok (), st')"
  shows "\<exists>st1. an_va st1 = an_va st \<and> nxt ctx tx sim st1 = (Ok (), st')"
proof -
  from dec_lawD [OF assms(1), OF assms(5)] obtain st1 where 1: "an_va st1 = an_va st" "D2 (D3 (D4 nxt)) ctx tx sim st1 = (Ok (), st')" by blast
  from dec_lawD [OF assms(2), OF 1(2)] obtain st2 where 2: "an_va st2 = an_va st1" "D3 (D4 nxt) ctx tx sim st2 = (Ok (), st')" by blast
  from dec_lawD [OF assms(3), OF 2(2)] obtain st3 where 3: "an_va st3 = an_va st2" "D4 nxt ctx tx sim st3 = (Ok (), st')" by blast
  from dec_lawD [OF assms(4), OF 3(2)] 1 2 3 show ?thesis by auto
qed

lemma DenomDecorator_Ok:
  assumes "ante_laws K A" and "DenomDecorator A nxt ctx tx sim st = (Ok (), st')"
  shows "nxt ctx tx sim st = (Ok (), st') \<and>
    (0 < ctx_Height ctx \<longrightarrow> (\<exists>c \<in> set (tx_Fee (al_Tx A) tx). snd c \<noteq> 0) \<and> fst ` set (tx_Fee (al_Tx A) tx) \<subseteq> {MainDenom})"
  using assms by (fastforce simp: DenomDecorator_def Let_def ante_laws_def DefaultFees_def split: if_splits)

lemma ConsumeTxSizeGasDecorator_Ok:
  assumes "ConsumeTxSizeGasDecorator S L K A nxt ctx tx False st = (Ok (), st')"
  shows "\<exists>st1. an_va st1 = an_va st \<and> nxt ctx tx False st1 = (Ok (), st')"
proof -
  from assms obtain g where "nxt ctx tx False (st\<lparr>an_gas := g\<rparr>) = (Ok (), st')"
    by (auto simp: ConsumeTxSizeGasDecorator_def consume_gas_def split: if_splits option.splits)
  then show ?thesis by (intro exI [of _ "st\<lparr>an_gas := g\<rparr>"]) simp
qed

lemma SetPubKeyDecorator_Ok:
  assumes "auth_laws K" "auth_key_laws K" and "SetPubKeyDecorator S L K A nxt ctx tx False st = (Ok (), st')"
  shows "\<exists>st1. keyed K A (an_va st) (an_va st1) \<and> nxt ctx tx False st1 = (Ok (), st')"
  using assms(3) set_pub_keys_Ok [OF assms(1,2)] by (fastforce simp: SetPubKeyDecorator_def split: if_splits prod.splits res.splits)

lemma DeductFeeDecorator_Ok:
  assumes "auth_laws K" "auth_key_laws K" "ante_laws K A" and "DeductFeeDecorator S L K A nxt ctx tx sim st = (Ok (), st')"
  shows "\<exists>st1. keeps K (an_va st) (an_va st1) \<and> nxt ctx tx sim st1 = (Ok (), st') \<and>
    ((\<exists>c \<in> set (tx_Fee (al_Tx A) tx). snd c \<noteq> 0) \<longrightarrow>
       (\<exists>acc w. acc_Address acc = tx_FeePayer (al_Tx A) tx \<and> keeps K (an_va st) w \<and> al_DeductFees A acc (tx_Fee (al_Tx A) tx) w = (Ok (), an_va st1)))"
proof -
  from assms(4) obtain acc st1 where g: "an_GetAccount S L K (tx_FeePayer (al_Tx A) tx) st = (Ok (Some acc), st1)"
    by (auto simp: DeductFeeDecorator_def split: if_splits prod.splits res.splits option.splits)
  from an_GetAccount_Ok [OF assms(1,2) g] have k: "keeps K (an_va st) (an_va st1)" "acc_Address acc = tx_FeePayer (al_Tx A) tx"
    using assms(1) unfolding auth_laws_def by blast+
  show ?thesis
  proof (cases "coins_IsZero A (tx_Fee (al_Tx A) tx)")
    case True
    then have "\<not> (\<exists>c \<in> set (tx_Fee (al_Tx A) tx). snd c \<noteq> 0)" using assms(3) by (simp add: ante_laws_def)
    moreover have "nxt ctx tx sim st1 = (Ok (), st')" using True g assms(4) by (auto simp: DeductFeeDecorator_def split: if_splits)
    ultimately show ?thesis using k(1) by blast
  next
    case False
    with g assms(4) obtain w where w: "al_DeductFees A acc (tx_Fee (al_Tx A) tx) (an_va st1) = (Ok (), w)" "nxt ctx tx sim (st1\<lparr>an_va := w\<rparr>) = (Ok (), st')"
      by (auto simp: DeductFeeDecorator_def split: if_splits prod.splits res.splits)
    have "keeps K (an_va st1) w" using w(1) assms(3) by (simp add: ante_laws_def)
    then have "keeps K (an_va st) w" by (rule keeps_trans [OF k(1)])
    with w k show ?thesis by (intro exI [of _ "st1\<lparr>an_va := w\<rparr>"]) auto
  qed
qed

lemma SigGasConsumeDecorator_Ok:
  assumes "auth_laws K" "auth_key_laws K" and "SigGasConsumeDecorator S L K A nxt ctx tx sim st = (Ok (), st')"
  shows "\<exists>st1. keeps K (an_va st) (an_va st1) \<and> nxt ctx tx sim st1 = (Ok (), st')"
  using assms(3) sigs_gas_Ok [OF assms(1,2)] by (fastforce simp: SigGasConsumeDecorator_def split: if_splits prod.splits res.splits)

lemma SigVerificationDecorator_Ok:
  assumes "auth_laws K" "auth_key_laws K" and "SigVerificationDecorator S L K A nxt ctx tx False st = (Ok (), st')" and "\<not> ctx_ReCheck ctx"
  shows "length (tx_Sigs (al_Tx A) tx) = length (tx_Signers (al_Tx A) tx) \<and>
    (\<exists>st1. keeps K (an_va st) (an_va st1) \<and> nxt ctx tx False st1 = (Ok (), st') \<and>
      (\<forall>(sig, signer) \<in> set (zip (tx_Sigs (al_Tx A) tx) (tx_Signers (al_Tx A) tx)).
         \<exists>acc acc'. verified A ctx tx acc sig \<and> au_Get K signer (va_auth (an_va st1)) = Some acc' \<and> same_id acc acc'))"
proof -
  from assms(3,4) obtain st1 where s: "length (tx_Sigs (al_Tx A) tx) = length (tx_Signers (al_Tx A) tx)" "nxt ctx tx False st1 = (Ok (), st')"
    "verify_sigs S L K A ctx tx False (tx_Sigs (al_Tx A) tx) (tx_Signers (al_Tx A) tx) st = (Ok (), st1)"
    by (auto simp: SigVerificationDecorator_def split: if_splits prod.splits res.splits)
  from verify_sigs_Ok [OF assms(1,2) s(3)] s(1,2) show ?thesis by blast
qed

lemma IncrementSequenceDecorator_Ok:
  assumes "IncrementSequenceDecorator S L K A ante_end ctx tx sim st = (Ok (), st')"
  shows "increment_sequences S L K (tx_Signers (al_Tx A) tx) st = (Ok (), st')"
  using assms by (auto simp: IncrementSequenceDecorator_def ante_end_def split: if_splits prod.splits res.splits)

lemma ante_chain:
  assumes laws: "auth_laws K" "auth_key_laws K" "ante_laws K A" and run: "NewAnteHandler S L K A ctx tx False st = (Ok (), st')" and "\<not> ctx_ReCheck ctx"
  shows "(0 < ctx_Height ctx \<longrightarrow>
      fst ` set (tx_Fee (al_Tx A) tx) \<subseteq> {MainDenom} \<and>
      (\<exists>acc w w'. acc_Address acc = tx_FeePayer (al_Tx A) tx \<and> keyed K A (an_va st) w \<and> al_DeductFees A acc (tx_Fee (al_Tx A) tx) w = (Ok (), w'))) \<and>
    length (tx_Sigs (al_Tx A) tx) = length (tx_Signers (al_Tx A) tx) \<and>
    (\<exists>st1. keyed K A (an_va st) (an_va st1) \<and> increment_sequences S L K (tx_Signers (al_Tx A) tx) st1 = (Ok (), st') \<and>
      (\<forall>(sig, signer) \<in> set (zip (tx_Sigs (al_Tx A) tx) (tx_Signers (al_Tx A) tx)).
         \<exists>acc acc'. verified A ctx tx acc sig \<and> au_Get K signer (va_auth (an_va st1)) = Some acc' \<and> same_id acc acc'))"
proof -
  have d: "dec_law (al_SetUpContext A)" "dec_law (al_MempoolFee A)" "dec_law (al_ValidateBasic A)" "dec_law (al_ValidateMemo A)" "dec_law (al_ValidateSigCount A)"
    using laws(3) by (simp_all add: ante_laws_def)
  note r = DenomDecorator_Ok [OF laws(3) run [unfolded NewAnteHandler_def]]
  from r have fee: "0 < ctx_Height ctx \<longrightarrow> (\<exists>c \<in> set (tx_Fee (al_Tx A) tx). snd c \<noteq> 0) \<and> fst ` set (tx_Fee (al_Tx A) tx) \<subseteq> {MainDenom}" by blast
  from sdk_decs [OF d(1-4), OF conjunct1 [OF r]] obtain st0 where "an_va st0 = an_va st" and
    "ConsumeTxSizeGasDecorator S L K A (SetPubKeyDecorator S L K A (al_ValidateSigCount A
       (DeductFeeDecorator S L K A (SigGasConsumeDecorator S L K A (SigVerificationDecorator S L K A
       (IncrementSequenceDecorator S L K A ante_end)))))) ctx tx False st0 = (Ok (), st')" by blast
  from this(1) ConsumeTxSizeGasDecorator_Ok [OF this(2)] obtain st1 where "an_va st1 = an_va st" and
    "SetPubKeyDecorator S L K A (al_ValidateSigCount A
       (DeductFeeDecorator S L K A (SigGasConsumeDecorator S L K A (SigVerificationDecorator S L K A
       (IncrementSequenceDecorator S L K A ante_end))))) ctx tx False st1 = (Ok (), st')" by auto
  from this(1) SetPubKeyDecorator_Ok [OF laws(1,2) this(2)] obtain st1' where k1: "keyed K A (an_va st) (an_va st1')" and
    "al_ValidateSigCount A
       (DeductFeeDecorator S L K A (SigGasConsumeDecorator S L K A (SigVerificationDecorator S L K A
       (IncrementSequenceDecorator S L K A ante_end)))) ctx tx False st1' = (Ok (), st')" by auto
  from dec_lawD [OF d(5), OF this(2)] obtain st2 where e2: "an_va st2 = an_va st1'" and
    "DeductFeeDecorator S L K A (SigGasConsumeDecorator S L K A (SigVerificationDecorator S L K A
       (IncrementSequenceDecorator S L K A ante_end))) ctx tx False st2 = (Ok (), st')" by blast
  from DeductFeeDecorator_Ok [OF laws this(2)] obtain st3 where k3: "keeps K (an_va st2) (an_va st3)" and
    pay: "(\<exists>c \<in> set (tx_Fee (al_Tx A) tx). snd c \<noteq> 0) \<longrightarrow>
       (\<exists>acc w. acc_Address acc = tx_FeePayer (al_Tx A) tx \<and> keeps K (an_va st2) w \<and> al_DeductFees A acc (tx_Fee (al_Tx A) tx) w = (Ok (), an_va st3))" and
    "SigGasConsumeDecorator S L K A (SigVerificationDecorator S L K A (IncrementSequenceDecorator S L K A ante_end)) ctx tx False st3 = (Ok (), st')" by blast
  from SigGasConsumeDecorator_Ok [OF laws(1,2) this(3)] obtain st4 where k4: "keeps K (an_va st3) (an_va st4)" and
    "SigVerificationDecorator S L K A (IncrementSequenceDecorator S L K A ante_end) ctx tx False st4 = (Ok (), st')" by blast
  from SigVerificationDecorator_Ok [OF laws(1,2) this(2) assms(5)] obtain st5 where k5: "keeps K (an_va st4) (an_va st5)" and
    v: "length (tx_Sigs (al_Tx A) tx) = length (tx_Signers (al_Tx A) tx)"
      "\<forall>(sig, signer) \<in> set (zip (tx_Sigs (al_Tx A) tx) (tx_Signers (al_Tx A) tx)).
         \<exists>acc acc'. verified A ctx tx acc sig \<and> au_Get K signer (va_auth (an_va st5)) = Some acc' \<and> same_id acc acc'" and
    "IncrementSequenceDecorator S L K A ante_end ctx tx False st5 = (Ok (), st')" by blast
  note i = IncrementSequenceDecorator_Ok [OF this(4)]
  have k2: "keyed K A (an_va st) (an_va st2)" using k1 e2 by simp
  have "keyed K A (an_va st) (an_va st5)"
    using keyed_trans [OF k2] keeps_keyed [OF keeps_trans [OF k3 keeps_trans [OF k4 k5]]] by blast
  moreover have "0 < ctx_Height ctx \<longrightarrow> (\<exists>acc w w'. acc_Address acc = tx_FeePayer (al_Tx A) tx \<and> keyed K A (an_va st) w \<and> al_DeductFees A acc (tx_Fee (al_Tx A) tx) w = (Ok (), w'))"
    using fee pay keyed_trans [OF k2] keeps_keyed by meson
  ultimately show ?thesis using fee v i by blast
qed

text \<open>What an accepted transaction says of its signers, and of the other accounts.\<close>

definition signed_by :: "'a auth_lib \<Rightarrow> ('a, 'g, 'x) ante_lib \<Rightarrow> ante_ctx \<Rightarrow> 'x \<Rightarrow> 'a va_state \<Rightarrow> 'a va_state \<Rightarrow> bytes option \<Rightarrow> bytes \<Rightarrow> bool" where
  "signed_by K A ctx tx w w' sig signer \<longleftrightarrow>
     (\<exists>acc pk acc'. acc_PubKey acc = Some pk \<and> pk_Address A pk = signer \<and> pk_VerifyBytes A pk (tx_SignBytes (al_Tx A) ctx acc tx) sig \<and>
        au_Get K signer (va_auth w') = Some acc' \<and> stepped acc acc' \<and>
        (\<forall>acc0. au_Get K signer (va_auth w) = Some acc0 \<longrightarrow>
           acc_Number acc = acc_Number acc0 \<and> acc_Sequence acc = acc_Sequence acc0 \<and> (acc_PubKey acc0 \<noteq> None \<longrightarrow> acc_PubKey acc0 = Some pk)))"

lemma ante_signed:
  assumes "auth_laws K" "auth_key_laws K" "ante_laws K A" and "NewAnteHandler S L K A ctx tx False st = (Ok (), st')" and "\<not> ctx_ReCheck ctx"
    and "distinct (tx_Signers (al_Tx A) tx)" and "keys_ok K A (an_va st)"
  shows "keys_ok K A (an_va st') \<and>
    (\<forall>(sig, signer) \<in> set (zip (tx_Sigs (al_Tx A) tx) (tx_Signers (al_Tx A) tx)). signed_by K A ctx tx (an_va st) (an_va st') sig signer) \<and>
    (\<forall>b acc0. b \<notin> set (tx_Signers (al_Tx A) tx) \<longrightarrow> au_Get K b (va_auth (an_va st)) = Some acc0 \<longrightarrow>
       (\<exists>acc'. au_Get K b (va_auth (an_va st')) = Some acc' \<and> acc_Number acc' = acc_Number acc0 \<and> acc_Sequence acc' = acc_Sequence acc0))"
proof -
  let ?ss = "zip (tx_Sigs (al_Tx A) tx) (tx_Signers (al_Tx A) tx)"
  from ante_chain [OF assms(1-5)] obtain st1 where
    k: "keyed K A (an_va st) (an_va st1)" and i: "increment_sequences S L K (tx_Signers (al_Tx A) tx) st1 = (Ok (), st')" and
    v: "\<forall>(sig, signer) \<in> set ?ss. \<exists>acc acc'. verified A ctx tx acc sig \<and> au_Get K signer (va_auth (an_va st1)) = Some acc' \<and> same_id acc acc'" by blast
  from increment_sequences_Ok [OF assms(1,2,6) i, of A] have
    ok: "keys_ok K A (an_va st1) \<longrightarrow> keys_ok K A (an_va st')" and
    st: "\<And>b acc. au_Get K b (va_auth (an_va st1)) = Some acc \<Longrightarrow>
      \<exists>acc'. au_Get K b (va_auth (an_va st')) = Some acc' \<and> (if b \<in> set (tx_Signers (al_Tx A) tx) then stepped acc acc' else same_id acc acc')" by blast+
  have ok1: "keys_ok K A (an_va st1)" using k assms(7) by (simp add: keyed_def)
  have "signed_by K A ctx tx (an_va st) (an_va st') sig signer" if s: "(sig, signer) \<in> set ?ss" for sig signer
  proof -
    from v s obtain acc acc1 where a: "verified A ctx tx acc sig" "au_Get K signer (va_auth (an_va st1)) = Some acc1" "same_id acc acc1" by blast
    from st [OF a(2)] s obtain acc' where acc': "au_Get K signer (va_auth (an_va st')) = Some acc'" "stepped acc1 acc'" by (auto dest: set_zip_rightD)
    from a obtain pk where pk: "acc_PubKey acc = Some pk" "pk_VerifyBytes A pk (tx_SignBytes (al_Tx A) ctx acc tx) sig" by (auto simp: verified_def)
    have "pk_Address A pk = signer" using ok1 a pk(1) by (auto simp: keys_ok_def same_id_def)
    moreover have "acc_Number acc = acc_Number acc0 \<and> acc_Sequence acc = acc_Sequence acc0 \<and> (acc_PubKey acc0 \<noteq> None \<longrightarrow> acc_PubKey acc0 = Some pk)"
      if "au_Get K signer (va_auth (an_va st)) = Some acc0" for acc0
      using keyedD [OF k that] a(2,3) pk(1) by (auto simp: same_id_def)
    moreover have "stepped acc acc'" using acc'(2) a(3) by (simp add: same_id_def stepped_def)
    ultimately show ?thesis using pk acc'(1) unfolding signed_by_def by blast
  qed
  moreover have "\<exists>acc'. au_Get K b (va_auth (an_va st')) = Some acc' \<and> acc_Number acc' = acc_Number acc0 \<and> acc_Sequence acc' = acc_Sequence acc0"
    if "b \<notin> set (tx_Signers (al_Tx A) tx)" "au_Get K b (va_auth (an_va st)) = Some acc0" for b acc0
    using keyedD [OF k that(2)] that(1) st by (fastforce simp: same_id_def)
  ultimately show ?thesis using ok ok1 by blast
qed



section \<open>An example\<close>

text \<open>
  A reference library: a transaction is a record of its parts, a key is its own address, a signature is the key followed by the signed bytes,
  which are as many letters as the sequence number; fees leave the account.
\<close>

record ref_tx =
  rt_Fee :: "coin list"
  rt_Signers :: "bytes list"
  rt_PubKeys :: "bytes option list"
  rt_Sigs :: "bytes option list"

definition ref_tx_lib :: "ref_tx tx_lib" where
  "ref_tx_lib = \<lparr>tx_IsStdTx = (\<lambda>_. True), tx_IsSigTx = (\<lambda>_. True), tx_IsFeeTx = (\<lambda>_. True), tx_Fee = rt_Fee,
     tx_FeePayer = (\<lambda>tx. case rt_Signers tx of [] \<Rightarrow> [] | a # _ \<Rightarrow> a), tx_Signers = rt_Signers, tx_PubKeys = rt_PubKeys, tx_Sigs = rt_Sigs,
     tx_SignBytes = (\<lambda>ctx acc tx. replicate (unat (acc_Sequence acc)) CHR ''s'')\<rparr>"

definition ref_deduct :: "Account \<Rightarrow> coin list \<Rightarrow> ((Account list \<times> 64 word) va_state, core_error, unit) op" where
  "ref_deduct acc fee w =
     (case coins_Sub ref_auth (acc_Coins acc) fee of
        None \<Rightarrow> (Err CoreErrSdk, w)
      | Some cs \<Rightarrow>
          if au_Get ref_auth (acc_Address acc) (va_auth w) = Some acc
          then (Ok (), w\<lparr>va_auth := au_Set ref_auth (acc\<lparr>acc_Coins := cs\<rparr>) (va_auth w)\<rparr>) else (Err CoreErrSdk, w))"

definition ref_ante :: "(Account list \<times> 64 word, 64 word \<times> 64 word, ref_tx) ante_lib" where
  "ref_ante = \<lparr>al_Gas = ref_gas, al_Tx = ref_tx_lib, al_Params = \<lparr>TxSizeCostPerByte = 10, TxSigLimit = 7\<rparr>,
     al_SetGasMeter = (\<lambda>sim ctx limit. (limit, 0)), al_SetUpContext = (\<lambda>nxt ctx tx sim st. nxt ctx tx sim (st\<lparr>an_gas := (1000, 0)\<rparr>)),
     al_MempoolFee = (\<lambda>nxt. nxt), al_ValidateBasic = (\<lambda>nxt. nxt), al_ValidateMemo = (\<lambda>nxt. nxt), al_ValidateSigCount = (\<lambda>nxt. nxt),
     al_SigGas = (\<lambda>P sig pk g. (Ok (), g)), al_FeeCollector = Some ''fees'', al_DeductFees = ref_deduct, al_MarshalSig = (\<lambda>sig pk. sig @ pk),
     pk_Address = (\<lambda>pk. pk), pk_VerifyBytes = (\<lambda>pk bz sig. sig = Some (pk @ bz)), pk_IsMultisig = (\<lambda>_. False),
     coins_IsZero = (\<lambda>cs. \<forall>c \<in> set cs. snd c = 0), coins_DenomsSubsetOf = (\<lambda>cs ds. fst ` set cs \<subseteq> fst ` set ds)\<rparr>"

lemma ref_auth_key_laws: "auth_key_laws ref_auth"
  by (auto simp: auth_key_laws_def ref_auth_def split: if_splits)

lemma ref_deduct_keeps: "ref_deduct acc fee w = (Ok (), w') \<Longrightarrow> keeps ref_auth w w'"
proof -
  assume r: "ref_deduct acc fee w = (Ok (), w')"
  then obtain cs where g: "au_Get ref_auth (acc_Address acc) (va_auth w) = Some acc"
    "w' = w\<lparr>va_auth := au_Set ref_auth (acc\<lparr>acc_Coins := cs\<rparr>) (va_auth w)\<rparr>"
    by (auto simp: ref_deduct_def split: option.splits if_splits)
  then have "au_Get ref_auth b (va_auth w') = (if b = acc_Address acc then Some (acc\<lparr>acc_Coins := cs\<rparr>) else au_Get ref_auth b (va_auth w))" for b
    by (simp add: au_Get_Set [OF ref_auth_laws])
  then show ?thesis using g(1) by (auto simp: keeps_def)
qed

lemma ref_ante_laws: "ante_laws ref_auth ref_ante"
proof -
  have "dec_law (al_SetUpContext ref_ante)"
    unfolding dec_law_def
  proof (intro allI impI)
    fix nxt ctx tx sim st st'
    assume "al_SetUpContext ref_ante nxt ctx tx sim st = (Ok (), st')"
    then show "\<exists>st1. an_va st1 = an_va st \<and> nxt ctx tx sim st1 = (Ok (), st')"
      by (intro exI [of _ "st\<lparr>an_gas := (1000, 0)\<rparr>"]) (simp add: ref_ante_def)
  qed
  moreover have "dec_law (\<lambda>nxt. nxt)" by (auto simp: dec_law_def)
  moreover have "al_DeductFees ref_ante = ref_deduct" by (simp add: ref_ante_def)
  ultimately show ?thesis using ref_deduct_keeps unfolding ante_laws_def by (simp add: ref_ante_def)
qed

definition ex_payer :: "coin list \<Rightarrow> 64 word \<Rightarrow> Account" where
  "ex_payer cs n = \<lparr>acc_Address = ''payer'', acc_Coins = cs, acc_PubKey = Some ''payer'', acc_Number = 0, acc_Sequence = n, acc_Module = None\<rparr>"

definition ex_ante :: "(Account list \<times> 64 word, 64 word \<times> 64 word) ante_state" where
  "ex_ante = \<lparr>an_va = \<lparr>va_ccs = \<lparr>ccs_currencies = [], ccs_vm = []\<rparr>, va_auth = ([ex_payer [(''xfi'', 2)] 0], 1)\<rparr>, an_gas = (0, 0)\<rparr>"

definition ex_ctx :: ante_ctx where
  "ex_ctx = \<lparr>ctx_Height = 7, ctx_ReCheck = False, ctx_TxBytes = ''transfer''\<rparr>"

definition ex_tx :: ref_tx where
  "ex_tx = \<lparr>rt_Fee = [(''xfi'', 2)], rt_Signers = [''payer''], rt_PubKeys = [Some ''payer''], rt_Sigs = [Some ''payer'']\<rparr>"

definition ex_ante' :: "(Account list \<times> 64 word, 64 word \<times> 64 word) ante_state" where
  "ex_ante' = \<lparr>an_va = \<lparr>va_ccs = \<lparr>ccs_currencies = [], ccs_vm = []\<rparr>,
     va_auth = ([ex_payer [] 1], 1)\<rparr>, an_gas = (1000, 80)\<rparr>"

lemma ex_empty_get: "VA_GetAccount ref_sdk ref_vm_lib ref_auth a \<lparr>va_ccs = \<lparr>ccs_currencies = [], ccs_vm = []\<rparr>, va_auth = au\<rparr> =
    (Ok (au_Get ref_auth a au), \<lparr>va_ccs = \<lparr>ccs_currencies = [], ccs_vm = []\<rparr>, va_auth = au\<rparr>)"
  by (simp add: VA_GetAccount_def GetAccountBalanceResources_def GetCurrencies_def kv_vals_def)

lemma ex_empty_set:
  "au_Get ref_auth (acc_Address acc) au \<noteq> None \<Longrightarrow> acc_Coins acc = [] \<Longrightarrow>
   VA_SetAccount ref_sdk ref_vm_lib ref_auth acc \<lparr>va_ccs = \<lparr>ccs_currencies = [], ccs_vm = []\<rparr>, va_auth = au\<rparr> =
     (Ok (), \<lparr>va_ccs = \<lparr>ccs_currencies = [], ccs_vm = []\<rparr>, va_auth = au_Set ref_auth acc au\<rparr>)"
  by (simp add: VA_SetAccount_def SetAccountBalanceResources_def newBalances_def GetCurrencies_def kv_vals_def Let_def)

lemma ref_ante_sel:
  "al_Gas ref_ante = ref_gas" "al_Tx ref_ante = ref_tx_lib" "al_Params ref_ante = \<lparr>TxSizeCostPerByte = 10, TxSigLimit = 7\<rparr>"
  "al_SetUpContext ref_ante nxt ctx tx sim st = nxt ctx tx sim (st\<lparr>an_gas := (1000, 0)\<rparr>)"
  "al_MempoolFee ref_ante nxt = nxt" "al_ValidateBasic ref_ante nxt = nxt" "al_ValidateMemo ref_ante nxt = nxt" "al_ValidateSigCount ref_ante nxt = nxt"
  "al_SigGas ref_ante P sg key g = (Ok (), g)" "al_FeeCollector ref_ante = Some ''fees''" "al_DeductFees ref_ante = ref_deduct"
  "pk_Address ref_ante pk = pk" "pk_VerifyBytes ref_ante pk bz sg = (sg = Some (pk @ bz))"
  "coins_IsZero ref_ante cs = (\<forall>c \<in> set cs. snd c = 0)" "coins_DenomsSubsetOf ref_ante cs ds = (fst ` set cs \<subseteq> fst ` set ds)"
  by (simp_all add: ref_ante_def)

lemma ref_auth_sel:
  "au_Get ref_auth a s = List.find (\<lambda>x. acc_Address x = a) (fst s)"
  "au_Set ref_auth acc s = (acc # filter (\<lambda>x. acc_Address x \<noteq> acc_Address acc) (fst s), snd s)"
  "au_SetSequence ref_auth q acc = (if acc_Module acc = None then Some (acc\<lparr>acc_Sequence := q\<rparr>) else None)"
  "coins_Sub ref_auth cs ds = (if \<forall>(d, v) \<in> set ds. v \<le> coin_amount cs d
     then Some (filter (\<lambda>c. snd c \<noteq> 0) (map (\<lambda>c. (fst c, snd c - coin_amount ds (fst c))) cs)) else None)"
  by (simp_all add: ref_auth_def)

lemmas ante_decorators = NewAnteHandler_def DenomDecorator_def ConsumeTxSizeGasDecorator_def SetPubKeyDecorator_def DeductFeeDecorator_def
  SigGasConsumeDecorator_def SigVerificationDecorator_def IncrementSequenceDecorator_def ante_end_def consume_gas_def set_pub_key_def
  Core_GetSignerAcc_def an_GetAccount_def an_SetAccount_def

lemmas ex_ante_defs = ex_ante_def ex_ante'_def ex_ctx_def ex_tx_def ex_payer_def ref_tx_lib_def MainDenom_def DefaultFees_def

lemma ex_ante_run: "NewAnteHandler ref_sdk ref_vm_lib ref_auth ref_ante ex_ctx ex_tx False ex_ante = (Ok (), ex_ante')"
  by (simp add: ante_decorators ex_ante_defs ref_ante_sel ref_auth_sel ex_empty_get ex_empty_set ref_gas_def ref_deduct_def coin_amount_def Let_def)

lemma ex_ante_keys: "keys_ok ref_auth ref_ante (an_va ex_ante)"
  by (auto simp: keys_ok_def ref_auth_sel ref_ante_sel ex_ante_def ex_payer_def split: if_splits)



end
