(* ===== verification/GenAccounts.thy ===== *)
theory GenAccounts
  imports VMAuth
begin

text \<open>
  Module \<open>x/genaccounts\<close>: the accounts of the genesis, handed to the account keeper of \<open>VMAuth\<close>, which also builds up the supplies of the registry.
\<close>

section \<open>Genesis accounts\<close>

text \<open>The base account is an \<open>Account\<close> of which the module part is not used.\<close>

record GenesisAccount =
  ga_BaseAccount :: Account
  ga_ModuleName :: string
  ga_ModulePermissions :: "string list"

text \<open>
  The SDK: \<open>NewAccount\<close> gives an account the next number, \<open>ga_Sort\<close> is \<open>sort.Slice\<close> by account number, which is not stable, \<open>coins_Sort\<close> the order of
  coins, \<open>ga_Valid\<close> the validation of a base account.
\<close>

record 'a gen_lib =
  ga_NewAccount :: "Account \<Rightarrow> 'a \<Rightarrow> Account \<times> 'a"
  ga_Sort :: "GenesisAccount list \<Rightarrow> GenesisAccount list"
  coins_Sort :: "coin list \<Rightarrow> coin list"
  ga_Valid :: "Account \<Rightarrow> bool"

definition gen_laws :: "'a auth_lib \<Rightarrow> 'a gen_lib \<Rightarrow> bool" where
  "gen_laws K N \<longleftrightarrow>
     (\<forall>acc s. (\<exists>n. fst (ga_NewAccount N acc s) = acc\<lparr>acc_Number := n\<rparr>) \<and> (\<forall>b. au_Get K b (snd (ga_NewAccount N acc s)) = au_Get K b s)) \<and>
     (\<forall>gs. mset (ga_Sort N gs) = mset gs) \<and> (\<forall>cs. mset (coins_Sort N cs) = mset cs) \<and>
     (\<forall>acc. acc_PubKey acc = None \<longrightarrow> ga_Valid N acc)"

definition NewBaseAccount :: "bytes \<Rightarrow> coin list \<Rightarrow> bytes option \<Rightarrow> 64 word \<Rightarrow> 64 word \<Rightarrow> Account" where
  "NewBaseAccount address coins pubKey number sequence =
     \<lparr>acc_Address = address, acc_Coins = coins, acc_PubKey = pubKey, acc_Number = number, acc_Sequence = sequence, acc_Module = None\<rparr>"

definition NewGenesisAccountRaw :: "bytes \<Rightarrow> coin list \<Rightarrow> string \<Rightarrow> GenesisAccount" where
  "NewGenesisAccountRaw address coins moduleName =
     \<lparr>ga_BaseAccount = NewBaseAccount address coins None 0 0, ga_ModuleName = moduleName, ga_ModulePermissions = []\<rparr>"

text \<open>The error is that of the validation.\<close>

definition NewGenesisAccountI :: "'a gen_lib \<Rightarrow> Account \<Rightarrow> GenesisAccount option" where
  "NewGenesisAccountI N acc =
     (let baseAcc = NewBaseAccount (acc_Address acc) (acc_Coins acc) None (acc_Number acc) (acc_Sequence acc) in
      if \<not> ga_Valid N baseAcc then None
      else Some (case acc_Module acc of
                   Some (name, perms) \<Rightarrow> \<lparr>ga_BaseAccount = baseAcc, ga_ModuleName = name, ga_ModulePermissions = perms\<rparr>
                 | None \<Rightarrow> \<lparr>ga_BaseAccount = baseAcc, ga_ModuleName = [], ga_ModulePermissions = []\<rparr>))"

definition ToAccount :: "GenesisAccount \<Rightarrow> Account" where
  "ToAccount ga =
     (if ga_ModuleName ga \<noteq> [] then (ga_BaseAccount ga)\<lparr>acc_Module := Some (ga_ModuleName ga, ga_ModulePermissions ga)\<rparr>
      else (ga_BaseAccount ga)\<lparr>acc_Module := None\<rparr>)"

definition GenesisAccount_Validate :: "'a gen_lib \<Rightarrow> GenesisAccount \<Rightarrow> bool" where
  "GenesisAccount_Validate N ga = ga_Valid N (ga_BaseAccount ga)"

fun GenesisAccounts_Contains :: "GenesisAccount list \<Rightarrow> bytes \<Rightarrow> bool" where
  "GenesisAccounts_Contains [] addr = False"
| "GenesisAccounts_Contains (acc # accs) addr = (if acc_Address (ga_BaseAccount acc) = addr then True else GenesisAccounts_Contains accs addr)"

section \<open>Genesis state\<close>

text \<open>The state within the document of the application; \<open>unmarshal\<close> and \<open>marshal\<close> are the JSON codec, which panics on an error.\<close>

definition Acc_ModuleName :: string where
  "Acc_ModuleName = ''accounts''"

definition GetGenesisStateFromAppState ::
  "('j \<Rightarrow> GenesisAccount list option) \<Rightarrow> (string \<Rightarrow> 'j option) \<Rightarrow> (unit, GenesisAccount list) res" where
  "GetGenesisStateFromAppState unmarshal appState =
     (case appState Acc_ModuleName of None \<Rightarrow> Ok [] | Some j \<Rightarrow> from_opt (unmarshal j))"

definition SetGenesisStateInAppState ::
  "(GenesisAccount list \<Rightarrow> 'j option) \<Rightarrow> (string \<Rightarrow> 'j option) \<Rightarrow> GenesisAccount list \<Rightarrow> (unit, string \<Rightarrow> 'j option) res" where
  "SetGenesisStateInAppState marshal appState genesisState =
     bind_res (from_opt (marshal genesisState)) (\<lambda>bz. Ok (appState(Acc_ModuleName \<mapsto> bz)))"

text \<open>The loop assigns to a copy of the account, but sorting works in place, on the array the copy shares.\<close>

definition Sanitize :: "'a gen_lib \<Rightarrow> GenesisAccount list \<Rightarrow> GenesisAccount list" where
  "Sanitize N gs =
     map (\<lambda>acc. acc\<lparr>ga_BaseAccount := (ga_BaseAccount acc)\<lparr>acc_Coins := coins_Sort N (acc_Coins (ga_BaseAccount acc))\<rparr>\<rparr>) (ga_Sort N gs)"

fun validate_addresses :: "bytes list \<Rightarrow> GenesisAccount list \<Rightarrow> bool" where
  "validate_addresses addrMap [] = True"
| "validate_addresses addrMap (acc # accs) =
     (let addrStr = acc_Address (ga_BaseAccount acc) in
      if addrStr \<in> set addrMap then False else validate_addresses (addrStr # addrMap) accs)"

definition Acc_ValidateGenesis :: "GenesisAccount list \<Rightarrow> bool" where
  "Acc_ValidateGenesis genesisState = validate_addresses [] genesisState"

fun init_accounts :: "sdk \<Rightarrow> vm_lib \<Rightarrow> 'a auth_lib \<Rightarrow> 'a gen_lib \<Rightarrow> GenesisAccount list \<Rightarrow> ('a va_state, va_error, unit) op" where
  "init_accounts S L K N [] w = (Ok (), w)"
| "init_accounts S L K N (ga # gas) w =
     (case ga_NewAccount N (ToAccount ga) (va_auth w) of
        (acc, au) \<Rightarrow>
          (case VA_SetAccount S L K acc (w\<lparr>va_auth := au\<rparr>) of
             (Ok _, w') \<Rightarrow> init_accounts S L K N gas w'
           | (r, w') \<Rightarrow> (r, w')))"

definition Acc_InitGenesis :: "sdk \<Rightarrow> vm_lib \<Rightarrow> 'a auth_lib \<Rightarrow> 'a gen_lib \<Rightarrow> GenesisAccount list \<Rightarrow> ('a va_state, va_error, unit) op" where
  "Acc_InitGenesis S L K N genesisState = init_accounts S L K N (Sanitize N genesisState)"

text \<open>The handler of the iteration that collects the accounts.\<close>

fun export_accounts ::
  "sdk \<Rightarrow> vm_lib \<Rightarrow> 'a auth_lib \<Rightarrow> 'a gen_lib \<Rightarrow> GenesisAccount list \<Rightarrow> Account list \<Rightarrow> ('a va_state, va_error, GenesisAccount list) op" where
  "export_accounts S L K N gAccounts [] w = (Ok gAccounts, w)"
| "export_accounts S L K N gAccounts (account # accounts) w =
     (case VA_GetAccount S L K (acc_Address account) w of
        (Ok (Some acc), w') \<Rightarrow>
          (case NewGenesisAccountI N acc of
             None \<Rightarrow> (Panic, w')
           | Some gAccount \<Rightarrow> export_accounts S L K N (gAccounts @ [gAccount]) accounts w')
      | (_, w') \<Rightarrow> (Panic, w'))"

definition Acc_ExportGenesis :: "sdk \<Rightarrow> vm_lib \<Rightarrow> 'a auth_lib \<Rightarrow> 'a gen_lib \<Rightarrow> ('a va_state, va_error, GenesisAccount list) op" where
  "Acc_ExportGenesis S L K N w = export_accounts S L K N [] (au_All K (va_auth w)) w"

section \<open>Balances of other accounts\<close>

lemma write_filled_other:
  assumes "length a = 20" "length b = 20" "a \<noteq> b"
  shows "getValue (snd (write_filled L (map (newBalance L b) coins) vm)) (bpath L a d) = getValue vm (bpath L a d)"
proof (induction coins arbitrary: vm)
  case (Cons coin coins)
  then show ?case using assms by (auto simp: vms.get_set split: res.splits)
qed simp

lemma write_empty_other:
  assumes "length a = 20" "length b = 20" "a \<noteq> b"
  shows "\<forall>x \<in> set bs. \<exists>e. bal_AccessPath x = bpath L b e \<Longrightarrow> getValue (snd (write_empty L bs vm)) (bpath L a d) = getValue vm (bpath L a d)"
proof (induction bs arbitrary: vm)
  case (Cons x bs)
  from Cons.prems obtain e where "bal_AccessPath x = bpath L b e" by auto
  with Cons assms show ?case by (auto simp: vms.get_set split: res.splits)
qed simp

lemma empty_balances_paths: "empty_balances S L b f cs = Some bs \<Longrightarrow> \<forall>x \<in> set bs. \<exists>e. bal_AccessPath x = bpath L b e"
  by (induction cs arbitrary: bs) (fastforce simp: bind_eq_Some_conv split: if_splits)+

lemma SetAccountBalanceResources_other:
  assumes "length a = 20" "length b = 20" "a \<noteq> b" and r: "SetAccountBalanceResources S L b coins s = (Ok (), s')"
  shows "getValue (ccs_vm s') (bpath L a d) = getValue (ccs_vm s) (bpath L a d)"
proof -
  from r obtain eb vm1 vm2 where
    eb: "empty_balances S L b (map fst coins) (GetCurrencies s) = Some eb"
    and w: "write_filled L (map (newBalance L b) coins) (ccs_vm s) = (Ok (), vm1)" "write_empty L eb vm1 = (Ok (), vm2)" "s' = s\<lparr>ccs_vm := vm2\<rparr>"
    by (auto simp: SetAccountBalanceResources_def newBalances_def Let_def split: option.splits prod.splits res.splits)
  show ?thesis
    using write_filled_other [OF assms(1-3), of L coins "ccs_vm s" d] write_empty_other [OF assms(1-3) empty_balances_paths [OF eb], of vm1 d] w by simp
qed

lemma change_supply_balances:
  assumes "vm_lib_laws L" "length a = 20" and r: "change_supply f L coin s = (Ok (), s')"
  shows "getValue (ccs_vm s') (bpath L a d) = getValue (ccs_vm s) (bpath L a d)"
proof -
  from change_supply_Ok [OF r] obtain c v where "store_both L (c\<lparr>cur_Supply := v\<rparr>) s = (Ok (), s')" by metis
  then obtain bz where "ccs_vm s' = setValue (info_path L (cur_Denom c)) bz (ccs_vm s)" by (auto elim!: store_both_Ok)
  then show ?thesis using info_path_ne_balance [OF assms(1), of "cur_Denom c" a d] assms(2) by (auto simp: vms.get_set)
qed

lemma new_account_supply_balances:
  assumes "vm_lib_laws L" "length a = 20"
  shows "new_account_supply S L coins s = (Ok (), s') \<Longrightarrow> getValue (ccs_vm s') (bpath L a d) = getValue (ccs_vm s) (bpath L a d)"
proof (induction coins arbitrary: s)
  case (Cons coin coins)
  then obtain s1 where s1: "change_supply (int_add S) L coin s = (Ok (), s1)" "new_account_supply S L coins s1 = (Ok (), s')"
    by (auto simp: IncreaseCurrencySupply_def split: prod.splits res.splits)
  from change_supply_balances [OF assms s1(1)] Cons.IH [OF s1(2)] show ?case by simp
qed simp

lemma read_balances_cong:
  assumes "\<And>d. getValue vm' (bpath L a d) = getValue vm (bpath L a d)"
  shows "map cur_Denom cs' = map cur_Denom cs \<Longrightarrow> read_balances L vm' a cs' = read_balances L vm a cs"
proof (induction cs arbitrary: cs')
  case (Cons c cs)
  then obtain c' ds where "cs' = c' # ds" "cur_Denom c' = cur_Denom c" "map cur_Denom ds = map cur_Denom cs" by auto
  with Cons.IH [of ds] assms show ?case by (simp add: balance_path_eq split: option.split)
qed simp

lemma real_coins_cong:
  assumes "\<And>d. getValue (ccs_vm s') (bpath L a d) = getValue (ccs_vm s) (bpath L a d)" and "denoms s' = denoms s"
  shows "real_coins S L s' a = real_coins S L s a"
  using read_balances_cong [OF assms(1), of "GetCurrencies s'" "GetCurrencies s"] assms(2)
  by (simp add: real_coins_def GetAccountBalanceResources_def denoms_def)

lemma VA_SetAccount_other:
  assumes laws: "vm_lib_laws L" "int_laws S" and reg: "registry_ok S L (va_ccs w)" and can: "canonical (va_ccs w) (acc_Coins acc)"
    and len: "length a = 20" "length (acc_Address acc) = 20" "a \<noteq> acc_Address acc" and r: "VA_SetAccount S L K acc w = (Ok (), w')"
  shows "real_coins S L (va_ccs w') a = real_coins S L (va_ccs w) a"
proof -
  let ?new = "au_Get K (acc_Address acc) (va_auth w) = None"
  from r obtain s1 where s1: "(if ?new then new_account_supply S L (acc_Coins acc) (va_ccs w) else (Ok (), va_ccs w)) = (Ok (), s1)"
    and s2: "SetAccountBalanceResources S L (acc_Address acc) (acc_Coins acc) s1 = (Ok (), va_ccs w')"
    by (auto simp: VA_SetAccount_def split: prod.splits res.splits if_splits)
  have "getValue (ccs_vm s1) (bpath L a d) = getValue (ccs_vm (va_ccs w)) (bpath L a d)" for d
    using s1 new_account_supply_balances [OF laws(1) len(1), of S "acc_Coins acc" "va_ccs w" s1 d] by (auto split: if_splits)
  with SetAccountBalanceResources_other [OF len s2]
  have v: "getValue (ccs_vm (va_ccs w')) (bpath L a d) = getValue (ccs_vm (va_ccs w)) (bpath L a d)" for d by simp
  have "denoms s1 = denoms (va_ccs w)"
    using s1 new_account_supply_effect [OF laws _ canonical_distinct [OF reg can], of "va_ccs w" s1] reg by (auto simp: registry_ok_def split: if_splits)
  then have "denoms (va_ccs w') = denoms (va_ccs w)"
    using SetAccountBalanceResources_currencies [OF s2] by (simp add: denoms_def GetCurrencies_def)
  from real_coins_cong [OF v this] show ?thesis .
qed

section \<open>Room for the supply\<close>

text \<open>The supply of every registered currency can grow by the given amount: within the integers of the SDK and of the serialisation.\<close>

definition room :: "vm_lib \<Rightarrow> ccs_state \<Rightarrow> (string \<Rightarrow> int) \<Rightarrow> bool" where
  "room L s B \<longleftrightarrow>
     (\<forall>d c v. GetCurrency s d = Ok c \<longrightarrow> cur_Supply c \<le> v \<longrightarrow> v \<le> cur_Supply c + B d \<longrightarrow>
        \<bar>v\<bar> < 2 ^ 255 \<and> lcs_info L (std_info (c\<lparr>cur_Supply := v\<rparr>)) \<noteq> None)"

lemma room_step:
  assumes inv: "ccs_inv L s" and r: "room L s B" and "0 \<le> v" "v \<le> B d" and c: "GetCurrency s d = Ok c" and laws: "int_laws S"
  shows "\<exists>s'. change_supply (int_add S) L (d, v) s = (Ok (), s') \<and> room L s' (B(d := B d - v)) \<and> (\<forall>e. is_ok (GetCurrency s' e) = is_ok (GetCurrency s e))"
proof -
  have "\<bar>cur_Supply c + v\<bar> < 2 ^ 255 \<and> lcs_info L (std_info (c\<lparr>cur_Supply := cur_Supply c + v\<rparr>)) \<noteq> None"
    using r c assms(3,4) by (simp add: room_def)
  then have i: "int_add S (cur_Supply c) v = Some (cur_Supply c + v)" "\<exists>s'. store_both L (c\<lparr>cur_Supply := cur_Supply c + v\<rparr>) s = (Ok (), s')"
    using laws by (auto simp: int_laws_def within_def store_both_def storeRes_eq Let_def)
  then obtain s' where s': "change_supply (int_add S) L (d, v) s = (Ok (), s')" by (auto simp: change_supply_def c)
  note g = change_supply_GetCurrency [OF inv s']
  have "\<bar>x\<bar> < 2 ^ 255 \<and> lcs_info L (std_info (c'\<lparr>cur_Supply := x\<rparr>)) \<noteq> None"
    if x: "GetCurrency s' e = Ok c'" "cur_Supply c' \<le> x" "x \<le> cur_Supply c' + (B(d := B d - v)) e" for e c' x
  proof (cases "e = d")
    case True
    then have "c' = c\<lparr>cur_Supply := cur_Supply c + v\<rparr>" using x(1) g [of e] c i(1) by simp
    then show ?thesis using x r c True assms(3) by (simp add: room_def)
  next
    case False
    then have "GetCurrency s e = Ok c'" using x(1) g [of e] by (auto split: res.splits)
    then show ?thesis using x r False by (simp add: room_def)
  qed
  then have "room L s' (B(d := B d - v))" by (simp add: room_def)
  moreover have "is_ok (GetCurrency s' e) = is_ok (GetCurrency s e)" for e using g [of e] by (cases "GetCurrency s e") auto
  ultimately show ?thesis using s' by blast
qed

lemma new_account_supply_room:
  assumes laws: "vm_lib_laws L" "int_laws S"
  shows "\<lbrakk>ccs_inv L s; room L s B; distinct (map fst coins); \<forall>(d, v) \<in> set coins. 0 \<le> v \<and> v \<le> B d \<and> is_ok (GetCurrency s d)\<rbrakk> \<Longrightarrow>
    \<exists>s'. new_account_supply S L coins s = (Ok (), s') \<and> room L s' (\<lambda>d. B d - coin_amount coins d)"
proof (induction coins arbitrary: s B)
  case Nil
  then show ?case by (simp add: coin_amount_def)
next
  case (Cons coin coins)
  obtain d v where coin: "coin = (d, v)" by fastforce
  from Cons.prems(4) obtain c where c: "GetCurrency s d = Ok c" "0 \<le> v" "v \<le> B d" by (auto simp: coin is_ok_iff)
  from room_step [OF Cons.prems(1,2) c(2,3,1) laws(2)] obtain s1 where
    s1: "change_supply (int_add S) L (d, v) s = (Ok (), s1)" "room L s1 (B(d := B d - v))" "\<forall>e. is_ok (GetCurrency s1 e) = is_ok (GetCurrency s e)" by blast
  have inv1: "ccs_inv L s1" by (rule change_supply_inv [OF laws(1) Cons.prems(1) s1(1)])
  have n: "map_of coins d = None" using Cons.prems(3) by (simp add: coin map_of_eq_None_iff)
  have "\<forall>(e, x) \<in> set coins. 0 \<le> x \<and> x \<le> (B(d := B d - v)) e \<and> is_ok (GetCurrency s1 e)"
  proof (rule ballI, clarify)
    fix e x
    assume e: "(e, x) \<in> set coins"
    with Cons.prems(3) have "e \<noteq> d" by (force simp: coin)
    moreover have "0 \<le> x \<and> x \<le> B e \<and> is_ok (GetCurrency s e)" using Cons.prems(4) e by auto
    ultimately show "0 \<le> x \<and> x \<le> (B(d := B d - v)) e \<and> is_ok (GetCurrency s1 e)" using s1(3) by simp
  qed
  from Cons.IH [OF inv1 s1(2) _ this] Cons.prems(3) obtain s' where
    s': "new_account_supply S L coins s1 = (Ok (), s')" "room L s' (\<lambda>e. (B(d := B d - v)) e - coin_amount coins e)" by auto
  moreover have "(\<lambda>e. (B(d := B d - v)) e - coin_amount coins e) = (\<lambda>e. B e - coin_amount (coin # coins) e)"
    using n by (auto simp: fun_eq_iff coin coin_amount_def)
  ultimately show ?case using s1(1) by (simp add: coin IncreaseCurrencySupply_def)
qed

section \<open>Initialisation\<close>

definition total_coins :: "GenesisAccount list \<Rightarrow> string \<Rightarrow> int" where
  "total_coins gas d = sum_list (map (\<lambda>ga. coin_amount (acc_Coins (ga_BaseAccount ga)) d) gas)"

abbreviation ga_addr :: "GenesisAccount \<Rightarrow> bytes" where
  "ga_addr ga \<equiv> acc_Address (ga_BaseAccount ga)"

text \<open>A genesis account the keeper can store: a full address, coins of registered currencies in the order of the registry, amounts the virtual machine stores.\<close>

definition ga_storable :: "vm_lib \<Rightarrow> ccs_state \<Rightarrow> GenesisAccount \<Rightarrow> bool" where
  "ga_storable L s ga \<longleftrightarrow> length (ga_addr ga) = 20 \<and> canonical s (acc_Coins (ga_BaseAccount ga)) \<and> storable L (acc_Coins (ga_BaseAccount ga))"

lemma ToAccount_simps [simp]: "acc_Address (ToAccount ga) = ga_addr ga" "acc_Coins (ToAccount ga) = acc_Coins (ga_BaseAccount ga)"
  by (simp_all add: ToAccount_def)

lemma denoms_registered: "ccs_inv L s \<Longrightarrow> d \<in> set (denoms s) \<Longrightarrow> is_ok (GetCurrency s d)"
proof -
  assume inv: "ccs_inv L s" and "d \<in> set (denoms s)"
  then obtain c where c: "c \<in> set (kv_vals (ccs_currencies s))" "cur_Denom c = d" by (auto simp: denoms_def GetCurrencies_def)
  have "kv_keyed (\<lambda>c. GetCurrencyKey (cur_Denom c)) (ccs_currencies s)" using inv by (auto simp: ccs_inv_def kv_keyed_def)
  from kv_keyed_get_vals [OF this, of c] c show ?thesis by (auto simp: is_ok_iff GetCurrency_Ok_iff)
qed

lemma canonical_registered:
  assumes "ccs_inv L s" and "canonical s coins" and "(d, v) \<in> set coins"
  shows "is_ok (GetCurrency s d)"
proof -
  have "(d, v) \<in> (\<lambda>d. (d, coin_amount coins d)) ` set (denoms s)"
    using assms(2,3) unfolding in_order_def by (metis (no_types, lifting) filter_is_subset image_mono in_mono list.set_map)
  then have "d \<in> set (denoms s)" by auto
  then show ?thesis by (rule denoms_registered [OF assms(1)])
qed

lemma coin_amount_in: "distinct (map fst coins) \<Longrightarrow> (d, v) \<in> set coins \<Longrightarrow> coin_amount coins d = v"
  by (simp add: coin_amount_def)

lemma coin_amount_nonneg: "storable L coins \<Longrightarrow> 0 \<le> coin_amount coins d"
  by (auto simp: coin_amount_def storable_def split: option.splits dest!: map_of_SomeD)

lemma total_coins_nonneg: "\<forall>ga \<in> set gas. ga_storable L s ga \<Longrightarrow> 0 \<le> total_coins gas d"
  by (induction gas) (auto simp: total_coins_def ga_storable_def coin_amount_nonneg)

lemma total_coins_Cons: "total_coins (ga # gas) d = coin_amount (acc_Coins (ga_BaseAccount ga)) d + total_coins gas d"
  by (simp add: total_coins_def)

lemma GetCurrency_cong: "ccs_currencies s' = ccs_currencies s \<Longrightarrow> GetCurrency s' d = GetCurrency s d"
  by (simp add: GetCurrency_def HasCurrency_def)

lemma room_mono: "room L s B \<Longrightarrow> (\<And>d. B' d \<le> B d) \<Longrightarrow> room L s B'"
  unfolding room_def by (meson add_left_mono order_trans)

lemma ga_storable_cong: "denoms s' = denoms s \<Longrightarrow> ga_storable L s' ga = ga_storable L s ga"
  by (simp add: ga_storable_def)

text \<open>One account: it is stored with its balances, other accounts are untouched, the supply grows by its coins.\<close>

lemma init_account:
  assumes laws: "auth_laws K" "vm_lib_laws L" "int_laws S" "uint_laws S" "gen_laws K N" and reg: "registry_ok S L (va_ccs w)"
    and ga: "ga_storable L (va_ccs w) ga" and new: "au_Get K (ga_addr ga) (va_auth w) = None"
    and room: "room L (va_ccs w) B" and B: "\<And>d. coin_amount (acc_Coins (ga_BaseAccount ga)) d \<le> B d"
    and na: "ga_NewAccount N (ToAccount ga) (va_auth w) = (acc, au)"
  shows "\<exists>w' n. acc = (ToAccount ga)\<lparr>acc_Number := n\<rparr> \<and> VA_SetAccount S L K acc (w\<lparr>va_auth := au\<rparr>) = (Ok (), w') \<and>
    registry_ok S L (va_ccs w') \<and> denoms (va_ccs w') = denoms (va_ccs w) \<and>
    real_coins S L (va_ccs w') (ga_addr ga) = Some (acc_Coins (ga_BaseAccount ga)) \<and>
    (\<forall>b. au_Get K b (va_auth w') = (if b = ga_addr ga then Some acc else au_Get K b (va_auth w))) \<and>
    (\<forall>b. length b = 20 \<longrightarrow> b \<noteq> ga_addr ga \<longrightarrow> real_coins S L (va_ccs w') b = real_coins S L (va_ccs w) b) \<and>
    grown True (acc_Coins (ga_BaseAccount ga)) (va_ccs w) (va_ccs w') \<and>
    room L (va_ccs w') (\<lambda>d. B d - coin_amount (acc_Coins (ga_BaseAccount ga)) d)"
proof -
  let ?cs = "acc_Coins (ga_BaseAccount ga)" and ?w = "w\<lparr>va_auth := au\<rparr>"
  from laws(5) na obtain n where n: "acc = (ToAccount ga)\<lparr>acc_Number := n\<rparr>" and au: "\<And>b. au_Get K b au = au_Get K b (va_auth w)"
    unfolding gen_laws_def by (metis fst_conv snd_conv)
  have inv: "ccs_inv L (va_ccs w)" using reg by (simp add: registry_ok_def)
  have can: "canonical (va_ccs w) ?cs" "storable L ?cs" "length (ga_addr ga) = 20" using ga by (auto simp: ga_storable_def)
  have dist: "distinct (map fst ?cs)" by (rule canonical_distinct [OF reg can(1)])
  have "\<forall>(d, v) \<in> set ?cs. 0 \<le> v \<and> v \<le> B d \<and> is_ok (GetCurrency (va_ccs w) d)"
    using B coin_amount_in [OF dist] coin_amount_nonneg [OF can(2)] canonical_registered [OF inv can(1)] by fastforce
  from new_account_supply_room [OF laws(2,3) inv room dist this] obtain s1 where
    s1: "new_account_supply S L ?cs (va_ccs w) = (Ok (), s1)" "room L s1 (\<lambda>d. B d - coin_amount ?cs d)" by blast
  have a: "acc_Address acc = ga_addr ga" "acc_Coins acc = ?cs" by (simp_all add: n)
  from VA_SetAccount_effect [OF laws(1-4), of ?w acc] reg can s1(1) a au new obtain s' where
    s': "VA_SetAccount S L K acc ?w = (Ok (), \<lparr>va_ccs = s', va_auth = au_Set K acc au\<rparr>)" "registry_ok S L s'" "denoms s' = denoms (va_ccs w)"
      "real_coins S L s' (ga_addr ga) = Some ?cs" "grown True ?cs (va_ccs w) s'" by (auto simp: grown_def)
  let ?w' = "\<lparr>va_ccs = s', va_auth = au_Set K acc au\<rparr>"
  have "real_coins S L s' b = real_coins S L (va_ccs w) b" if "length b = 20" "b \<noteq> ga_addr ga" for b
    using VA_SetAccount_other [OF laws(2,3), of ?w acc b K ?w'] reg can s'(1) a that by simp
  moreover have "au_Get K b (au_Set K acc au) = (if b = ga_addr ga then Some acc else au_Get K b (va_auth w))" for b
    using laws(1) au a(1) by (simp add: auth_laws_def)
  moreover have "ccs_currencies s' = ccs_currencies s1"
    using s'(1) s1(1) SetAccountBalanceResources_currencies by (fastforce simp: VA_SetAccount_def a au new split: prod.splits res.splits)
  then have "room L s' (\<lambda>d. B d - coin_amount ?cs d)" using s1(2) by (simp add: room_def GetCurrency_cong [of s' s1])
  ultimately show ?thesis using n s' by (intro exI [of _ ?w'] exI [of _ n]) simp
qed

lemma init_accounts_effect:
  assumes laws: "auth_laws K" "vm_lib_laws L" "int_laws S" "uint_laws S" "gen_laws K N"
  shows "\<lbrakk>registry_ok S L (va_ccs w); \<forall>ga \<in> set gas. ga_storable L (va_ccs w) ga \<and> au_Get K (ga_addr ga) (va_auth w) = None;
      distinct (map ga_addr gas); room L (va_ccs w) (total_coins gas)\<rbrakk> \<Longrightarrow>
    \<exists>w'. init_accounts S L K N gas w = (Ok (), w') \<and>
      (\<forall>ga \<in> set gas. real_coins S L (va_ccs w') (ga_addr ga) = Some (acc_Coins (ga_BaseAccount ga)) \<and>
         (\<exists>n. au_Get K (ga_addr ga) (va_auth w') = Some ((ToAccount ga)\<lparr>acc_Number := n\<rparr>))) \<and>
      (\<forall>b. b \<notin> ga_addr ` set gas \<longrightarrow> au_Get K b (va_auth w') = au_Get K b (va_auth w) \<and>
         (length b = 20 \<longrightarrow> real_coins S L (va_ccs w') b = real_coins S L (va_ccs w) b)) \<and>
      (\<forall>d c. GetCurrency (va_ccs w) d = Ok c \<longrightarrow> GetCurrency (va_ccs w') d = Ok (c\<lparr>cur_Supply := cur_Supply c + total_coins gas d\<rparr>))"
proof (induction gas arbitrary: w)
  case Nil
  then show ?case by (simp add: total_coins_def)
next
  case (Cons ga gas)
  let ?cs = "acc_Coins (ga_BaseAccount ga)"
  obtain acc au where na: "ga_NewAccount N (ToAccount ga) (va_auth w) = (acc, au)" by fastforce
  have st: "\<forall>x \<in> set gas. ga_storable L (va_ccs w) x" using Cons.prems(2) by simp
  have "coin_amount ?cs d \<le> total_coins (ga # gas) d" for d using total_coins_nonneg [OF st] by (simp add: total_coins_Cons)
  from init_account [OF laws Cons.prems(1) _ _ Cons.prems(4) this na] Cons.prems(2) obtain w1 n where
    w1: "acc = (ToAccount ga)\<lparr>acc_Number := n\<rparr>" "VA_SetAccount S L K acc (w\<lparr>va_auth := au\<rparr>) = (Ok (), w1)"
      "registry_ok S L (va_ccs w1)" "denoms (va_ccs w1) = denoms (va_ccs w)" "real_coins S L (va_ccs w1) (ga_addr ga) = Some ?cs"
      "\<And>b. au_Get K b (va_auth w1) = (if b = ga_addr ga then Some acc else au_Get K b (va_auth w))"
      "\<And>b. length b = 20 \<Longrightarrow> b \<noteq> ga_addr ga \<Longrightarrow> real_coins S L (va_ccs w1) b = real_coins S L (va_ccs w) b"
      "grown True ?cs (va_ccs w) (va_ccs w1)" "room L (va_ccs w1) (\<lambda>d. total_coins (ga # gas) d - coin_amount ?cs d)" by auto
  have "room L (va_ccs w1) (total_coins gas)" using w1(9) by (rule room_mono) (simp add: total_coins_Cons)
  moreover have "\<forall>x \<in> set gas. ga_storable L (va_ccs w1) x \<and> au_Get K (ga_addr x) (va_auth w1) = None"
  proof
    fix x
    assume x: "x \<in> set gas"
    with Cons.prems(3) have "ga_addr x \<noteq> ga_addr ga" by (force simp: image_iff)
    with Cons.prems(2) x w1(6) ga_storable_cong [OF w1(4)] show "ga_storable L (va_ccs w1) x \<and> au_Get K (ga_addr x) (va_auth w1) = None" by simp
  qed
  ultimately obtain w' where w': "init_accounts S L K N gas w1 = (Ok (), w')"
      "\<forall>ga \<in> set gas. real_coins S L (va_ccs w') (ga_addr ga) = Some (acc_Coins (ga_BaseAccount ga)) \<and>
         (\<exists>n. au_Get K (ga_addr ga) (va_auth w') = Some ((ToAccount ga)\<lparr>acc_Number := n\<rparr>))"
      "\<And>b. b \<notin> ga_addr ` set gas \<Longrightarrow> au_Get K b (va_auth w') = au_Get K b (va_auth w1)"
      "\<And>b. b \<notin> ga_addr ` set gas \<Longrightarrow> length b = 20 \<Longrightarrow> real_coins S L (va_ccs w') b = real_coins S L (va_ccs w1) b"
      "\<And>d c. GetCurrency (va_ccs w1) d = Ok c \<Longrightarrow> GetCurrency (va_ccs w') d = Ok (c\<lparr>cur_Supply := cur_Supply c + total_coins gas d\<rparr>)"
    using Cons.IH [OF w1(3)] Cons.prems(3) by auto
  have "GetCurrency (va_ccs w') d = Ok (c\<lparr>cur_Supply := cur_Supply c + total_coins (ga # gas) d\<rparr>)" if "GetCurrency (va_ccs w) d = Ok c" for d c
    using w1(8) that w'(5) [of d] by (simp add: grown_def total_coins_Cons add.assoc)
  moreover have "ga_addr ga \<notin> ga_addr ` set gas" "length (ga_addr ga) = 20" using Cons.prems(2,3) by (auto simp: ga_storable_def)
  moreover have "init_accounts S L K N (ga # gas) w = (Ok (), w')" using na w1(2) w'(1) by simp
  ultimately show ?case using w1 w'(2-4) by (intro exI [of _ w']) auto
qed

lemma contains_iff: "GenesisAccounts_Contains gas a \<longleftrightarrow> a \<in> ga_addr ` set gas"
  by (induction gas) auto

lemma validate_addresses_iff: "validate_addresses seen gas \<longleftrightarrow> distinct (map ga_addr gas) \<and> set seen \<inter> ga_addr ` set gas = {}"
  by (induction gas arbitrary: seen) (auto simp: Let_def)

text \<open>
  C20. Genesis accounts (\<open>InitGenesis\<close>), functional: a genesis without duplicate addresses, whose accounts hold registered currencies and are not known yet, is
  initialised without panic if the supplies have room for the total; reading any of its accounts gives it back with its coins, all other accounts
  are untouched, and the supply of every registered currency has grown by exactly the total over the accounts.
\<close>

theorem genacc_init:
  assumes "auth_laws K" "vm_lib_laws L" "int_laws S" "uint_laws S" "gen_laws K N" and "registry_ok S L (va_ccs w)"
    and "Acc_ValidateGenesis (Sanitize N gs)" and "room L (va_ccs w) (total_coins (Sanitize N gs))"
    and "\<And>ga. ga \<in> set (Sanitize N gs) \<Longrightarrow> ga_storable L (va_ccs w) ga \<and> au_Get K (ga_addr ga) (va_auth w) = None"
  shows "\<exists>w'. Acc_InitGenesis S L K N gs w = (Ok (), w') \<and>
    (\<forall>ga \<in> set (Sanitize N gs). \<exists>n. VA_GetAccount S L K (ga_addr ga) w' = (Ok (Some ((ToAccount ga)\<lparr>acc_Number := n\<rparr>)), w')) \<and>
    (\<forall>b. \<not> GenesisAccounts_Contains (Sanitize N gs) b \<longrightarrow> au_Get K b (va_auth w') = au_Get K b (va_auth w) \<and>
       (length b = 20 \<longrightarrow> real_coins S L (va_ccs w') b = real_coins S L (va_ccs w) b)) \<and>
    (\<forall>d c. GetCurrency (va_ccs w) d = Ok c \<longrightarrow>
       GetCurrency (va_ccs w') d = Ok (c\<lparr>cur_Supply := cur_Supply c + total_coins (Sanitize N gs) d\<rparr>))"
proof -
  let ?gas = "Sanitize N gs"
  have dist: "distinct (map ga_addr ?gas)" using assms(7) by (simp add: Acc_ValidateGenesis_def validate_addresses_iff)
  from init_accounts_effect [OF assms(1-6) _ dist assms(8)] assms(9) obtain w' where w': "init_accounts S L K N ?gas w = (Ok (), w')"
    "\<And>ga. ga \<in> set ?gas \<Longrightarrow> real_coins S L (va_ccs w') (ga_addr ga) = Some (acc_Coins (ga_BaseAccount ga))"
    "\<And>ga. ga \<in> set ?gas \<Longrightarrow> \<exists>n. au_Get K (ga_addr ga) (va_auth w') = Some ((ToAccount ga)\<lparr>acc_Number := n\<rparr>)"
    "\<forall>b. b \<notin> ga_addr ` set ?gas \<longrightarrow> au_Get K b (va_auth w') = au_Get K b (va_auth w) \<and>
       (length b = 20 \<longrightarrow> real_coins S L (va_ccs w') b = real_coins S L (va_ccs w) b)"
    "\<forall>d c. GetCurrency (va_ccs w) d = Ok c \<longrightarrow> GetCurrency (va_ccs w') d = Ok (c\<lparr>cur_Supply := cur_Supply c + total_coins ?gas d\<rparr>)" by blast
  have "\<exists>n. VA_GetAccount S L K (ga_addr ga) w' = (Ok (Some ((ToAccount ga)\<lparr>acc_Number := n\<rparr>)), w')" if ga: "ga \<in> set ?gas" for ga
    using w'(3) [OF ga] VA_GetAccount_synced [OF assms(1) w'(2) [OF ga]] by fastforce
  then show ?thesis using w'(1,4,5) by (simp add: Acc_InitGenesis_def contains_iff)
qed

section \<open>Export\<close>

lemma ToAccount_NewGenesisAccountI:
  assumes "NewGenesisAccountI N acc = Some ga" and "\<forall>perms. acc_Module acc \<noteq> Some ([], perms)"
  shows "ToAccount ga = acc\<lparr>acc_PubKey := None\<rparr>"
  using assms by (auto simp: NewGenesisAccountI_def ToAccount_def NewBaseAccount_def Let_def split: if_splits option.splits)

lemma export_accounts_synced:
  assumes "auth_laws K" "gen_laws K N"
  shows "\<forall>acc \<in> set accs. au_Get K (acc_Address acc) (va_auth w) = Some acc \<and> real_coins S L (va_ccs w) (acc_Address acc) = Some (acc_Coins acc) \<Longrightarrow>
    \<exists>gas. map (NewGenesisAccountI N) accs = map Some gas \<and> export_accounts S L K N pre accs w = (Ok (pre @ gas), w)"
proof (induction accs arbitrary: pre)
  case (Cons acc accs)
  have v: "ga_Valid N (NewBaseAccount (acc_Address acc) (acc_Coins acc) None (acc_Number acc) (acc_Sequence acc))"
    using assms(2) by (simp add: gen_laws_def NewBaseAccount_def)
  then obtain ga where ga: "NewGenesisAccountI N acc = Some ga" by (simp add: NewGenesisAccountI_def Let_def)
  have g: "VA_GetAccount S L K (acc_Address acc) w = (Ok (Some acc), w)" using Cons.prems by (intro VA_GetAccount_synced [OF assms(1)]) auto
  from Cons.IH [of "pre @ [ga]"] Cons.prems obtain gas where
    "map (NewGenesisAccountI N) accs = map Some gas" "export_accounts S L K N (pre @ [ga]) accs w = (Ok (pre @ ga # gas), w)" by auto
  with g ga show ?case by (intro exI [of _ "ga # gas"]) simp
qed simp

text \<open>
  Genesis accounts (\<open>ExportGenesis\<close>), round trip: in a state whose accounts agree with the virtual machine the export changes nothing, is valid, and its
  accounts are those of the keeper in order, with coins, numbers, sequences and modules, but without public keys.
\<close>

theorem genacc_export:
  assumes "auth_laws K" "gen_laws K N" and "distinct (map acc_Address (au_All K (va_auth w)))"
    and "\<And>acc. acc \<in> set (au_All K (va_auth w)) \<Longrightarrow>
      au_Get K (acc_Address acc) (va_auth w) = Some acc \<and> real_coins S L (va_ccs w) (acc_Address acc) = Some (acc_Coins acc) \<and>
      (\<forall>perms. acc_Module acc \<noteq> Some ([], perms))"
  shows "\<exists>gas. Acc_ExportGenesis S L K N w = (Ok gas, w) \<and> Acc_ValidateGenesis gas \<and>
    map ToAccount gas = map (acc_PubKey_update (\<lambda>_. None)) (au_All K (va_auth w))"
proof -
  let ?accs = "au_All K (va_auth w)"
  from export_accounts_synced [OF assms(1,2), of ?accs w S L "[]"] assms(4) obtain gas where
    gas: "map (NewGenesisAccountI N) ?accs = map Some gas" "export_accounts S L K N [] ?accs w = (Ok gas, w)" by auto
  have i: "ToAccount (gas ! i) = (?accs ! i)\<lparr>acc_PubKey := None\<rparr>" if "i < length ?accs" for i
    using that gas(1) assms(4) by (intro ToAccount_NewGenesisAccountI [of N]) (metis length_map nth_map, metis nth_mem)
  have len: "length gas = length ?accs" using gas(1) by (metis length_map)
  have m: "map ToAccount gas = map (acc_PubKey_update (\<lambda>_. None)) ?accs" using i len by (intro nth_equalityI) auto
  have "map ga_addr gas = map (acc_Address \<circ> ToAccount) gas" by simp
  also have "\<dots> = map acc_Address ?accs" using arg_cong [OF m, of "map acc_Address"] by (simp add: comp_def)
  finally have "Acc_ValidateGenesis gas" using assms(3) by (simp add: Acc_ValidateGenesis_def validate_addresses_iff)
  with gas(2) m show ?thesis by (auto simp: Acc_ExportGenesis_def)
qed

section \<open>An example\<close>

definition ref_gen :: "(Account list \<times> 64 word) gen_lib" where
  "ref_gen = \<lparr>ga_NewAccount = (\<lambda>acc s. (acc\<lparr>acc_Number := snd s\<rparr>, (fst s, snd s + 1))),
     ga_Sort = sort_key (\<lambda>ga. unat (acc_Number (ga_BaseAccount ga))), coins_Sort = sort_key fst, ga_Valid = (\<lambda>_. True)\<rparr>"

lemma ref_gen_laws: "gen_laws ref_auth ref_gen"
  by (auto simp: gen_laws_def ref_gen_def ref_auth_def)

lemma ex_room: "room ref_vm_lib ex_ccs (total_coins [\<lparr>ga_BaseAccount = ex_holder, ga_ModuleName = [], ga_ModulePermissions = []\<rparr>])"
  unfolding room_def
proof (intro allI impI)
  fix d c v
  assume g: "GetCurrency ex_ccs d = Ok c"
    and v: "cur_Supply c \<le> v" "v \<le> cur_Supply c + total_coins [\<lparr>ga_BaseAccount = ex_holder, ga_ModuleName = [], ga_ModulePermissions = []\<rparr>] d"
  have inv: "ccs_inv ref_vm_lib ex_ccs" using ex_registry_ok by (simp add: registry_ok_def)
  then have "kv_keyed (\<lambda>c. GetCurrencyKey (cur_Denom c)) (ccs_currencies ex_ccs)" by (auto simp: ccs_inv_def kv_keyed_def)
  from kv_keyed_get_Some [OF this] g have "c \<in> set (GetCurrencies ex_ccs)" by (auto simp: GetCurrency_Ok_iff GetCurrencies_def)
  then have c: "c = NewCurrency ex_params 5" by (simp add: ex_ccs_currencies)
  then have "d = ''xfi''" using GetCurrency_denom [OF inv g] by (simp add: NewCurrency_def ex_params_def)
  then have "5 \<le> v" "v \<le> 12" using v c by (simp_all add: total_coins_def ex_holder_def coin_amount_def NewCurrency_def)
  then show "\<bar>v\<bar> < 2 ^ 255 \<and> lcs_info ref_vm_lib (std_info (c\<lparr>cur_Supply := v\<rparr>)) \<noteq> None"
    by (simp add: c NewCurrency_def ex_params_def std_info_def ref_vm_lib_def ref_lcs_info_def)
qed

theorem genacc_init_witness:
  "\<exists>w' n. Acc_InitGenesis ref_sdk ref_vm_lib ref_auth ref_gen [\<lparr>ga_BaseAccount = ex_holder, ga_ModuleName = [], ga_ModulePermissions = []\<rparr>] (ex_va ex_ccs) = (Ok (), w') \<and>
     VA_GetAccount ref_sdk ref_vm_lib ref_auth (acc_Address ex_holder) w' = (Ok (Some (ex_holder\<lparr>acc_Number := n\<rparr>)), w') \<and>
     GetCurrency (va_ccs w') ''xfi'' = Ok (NewCurrency ex_params 12)"
proof -
  let ?ga = "\<lparr>ga_BaseAccount = ex_holder, ga_ModuleName = [], ga_ModulePermissions = []\<rparr>"
  have s: "Sanitize ref_gen [?ga] = [?ga]" by (simp add: Sanitize_def ref_gen_def ex_holder_def)
  have t: "ToAccount ?ga = ex_holder" by (simp add: ToAccount_def ex_holder_def)
  have st: "ga_storable ref_vm_lib ex_ccs ?ga"
    using ex_storable by (simp add: ga_storable_def ex_holder_def ex_denoms in_order_def coin_amount_def)
  have e: "va_ccs (ex_va ex_ccs) = ex_ccs" "au_Get ref_auth a (va_auth (ex_va ex_ccs)) = None" for a by (simp_all add: ex_va_def ref_auth_def)
  have "Acc_ValidateGenesis [?ga]" by (simp add: Acc_ValidateGenesis_def Let_def)
  from genacc_init [OF ref_auth_laws ref_vm_lib_laws ref_int_laws ref_uint_laws ref_gen_laws, of "ex_va ex_ccs" "[?ga]", unfolded s e]
    ex_registry_ok this ex_room st obtain w' n where w': "Acc_InitGenesis ref_sdk ref_vm_lib ref_auth ref_gen [?ga] (ex_va ex_ccs) = (Ok (), w')"
      "VA_GetAccount ref_sdk ref_vm_lib ref_auth (acc_Address ex_holder) w' = (Ok (Some ((ToAccount ?ga)\<lparr>acc_Number := n\<rparr>)), w')"
      "\<forall>d c. GetCurrency ex_ccs d = Ok c \<longrightarrow> GetCurrency (va_ccs w') d = Ok (c\<lparr>cur_Supply := cur_Supply c + total_coins [?ga] d\<rparr>)" by auto
  have "GetCurrency (va_ccs w') ''xfi'' = Ok (NewCurrency ex_params 12)"
    using w'(3) ex_ccs_xfi by (auto simp: NewCurrency_def total_coins_def ex_holder_def coin_amount_def)
  with w'(1,2) t show ?thesis by auto
qed

theorem genacc_export_witness:
  "\<exists>ga. Acc_ExportGenesis ref_sdk ref_vm_lib ref_auth ref_gen \<lparr>va_ccs = \<lparr>ccs_currencies = [], ccs_vm = []\<rparr>, va_auth = ([ex_holder\<lparr>acc_Coins := [], acc_PubKey := Some ''key''\<rparr>], 1)\<rparr> =
     (Ok [ga], \<lparr>va_ccs = \<lparr>ccs_currencies = [], ccs_vm = []\<rparr>, va_auth = ([ex_holder\<lparr>acc_Coins := [], acc_PubKey := Some ''key''\<rparr>], 1)\<rparr>) \<and>
     ToAccount ga = ex_holder\<lparr>acc_Coins := [], acc_PubKey := None\<rparr>"
proof -
  let ?acc = "ex_holder\<lparr>acc_Coins := [], acc_PubKey := Some ''key''\<rparr>"
  let ?w = "\<lparr>va_ccs = \<lparr>ccs_currencies = [], ccs_vm = []\<rparr>, va_auth = ([?acc], 1)\<rparr>"
  have all: "au_All ref_auth (va_auth ?w) = [?acc]" by (simp add: ref_auth_def)
  have p: "au_Get ref_auth (acc_Address ?acc) (va_auth ?w) = Some ?acc"
    "real_coins ref_sdk ref_vm_lib (va_ccs ?w) (acc_Address ?acc) = Some (acc_Coins ?acc)" "acc_Module ?acc = None"
    by (simp_all add: ref_auth_def real_coins_def GetAccountBalanceResources_def GetCurrencies_def kv_vals_def ex_holder_def)
  from genacc_export [OF ref_auth_laws ref_gen_laws, of ?w ref_sdk ref_vm_lib, unfolded all] p
  obtain gas where "Acc_ExportGenesis ref_sdk ref_vm_lib ref_auth ref_gen ?w = (Ok gas, ?w)" "map ToAccount gas = [?acc\<lparr>acc_PubKey := None\<rparr>]" by auto
  then show ?thesis by auto
qed

end
