(* ===== verification/BaseApp.thy ===== *)
theory BaseApp
  imports Cosmos
begin

text \<open>
  The application under the consensus engine (\<open>app/baseapp.go\<close>, \<open>app/abci.go\<close>, \<open>app/options.go\<close>, \<open>app/helpers.go\<close>): blocks, the delivery, checking and simulation of
  transactions, commits and queries, over the stores of all modules as one value. The decorators, message handlers and block handlers of the modules are
  parameters, as are gas meters and the decoding of transactions.
\<close>

section \<open>Data\<close>

datatype runTxMode = runTxModeCheck | runTxModeReCheck | runTxModeSimulate | runTxModeDeliver

datatype app_error = AppErrOutOfGas | AppErrPanic | AppErrInvalidRequest | AppErrUnknownRequest | AppErrTxDecode | AppErrModule string

text \<open>What a panic carries: the gas errors of the meters, the crash of the virtual machine, anything else. The outcome of code that may panic.\<close>

datatype panic_value = ErrorOutOfGas | ErrorGasOverflow | VMCrashed | OtherPanic

datatype 'a run = Done 'a | Fail app_error | Panicked panic_value

text \<open>The time of a header is in Unix seconds.\<close>

record Header =
  h_ChainID :: string
  h_Height :: int
  h_Time :: int

record app_ctx =
  cx_Header :: Header
  cx_CheckTx :: bool
  cx_ReCheckTx :: bool
  cx_TxBytes :: bytes
  cx_VoteInfos :: "string list"
  cx_ConsensusParams :: "int option option"

record Result =
  r_Data :: bytes
  r_Log :: string
  r_Events :: "sdk_event list"

record GasInfo =
  GasWanted :: "64 word"
  GasUsed :: "64 word"

text \<open>
  Gas meters over \<open>'g\<close>: consuming may panic, and changes the meter also then.
\<close>

record 'g meter_lib =
  mt_New :: "64 word \<Rightarrow> 'g"
  mt_Infinite :: 'g
  mt_Limit :: "'g \<Rightarrow> 64 word"
  mt_Consumed :: "'g \<Rightarrow> 64 word"
  mt_ConsumedToLimit :: "'g \<Rightarrow> 64 word"
  mt_IsOutOfGas :: "'g \<Rightarrow> bool"
  mt_Consume :: "64 word \<Rightarrow> 'g \<Rightarrow> panic_value option \<times> 'g"

text \<open>
  A cache over a store is a copy of it: nothing else writes to the store while the cache is open, so writing the cache replaces it. The meter of
  the block is nil until a block begins; \<open>st_gas\<close> is the meter of the context of the state, which all contexts made from it share.
\<close>

record ('s, 'g) state =
  st_ms :: 's
  st_header :: Header
  st_checkTx :: bool
  st_gas :: 'g
  st_blockGas :: "'g option"

text \<open>
  \<open>bap_versions\<close> are the committed stores, the latest first; \<open>bap_consensusParams\<close> is nil, has no block part, or a maximum of gas; \<open>bap_baseKey\<close> is whether the main store was set, \<open>bap_halted\<close> is the signal to stop.
\<close>

record ('s, 'g) BaseApp =
  bap_name :: string
  bap_appVersion :: string
  bap_cms :: 's
  bap_versions :: "(int \<times> 's) list"
  bap_checkState :: "('s, 'g) state option"
  bap_deliverState :: "('s, 'g) state option"
  bap_voteInfos :: "string list"
  bap_consensusParams :: "int option option"
  bap_baseKey :: bool
  bap_sealed :: bool
  bap_haltHeight :: "64 word"
  bap_haltTime :: "64 word"
  bap_halted :: bool

type_synonym ('s, 'g, 'm) app_handler = "app_ctx \<Rightarrow> 'm \<Rightarrow> 's \<times> 'g \<Rightarrow> Result run \<times> 's \<times> 'g"

text \<open>
  The code of the modules and of the SDK. The decorators work on the store and the meter of the context they are given; they return the context they built with the new meter in it,
  or nothing if that context is the zero value. Block handlers consume from the meter of the state. \<open>lb_AtVersion\<close> loads a committed version, \<open>lb_Logs\<close> renders the logs of messages, \<open>lb_StoreParams\<close> writes the consensus parameters to the main store and \<open>lb_LoadParams\<close> reads them, \<open>lb_Sort\<close> orders validator updates.
\<close>

record ('s, 'g, 'x, 'm) app_lib =
  lb_Meter :: "'g meter_lib"
  lb_txDecoder :: "bytes \<Rightarrow> 'x option"
  lb_GetMsgs :: "'x \<Rightarrow> 'm list"
  lb_ValidateBasic :: "'m \<Rightarrow> app_error option"
  lb_Route :: "'m \<Rightarrow> string"
  lb_Type :: "'m \<Rightarrow> string"
  lb_anteHandler :: "(app_ctx \<Rightarrow> 'x \<Rightarrow> bool \<Rightarrow> 's \<times> 'g \<Rightarrow> unit run \<times> (app_ctx \<times> 'g) option \<times> 's \<times> 'g) option"
  lb_msgsCustomVerifier :: "'m \<Rightarrow> app_error option"
  lb_msgsDeniedList :: "string \<Rightarrow> string list option"
  lb_router :: "string \<Rightarrow> ('s, 'g, 'm) app_handler option"
  lb_initChainer :: "(app_ctx \<Rightarrow> bytes \<Rightarrow> 's \<times> 'g \<Rightarrow> string list run \<times> 's \<times> 'g) option"
  lb_beginBlocker :: "(app_ctx \<Rightarrow> 's \<times> 'g \<Rightarrow> sdk_event list run \<times> 's \<times> 'g) option"
  lb_endBlocker :: "(app_ctx \<Rightarrow> int \<Rightarrow> 's \<times> 'g \<Rightarrow> (sdk_event list \<times> string list) run \<times> 's \<times> 'g) option"
  lb_queryRouter :: "string \<Rightarrow> (app_ctx \<Rightarrow> string list \<Rightarrow> bytes \<Rightarrow> 's \<Rightarrow> bytes run) option"
  lb_storeQuery :: "string \<Rightarrow> bytes \<Rightarrow> int \<Rightarrow> bool \<Rightarrow> (int \<times> 's) list \<Rightarrow> bytes run"
  lb_AtVersion :: "int \<Rightarrow> (int \<times> 's) list \<Rightarrow> 's option"
  lb_peerFilter :: "string \<Rightarrow> (string \<Rightarrow> bytes) option"
  lb_Logs :: "(16 word \<times> string \<times> sdk_event list) list \<Rightarrow> string"
  lb_SimResponse :: "GasInfo \<Rightarrow> Result \<Rightarrow> bytes"
  lb_StoreParams :: "int option \<Rightarrow> 's \<Rightarrow> 's"
  lb_LoadParams :: "'s \<Rightarrow> int option option"
  lb_Hash :: "'s \<Rightarrow> bytes"
  lb_Sort :: "string list \<Rightarrow> string list"

section \<open>States and contexts\<close>

definition LastBlockHeight :: "('s, 'g) BaseApp \<Rightarrow> int" where
  "LastBlockHeight app = (case bap_versions app of [] \<Rightarrow> 0 | (v, _) # _ \<Rightarrow> v)"

definition setCheckState :: "('s, 'g, 'x, 'm) app_lib \<Rightarrow> Header \<Rightarrow> ('s, 'g) BaseApp \<Rightarrow> ('s, 'g) BaseApp" where
  "setCheckState A hdr app =
     app\<lparr>bap_checkState := Some \<lparr>st_ms = bap_cms app, st_header = hdr, st_checkTx = True, st_gas = mt_Infinite (lb_Meter A), st_blockGas = None\<rparr>\<rparr>"

definition setDeliverState :: "('s, 'g, 'x, 'm) app_lib \<Rightarrow> Header \<Rightarrow> ('s, 'g) BaseApp \<Rightarrow> ('s, 'g) BaseApp" where
  "setDeliverState A hdr app =
     app\<lparr>bap_deliverState := Some \<lparr>st_ms = bap_cms app, st_header = hdr, st_checkTx = False, st_gas = mt_Infinite (lb_Meter A), st_blockGas = None\<rparr>\<rparr>"

definition getMaximumBlockGas :: "('s, 'g) BaseApp \<Rightarrow> 64 word option" where
  "getMaximumBlockGas app =
     (case bap_consensusParams app of
        None \<Rightarrow> Some 0
      | Some None \<Rightarrow> Some 0
      | Some (Some maxGas) \<Rightarrow> if maxGas < - 1 then None else if maxGas = - 1 then Some 0 else Some (of_int maxGas))"

definition validateHeight :: "('s, 'g) BaseApp \<Rightarrow> Header \<Rightarrow> bool" where
  "validateHeight app hdr \<longleftrightarrow> \<not> h_Height hdr < 1 \<and> h_Height hdr = LastBlockHeight app + 1"

fun validate_msgs :: "('s, 'g, 'x, 'm) app_lib \<Rightarrow> 'm list \<Rightarrow> app_error option" where
  "validate_msgs A [] = None"
| "validate_msgs A (msg # msgs) = (case lb_ValidateBasic A msg of Some e \<Rightarrow> Some e | None \<Rightarrow> validate_msgs A msgs)"

definition validateBasicTxMsgs :: "('s, 'g, 'x, 'm) app_lib \<Rightarrow> 'm list \<Rightarrow> app_error option" where
  "validateBasicTxMsgs A msgs = (if msgs = [] then Some AppErrInvalidRequest else validate_msgs A msgs)"

definition getState :: "runTxMode \<Rightarrow> ('s, 'g) BaseApp \<Rightarrow> ('s, 'g) state option" where
  "getState mode app = (if mode = runTxModeDeliver then bap_deliverState app else bap_checkState app)"

definition getContextForTx :: "runTxMode \<Rightarrow> bytes \<Rightarrow> ('s, 'g) BaseApp \<Rightarrow> ('s, 'g) state \<Rightarrow> app_ctx" where
  "getContextForTx mode txBytes app st =
     \<lparr>cx_Header = st_header st, cx_CheckTx = st_checkTx st, cx_ReCheckTx = (mode = runTxModeReCheck), cx_TxBytes = txBytes, cx_VoteInfos = bap_voteInfos app,
      cx_ConsensusParams = bap_consensusParams app\<rparr>"

section \<open>Running a transaction\<close>

text \<open>The messages of a transaction, with the index, the data, the events and the logs so far.\<close>

fun run_msgs ::
  "('s, 'g, 'x, 'm) app_lib \<Rightarrow> app_ctx \<Rightarrow> runTxMode \<Rightarrow> nat \<Rightarrow> 'm list \<Rightarrow> bytes \<Rightarrow> sdk_event list \<Rightarrow> (16 word \<times> string \<times> sdk_event list) list \<Rightarrow>
   's \<times> 'g \<Rightarrow> Result run \<times> 's \<times> 'g" where
  "run_msgs A ctx mode i [] data events msgLogs sg = (Done \<lparr>r_Data = data, r_Log = lb_Logs A msgLogs, r_Events = events\<rparr>, sg)"
| "run_msgs A ctx mode i (msg # msgs) data events msgLogs sg =
     (case lb_msgsCustomVerifier A msg of
        Some e \<Rightarrow> (Fail e, sg)
      | None \<Rightarrow>
          if mode = runTxModeCheck \<or> mode = runTxModeReCheck
          then (Done \<lparr>r_Data = data, r_Log = lb_Logs A msgLogs, r_Events = events\<rparr>, sg)
          else if (case lb_msgsDeniedList A (lb_Route A msg) of Some types \<Rightarrow> lb_Type A msg \<in> set types | None \<Rightarrow> False)
          then (Fail AppErrUnknownRequest, sg)
          else
            (case lb_router A (lb_Route A msg) of
               None \<Rightarrow> (Fail AppErrUnknownRequest, sg)
             | Some handler \<Rightarrow>
                 (case handler ctx msg sg of
                    (Done msgResult, sg') \<Rightarrow>
                      (let msgEvents = (''message'', [(''action'', lb_Type A msg)]) # r_Events msgResult in
                       run_msgs A ctx mode (i + 1) msgs (data @ r_Data msgResult) (events @ msgEvents)
                         (msgLogs @ [(of_nat i, r_Log msgResult, msgEvents)]) sg')
                  | (Fail e, sg') \<Rightarrow> (Fail e, sg')
                  | (Panicked p, sg') \<Rightarrow> (Panicked p, sg'))))"

definition runMsgs :: "('s, 'g, 'x, 'm) app_lib \<Rightarrow> app_ctx \<Rightarrow> 'm list \<Rightarrow> runTxMode \<Rightarrow> 's \<times> 'g \<Rightarrow> Result run \<times> 's \<times> 'g" where
  "runMsgs A ctx msgs mode = run_msgs A ctx mode 0 msgs [] [] []"

text \<open>
  The meters of a transaction: that of its own context, if the decorators made one, and that of the state, which it uses otherwise.
\<close>

type_synonym 'g meters = "'g option \<times> 'g"

definition tx_meter :: "'g meters \<Rightarrow> 'g" where
  "tx_meter gs = (case fst gs of None \<Rightarrow> snd gs | Some g \<Rightarrow> g)"

definition put_meter :: "'g \<Rightarrow> 'g meters \<Rightarrow> 'g meters" where
  "put_meter g gs = (case fst gs of None \<Rightarrow> (None, g) | Some _ \<Rightarrow> (Some g, snd gs))"

text \<open>
  The body of \<open>runTx\<close> up to its deferred functions: the outcome, the gas wanted, the meters and the store behind the caches.
\<close>

definition run_ante ::
  "('s, 'g, 'x, 'm) app_lib \<Rightarrow> app_ctx \<Rightarrow> runTxMode \<Rightarrow> 'x \<Rightarrow> 's \<Rightarrow> 'g \<Rightarrow> unit run \<times> 64 word \<times> app_ctx \<times> 'g meters \<times> 's" where
  "run_ante A ctx mode tx ms gas =
     (case lb_anteHandler A of
        None \<Rightarrow> (Done (), 0, ctx, (None, gas), ms)
      | Some anteHandler \<Rightarrow>
          (case anteHandler ctx tx (mode = runTxModeSimulate) (ms, gas) of
             (Panicked p, _, _, gas1) \<Rightarrow> (Panicked p, 0, ctx, (None, gas1), ms)
           | (r, newCtx, msCache, gas1) \<Rightarrow>
               (let ctx1 = (case newCtx of None \<Rightarrow> ctx | Some (c, _) \<Rightarrow> c); gs = (map_option snd newCtx, gas1) in
                (r, mt_Limit (lb_Meter A) (tx_meter gs), ctx1, gs, if r = Done () then msCache else ms))))"

definition run_body ::
  "('s, 'g, 'x, 'm) app_lib \<Rightarrow> app_ctx \<Rightarrow> runTxMode \<Rightarrow> 'x \<Rightarrow> 's \<Rightarrow> 'g \<Rightarrow> Result run \<times> 64 word \<times> 'g meters \<times> 's" where
  "run_body A ctx mode tx ms gas =
     (let msgs = lb_GetMsgs A tx in
      case validateBasicTxMsgs A msgs of
        Some e \<Rightarrow> (Fail e, 0, (None, gas), ms)
      | None \<Rightarrow>
          (case run_ante A ctx mode tx ms gas of
             (Done _, gasWanted, ctx1, gs, ms1) \<Rightarrow>
               (case runMsgs A ctx1 msgs mode (ms1, tx_meter gs) of
                  (Done r, ms2, g) \<Rightarrow> (Done r, gasWanted, put_meter g gs, if mode = runTxModeDeliver then ms2 else ms1)
                | (Fail e, _, g) \<Rightarrow> (Fail e, gasWanted, put_meter g gs, ms1)
                | (Panicked p, _, g) \<Rightarrow> (Panicked p, gasWanted, put_meter g gs, ms1))
           | (Fail e, gasWanted, _, gs, ms1) \<Rightarrow> (Fail e, gasWanted, gs, ms1)
           | (Panicked p, gasWanted, _, gs, ms1) \<Rightarrow> (Panicked p, gasWanted, gs, ms1)))"

text \<open>The deferred charge of the block, whose panic replaces that of the body; and the deferred recovery, which lets only the crash of the virtual machine through.\<close>

definition charge_block :: "'g meter_lib \<Rightarrow> 'g \<Rightarrow> 'g \<Rightarrow> panic_value option \<times> 'g" where
  "charge_block M gas blockGas =
     (let startingGas = mt_Consumed M blockGas in
      case mt_Consume M (mt_ConsumedToLimit M gas) blockGas of
        (Some p, blockGas') \<Rightarrow> (Some p, blockGas')
      | (None, blockGas') \<Rightarrow> (if mt_Consumed M blockGas' < startingGas then (Some ErrorGasOverflow, blockGas') else (None, blockGas')))"

definition recover_tx :: "Result run \<Rightarrow> (app_error, Result) res" where
  "recover_tx out =
     (case out of
        Done r \<Rightarrow> Ok r
      | Fail e \<Rightarrow> Err e
      | Panicked p \<Rightarrow> if p = ErrorOutOfGas then Err AppErrOutOfGas else if p = VMCrashed then Panic else Err AppErrPanic)"

text \<open>The state written back: that of the mode; a simulation works on a copy of the store of the check state, but on its meter.\<close>

definition put_state :: "runTxMode \<Rightarrow> ('s, 'g) state \<Rightarrow> ('s, 'g) BaseApp \<Rightarrow> ('s, 'g) BaseApp" where
  "put_state mode st app =
     (case mode of
        runTxModeDeliver \<Rightarrow> app\<lparr>bap_deliverState := Some st\<rparr>
      | runTxModeSimulate \<Rightarrow> app\<lparr>bap_checkState := map_option (\<lambda>k. k\<lparr>st_gas := st_gas st\<rparr>) (bap_checkState app)\<rparr>
      | _ \<Rightarrow> app\<lparr>bap_checkState := Some st\<rparr>)"

text \<open>\<open>Panic\<close> is a panic of the process: a nil state or a nil meter of the block, or the crash of the virtual machine.\<close>

definition runTx ::
  "('s, 'g, 'x, 'm) app_lib \<Rightarrow> runTxMode \<Rightarrow> bytes \<Rightarrow> 'x \<Rightarrow> ('s, 'g) BaseApp \<Rightarrow> ((app_error, Result) res \<times> GasInfo) \<times> ('s, 'g) BaseApp" where
  "runTx A mode txBytes tx app =
     (let M = lb_Meter A; zero = \<lparr>GasWanted = 0, GasUsed = 0\<rparr> in
      case getState mode app of
        None \<Rightarrow> ((Panic, zero), app)
      | Some st \<Rightarrow>
          (let ctx = getContextForTx mode txBytes app st in
           if mode = runTxModeDeliver then
             (case st_blockGas st of
                None \<Rightarrow> ((Panic, zero), app)
              | Some blockGas \<Rightarrow>
                  if mt_IsOutOfGas M blockGas then ((Err AppErrOutOfGas, \<lparr>GasWanted = 0, GasUsed = mt_Consumed M blockGas\<rparr>), app)
                  else
                    (case run_body A ctx mode tx (st_ms st) (st_gas st) of
                       (out, gasWanted, gs, ms) \<Rightarrow>
                         (case charge_block M (tx_meter gs) blockGas of
                            (p, blockGas') \<Rightarrow>
                              (let out' = (case p of None \<Rightarrow> out | Some v \<Rightarrow> Panicked v) in
                               ((recover_tx out', \<lparr>GasWanted = gasWanted, GasUsed = mt_Consumed M (tx_meter gs)\<rparr>),
                                put_state mode (st\<lparr>st_ms := ms, st_gas := snd gs, st_blockGas := Some blockGas'\<rparr>) app)))))
           else
             (case run_body A ctx mode tx (st_ms st) (st_gas st) of
                (out, gasWanted, gs, ms) \<Rightarrow>
                  ((recover_tx out, \<lparr>GasWanted = gasWanted, GasUsed = mt_Consumed M (tx_meter gs)\<rparr>), put_state mode (st\<lparr>st_ms := ms, st_gas := snd gs\<rparr>) app))))"

definition App_Check ::
  "('s, 'g, 'x, 'm) app_lib \<Rightarrow> 'x \<Rightarrow> ('s, 'g) BaseApp \<Rightarrow> ((app_error, Result) res \<times> GasInfo) \<times> ('s, 'g) BaseApp" where
  "App_Check A tx = runTx A runTxModeCheck [] tx"

definition App_Simulate ::
  "('s, 'g, 'x, 'm) app_lib \<Rightarrow> bytes \<Rightarrow> 'x \<Rightarrow> ('s, 'g) BaseApp \<Rightarrow> ((app_error, Result) res \<times> GasInfo) \<times> ('s, 'g) BaseApp" where
  "App_Simulate A txBytes tx = runTx A runTxModeSimulate txBytes tx"

definition App_Deliver ::
  "('s, 'g, 'x, 'm) app_lib \<Rightarrow> 'x \<Rightarrow> ('s, 'g) BaseApp \<Rightarrow> ((app_error, Result) res \<times> GasInfo) \<times> ('s, 'g) BaseApp" where
  "App_Deliver A tx = runTx A runTxModeDeliver [] tx"

section \<open>The calls of the consensus engine\<close>

text \<open>\<open>None\<close> as the answer is a panic of the process.\<close>

definition deliver_ctx :: "('s, 'g) BaseApp \<Rightarrow> ('s, 'g) state \<Rightarrow> app_ctx" where
  "deliver_ctx app st = \<lparr>cx_Header = st_header st, cx_CheckTx = False, cx_ReCheckTx = False, cx_TxBytes = [], cx_VoteInfos = [], cx_ConsensusParams = None\<rparr>"

definition same_validators :: "('s, 'g, 'x, 'm) app_lib \<Rightarrow> string list \<Rightarrow> string list \<Rightarrow> bool" where
  "same_validators A req res \<longleftrightarrow> (req = [] \<or> length req = length res \<and> lb_Sort A req = lb_Sort A res)"

definition InitChain ::
  "('s, 'g, 'x, 'm) app_lib \<Rightarrow> string \<Rightarrow> int \<Rightarrow> int option option \<Rightarrow> string list \<Rightarrow> bytes \<Rightarrow> ('s, 'g) BaseApp \<Rightarrow> string list option \<times> ('s, 'g) BaseApp" where
  "InitChain A chainId time params validators appState app =
     (let app1 = (case params of
                    None \<Rightarrow> app
                  | Some p \<Rightarrow> app\<lparr>bap_consensusParams := Some p, bap_cms := lb_StoreParams A p (bap_cms app)\<rparr>);
          initHeader = \<lparr>h_ChainID = chainId, h_Height = 0, h_Time = time\<rparr>;
          app2 = setCheckState A initHeader (setDeliverState A initHeader app1) in
      case (lb_initChainer A, bap_deliverState app2) of
        (Some initChainer, Some st) \<Rightarrow>
          (let st1 = st\<lparr>st_blockGas := Some (mt_Infinite (lb_Meter A))\<rparr> in
           case initChainer (deliver_ctx app2 st1) appState (st_ms st1, st_gas st1) of
             (Done res, ms, g) \<Rightarrow>
               (let app3 = app2\<lparr>bap_deliverState := Some (st1\<lparr>st_ms := ms, st_gas := g\<rparr>)\<rparr> in
                if same_validators A validators res then (Some (if validators = [] then res else lb_Sort A res), app3) else (None, app3))
           | (_, ms, g) \<Rightarrow> (None, app2\<lparr>bap_deliverState := Some (st1\<lparr>st_ms := ms, st_gas := g\<rparr>)\<rparr>))
      | _ \<Rightarrow> (Some [], app2))"

definition Info :: "('s, 'g, 'x, 'm) app_lib \<Rightarrow> ('s, 'g) BaseApp \<Rightarrow> string \<times> int \<times> bytes" where
  "Info A app = (bap_name app, LastBlockHeight app, (case bap_versions app of [] \<Rightarrow> [] | (_, s) # _ \<Rightarrow> lb_Hash A s))"

definition BeginBlock ::
  "('s, 'g, 'x, 'm) app_lib \<Rightarrow> Header \<Rightarrow> string list \<Rightarrow> ('s, 'g) BaseApp \<Rightarrow> sdk_event list option \<times> ('s, 'g) BaseApp" where
  "BeginBlock A hdr votes app =
     (if \<not> validateHeight app hdr then (None, app)
      else
        (let app1 = (case bap_deliverState app of
                       None \<Rightarrow> setDeliverState A hdr app
                     | Some st \<Rightarrow> app\<lparr>bap_deliverState := Some (st\<lparr>st_header := hdr\<rparr>)\<rparr>) in
         case (getMaximumBlockGas app1, bap_deliverState app1) of
           (Some maxGas, Some st) \<Rightarrow>
             (let st1 = st\<lparr>st_blockGas := Some (if 0 < maxGas then mt_New (lb_Meter A) maxGas else mt_Infinite (lb_Meter A))\<rparr> in
              case lb_beginBlocker A of
                None \<Rightarrow> (Some [], app1\<lparr>bap_deliverState := Some st1, bap_voteInfos := votes\<rparr>)
              | Some beginBlocker \<Rightarrow>
                  (case beginBlocker (deliver_ctx app1 st1) (st_ms st1, st_gas st1) of
                     (Done res, ms, g) \<Rightarrow> (Some res, app1\<lparr>bap_deliverState := Some (st1\<lparr>st_ms := ms, st_gas := g\<rparr>), bap_voteInfos := votes\<rparr>)
                   | (_, ms, g) \<Rightarrow> (None, app1\<lparr>bap_deliverState := Some (st1\<lparr>st_ms := ms, st_gas := g\<rparr>)\<rparr>)))
         | _ \<Rightarrow> (None, app1)))"

definition EndBlock ::
  "('s, 'g, 'x, 'm) app_lib \<Rightarrow> int \<Rightarrow> ('s, 'g) BaseApp \<Rightarrow> (sdk_event list \<times> string list) option \<times> ('s, 'g) BaseApp" where
  "EndBlock A height app =
     (case bap_deliverState app of
        None \<Rightarrow> (None, app)
      | Some st \<Rightarrow>
          (case lb_endBlocker A of
             None \<Rightarrow> (Some ([], []), app)
           | Some endBlocker \<Rightarrow>
               (case endBlocker (deliver_ctx app st) height (st_ms st, st_gas st) of
                  (Done res, ms, g) \<Rightarrow> (Some res, app\<lparr>bap_deliverState := Some (st\<lparr>st_ms := ms, st_gas := g\<rparr>)\<rparr>)
                | (_, ms, g) \<Rightarrow> (None, app\<lparr>bap_deliverState := Some (st\<lparr>st_ms := ms, st_gas := g\<rparr>)\<rparr>))))"

datatype CheckTxType = CheckTxType_New | CheckTxType_Recheck | CheckTxType_Other

type_synonym tx_response = "(app_error, Result) res \<times> GasInfo"

definition CheckTx ::
  "('s, 'g, 'x, 'm) app_lib \<Rightarrow> CheckTxType \<Rightarrow> bytes \<Rightarrow> ('s, 'g) BaseApp \<Rightarrow> tx_response \<times> ('s, 'g) BaseApp" where
  "CheckTx A typ txBytes app =
     (case lb_txDecoder A txBytes of
        None \<Rightarrow> ((Err AppErrTxDecode, \<lparr>GasWanted = 0, GasUsed = 0\<rparr>), app)
      | Some tx \<Rightarrow>
          (case typ of
             CheckTxType_New \<Rightarrow> runTx A runTxModeCheck txBytes tx app
           | CheckTxType_Recheck \<Rightarrow> runTx A runTxModeReCheck txBytes tx app
           | CheckTxType_Other \<Rightarrow> ((Panic, \<lparr>GasWanted = 0, GasUsed = 0\<rparr>), app)))"

definition DeliverTx :: "('s, 'g, 'x, 'm) app_lib \<Rightarrow> bytes \<Rightarrow> ('s, 'g) BaseApp \<Rightarrow> tx_response \<times> ('s, 'g) BaseApp" where
  "DeliverTx A txBytes app =
     (case lb_txDecoder A txBytes of
        None \<Rightarrow> ((Err AppErrTxDecode, \<lparr>GasWanted = 0, GasUsed = 0\<rparr>), app)
      | Some tx \<Rightarrow> runTx A runTxModeDeliver txBytes tx app)"

definition should_halt :: "('s, 'g) BaseApp \<Rightarrow> Header \<Rightarrow> bool" where
  "should_halt app hdr \<longleftrightarrow>
     0 < bap_haltHeight app \<and> bap_haltHeight app \<le> of_int (h_Height hdr) \<or>
     0 < bap_haltTime app \<and> sint (bap_haltTime app) \<le> h_Time hdr"

definition Commit :: "('s, 'g, 'x, 'm) app_lib \<Rightarrow> ('s, 'g) BaseApp \<Rightarrow> bytes option \<times> ('s, 'g) BaseApp" where
  "Commit A app =
     (case bap_deliverState app of
        None \<Rightarrow> (None, app)
      | Some st \<Rightarrow>
          (let hdr = st_header st;
               app1 = app\<lparr>bap_cms := st_ms st, bap_versions := (LastBlockHeight app + 1, st_ms st) # bap_versions app\<rparr>;
               app2 = (setCheckState A hdr app1)\<lparr>bap_deliverState := None\<rparr> in
           (Some (lb_Hash A (st_ms st)), if should_halt app hdr then app2\<lparr>bap_halted := True\<rparr> else app2)))"

section \<open>Queries\<close>

record QueryRequest =
  rq_Path :: string
  rq_Data :: bytes
  rq_Height :: int
  rq_Prove :: bool

record QueryResponse =
  rs_Value :: bytes
  rs_Height :: int

definition splitPath :: "string \<Rightarrow> string list" where
  "splitPath requestPath = (case split_on CHR ''/'' requestPath of [] # path \<Rightarrow> path | path \<Rightarrow> path)"

definition handleQueryApp ::
  "('s, 'g, 'x, 'm) app_lib \<Rightarrow> string list \<Rightarrow> QueryRequest \<Rightarrow> ('s, 'g) BaseApp \<Rightarrow> (app_error, QueryResponse) res \<times> ('s, 'g) BaseApp" where
  "handleQueryApp A path req app =
     (case path of
        _ # cmd # _ \<Rightarrow>
          if cmd = ''simulate'' then
            (case lb_txDecoder A (rq_Data req) of
               None \<Rightarrow> (Err AppErrTxDecode, app)
             | Some tx \<Rightarrow>
                 (case App_Simulate A (rq_Data req) tx app of
                    ((r, gInfo), app') \<Rightarrow> (bind_res r (\<lambda>res. Ok \<lparr>rs_Value = lb_SimResponse A gInfo res, rs_Height = rq_Height req\<rparr>), app')))
          else if cmd = ''version'' then (Ok \<lparr>rs_Value = bap_appVersion app, rs_Height = rq_Height req\<rparr>, app)
          else (Err AppErrUnknownRequest, app)
      | _ \<Rightarrow> (Err AppErrUnknownRequest, app))"

definition query_height :: "QueryRequest \<Rightarrow> ('s, 'g) BaseApp \<Rightarrow> int" where
  "query_height req app = (if rq_Height req = 0 then LastBlockHeight app else rq_Height req)"

definition run_query :: "'a run \<Rightarrow> (app_error, 'a) res" where
  "run_query r = (case r of Done x \<Rightarrow> Ok x | Fail e \<Rightarrow> Err e | Panicked p \<Rightarrow> Panic)"

definition handleQueryStore ::
  "('s, 'g, 'x, 'm) app_lib \<Rightarrow> string list \<Rightarrow> QueryRequest \<Rightarrow> ('s, 'g) BaseApp \<Rightarrow> (app_error, QueryResponse) res" where
  "handleQueryStore A path req app =
     (let h = query_height req app in
      if h \<le> 1 \<and> rq_Prove req then Err AppErrInvalidRequest
      else bind_res (run_query (lb_storeQuery A (CHR ''/'' # join_with CHR ''/'' (tl path)) (rq_Data req) h (rq_Prove req) (bap_versions app)))
             (\<lambda>bz. Ok \<lparr>rs_Value = bz, rs_Height = h\<rparr>))"

definition filter_peer :: "('s, 'g, 'x, 'm) app_lib \<Rightarrow> string \<Rightarrow> string \<Rightarrow> (app_error, QueryResponse) res" where
  "filter_peer A kind info = Ok \<lparr>rs_Value = (case lb_peerFilter A kind of None \<Rightarrow> [] | Some f \<Rightarrow> f info), rs_Height = 0\<rparr>"

definition handleQueryP2P :: "('s, 'g, 'x, 'm) app_lib \<Rightarrow> string list \<Rightarrow> (app_error, QueryResponse) res" where
  "handleQueryP2P A path =
     (case path of
        _ # cmd # typ # arg # _ \<Rightarrow>
          if cmd = ''filter'' then
            (if typ = ''addr'' then filter_peer A ''addr'' arg else if typ = ''id'' then filter_peer A ''id'' arg else Err AppErrUnknownRequest)
          else Err AppErrUnknownRequest
      | _ \<Rightarrow> Err AppErrUnknownRequest)"

text \<open>The querier of a module runs on a copy of the store of the height; the check state, from which it takes the header, may be nil.\<close>

definition handleQueryCustom ::
  "('s, 'g, 'x, 'm) app_lib \<Rightarrow> string list \<Rightarrow> QueryRequest \<Rightarrow> ('s, 'g) BaseApp \<Rightarrow> (app_error, QueryResponse) res" where
  "handleQueryCustom A path req app =
     (case path of
        _ # route # rest \<Rightarrow>
          if route = [] then Err AppErrUnknownRequest
          else
            (case lb_queryRouter A route of
               None \<Rightarrow> Err AppErrUnknownRequest
             | Some querier \<Rightarrow>
                 (let h = query_height req app in
                  if h \<le> 1 \<and> rq_Prove req then Err AppErrInvalidRequest
                  else
                    (case lb_AtVersion A h (bap_versions app) of
                       None \<Rightarrow> Err AppErrInvalidRequest
                     | Some cacheMS \<Rightarrow>
                         (case bap_checkState app of
                            None \<Rightarrow> Panic
                          | Some st \<Rightarrow>
                              bind_res (run_query (querier \<lparr>cx_Header = st_header st, cx_CheckTx = True, cx_ReCheckTx = False, cx_TxBytes = [], cx_VoteInfos = [], cx_ConsensusParams = None\<rparr>
                                  rest (rq_Data req) cacheMS))
                                (\<lambda>bz. Ok \<lparr>rs_Value = bz, rs_Height = h\<rparr>)))))
      | _ \<Rightarrow> Err AppErrUnknownRequest)"

text \<open>The answer for an empty path is built and dropped; the code then reads its first element.\<close>

definition Query :: "('s, 'g, 'x, 'm) app_lib \<Rightarrow> QueryRequest \<Rightarrow> ('s, 'g) BaseApp \<Rightarrow> (app_error, QueryResponse) res \<times> ('s, 'g) BaseApp" where
  "Query A req app =
     (case splitPath (rq_Path req) of
        [] \<Rightarrow> (Panic, app)
      | p # rest \<Rightarrow>
          if p = ''app'' then handleQueryApp A (p # rest) req app
          else if p = ''store'' then (handleQueryStore A (p # rest) req app, app)
          else if p = ''p2p'' then (handleQueryP2P A (p # rest), app)
          else if p = ''custom'' then (handleQueryCustom A (p # rest) req app, app)
          else (Err AppErrUnknownRequest, app))"

section \<open>Options and loading\<close>

text \<open>An option of a sealed application panics. Loading reads the consensus parameters from the main store, opens a check state and seals the application.\<close>

definition sealed_option :: "(('s, 'g) BaseApp \<Rightarrow> ('s, 'g) BaseApp) \<Rightarrow> ('s, 'g) BaseApp \<Rightarrow> ('s, 'g) BaseApp option" where
  "sealed_option f app = (if bap_sealed app then None else Some (f app))"

definition SetName :: "string \<Rightarrow> ('s, 'g) BaseApp \<Rightarrow> ('s, 'g) BaseApp option" where
  "SetName n = sealed_option (\<lambda>app. app\<lparr>bap_name := n\<rparr>)"

definition SetAppVersion :: "string \<Rightarrow> ('s, 'g) BaseApp \<Rightarrow> ('s, 'g) BaseApp option" where
  "SetAppVersion v = sealed_option (\<lambda>app. app\<lparr>bap_appVersion := v\<rparr>)"

definition SetHaltHeight :: "64 word \<Rightarrow> ('s, 'g) BaseApp \<Rightarrow> ('s, 'g) BaseApp" where
  "SetHaltHeight blockHeight app = app\<lparr>bap_haltHeight := blockHeight\<rparr>"

definition SetHaltTime :: "64 word \<Rightarrow> ('s, 'g) BaseApp \<Rightarrow> ('s, 'g) BaseApp" where
  "SetHaltTime haltTime app = app\<lparr>bap_haltTime := haltTime\<rparr>"

definition initFromMainStore :: "('s, 'g, 'x, 'm) app_lib \<Rightarrow> ('s, 'g) BaseApp \<Rightarrow> ('s, 'g) BaseApp option" where
  "initFromMainStore A app =
     (if bap_baseKey app then None
      else
        (let app1 = app\<lparr>bap_baseKey := True\<rparr>;
             app2 = (case lb_LoadParams A (bap_cms app1) of None \<Rightarrow> app1 | Some p \<Rightarrow> app1\<lparr>bap_consensusParams := Some p\<rparr>);
             app3 = setCheckState A \<lparr>h_ChainID = [], h_Height = 0, h_Time = time_zero div 1000000000\<rparr> app2 in
         Some (app3\<lparr>bap_sealed := True\<rparr>)))"

section \<open>Sequences of calls\<close>

datatype abci_call =
    CallInitChain string int "int option option" "string list" bytes
  | CallBeginBlock Header "string list"
  | CallDeliverTx bytes
  | CallEndBlock int
  | CallCommit
  | CallCheckTx CheckTxType bytes
  | CallQuery QueryRequest

datatype abci_answer =
    AnsValidators "string list"
  | AnsEvents "sdk_event list"
  | AnsEnd "sdk_event list \<times> string list"
  | AnsHash bytes
  | AnsTx tx_response
  | AnsQuery "(app_error, QueryResponse) res"

text \<open>One call; \<open>None\<close> if the process panics.\<close>

definition answer :: "('r \<Rightarrow> abci_answer) \<Rightarrow> 'r option \<times> ('s, 'g) BaseApp \<Rightarrow> (abci_answer \<times> ('s, 'g) BaseApp) option" where
  "answer f p = (case p of (Some r, app) \<Rightarrow> Some (f r, app) | (None, _) \<Rightarrow> None)"

definition answer_tx :: "tx_response \<times> ('s, 'g) BaseApp \<Rightarrow> (abci_answer \<times> ('s, 'g) BaseApp) option" where
  "answer_tx p = (if fst (fst p) = Panic then None else Some (AnsTx (fst p), snd p))"

fun abci :: "('s, 'g, 'x, 'm) app_lib \<Rightarrow> abci_call \<Rightarrow> ('s, 'g) BaseApp \<Rightarrow> (abci_answer \<times> ('s, 'g) BaseApp) option" where
  "abci A (CallInitChain chainId time params validators appState) app = answer AnsValidators (InitChain A chainId time params validators appState app)"
| "abci A (CallBeginBlock hdr votes) app = answer AnsEvents (BeginBlock A hdr votes app)"
| "abci A (CallDeliverTx txBytes) app = answer_tx (DeliverTx A txBytes app)"
| "abci A (CallEndBlock height) app = answer AnsEnd (EndBlock A height app)"
| "abci A CallCommit app = answer AnsHash (Commit A app)"
| "abci A (CallCheckTx typ txBytes) app = answer_tx (CheckTx A typ txBytes app)"
| "abci A (CallQuery req) app = (case Query A req app of (r, app') \<Rightarrow> if r = Panic then None else Some (AnsQuery r, app'))"

fun abci_run :: "('s, 'g, 'x, 'm) app_lib \<Rightarrow> abci_call list \<Rightarrow> ('s, 'g) BaseApp \<Rightarrow> (abci_answer list \<times> ('s, 'g) BaseApp) option" where
  "abci_run A [] app = Some ([], app)"
| "abci_run A (c # cs) app =
     (case abci A c app of
        None \<Rightarrow> None
      | Some (a, app1) \<Rightarrow> (case abci_run A cs app1 of None \<Rightarrow> None | Some (as, app') \<Rightarrow> Some (a # as, app')))"

fun is_block_call :: "abci_call \<Rightarrow> bool" where
  "is_block_call (CallCheckTx _ _) = False"
| "is_block_call (CallQuery _) = False"
| "is_block_call _ = True"

end
