(* ===== verification/BaseApp_Props.thy ===== *)
theory BaseApp_Props
  imports BaseApp
begin

text \<open>
  Properties of the application: nodes that execute the same blocks agree whatever their users check or query; what the delivery of a transaction leaves in the
  store; the committed versions.
\<close>

section \<open>Agreement of the nodes\<close>

text \<open>What the calls of a block see of the application: everything but the check state.\<close>

definition consensus_view :: "('s, 'g) BaseApp \<Rightarrow> ('s, 'g) BaseApp" where
  "consensus_view app = app\<lparr>bap_checkState := None\<rparr>"

lemma view_eqE: "consensus_view a = consensus_view b \<Longrightarrow> \<exists>k. b = a\<lparr>bap_checkState := k\<rparr>"
  by (intro exI [of _ "bap_checkState b"]) (cases a; cases b; simp add: consensus_view_def)

lemma view_update [simp]: "consensus_view (app\<lparr>bap_checkState := k\<rparr>) = consensus_view app"
  by (simp add: consensus_view_def)

lemma view_versions: "bap_versions (consensus_view app) = bap_versions app"
  by (simp add: consensus_view_def)

lemma put_check_view: "mode \<noteq> runTxModeDeliver \<Longrightarrow> consensus_view (put_state mode st app) = consensus_view app"
  by (cases mode) (simp_all add: put_state_def)

lemma CheckTx_view: "consensus_view (snd (CheckTx A typ txBytes app)) = consensus_view app"
  by (auto simp: CheckTx_def runTx_def Let_def put_check_view split: option.splits CheckTxType.splits prod.splits)

lemma Query_view: "consensus_view (snd (Query A req app)) = consensus_view app"
  by (auto simp: Query_def handleQueryApp_def App_Simulate_def runTx_def Let_def put_check_view split: option.splits prod.splits list.splits)

lemma runTx_deliver_cong:
  "runTx A runTxModeDeliver txBytes tx (app\<lparr>bap_checkState := k\<rparr>) =
   (let (r, app') = runTx A runTxModeDeliver txBytes tx app in (r, app'\<lparr>bap_checkState := k\<rparr>))"
  by (auto simp: runTx_def Let_def getState_def getContextForTx_def put_state_def split: option.splits prod.splits)

lemma DeliverTx_cong:
  "DeliverTx A txBytes (app\<lparr>bap_checkState := k\<rparr>) = (let (r, app') = DeliverTx A txBytes app in (r, app'\<lparr>bap_checkState := k\<rparr>))"
  by (auto simp: DeliverTx_def runTx_deliver_cong split: option.splits)

lemma BeginBlock_cong:
  "BeginBlock A hdr votes (app\<lparr>bap_checkState := k\<rparr>) = (let (r, app') = BeginBlock A hdr votes app in (r, app'\<lparr>bap_checkState := k\<rparr>))"
  by (auto simp: BeginBlock_def Let_def validateHeight_def LastBlockHeight_def getMaximumBlockGas_def setDeliverState_def deliver_ctx_def split: option.splits prod.splits run.splits)

lemma EndBlock_cong:
  "EndBlock A h (app\<lparr>bap_checkState := k\<rparr>) = (let (r, app') = EndBlock A h app in (r, app'\<lparr>bap_checkState := k\<rparr>))"
  by (auto simp: EndBlock_def Let_def deliver_ctx_def split: option.splits prod.splits run.splits)

lemma Commit_cong: "fst (Commit A (app\<lparr>bap_checkState := k\<rparr>)) = fst (Commit A app) \<and> consensus_view (snd (Commit A (app\<lparr>bap_checkState := k\<rparr>))) = consensus_view (snd (Commit A app))"
  by (auto simp: Commit_def Let_def setCheckState_def consensus_view_def should_halt_def LastBlockHeight_def split: option.splits)

lemma InitChain_cong:
  "fst (InitChain A c t p v s (app\<lparr>bap_checkState := k\<rparr>)) = fst (InitChain A c t p v s app) \<and>
   consensus_view (snd (InitChain A c t p v s (app\<lparr>bap_checkState := k\<rparr>))) = consensus_view (snd (InitChain A c t p v s app))"
  by (auto simp: InitChain_def Let_def setCheckState_def setDeliverState_def consensus_view_def deliver_ctx_def split: option.splits prod.splits run.splits)

lemma answer_Some: "answer f p = Some (a, app) \<longleftrightarrow> (\<exists>r. p = (Some r, app) \<and> a = f r)"
  by (auto simp: answer_def split: prod.splits option.splits)

lemma abci_other_view: "\<not> is_block_call c \<Longrightarrow> abci A c app = Some (a, app') \<Longrightarrow> consensus_view app' = consensus_view app"
proof (cases c)
  case (CallQuery req)
  assume "abci A c app = Some (a, app')"
  with CallQuery have "app' = snd (Query A req app)" by (auto split: if_splits prod.splits)
  then show ?thesis by (simp add: Query_view)
qed (use CheckTx_view in \<open>auto simp: answer_tx_def split: if_splits\<close>)

lemma abci_block_cong:
  assumes "is_block_call c" and v: "consensus_view app = consensus_view app1" and r: "abci A c app = Some (a, app')"
  shows "\<exists>app1'. abci A c app1 = Some (a, app1') \<and> consensus_view app1' = consensus_view app'"
proof -
  from view_eqE [OF v] obtain k where k: "app1 = app\<lparr>bap_checkState := k\<rparr>" ..
  show ?thesis
  proof (cases c)
    case (CallInitChain ch t p vs s)
    with r InitChain_cong [where A = A and c = ch and t = t and p = p and v = vs and s = s and app = app and k = k] show ?thesis
      by (cases "InitChain A ch t p vs s app1") (auto simp: answer_Some k)
  next
    case (CallBeginBlock hdr votes)
    with r show ?thesis by (auto simp: answer_Some k BeginBlock_cong)
  next
    case (CallDeliverTx txBytes)
    with r show ?thesis by (auto simp: answer_tx_def k DeliverTx_cong Let_def split: prod.splits if_splits)
  next
    case (CallEndBlock h)
    with r show ?thesis by (auto simp: answer_Some k EndBlock_cong)
  next
    case CallCommit
    with r Commit_cong [where A = A and app = app and k = k] show ?thesis by (cases "Commit A app1") (auto simp: answer_Some k)
  qed (use assms(1) in simp_all)
qed

lemma abci_run_blocks:
  "abci_run A cs app = Some (as, app') \<Longrightarrow> consensus_view app = consensus_view app1 \<Longrightarrow>
   \<exists>app1'. abci_run A (filter is_block_call cs) app1 = Some (map snd (filter (is_block_call \<circ> fst) (zip cs as)), app1') \<and>
     consensus_view app1' = consensus_view app'"
proof (induction cs arbitrary: app app1 as)
  case (Cons c cs)
  from Cons.prems(1) obtain a app2 as' where s: "abci A c app = Some (a, app2)" "abci_run A cs app2 = Some (as', app')" "as = a # as'"
    by (auto split: option.splits)
  show ?case
  proof (cases "is_block_call c")
    case True
    from abci_block_cong [OF True Cons.prems(2) s(1)] obtain app3 where a3: "abci A c app1 = Some (a, app3)" "consensus_view app3 = consensus_view app2" by blast
    from Cons.IH [OF s(2) a3(2) [symmetric]] a3(1) True s(3) show ?thesis by auto
  next
    case False
    from abci_other_view [OF False s(1)] Cons.prems(2) have "consensus_view app2 = consensus_view app1" by simp
    from Cons.IH [OF s(2) this] False s(3) show ?thesis by auto
  qed
qed simp

text \<open>
  C11. Agreement, equivalence: checks of transactions, simulations and queries between the calls of a block change neither what these calls answer (events,
  results of transactions, hashes of commits) nor the stores, committed versions and block state they leave: a run with them is equivalent to the run of
  the calls of its blocks alone, from any application that differs only in its check state.
\<close>

theorem abci_agreement:
  assumes "abci_run A cs app = Some (as, app')" and "consensus_view app1 = consensus_view app"
  shows "\<exists>app1'. abci_run A (filter is_block_call cs) app1 = Some (map snd (filter (is_block_call \<circ> fst) (zip cs as)), app1') \<and>
    consensus_view app1' = consensus_view app'"
  using abci_run_blocks [OF assms(1) assms(2) [symmetric]] .

section \<open>The effect of a transaction\<close>

lemma run_ante_refused: "run_ante A ctx mode tx ms gas = (r, w, c, gs, ms') \<Longrightarrow> r \<noteq> Done () \<Longrightarrow> ms' = ms"
  by (auto simp: run_ante_def Let_def split: option.splits prod.splits run.splits)

lemma tx_meter_put [simp]: "tx_meter (put_meter g gs) = g"
  by (simp add: tx_meter_def put_meter_def split: option.splits)

lemma run_body_effect:
  assumes "run_body A ctx runTxModeDeliver tx ms gas = (out, w, gs', ms')"
  shows "case out of
      Done r \<Rightarrow> \<exists>c gs ms1. run_ante A ctx runTxModeDeliver tx ms gas = (Done (), w, c, gs, ms1) \<and>
        runMsgs A c (lb_GetMsgs A tx) runTxModeDeliver (ms1, tx_meter gs) = (Done r, ms', tx_meter gs')
    | _ \<Rightarrow> ms' = ms \<or> (\<exists>w c gs. run_ante A ctx runTxModeDeliver tx ms gas = (Done (), w, c, gs, ms'))"
proof (cases "validateBasicTxMsgs A (lb_GetMsgs A tx)")
  case None
  obtain r w1 c1 g1 ms1 where a: "run_ante A ctx runTxModeDeliver tx ms gas = (r, w1, c1, g1, ms1)" by (metis prod_cases5)
  show ?thesis
  proof (cases "r = Done ()")
    case True
    with assms None a show ?thesis by (auto simp: run_body_def Let_def split: prod.splits run.splits)
  next
    case False
    with assms None a run_ante_refused [OF a] show ?thesis by (cases r) (auto simp: run_body_def Let_def)
  qed
qed (use assms in \<open>auto simp: run_body_def Let_def\<close>)


section \<open>Committed versions\<close>

text \<open>Versions are numbered from one without gaps, the latest first.\<close>

definition versions_ok :: "('s, 'g) BaseApp \<Rightarrow> bool" where
  "versions_ok app \<longleftrightarrow> map fst (bap_versions app) = map int (rev [1..<Suc (length (bap_versions app))])"

lemma versions_ok_height: "versions_ok app \<Longrightarrow> LastBlockHeight app = int (length (bap_versions app))"
  by (cases "bap_versions app") (auto simp: versions_ok_def LastBlockHeight_def)

lemma runTx_versions: "bap_versions (snd (runTx A mode txBytes tx app)) = bap_versions app"
  by (cases mode) (auto simp: runTx_def Let_def put_state_def split: option.splits prod.splits)

lemma Commit_versions:
  assumes "Commit A app = (Some h, app')"
  shows "\<exists>ms. bap_versions app' = (LastBlockHeight app + 1, ms) # bap_versions app \<and> bap_cms app' = ms \<and>
    map_option st_ms (bap_checkState app') = Some ms \<and> bap_deliverState app' = None \<and> h = lb_Hash A ms"
  using assms by (auto simp: Commit_def Let_def setCheckState_def split: option.splits if_splits)

lemma abci_versions:
  assumes "abci A c app = Some (a, app')" and "c \<noteq> CallCommit"
  shows "bap_versions app' = bap_versions app"
proof (cases c)
  case (CallCheckTx ty bz)
  with assms(1) runTx_versions show ?thesis by (fastforce simp: answer_tx_def CheckTx_def split: if_splits option.splits CheckTxType.splits)
next
  case (CallDeliverTx bz)
  with assms(1) runTx_versions show ?thesis by (fastforce simp: answer_tx_def DeliverTx_def split: if_splits option.splits)
next
  case (CallInitChain ch t p vs s)
  with assms(1) show ?thesis
    by (auto simp: answer_Some InitChain_def Let_def setCheckState_def setDeliverState_def split: option.splits prod.splits run.splits if_splits)
next
  case (CallBeginBlock hdr votes)
  with assms(1) show ?thesis
    by (auto simp: answer_Some BeginBlock_def Let_def setDeliverState_def split: option.splits prod.splits run.splits if_splits)
next
  case (CallEndBlock h)
  with assms(1) show ?thesis by (auto simp: answer_Some EndBlock_def split: option.splits prod.splits run.splits)
next
  case (CallQuery req)
  with assms(1) have "consensus_view app' = consensus_view app" by (intro abci_other_view [OF _ assms(1)]) simp
  then show ?thesis by (metis view_versions)
qed (use assms(2) in simp)

text \<open>
  In every run the committed versions stay as they are and every commit adds the next one; a block begins only at the height after the latest version.
\<close>

theorem abci_run_versions:
  "\<lbrakk>abci_run A cs app = Some (as, app'); versions_ok app\<rbrakk> \<Longrightarrow>
   versions_ok app' \<and> (\<exists>new. bap_versions app' = new @ bap_versions app \<and> length new = count_list cs CallCommit)"
proof (induction cs arbitrary: app as)
  case (Cons c cs)
  from Cons.prems(1) obtain a app1 as' where s: "abci A c app = Some (a, app1)" "abci_run A cs app1 = Some (as', app')" by (auto split: option.splits)
  show ?case
  proof (cases "c = CallCommit")
    case True
    with s(1) Commit_versions [of A app] obtain ms where v: "bap_versions app1 = (LastBlockHeight app + 1, ms) # bap_versions app" by (auto simp: answer_Some)
    then have "versions_ok app1" using Cons.prems(2) versions_ok_height [OF Cons.prems(2)] by (simp add: versions_ok_def)
    from Cons.IH [OF s(2) this] v True show ?thesis by auto
  next
    case False
    from abci_versions [OF s(1) False] have v: "bap_versions app1 = bap_versions app" .
    then have "versions_ok app1" using Cons.prems(2) by (simp add: versions_ok_def)
    from Cons.IH [OF s(2) this] v False show ?thesis by auto
  qed
qed simp

lemma BeginBlock_height: "BeginBlock A hdr votes app = (Some r, app') \<Longrightarrow> h_Height hdr = LastBlockHeight app + 1"
  by (auto simp: BeginBlock_def validateHeight_def split: if_splits)

text \<open>A query with an empty path panics.\<close>

lemma query_empty_path: "rq_Path req = [] \<Longrightarrow> Query A req app = (Panic, app)"
  by (simp add: Query_def splitPath_def)

section \<open>An example\<close>

text \<open>
  A store that counts, a transaction whose letters are its messages: the decorators charge 1, each message adds 10 and costs 10 units of gas.
\<close>

definition ex_meter :: "(64 word \<times> 64 word) meter_lib" where
  "ex_meter = \<lparr>mt_New = (\<lambda>l. (l, 0)), mt_Infinite = (- 1, 0), mt_Limit = fst, mt_Consumed = snd, mt_ConsumedToLimit = snd,
     mt_IsOutOfGas = (\<lambda>g. fst g \<le> snd g),
     mt_Consume = (\<lambda>a g. (if fst g < snd g + a then Some ErrorOutOfGas else None, (fst g, snd g + a)))\<rparr>"

definition ex_lib :: "(int, 64 word \<times> 64 word, string, char) app_lib" where
  "ex_lib = \<lparr>lb_Meter = ex_meter, lb_txDecoder = Some, lb_GetMsgs = (\<lambda>tx. tx), lb_ValidateBasic = (\<lambda>_. None),
     lb_Route = (\<lambda>m. ''counter''), lb_Type = (\<lambda>m. [m]), lb_anteHandler = Some (\<lambda>ctx tx sim (s, g). (Done (), Some (ctx, (100, 1)), s - 1, g)),
     lb_msgsCustomVerifier = (\<lambda>_. None), lb_msgsDeniedList = (\<lambda>_. None),
     lb_router = (\<lambda>_. Some (\<lambda>ctx m (s, g). (Done \<lparr>r_Data = [m], r_Log = [], r_Events = []\<rparr>, s + 10, (fst g, snd g + 10)))),
     lb_initChainer = None, lb_beginBlocker = None, lb_endBlocker = None, lb_queryRouter = (\<lambda>_. None),
     lb_storeQuery = (\<lambda>_ _ _ _ _. Fail AppErrUnknownRequest), lb_AtVersion = (\<lambda>h vs. map_of vs h), lb_peerFilter = (\<lambda>_. None), lb_Logs = (\<lambda>_. []), lb_SimResponse = (\<lambda>_ _. []),
     lb_StoreParams = (\<lambda>_ s. s), lb_LoadParams = (\<lambda>_. None), lb_Hash = (\<lambda>s. if s = 119 then ''h119'' else ''other''), lb_Sort = (\<lambda>vs. vs)\<rparr>"

definition ex_state :: "int \<Rightarrow> 64 word \<Rightarrow> (int, 64 word \<times> 64 word) state" where
  "ex_state s used = \<lparr>st_ms = s, st_header = \<lparr>h_ChainID = [], h_Height = 1, h_Time = 0\<rparr>, st_checkTx = False, st_gas = (- 1, 0), st_blockGas = Some (15, used)\<rparr>"

definition ex_app :: "(int, 64 word \<times> 64 word) BaseApp" where
  "ex_app = \<lparr>bap_name = ''dn'', bap_appVersion = [], bap_cms = 100, bap_versions = [], bap_checkState = None, bap_deliverState = Some (ex_state 100 0),
     bap_voteInfos = [], bap_consensusParams = Some (Some 15), bap_baseKey = True, bap_sealed = True, bap_haltHeight = 0, bap_haltTime = 0, bap_halted = False\<rparr>"

lemmas ex_lib_defs = ex_lib_def ex_meter_def ex_state_def ex_app_def

lemma ex_deliver:
  "DeliverTx ex_lib ''ab'' ex_app = ((Err AppErrOutOfGas, \<lparr>GasWanted = 100, GasUsed = 21\<rparr>), ex_app\<lparr>bap_deliverState := Some (ex_state 119 21)\<rparr>)"
  by (simp add: DeliverTx_def runTx_def getState_def getContextForTx_def run_body_def run_ante_def runMsgs_def validateBasicTxMsgs_def charge_block_def
      recover_tx_def put_state_def tx_meter_def put_meter_def ex_lib_defs Let_def)


definition ex_query :: QueryRequest where
  "ex_query = \<lparr>rq_Path = ''/app/version'', rq_Data = [], rq_Height = 0, rq_Prove = False\<rparr>"

definition ex_delivered :: "(int, 64 word \<times> 64 word) BaseApp" where
  "ex_delivered = ex_app\<lparr>bap_deliverState := Some (ex_state 119 21)\<rparr>"

definition ex_committed :: "int \<Rightarrow> (int, 64 word \<times> 64 word) BaseApp" where
  "ex_committed c = ex_app\<lparr>bap_deliverState := None, bap_cms := 119, bap_versions := [(1, 119)],
     bap_checkState := Some \<lparr>st_ms = c, st_header = \<lparr>h_ChainID = [], h_Height = 1, h_Time = 0\<rparr>, st_checkTx = True, st_gas = (- 1, 0), st_blockGas = None\<rparr>\<rparr>"

lemma ex_query_run: "Query ex_lib ex_query ex_delivered = (Ok \<lparr>rs_Value = [], rs_Height = 0\<rparr>, ex_delivered)"
  by (simp add: ex_query_def Query_def splitPath_def handleQueryApp_def ex_delivered_def ex_app_def)

lemma ex_end_run: "EndBlock ex_lib 1 ex_delivered = (Some ([], []), ex_delivered)"
  by (simp add: EndBlock_def ex_delivered_def ex_app_def ex_lib_def)

lemma ex_commit_run: "Commit ex_lib ex_delivered = (Some ''h119'', ex_committed 119)"
  by (simp add: Commit_def ex_delivered_def ex_committed_def setCheckState_def should_halt_def LastBlockHeight_def ex_lib_defs Let_def)

lemma ex_check_run:
  "CheckTx ex_lib CheckTxType_New ''a'' (ex_committed 119) =
     ((Ok \<lparr>r_Data = [], r_Log = [], r_Events = []\<rparr>, \<lparr>GasWanted = 100, GasUsed = 1\<rparr>), ex_committed 118)"
  by (simp add: CheckTx_def runTx_def getState_def getContextForTx_def run_body_def run_ante_def runMsgs_def validateBasicTxMsgs_def
      recover_tx_def put_state_def tx_meter_def put_meter_def ex_committed_def ex_lib_defs Let_def)

text \<open>A node that answers a query and checks a transaction, and one that does not.\<close>

theorem abci_agreement_witness:
  "\<exists>app'. abci_run ex_lib [CallDeliverTx ''ab'', CallEndBlock 1, CallCommit] ex_app =
     Some ([AnsTx (Err AppErrOutOfGas, \<lparr>GasWanted = 100, GasUsed = 21\<rparr>), AnsEnd ([], []), AnsHash ''h119''], app') \<and> bap_versions app' = [(1, 119)]"
proof -
  have d: "DeliverTx ex_lib ''ab'' ex_app = ((Err AppErrOutOfGas, \<lparr>GasWanted = 100, GasUsed = 21\<rparr>), ex_delivered)"
    by (simp add: ex_deliver ex_delivered_def)
  have r: "abci_run ex_lib [CallDeliverTx ''ab'', CallQuery ex_query, CallEndBlock 1, CallCommit, CallCheckTx CheckTxType_New ''a''] ex_app =
      Some ([AnsTx (Err AppErrOutOfGas, \<lparr>GasWanted = 100, GasUsed = 21\<rparr>), AnsQuery (Ok \<lparr>rs_Value = [], rs_Height = 0\<rparr>), AnsEnd ([], []), AnsHash ''h119'',
        AnsTx (Ok \<lparr>r_Data = [], r_Log = [], r_Events = []\<rparr>, \<lparr>GasWanted = 100, GasUsed = 1\<rparr>)], ex_committed 118)"
    by (simp add: answer_tx_def answer_def d ex_query_run ex_end_run ex_commit_run ex_check_run)
  from abci_agreement [OF r refl] obtain app1 where
    "abci_run ex_lib [CallDeliverTx ''ab'', CallEndBlock 1, CallCommit] ex_app =
       Some ([AnsTx (Err AppErrOutOfGas, \<lparr>GasWanted = 100, GasUsed = 21\<rparr>), AnsEnd ([], []), AnsHash ''h119''], app1)"
    "consensus_view app1 = consensus_view (ex_committed 118)" by auto
  moreover from this(2) have "bap_versions app1 = bap_versions (ex_committed 118)" by (metis view_versions)
  ultimately show ?thesis by (auto simp: ex_committed_def)
qed

end
