(* ===== verification/ZeroHeight.thy ===== *)
theory ZeroHeight
  imports VMAuth Currencies Multisig OrderBook "HOL-Library.AList"
begin

text \<open>
  Export of a running chain for a new start at height zero (\<open>app/export.go\<close>, \<open>app/export_v10.go\<close>): every module squashes its state, then the balances of the accounts
  are compared with what they were given, and the shortfalls are minted and paid out. The keepers of the SDK, files and printing are parameters.
\<close>

section \<open>State and parameters\<close>

datatype zh_error =
    ZhErrInvariant | ZhErrOptions | ZhErrModule string | ZhErrNotSet | ZhErrAddress | ZhErrAmount | ZhErrNoAccount | ZhErrNoValidator
  | ZhErrOpen | ZhErrRead | ZhErrColumns | ZhErrTxHash | ZhErrEthAddress | ZhErrNoEntry | ZhErrDuplicate | ZhErrMismatch
  | ZhErrSave | ZhErrMint | ZhErrSupply | ZhErrSend

text \<open>The accounts with the registry of currencies, the issues, the calls, the history of the order book and the stores of the SDK.\<close>

record ('a, 'm, 'r) dn_state =
  dn_va :: "'a va_state"
  dn_issues :: "Issue kv"
  dn_ms :: "'m ms_store"
  dn_ob :: ob_state
  dn_sdk :: 'r

record Delegation =
  dl_ValidatorAddr :: bytes
  dl_BondingShares :: int
  dl_LPShares :: int

record SXFIBalanceReportStats =
  TotalNegativeBondingDiffs :: int
  TotalPositiveBondingDiffs :: int
  AccMints :: "(bytes \<times> coin) list"

text \<open>
  Keepers of the SDK work on the accounts and their own stores; \<open>None\<close> is an error, of the operations on coins and decimals a panic. \<open>zl_Invariants\<close> tell whether they are broken,
  \<open>zl_Rows\<close> reads a file as rows, \<open>None\<close> for one that cannot be read.
\<close>

record ('a, 'm, 'r) zh_lib =
  zl_Invariants :: "(('a, 'm, 'r) dn_state \<Rightarrow> bool) list"
  zl_JailWhitelist :: "string list \<Rightarrow> string list option"
  zl_Supply :: "'a va_state \<times> 'r \<Rightarrow> ('a va_state \<times> 'r) option"
  zl_Staking :: "string list \<Rightarrow> 'a va_state \<times> 'r \<Rightarrow> ('a va_state \<times> 'r) option"
  zl_Distr :: "'a va_state \<times> 'r \<Rightarrow> ('a va_state \<times> 'r) option"
  zl_Slashing :: "'a va_state \<times> 'r \<Rightarrow> ('a va_state \<times> 'r) option"
  zl_Mint :: "'a va_state \<times> 'r \<Rightarrow> ('a va_state \<times> 'r) option"
  zl_Gov :: "'a va_state \<times> 'r \<Rightarrow> ('a va_state \<times> 'r) option"
  zl_MintCoins :: "coin list \<Rightarrow> 'a va_state \<times> 'r \<Rightarrow> ('a va_state \<times> 'r) option"
  zl_SendFromModule :: "string \<Rightarrow> bytes \<Rightarrow> coin list \<Rightarrow> 'a va_state \<times> 'r \<Rightarrow> ('a va_state \<times> 'r) option"
  zl_RewardsBankCoins :: "'r \<Rightarrow> bytes \<Rightarrow> coin list list"
  zl_Delegations :: "'r \<Rightarrow> bytes \<Rightarrow> Delegation list"
  zl_HasValidator :: "'r \<Rightarrow> bytes \<Rightarrow> bool"
  zl_BondingTokens :: "'r \<Rightarrow> bytes \<Rightarrow> int \<Rightarrow> int option"
  zl_LPTokens :: "'r \<Rightarrow> bytes \<Rightarrow> int \<Rightarrow> int option"
  zl_Bech32 :: "string \<Rightarrow> bytes option"
  zl_ParseInt :: "string \<Rightarrow> int option"
  zl_NewCoins :: "coin list \<Rightarrow> coin list option"
  zl_AddCoins :: "coin list \<Rightarrow> coin list \<Rightarrow> coin list option"
  zl_AmountOf :: "coin list \<Rightarrow> string \<Rightarrow> int"
  zl_NewDecCoin :: "string \<Rightarrow> int \<Rightarrow> coin option"
  zl_CoinsString :: "coin list \<Rightarrow> string"
  zl_DecString :: "int \<Rightarrow> string"
  zl_IntString :: "int \<Rightarrow> string"
  zl_AddrString :: "bytes \<Rightarrow> string"
  zl_Rows :: "string \<Rightarrow> string list option list option"
  zl_SaveCSV :: "string \<Rightarrow> string list list \<Rightarrow> bool"
  zl_SaveStats :: "string \<Rightarrow> SXFIBalanceReportStats \<Rightarrow> bool"

section \<open>The report\<close>

record SXFIStakerReportItem =
  sk_TxHash :: string
  sk_AccAddress :: bytes
  sk_EthAddress :: string
  sk_BondingAmount :: int
  sk_LPAmount :: int

record SXFIBalanceReportItem =
  ri_AccAddress :: bytes
  ri_AccBalance :: "coin list"
  ri_IssueCoins :: "coin list"
  ri_RewardCoins :: "coin list"
  ri_DelBondingShares :: int
  ri_DelLPShares :: int
  ri_DelBondingTokens :: int
  ri_DelLPTokens :: int
  ri_GenCoins :: "coin list"
  ri_StakerReport :: "SXFIStakerReportItem option"
  ri_IssueBondingDenom :: string
  ri_IssueLPDenom :: string
  ri_BondingDenom :: string
  ri_LPDenom :: string

definition GetInitialBondingBalance :: "sdk \<Rightarrow> ('a, 'm, 'r) zh_lib \<Rightarrow> SXFIBalanceReportItem \<Rightarrow> int option" where
  "GetInitialBondingBalance S Z i =
     (let genAmt = zl_AmountOf Z (ri_GenCoins i) (ri_BondingDenom i);
          issuedAmt = (if ri_StakerReport i = None then 0 else zl_AmountOf Z (ri_IssueCoins i) (ri_IssueBondingDenom i)) in
      int_add S genAmt issuedAmt)"

definition GetInitialLPBalance :: "sdk \<Rightarrow> ('a, 'm, 'r) zh_lib \<Rightarrow> SXFIBalanceReportItem \<Rightarrow> int option" where
  "GetInitialLPBalance S Z i =
     (let genAmt = zl_AmountOf Z (ri_GenCoins i) (ri_LPDenom i);
          issuedAmt = (if ri_StakerReport i = None then 0 else zl_AmountOf Z (ri_IssueCoins i) (ri_IssueLPDenom i)) in
      int_add S genAmt issuedAmt)"

definition GetCurrentBondingBalance :: "sdk \<Rightarrow> ('a, 'm, 'r) zh_lib \<Rightarrow> SXFIBalanceReportItem \<Rightarrow> int option" where
  "GetCurrentBondingBalance S Z i =
     (let accBalanceAmt = zl_AmountOf Z (ri_AccBalance i) (ri_BondingDenom i);
          rewardAmt = zl_AmountOf Z (ri_RewardCoins i) (ri_BondingDenom i) in
      Option.bind (dec_trunc S (ri_DelBondingTokens i)) (\<lambda>delAmt.
      Option.bind (int_add S accBalanceAmt rewardAmt) (\<lambda>a. int_add S a delAmt)))"

definition GetCurrentLPBalance :: "sdk \<Rightarrow> ('a, 'm, 'r) zh_lib \<Rightarrow> SXFIBalanceReportItem \<Rightarrow> int option" where
  "GetCurrentLPBalance S Z i =
     (let accBalanceAmt = zl_AmountOf Z (ri_AccBalance i) (ri_LPDenom i);
          rewardAmt = zl_AmountOf Z (ri_RewardCoins i) (ri_LPDenom i) in
      Option.bind (dec_trunc S (ri_DelLPTokens i)) (\<lambda>delAmt.
      Option.bind (int_add S accBalanceAmt rewardAmt) (\<lambda>a. int_add S a delAmt)))"

text \<open>The denominations of a report: of issues and of balances, for the bonding and the liquidity token.\<close>

record report_denoms =
  rd_IssueBonding :: string
  rd_IssueLP :: string
  rd_Bonding :: string
  rd_LP :: string

definition NewSXFIBalanceReportItem :: "report_denoms \<Rightarrow> bytes \<Rightarrow> coin list \<Rightarrow> SXFIBalanceReportItem" where
  "NewSXFIBalanceReportItem D accAddr accCoins =
     \<lparr>ri_AccAddress = accAddr, ri_AccBalance = accCoins, ri_IssueCoins = [], ri_RewardCoins = [], ri_DelBondingShares = 0, ri_DelLPShares = 0,
      ri_DelBondingTokens = 0, ri_DelLPTokens = 0, ri_GenCoins = [], ri_StakerReport = None, ri_IssueBondingDenom = rd_IssueBonding D,
      ri_IssueLPDenom = rd_IssueLP D, ri_BondingDenom = rd_Bonding D, ri_LPDenom = rd_LP D\<rparr>"

text \<open>The map of the report by account address, as an association list.\<close>

type_synonym SXFIBalanceReport = "(bytes \<times> SXFIBalanceReportItem) list"

definition genBalances :: "(string \<times> string \<times> string) list" where
  "genBalances =
     [(''wallet1wwmenr38hhrem2v3ue3gwdhj03ynzcvlxgc92u'', ''3400000000000000000000000'', ''0''),
      (''wallet1a6sd0y8l0ma0gnytacrnwlmnupm7ftnwxngalr'', ''2500000000000000000000'', ''0''),
      (''wallet1whpkntyj549f7euftgpng24k2we8legght4rzg'', ''2500000000000000000000'', ''0''),
      (''wallet1zwkqfm2sdgyx0g6h2dj9em4z4kjgy5lmtnmgjd'', ''2500000000000000000000'', ''0''),
      (''wallet10a24shxzjtutj637rr8shwkwaxx8paplu4vc6f'', ''2500000000000000000000'', ''0''),
      (''wallet19xshddf5ww7fhd53fumly2r7lqsszz63fxca9x'', ''2500000000000000000000'', ''0''),
      (''wallet1l9mukqvh0etam66dvgw99w9awv3jjv6tyh2hpc'', ''50000000000000000000000'', ''0'')]"

definition gen_coins :: "sdk \<Rightarrow> ('a, 'm, 'r) zh_lib \<Rightarrow> report_denoms \<Rightarrow> int \<Rightarrow> int \<Rightarrow> coin list option" where
  "gen_coins S Z D bondingAmt lpAmt =
     Option.bind (new_coin S (rd_Bonding D) bondingAmt) (\<lambda>c.
     Option.bind (new_coin S (rd_LP D) lpAmt) (\<lambda>c'. zl_NewCoins Z [c, c']))"

fun append_genesis ::
  "sdk \<Rightarrow> vm_lib \<Rightarrow> 'a auth_lib \<Rightarrow> ('a, 'm, 'r) zh_lib \<Rightarrow> report_denoms \<Rightarrow> (string \<times> string \<times> string) list \<Rightarrow> SXFIBalanceReport \<Rightarrow>
   ('a va_state, zh_error, SXFIBalanceReport) op" where
  "append_genesis S L K Z D [] r w = (Ok r, w)"
| "append_genesis S L K Z D ((accAddress, bondingBalance, lpBalance) # bs) r w =
     (case zl_Bech32 Z accAddress of
        None \<Rightarrow> (Err ZhErrAddress, w)
      | Some addr \<Rightarrow>
          (case (zl_ParseInt Z bondingBalance, zl_ParseInt Z lpBalance) of
             (Some bondingAmt, Some lpAmt) \<Rightarrow>
               (case VA_GetAccount S L K addr w of
                  (Ok None, w') \<Rightarrow> (Err ZhErrNoAccount, w')
                | (Ok (Some acc), w') \<Rightarrow>
                    (case gen_coins S Z D bondingAmt lpAmt of
                       None \<Rightarrow> (Panic, w')
                     | Some cs \<Rightarrow> append_genesis S L K Z D bs (AList.update addr (NewSXFIBalanceReportItem D addr (acc_Coins acc)\<lparr>ri_GenCoins := cs\<rparr>) r) w')
                | (_, w') \<Rightarrow> (Panic, w'))
           | _ \<Rightarrow> (Err ZhErrAmount, w)))"

definition AppendGenesisBalances ::
  "sdk \<Rightarrow> vm_lib \<Rightarrow> 'a auth_lib \<Rightarrow> ('a, 'm, 'r) zh_lib \<Rightarrow> report_denoms \<Rightarrow> SXFIBalanceReport \<Rightarrow> ('a va_state, zh_error, SXFIBalanceReport) op" where
  "AppendGenesisBalances S L K Z D r = append_genesis S L K Z D genBalances r"

text \<open>The rows of the staker report. An empty amount is zero.\<close>

definition parse_amount :: "('a, 'm, 'r) zh_lib \<Rightarrow> string \<Rightarrow> (zh_error, int) res" where
  "parse_amount Z amtRaw = (if amtRaw = [] then Ok 0 else case zl_ParseInt Z amtRaw of None \<Rightarrow> Err ZhErrAmount | Some a \<Rightarrow> Ok a)"

definition parse_row :: "('a, 'm, 'r) zh_lib \<Rightarrow> string list \<Rightarrow> (zh_error, SXFIStakerReportItem) res" where
  "parse_row Z csvEntry =
     (case csvEntry of
        [txHash, bonding, acc, eth, lp] \<Rightarrow>
          if txHash = [] then Err ZhErrTxHash
          else
            bind_res (parse_amount Z bonding) (\<lambda>bondingAmt.
              (case zl_Bech32 Z acc of
                 None \<Rightarrow> Err ZhErrAddress
               | Some addr \<Rightarrow>
                   if \<not> IsEthereumAddress eth then Err ZhErrEthAddress
                   else bind_res (parse_amount Z lp) (\<lambda>lpAmt.
                     Ok \<lparr>sk_TxHash = txHash, sk_AccAddress = addr, sk_EthAddress = eth, sk_BondingAmount = bondingAmt, sk_LPAmount = lpAmt\<rparr>)))
      | _ \<Rightarrow> Err ZhErrColumns)"

fun staker_rows :: "('a, 'm, 'r) zh_lib \<Rightarrow> string list option list \<Rightarrow> SXFIBalanceReport \<Rightarrow> (zh_error, SXFIBalanceReport) res" where
  "staker_rows Z [] r = Ok r"
| "staker_rows Z (None # entries) r = Err ZhErrRead"
| "staker_rows Z (Some csvEntry # entries) r =
     bind_res (parse_row Z csvEntry) (\<lambda>stakerReport.
       (case map_of r (sk_AccAddress stakerReport) of
          None \<Rightarrow> Err ZhErrNoEntry
        | Some reportItem \<Rightarrow>
            if ri_StakerReport reportItem \<noteq> None then Err ZhErrDuplicate
            else staker_rows Z entries (AList.update (sk_AccAddress stakerReport) (reportItem\<lparr>ri_StakerReport := Some stakerReport\<rparr>) r)))"

definition AppendStakerCSVReport :: "('a, 'm, 'r) zh_lib \<Rightarrow> string \<Rightarrow> SXFIBalanceReport \<Rightarrow> (zh_error, SXFIBalanceReport) res" where
  "AppendStakerCSVReport Z filePath r =
     (case zl_Rows Z filePath of
        None \<Rightarrow> Err ZhErrOpen
      | Some [] \<Rightarrow> Ok r
      | Some (None # _) \<Rightarrow> Err ZhErrRead
      | Some (Some header # entries) \<Rightarrow> staker_rows Z entries r)"

definition item_verified :: "('a, 'm, 'r) zh_lib \<Rightarrow> SXFIBalanceReportItem \<Rightarrow> bool" where
  "item_verified Z reportItem \<longleftrightarrow>
     (case ri_StakerReport reportItem of
        None \<Rightarrow> True
      | Some stakerReport \<Rightarrow> zl_AmountOf Z (ri_IssueCoins reportItem) (ri_IssueBondingDenom reportItem) = sk_BondingAmount stakerReport)"

definition Report_Verify :: "('a, 'm, 'r) zh_lib \<Rightarrow> SXFIBalanceReport \<Rightarrow> (zh_error, unit) res" where
  "Report_Verify Z r = (if list_all (item_verified Z \<circ> snd) r then Ok () else Err ZhErrMismatch)"

record SXFIBalanceReportResult =
  rr_ReportItem :: SXFIBalanceReportItem
  rr_BondingDiff :: int
  rr_LPDiff :: int

definition report_result :: "sdk \<Rightarrow> ('a, 'm, 'r) zh_lib \<Rightarrow> SXFIBalanceReportItem \<Rightarrow> SXFIBalanceReportResult option" where
  "report_result S Z reportItem =
     Option.bind (GetCurrentBondingBalance S Z reportItem) (\<lambda>cb.
     Option.bind (GetInitialBondingBalance S Z reportItem) (\<lambda>ib.
     Option.bind (int_sub S cb ib) (\<lambda>diffBonding.
     Option.bind (GetCurrentLPBalance S Z reportItem) (\<lambda>cl.
     Option.bind (GetInitialLPBalance S Z reportItem) (\<lambda>il.
     Option.bind (int_sub S cl il) (\<lambda>diffLP.
       Some \<lparr>rr_ReportItem = reportItem, rr_BondingDiff = diffBonding, rr_LPDiff = diffLP\<rparr>))))))"

fun report_results :: "sdk \<Rightarrow> ('a, 'm, 'r) zh_lib \<Rightarrow> SXFIBalanceReport \<Rightarrow> SXFIBalanceReportResult list option" where
  "report_results S Z [] = Some []"
| "report_results S Z ((addr, reportItem) # r) =
     Option.bind (report_result S Z reportItem) (\<lambda>x. map_option ((#) x) (report_results S Z r))"

text \<open>
  \<open>arrange\<close> stands for the order the map is visited in followed by the unstable \<open>sort.Slice\<close> by the difference of the bonding token.
\<close>

definition GetResults ::
  "sdk \<Rightarrow> ('a, 'm, 'r) zh_lib \<Rightarrow> (SXFIBalanceReportResult list \<Rightarrow> SXFIBalanceReportResult list) \<Rightarrow> SXFIBalanceReport \<Rightarrow> SXFIBalanceReportResult list option" where
  "GetResults S Z arrange r = map_option arrange (report_results S Z r)"

definition csv_rows :: "('a, 'm, 'r) zh_lib \<Rightarrow> SXFIBalanceReportResult list \<Rightarrow> string list list" where
  "csv_rows Z results =
     [''AccAddress'', ''GenCoins'', ''IssueCoins'', ''WalletCoins'', ''RewardCoins'', ''DelBondingTokens'', ''DelLPTokens'', ''BondingDiff'', ''LPDiff''] #
     map (\<lambda>result. let i = rr_ReportItem result in
       [zl_AddrString Z (ri_AccAddress i), zl_CoinsString Z (ri_GenCoins i), zl_CoinsString Z (ri_IssueCoins i), zl_CoinsString Z (ri_AccBalance i),
        zl_CoinsString Z (ri_RewardCoins i), zl_DecString Z (ri_DelBondingTokens i), zl_DecString Z (ri_DelLPTokens i),
        zl_IntString Z (rr_BondingDiff result), zl_IntString Z (rr_LPDiff result)]) results"

definition SaveToCSV :: "('a, 'm, 'r) zh_lib \<Rightarrow> string \<Rightarrow> SXFIBalanceReportResult list \<Rightarrow> bool" where
  "SaveToCSV Z path results = zl_SaveCSV Z path (csv_rows Z results)"

section \<open>Building the report\<close>

fun append_issues ::
  "sdk \<Rightarrow> vm_lib \<Rightarrow> 'a auth_lib \<Rightarrow> ('a, 'm, 'r) zh_lib \<Rightarrow> report_denoms \<Rightarrow> (Issue \<times> string) list \<Rightarrow> SXFIBalanceReport \<Rightarrow>
   ('a va_state, zh_error, SXFIBalanceReport) op" where
  "append_issues S L K Z D [] r w = (Ok r, w)"
| "append_issues S L K Z D ((issue, i) # issues) r w =
     (let accAddr = is_Payee issue;
          (found, w') = (case map_of r accAddr of
             Some reportItem \<Rightarrow> (Ok reportItem, w)
           | None \<Rightarrow>
               (case VA_GetAccount S L K accAddr w of
                  (Ok (Some acc), w1) \<Rightarrow> (Ok (NewSXFIBalanceReportItem D accAddr (acc_Coins acc)), w1)
                | (Ok None, w1) \<Rightarrow> (Err ZhErrNoAccount, w1)
                | (_, w1) \<Rightarrow> (Panic, w1))) in
      case found of
        Ok reportItem \<Rightarrow>
          (case zl_AddCoins Z (ri_IssueCoins reportItem) [is_Coin issue] of
             None \<Rightarrow> (Panic, w')
           | Some cs \<Rightarrow> append_issues S L K Z D issues (AList.update accAddr (reportItem\<lparr>ri_IssueCoins := cs\<rparr>) r) w')
      | Err e \<Rightarrow> (Err e, w')
      | Panic \<Rightarrow> (Panic, w'))"

fun add_rewards :: "('a, 'm, 'r) zh_lib \<Rightarrow> coin list list \<Rightarrow> SXFIBalanceReportItem \<Rightarrow> SXFIBalanceReportItem option" where
  "add_rewards Z [] i = Some i"
| "add_rewards Z (coins # cs) i = Option.bind (zl_AddCoins Z (ri_RewardCoins i) coins) (\<lambda>c. add_rewards Z cs (i\<lparr>ri_RewardCoins := c\<rparr>))"

definition add_tokens :: "sdk \<Rightarrow> (int \<Rightarrow> int option) \<Rightarrow> int \<Rightarrow> int \<Rightarrow> int option" where
  "add_tokens S tokens shares acc = (if shares = 0 then Some acc else Option.bind (tokens shares) (dec_add S acc))"

fun add_delegations :: "sdk \<Rightarrow> ('a, 'm, 'r) zh_lib \<Rightarrow> 'r \<Rightarrow> Delegation list \<Rightarrow> SXFIBalanceReportItem \<Rightarrow> (zh_error, SXFIBalanceReportItem) res" where
  "add_delegations S Z k [] i = Ok i"
| "add_delegations S Z k (del # dels) i =
     (let val = dl_ValidatorAddr del in
      if \<not> zl_HasValidator Z k val then Err ZhErrNoValidator
      else
        (case Option.bind (dec_add S (ri_DelBondingShares i) (dl_BondingShares del)) (\<lambda>bs.
              Option.bind (add_tokens S (zl_BondingTokens Z k val) (dl_BondingShares del) (ri_DelBondingTokens i)) (\<lambda>bt.
              Option.bind (dec_add S (ri_DelLPShares i) (dl_LPShares del)) (\<lambda>ls.
              Option.bind (add_tokens S (zl_LPTokens Z k val) (dl_LPShares del) (ri_DelLPTokens i)) (\<lambda>lt.
                Some (i\<lparr>ri_DelBondingShares := bs, ri_DelBondingTokens := bt, ri_DelLPShares := ls, ri_DelLPTokens := lt\<rparr>))))) of
           None \<Rightarrow> Panic
         | Some i' \<Rightarrow> add_delegations S Z k dels i'))"

text \<open>The items are changed one after the other, in the order of the report.\<close>

fun each_item :: "(SXFIBalanceReportItem \<Rightarrow> (zh_error, SXFIBalanceReportItem) res) \<Rightarrow> SXFIBalanceReport \<Rightarrow> (zh_error, SXFIBalanceReport) res" where
  "each_item f [] = Ok []"
| "each_item f ((addr, i) # r) = bind_res (f i) (\<lambda>i'. bind_res (each_item f r) (\<lambda>r'. Ok ((addr, i') # r')))"

definition append_rewards :: "('a, 'm, 'r) zh_lib \<Rightarrow> 'r \<Rightarrow> SXFIBalanceReport \<Rightarrow> (zh_error, SXFIBalanceReport) res" where
  "append_rewards Z k = each_item (\<lambda>i. case add_rewards Z (zl_RewardsBankCoins Z k (ri_AccAddress i)) i of None \<Rightarrow> Panic | Some i' \<Rightarrow> Ok i')"

definition append_delegations :: "sdk \<Rightarrow> ('a, 'm, 'r) zh_lib \<Rightarrow> 'r \<Rightarrow> SXFIBalanceReport \<Rightarrow> (zh_error, SXFIBalanceReport) res" where
  "append_delegations S Z k = each_item (\<lambda>i. add_delegations S Z k (zl_Delegations Z k (ri_AccAddress i)) i)"

text \<open>The accounts of the issues are read on a copy of the state, which is dropped; the genesis accounts are read on the state itself.\<close>

definition getMainnetSXFIBalanceReport ::
  "sdk \<Rightarrow> vm_lib \<Rightarrow> 'a auth_lib \<Rightarrow> ('a, 'm, 'r) zh_lib \<Rightarrow> report_denoms \<Rightarrow> string \<Rightarrow> (('a, 'm, 'r) dn_state, zh_error, SXFIBalanceReport) op" where
  "getMainnetSXFIBalanceReport S L K Z D stakerCSVReportPath s =
     (case AppendGenesisBalances S L K Z D [] (dn_va s) of
        (Ok r, va) \<Rightarrow>
          (let s1 = s\<lparr>dn_va := va\<rparr>; k = dn_sdk s1 in
           case genesis_issues (dn_issues s1) of
             None \<Rightarrow> (Panic, s1)
           | Some issues \<Rightarrow>
               (bind_res (fst (append_issues S L K Z D issues r va)) (\<lambda>r1.
                bind_res (append_rewards Z k r1) (\<lambda>r2.
                bind_res (append_delegations S Z k r2) (\<lambda>r3.
                  if stakerCSVReportPath \<noteq> [] then AppendStakerCSVReport Z stakerCSVReportPath r3 else Ok r3))), s1))
      | (Err e, va) \<Rightarrow> (Err e, s\<lparr>dn_va := va\<rparr>)
      | (Panic, va) \<Rightarrow> (Panic, s\<lparr>dn_va := va\<rparr>))"

section \<open>Minting the shortfalls\<close>

fun sum_diffs :: "sdk \<Rightarrow> SXFIBalanceReportResult list \<Rightarrow> int \<Rightarrow> int \<Rightarrow> (int \<times> int) option" where
  "sum_diffs S [] positiveDiffs negativeDiffs = Some (positiveDiffs, negativeDiffs)"
| "sum_diffs S (result # results) positiveDiffs negativeDiffs =
     (if \<not> rr_BondingDiff result < 0
      then Option.bind (int_add S positiveDiffs (rr_BondingDiff result)) (\<lambda>p. sum_diffs S results p negativeDiffs)
      else Option.bind (int_add S negativeDiffs (rr_BondingDiff result)) (\<lambda>n. sum_diffs S results positiveDiffs n))"

text \<open>\<open>x.ToDec().Mul(decimalDec)\<close>, where \<open>decimalDec\<close> has the mantissa one.\<close>

definition scaled :: "sdk \<Rightarrow> int \<Rightarrow> int option" where
  "scaled S x = Option.bind (dec_of_int S x 0) (\<lambda>d. dec_mul S d 1)"

fun distribute ::
  "sdk \<Rightarrow> ('a, 'm, 'r) zh_lib \<Rightarrow> string \<Rightarrow> SXFIBalanceReportResult list \<Rightarrow> (bytes \<times> coin) list \<Rightarrow>
   ('a va_state \<times> 'r, zh_error, (bytes \<times> coin) list) op" where
  "distribute S Z bondingDenom [] mints w = (Ok mints, w)"
| "distribute S Z bondingDenom (result # results) mints w =
     (let diff = rr_BondingDiff result; addr = ri_AccAddress (rr_ReportItem result) in
      if \<not> diff < 0 then distribute S Z bondingDenom results mints w
      else
        (case Option.bind (new_coin S bondingDenom (- diff)) (\<lambda>coin. map_option (Pair coin) (zl_NewCoins Z [coin])) of
           None \<Rightarrow> (Panic, w)
         | Some (coin, coins) \<Rightarrow>
             (case zl_SendFromModule Z ''mint'' addr coins w of
                None \<Rightarrow> (Err ZhErrSend, w)
              | Some w' \<Rightarrow>
                  (case Option.bind (scaled S (snd coin)) (zl_NewDecCoin Z (fst coin)) of
                     None \<Rightarrow> (Panic, w')
                   | Some c \<Rightarrow> distribute S Z bondingDenom results (AList.update addr c mints) w'))))"

definition checkInvariants :: "('a, 'm, 'r) zh_lib \<Rightarrow> ('a, 'm, 'r) dn_state \<Rightarrow> (zh_error, unit) res" where
  "checkInvariants Z s = (if list_ex (\<lambda>inv. inv s) (zl_Invariants Z) then Err ZhErrInvariant else Ok ())"

definition mint_shortfall :: "sdk \<Rightarrow> vm_lib \<Rightarrow> ('a, 'm, 'r) zh_lib \<Rightarrow> coin \<Rightarrow> ('a va_state \<times> 'r, zh_error, unit) op" where
  "mint_shortfall S L Z coin w =
     (case zl_NewCoins Z [coin] of
        None \<Rightarrow> (Panic, w)
      | Some coins \<Rightarrow>
          (case zl_MintCoins Z coins w of
             None \<Rightarrow> (Err ZhErrMint, w)
           | Some (va, k) \<Rightarrow>
               (case IncreaseCurrencySupply S L coin (va_ccs va) of
                  (Ok _, ccs) \<Rightarrow> (Ok (), (va\<lparr>va_ccs := ccs\<rparr>, k))
                | (Err e, ccs) \<Rightarrow> (Err ZhErrSupply, (va\<lparr>va_ccs := ccs\<rparr>, k))
                | (Panic, ccs) \<Rightarrow> (Panic, (va\<lparr>va_ccs := ccs\<rparr>, k)))))"

definition mainnet_denoms :: report_denoms where
  "mainnet_denoms = \<lparr>rd_IssueBonding = ''sxfi'', rd_IssueLP = ''lpt'', rd_Bonding = ''xfi'', rd_LP = ''lpt''\<rparr>"

text \<open>The part of \<open>processMainnetSXFIBalance\<close> that changes the state, from the results on: minting and distribution, and the statistics.\<close>

definition settle ::
  "sdk \<Rightarrow> vm_lib \<Rightarrow> ('a, 'm, 'r) zh_lib \<Rightarrow> SXFIBalanceReportResult list \<Rightarrow> ('a va_state \<times> 'r, zh_error, SXFIBalanceReportStats) op" where
  "settle S L Z results w =
     (case sum_diffs S results 0 0 of
        None \<Rightarrow> (Panic, w)
      | Some (positiveDiffs, negativeSum) \<Rightarrow>
          (let negativeDiffs = - negativeSum in
           case (new_coin S (rd_Bonding mainnet_denoms) negativeDiffs, scaled S positiveDiffs, scaled S negativeDiffs) of
             (Some coin, Some p, Some n) \<Rightarrow>
               (case mint_shortfall S L Z coin w of
                  (Ok _, w1) \<Rightarrow>
                    (case distribute S Z (rd_Bonding mainnet_denoms) results [] w1 of
                       (Ok mints, w2) \<Rightarrow> (Ok \<lparr>TotalNegativeBondingDiffs = n, TotalPositiveBondingDiffs = p, AccMints = mints\<rparr>, w2)
                     | (Err e, w2) \<Rightarrow> (Err e, w2)
                     | (Panic, w2) \<Rightarrow> (Panic, w2))
                | (Err e, w1) \<Rightarrow> (Err e, w1)
                | (Panic, w1) \<Rightarrow> (Panic, w1))
           | _ \<Rightarrow> (Panic, w)))"

text \<open>The paths are those of the environment variables, empty if not set.\<close>

definition processMainnetSXFIBalance ::
  "sdk \<Rightarrow> vm_lib \<Rightarrow> 'a auth_lib \<Rightarrow> ('a, 'm, 'r) zh_lib \<Rightarrow> (SXFIBalanceReportResult list \<Rightarrow> SXFIBalanceReportResult list) \<Rightarrow> string \<Rightarrow> string \<Rightarrow>
   (('a, 'm, 'r) dn_state, zh_error, unit) op" where
  "processMainnetSXFIBalance S L K Z arrange stakerReportPath reportOutputPrefix s =
     (if stakerReportPath = [] \<or> reportOutputPrefix = [] then (Err ZhErrNotSet, s)
      else
        (case getMainnetSXFIBalanceReport S L K Z mainnet_denoms stakerReportPath s of
           (Ok report, s1) \<Rightarrow>
             (case Report_Verify Z report of
                Ok _ \<Rightarrow>
                  (case GetResults S Z arrange report of
                     None \<Rightarrow> (Panic, s1)
                   | Some results \<Rightarrow>
                       if \<not> SaveToCSV Z (reportOutputPrefix @ ''data.csv'') results then (Err ZhErrSave, s1)
                       else
                         (case settle S L Z results (dn_va s1, dn_sdk s1) of
                            (Ok stats, (va, k)) \<Rightarrow>
                              (let s2 = s1\<lparr>dn_va := va, dn_sdk := k\<rparr> in
                               if \<not> zl_SaveStats Z (reportOutputPrefix @ ''stats.json'') stats then (Err ZhErrSave, s2)
                               else (checkInvariants Z s2, s2))
                          | (Err e, (va, k)) \<Rightarrow> (Err e, s1\<lparr>dn_va := va, dn_sdk := k\<rparr>)
                          | (Panic, (va, k)) \<Rightarrow> (Panic, s1\<lparr>dn_va := va, dn_sdk := k\<rparr>)))
              | Err e \<Rightarrow> (Err e, s1)
              | Panic \<Rightarrow> (Panic, s1))
         | (Err e, s1) \<Rightarrow> (Err e, s1)
         | (Panic, s1) \<Rightarrow> (Panic, s1)))"

section \<open>Squashing all modules\<close>

text \<open>One step of the preparation: an SDK module, a module of the node, or the next steps. \<open>visit\<close> is the order of the map of \<open>x/orderbook\<close>.\<close>

definition sdk_step :: "string \<Rightarrow> ('a va_state \<times> 'r \<Rightarrow> ('a va_state \<times> 'r) option) \<Rightarrow> (('a, 'm, 'r) dn_state, zh_error, unit) op" where
  "sdk_step m f s =
     (case f (dn_va s, dn_sdk s) of
        None \<Rightarrow> (Err (ZhErrModule m), s)
      | Some (va, k) \<Rightarrow> (Ok (), s\<lparr>dn_va := va, dn_sdk := k\<rparr>))"

definition ccs_step :: "vm_lib \<Rightarrow> bool \<Rightarrow> (('a, 'm, 'r) dn_state, zh_error, unit) op" where
  "ccs_step L setToZero s =
     (case Ccs_PrepareForZeroHeight L setToZero (va_ccs (dn_va s)) of
        (r, ccs) \<Rightarrow>
          (case r of Ok _ \<Rightarrow> Ok () | Err e \<Rightarrow> Err (ZhErrModule ''ccstorage'') | Panic \<Rightarrow> Panic, s\<lparr>dn_va := (dn_va s)\<lparr>va_ccs := ccs\<rparr>\<rparr>))"

definition va_step :: "sdk \<Rightarrow> vm_lib \<Rightarrow> 'a auth_lib \<Rightarrow> va_SquashOptions \<Rightarrow> (('a, 'm, 'r) dn_state, zh_error, unit) op" where
  "va_step S L K opts s =
     (case VA_PrepareForZeroHeight S L K opts (dn_va s) of
        (r, va) \<Rightarrow> (case r of Ok _ \<Rightarrow> Ok () | Err e \<Rightarrow> Err (ZhErrModule ''vmauth'') | Panic \<Rightarrow> Panic, s\<lparr>dn_va := va\<rparr>))"

definition ms_step :: "(('a, 'm, 'r) dn_state, zh_error, unit) op" where
  "ms_step s = (Ok (), s\<lparr>dn_ms := Ms_PrepareForZeroHeight (dn_ms s)\<rparr>)"

definition ob_step :: "((string \<times> HistoryItem) list \<Rightarrow> (string \<times> HistoryItem) list) \<Rightarrow> (('a, 'm, 'r) dn_state, zh_error, unit) op" where
  "ob_step visit s = (case OB_PrepareForZeroHeight visit (dn_ob s) of None \<Rightarrow> (Panic, s) | Some ob \<Rightarrow> (Ok (), s\<lparr>dn_ob := ob\<rparr>))"

definition inv_step :: "('a, 'm, 'r) zh_lib \<Rightarrow> (('a, 'm, 'r) dn_state, zh_error, unit) op" where
  "inv_step Z s = (checkInvariants Z s, s)"

fun run_steps :: "(('a, 'm, 'r) dn_state, zh_error, unit) op list \<Rightarrow> (('a, 'm, 'r) dn_state, zh_error, unit) op" where
  "run_steps [] s = (Ok (), s)"
| "run_steps (f # fs) s = (case f s of (Ok _, s') \<Rightarrow> run_steps fs s' | (r, s') \<Rightarrow> (r, s'))"

text \<open>
  The default options of every module are those of no operation, but for the whitelist of validators, which may be invalid. Those of the SDK's other modules are part
  of the parameters.
\<close>

record zh_options =
  zo_SupplyToZero :: bool
  zo_VMAuth :: va_SquashOptions
  zo_JailWhitelist :: "string list"

definition prepareDefaultZeroHeightOptions :: "('a, 'm, 'r) zh_lib \<Rightarrow> string list \<Rightarrow> zh_options option" where
  "prepareDefaultZeroHeightOptions Z jailWhiteList =
     map_option (\<lambda>vals. \<lparr>zo_SupplyToZero = False, zo_VMAuth = VA_NewEmptySquashOptions, zo_JailWhitelist = vals\<rparr>) (zl_JailWhitelist Z jailWhiteList)"

definition prepareGenesisForZeroHeight ::
  "sdk \<Rightarrow> vm_lib \<Rightarrow> 'a auth_lib \<Rightarrow> ('a, 'm, 'r) zh_lib \<Rightarrow> (SXFIBalanceReportResult list \<Rightarrow> SXFIBalanceReportResult list) \<Rightarrow>
   ((string \<times> HistoryItem) list \<Rightarrow> (string \<times> HistoryItem) list) \<Rightarrow> string \<Rightarrow> string \<Rightarrow> string list \<Rightarrow> (('a, 'm, 'r) dn_state, zh_error, unit) op" where
  "prepareGenesisForZeroHeight S L K Z arrange visit stakerReportPath reportOutputPrefix jailWhiteList s =
     (case checkInvariants Z s of
        Ok _ \<Rightarrow>
          (case prepareDefaultZeroHeightOptions Z jailWhiteList of
             None \<Rightarrow> (Err ZhErrOptions, s)
           | Some opts \<Rightarrow>
               run_steps
                 [ccs_step L (zo_SupplyToZero opts), sdk_step ''supply'' (zl_Supply Z), va_step S L K (zo_VMAuth opts),
                  sdk_step ''staking'' (zl_Staking Z (zo_JailWhitelist opts)), sdk_step ''distribution'' (zl_Distr Z), sdk_step ''slashing'' (zl_Slashing Z),
                  sdk_step ''mint'' (zl_Mint Z), sdk_step ''gov'' (zl_Gov Z), ms_step, ob_step visit, inv_step Z,
                  processMainnetSXFIBalance S L K Z arrange stakerReportPath reportOutputPrefix] s)
      | Err e \<Rightarrow> (Err e, s)
      | Panic \<Rightarrow> (Panic, s))"

end
