(* ===== verification/ZeroHeight_Props.thy ===== *)
theory ZeroHeight_Props
  imports ZeroHeight
begin

text \<open>
  The settlement of balances when a chain is exported: who receives how much, and that nothing minted is left over.
\<close>

section \<open>Laws of the keepers\<close>

text \<open>What an account holds of a denomination, zero for an unknown account.\<close>

definition held :: "'a auth_lib \<Rightarrow> ('a, 'm, 'r) zh_lib \<Rightarrow> 'a va_state \<Rightarrow> bytes \<Rightarrow> string \<Rightarrow> int" where
  "held K Z va a d = (case au_Get K a (va_auth va) of None \<Rightarrow> 0 | Some acc \<Rightarrow> zl_AmountOf Z (acc_Coins acc) d)"

text \<open>
  Coins are sets of amounts; minting credits the account of the minter, a transfer moves coins from it to the receiver.
\<close>

definition coin_laws :: "('a, 'm, 'r) zh_lib \<Rightarrow> bool" where
  "coin_laws Z \<longleftrightarrow>
     (\<forall>d. zl_AmountOf Z [] d = 0) \<and>
     (\<forall>c cs d. zl_NewCoins Z [c] = Some cs \<longrightarrow> zl_AmountOf Z cs d = (if d = fst c then snd c else 0)) \<and>
     (\<forall>cs c ds d. zl_AddCoins Z cs [c] = Some ds \<longrightarrow> zl_AmountOf Z ds d = zl_AmountOf Z cs d + (if d = fst c then snd c else 0))"

definition minter_laws :: "'a auth_lib \<Rightarrow> ('a, 'm, 'r) zh_lib \<Rightarrow> bytes \<Rightarrow> bool" where
  "minter_laws K Z minter \<longleftrightarrow>
     (\<forall>cs va k va' k' a d. zl_MintCoins Z cs (va, k) = Some (va', k') \<longrightarrow>
        held K Z va' a d = held K Z va a d + (if a = minter then zl_AmountOf Z cs d else 0)) \<and>
     (\<forall>cs b va k va' k' a d. zl_SendFromModule Z ''mint'' b cs (va, k) = Some (va', k') \<longrightarrow>
        held K Z va' a d = held K Z va a d + (if a = b then zl_AmountOf Z cs d else 0) - (if a = minter then zl_AmountOf Z cs d else 0))"

section \<open>Settlement\<close>

text \<open>What an account is due by the results, and all accounts together.\<close>

definition due :: "SXFIBalanceReportResult list \<Rightarrow> bytes \<Rightarrow> int" where
  "due results a = (\<Sum>x\<leftarrow>results. if ri_AccAddress (rr_ReportItem x) = a then max 0 (- rr_BondingDiff x) else 0)"

definition all_due :: "SXFIBalanceReportResult list \<Rightarrow> int" where
  "all_due results = (\<Sum>x\<leftarrow>results. max 0 (- rr_BondingDiff x))"

lemma sum_diffs_all_due: "int_laws S \<Longrightarrow> sum_diffs S results p n = Some (p', n') \<Longrightarrow> - n' = all_due results - n"
  by (induction results arbitrary: p n) (auto simp: all_due_def int_laws_def within_def split: bind_splits if_splits)

lemma distribute_held:
  assumes laws: "coin_laws Z" "minter_laws K Z minter" "int_laws S"
  shows "distribute S Z bd results mints (va, k) = (Ok m, (va', k')) \<Longrightarrow>
    held K Z va' a d = held K Z va a d + (if d = bd then due results a - (if a = minter then all_due results else 0) else 0)"
proof (induction results arbitrary: mints va k)
  case (Cons x results)
  show ?case
  proof (cases "rr_BondingDiff x < 0")
    case True
    let ?a = "ri_AccAddress (rr_ReportItem x)"
    from Cons.prems True obtain c cs va1 k1 m1 where
      c: "new_coin S bd (- rr_BondingDiff x) = Some c" "zl_NewCoins Z [c] = Some cs" and
      s: "zl_SendFromModule Z ''mint'' ?a cs (va, k) = Some (va1, k1)" and r: "distribute S Z bd results m1 (va1, k1) = (Ok m, (va', k'))"
      by (auto simp: Let_def split: bind_splits option.splits prod.splits)
    have "c = (bd, - rr_BondingDiff x)" using c(1) laws(3) by (auto simp: int_laws_def split: if_splits)
    then have cs: "zl_AmountOf Z cs e = (if e = bd then - rr_BondingDiff x else 0)" for e using c(2) laws(1) by (auto simp: coin_laws_def)
    have "held K Z va1 a d = held K Z va a d + (if a = ?a then zl_AmountOf Z cs d else 0) - (if a = minter then zl_AmountOf Z cs d else 0)"
      using laws(2) s unfolding minter_laws_def by blast
    then show ?thesis using Cons.IH [OF r] True by (auto simp: cs due_def all_due_def)
  next
    case False
    with Cons show ?thesis by (auto simp: due_def all_due_def)
  qed
qed (simp add: due_def all_due_def)

lemma mint_held:
  assumes "coin_laws Z" "minter_laws K Z minter" and "mint_shortfall S L Z c (va, k) = (Ok (), (va', k'))"
  shows "held K Z va' a d = held K Z va a d + (if a = minter \<and> d = fst c then snd c else 0)"
proof -
  from assms(3) obtain cs va1 ccs where cs: "zl_NewCoins Z [c] = Some cs" and m: "zl_MintCoins Z cs (va, k) = Some (va1, k')" and va': "va' = va1\<lparr>va_ccs := ccs\<rparr>"
    by (auto simp: mint_shortfall_def split: option.splits prod.splits res.splits)
  have "held K Z va1 a d = held K Z va a d + (if a = minter then zl_AmountOf Z cs d else 0)"
    using assms(2) m unfolding minter_laws_def by blast
  moreover have "held K Z va' a d = held K Z va1 a d" by (simp add: held_def va')
  moreover have "zl_AmountOf Z cs d = (if d = fst c then snd c else 0)" using assms(1) cs unfolding coin_laws_def by blast
  ultimately show ?thesis by (auto split: if_splits)
qed

lemma settle_held:
  assumes laws: "coin_laws Z" "minter_laws K Z minter" "int_laws S" and r: "settle S L Z results (va, k) = (Ok stats, (va', k'))"
  shows "held K Z va' a d = held K Z va a d + (if d = ''xfi'' then due results a else 0)"
proof -
  from r obtain p n c va1 k1 m where n: "sum_diffs S results 0 0 = Some (p, n)" and c: "new_coin S ''xfi'' (- n) = Some c" and
    m: "mint_shortfall S L Z c (va, k) = (Ok (), (va1, k1))" and d: "distribute S Z ''xfi'' results [] (va1, k1) = (Ok m, (va', k'))"
    by (auto simp: settle_def mainnet_denoms_def Let_def split: option.splits prod.splits res.splits)
  have "c = (''xfi'', all_due results)" using c laws(3) sum_diffs_all_due [OF laws(3) n] by (auto simp: int_laws_def split: if_splits)
  with mint_held [OF laws(1,2) m] distribute_held [OF laws d] show ?thesis by auto
qed

section \<open>The report\<close>

text \<open>The item of an account carries its address and the denominations of the report.\<close>

definition item_ok :: "report_denoms \<Rightarrow> bytes \<Rightarrow> SXFIBalanceReportItem \<Rightarrow> bool" where
  "item_ok D a i \<longleftrightarrow> ri_AccAddress i = a \<and> ri_IssueBondingDenom i = rd_IssueBonding D \<and> ri_IssueLPDenom i = rd_IssueLP D \<and>
     ri_BondingDenom i = rd_Bonding D \<and> ri_LPDenom i = rd_LP D"

definition report_ok :: "report_denoms \<Rightarrow> SXFIBalanceReport \<Rightarrow> bool" where
  "report_ok D r \<longleftrightarrow> distinct (map fst r) \<and> (\<forall>a i. map_of r a = Some i \<longrightarrow> item_ok D a i)"

lemma report_ok_update: "report_ok D r \<Longrightarrow> item_ok D a i \<Longrightarrow> report_ok D (AList.update a i r)"
  by (auto simp: report_ok_def distinct_update update_conv')

text \<open>The coins issued to an account, by the issues and by the report.\<close>

definition issued :: "(Issue \<times> string) list \<Rightarrow> bytes \<Rightarrow> string \<Rightarrow> int" where
  "issued issues a d = (\<Sum>x\<leftarrow>issues. if is_Payee (fst x) = a \<and> fst (is_Coin (fst x)) = d then snd (is_Coin (fst x)) else 0)"

definition issue_amount :: "('a, 'm, 'r) zh_lib \<Rightarrow> SXFIBalanceReport \<Rightarrow> bytes \<Rightarrow> string \<Rightarrow> int" where
  "issue_amount Z r a d = (case map_of r a of None \<Rightarrow> 0 | Some i \<Rightarrow> zl_AmountOf Z (ri_IssueCoins i) d)"

lemma append_genesis_ok:
  assumes "coin_laws Z"
  shows "\<lbrakk>append_genesis S L K Z D bs r w = (Ok r', w'); report_ok D r; \<forall>a d. issue_amount Z r a d = 0\<rbrakk> \<Longrightarrow>
    report_ok D r' \<and> (\<forall>a d. issue_amount Z r' a d = 0)"
proof (induction bs arbitrary: r w)
  case (Cons b bs)
  obtain x y z where b: "b = (x, y, z)" by (cases b)
  from Cons.prems(1) b obtain addr acc cs w1 where r: "append_genesis S L K Z D bs (AList.update addr (NewSXFIBalanceReportItem D addr acc\<lparr>ri_GenCoins := cs\<rparr>) r) w1 = (Ok r', w')"
    by (auto split: option.splits prod.splits res.splits)
  show ?case
    using Cons.prems(2,3) assms
    by (intro Cons.IH [OF r] report_ok_update) (auto simp: item_ok_def NewSXFIBalanceReportItem_def issue_amount_def update_conv' coin_laws_def split: if_splits)
qed simp

lemma append_issues_ok:
  assumes "coin_laws Z"
  shows "\<lbrakk>append_issues S L K Z D issues r w = (Ok r', w'); report_ok D r\<rbrakk> \<Longrightarrow>
    report_ok D r' \<and> (\<forall>a d. issue_amount Z r' a d = issue_amount Z r a d + issued issues a d)"
proof (induction issues arbitrary: r w)
  case (Cons x issues)
  obtain issue ident where x: "x = (issue, ident)" by (cases x)
  let ?p = "is_Payee issue"
  from Cons.prems(1) x obtain i cs w1 where i: "map_of r ?p = Some i \<or> map_of r ?p = None \<and> (\<exists>coins. i = NewSXFIBalanceReportItem D ?p coins)" and
    cs: "zl_AddCoins Z (ri_IssueCoins i) [is_Coin issue] = Some cs" and
    r: "append_issues S L K Z D issues (AList.update ?p (i\<lparr>ri_IssueCoins := cs\<rparr>) r) w1 = (Ok r', w')"
    by (auto simp: Let_def split: option.splits prod.splits res.splits)
  let ?r = "AList.update ?p (i\<lparr>ri_IssueCoins := cs\<rparr>) r"
  have "item_ok D ?p i" using i Cons.prems(2) by (auto simp: report_ok_def item_ok_def NewSXFIBalanceReportItem_def)
  then have ok: "report_ok D ?r" using Cons.prems(2) by (intro report_ok_update) (auto simp: item_ok_def)
  have cs': "zl_AmountOf Z cs d = zl_AmountOf Z (ri_IssueCoins i) d + (if d = fst (is_Coin issue) then snd (is_Coin issue) else 0)" for d
    using assms cs unfolding coin_laws_def by blast
  have z: "zl_AmountOf Z [] d = 0" for d using assms by (simp add: coin_laws_def)
  have "issue_amount Z ?r a d = issue_amount Z r a d + (if ?p = a \<and> fst (is_Coin issue) = d then snd (is_Coin issue) else 0)" for a d
    using i by (auto simp: issue_amount_def update_conv' cs' NewSXFIBalanceReportItem_def z)
  with Cons.IH [OF r ok] show ?case by (auto simp: x issued_def)
qed (simp add: issued_def)

lemma each_item_Ok:
  "each_item f r = Ok r' \<Longrightarrow> map fst r' = map fst r \<and> (\<forall>a i'. map_of r' a = Some i' \<longrightarrow> (\<exists>i. map_of r a = Some i \<and> f i = Ok i'))"
  by (induction f r arbitrary: r' rule: each_item.induct) (auto simp: bind_res_Ok_iff split: if_splits)

lemma each_item_domain: "each_item f r = Ok r' \<Longrightarrow> map_of r' a = None \<longleftrightarrow> map_of r a = None"
  using each_item_Ok [of f r r'] by (metis list.set_map map_of_eq_None_iff)

text \<open>What rewards and delegations leave of an item.\<close>

definition item_core :: "SXFIBalanceReportItem \<Rightarrow> bytes \<times> coin list \<times> string list" where
  "item_core i = (ri_AccAddress i, ri_IssueCoins i, [ri_IssueBondingDenom i, ri_IssueLPDenom i, ri_BondingDenom i, ri_LPDenom i])"

lemma each_item_report:
  assumes r: "each_item f r = Ok r'" and f: "\<And>i i'. f i = Ok i' \<Longrightarrow> item_core i' = item_core i"
    and ok: "report_ok D r"
  shows "report_ok D r' \<and> issue_amount Z r' = issue_amount Z r"
proof
  note e = each_item_Ok [OF r]
  show "report_ok D r'" unfolding report_ok_def
  proof (intro conjI allI impI)
    show "distinct (map fst r')" using e ok by (metis report_ok_def)
    fix a i' assume "map_of r' a = Some i'"
    with e obtain i where "map_of r a = Some i" "f i = Ok i'" by blast
    with ok f [of i i'] show "item_ok D a i'" by (auto simp: report_ok_def item_ok_def item_core_def)
  qed
  show "issue_amount Z r' = issue_amount Z r"
  proof (intro ext)
    fix a d
    show "issue_amount Z r' a d = issue_amount Z r a d"
    proof (cases "map_of r' a")
      case None
      with each_item_domain [OF r, of a] show ?thesis by (simp add: issue_amount_def)
    next
      case (Some i')
      with e obtain i where "map_of r a = Some i" "f i = Ok i'" by blast
      with Some f [of i i'] show ?thesis by (simp add: issue_amount_def item_core_def)
    qed
  qed
qed

lemma add_rewards_keeps: "add_rewards Z cs i = Some i' \<Longrightarrow> item_core i' = item_core i"
  by (induction Z cs i arbitrary: i' rule: add_rewards.induct) (fastforce simp: item_core_def split: bind_splits)+

lemma add_delegations_keeps: "add_delegations S Z k dels i = Ok i' \<Longrightarrow> item_core i' = item_core i"
proof (induction dels arbitrary: i)
  case (Cons del dels)
  from Cons.prems obtain a b c d where
    "add_delegations S Z k dels (i\<lparr>ri_DelBondingShares := a, ri_DelBondingTokens := b, ri_DelLPShares := c, ri_DelLPTokens := d\<rparr>) = Ok i'"
    by (auto simp: Let_def split: if_splits option.splits bind_splits)
  from Cons.IH [OF this] show ?case by (simp add: item_core_def)
qed simp

lemma staker_rows_ok:
  "\<lbrakk>staker_rows Z entries r = Ok r'; report_ok D r\<rbrakk> \<Longrightarrow> report_ok D r' \<and> issue_amount Z r' = issue_amount Z r"
proof (induction Z entries r rule: staker_rows.induct)
  case (3 Z e entries r)
  from 3(2) obtain sk i where sk: "parse_row Z e = Ok sk" and i: "map_of r (sk_AccAddress sk) = Some i" "ri_StakerReport i = None" and
    r: "staker_rows Z entries (AList.update (sk_AccAddress sk) (i\<lparr>ri_StakerReport := Some sk\<rparr>) r) = Ok r'"
    by (auto simp: bind_res_Ok_iff split: option.splits if_splits)
  let ?r = "AList.update (sk_AccAddress sk) (i\<lparr>ri_StakerReport := Some sk\<rparr>) r"
  have "report_ok D ?r" using 3(3) i by (intro report_ok_update) (auto simp: report_ok_def item_ok_def)
  moreover have "issue_amount Z ?r = issue_amount Z r" using i by (auto simp: issue_amount_def update_conv' fun_eq_iff)
  ultimately show ?case using "3.IH" [OF i(1)] i(2) r by simp
qed simp_all

lemma report_spec:
  assumes laws: "coin_laws Z" and r: "getMainnetSXFIBalanceReport S L K Z D path s = (Ok report, s')"
  shows "report_ok D report \<and> (\<exists>issues. genesis_issues (dn_issues s) = Some issues \<and> (\<forall>a d. issue_amount Z report a d = issued issues a d))"
proof -
  from r obtain r0 va issues r1 r2 r3 where g: "append_genesis S L K Z D genBalances [] (dn_va s) = (Ok r0, va)" and
    i: "genesis_issues (dn_issues s) = Some issues" and a: "fst (append_issues S L K Z D issues r0 va) = Ok r1" and
    w: "append_rewards Z (dn_sdk s) r1 = Ok r2" and d: "append_delegations S Z (dn_sdk s) r2 = Ok r3" and
    c: "path \<noteq> [] \<and> AppendStakerCSVReport Z path r3 = Ok report \<or> report = r3"
    by (auto simp: getMainnetSXFIBalanceReport_def AppendGenesisBalances_def Let_def bind_res_Ok_iff split: prod.splits res.splits option.splits if_splits)
  have 0: "report_ok D r0 \<and> (\<forall>a d. issue_amount Z r0 a d = 0)"
    by (rule append_genesis_ok [OF laws g]) (simp_all add: report_ok_def issue_amount_def)
  obtain w1 where "append_issues S L K Z D issues r0 va = (Ok r1, w1)" using a by (cases "append_issues S L K Z D issues r0 va") simp
  from append_issues_ok [OF laws this] 0 have 1: "report_ok D r1" "\<forall>a d. issue_amount Z r1 a d = issued issues a d" by auto
  have 2: "report_ok D r2 \<and> issue_amount Z r2 = issue_amount Z r1"
    using w unfolding append_rewards_def
    by (rule each_item_report [OF _ _ 1(1)]) (auto dest: add_rewards_keeps split: option.splits)
  have 3: "report_ok D r3 \<and> issue_amount Z r3 = issue_amount Z r2"
    using d unfolding append_delegations_def
    by (rule each_item_report [OF _ add_delegations_keeps conjunct1 [OF 2]])
  have "report_ok D report \<and> issue_amount Z report = issue_amount Z r3"
    using c 3 by (auto simp: AppendStakerCSVReport_def dest: staker_rows_ok split: option.splits list.splits)
  with 1 2 3 i show ?thesis by simp
qed

section \<open>Results\<close>

lemma report_result_diff:
  assumes "int_laws S" and "report_result S Z i = Some x"
  shows "rr_ReportItem x = i \<and> (\<exists>c b. GetCurrentBondingBalance S Z i = Some c \<and> GetInitialBondingBalance S Z i = Some b \<and> rr_BondingDiff x = c - b)"
  using assms by (auto simp: report_result_def int_laws_def within_def split: bind_splits if_splits)

definition shortfall :: "sdk \<Rightarrow> ('a, 'm, 'r) zh_lib \<Rightarrow> SXFIBalanceReportItem \<Rightarrow> int" where
  "shortfall S Z i = max 0 (the (GetInitialBondingBalance S Z i) - the (GetCurrentBondingBalance S Z i))"

lemma report_results_due:
  assumes S: "int_laws S"
  shows "\<lbrakk>report_results S Z r = Some xs; distinct (map fst r); \<forall>e \<in> set r. ri_AccAddress (snd e) = fst e\<rbrakk> \<Longrightarrow>
    due xs a = (case map_of r a of None \<Rightarrow> 0 | Some i \<Rightarrow> shortfall S Z i)"
proof (induction r arbitrary: xs)
  case (Cons e r)
  obtain b i where e: "e = (b, i)" by fastforce
  with Cons.prems(1) obtain x xs' where x: "report_result S Z i = Some x" and xs': "report_results S Z r = Some xs'" "xs = x # xs'"
    by (auto split: bind_splits)
  have "due xs' a = (case map_of r a of None \<Rightarrow> 0 | Some i \<Rightarrow> shortfall S Z i)"
    using Cons.prems(2,3) by (intro Cons.IH [OF xs'(1)]) simp_all
  moreover have "map_of r b = None" using Cons.prems(2) e by (simp add: map_of_eq_None_iff)
  moreover have "ri_AccAddress i = b" using Cons.prems(3) e by simp
  moreover from report_result_diff [OF S x] have "rr_ReportItem x = i" "max 0 (- rr_BondingDiff x) = shortfall S Z i" by (auto simp: shortfall_def)
  ultimately show ?case by (auto simp: e xs' due_def)
qed (simp add: due_def)

lemma due_mset: "mset xs = mset ys \<Longrightarrow> due xs a = due ys a"
proof -
  have "due zs a = sum_mset (image_mset (\<lambda>x. if ri_AccAddress (rr_ReportItem x) = a then max 0 (- rr_BondingDiff x) else 0) (mset zs))" for zs
    unfolding due_def by (simp only: mset_map [symmetric] sum_mset_sum_list)
  then show "mset xs = mset ys \<Longrightarrow> due xs a = due ys a" by simp
qed

lemma shortfall_eq:
  assumes S: "int_laws S" and i: "item_ok mainnet_denoms a i" and r: "report_result S Z i = Some x"
  shows "shortfall S Z i = max 0
    (zl_AmountOf Z (ri_GenCoins i) ''xfi'' + (if ri_StakerReport i = None then 0 else zl_AmountOf Z (ri_IssueCoins i) ''sxfi'') -
     (zl_AmountOf Z (ri_AccBalance i) ''xfi'' + zl_AmountOf Z (ri_RewardCoins i) ''xfi'' + the (dec_trunc S (ri_DelBondingTokens i))))"
proof -
  have int_add: "int_add S x y = Some z \<longleftrightarrow> z = x + y \<and> \<bar>x + y\<bar> < 2 ^ 255" for x y z using S by (simp add: int_laws_def within_Some_iff)
  from report_result_diff [OF S r] obtain c b where c: "GetCurrentBondingBalance S Z i = Some c" and b: "GetInitialBondingBalance S Z i = Some b" by blast
  have d: "ri_BondingDenom i = ''xfi''" "ri_IssueBondingDenom i = ''sxfi''" using i by (simp_all add: item_ok_def mainnet_denoms_def)
  have "b = zl_AmountOf Z (ri_GenCoins i) ''xfi'' + (if ri_StakerReport i = None then 0 else zl_AmountOf Z (ri_IssueCoins i) ''sxfi'')"
    using b by (simp add: GetInitialBondingBalance_def d int_add Let_def)
  moreover have "c = zl_AmountOf Z (ri_AccBalance i) ''xfi'' + zl_AmountOf Z (ri_RewardCoins i) ''xfi'' + the (dec_trunc S (ri_DelBondingTokens i))"
    using c by (auto simp: GetCurrentBondingBalance_def d int_add Let_def bind_eq_Some_conv)
  ultimately show ?thesis by (simp add: shortfall_def b c)
qed

lemma report_results_each: "report_results S Z r = Some xs \<Longrightarrow> (a, i) \<in> set r \<Longrightarrow> \<exists>x. report_result S Z i = Some x"
  by (induction S Z r arbitrary: xs rule: report_results.induct) (auto split: bind_splits)

lemma process_Ok:
  assumes "processMainnetSXFIBalance S L K Z arrange path outp s = (Ok (), s')"
  obtains report s1 xs stats where "getMainnetSXFIBalanceReport S L K Z mainnet_denoms path s = (Ok report, s1)"
    and "list_all (item_verified Z \<circ> snd) report" and "report_results S Z report = Some xs"
    and "settle S L Z (arrange xs) (dn_va s1, dn_sdk s1) = (Ok stats, (dn_va s', dn_sdk s'))"
  using assms
  by (auto simp: processMainnetSXFIBalance_def Report_Verify_def GetResults_def Let_def split: if_splits prod.splits res.splits option.splits)


section \<open>Preparation for height zero\<close>

lemma run_steps_Ok: "run_steps (f # fs) s = (Ok (), s') \<longleftrightarrow> (\<exists>s1. f s = (Ok (), s1) \<and> run_steps fs s1 = (Ok (), s'))"
  by (auto split: prod.splits res.splits)

lemma sdk_step_Ok: "sdk_step m f s = (Ok (), s') \<Longrightarrow> dn_issues s' = dn_issues s \<and> dn_ms s' = dn_ms s \<and> dn_ob s' = dn_ob s"
  by (auto simp: sdk_step_def split: option.splits prod.splits)

lemma process_keeps:
  assumes "processMainnetSXFIBalance S L K Z arrange path outp s = (Ok (), s')"
  shows "dn_issues s' = dn_issues s \<and> dn_ms s' = dn_ms s \<and> dn_ob s' = dn_ob s \<and> checkInvariants Z s' = Ok ()"
proof -
  have "dn_issues s1 = dn_issues s \<and> dn_ms s1 = dn_ms s \<and> dn_ob s1 = dn_ob s"
    if "getMainnetSXFIBalanceReport S L K Z mainnet_denoms path s = (Ok report, s1)" for report s1
    using that by (auto simp: getMainnetSXFIBalanceReport_def Let_def split: prod.splits res.splits option.splits)
  with assms show ?thesis
    by (fastforce simp: processMainnetSXFIBalance_def Let_def split: if_splits prod.splits res.splits option.splits)
qed

text \<open>
  A successful preparation squashes the calls and the history of the order book, leaves the issues, and found the invariants intact before and after.
\<close>

theorem zero_height_squashes:
  assumes r: "prepareGenesisForZeroHeight S L K Z arrange visit path outp whitelist s = (Ok (), s')"
  shows "checkInvariants Z s = Ok () \<and> checkInvariants Z s' = Ok () \<and> dn_issues s' = dn_issues s \<and>
    dn_ms s' = Ms_PrepareForZeroHeight (dn_ms s) \<and> OB_PrepareForZeroHeight visit (dn_ob s) = Some (dn_ob s')"
proof -
  from r obtain opts :: zh_options where inv: "checkInvariants Z s = Ok ()" and st: "run_steps
       [ccs_step L (zo_SupplyToZero opts), sdk_step ''supply'' (zl_Supply Z), va_step S L K (zo_VMAuth opts),
        sdk_step ''staking'' (zl_Staking Z (zo_JailWhitelist opts)), sdk_step ''distribution'' (zl_Distr Z), sdk_step ''slashing'' (zl_Slashing Z),
        sdk_step ''mint'' (zl_Mint Z), sdk_step ''gov'' (zl_Gov Z), ms_step, ob_step visit, inv_step Z,
        processMainnetSXFIBalance S L K Z arrange path outp] s = (Ok (), s')"
    by (auto simp: prepareGenesisForZeroHeight_def simp del: run_steps.simps split: res.splits option.splits)
  from st obtain s1 s2 s3 s4 s5 s6 s7 s8 s9 s10 where
    c: "ccs_step L (zo_SupplyToZero opts) s = (Ok (), s1)" "va_step S L K (zo_VMAuth opts) s2 = (Ok (), s3)" and
    k: "sdk_step ''supply'' (zl_Supply Z) s1 = (Ok (), s2)" "sdk_step ''staking'' (zl_Staking Z (zo_JailWhitelist opts)) s3 = (Ok (), s4)"
      "sdk_step ''distribution'' (zl_Distr Z) s4 = (Ok (), s5)" "sdk_step ''slashing'' (zl_Slashing Z) s5 = (Ok (), s6)"
      "sdk_step ''mint'' (zl_Mint Z) s6 = (Ok (), s7)" "sdk_step ''gov'' (zl_Gov Z) s7 = (Ok (), s8)" and
    m: "ms_step s8 = (Ok (), s9)" "ob_step visit s9 = (Ok (), s10)" "inv_step Z s10 = (Ok (), s10)" and
    p: "processMainnetSXFIBalance S L K Z arrange path outp s10 = (Ok (), s')"
    unfolding run_steps_Ok by (auto simp: inv_step_def)
  have "dn_issues s8 = dn_issues s \<and> dn_ms s8 = dn_ms s \<and> dn_ob s8 = dn_ob s"
    using c k [THEN sdk_step_Ok] by (auto simp: ccs_step_def va_step_def split: prod.splits)
  with m process_keeps [OF p] inv show ?thesis by (auto simp: ms_step_def ob_step_def split: option.splits)
qed

section \<open>An example\<close>

text \<open>
  Coins as lists of entries whose amounts add up; the accounts of the reference keeper. Addresses are the first characters of the text after its prefix.
\<close>

definition ref_amount :: "coin list \<Rightarrow> string \<Rightarrow> int" where
  "ref_amount cs d = (\<Sum>c\<leftarrow>cs. if fst c = d then snd c else 0)"

definition ref_credit :: "bytes \<Rightarrow> coin list \<Rightarrow> (Account list \<times> 64 word) va_state \<Rightarrow> (Account list \<times> 64 word) va_state option" where
  "ref_credit a cs va =
     map_option (\<lambda>acc. va\<lparr>va_auth := au_Set ref_auth (acc\<lparr>acc_Coins := acc_Coins acc @ cs\<rparr>) (va_auth va)\<rparr>) (au_Get ref_auth a (va_auth va))"

definition ref_minter :: bytes where
  "ref_minter = ''mint-module-account-''"

definition ref_zero :: "(Account list \<times> 64 word, unit, unit) zh_lib" where
  "ref_zero = \<lparr>
     zl_Invariants = [], zl_JailWhitelist = Some, zl_Supply = Some, zl_Staking = (\<lambda>_. Some), zl_Distr = Some, zl_Slashing = Some, zl_Mint = Some, zl_Gov = Some,
     zl_MintCoins = (\<lambda>cs (va, k). map_option (\<lambda>v. (v, k)) (ref_credit ref_minter cs va)),
     zl_SendFromModule = (\<lambda>m b cs (va, k). map_option (\<lambda>v. (v, k))
       (Option.bind (ref_credit ref_minter (map (\<lambda>c. (fst c, - snd c)) cs) va) (ref_credit b cs))),
     zl_RewardsBankCoins = (\<lambda>_ _. []), zl_Delegations = (\<lambda>_ _. []), zl_HasValidator = (\<lambda>_ _. True), zl_BondingTokens = (\<lambda>_ _. Some), zl_LPTokens = (\<lambda>_ _. Some),
     zl_Bech32 = (\<lambda>t. Some (take 20 (drop 7 t))), zl_ParseInt = (\<lambda>t. Some (int (dec_value 0 t))),
     zl_NewCoins = Some, zl_AddCoins = (\<lambda>cs ds. Some (cs @ ds)), zl_AmountOf = ref_amount, zl_NewDecCoin = (\<lambda>d v. Some (d, v)),
     zl_CoinsString = (\<lambda>_. []), zl_DecString = (\<lambda>_. []), zl_IntString = (\<lambda>_. []), zl_AddrString = (\<lambda>a. a),
     zl_Rows = (\<lambda>_. Some [Some [], Some [''hash'', ''5'', ''wallet1whpkntyj549f7euftgpng24k2we8legght4rzg'', ''0x'' @ replicate 40 CHR ''a'', []]]),
     zl_SaveCSV = (\<lambda>_ _. True), zl_SaveStats = (\<lambda>_ _. True)\<rparr>"

lemma ref_zero_sel:
  "zl_Invariants ref_zero = []" "zl_Bech32 ref_zero t = Some (take 20 (drop 7 t))" "zl_ParseInt ref_zero t = Some (int (dec_value 0 t))"
  "zl_NewCoins ref_zero = Some" "zl_AddCoins ref_zero cs ds = Some (cs @ ds)" "zl_AmountOf ref_zero = ref_amount" "zl_NewDecCoin ref_zero d v = Some (d, v)"
  "zl_RewardsBankCoins ref_zero k a = []" "zl_Delegations ref_zero k a = []" "zl_SaveCSV ref_zero f csv = True" "zl_SaveStats ref_zero f stats = True"
  "zl_MintCoins ref_zero cs (va, k) = map_option (\<lambda>v. (v, k)) (ref_credit ref_minter cs va)"
  "zl_SendFromModule ref_zero m b cs (va, k) = map_option (\<lambda>v. (v, k))
       (Option.bind (ref_credit ref_minter (map (\<lambda>c. (fst c, - snd c)) cs) va) (ref_credit b cs))"
  "zl_Rows ref_zero f = Some [Some [], Some [''hash'', ''5'', ''wallet1whpkntyj549f7euftgpng24k2we8legght4rzg'', ''0x'' @ replicate 40 CHR ''a'', []]]"
  by (simp_all add: ref_zero_def)

lemma ref_coin_laws: "coin_laws ref_zero"
  by (simp add: coin_laws_def ref_zero_sel ref_amount_def)

lemma ref_credit_held:
  assumes "ref_credit b cs va = Some va'"
  shows "held ref_auth ref_zero va' a d = held ref_auth ref_zero va a d + (if a = b then ref_amount cs d else 0)"
proof -
  from assms obtain acc where acc: "au_Get ref_auth b (va_auth va) = Some acc" and va': "va' = va\<lparr>va_auth := au_Set ref_auth (acc\<lparr>acc_Coins := acc_Coins acc @ cs\<rparr>) (va_auth va)\<rparr>"
    by (auto simp: ref_credit_def)
  have "acc_Address acc = b" using acc ref_auth_laws unfolding auth_laws_def by blast
  moreover have "au_Get ref_auth a (au_Set ref_auth x s) = (if a = acc_Address x then Some x else au_Get ref_auth a s)" for x s
    using ref_auth_laws unfolding auth_laws_def by blast
  ultimately show ?thesis using acc by (auto simp: held_def va' ref_zero_sel ref_amount_def)
qed

lemma ref_amount_neg: "ref_amount (map (\<lambda>c. (fst c, - snd c)) cs) d = - ref_amount cs d"
  by (induction cs) (auto simp: ref_amount_def)

lemma ref_minter_laws: "minter_laws ref_auth ref_zero ref_minter"
  unfolding minter_laws_def
  by (auto simp: ref_zero_sel ref_credit_held ref_amount_neg bind_eq_Some_conv)

lemma store_both_vm: "store_both L c s = (Ok (), s') \<Longrightarrow> \<exists>bz. ccs_vm s' = setValue (info_path L (cur_Denom c)) bz (ccs_vm s)"
  by (erule store_both_Ok) auto

lemma ref_auth_get: "au_Get ref_auth a s = List.find (\<lambda>x. acc_Address x = a) (fst s)"
  by (simp add: ref_auth_def)

lemma ref_auth_set: "au_Set ref_auth acc s = (acc # filter (\<lambda>x. acc_Address x \<noteq> acc_Address acc) (fst s), snd s)"
  by (simp add: ref_auth_def)

lemma ex_no_balances:
  assumes "length a = 20"
  shows "GetAccountBalanceResources ref_vm_lib ex_ccs a = Ok []"
proof -
  have ne: "getValue (setValue (info_path ref_vm_lib d) bz vm) (balance_path ref_vm_lib a c) = getValue vm (balance_path ref_vm_lib a c)" for d bz vm c
    using info_path_ne_balance [OF ref_vm_lib_laws] assms by (simp add: vms.get_set balance_path_eq) metis
  from store_both_vm [OF CreateCurrency_Ok(2) [OF ex_ccs0_create]] obtain bz where
    0: "ccs_vm ex_ccs0 = setValue (info_path ref_vm_lib ''xfi'') bz []" by (auto simp: NewCurrency_def ex_params_def)
  from store_both_vm [OF ex_ccs_increase [unfolded ex_ccs_store]] obtain bz' where
    1: "ccs_vm ex_ccs = setValue (info_path ref_vm_lib ''xfi'') bz' (ccs_vm ex_ccs0)" by (auto simp: NewCurrency_def ex_params_def)
  have "getValue [] p = None" for p by (simp add: getValue_def kv_get_def)
  with 0 1 show ?thesis by (simp add: GetAccountBalanceResources_def ex_ccs_currencies ne)
qed

lemma ex_get_account:
  "length a = 20 \<Longrightarrow> VA_GetAccount ref_sdk ref_vm_lib ref_auth a \<lparr>va_ccs = ex_ccs, va_auth = au\<rparr> = (Ok (au_Get ref_auth a au), \<lparr>va_ccs = ex_ccs, va_auth = au\<rparr>)"
  by (simp add: VA_GetAccount_def ex_no_balances)

definition ex_wallet :: "bytes \<Rightarrow> int \<Rightarrow> Account" where
  "ex_wallet a v = \<lparr>acc_Address = a, acc_Coins = [(''xfi'', v)], acc_PubKey = None, acc_Number = 0, acc_Sequence = 0, acc_Module = None\<rparr>"

text \<open>The second genesis account lacks 100, the third is owed 5 more by an issue.\<close>

definition ex_wallets :: "Account list" where
  "ex_wallets =
     [ex_wallet ''wwmenr38hhrem2v3ue3g'' 3400000000000000000000000, ex_wallet ''a6sd0y8l0ma0gnytacrn'' 2499999999999999999900,
      ex_wallet ''whpkntyj549f7euftgpn'' 2500000000000000000000, ex_wallet ''zwkqfm2sdgyx0g6h2dj9'' 2500000000000000000000,
      ex_wallet ''0a24shxzjtutj637rr8s'' 2500000000000000000000, ex_wallet ''9xshddf5ww7fhd53fuml'' 2500000000000000000000,
      ex_wallet ''l9mukqvh0etam66dvgw9'' 50000000000000000000000, ex_wallet ref_minter 0]"

definition ex_issues :: "Issue kv" where
  "ex_issues = [(GetIssuesKey ''i'', \<lparr>is_Coin = (''sxfi'', 5), is_Payee = ''whpkntyj549f7euftgpn''\<rparr>)]"

lemma ex_addresses:
  "take 20 (drop 7 ''wallet1wwmenr38hhrem2v3ue3gwdhj03ynzcvlxgc92u'') = ''wwmenr38hhrem2v3ue3g''"
  "take 20 (drop 7 ''wallet1a6sd0y8l0ma0gnytacrnwlmnupm7ftnwxngalr'') = ''a6sd0y8l0ma0gnytacrn''"
  "take 20 (drop 7 ''wallet1whpkntyj549f7euftgpng24k2we8legght4rzg'') = ''whpkntyj549f7euftgpn''"
  "take 20 (drop 7 ''wallet1zwkqfm2sdgyx0g6h2dj9em4z4kjgy5lmtnmgjd'') = ''zwkqfm2sdgyx0g6h2dj9''"
  "take 20 (drop 7 ''wallet10a24shxzjtutj637rr8shwkwaxx8paplu4vc6f'') = ''0a24shxzjtutj637rr8s''"
  "take 20 (drop 7 ''wallet19xshddf5ww7fhd53fumly2r7lqsszz63fxca9x'') = ''9xshddf5ww7fhd53fuml''"
  "take 20 (drop 7 ''wallet1l9mukqvh0etam66dvgw99w9awv3jjv6tyh2hpc'') = ''l9mukqvh0etam66dvgw9''"
  by simp_all

lemma ex_genesis_step:
  assumes "length a = 20" "au_Get ref_auth a au = Some acc" "take 20 (drop 7 t) = a"
  shows "append_genesis ref_sdk ref_vm_lib ref_auth ref_zero mainnet_denoms ((t, b, ''0'') # bs) r \<lparr>va_ccs = ex_ccs, va_auth = au\<rparr> =
    append_genesis ref_sdk ref_vm_lib ref_auth ref_zero mainnet_denoms bs
      (AList.update a (NewSXFIBalanceReportItem mainnet_denoms a (acc_Coins acc)\<lparr>ri_GenCoins := [(''xfi'', int (dec_value 0 b)), (''lpt'', 0)]\<rparr>) r)
      \<lparr>va_ccs = ex_ccs, va_auth = au\<rparr>"
proof -
  have "gen_coins ref_sdk ref_zero mainnet_denoms (int (dec_value 0 b)) 0 = Some [(''xfi'', int (dec_value 0 b)), (''lpt'', 0)]"
    by (simp add: gen_coins_def ref_zero_sel ref_sdk_def ref_denom_def ref_denom_char_def mainnet_denoms_def)
  then show ?thesis using assms by (simp add: ref_zero_sel ex_get_account)
qed

definition ex_item :: "bytes \<Rightarrow> int \<Rightarrow> int \<Rightarrow> coin list \<Rightarrow> SXFIStakerReportItem option \<Rightarrow> SXFIBalanceReportItem" where
  "ex_item a v g cs sk = NewSXFIBalanceReportItem mainnet_denoms a [(''xfi'', v)]\<lparr>ri_GenCoins := [(''xfi'', g), (''lpt'', 0)], ri_IssueCoins := cs, ri_StakerReport := sk\<rparr>"

definition ex_report :: "coin list \<Rightarrow> SXFIStakerReportItem option \<Rightarrow> SXFIBalanceReport" where
  "ex_report cs sk =
     [(''wwmenr38hhrem2v3ue3g'', ex_item ''wwmenr38hhrem2v3ue3g'' 3400000000000000000000000 3400000000000000000000000 [] None),
      (''a6sd0y8l0ma0gnytacrn'', ex_item ''a6sd0y8l0ma0gnytacrn'' 2499999999999999999900 2500000000000000000000 [] None),
      (''whpkntyj549f7euftgpn'', ex_item ''whpkntyj549f7euftgpn'' 2500000000000000000000 2500000000000000000000 cs sk),
      (''zwkqfm2sdgyx0g6h2dj9'', ex_item ''zwkqfm2sdgyx0g6h2dj9'' 2500000000000000000000 2500000000000000000000 [] None),
      (''0a24shxzjtutj637rr8s'', ex_item ''0a24shxzjtutj637rr8s'' 2500000000000000000000 2500000000000000000000 [] None),
      (''9xshddf5ww7fhd53fuml'', ex_item ''9xshddf5ww7fhd53fuml'' 2500000000000000000000 2500000000000000000000 [] None),
      (''l9mukqvh0etam66dvgw9'', ex_item ''l9mukqvh0etam66dvgw9'' 50000000000000000000000 50000000000000000000000 [] None)]"

lemma ex_genesis:
  "append_genesis ref_sdk ref_vm_lib ref_auth ref_zero mainnet_denoms genBalances [] \<lparr>va_ccs = ex_ccs, va_auth = (ex_wallets, 0)\<rparr> =
     (Ok (ex_report [] None), \<lparr>va_ccs = ex_ccs, va_auth = (ex_wallets, 0)\<rparr>)"
  unfolding genBalances_def
  by (simp add: ex_genesis_step [OF _ _ ex_addresses(1)] ex_genesis_step [OF _ _ ex_addresses(2)] ex_genesis_step [OF _ _ ex_addresses(3)]
      ex_genesis_step [OF _ _ ex_addresses(4)] ex_genesis_step [OF _ _ ex_addresses(5)] ex_genesis_step [OF _ _ ex_addresses(6)] ex_genesis_step [OF _ _ ex_addresses(7)]
      ref_auth_get ex_wallets_def ex_wallet_def ex_report_def ex_item_def NewSXFIBalanceReportItem_def del: append_genesis.simps(2))

definition ex_staker :: SXFIStakerReportItem where
  "ex_staker = \<lparr>sk_TxHash = ''hash'', sk_AccAddress = ''whpkntyj549f7euftgpn'', sk_EthAddress = ''0x'' @ replicate 40 CHR ''a'', sk_BondingAmount = 5, sk_LPAmount = 0\<rparr>"

lemma ex_issues_run: "genesis_issues ex_issues = Some [(\<lparr>is_Coin = (''sxfi'', 5), is_Payee = ''whpkntyj549f7euftgpn''\<rparr>, ''i'')]"
  by (simp add: ex_issues_def GetIssuesKey_def MustParseIssueKey_def Let_def)

lemma ex_append_issues:
  "append_issues ref_sdk ref_vm_lib ref_auth ref_zero mainnet_denoms [(\<lparr>is_Coin = (''sxfi'', 5), is_Payee = ''whpkntyj549f7euftgpn''\<rparr>, ''i'')] (ex_report [] None) w =
     (Ok (ex_report [(''sxfi'', 5)] None), w)"
  by (simp add: ex_report_def ex_item_def NewSXFIBalanceReportItem_def ref_zero_sel Let_def)

lemma ex_each_item: "(\<And>i. f i = Ok i) \<Longrightarrow> each_item f r = Ok r"
  by (induction f r rule: each_item.induct) simp_all

lemma ex_staker_run: "AppendStakerCSVReport ref_zero f (ex_report cs None) = Ok (ex_report cs (Some ex_staker))"
proof -
  have "parse_row ref_zero [''hash'', ''5'', ''wallet1whpkntyj549f7euftgpng24k2we8legght4rzg'', ''0x'' @ replicate 40 CHR ''a'', []] = Ok ex_staker"
    by (simp add: parse_row_def parse_amount_def ref_zero_sel ex_staker_def IsEthereumAddress_def EthAddressLength_def isHex_def hex_char_def list_all_iff Let_def)
  then show ?thesis
    by (simp add: AppendStakerCSVReport_def ref_zero_sel ex_report_def ex_item_def NewSXFIBalanceReportItem_def ex_staker_def)
qed

definition ex_va0 :: "(Account list \<times> 64 word) va_state" where
  "ex_va0 = \<lparr>va_ccs = ex_ccs, va_auth = (ex_wallets, 0)\<rparr>"

definition ex_zero :: "(Account list \<times> 64 word, unit, unit) dn_state" where
  "ex_zero = \<lparr>dn_va = ex_va0, dn_issues = ex_issues, dn_ms = \<lparr>ms_calls = [], ms_unique = [], ms_votes = [], ms_queue = [], ms_lastID = None, ms_interval = 0\<rparr>,
     dn_ob = \<lparr>ob_history = [], ob_orders = \<lparr>os_orders = [], os_lastID = None, os_bank = (\<lambda>_ _. 0)\<rparr>\<rparr>, dn_sdk = ()\<rparr>"

abbreviation ex_final :: SXFIBalanceReport where
  "ex_final \<equiv> ex_report [(''sxfi'', 5)] (Some ex_staker)"

lemma ex_report_run: "getMainnetSXFIBalanceReport ref_sdk ref_vm_lib ref_auth ref_zero mainnet_denoms ''f'' ex_zero = (Ok ex_final, ex_zero)"
proof -
  have "append_rewards ref_zero k r = Ok r" "append_delegations ref_sdk ref_zero k r = Ok r" for k r
    by (simp_all add: append_rewards_def append_delegations_def ref_zero_sel ex_each_item)
  then show ?thesis
    using ex_genesis
    by (simp add: getMainnetSXFIBalanceReport_def AppendGenesisBalances_def ex_zero_def ex_va0_def ex_issues_run ex_append_issues ex_staker_run Let_def
        del: append_issues.simps)
qed

lemma ref_sdk_sel:
  "int_add ref_sdk x y = within 255 (x + y)" "int_sub ref_sdk x y = within 255 (x - y)" "dec_trunc ref_sdk x = within 255 (x div dec_one)"
  "new_coin ref_sdk ''xfi'' v = (if 0 \<le> v then Some (''xfi'', v) else None)" "dec_of_int ref_sdk x 0 = Some (x * dec_one)"
  "dec_mul ref_sdk x y = within 315 (chop (x * y))"
  by (simp_all add: ref_sdk_def ref_denom_def ref_denom_char_def)

definition ex_result :: "SXFIBalanceReportItem \<Rightarrow> int \<Rightarrow> SXFIBalanceReportResult" where
  "ex_result i v = \<lparr>rr_ReportItem = i, rr_BondingDiff = v, rr_LPDiff = 0\<rparr>"

lemma ex_result_run:
  assumes "0 \<le> v" "v < 2 ^ 200" "0 \<le> g" "g < 2 ^ 200" and "sk = None \<and> cs = [] \<or> sk \<noteq> None \<and> cs = [(''sxfi'', 5)]"
  shows "report_result ref_sdk ref_zero (ex_item a v g cs sk) = Some (ex_result (ex_item a v g cs sk) (v - (g + (if sk = None then 0 else 5))))"
proof -
  have b: "within 255 x = Some x" if "\<bar>x\<bar> < 2 ^ 202" for x
    using that by (intro within_Some_iff [THEN iffD2]) (auto intro: order.strict_trans2)
  show ?thesis
    using assms
    by (auto simp: report_result_def GetCurrentBondingBalance_def GetInitialBondingBalance_def GetCurrentLPBalance_def GetInitialLPBalance_def ex_item_def
        NewSXFIBalanceReportItem_def mainnet_denoms_def ref_sdk_sel ref_zero_sel ref_amount_def ex_result_def b Let_def)
qed

definition ex_results :: "SXFIBalanceReportResult list" where
  "ex_results = map (\<lambda>(a, i). ex_result i (if a = ''a6sd0y8l0ma0gnytacrn'' then - 100 else if a = ''whpkntyj549f7euftgpn'' then - 5 else 0)) ex_final"

lemma ex_results_run: "report_results ref_sdk ref_zero ex_final = Some ex_results"
  by (simp add: ex_results_def ex_report_def ex_result_run)

lemma ex_increase: "\<exists>s'. IncreaseCurrencySupply ref_sdk ref_vm_lib (''xfi'', 105) ex_ccs = (Ok (), s')"
proof -
  have "IncreaseCurrencySupply ref_sdk ref_vm_lib (''xfi'', 105) ex_ccs = store_both ref_vm_lib (NewCurrency ex_params 110) ex_ccs"
    using ex_ccs_xfi by (simp add: IncreaseCurrencySupply_def change_supply_def ref_sdk_def within_def NewCurrency_def)
  moreover have "\<exists>s'. store_both ref_vm_lib (NewCurrency ex_params 110) ex_ccs = (Ok (), s')"
    using ref_store_both [of "NewCurrency ex_params 110" ex_ccs] by (auto simp: NewCurrency_def ex_params_def)
  ultimately show ?thesis by simp
qed

text \<open>The reference keepers pay whoever they know.\<close>

definition ex_known :: "bytes set \<Rightarrow> (Account list \<times> 64 word) va_state \<Rightarrow> bool" where
  "ex_known A va \<longleftrightarrow> A \<subseteq> acc_Address ` set (fst (va_auth va))"

lemma ex_credit_run:
  assumes "ex_known A va" "a \<in> A"
  shows "\<exists>va'. ref_credit a cs va = Some va' \<and> ex_known A va'"
proof -
  from assms obtain x where "x \<in> set (fst (va_auth va))" "acc_Address x = a" by (auto simp: ex_known_def)
  then have "List.find (\<lambda>x. acc_Address x = a) (fst (va_auth va)) \<noteq> None" by (auto simp: find_None_iff)
  then obtain acc where "List.find (\<lambda>x. acc_Address x = a) (fst (va_auth va)) = Some acc" by blast
  moreover from this have "acc_Address acc = a" by (auto simp: find_Some_iff)
  ultimately show ?thesis using assms by (auto simp: ref_credit_def ref_auth_get ref_auth_set ex_known_def)
qed

lemma ex_scaled: "0 \<le> x \<Longrightarrow> x < 2 ^ 200 \<Longrightarrow> scaled ref_sdk x = Some x"
  using chop_exact [of x] by (auto simp: scaled_def ref_sdk_sel within_def intro: order.strict_trans)

lemma ex_distribute:
  "\<lbrakk>ex_known A va; ref_minter \<in> A; \<forall>x \<in> set results. ri_AccAddress (rr_ReportItem x) \<in> A \<and> - rr_BondingDiff x < 2 ^ 200\<rbrakk> \<Longrightarrow>
   \<exists>m w'. distribute ref_sdk ref_zero ''xfi'' results mints (va, k) = (Ok m, w')"
proof (induction results arbitrary: va mints)
  case (Cons x results)
  show ?case
  proof (cases "rr_BondingDiff x < 0")
    case True
    let ?a = "ri_AccAddress (rr_ReportItem x)" and ?cs = "[(''xfi'', - rr_BondingDiff x)]"
    from ex_credit_run [OF Cons.prems(1,2)] obtain va1 where 1: "ref_credit ref_minter (map (\<lambda>c. (fst c, - snd c)) ?cs) va = Some va1" "ex_known A va1" by blast
    from ex_credit_run [OF 1(2)] Cons.prems(3) obtain va2 where 2: "ref_credit ?a ?cs va1 = Some va2" "ex_known A va2" by fastforce
    have "scaled ref_sdk (- rr_BondingDiff x) = Some (- rr_BondingDiff x)" using True Cons.prems(3) by (intro ex_scaled) simp_all
    with True 1(1) 2(1) Cons.IH [OF 2(2) Cons.prems(2)] Cons.prems(3) show ?thesis by (simp add: ref_sdk_sel ref_zero_sel Let_def)
  next
    case False
    with Cons show ?thesis by (simp add: Let_def)
  qed
qed simp

lemma ex_wallets_known: "ex_known (insert ref_minter (fst ` set ex_final)) ex_va0"
  by (simp add: ex_known_def ex_va0_def ex_wallets_def ex_wallet_def ex_report_def)

lemma ex_results_sums: "sum_diffs ref_sdk (sort_key rr_BondingDiff ex_results) 0 0 = Some (0, - 105)"
  by (simp add: ex_results_def ex_report_def ex_result_def ref_sdk_sel within_def)

lemma ex_settle: "\<exists>stats w'. settle ref_sdk ref_vm_lib ref_zero (sort_key rr_BondingDiff ex_results) (ex_va0, ()) = (Ok stats, w')"
proof -
  let ?A = "insert ref_minter (fst ` set ex_final)"
  from ex_credit_run [OF ex_wallets_known] obtain va where va: "ref_credit ref_minter [(''xfi'', 105)] ex_va0 = Some va" "ex_known ?A va" by blast
  have ccs: "va_ccs va = ex_ccs" using va(1) by (auto simp: ref_credit_def ex_va0_def)
  from ex_increase obtain c where c: "IncreaseCurrencySupply ref_sdk ref_vm_lib (''xfi'', 105) ex_ccs = (Ok (), c)" by blast
  then have m: "mint_shortfall ref_sdk ref_vm_lib ref_zero (''xfi'', 105) (ex_va0, ()) = (Ok (), (va\<lparr>va_ccs := c\<rparr>, ()))"
    using va(1) by (simp add: mint_shortfall_def ref_zero_sel ccs)
  have "\<forall>x \<in> set (sort_key rr_BondingDiff ex_results). ri_AccAddress (rr_ReportItem x) \<in> ?A \<and> - rr_BondingDiff x < 2 ^ 200"
    by (simp add: ex_results_def ex_report_def ex_result_def ex_item_def NewSXFIBalanceReportItem_def)
  with ex_distribute [of ?A "va\<lparr>va_ccs := c\<rparr>"] va(2) obtain ms w' where
    "distribute ref_sdk ref_zero ''xfi'' (sort_key rr_BondingDiff ex_results) [] (va\<lparr>va_ccs := c\<rparr>, ()) = (Ok ms, w')"
    by (fastforce simp: ex_known_def)
  then show ?thesis
    by (cases w') (simp add: settle_def ex_results_sums mainnet_denoms_def ref_sdk_sel ex_scaled m Let_def)
qed

lemma ex_process: "\<exists>s'. processMainnetSXFIBalance ref_sdk ref_vm_lib ref_auth ref_zero (sort_key rr_BondingDiff) ''f'' ''o'' ex_zero = (Ok (), s')"
proof -
  have v: "list_all (item_verified ref_zero \<circ> snd) ex_final"
    by (simp add: ex_report_def item_verified_def ex_item_def NewSXFIBalanceReportItem_def ref_zero_sel ref_amount_def ex_staker_def mainnet_denoms_def)
  from ex_settle obtain stats va where "settle ref_sdk ref_vm_lib ref_zero (sort_key rr_BondingDiff ex_results) (ex_va0, ()) = (Ok stats, (va, ()))" by auto
  with v show ?thesis
    by (simp add: processMainnetSXFIBalance_def ex_report_run Report_Verify_def GetResults_def ex_results_run SaveToCSV_def ref_zero_sel checkInvariants_def Let_def)
      (simp add: ex_zero_def ref_zero_sel checkInvariants_def Let_def)
qed


end
