(* ===== verification/AppConfig.thy ===== *)
theory AppConfig
  imports BaseApp_Props DnTypes
begin

text \<open>
  How the application is put together (\<open>app/app.go\<close>, \<open>cmd/config/restrictions\<close>): the permissions the keepers of the modules grant to each other, the order in which
  modules run, and the messages the node refuses.
\<close>

section \<open>Permissions of the modules\<close>

text \<open>A permission is the name of its module followed by its own name.\<close>

definition perm :: "string \<Rightarrow> string \<Rightarrow> Permission" where
  "perm moduleName name = moduleName @ ''Perm'' @ name"

definition Ccs_Perms :: "Permission list" where
  "Ccs_Perms = map (perm ''ccstorage'') [''Init'', ''Create'', ''Update'', ''Read'', ''ResUpdate'']"

definition Cur_Perms :: "Permission list" where
  "Cur_Perms = map (perm ''currencies'') [''Init'', ''Create'', ''Issue'', ''Withdraw'', ''Read'']"

definition Markets_Perms :: "Permission list" where
  "Markets_Perms = map (perm ''markets'') [''Init'', ''Create'', ''Read'']"

definition Ms_Perms :: "Permission list" where
  "Ms_Perms = map (perm ''multisig'') [''Init'', ''Read'', ''Write'']"

definition Orc_Perms :: "Permission list" where
  "Orc_Perms = map (perm ''oracle'') [''Init'', ''Read'', ''Write'']"

definition OB_Perms :: "Permission list" where
  "OB_Perms = map (perm ''orderbook'') [''Export'', ''Init'', ''HistoryRead'', ''HistoryWrite'', ''OrdersRead'', ''ExecFill'']"

definition Orders_Perms :: "Permission list" where
  "Orders_Perms = map (perm ''orders'') [''OrderPost'', ''OrderRevoke'', ''Init'', ''Read'', ''OrderLock'', ''OrderUnlock'', ''ExecFill'']"

definition Poa_Perms :: "Permission list" where
  "Poa_Perms = map (perm ''poa'') [''Init'', ''Read'', ''Write'']"

definition Vm_Perms :: "Permission list" where
  "Vm_Perms = map (perm ''vm'') [''Init'', ''VmExec'', ''DsAdmin'', ''StorageRead'', ''StorageWrite'']"

text \<open>What the modules request of each other.\<close>

definition Ccs_RequestVMStoragePerms :: "string \<times> Permission list" where
  "Ccs_RequestVMStoragePerms = (''ccstorage'', [perm ''vm'' ''StorageRead'', perm ''vm'' ''StorageWrite''])"

definition Orc_RequestVMStoragePerms :: "string \<times> Permission list" where
  "Orc_RequestVMStoragePerms = (''oracle'', [perm ''vm'' ''StorageRead'', perm ''vm'' ''StorageWrite''])"

definition Cur_RequestCCStoragePerms :: "string \<times> Permission list" where
  "Cur_RequestCCStoragePerms = (''currencies'', [perm ''ccstorage'' ''Create'', perm ''ccstorage'' ''Update'', perm ''ccstorage'' ''Read''])"

definition VA_RequestCCStoragePerms :: "string \<times> Permission list" where
  "VA_RequestCCStoragePerms = (''vmauth'', [perm ''ccstorage'' ''Update'', perm ''ccstorage'' ''Read'', perm ''ccstorage'' ''ResUpdate''])"

definition Markets_RequestCCStoragePerms :: "string \<times> Permission list" where
  "Markets_RequestCCStoragePerms = (''markets'', [perm ''ccstorage'' ''Read''])"

definition RequestPoaPerms :: "string \<times> Permission list" where
  "RequestPoaPerms = (''multisig'', [perm ''poa'' ''Read''])"

definition RequestMarketsPerms :: "string \<times> Permission list" where
  "RequestMarketsPerms = (''orders'', [perm ''markets'' ''Read''])"

definition RequestOrdersPerms :: "string \<times> Permission list" where
  "RequestOrdersPerms = (''orderbook'', [perm ''orders'' ''Read'', perm ''orders'' ''ExecFill''])"

definition appModulePerms :: "Permission list \<Rightarrow> string \<times> Permission list" where
  "appModulePerms allPerms = (''app'', allPerms)"

text \<open>The permissions of a new keeper; \<open>None\<close> is the panic of \<open>AutoAddRequester\<close>.\<close>

fun add_requesters :: "(string \<times> Permission list) list \<Rightarrow> ModulePermissions \<Rightarrow> ModulePermissions option" where
  "add_requesters [] m = Some m"
| "add_requesters (r # rs) m = Option.bind (AutoAddRequester r m) (add_requesters rs)"

definition keeper_perms :: "string \<Rightarrow> Permission list \<Rightarrow> (string \<times> Permission list) list \<Rightarrow> ModulePermissions option" where
  "keeper_perms moduleName avail requesters = add_requesters requesters (NewModulePermissions moduleName avail)"

text \<open>The keepers, in the order \<open>NewDnServiceApp\<close> creates them.\<close>

definition storage_keepers :: "(string \<times> Permission list \<times> (string \<times> Permission list) list) list" where
  "storage_keepers =
     [(''vm'', Vm_Perms, [Ccs_RequestVMStoragePerms, Orc_RequestVMStoragePerms, appModulePerms Vm_Perms]),
      (''ccstorage'', Ccs_Perms, [Cur_RequestCCStoragePerms, VA_RequestCCStoragePerms, Markets_RequestCCStoragePerms, appModulePerms Ccs_Perms])]"

definition app_keepers :: "(string \<times> Permission list \<times> (string \<times> Permission list) list) list" where
  "app_keepers = storage_keepers @
     [(''currencies'', Cur_Perms, [appModulePerms Cur_Perms]),
      (''poa'', Poa_Perms, [RequestPoaPerms, appModulePerms Poa_Perms]),
      (''multisig'', Ms_Perms, [appModulePerms Ms_Perms]),
      (''oracle'', Orc_Perms, [appModulePerms Orc_Perms]),
      (''markets'', Markets_Perms, [RequestMarketsPerms, appModulePerms Markets_Perms]),
      (''orders'', Orders_Perms, [RequestOrdersPerms, appModulePerms Orders_Perms]),
      (''orderbook'', OB_Perms, [appModulePerms OB_Perms])]"

text \<open>
  The check a keeper makes when a function calls it, the caller being known by its path. A keeper whose permissions could not be built does not exist.
\<close>

definition keeper_check :: "string \<Rightarrow> string \<Rightarrow> Permission \<Rightarrow> bool" where
  "keeper_check target callerPath p \<longleftrightarrow>
     (case map_of app_keepers target of
        None \<Rightarrow> False
      | Some (avail, requesters) \<Rightarrow>
          (case keeper_perms target avail requesters of
             None \<Rightarrow> False
           | Some m \<Rightarrow> AutoCheck m target (getModuleID callerPath) p = Ok ()))"

text \<open>The calls from one module to the keeper of another: the calling function, the keeper, and the permission the called operation asks for.\<close>

definition dn_path :: "string \<Rightarrow> string" where
  "dn_path f = ''github.com/dfinance/dnode/'' @ f"

definition cross_calls :: "(string \<times> string \<times> Permission) list" where
  "cross_calls =
     [(''x/multisig.handleMsgSubmitCall'', ''poa'', perm ''poa'' ''Read''),
      (''x/multisig.handleMsgConfirmCall'', ''poa'', perm ''poa'' ''Read''),
      (''x/multisig.EndBlocker'', ''poa'', perm ''poa'' ''Read''),
      (''x/orders/internal/keeper.Keeper.InitGenesis'', ''markets'', perm ''markets'' ''Read''),
      (''x/orders/internal/keeper.Keeper.PostOrder'', ''markets'', perm ''markets'' ''Read''),
      (''x/markets/internal/keeper.Keeper.GetExtended'', ''ccstorage'', perm ''ccstorage'' ''Read''),
      (''x/markets/internal/keeper.Keeper.Add'', ''ccstorage'', perm ''ccstorage'' ''Read''),
      (''x/markets/internal/keeper.Keeper.InitGenesis'', ''ccstorage'', perm ''ccstorage'' ''Read''),
      (''x/oracle/internal/keeper.Keeper.SetCurrentPrices'', ''vm'', perm ''vm'' ''StorageWrite''),
      (''x/orderbook/internal/keeper.Keeper.GetOrderIterator'', ''orders'', perm ''orders'' ''Read''),
      (''x/orderbook/internal/keeper.Keeper.ProcessOrderFills'', ''orders'', perm ''orders'' ''ExecFill''),
      (''x/vmauth/internal/keeper.Keeper.SetAccount'', ''ccstorage'', perm ''ccstorage'' ''Update''),
      (''x/vmauth/internal/keeper.Keeper.SetAccount'', ''ccstorage'', perm ''ccstorage'' ''ResUpdate''),
      (''x/vmauth/internal/keeper.Keeper.GetAccount'', ''ccstorage'', perm ''ccstorage'' ''Read''),
      (''x/vmauth/internal/keeper.Keeper.RemoveAccount'', ''ccstorage'', perm ''ccstorage'' ''ResUpdate''),
      (''x/ccstorage/internal/keeper.Keeper.GetResStdCurrencyInfo'', ''vm'', perm ''vm'' ''StorageRead''),
      (''x/ccstorage/internal/keeper.Keeper.storeResStdCurrencyInfo'', ''vm'', perm ''vm'' ''StorageWrite''),
      (''x/ccstorage/internal/keeper.Keeper.SetAccountBalanceResources'', ''vm'', perm ''vm'' ''StorageRead''),
      (''x/ccstorage/internal/keeper.Keeper.SetAccountBalanceResources'', ''vm'', perm ''vm'' ''StorageWrite''),
      (''x/ccstorage/internal/keeper.Keeper.GetAccountBalanceResources'', ''vm'', perm ''vm'' ''StorageRead''),
      (''x/ccstorage/internal/keeper.Keeper.RemoveAccountBalanceResources'', ''vm'', perm ''vm'' ''StorageWrite''),
      (''x/currencies/internal/keeper.Keeper.UnstakeCurrency'', ''ccstorage'', perm ''ccstorage'' ''Update''),
      (''x/currencies/internal/keeper.Keeper.CreateCurrency'', ''ccstorage'', perm ''ccstorage'' ''Create''),
      (''x/currencies/internal/keeper.Keeper.WithdrawCurrency'', ''ccstorage'', perm ''ccstorage'' ''Read''),
      (''x/currencies/internal/keeper.Keeper.WithdrawCurrency'', ''ccstorage'', perm ''ccstorage'' ''Update''),
      (''x/currencies/internal/keeper.Keeper.IssueCurrency'', ''ccstorage'', perm ''ccstorage'' ''Read''),
      (''x/currencies/internal/keeper.Keeper.IssueCurrency'', ''ccstorage'', perm ''ccstorage'' ''Update''),
      (''x/currencies/internal/keeper.Keeper.InitGenesis'', ''ccstorage'', perm ''ccstorage'' ''Read''),
      (''x/currencies/internal/keeper.SupplyInvariant.func1'', ''ccstorage'', perm ''ccstorage'' ''Read''),
      (''x/currencies/internal/keeper.queryGetCurrency'', ''ccstorage'', perm ''ccstorage'' ''Read''),
      (''x/currencies/internal/keeper.queryGetCurrencies'', ''ccstorage'', perm ''ccstorage'' ''Read''),
      (''x/currencies.BeginBlocker'', ''ccstorage'', perm ''ccstorage'' ''Update''),
      (''app.(*DnServiceApp).processMainnetSXFIBalance'', ''ccstorage'', perm ''ccstorage'' ''Update''),
      (''app.(*DnServiceApp).InitChainer'', ''vm'', perm ''vm'' ''DsAdmin''),
      (''app.NewDnServiceApp'', ''vm'', perm ''vm'' ''DsAdmin''),
      (''app.DnServiceApp.CloseConnections'', ''vm'', perm ''vm'' ''DsAdmin'')]"

section \<open>Who may call whom\<close>

lemma add_requesters_check:
  assumes "add_requesters rs m = Some m'" and "distinct (map fst rs)"
  shows "Perms_Check m' c p = Ok () \<longleftrightarrow> (case map_of rs c of None \<Rightarrow> Perms_Check m c p = Ok () | Some ps \<Rightarrow> p \<in> set ps)"
  using assms
proof (induction rs arbitrary: m)
  case (Cons r rs)
  obtain n ps where r: "r = (n, ps)" by fastforce
  from Cons.prems(1) obtain m1 where a: "AddModulePermission (n, ps) m = (Ok (), m1)" and s: "add_requesters rs m1 = Some m'"
    by (auto simp: r AutoAddRequester_def split: bind_splits prod.splits res.splits)
  have n: "map_of rs n = None" using Cons.prems(2) by (simp add: r map_of_eq_None_iff)
  show ?case
    using Cons.IH [OF s] Cons.prems(2) n by (auto simp: r AddModulePermission_Ok(4) [OF a] split: option.splits)
qed simp

lemma keeper_check_iff:
  assumes "map_of app_keepers t = Some (avail, rs)" and "distinct (map fst rs)" and "keeper_perms t avail rs \<noteq> None"
  shows "keeper_check t f p \<longleftrightarrow> getModuleID f = t \<or> (case map_of rs (getModuleID f) of None \<Rightarrow> False | Some ps \<Rightarrow> p \<in> set ps)"
proof -
  from assms(3) obtain m where m: "keeper_perms t avail rs = Some m" by blast
  have "Perms_Check (NewModulePermissions t avail) c p \<noteq> Ok ()" for c by (simp add: Perms_Check_def NewModulePermissions_def)
  with add_requesters_check [OF m [unfolded keeper_perms_def] assms(2)]
  have "Perms_Check m c p = Ok () \<longleftrightarrow> (case map_of rs c of None \<Rightarrow> False | Some ps \<Rightarrow> p \<in> set ps)" for c by (auto split: option.splits)
  moreover have "AutoCheck m t c p = Ok () \<longleftrightarrow> c = t \<or> Perms_Check m c p = Ok ()" for c by (auto simp: AutoCheck_def split: res.splits)
  ultimately show ?thesis using assms(1) m by (simp add: keeper_check_def)
qed

lemmas perm_tables = Ccs_Perms_def Cur_Perms_def Markets_Perms_def Ms_Perms_def Orc_Perms_def OB_Perms_def Orders_Perms_def Poa_Perms_def Vm_Perms_def
  Ccs_RequestVMStoragePerms_def Orc_RequestVMStoragePerms_def Cur_RequestCCStoragePerms_def VA_RequestCCStoragePerms_def
  Markets_RequestCCStoragePerms_def RequestPoaPerms_def RequestMarketsPerms_def RequestOrdersPerms_def appModulePerms_def

lemma add_requesters_defined:
  "\<lbrakk>mp_perms m = avail; \<forall>r \<in> set rs. fst r \<noteq> [] \<and> snd r \<noteq> [] \<and> set (snd r) \<subseteq> set avail\<rbrakk> \<Longrightarrow> add_requesters rs m \<noteq> None"
proof (induction rs arbitrary: m)
  case (Cons r rs)
  obtain n ps where r: "r = (n, ps)" by fastforce
  with Cons.prems have "add_perms_loop (mp_perms m) ps (\<lambda>_. False) = Ok (\<lambda>p. False \<or> p \<in> set ps)" by (simp add: add_perms_loop_Ok)
  with Cons r show ?case by (simp add: AutoAddRequester_def AddModulePermission_def)
qed simp

text \<open>Every keeper can be created: what is requested of a module is declared by it.\<close>

lemma app_keepers_defined: "(t, avail, rs) \<in> set app_keepers \<Longrightarrow> keeper_perms t avail rs \<noteq> None \<and> distinct (map fst rs)"
proof -
  have h: "\<forall>(t, avail, rs) \<in> set app_keepers. distinct (map fst rs) \<and> (\<forall>r \<in> set rs. fst r \<noteq> [] \<and> snd r \<noteq> [] \<and> set (snd r) \<subseteq> set avail)"
    unfolding app_keepers_def storage_keepers_def append_Cons append_Nil by (simp add: perm_tables)
  assume "(t, avail, rs) \<in> set app_keepers"
  from bspec [OF h this] have "distinct (map fst rs)" "\<forall>r \<in> set rs. fst r \<noteq> [] \<and> snd r \<noteq> [] \<and> set (snd r) \<subseteq> set avail" by simp_all
  moreover have "mp_perms (NewModulePermissions t avail) = avail" by (simp add: NewModulePermissions_def)
  ultimately show "keeper_perms t avail rs \<noteq> None \<and> distinct (map fst rs)" unfolding keeper_perms_def using add_requesters_defined by blast
qed

lemma app_keeper_check:
  assumes "map_of app_keepers t = Some (avail, rs)"
  shows "keeper_check t f p \<longleftrightarrow> getModuleID f = t \<or> (case map_of rs (getModuleID f) of None \<Rightarrow> False | Some ps \<Rightarrow> p \<in> set ps)"
  using app_keepers_defined [OF map_of_SomeD [OF assms]] by (intro keeper_check_iff [OF assms]) simp_all

lemma app_keepers_lookup:
  "map_of app_keepers ''vm'' = Some (Vm_Perms, [Ccs_RequestVMStoragePerms, Orc_RequestVMStoragePerms, appModulePerms Vm_Perms])"
  "map_of app_keepers ''ccstorage'' = Some (Ccs_Perms, [Cur_RequestCCStoragePerms, VA_RequestCCStoragePerms, Markets_RequestCCStoragePerms, appModulePerms Ccs_Perms])"
  "map_of app_keepers ''currencies'' = Some (Cur_Perms, [appModulePerms Cur_Perms])"
  "map_of app_keepers ''poa'' = Some (Poa_Perms, [RequestPoaPerms, appModulePerms Poa_Perms])"
  "map_of app_keepers ''markets'' = Some (Markets_Perms, [RequestMarketsPerms, appModulePerms Markets_Perms])"
  "map_of app_keepers ''orders'' = Some (Orders_Perms, [RequestOrdersPerms, appModulePerms Orders_Perms])"
  by (simp_all add: app_keepers_def storage_keepers_def)

lemmas app_checks = app_keepers_lookup [THEN app_keeper_check]

lemma cross_calls_permitted: "list_all (\<lambda>(f, t, p). keeper_check t (dn_path f) p) cross_calls"
  unfolding cross_calls_def list.pred_inject prod.case dn_path_def app_checks
  by (simp add: getModuleID_def fixDotNotation_def perm_tables perm_def)



section \<open>Order of the modules\<close>

definition order_begin_blockers :: "string list" where
  "order_begin_blockers = [''upgrade'', ''mint'', ''currencies'', ''distribution'', ''slashing'', ''vm'']"

definition order_end_blockers :: "string list" where
  "order_end_blockers = [''crisis'', ''gov'', ''staking'', ''multisig'', ''oracle'', ''orders'', ''orderbook'']"

definition order_init_genesis :: "string list" where
  "order_init_genesis =
     [''upgrade'', ''vm'', ''ccstorage'', ''accounts'', ''distribution'', ''staking'', ''auth'', ''bank'', ''slashing'', ''gov'', ''mint'', ''evidence'', ''supply'',
      ''crisis'', ''poa'', ''multisig'', ''currencies'', ''oracle'', ''markets'', ''orders'', ''orderbook'', ''genutil'']"

definition before :: "'a list \<Rightarrow> 'a \<Rightarrow> 'a \<Rightarrow> bool" where
  "before xs a b \<longleftrightarrow> (\<exists>us vs. xs = us @ a # vs \<and> b \<in> set vs)"

lemma before_Cons: "before (x # xs) a b \<longleftrightarrow> (if x = a \<and> b \<in> set xs then True else before xs a b)"
proof
  assume "before (x # xs) a b"
  then obtain us vs where "x # xs = us @ a # vs" "b \<in> set vs" by (auto simp: before_def)
  then show "if x = a \<and> b \<in> set xs then True else before xs a b" by (cases us) (auto simp: before_def)
next
  assume "if x = a \<and> b \<in> set xs then True else before xs a b"
  then show "before (x # xs) a b" unfolding before_def by (metis append_Cons append_Nil)
qed

lemma before_Nil: "\<not> before [] a b"
  by (simp add: before_def)

text \<open>
  A module is initialised after the modules whose state its own initialisation reads; expired orders are revoked before the matching of the block.
\<close>

lemma module_order:
  "before order_init_genesis ''vm'' ''ccstorage''" "before order_init_genesis ''ccstorage'' ''accounts''" "before order_init_genesis ''ccstorage'' ''currencies''"
  "before order_init_genesis ''ccstorage'' ''markets''" "before order_init_genesis ''markets'' ''orders''" "before order_init_genesis ''accounts'' ''genutil''"
  "before order_end_blockers ''orders'' ''orderbook''" "before order_begin_blockers ''mint'' ''currencies''"
  by (simp_all add: order_init_genesis_def order_end_blockers_def order_begin_blockers_def before_Cons before_Nil)

section \<open>Restrictions\<close>

text \<open>
  \<open>as_MsgSend\<close> tells whether a message is the transfer of the bank module, and its coins. \<open>key\<close> gives the strings of the keys of parameters that the SDK
  declares.
\<close>

record 'm AppRestrictions =
  CustomMsgVerifiers :: "'m \<Rightarrow> app_error option"
  MsgDeniedList :: "string \<Rightarrow> string list option"
  ParamsProposal :: "(string \<times> string) list"
  DisabledTxCmd :: "string list"
  DisabledQueryCmd :: "string list"

definition LiquidityProviderDenom :: string where
  "LiquidityProviderDenom = ''lpt''"

definition GetEmptyAppRestriction :: "'m AppRestrictions" where
  "GetEmptyAppRestriction = \<lparr>CustomMsgVerifiers = (\<lambda>_. None), MsgDeniedList = Map.empty, ParamsProposal = [], DisabledTxCmd = [], DisabledQueryCmd = []\<rparr>"

definition send_verifier :: "('m \<Rightarrow> coin list option) \<Rightarrow> 'm \<Rightarrow> app_error option" where
  "send_verifier as_MsgSend msg =
     (case as_MsgSend msg of
        None \<Rightarrow> None
      | Some amount \<Rightarrow> if list_ex (\<lambda>c. fst c = LiquidityProviderDenom) amount then Some AppErrInvalidRequest else None)"

definition GetAppRestrictions :: "(string \<Rightarrow> string) \<Rightarrow> ('m \<Rightarrow> coin list option) \<Rightarrow> 'm AppRestrictions" where
  "GetAppRestrictions key as_MsgSend =
     \<lparr>CustomMsgVerifiers = send_verifier as_MsgSend, MsgDeniedList = [''currencies'' \<mapsto> [''withdraw_currency'']],
       ParamsProposal =
         [(''distribution'', key ''ParamKeyValidatorsPoolTax''), (''distribution'', key ''ParamKeyLiquidityProvidersPoolTax''),
          (''distribution'', key ''ParamKeyPublicTreasuryPoolTax''), (''distribution'', key ''ParamKeyHARPTax''), (''distribution'', key ''ParamKeyFoundationNominees''),
          (''mint'', key ''KeyFoundationAllocationRatio''), (''mint'', key ''KeyStakingTotalSupplyShift'')],
       DisabledTxCmd = [], DisabledQueryCmd = []\<rparr>"

lemma run_msgs_Done:
  assumes "run_msgs A ctx mode i msgs data events logs sg = (Done r, sg')" and "mode \<noteq> runTxModeCheck" "mode \<noteq> runTxModeReCheck" and "msg \<in> set msgs"
  shows "lb_msgsCustomVerifier A msg = None \<and> (\<forall>types. lb_msgsDeniedList A (lb_Route A msg) = Some types \<longrightarrow> lb_Type A msg \<notin> set types)"
  using assms
proof (induction msgs arbitrary: i data events logs sg)
  case (Cons m msgs)
  have m: "lb_msgsCustomVerifier A m = None" "\<forall>types. lb_msgsDeniedList A (lb_Route A m) = Some types \<longrightarrow> lb_Type A m \<notin> set types"
    using Cons.prems by (auto split: option.splits if_splits)
  with Cons.prems obtain h x sg1 where "lb_router A (lb_Route A m) = Some h" and h: "h ctx m sg = (Done x, sg1)" by (auto split: option.splits if_splits prod.splits run.splits)
  with Cons.prems m obtain d e l where s: "run_msgs A ctx mode (i + 1) msgs d e l sg1 = (Done r, sg')" by (auto simp: Let_def split: option.splits if_splits)
  show ?case
  proof (cases "msg = m")
    case False
    with Cons.IH [OF s Cons.prems(2,3)] Cons.prems(4) show ?thesis by simp
  qed (use m in simp)
qed simp

lemma DeliverTx_Ok_msgs:
  assumes "DeliverTx A txBytes app = ((Ok r, gi), app')"
  shows "\<exists>tx c gs ms1 sg. lb_txDecoder A txBytes = Some tx \<and> runMsgs A c (lb_GetMsgs A tx) runTxModeDeliver (ms1, tx_meter gs) = (Done r, sg)"
proof -
  from assms obtain tx where tx: "lb_txDecoder A txBytes = Some tx" by (auto simp: DeliverTx_def split: option.splits)
  from assms tx obtain st bg where st: "bap_deliverState app = Some st" "st_blockGas st = Some bg" "\<not> mt_IsOutOfGas (lb_Meter A) bg"
    by (auto simp: DeliverTx_def runTx_def getState_def Let_def split: option.splits if_splits)
  let ?ctx = "getContextForTx runTxModeDeliver txBytes app st"
  obtain out w gs ms where b: "run_body A ?ctx runTxModeDeliver tx (st_ms st) (st_gas st) = (out, w, gs, ms)" by (metis prod_cases4)
  from assms tx st b have "out = Done r"
    by (auto simp: DeliverTx_def runTx_def getState_def Let_def recover_tx_def split: option.splits if_splits prod.splits run.splits)
  with run_body_effect [OF b] tx show ?thesis by simp blast
qed

text \<open>
  A transaction that was delivered with success contains no message to withdraw a currency and no transfer of the liquidity provider token by the bank module.
\<close>

theorem restrictions_enforced:
  assumes "lb_msgsCustomVerifier A = CustomMsgVerifiers (GetAppRestrictions key as_MsgSend)" and "lb_msgsDeniedList A = MsgDeniedList (GetAppRestrictions key as_MsgSend)"
    and "DeliverTx A txBytes app = ((Ok r, gi), app')"
  shows "\<exists>tx. lb_txDecoder A txBytes = Some tx \<and> (\<forall>msg \<in> set (lb_GetMsgs A tx).
    \<not> (lb_Route A msg = ''currencies'' \<and> lb_Type A msg = ''withdraw_currency'') \<and> (\<forall>coins v. as_MsgSend msg = Some coins \<longrightarrow> (''lpt'', v) \<notin> set coins))"
proof -
  from DeliverTx_Ok_msgs [OF assms(3)] obtain tx c gs ms1 sg where tx: "lb_txDecoder A txBytes = Some tx" and
    r: "run_msgs A c runTxModeDeliver 0 (lb_GetMsgs A tx) [] [] [] (ms1, tx_meter gs) = (Done r, sg)" unfolding runMsgs_def by blast
  from run_msgs_Done [OF r] tx show ?thesis
    by (intro exI [of _ tx]) (fastforce simp: assms(1,2) GetAppRestrictions_def send_verifier_def LiquidityProviderDenom_def list_ex_iff split: option.splits if_splits)
qed

text \<open>
  When a transaction is only checked, the verifier sees its first message alone: a second one with the restricted token passes.
\<close>

lemma check_verifies_first_only:
  "lb_msgsCustomVerifier A m = None \<Longrightarrow> runMsgs A ctx (m # msgs) runTxModeCheck sg = (Done \<lparr>r_Data = [], r_Log = lb_Logs A [], r_Events = []\<rparr>, sg)"
  by (simp add: runMsgs_def)

end
