(* ===== verification/Queriers.thy ===== *)
theory Queriers
  imports Ms_Props Currencies Orders Oracle
begin

text \<open>
  The queries the modules answer (\<open>internal/keeper/querier.go\<close> of \<open>x/multisig\<close>, \<open>x/poa\<close>, \<open>x/currencies\<close>, \<open>x/markets\<close>, \<open>x/orders\<close>, \<open>x/oracle\<close>). Requests are decoded
  by the codec, a parameter; an answer is the value that is printed. A path without elements panics.
\<close>

datatype 'e query_error = QErrUnknownRequest | QErrParams | QErrKeeper 'e

definition keeper_result :: "('e, 'a) res \<Rightarrow> ('e query_error, 'a) res" where
  "keeper_result r = (case r of Ok x \<Rightarrow> Ok x | Err e \<Rightarrow> Err (QErrKeeper e) | Panic \<Rightarrow> Panic)"

definition with_params :: "(bytes \<Rightarrow> 'p option) \<Rightarrow> bytes \<Rightarrow> ('p \<Rightarrow> ('e query_error, 'a) res) \<Rightarrow> ('e query_error, 'a) res" where
  "with_params decode data f = (case decode data of None \<Rightarrow> Err QErrParams | Some params \<Rightarrow> f params)"

section \<open>Multi-signatures\<close>

record ms_codec =
  CallReq_un :: "bytes \<Rightarrow> ID option"
  CallByUniqueIdReq_un :: "bytes \<Rightarrow> string option"

type_synonym 'm CallResp = "'m Call \<times> bytes list"

datatype 'm ms_answer = AnsCalls "'m CallResp list" | AnsCall "'m CallResp" | AnsLastID ID

definition call_resp :: "'m ms_store \<Rightarrow> ID \<Rightarrow> (ms_error, 'm CallResp) res" where
  "call_resp s i = bind_res (GetCall s i) (\<lambda>call. bind_res (GetVotes s i) (\<lambda>votes. Ok (call, votes)))"

fun calls_resp :: "'m ms_store \<Rightarrow> ID list \<Rightarrow> (ms_error, 'm CallResp list) res" where
  "calls_resp s [] = Ok []"
| "calls_resp s (callID # ids) = bind_res (call_resp s callID) (\<lambda>r. bind_res (calls_resp s ids) (\<lambda>rs. Ok (r # rs)))"

definition queryGetCalls :: "int \<Rightarrow> 'm ms_store \<Rightarrow> (ms_error, 'm CallResp list) res" where
  "queryGetCalls blockHeight s =
     (let start = (let x = blockHeight - ms_interval s in if x < 0 then 0 else x) in
      calls_resp s (kv_vals (GetQueueIteratorStartEnd s start blockHeight)))"

definition queryGetUnique :: "string \<Rightarrow> 'm ms_store \<Rightarrow> (ms_error, 'm CallResp) res" where
  "queryGetUnique uniqueID s = bind_res (GetCallIDByUniqueID s uniqueID) (call_resp s)"

definition Ms_NewQuerier :: "ms_codec \<Rightarrow> int \<Rightarrow> string list \<Rightarrow> bytes \<Rightarrow> 'm ms_store \<Rightarrow> (ms_error query_error, 'm ms_answer) res" where
  "Ms_NewQuerier C blockHeight path data s =
     (case path of
        [] \<Rightarrow> Panic
      | p # _ \<Rightarrow>
          if p = ''calls'' then bind_res (keeper_result (queryGetCalls blockHeight s)) (Ok \<circ> AnsCalls)
          else if p = ''call'' then with_params (CallReq_un C) data (\<lambda>i. bind_res (keeper_result (call_resp s i)) (Ok \<circ> AnsCall))
          else if p = ''callByUnique'' then with_params (CallByUniqueIdReq_un C) data (\<lambda>u. bind_res (keeper_result (queryGetUnique u s)) (Ok \<circ> AnsCall))
          else if p = ''lastId'' then Ok (AnsLastID (GetLastCallID s))
          else Err QErrUnknownRequest)"

section \<open>Validators\<close>

datatype poa_answer = AnsPoaValidators "Validator list" "16 word" | AnsPoaValidator Validator | AnsMinMax PoaParams

definition Poa_NewQuerier :: "(bytes \<Rightarrow> bytes option) \<Rightarrow> string list \<Rightarrow> bytes \<Rightarrow> poa_state \<Rightarrow> (poa_error query_error, poa_answer) res" where
  "Poa_NewQuerier ValidatorReq_un path data s =
     (case path of
        [] \<Rightarrow> Panic
      | p # _ \<Rightarrow>
          if p = ''validators'' then Ok (AnsPoaValidators (GetValidators s) (GetEnoughConfirmations s))
          else if p = ''validator'' then with_params ValidatorReq_un data (\<lambda>a. bind_res (keeper_result (GetValidator s a)) (Ok \<circ> AnsPoaValidator))
          else if p = ''minmax'' then Ok (AnsMinMax (ps_params s))
          else Err QErrUnknownRequest)"

section \<open>Currencies\<close>

record cur_codec =
  WithdrawsReq_un :: "bytes \<Rightarrow> (nat \<times> nat) option"
  WithdrawReq_un :: "bytes \<Rightarrow> ID option"
  IssueReq_un :: "bytes \<Rightarrow> string option"
  CurrencyReq_un :: "bytes \<Rightarrow> string option"

datatype cur_answer =
    AnsWithdraws "Withdraw list"
  | AnsWithdraw Withdraw
  | AnsIssue Issue
  | AnsCurrency Currency
  | AnsCurrencies "Currency list"

definition ccs_result :: "(ccs_error, 'a) res \<Rightarrow> (cur_error, 'a) res" where
  "ccs_result r = (case r of Ok x \<Rightarrow> Ok x | Err e \<Rightarrow> Err (CurErrCcs e) | Panic \<Rightarrow> Panic)"

definition Cur_NewQuerier :: "sdk \<Rightarrow> cur_codec \<Rightarrow> string list \<Rightarrow> bytes \<Rightarrow> 'k cur_state \<Rightarrow> (cur_error query_error, cur_answer) res" where
  "Cur_NewQuerier S C path data s =
     (case path of
        [] \<Rightarrow> Panic
      | p # _ \<Rightarrow>
          if p = ''withdraws'' then
            with_params (WithdrawsReq_un C) data (\<lambda>(page, limit). case GetWithdrawsFiltered S s page limit of None \<Rightarrow> Panic | Some ws \<Rightarrow> Ok (AnsWithdraws ws))
          else if p = ''withdraw'' then with_params (WithdrawReq_un C) data (\<lambda>i. bind_res (keeper_result (GetWithdraw s i)) (Ok \<circ> AnsWithdraw))
          else if p = ''issue'' then with_params (IssueReq_un C) data (\<lambda>i. bind_res (keeper_result (GetIssue s i)) (Ok \<circ> AnsIssue))
          else if p = ''currency'' then
            with_params (CurrencyReq_un C) data (\<lambda>d. bind_res (keeper_result (ccs_result (GetCurrency (cu_ccs s) d))) (Ok \<circ> AnsCurrency))
          else if p = ''currencies'' then Ok (AnsCurrencies (GetCurrencies (cu_ccs s)))
          else Err QErrUnknownRequest)"

section \<open>Markets and orders\<close>

datatype mkt_answer = AnsMarkets "Market list" | AnsMarket Market

definition Markets_NewQuerier ::
  "(bytes \<Rightarrow> MarketsReq option) \<Rightarrow> (bytes \<Rightarrow> ID option) \<Rightarrow> string list \<Rightarrow> bytes \<Rightarrow> mkt_state \<Rightarrow> (mkt_error query_error, mkt_answer) res" where
  "Markets_NewQuerier MarketsReq_un MarketReq_un path data s =
     (case path of
        [] \<Rightarrow> Panic
      | p # _ \<Rightarrow>
          if p = ''list'' then with_params MarketsReq_un data (\<lambda>params. bind_res (keeper_result (Markets_GetListFiltered s params)) (Ok \<circ> AnsMarkets))
          else if p = ''market'' then with_params MarketReq_un data (\<lambda>i. bind_res (keeper_result (Markets_Get s i)) (Ok \<circ> AnsMarket))
          else Err QErrUnknownRequest)"

datatype ord_answer = AnsOrders "Order list" | AnsOrder Order

definition Orders_NewQuerier ::
  "sdk \<Rightarrow> (bytes \<Rightarrow> OrdersReq option) \<Rightarrow> (bytes \<Rightarrow> ID option) \<Rightarrow> string list \<Rightarrow> bytes \<Rightarrow> ord_state \<Rightarrow> (ord_error query_error, ord_answer) res" where
  "Orders_NewQuerier S OrdersReq_un OrderReq_un path data s =
     (case path of
        [] \<Rightarrow> Panic
      | p # _ \<Rightarrow>
          if p = ''list'' then with_params OrdersReq_un data (\<lambda>params. bind_res (keeper_result (Orders_GetListFiltered S s params)) (Ok \<circ> AnsOrders))
          else if p = ''order'' then with_params OrderReq_un data (\<lambda>i. bind_res (keeper_result (Orders_Get s i)) (Ok \<circ> AnsOrder))
          else Err QErrUnknownRequest)"

section \<open>Oracle\<close>

datatype orc_answer = AnsPrice CurrentAssetPrice | AnsRawPrices "PostedPrice list" | AnsAssets "Asset list"

text \<open>The arguments of these queries are further elements of the path; a missing one panics, but for the height of an unknown asset.\<close>

definition Orc_NewQuerier :: "sdk \<Rightarrow> 'd orc_lib \<Rightarrow> string list \<Rightarrow> orc_state \<Rightarrow> (orc_error, orc_answer) res" where
  "Orc_NewQuerier S D path s =
     (case path of
        [] \<Rightarrow> Panic
      | p # args \<Rightarrow>
          if p = ''price'' then (case args of [] \<Rightarrow> Panic | code # _ \<Rightarrow> bind_res (queryCurrentPrice S D code s) (Ok \<circ> AnsPrice))
          else if p = ''rawprices'' then
            (case args of
               code # height # _ \<Rightarrow> bind_res (queryRawPrices code height s) (Ok \<circ> AnsRawPrices)
             | [code] \<Rightarrow> if GetAsset s code = None then Err OrcErrUnknownRequest else Panic
             | [] \<Rightarrow> Panic)
          else if p = ''assets'' then Ok (AnsAssets (queryAssets s))
          else Err OrcErrUnknownRequest)"

section \<open>The waiting calls\<close>

lemma calls_resp_Ok:
  "(\<And>i. i \<in> set is \<Longrightarrow> call_at s i = Some (c i) \<and> votes_at s i = Some (v i)) \<Longrightarrow> calls_resp s is = Ok (map (\<lambda>i. (c i, v i)) is)"
  by (induction "is") (simp_all add: call_resp_def GetCall_at GetVotes_def HasCall_at votes_at_def)

text \<open>
  In a consistent store the query of calls never fails and lists every call that waits for confirmations and was submitted within the interval once,
  with its votes, and no other call.
\<close>

theorem query_calls_exact:
  assumes inv: "ms_inv R h s" and h: "height_ok h'"
  shows "\<exists>rs. queryGetCalls h' s = Ok rs \<and> distinct (map (c_ID \<circ> fst) rs) \<and>
    set rs = {(c, vs). call_at s (c_ID c) = Some c \<and> waiting s (c_ID c) \<and> h' - ms_interval s \<le> c_Height c \<and> c_Height c \<le> h' \<and> votes_at s (c_ID c) = Some vs}"
proof -
  define start where "start = (if h' - ms_interval s < 0 then 0 else h' - ms_interval s)"
  define ids where "ids = kv_vals (GetQueueIteratorStartEnd s start h')"
  let ?c = "\<lambda>i. the (call_at s i)" and ?v = "\<lambda>i. the (votes_at s i)"
  have st: "height_ok start" using h inv by (auto simp: start_def ms_inv_def)
  have win: "set ids = {i. waiting s i \<and> (\<forall>c. call_at s i = Some c \<longrightarrow> start \<le> c_Height c \<and> c_Height c \<le> h')}"
    unfolding ids_def by (rule active_window [OF inv st h])
  have dist: "distinct ids" unfolding ids_def by (rule active_ids(2) [OF inv st h])
  have w: "call_at s i = Some (?c i) \<and> votes_at s i = Some (?v i) \<and> c_ID (?c i) = i \<and> 0 \<le> c_Height (?c i)" if "waiting s i" for i
  proof -
    from inv that obtain c where c: "call_at s i = Some c" "c_ID c = i" "call_ok R h c" "queued_at s i (c_Height c)"
      by (rule waiting_call)
    then show ?thesis using queue_entry [OF inv c(4,1)] by (auto simp: call_ok_def)
  qed
  have win_start: "start \<le> c_Height (?c i) \<longleftrightarrow> h' - ms_interval s \<le> c_Height (?c i)" if "waiting s i" for i
    using w [OF that] by (simp add: start_def)
  let ?rs = "map (\<lambda>i. (?c i, ?v i)) ids"
  have "queryGetCalls h' s = Ok ?rs"
    using calls_resp_Ok [of ids s ?c ?v] w win unfolding queryGetCalls_def Let_def ids_def start_def by simp
  moreover have "map (c_ID \<circ> fst) ?rs = ids" using w win by (auto intro!: map_idI)
  moreover have "set ?rs = {(c, vs). call_at s (c_ID c) = Some c \<and> waiting s (c_ID c) \<and> h' - ms_interval s \<le> c_Height c \<and> c_Height c \<le> h' \<and> votes_at s (c_ID c) = Some vs}"
    (is "_ = ?R")
  proof (intro set_eqI iffI)
    fix x assume "x \<in> set ?rs"
    then obtain i where x: "x = (?c i, ?v i)" and i: "i \<in> set ids" by auto
    then have wi: "waiting s i" using win by blast
    with i win w [OF wi] win_start [OF wi] have "h' - ms_interval s \<le> c_Height (?c i)" "c_Height (?c i) \<le> h'" by auto
    with w [OF wi] wi show "x \<in> ?R" unfolding x by simp
  next
    fix x assume "x \<in> ?R"
    then obtain c vs where x: "x = (c, vs)" "call_at s (c_ID c) = Some c" "waiting s (c_ID c)" "h' - ms_interval s \<le> c_Height c"
      "c_Height c \<le> h'" "votes_at s (c_ID c) = Some vs" by auto
    with win_start [OF x(3)] have "c_ID c \<in> set ids" unfolding win by simp
    then show "x \<in> set ?rs" using x by force
  qed
  ultimately show ?thesis using dist by auto
qed

end
