(* ===== verification/ClientArgs.thy ===== *)
theory ClientArgs
  imports VM
begin

text \<open>
  What the clients do with the strings they are given: parameters of commands and requests (\<open>helpers/input_parsers.go\<close>) and the arguments of scripts
  (\<open>x/vm/client/vm_client/args.go\<close>).
\<close>

section \<open>Libraries\<close>

text \<open>
  Parsers of the SDK, case folding and trimming by the Unicode tables, the hash, the file system. \<open>NewIntFromString\<close> reads at most 255 bits.
  \<open>Canonical\<close> is Tendermint's form of a time.
\<close>

datatype file_stat = NoFile | StatFails | Directory | RegularFile

record cli_lib =
  cl_NewIntFromString :: "string \<Rightarrow> int option"
  cl_NewDecFromStr :: "string \<Rightarrow> int option"
  cl_AccAddressFromBech32 :: "string \<Rightarrow> bytes option"
  cl_AccAddressFromHex :: "string \<Rightarrow> bytes option"
  cl_ParseCoin :: "string \<Rightarrow> (unit, coin) res"
  cl_ParseCoins :: "string \<Rightarrow> coin list option"
  cl_ToLower :: "string \<Rightarrow> string"
  cl_TrimSpace :: "string \<Rightarrow> string"
  cl_Canonical :: "int \<Rightarrow> int"
  cl_XxHash :: "string \<Rightarrow> 64 word"
  cl_Open :: "string \<Rightarrow> bytes option option"
  cl_Stat :: "string \<Rightarrow> file_stat"

definition cli_laws :: "cli_lib \<Rightarrow> bool" where
  "cli_laws C \<longleftrightarrow>
     (\<forall>n. cl_NewIntFromString C (dec_digits n) = (if n < 2 ^ 255 then Some (int n) else None)) \<and>
     (\<forall>t v. cl_NewIntFromString C t = Some v \<longrightarrow> \<bar>v\<bar> < 2 ^ 255) \<and>
     (\<forall>t a. t \<noteq> [] \<longrightarrow> cl_AccAddressFromBech32 C t = Some a \<longrightarrow> length a = 20)"

text \<open>Of the standard library: \<open>strconv.ParseUint\<close> and \<open>strconv.ParseBool\<close>, \<open>strings.TrimPrefix\<close>, \<open>time.Unix\<close>, whose seconds wrap around.\<close>

definition is_digit :: "char \<Rightarrow> bool" where
  "is_digit c \<longleftrightarrow> 48 \<le> (of_char c :: nat) \<and> (of_char c :: nat) \<le> 57"

definition ParseUint :: "nat \<Rightarrow> string \<Rightarrow> nat option" where
  "ParseUint bitSize str =
     (if str = [] \<or> \<not> list_all is_digit str then None
      else if dec_value 0 str < 2 ^ bitSize then Some (dec_value 0 str) else None)"

definition parse_int64 :: "string \<Rightarrow> int option" where
  "parse_int64 str =
     (let (neg, ds) = (case str of c # cs \<Rightarrow> if c = CHR ''-'' then (True, cs) else if c = CHR ''+'' then (False, cs) else (False, str)
                       | [] \<Rightarrow> (False, [])) in
      if ds = [] \<or> \<not> list_all is_digit ds then None
      else let v = (if neg then - int (dec_value 0 ds) else int (dec_value 0 ds)) in
        if - (2 ^ 63) \<le> v \<and> v < 2 ^ 63 then Some v else None)"

definition ParseBool :: "string \<Rightarrow> bool option" where
  "ParseBool str =
     (if str \<in> {''1'', ''t'', ''T'', ''true'', ''TRUE'', ''True''} then Some True
      else if str \<in> {''0'', ''f'', ''F'', ''false'', ''FALSE'', ''False''} then Some False
      else None)"

definition TrimPrefix :: "string \<Rightarrow> string \<Rightarrow> string" where
  "TrimPrefix str pre = (if take (length pre) str = pre then drop (length pre) str else str)"

definition time_Unix :: "int \<Rightarrow> int" where
  "time_Unix sec = (sint (word_of_int (sec + 62135596800) :: 64 word) - 62135596800) * 1000000000"

section \<open>Parameters\<close>

datatype ParamType = ParamTypeCliFlag | ParamTypeCliArg | ParamTypeRestQuery | ParamTypeRestPath | ParamTypeRestRequest

datatype param_error = ParamError (pe_argName: string) (pe_paramType: ParamType) (pe_argValue: string) (pe_cause: param_cause)
  and param_cause =
    ParsingFailed | LessThanOne | LessThanZero | AccountNotFound | BadID id_error | BadFilter filter_error | BadEthereumAddress
  | FileOpen | FileRead | FileNotFound | FileStats | FileIsDirectory | Because string | InElement param_error

definition BuildError :: "string \<Rightarrow> string \<Rightarrow> ParamType \<Rightarrow> string \<Rightarrow> param_error" where
  "BuildError argName argValue paramType errMsg = ParamError argName paramType argValue (Because errMsg)"

definition ParseFromFlag :: "(bytes \<Rightarrow> bool) \<Rightarrow> bool \<Rightarrow> bytes \<Rightarrow> (param_error, bytes) res" where
  "ParseFromFlag exists generateOnly fromAddress =
     (if \<not> generateOnly \<and> \<not> exists fromAddress then Err (ParamError ''from'' ParamTypeCliFlag [] AccountNotFound)
      else Ok fromAddress)"

definition ParseDepositFlag :: "cli_lib \<Rightarrow> string option \<Rightarrow> (param_error, coin list) res" where
  "ParseDepositFlag C flag =
     (case flag of
        None \<Rightarrow> Err (ParamError ''deposit'' ParamTypeCliFlag [] ParsingFailed)
      | Some depositStr \<Rightarrow>
          (case cl_ParseCoins C depositStr of
             None \<Rightarrow> Err (ParamError ''deposit'' ParamTypeCliFlag depositStr ParsingFailed)
           | Some deposit \<Rightarrow> Ok deposit))"

definition parseUint :: "sdk \<Rightarrow> cli_lib \<Rightarrow> ParamType \<Rightarrow> string \<Rightarrow> string \<Rightarrow> (param_error, nat) res" where
  "parseUint S C paramType paramName paramValue =
     (case cl_NewIntFromString C paramValue of
        None \<Rightarrow> Err (ParamError paramName paramType paramValue ParsingFailed)
      | Some valueInt \<Rightarrow>
          if valueInt < 1 then Err (ParamError paramName paramType paramValue LessThanOne)
          else from_opt (uint_of_big S valueInt))"

definition ParsePaginationParams :: "sdk \<Rightarrow> cli_lib \<Rightarrow> string \<Rightarrow> string \<Rightarrow> ParamType \<Rightarrow> (param_error, nat \<times> nat) res" where
  "ParsePaginationParams S C pageStr limitStr paramType =
     (let pageStr' = (if pageStr = [] then ''1'' else pageStr);
          limitStr' = (if limitStr = [] then ''100'' else limitStr) in
      bind_res (parseUint S C paramType ''page'' pageStr') (\<lambda>page.
      bind_res (parseUint S C paramType ''limit'' limitStr') (\<lambda>limit. Ok (page, limit))))"

definition ParseSdkIntParam :: "cli_lib \<Rightarrow> string \<Rightarrow> string \<Rightarrow> ParamType \<Rightarrow> (param_error, int) res" where
  "ParseSdkIntParam C argName argValue paramType =
     (case cl_NewIntFromString C argValue of None \<Rightarrow> Err (ParamError argName paramType argValue ParsingFailed) | Some v \<Rightarrow> Ok v)"

definition ParseSdkDecParam :: "cli_lib \<Rightarrow> string \<Rightarrow> string \<Rightarrow> ParamType \<Rightarrow> (param_error, int) res" where
  "ParseSdkDecParam C argName argValue paramType =
     (case cl_NewDecFromStr C argValue of None \<Rightarrow> Err (ParamError argName paramType argValue ParsingFailed) | Some v \<Rightarrow> Ok v)"

definition ParseSdkUintParam :: "sdk \<Rightarrow> cli_lib \<Rightarrow> string \<Rightarrow> string \<Rightarrow> ParamType \<Rightarrow> (param_error, nat) res" where
  "ParseSdkUintParam S C argName argValue paramType =
     (case cl_NewIntFromString C argValue of
        None \<Rightarrow> Err (ParamError argName paramType argValue ParsingFailed)
      | Some vInt \<Rightarrow> if vInt < 0 then Err (ParamError argName paramType argValue LessThanZero) else from_opt (uint_of_big S vInt))"

definition ParseUint8Param :: "string \<Rightarrow> string \<Rightarrow> ParamType \<Rightarrow> (param_error, 8 word) res" where
  "ParseUint8Param argName argValue paramType =
     (case ParseUint 8 argValue of None \<Rightarrow> Err (ParamError argName paramType argValue ParsingFailed) | Some v \<Rightarrow> Ok (of_nat v))"

definition ParseUint64Param :: "string \<Rightarrow> string \<Rightarrow> ParamType \<Rightarrow> (param_error, 64 word) res" where
  "ParseUint64Param argName argValue paramType =
     (case ParseUint 64 argValue of None \<Rightarrow> Err (ParamError argName paramType argValue ParsingFailed) | Some v \<Rightarrow> Ok (of_nat v))"

definition ParseInt64Param :: "string \<Rightarrow> string \<Rightarrow> ParamType \<Rightarrow> (param_error, 64 word) res" where
  "ParseInt64Param argName argValue paramType =
     (case parse_int64 argValue of None \<Rightarrow> Err (ParamError argName paramType argValue ParsingFailed) | Some v \<Rightarrow> Ok (word_of_int v))"

text \<open>The deferred function turns an empty address into an error.\<close>

definition ParseSdkAddressParam :: "cli_lib \<Rightarrow> string \<Rightarrow> string \<Rightarrow> ParamType \<Rightarrow> (param_error, bytes) res" where
  "ParseSdkAddressParam C argName argValue paramType =
     (let retAddr = (case cl_AccAddressFromBech32 C argValue of
                       Some v \<Rightarrow> v
                     | None \<Rightarrow> (case cl_AccAddressFromHex C (TrimPrefix argValue ''0x'') of Some v \<Rightarrow> v | None \<Rightarrow> [])) in
      if retAddr = [] then Err (ParamError argName paramType argValue ParsingFailed) else Ok retAddr)"

fun parse_addresses :: "cli_lib \<Rightarrow> ParamType \<Rightarrow> nat \<Rightarrow> string list \<Rightarrow> (param_error, bytes list) res" where
  "parse_addresses C paramType i [] = Ok []"
| "parse_addresses C paramType i (addressStr # strs) =
     bind_res (ParseSdkAddressParam C (''address['' @ dec_digits i @ '']'') (cl_TrimSpace C addressStr) paramType) (\<lambda>addr.
     bind_res (parse_addresses C paramType (i + 1) strs) (\<lambda>addrs. Ok (addr # addrs)))"

definition ParseSdkAddressesParams :: "cli_lib \<Rightarrow> string \<Rightarrow> string \<Rightarrow> ParamType \<Rightarrow> (param_error, bytes list) res" where
  "ParseSdkAddressesParams C argName argValue paramType =
     (case parse_addresses C paramType 0 (split_on CHR '','' argValue) of
        Ok addrs \<Rightarrow> Ok addrs
      | Err e \<Rightarrow> Err (ParamError argName paramType argValue (InElement e))
      | Panic \<Rightarrow> Panic)"

definition ParseEthereumAddressParam :: "string \<Rightarrow> string \<Rightarrow> ParamType \<Rightarrow> (param_error, string) res" where
  "ParseEthereumAddressParam argName argValue paramType =
     (if \<not> IsEthereumAddress argValue then Err (ParamError argName paramType argValue BadEthereumAddress) else Ok argValue)"

definition ParseDnIDParam :: "sdk \<Rightarrow> string \<Rightarrow> string \<Rightarrow> ParamType \<Rightarrow> (param_error, ID) res" where
  "ParseDnIDParam S argName argValue paramType =
     (case NewIDFromString S argValue of Ok i \<Rightarrow> Ok i | Err e \<Rightarrow> Err (ParamError argName paramType argValue (BadID e)) | Panic \<Rightarrow> Panic)"

definition ValidateDenomParam :: "sdk \<Rightarrow> string \<Rightarrow> string \<Rightarrow> ParamType \<Rightarrow> (param_error, unit) res" where
  "ValidateDenomParam S argName argValue paramType =
     (case DenomFilter S argValue of Ok _ \<Rightarrow> Ok () | Err e \<Rightarrow> Err (ParamError argName paramType argValue (BadFilter e)) | Panic \<Rightarrow> Panic)"

definition ParseHexStringParam :: "string \<Rightarrow> string \<Rightarrow> ParamType \<Rightarrow> (param_error, string \<times> bytes) res" where
  "ParseHexStringParam argName argValue paramType =
     (let argValueNorm = TrimPrefix argValue ''0x'' in
      case DecodeString argValueNorm of
        None \<Rightarrow> Err (ParamError argName paramType argValue ParsingFailed)
      | Some argValueBytes \<Rightarrow> Ok (argValueNorm, argValueBytes))"

definition ParseAssetCodeParam :: "cli_lib \<Rightarrow> string \<Rightarrow> string \<Rightarrow> ParamType \<Rightarrow> (param_error, AssetCode) res" where
  "ParseAssetCodeParam C argName argValue paramType =
     (let assetCode = cl_ToLower C argValue in
      case AssetCode_Validate assetCode of
        Ok _ \<Rightarrow> Ok assetCode
      | Err e \<Rightarrow> Err (ParamError argName paramType argValue (BadFilter e))
      | Panic \<Rightarrow> Panic)"

text \<open>A panic of the parser is recovered.\<close>

definition ParseCoinParam :: "sdk \<Rightarrow> cli_lib \<Rightarrow> string \<Rightarrow> string \<Rightarrow> ParamType \<Rightarrow> (param_error, coin) res" where
  "ParseCoinParam S C argName argValue paramType =
     (case cl_ParseCoin C argValue of
        Ok coin \<Rightarrow>
          (case DenomFilter S (fst coin) of
             Ok _ \<Rightarrow> if snd coin < 0 then Err (ParamError argName paramType argValue LessThanZero) else Ok coin
           | Err e \<Rightarrow> Err (ParamError argName paramType argValue (BadFilter e))
           | Panic \<Rightarrow> Err (ParamError argName paramType argValue ParsingFailed))
      | _ \<Rightarrow> Err (ParamError argName paramType argValue ParsingFailed))"

text \<open>\<open>Int64\<close> panics on a number of more than 64 bits.\<close>

definition ParseUnixTimestamp :: "cli_lib \<Rightarrow> string \<Rightarrow> string \<Rightarrow> ParamType \<Rightarrow> (param_error, int) res" where
  "ParseUnixTimestamp C argName argValue paramType =
     bind_res (ParseSdkIntParam C argName argValue paramType) (\<lambda>ts.
       if - (2 ^ 63) \<le> ts \<and> ts < 2 ^ 63 then Ok (cl_Canonical C (time_Unix ts)) else Panic)"

definition ParseFilePath :: "cli_lib \<Rightarrow> string \<Rightarrow> string \<Rightarrow> ParamType \<Rightarrow> (param_error, bytes) res" where
  "ParseFilePath C argName argValue paramType =
     (case cl_Open C argValue of
        None \<Rightarrow> Err (ParamError argName paramType argValue FileOpen)
      | Some None \<Rightarrow> Err (ParamError argName paramType argValue FileRead)
      | Some (Some content) \<Rightarrow> Ok content)"

definition CheckFileExists :: "cli_lib \<Rightarrow> string \<Rightarrow> string \<Rightarrow> ParamType \<Rightarrow> (param_error, unit) res" where
  "CheckFileExists C argName argValue paramType =
     (case cl_Stat C argValue of
        NoFile \<Rightarrow> Err (ParamError argName paramType argValue FileNotFound)
      | StatFails \<Rightarrow> Err (ParamError argName paramType argValue FileStats)
      | Directory \<Rightarrow> Err (ParamError argName paramType argValue FileIsDirectory)
      | RegularFile \<Rightarrow> Ok ())"

text \<open>The help of a command; \<open>None\<close> is the panic.\<close>

definition BuildCmdHelp :: "string \<Rightarrow> string \<Rightarrow> string list \<Rightarrow> string option" where
  "BuildCmdHelp use short argDescriptions =
     (let args = tl (split_on CHR '' '' use) in
      if length argDescriptions \<noteq> length args then None
      else Some (short @ '':'' @ [CHR 0x0A] @ concat (map2 (\<lambda>arg argDesc. ''  '' @ arg @ '' - '' @ argDesc @ [CHR 0x0A]) args argDescriptions)))"

section \<open>Arguments of scripts\<close>

text \<open>The numbers of the type tags, from the generated protocol.\<close>

record vm_tags =
  tag_Bool :: int
  tag_U64 :: int
  tag_Vector :: int
  tag_Address :: int
  tag_U8 :: int
  tag_U128 :: int

definition tags_distinct :: "vm_tags \<Rightarrow> bool" where
  "tags_distinct T \<longleftrightarrow> distinct [tag_Bool T, tag_U64 T, tag_Vector T, tag_Address T, tag_U8 T, tag_U128 T]"

datatype arg_error = ArgEmpty | ArgParsing | ArgBitLen | ArgHashLength | ArgUnsupported | ArgLengthMismatch | ArgAt nat arg_error

definition parseXxHashUint :: "cli_lib \<Rightarrow> string \<Rightarrow> (arg_error, string) res" where
  "parseXxHashUint C v =
     (case v of
        [] \<Rightarrow> Err ArgEmpty
      | c # cs \<Rightarrow>
          if c = CHR ''#'' then
            (if length v < 2 then Err ArgHashLength else Ok (dec_digits (unat (cl_XxHash C (cl_ToLower C cs)))))
          else Ok v)"

definition NewAddressScriptArg :: "cli_lib \<Rightarrow> vm_tags \<Rightarrow> string \<Rightarrow> (arg_error, ScriptArg) res" where
  "NewAddressScriptArg C T v =
     (if v = [] then Err ArgEmpty
      else (case cl_AccAddressFromBech32 C v of
              None \<Rightarrow> Err ArgParsing
            | Some addr \<Rightarrow> Ok \<lparr>sa_Type = tag_Address T, sa_Value = Bech32ToLibra addr\<rparr>))"

definition NewU8ScriptArg :: "cli_lib \<Rightarrow> vm_tags \<Rightarrow> string \<Rightarrow> (arg_error, ScriptArg) res" where
  "NewU8ScriptArg C T v =
     bind_res (parseXxHashUint C v) (\<lambda>hashParsedValue.
       case ParseUint 8 hashParsedValue of
         None \<Rightarrow> Err ArgParsing
       | Some uintValue \<Rightarrow> Ok \<lparr>sa_Type = tag_U8 T, sa_Value = [char_of uintValue]\<rparr>)"

text \<open>\<open>PutUint64\<close> of the little-endian order writes the bytes of \<open>be64\<close> backwards.\<close>

definition NewU64ScriptArg :: "cli_lib \<Rightarrow> vm_tags \<Rightarrow> string \<Rightarrow> (arg_error, ScriptArg) res" where
  "NewU64ScriptArg C T v =
     bind_res (parseXxHashUint C v) (\<lambda>hashParsedValue.
       case ParseUint 64 hashParsedValue of
         None \<Rightarrow> Err ArgParsing
       | Some uintValue \<Rightarrow> Ok \<lparr>sa_Type = tag_U64 T, sa_Value = rev (be64 uintValue)\<rparr>)"

text \<open>The loop swaps the bytes from both ends; \<open>NewUintFromString\<close> panics on a string that is no number, which is recovered.\<close>

definition u128_value :: "nat \<Rightarrow> bytes" where
  "u128_value bigIntValue =
     (let argValue = swap_loop 0 (big_bytes bigIntValue) in
      if length argValue < 16 then argValue @ replicate (16 - length argValue) (char_of (0 :: nat)) else argValue)"

definition NewU128ScriptArg :: "sdk \<Rightarrow> cli_lib \<Rightarrow> vm_tags \<Rightarrow> string \<Rightarrow> (arg_error, ScriptArg) res" where
  "NewU128ScriptArg S C T v =
     bind_res (parseXxHashUint C v) (\<lambda>hashParsedValue.
       case uint_parse S hashParsedValue of
         None \<Rightarrow> Err ArgParsing
       | Some bigIntValue \<Rightarrow>
           if 2 ^ 128 \<le> bigIntValue then Err ArgBitLen
           else Ok \<lparr>sa_Type = tag_U128 T, sa_Value = u128_value bigIntValue\<rparr>)"

definition NewVectorScriptArg :: "vm_tags \<Rightarrow> string \<Rightarrow> (arg_error, ScriptArg) res" where
  "NewVectorScriptArg T v =
     (if v = [] then Err ArgEmpty
      else (case DecodeString (TrimPrefix v ''0x'') of
              None \<Rightarrow> Err ArgParsing
            | Some argValue \<Rightarrow> Ok \<lparr>sa_Type = tag_Vector T, sa_Value = argValue\<rparr>))"

definition NewBoolScriptArg :: "vm_tags \<Rightarrow> string \<Rightarrow> (arg_error, ScriptArg) res" where
  "NewBoolScriptArg T v =
     (case ParseBool v of
        None \<Rightarrow> Err ArgParsing
      | Some b \<Rightarrow> Ok \<lparr>sa_Type = tag_Bool T, sa_Value = [char_of (if b then 1 else 0 :: nat)]\<rparr>)"

definition convert_arg :: "sdk \<Rightarrow> cli_lib \<Rightarrow> vm_tags \<Rightarrow> string \<Rightarrow> int \<Rightarrow> (arg_error, ScriptArg) res" where
  "convert_arg S C T argStr argType =
     (if argType = tag_Address T then NewAddressScriptArg C T argStr
      else if argType = tag_U8 T then NewU8ScriptArg C T argStr
      else if argType = tag_U64 T then NewU64ScriptArg C T argStr
      else if argType = tag_U128 T then NewU128ScriptArg S C T argStr
      else if argType = tag_Bool T then NewBoolScriptArg T argStr
      else if argType = tag_Vector T then NewVectorScriptArg T argStr
      else Err ArgUnsupported)"

fun convert_args :: "sdk \<Rightarrow> cli_lib \<Rightarrow> vm_tags \<Rightarrow> nat \<Rightarrow> (string \<times> int) list \<Rightarrow> (arg_error, ScriptArg list) res" where
  "convert_args S C T argIdx [] = Ok []"
| "convert_args S C T argIdx ((argStr, argType) # args) =
     (case convert_arg S C T argStr argType of
        Ok scriptArg \<Rightarrow> bind_res (convert_args S C T (argIdx + 1) args) (\<lambda>scriptArgs. Ok (scriptArg # scriptArgs))
      | Err e \<Rightarrow> Err (ArgAt argIdx e)
      | Panic \<Rightarrow> Panic)"

definition ConvertStringScriptArguments :: "sdk \<Rightarrow> cli_lib \<Rightarrow> vm_tags \<Rightarrow> string list \<Rightarrow> int list \<Rightarrow> (arg_error, ScriptArg list) res" where
  "ConvertStringScriptArguments S C T argStrs argTypes =
     (if length argStrs \<noteq> length argTypes then Err ArgLengthMismatch
      else convert_args S C T 0 (zip argStrs argTypes))"

section \<open>Numbers\<close>

lemma dec_digits_digits [simp]: "list_all is_digit (dec_digits n)"
  using dec_digits_chars by (auto simp: list_all_iff is_digit_def)

lemma ParseUint_digits [simp]: "ParseUint b (dec_digits n) = (if n < 2 ^ b then Some n else None)"
  by (simp add: ParseUint_def dec_value_digits)

lemma ParseUint_bound: "ParseUint b t = Some n \<Longrightarrow> n < 2 ^ b"
  by (auto simp: ParseUint_def split: if_splits)

lemma parseXxHashUint_digits [simp]: "parseXxHashUint C (dec_digits n) = Ok (dec_digits n)"
proof -
  obtain c cs where d: "dec_digits n = c # cs" by (cases "dec_digits n") simp_all
  then have "c \<noteq> CHR ''#''" using dec_digits_chars [of c n] by auto
  with d show ?thesis by (simp add: parseXxHashUint_def)
qed

text \<open>The little-endian value of a byte string.\<close>

definition le_value :: "bytes \<Rightarrow> nat" where
  "le_value bs = be_to_nat 0 (rev bs)"

lemma le_value_byte: "n < 256 \<Longrightarrow> le_value [char_of n] = n"
  by (simp add: le_value_def)

lemma le_value_be64: "n < 2 ^ 64 \<Longrightarrow> le_value (rev (be64 n)) = n"
  by (simp add: le_value_def be64_roundtrip)

lemma u128_bytes:
  assumes "n < 2 ^ 128"
  shows "length (u128_value n) = 16" and "le_value (u128_value n) = n"
proof -
  have "length (big_bytes n) \<le> 16" using length_big_bytes [of n 16] assms by simp
  then show "length (u128_value n) = 16" by (simp add: u128_value_def Let_def swap_loop_rev)
  show "le_value (u128_value n) = n" by (simp add: u128_value_def Let_def le_value_def swap_loop_rev be_to_nat_zeros be_to_nat_big_bytes)
qed

lemma arg_results:
  "NewAddressScriptArg C T v = Ok a \<Longrightarrow> v \<noteq> [] \<and> (\<exists>x. cl_AccAddressFromBech32 C v = Some x \<and> a = \<lparr>sa_Type = tag_Address T, sa_Value = x\<rparr>)"
  "NewU8ScriptArg C T v = Ok a \<Longrightarrow> sa_Type a = tag_U8 T \<and> length (sa_Value a) = 1"
  "NewU64ScriptArg C T v = Ok a \<Longrightarrow> sa_Type a = tag_U64 T \<and> length (sa_Value a) = 8"
  "NewU128ScriptArg S C T v = Ok a \<Longrightarrow> sa_Type a = tag_U128 T \<and> length (sa_Value a) = 16"
  "NewBoolScriptArg T v = Ok a \<Longrightarrow> sa_Type a = tag_Bool T \<and> (sa_Value a = [char_of (0 :: nat)] \<or> sa_Value a = [char_of (1 :: nat)])"
  "NewVectorScriptArg T v = Ok a \<Longrightarrow> sa_Type a = tag_Vector T"
  by (auto simp: NewAddressScriptArg_def NewU8ScriptArg_def NewU64ScriptArg_def NewU128ScriptArg_def NewBoolScriptArg_def NewVectorScriptArg_def bind_res_Ok_iff
      Bech32ToLibra_def u128_bytes(1) split: if_splits option.splits)

lemma arg_not_Panic:
  "NewAddressScriptArg C T v \<noteq> Panic" "NewU8ScriptArg C T v \<noteq> Panic" "NewU64ScriptArg C T v \<noteq> Panic" "NewU128ScriptArg S C T v \<noteq> Panic"
  "NewBoolScriptArg T v \<noteq> Panic" "NewVectorScriptArg T v \<noteq> Panic"
proof -
  have "parseXxHashUint C v \<noteq> Panic" by (simp add: parseXxHashUint_def split: list.splits)
  then show "NewU8ScriptArg C T v \<noteq> Panic" "NewU64ScriptArg C T v \<noteq> Panic" "NewU128ScriptArg S C T v \<noteq> Panic"
    by (auto simp: NewU8ScriptArg_def NewU64ScriptArg_def NewU128ScriptArg_def bind_res_Panic_iff split: option.splits if_splits)
qed (simp_all add: NewAddressScriptArg_def NewBoolScriptArg_def NewVectorScriptArg_def split: option.splits)

text \<open>The width of the values of a type, and the numbers they stand for.\<close>

definition arg_ok :: "vm_tags \<Rightarrow> int \<Rightarrow> bytes \<Rightarrow> bool" where
  "arg_ok T t bs \<longleftrightarrow>
     (if t = tag_Address T then length bs = 20
      else if t = tag_U8 T then length bs = 1
      else if t = tag_U64 T then length bs = 8
      else if t = tag_U128 T then length bs = 16
      else if t = tag_Bool T then bs = [char_of (0 :: nat)] \<or> bs = [char_of (1 :: nat)]
      else t = tag_Vector T)"

lemma convert_arg_ok:
  assumes "cli_laws C" "tags_distinct T" and r: "convert_arg S C T v t = Ok a"
  shows "sa_Type a = t \<and> arg_ok T t (sa_Value a)"
proof -
  have addr: "length x = 20" if "v \<noteq> []" "cl_AccAddressFromBech32 C v = Some x" for x using assms(1) that by (auto simp: cli_laws_def)
  show ?thesis
    using r assms(2) unfolding convert_arg_def arg_ok_def tags_distinct_def
    by (auto split: if_splits dest!: arg_results dest: addr)
qed

lemma convert_args_ok:
  assumes "cli_laws C" "tags_distinct T"
  shows "convert_args S C T i ps = Ok args \<Longrightarrow> map sa_Type args = map snd ps \<and> (\<forall>a \<in> set args. arg_ok T (sa_Type a) (sa_Value a))"
proof (induction ps arbitrary: i args)
  case (Cons p ps)
  obtain v t where p: "p = (v, t)" by (cases p)
  from Cons.prems obtain a as where a: "convert_arg S C T v t = Ok a" and as: "convert_args S C T (i + 1) ps = Ok as" and args: "args = a # as"
    by (auto simp: p bind_res_Ok_iff split: res.splits)
  from convert_arg_ok [OF assms a] Cons.IH [OF as] show ?case by (simp add: p args)
qed simp

text \<open>Which decimal numbers an integer type accepts.\<close>

lemma convert_number:
  assumes "parse_laws S" "tags_distinct T" "n < 2 ^ 256" "(t, w) \<in> {(tag_U8 T, 8), (tag_U64 T, 64), (tag_U128 T, 128)}"
  shows "if n < 2 ^ w then \<exists>bs. convert_arg S C T (dec_digits n) t = Ok \<lparr>sa_Type = t, sa_Value = bs\<rparr> \<and> le_value bs = n
    else \<exists>e. convert_arg S C T (dec_digits n) t = Err e"
proof -
  have u8: "NewU8ScriptArg C T (dec_digits n) = (if n < 2 ^ 8 then Ok \<lparr>sa_Type = tag_U8 T, sa_Value = [char_of n]\<rparr> else Err ArgParsing)"
    and u64: "NewU64ScriptArg C T (dec_digits n) = (if n < 2 ^ 64 then Ok \<lparr>sa_Type = tag_U64 T, sa_Value = rev (be64 n)\<rparr> else Err ArgParsing)"
    by (simp_all add: NewU8ScriptArg_def NewU64ScriptArg_def)
  have u128: "NewU128ScriptArg S C T (dec_digits n) = (if n < 2 ^ 128 then Ok \<lparr>sa_Type = tag_U128 T, sa_Value = u128_value n\<rparr> else Err ArgBitLen)"
    using assms(1,3) by (simp add: NewU128ScriptArg_def parse_laws_def)
  have tags: "tag_U8 T \<noteq> tag_Address T" "tag_U64 T \<noteq> tag_Address T" "tag_U64 T \<noteq> tag_U8 T" "tag_U128 T \<noteq> tag_Address T" "tag_U128 T \<noteq> tag_U8 T" "tag_U128 T \<noteq> tag_U64 T"
    using assms(2) by (auto simp: tags_distinct_def)
  consider "t = tag_U8 T" "w = 8" | "t = tag_U64 T" "w = 64" | "t = tag_U128 T" "w = 128" using assms(4) by blast
  then show ?thesis
    by cases (simp_all add: convert_arg_def u8 u64 u128 tags u128_bytes(2) le_value_byte le_value_be64)
qed


text \<open>The laws hold together, and a script with an amount and a flag.\<close>

definition ref_cli :: cli_lib where
  "ref_cli = \<lparr>
     cl_NewIntFromString = (\<lambda>t. case ref_parse t of Some n \<Rightarrow> if n < 2 ^ 255 then Some (int n) else None | None \<Rightarrow> None),
     cl_NewDecFromStr = (\<lambda>t. map_option (\<lambda>n. int n * dec_one) (ref_parse t)),
     cl_AccAddressFromBech32 = (\<lambda>t. if length t = 20 then Some t else None),
     cl_AccAddressFromHex = (\<lambda>t. case DecodeString t of Some a \<Rightarrow> if length a = 20 then Some a else None | None \<Rightarrow> None),
     cl_ParseCoin = (\<lambda>t. Err ()),
     cl_ParseCoins = (\<lambda>t. None),
     cl_ToLower = id, cl_TrimSpace = id, cl_Canonical = id,
     cl_XxHash = (\<lambda>t. of_nat (length t)),
     cl_Open = (\<lambda>t. None), cl_Stat = (\<lambda>t. NoFile) \<rparr>"

lemma ref_cli_laws: "cli_laws ref_cli"
proof -
  have "ref_parse (dec_digits n) = (if n < 2 ^ 256 then Some n else None)" for n
    using dec_digits_chars by (force simp: ref_parse_def dec_value_digits list_all_iff)
  then show ?thesis by (auto simp: cli_laws_def ref_cli_def split: option.splits if_splits)
qed

definition ref_tags :: vm_tags where
  "ref_tags = \<lparr>tag_Bool = 0, tag_U64 = 1, tag_Vector = 2, tag_Address = 3, tag_U8 = 4, tag_U128 = 5\<rparr>"

lemma ref_tags_distinct: "tags_distinct ref_tags"
  by (simp add: tags_distinct_def ref_tags_def)


section \<open>Further facts\<close>

text \<open>A page that was parsed is never refused by the pagination of a query.\<close>

lemma parsed_page_accepted:
  assumes "uint_laws S" "ParsePaginationParams S C pageStr limitStr paramType = Ok (page, limit)"
  shows "1 \<le> page \<and> 1 \<le> limit \<and> (\<forall>e. PaginateSlice (int n) page limit \<noteq> Err e)"
proof -
  have "1 \<le> page" "1 \<le> limit"
    using assms by (auto simp: ParsePaginationParams_def parseUint_def bind_res_Ok_iff Let_def uint_of_big_law split: option.splits if_splits)
  then show ?thesis by (cases "uint64_of page"; cases "uint64_of limit") (auto simp: PaginateSlice_def Let_def split: if_splits)
qed

text \<open>
  A number is parsed as an \<open>sdk.Uint\<close> exactly if it has at most 255 bits, although the type holds 256: the string is read as an \<open>sdk.Int\<close> first.
\<close>

lemma parse_uint_exact:
  assumes "uint_laws S" "cli_laws C"
  shows "ParseSdkUintParam S C argName (dec_digits n) paramType =
    (if n < 2 ^ 255 then Ok n else Err (ParamError argName paramType (dec_digits n) ParsingFailed))"
  using assms by (simp add: ParseSdkUintParam_def cli_laws_def uint_of_big_law)

text \<open>A timestamp of more than 64 bits is not refused but panics.\<close>

lemma parse_timestamp_panics:
  assumes "cli_laws C" and "2 ^ 63 \<le> n" "n < 2 ^ 255"
  shows "ParseUnixTimestamp C argName (dec_digits n) paramType = Panic"
  using assms by (simp add: ParseUnixTimestamp_def ParseSdkIntParam_def cli_laws_def)

text \<open>An empty vector is accepted by the clients and then refused by the validation of the message, so that no script can be called with one.\<close>

lemma empty_vector_refused:
  assumes "tags_distinct T" and "tags (tag_Vector T)"
  shows "ConvertStringScriptArguments S C T [''0x''] [tag_Vector T] = Ok [\<lparr>sa_Type = tag_Vector T, sa_Value = []\<rparr>] \<and>
    validate_args tags [\<lparr>sa_Type = tag_Vector T, sa_Value = []\<rparr>] = Err VmErrWrongArgValue"
  using assms
  by (auto simp: ConvertStringScriptArguments_def convert_arg_def tags_distinct_def NewVectorScriptArg_def TrimPrefix_def)

end
