(* ===== verification/VM_View.thy ===== *)
theory VM_View
  imports ClientArgs
begin

text \<open>
  The viewer of serialised data (\<open>x/vm/internal/keeper/lcs_viewer.go\<close>) and the queries of \<open>x/vm\<close>: a request describes the fields of a structure, the viewer builds
  the type of the structure from it and decodes the data with that type.
\<close>

section \<open>Types of fields\<close>

type_synonym ViewerType = string

datatype ViewerItem = ViewerItem (vi_Name: string) (vi_Type: ViewerType) (vi_InnerItem: "ViewerItem list option")

type_synonym ViewerRequest = "ViewerItem list"

text \<open>The types that \<open>reflect\<close> is asked for.\<close>

datatype rtype = RU8 | RU64 | RBigInt | RBool | RAddress | RStruct "(string \<times> rtype) list" | RSlice rtype

text \<open>
  \<open>lv_Title\<close> and \<open>lv_ToLower\<close> are functions of \<open>strings\<close> over the Unicode tables, \<open>lv_Exported\<close> tells whether a name is one of an exported field. \<open>lv_Unmarshal\<close>
  decodes serialised data, \<open>lv_MarshalIndent\<close> prints a value, \<open>lv_StructVector\<close> and \<open>lv_ModuleVector\<close> are paths of \<open>glav\<close>.
\<close>

record 'v viewer_lib =
  lv_ToLower :: "string \<Rightarrow> string"
  lv_Title :: "string \<Rightarrow> string"
  lv_Exported :: "string \<Rightarrow> bool"
  lv_Unmarshal :: "rtype \<Rightarrow> bytes \<Rightarrow> 'v option"
  lv_MarshalIndent :: "'v \<Rightarrow> string option"
  lv_StructVector :: "bytes \<Rightarrow> string \<Rightarrow> string \<Rightarrow> bytes"
  lv_ModuleVector :: "bytes \<Rightarrow> string \<Rightarrow> bytes"

datatype view_error = ViewEmptyName | ViewInnerNil | ViewInnerOne | ViewUnknownType | ViewField string view_error | ViewInner view_error | ViewUnmarshal | ViewMarshal

text \<open>\<open>reflect.StructOf\<close> panics if a field is not exported or two fields have the same name.\<close>

definition StructOf :: "'v viewer_lib \<Rightarrow> (string \<times> rtype) list \<Rightarrow> ('e, rtype) res" where
  "StructOf L fs = (if list_all (lv_Exported L) (map fst fs) \<and> distinct (map fst fs) then Ok (RStruct fs) else Panic)"

fun getFieldReflectType :: "'v viewer_lib \<Rightarrow> ViewerItem \<Rightarrow> (view_error, rtype) res"
and struct_fields :: "'v viewer_lib \<Rightarrow> ViewerRequest \<Rightarrow> (view_error, (string \<times> rtype) list) res" where
  "getFieldReflectType L (ViewerItem name type inner) =
     (if type = ''U8'' then Ok RU8
      else if type = ''U64'' then Ok RU64
      else if type = ''U128'' then Ok RBigInt
      else if type = ''bool'' then Ok RBool
      else if type = ''address'' then Ok RAddress
      else if type = ''struct'' then
        (case inner of None \<Rightarrow> Err ViewInnerNil | Some request \<Rightarrow> bind_res (struct_fields L request) (StructOf L))
      else if type = ''vector'' then
        (case inner of
           None \<Rightarrow> Err ViewInnerNil
         | Some [item] \<Rightarrow>
             (case getFieldReflectType L item of Ok sliceType \<Rightarrow> Ok (RSlice sliceType) | Err e \<Rightarrow> Err (ViewInner e) | Panic \<Rightarrow> Panic)
         | _ \<Rightarrow> Err ViewInnerOne)
      else Err ViewUnknownType)"
| "struct_fields L [] = Ok []"
| "struct_fields L (ViewerItem name type inner # items) =
     (if name = [] then Err (ViewField name ViewEmptyName)
      else let fieldName = lv_Title L (lv_ToLower L name) in
        (case getFieldReflectType L (ViewerItem name type inner) of
           Ok fieldType \<Rightarrow> bind_res (struct_fields L items) (\<lambda>fs. Ok ((fieldName, fieldType) # fs))
         | Err e \<Rightarrow> Err (ViewField name e)
         | Panic \<Rightarrow> Panic))"

definition getStructReflectType :: "'v viewer_lib \<Rightarrow> ViewerRequest \<Rightarrow> (view_error, rtype) res" where
  "getStructReflectType L request = bind_res (struct_fields L request) (StructOf L)"

definition StringifyLCSData :: "'v viewer_lib \<Rightarrow> ViewerRequest \<Rightarrow> bytes \<Rightarrow> (view_error, string) res" where
  "StringifyLCSData L request lcsData =
     bind_res (getStructReflectType L request) (\<lambda>structType.
       case lv_Unmarshal L structType lcsData of
         None \<Rightarrow> Err ViewUnmarshal
       | Some v \<Rightarrow> (case lv_MarshalIndent L v of None \<Rightarrow> Err ViewMarshal | Some output \<Rightarrow> Ok output))"

section \<open>Queries\<close>

text \<open>
  The address of a request is a slice of bytes; \<open>lq_Spare\<close> is what its array holds beyond the length, which the expression \<open>[:20]\<close> may reach into. It panics if
  there are not 20 bytes in all.
\<close>

record LcsViewReq =
  lq_Address :: bytes
  lq_Spare :: bytes
  lq_ModuleName :: string
  lq_StructName :: string
  lq_ViewRequest :: ViewerRequest

datatype vm_query_error = VQUnknownRequest | VQParams | VQNotFound | VQView view_error

definition queryLcsView :: "'v viewer_lib \<Rightarrow> vm_meta \<Rightarrow> vm_block \<Rightarrow> LcsViewReq \<Rightarrow> vm_store \<Rightarrow> (vm_query_error, string) res" where
  "queryLcsView L M ctx request st =
     (let bs = Bech32ToLibra (lq_Address request) @ lq_Spare request in
      if length bs < 20 then Panic
      else
        let addrLibra = take 20 bs;
            resPath = (if lq_StructName request \<noteq> [] then lv_StructVector L addrLibra (lq_ModuleName request) (lq_StructName request)
                       else lv_ModuleVector L addrLibra (lq_ModuleName request)) in
        (case GetValueWithMiddlewares M ctx \<lparr>ap_Address = lq_Address request, ap_Path = resPath\<rparr> st of
           None \<Rightarrow> Err VQNotFound
         | Some resData \<Rightarrow>
             (case StringifyLCSData L (lq_ViewRequest request) resData of Ok resp \<Rightarrow> Ok resp | Err e \<Rightarrow> Err (VQView e) | Panic \<Rightarrow> Panic)))"

definition Vm_NewQuerier ::
  "'v viewer_lib \<Rightarrow> vm_meta \<Rightarrow> (bytes \<Rightarrow> (bytes \<times> bytes) option) \<Rightarrow> (bytes \<Rightarrow> LcsViewReq option) \<Rightarrow> vm_block \<Rightarrow> string list \<Rightarrow> bytes \<Rightarrow> vm_store \<Rightarrow>
   (vm_query_error, bytes option) res" where
  "Vm_NewQuerier L M ValueReq_un LcsViewReq_un ctx path data st =
     (case path of
        [] \<Rightarrow> Panic
      | p # _ \<Rightarrow>
          if p = ''value'' then
            (case ValueReq_un data of None \<Rightarrow> Err VQParams | Some (address, pth) \<Rightarrow> Ok (queryGetValue M ctx address pth st))
          else if p = ''lcsView'' then
            (case LcsViewReq_un data of None \<Rightarrow> Err VQParams | Some request \<Rightarrow> bind_res (queryLcsView L M ctx request st) (Ok \<circ> Some))
          else Err VQUnknownRequest)"

section \<open>Requests without nested structures\<close>

definition basic_types :: "(string \<times> rtype) list" where
  "basic_types = [(''U8'', RU8), (''U64'', RU64), (''U128'', RBigInt), (''bool'', RBool), (''address'', RAddress)]"

lemma field_basic: "map_of basic_types (vi_Type item) = Some t \<Longrightarrow> getFieldReflectType L item = Ok t"
  by (cases item) (auto simp: basic_types_def split: if_splits)

lemma struct_fields_basic:
  assumes "\<And>item. item \<in> set request \<Longrightarrow> vi_Name item \<noteq> [] \<and> map_of basic_types (vi_Type item) = Some (ty item)"
  shows "struct_fields L request = Ok (map (\<lambda>item. (lv_Title L (lv_ToLower L (vi_Name item)), ty item)) request)"
  using assms
proof (induction request)
  case (Cons item request)
  obtain name type inner where item: "item = ViewerItem name type inner" by (cases item)
  have "getFieldReflectType L item = Ok (ty item)" by (rule field_basic) (simp add: Cons.prems)
  moreover have "struct_fields L request = Ok (map (\<lambda>item. (lv_Title L (lv_ToLower L (vi_Name item)), ty item)) request)" using Cons.prems by (intro Cons.IH) simp
  ultimately show ?case using Cons.prems [of item] by (simp add: item Let_def del: getFieldReflectType.simps)
qed simp

text \<open>
  A request whose fields have basic types yields the structure with these fields in order, and panics if a name is not exported after its first letter was raised or if two
  names differ only in case.
\<close>

lemma view_basic:
  fixes L :: "'v viewer_lib"
  assumes "\<And>item. item \<in> set request \<Longrightarrow> vi_Name item \<noteq> [] \<and> map_of basic_types (vi_Type item) = Some (ty item)"
  defines "names \<equiv> map (\<lambda>item. lv_Title L (lv_ToLower L (vi_Name item))) request"
  shows "getStructReflectType L request = (if list_all (lv_Exported L) names \<and> distinct names then Ok (RStruct (zip names (map ty request))) else Panic)"
proof -
  have "map (\<lambda>item. (lv_Title L (lv_ToLower L (vi_Name item)), ty item)) request = zip names (map ty request)"
    unfolding names_def by (induction request) simp_all
  then show ?thesis using struct_fields_basic [of request ty L] assms(1) by (simp add: getStructReflectType_def StructOf_def names_def)
qed

text \<open>A query for data of a module at an address that is shorter than 20 bytes panics instead of reporting an error.\<close>

lemma short_address_panics: "length (lq_Address request @ lq_Spare request) < 20 \<Longrightarrow> queryLcsView L M ctx request st = Panic"
  by (simp add: queryLcsView_def Bech32ToLibra_def)

end
