(* ===== verification/Rest.thy ===== *)
theory Rest
  imports Queriers VM_View
begin

text \<open>
  The REST interface of the modules (\<open>client/rest/rest.go\<close>): a handler reads a request, sends a query to the node or generates a transaction, and writes responses.
\<close>

section \<open>Handlers\<close>

text \<open>
  What a handler wrote, in order; a correct one writes once. A transaction is generated by the SDK from the sanitised base request and a message. The value \<open>None\<close> of a
  handler is a panic, after which the server writes nothing.
\<close>

datatype ('b, 'm) rest_write = RestError nat | RestAnswer bytes | RestTx 'b 'm

type_synonym ('b, 'm) rest_writes = "('b, 'm) rest_write list option"

text \<open>Parameters of the query string, variables of the path (empty if missing), body.\<close>

record http_request =
  rq_Query :: "string \<Rightarrow> string"
  rq_Vars :: "string \<Rightarrow> string"
  rq_Body :: bytes

text \<open>
  The SDK: \<open>rl_Sanitize\<close> and \<open>rl_ValidateBasic\<close> of base requests, where the latter writes its own error with a status, the sender, the height of a query, and
  the status that \<open>ReadRESTReq\<close> writes when it cannot read a body. The codec that reads bodies is an argument of the handlers.
\<close>

record 'b rest_lib =
  rl_Sanitize :: "'b \<Rightarrow> 'b"
  rl_ValidateBasic :: "'b \<Rightarrow> nat option"
  rl_From :: "'b \<Rightarrow> string"
  rl_ParseQueryHeight :: "http_request \<Rightarrow> nat + int"
  rl_ReadFailure :: nat
  rl_CoinString :: "coin \<Rightarrow> string"

definition StatusBadRequest :: nat where "StatusBadRequest = 400"
definition StatusNotFound :: nat where "StatusNotFound = 404"
definition StatusInternalServerError :: nat where "StatusInternalServerError = 500"

text \<open>The steps the handlers share: a parameter that is parsed, a body that is read, the base request with its sender, a query, a message.\<close>

definition with_param :: "('e, 'a) res \<Rightarrow> ('a \<Rightarrow> ('b, 'm) rest_writes) \<Rightarrow> ('b, 'm) rest_writes" where
  "with_param r f = (case r of Ok x \<Rightarrow> f x | Err _ \<Rightarrow> Some [RestError StatusBadRequest] | Panic \<Rightarrow> None)"

definition with_body :: "'b rest_lib \<Rightarrow> (bytes \<Rightarrow> 'r option) \<Rightarrow> http_request \<Rightarrow> ('r \<Rightarrow> ('b, 'm) rest_writes) \<Rightarrow> ('b, 'm) rest_writes" where
  "with_body R decode r f =
     (case decode (rq_Body r) of None \<Rightarrow> Some [RestError (rl_ReadFailure R), RestError StatusBadRequest] | Some req \<Rightarrow> f req)"

definition with_base :: "'b rest_lib \<Rightarrow> cli_lib \<Rightarrow> 'b \<Rightarrow> ('b \<Rightarrow> bytes \<Rightarrow> ('b, 'm) rest_writes) \<Rightarrow> ('b, 'm) rest_writes" where
  "with_base R C base f =
     (let baseReq = rl_Sanitize R base in
      case rl_ValidateBasic R baseReq of
        Some status \<Rightarrow> Some [RestError status]
      | None \<Rightarrow> with_param (ParseSdkAddressParam C ''from'' (rl_From R baseReq) ParamTypeRestRequest) (f baseReq))"

definition with_height :: "'b rest_lib \<Rightarrow> http_request \<Rightarrow> (int \<Rightarrow> ('b, 'm) rest_writes) \<Rightarrow> ('b, 'm) rest_writes" where
  "with_height R r f = (case rl_ParseQueryHeight R r of Inl status \<Rightarrow> Some [RestError status] | Inr height \<Rightarrow> f height)"

definition answer_query :: "nat \<Rightarrow> bytes option \<Rightarrow> ('b, 'm) rest_writes" where
  "answer_query status res = Some [case res of None \<Rightarrow> RestError status | Some bz \<Rightarrow> RestAnswer bz]"

definition send_msg :: "('e, unit) res \<Rightarrow> 'b \<Rightarrow> 'm \<Rightarrow> ('b, 'm) rest_writes" where
  "send_msg valid baseReq msg = with_param valid (\<lambda>_. Some [RestTx baseReq msg])"

section \<open>Orders\<close>

record 'b PostOrderReq =
  por_BaseReq :: 'b
  por_AssetCode :: AssetCode
  por_Direction :: Direction
  por_Price :: string
  por_Quantity :: string
  por_TtlInSec :: string

record 'b RevokeOrderReq =
  ror_BaseReq :: 'b
  ror_OrderID :: string

definition getOrdersWithParams :: "sdk \<Rightarrow> cli_lib \<Rightarrow> (string \<Rightarrow> OrdersReq \<Rightarrow> bytes option) \<Rightarrow> http_request \<Rightarrow> ('b, 'm) rest_writes" where
  "getOrdersWithParams S C query r =
     with_param (ParsePaginationParams S C (rq_Query r ''page'') (rq_Query r ''limit'') ParamTypeRestQuery) (\<lambda>(page, limit).
       let ownerFilterStr = rq_Query r ''owner'' in
       case (if ownerFilterStr \<noteq> [] then cl_AccAddressFromBech32 C ownerFilterStr else Some []) of
         None \<Rightarrow> Some [RestError StatusBadRequest]
       | Some ownerFilter \<Rightarrow>
           answer_query StatusInternalServerError (query ''custom/orders/list''
             \<lparr>or_Page = page, or_Limit = limit, or_Owner = ownerFilter, or_Direction = rq_Query r ''direction'', or_MarketID = rq_Query r ''marketID''\<rparr>))"

definition getOrder :: "sdk \<Rightarrow> (string \<Rightarrow> ID \<Rightarrow> bytes option) \<Rightarrow> http_request \<Rightarrow> ('b, 'm) rest_writes" where
  "getOrder S query r =
     with_param (ParseDnIDParam S ''orderID'' (rq_Vars r ''orderID'') ParamTypeRestPath) (\<lambda>i.
       answer_query StatusInternalServerError (query ''custom/orders/order'' i))"

definition postOrder :: "sdk \<Rightarrow> 'b rest_lib \<Rightarrow> cli_lib \<Rightarrow> (bytes \<Rightarrow> 'b PostOrderReq option) \<Rightarrow> http_request \<Rightarrow> ('b, MsgPostOrder) rest_writes" where
  "postOrder S R C decode r =
     with_body R decode r (\<lambda>req. with_base R C (por_BaseReq req) (\<lambda>baseReq fromAddr.
       with_param (AssetCode_Validate (por_AssetCode req)) (\<lambda>_.
       if \<not> Direction_IsValid (por_Direction req) then Some [RestError StatusBadRequest]
       else
         with_param (ParseSdkUintParam S C ''price'' (por_Price req) ParamTypeRestRequest) (\<lambda>price.
         with_param (ParseSdkUintParam S C ''quantity'' (por_Quantity req) ParamTypeRestRequest) (\<lambda>quantity.
         with_param (ParseUint64Param ''ttl_in_sec'' (por_TtlInSec req) ParamTypeRestRequest) (\<lambda>ttl.
         let msg = \<lparr>mpo_Owner = fromAddr, mpo_AssetCode = por_AssetCode req, mpo_Direction = por_Direction req, mpo_Price = price,
                    mpo_Quantity = quantity, mpo_TtlInSec = ttl\<rparr> in
         send_msg (MsgPostOrder_ValidateBasic msg) baseReq msg))))))"

definition revokeOrder :: "sdk \<Rightarrow> 'b rest_lib \<Rightarrow> cli_lib \<Rightarrow> (bytes \<Rightarrow> 'b RevokeOrderReq option) \<Rightarrow> http_request \<Rightarrow> ('b, MsgRevokeOrder) rest_writes" where
  "revokeOrder S R C decode r =
     with_body R decode r (\<lambda>req. with_base R C (ror_BaseReq req) (\<lambda>baseReq fromAddr.
       with_param (ParseDnIDParam S ''order_id'' (ror_OrderID req) ParamTypeRestRequest) (\<lambda>i.
       let msg = \<lparr>mro_Owner = fromAddr, mro_OrderID = Some i\<rparr> in send_msg (MsgRevokeOrder_ValidateBasic msg) baseReq msg)))"

section \<open>Markets and validators\<close>

definition getMarketsWithParams :: "sdk \<Rightarrow> cli_lib \<Rightarrow> (string \<Rightarrow> MarketsReq \<Rightarrow> bytes option) \<Rightarrow> http_request \<Rightarrow> ('b, 'm) rest_writes" where
  "getMarketsWithParams S C query r =
     with_param (ParsePaginationParams S C (rq_Query r ''page'') (rq_Query r ''limit'') ParamTypeRestQuery) (\<lambda>(page, limit).
       answer_query StatusInternalServerError (query ''custom/markets/list''
         \<lparr>mr_Page = page, mr_Limit = limit, mr_BaseAssetDenom = rq_Query r ''baseAssetDenom'', mr_QuoteAssetDenom = rq_Query r ''quoteAssetDenom'', mr_AssetCode = []\<rparr>))"

definition getMarket :: "sdk \<Rightarrow> (string \<Rightarrow> ID \<Rightarrow> bytes option) \<Rightarrow> http_request \<Rightarrow> ('b, 'm) rest_writes" where
  "getMarket S query r =
     with_param (ParseDnIDParam S ''marketID'' (rq_Vars r ''marketID'') ParamTypeRestPath) (\<lambda>i.
       answer_query StatusInternalServerError (query ''custom/markets/market'' i))"

definition getValidators :: "(string \<Rightarrow> bytes option) \<Rightarrow> ('b, 'm) rest_writes" where
  "getValidators query = answer_query StatusInternalServerError (query ''custom/poa/validators'')"

section \<open>Currencies\<close>

record 'b SubmitIssueReq =
  sir_BaseReq :: 'b
  sir_ID :: string
  sir_Coin :: coin
  sir_Payee :: string

record 'b UnstakeReq =
  usr_BaseReq :: 'b
  usr_ID :: string
  usr_Staker :: string

record 'b WithdrawReq =
  wdr_BaseReq :: 'b
  wdr_Coin :: coin
  wdr_PegZonePayee :: string
  wdr_PegZoneChainID :: string

definition getCurrency :: "(string \<Rightarrow> string \<Rightarrow> bytes option) \<Rightarrow> http_request \<Rightarrow> ('b, 'm) rest_writes" where
  "getCurrency query r = answer_query StatusInternalServerError (query ''custom/currencies/currency'' (rq_Vars r ''denom''))"

definition getCurrencies :: "(string \<Rightarrow> bytes option) \<Rightarrow> ('b, 'm) rest_writes" where
  "getCurrencies query = answer_query StatusInternalServerError (query ''custom/currencies/currencies'')"

definition getIssue :: "(string \<Rightarrow> string \<Rightarrow> bytes option) \<Rightarrow> http_request \<Rightarrow> ('b, 'm) rest_writes" where
  "getIssue query r = answer_query StatusInternalServerError (query ''custom/currencies/issue'' (rq_Vars r ''issueID''))"

definition getWithdraws :: "sdk \<Rightarrow> cli_lib \<Rightarrow> (string \<Rightarrow> nat \<times> nat \<Rightarrow> bytes option) \<Rightarrow> http_request \<Rightarrow> ('b, 'm) rest_writes" where
  "getWithdraws S C query r =
     with_param (ParsePaginationParams S C (rq_Query r ''page'') (rq_Query r ''limit'') ParamTypeRestQuery) (\<lambda>(page, limit).
       answer_query StatusInternalServerError (query ''custom/currencies/withdraws'' (page, limit)))"

definition getWithdraw :: "sdk \<Rightarrow> (string \<Rightarrow> ID \<Rightarrow> bytes option) \<Rightarrow> http_request \<Rightarrow> ('b, 'm) rest_writes" where
  "getWithdraw S query r =
     with_param (ParseDnIDParam S ''withdrawID'' (rq_Vars r ''withdrawID'') ParamTypeRestQuery) (\<lambda>i.
       answer_query StatusInternalServerError (query ''custom/currencies/withdraw'' i))"

text \<open>The message of a call, with its route, its type and whether it validates.\<close>

definition cur_call_msg :: "sdk \<Rightarrow> cur_ms_msg \<Rightarrow> cur_ms_msg MsMsg" where
  "cur_call_msg S msg =
     (case msg of
        MsgIssueCurrency i coin payee \<Rightarrow>
          \<lparr>mm_Route = ''currencies'', mm_Type = ''issue_currency'', mm_Valid = (MsgIssueCurrency_ValidateBasic S i coin payee = Ok ()), mm_Data = msg\<rparr>
      | MsgUnstakeCurrency i staker \<Rightarrow>
          \<lparr>mm_Route = ''currencies'', mm_Type = ''unstake_currency'', mm_Valid = (MsgUnstakeCurrency_ValidateBasic i staker = Ok ()), mm_Data = msg\<rparr>)"

definition submitIssue ::
  "sdk \<Rightarrow> 'b rest_lib \<Rightarrow> cli_lib \<Rightarrow> (bytes \<Rightarrow> 'b SubmitIssueReq option) \<Rightarrow> http_request \<Rightarrow> ('b, cur_ms_msg ms_msg) rest_writes" where
  "submitIssue S R C decode r =
     with_body R decode r (\<lambda>req. with_base R C (sir_BaseReq req) (\<lambda>baseReq fromAddr.
       with_param (ParseCoinParam S C ''coin'' (rl_CoinString R (sir_Coin req)) ParamTypeRestRequest) (\<lambda>coin.
       with_param (ParseSdkAddressParam C ''payee'' (sir_Payee req) ParamTypeRestRequest) (\<lambda>payeeAddr.
       let issueID = sir_ID req; msg = cur_call_msg S (MsgIssueCurrency issueID coin payeeAddr) in
       with_param (MsgIssueCurrency_ValidateBasic S issueID coin payeeAddr) (\<lambda>_.
       send_msg (MsgSubmitCall_ValidateBasic msg issueID fromAddr) baseReq (MsgSubmitCall msg issueID fromAddr))))))"

definition submitUnstake ::
  "sdk \<Rightarrow> 'b rest_lib \<Rightarrow> cli_lib \<Rightarrow> (bytes \<Rightarrow> 'b UnstakeReq option) \<Rightarrow> http_request \<Rightarrow> ('b, cur_ms_msg ms_msg) rest_writes" where
  "submitUnstake S R C decode r =
     with_body R decode r (\<lambda>req. with_base R C (usr_BaseReq req) (\<lambda>baseReq fromAddr.
       with_param (ParseSdkAddressParam C ''staker'' (usr_Staker req) ParamTypeRestRequest) (\<lambda>stakerAddr.
       let issueID = usr_ID req; msg = cur_call_msg S (MsgUnstakeCurrency issueID stakerAddr) in
       with_param (MsgUnstakeCurrency_ValidateBasic issueID stakerAddr) (\<lambda>_.
       send_msg (MsgSubmitCall_ValidateBasic msg issueID fromAddr) baseReq (MsgSubmitCall msg issueID fromAddr)))))"

definition withdraw ::
  "sdk \<Rightarrow> 'b rest_lib \<Rightarrow> cli_lib \<Rightarrow> (bytes \<Rightarrow> 'b WithdrawReq option) \<Rightarrow> http_request \<Rightarrow> ('b, MsgWithdrawCurrency) rest_writes" where
  "withdraw S R C decode r =
     with_body R decode r (\<lambda>req. with_base R C (wdr_BaseReq req) (\<lambda>baseReq fromAddr.
       with_param (ParseCoinParam S C ''coin'' (rl_CoinString R (wdr_Coin req)) ParamTypeRestRequest) (\<lambda>coin.
       let msg = \<lparr>mwc_Coin = coin, mwc_Payer = fromAddr, mwc_PegZonePayee = wdr_PegZonePayee req, mwc_PegZoneChainID = wdr_PegZoneChainID req\<rparr> in
       send_msg (MsgWithdrawCurrency_ValidateBasic S msg) baseReq msg)))"

section \<open>Multi-signatures\<close>

record 'b ConfirmReq =
  cfr_BaseReq :: 'b
  cfr_CallID :: string

definition getCalls :: "(string \<Rightarrow> bytes option) \<Rightarrow> ('b, 'm) rest_writes" where
  "getCalls query = answer_query StatusInternalServerError (query ''custom/multisig/calls'')"

text \<open>The error of the identifier is written and the handler goes on, with the identifier zero.\<close>

definition getCall :: "sdk \<Rightarrow> (string \<Rightarrow> ID \<Rightarrow> bytes option) \<Rightarrow> http_request \<Rightarrow> ('b, 'm) rest_writes" where
  "getCall S query r =
     (let continue = (\<lambda>ws i. map_option ((@) ws) (answer_query StatusInternalServerError (query ''custom/multisig/call'' i))) in
      case ParseDnIDParam S ''callID'' (rq_Vars r ''callID'') ParamTypeRestPath of
        Ok i \<Rightarrow> continue [] i
      | Err _ \<Rightarrow> continue [RestError StatusBadRequest] 0
      | Panic \<Rightarrow> None)"

definition getCallByUnique :: "(string \<Rightarrow> string \<Rightarrow> bytes option) \<Rightarrow> http_request \<Rightarrow> ('b, 'm) rest_writes" where
  "getCallByUnique query r = answer_query StatusInternalServerError (query ''custom/multisig/callByUnique'' (rq_Vars r ''uniqueID''))"

definition confirm :: "sdk \<Rightarrow> 'b rest_lib \<Rightarrow> cli_lib \<Rightarrow> (bytes \<Rightarrow> 'b ConfirmReq option) \<Rightarrow> http_request \<Rightarrow> ('b, 'm ms_msg) rest_writes" where
  "confirm S R C decode r =
     with_body R decode r (\<lambda>req. with_base R C (cfr_BaseReq req) (\<lambda>baseReq fromAddr.
       with_param (ParseDnIDParam S ''call_id'' (cfr_CallID req) ParamTypeRestRequest) (\<lambda>callID.
       send_msg (MsgConfirmCall_ValidateBasic (Some callID) fromAddr) baseReq (MsgConfirmCall callID fromAddr))))"

definition revoke :: "sdk \<Rightarrow> 'b rest_lib \<Rightarrow> cli_lib \<Rightarrow> (bytes \<Rightarrow> 'b ConfirmReq option) \<Rightarrow> http_request \<Rightarrow> ('b, 'm ms_msg) rest_writes" where
  "revoke S R C decode r =
     with_body R decode r (\<lambda>req. with_base R C (cfr_BaseReq req) (\<lambda>baseReq fromAddr.
       with_param (ParseDnIDParam S ''call_id'' (cfr_CallID req) ParamTypeRestRequest) (\<lambda>callID.
       send_msg (MsgRevokeConfirm_ValidateBasic (Some callID) fromAddr) baseReq (MsgRevokeConfirm callID fromAddr))))"

section \<open>Oracle\<close>

record 'b PostPriceReq =
  ppr_BaseReq :: 'b
  ppr_AssetCode :: string
  ppr_AskPrice :: string
  ppr_BidPrice :: string
  ppr_ReceivedAt :: string

definition postPriceHandler :: "'b rest_lib \<Rightarrow> cli_lib \<Rightarrow> (bytes \<Rightarrow> 'b PostPriceReq option) \<Rightarrow> http_request \<Rightarrow> ('b, orc_msg) rest_writes" where
  "postPriceHandler R C decode r =
     with_body R decode r (\<lambda>req. with_base R C (ppr_BaseReq req) (\<lambda>baseReq addr.
       with_param (ParseAssetCodeParam C ''assetCode'' (ppr_AssetCode req) ParamTypeRestRequest) (\<lambda>assetCode.
       with_param (ParseSdkIntParam C ''askPrice'' (ppr_AskPrice req) ParamTypeRestRequest) (\<lambda>askPrice.
       with_param (ParseSdkIntParam C ''bidPrice'' (ppr_BidPrice req) ParamTypeRestRequest) (\<lambda>bidPrice.
       with_param (ParseUnixTimestamp C ''receivedAt'' (ppr_ReceivedAt req) ParamTypeRestRequest) (\<lambda>receivedAt.
       send_msg (MsgPostPrice_ValidateBasic addr assetCode askPrice bidPrice) baseReq (MsgPostPrice addr assetCode askPrice bidPrice receivedAt)))))))"

text \<open>The arguments of these queries are part of the path; the name of the store is given when the routes are registered.\<close>

definition getRawPricesHandler ::
  "'b rest_lib \<Rightarrow> cli_lib \<Rightarrow> string \<Rightarrow> (int \<Rightarrow> string \<Rightarrow> bytes option) \<Rightarrow> http_request \<Rightarrow> ('b, 'm) rest_writes" where
  "getRawPricesHandler R C storeName query r =
     with_param (ParseAssetCodeParam C ''assetCode'' (rq_Vars r ''assetCode'') ParamTypeRestPath) (\<lambda>assetCode.
     with_param (ParseUint64Param ''blockHeight'' (rq_Vars r ''blockHeight'') ParamTypeRestPath) (\<lambda>blockHeight.
     with_height R r (\<lambda>height.
       answer_query StatusNotFound
         (query height (''custom/'' @ storeName @ ''/rawprices/'' @ assetCode @ ''/'' @ dec_digits (unat blockHeight))))))"

definition getCurrentPriceHandler ::
  "'b rest_lib \<Rightarrow> cli_lib \<Rightarrow> string \<Rightarrow> (int \<Rightarrow> string \<Rightarrow> bytes option) \<Rightarrow> http_request \<Rightarrow> ('b, 'm) rest_writes" where
  "getCurrentPriceHandler R C storeName query r =
     with_param (ParseAssetCodeParam C ''assetCode'' (rq_Vars r ''assetCode'') ParamTypeRestPath) (\<lambda>assetCode.
     with_height R r (\<lambda>height. answer_query StatusNotFound (query height (''custom/'' @ storeName @ ''/price/'' @ assetCode))))"

definition getAssetsHandler :: "'b rest_lib \<Rightarrow> string \<Rightarrow> (int \<Rightarrow> string \<Rightarrow> bytes option) \<Rightarrow> http_request \<Rightarrow> ('b, 'm) rest_writes" where
  "getAssetsHandler R storeName query r =
     with_height R r (\<lambda>height. answer_query StatusNotFound (query height (''custom/'' @ storeName @ ''/assets'')))"

section \<open>Virtual machine\<close>

subsection \<open>The compiler\<close>

text \<open>Data of compiled modules (\<open>vm_client/types.go\<close>); the answers of the compiler have the same fields.\<close>

record ModuleTypeField =
  mtf_Name :: string
  mtf_Type :: string

record ModuleType =
  mt_Name :: string
  mt_IsResource :: bool
  mt_TypeParameters :: "string list"
  mt_Field :: "ModuleTypeField list"

record ModuleMethod =
  mth_Name :: string
  mth_IsPublic :: bool
  mth_IsNative :: bool
  mth_TypeParameters :: "string list"
  mth_Arguments :: "string list"
  mth_Returns :: "string list"

record CompiledItem =
  ci_Code :: string
  ci_ByteCode :: bytes
  ci_Name :: string
  ci_Methods :: "ModuleMethod list"
  ci_Types :: "ModuleType list"
  ci_CodeType :: string

record ModuleMeta =
  pm_Functions :: "ModuleMethod list"
  pm_Types :: "ModuleType list"

text \<open>
  The compiler is a server: whether it can be reached, its answer for source files and the address of their account (compiled units with their names, and errors), and the
  metadata of byte code (the types of the arguments of a script, or a module).
\<close>

record compiler =
  cp_Connect :: "string \<Rightarrow> bool"
  cp_Compile :: "(string \<times> string) list \<Rightarrow> bytes \<Rightarrow> ((bytes \<times> string) list \<times> string list) option"
  cp_GetMetadata :: "bytes \<Rightarrow> (int list option \<times> ModuleMeta option) option"

definition ExtractArguments :: "compiler \<Rightarrow> string \<Rightarrow> bytes \<Rightarrow> int list option" where
  "ExtractArguments K addr bytecode =
     (if \<not> cp_Connect K addr then None
      else (case cp_GetMetadata K bytecode of None \<Rightarrow> None | Some (script, _) \<Rightarrow> script))"

definition MatchProtoFields :: "ModuleMeta \<Rightarrow> ModuleType list \<times> ModuleMethod list" where
  "MatchProtoFields meta =
     (map (\<lambda>item. \<lparr>mt_Name = mt_Name item, mt_IsResource = mt_IsResource item, mt_TypeParameters = mt_TypeParameters item,
                   mt_Field = map (\<lambda>f. \<lparr>mtf_Name = mtf_Name f, mtf_Type = mtf_Type f\<rparr>) (mt_Field item)\<rparr>) (pm_Types meta),
      map (\<lambda>item. \<lparr>mth_Name = mth_Name item, mth_IsPublic = mth_IsPublic item, mth_IsNative = mth_IsNative item, mth_TypeParameters = mth_TypeParameters item,
                   mth_Arguments = mth_Arguments item, mth_Returns = mth_Returns item\<rparr>) (pm_Functions meta))"

fun compiled_items :: "compiler \<Rightarrow> (bytes \<times> string) list \<Rightarrow> CompiledItem list option" where
  "compiled_items K [] = Some []"
| "compiled_items K ((bytecode, name) # units) =
     (case cp_GetMetadata K bytecode of
        None \<Rightarrow> None
      | Some (script, module) \<Rightarrow>
          let item = \<lparr>ci_Code = EncodeToString bytecode, ci_ByteCode = bytecode, ci_Name = name, ci_Methods = [], ci_Types = [],
                      ci_CodeType = (if script \<noteq> None then ''script'' else [])\<rparr>;
              item' = (case module of
                         None \<Rightarrow> item
                       | Some meta \<Rightarrow>
                           let (types, methods) = MatchProtoFields meta in item\<lparr>ci_CodeType := ''module'', ci_Types := types, ci_Methods := methods\<rparr>) in
          map_option (Cons item') (compiled_items K units))"

definition Compile :: "compiler \<Rightarrow> string \<Rightarrow> (string \<times> string) list \<Rightarrow> bytes \<Rightarrow> CompiledItem list option" where
  "Compile K addr sourceUnits address =
     (if \<not> cp_Connect K addr then None
      else (case cp_Compile K sourceUnits address of
              None \<Rightarrow> None
            | Some (units, errors) \<Rightarrow> if 0 < length errors then None else compiled_items K units))"

subsection \<open>Requests\<close>

record CompileReq =
  cmr_Code :: string
  cmr_Account :: string

record 'b ExecuteScriptReq =
  esr_BaseReq :: 'b
  esr_MoveCode :: string
  esr_MoveArgs :: "string list"

record 'b PublishModuleReq =
  pmr_BaseReq :: 'b
  pmr_MoveCode :: "string list"

record RestLcsViewReq =
  rlv_Account :: string
  rlv_MovePath :: string
  rlv_ViewRequest :: string

text \<open>Answers are printed by \<open>json\<close>.\<close>

definition compile ::
  "'b rest_lib \<Rightarrow> cli_lib \<Rightarrow> compiler \<Rightarrow> string \<Rightarrow> (bytes \<Rightarrow> CompileReq option) \<Rightarrow> (CompiledItem list \<Rightarrow> bytes) \<Rightarrow> http_request \<Rightarrow> ('b, 'm) rest_writes" where
  "compile R C K compilerAddr decode json r =
     with_body R decode r (\<lambda>req.
       with_param (ParseSdkAddressParam C ''address'' (cmr_Account req) ParamTypeRestRequest) (\<lambda>address.
       answer_query StatusInternalServerError
         (map_option json (Compile K compilerAddr [(cmr_Code req, ''CompilationUnit'')] (Bech32ToLibra address)))))"

definition getData ::
  "'b rest_lib \<Rightarrow> cli_lib \<Rightarrow> (int \<Rightarrow> string \<Rightarrow> bytes \<times> bytes \<Rightarrow> bytes option) \<Rightarrow> (string \<Rightarrow> bytes) \<Rightarrow> http_request \<Rightarrow> ('b, 'm) rest_writes" where
  "getData R C query json r =
     with_height R r (\<lambda>height.
     with_param (ParseSdkAddressParam C ''accountAddr'' (rq_Vars r ''accountAddr'') ParamTypeRestPath) (\<lambda>address.
     with_param (ParseHexStringParam ''vmPath'' (rq_Vars r ''vmPath'') ParamTypeRestPath) (\<lambda>(_, pth).
       answer_query StatusInternalServerError
         (map_option (\<lambda>res. json (EncodeToString res)) (query height ''custom/vm/value'' (Bech32ToLibra address, pth))))))"

text \<open>\<open>strings.Split\<close> at the separator \<open>::\<close>; \<open>strings.Count\<close> is one less than the number of parts.\<close>

fun split_colons :: "string \<Rightarrow> string list" where
  "split_colons [] = [[]]"
| "split_colons [c] = [[c]]"
| "split_colons (c # d # cs) =
     (if c = CHR '':'' \<and> d = CHR '':'' then [] # split_colons cs
      else (case split_colons (d # cs) of w # ws \<Rightarrow> (c # w) # ws | [] \<Rightarrow> [[c]]))"

definition lcsView ::
  "'b rest_lib \<Rightarrow> cli_lib \<Rightarrow> (bytes \<Rightarrow> RestLcsViewReq option) \<Rightarrow> (string \<Rightarrow> ViewerRequest option) \<Rightarrow>
   (string \<Rightarrow> bytes \<times> string \<times> string \<times> ViewerRequest \<Rightarrow> bytes option) \<Rightarrow> (string \<Rightarrow> bytes) \<Rightarrow> http_request \<Rightarrow> ('b, 'm) rest_writes" where
  "lcsView R C decode ViewerRequest_un query json r =
     with_body R decode r (\<lambda>req.
       with_param (ParseSdkAddressParam C ''address'' (rlv_Account req) ParamTypeRestRequest) (\<lambda>address.
       let parts = split_colons (rlv_MovePath req); moveSepCnt = length parts - 1 in
       if 1 < moveSepCnt then Some [RestError StatusBadRequest]
       else
         let (moduleName, structName) = (if moveSepCnt = 1 then (parts ! 0, parts ! 1) else (rlv_MovePath req, [])) in
         (case ViewerRequest_un (rlv_ViewRequest req) of
            None \<Rightarrow> Some [RestError StatusBadRequest]
          | Some viewRequest \<Rightarrow>
              answer_query StatusInternalServerError (map_option json (query ''custom/vm/lcsView'' (address, moduleName, structName, viewRequest))))))"

text \<open>The answer to the query of a transaction is an error message, or the logs of the transaction (\<open>None\<close> if it is empty).\<close>

definition str_contains :: "string \<Rightarrow> string \<Rightarrow> bool" where
  "str_contains str sub \<longleftrightarrow> list_ex (\<lambda>i. take (length sub) (drop i str) = sub) [0..<Suc (length str)]"

definition getTxVMStatus ::
  "'b rest_lib \<Rightarrow> (int \<Rightarrow> string \<Rightarrow> string + sdk_event list list option) \<Rightarrow> (VMStatus list \<Rightarrow> bytes) \<Rightarrow> http_request \<Rightarrow> ('b, 'm) rest_writes" where
  "getTxVMStatus R QueryTx json r =
     (let txHash = rq_Vars r ''txHash'' in
      with_height R r (\<lambda>height.
        case QueryTx height txHash of
          Inl err \<Rightarrow> Some [RestError (if str_contains err txHash then StatusNotFound else StatusInternalServerError)]
        | Inr None \<Rightarrow> Some [RestError StatusNotFound]
        | Inr (Some logs) \<Rightarrow> Some [RestAnswer (json (NewVMStatusFromABCILogs logs))]))"

definition executeScript ::
  "sdk \<Rightarrow> 'b rest_lib \<Rightarrow> cli_lib \<Rightarrow> vm_tags \<Rightarrow> (int \<Rightarrow> bool) \<Rightarrow> compiler \<Rightarrow> string \<Rightarrow> (bytes \<Rightarrow> 'b ExecuteScriptReq option) \<Rightarrow> http_request \<Rightarrow>
   ('b, MsgExecuteScript) rest_writes" where
  "executeScript S R C T tags K compilerAddr decode r =
     with_body R decode r (\<lambda>req. with_base R C (esr_BaseReq req) (\<lambda>baseReq fromAddr.
       with_param (ParseHexStringParam ''move_code'' (esr_MoveCode req) ParamTypeRestRequest) (\<lambda>(_, code).
       case ExtractArguments K compilerAddr code of
         None \<Rightarrow> Some [RestError StatusBadRequest]
       | Some typedArgs \<Rightarrow>
           with_param (ConvertStringScriptArguments S C T (esr_MoveArgs req) typedArgs) (\<lambda>scriptArgs.
           let msg = \<lparr>ms_Signer = fromAddr, ms_Script = code, ms_Args = scriptArgs\<rparr> in
           send_msg (MsgExecuteScript_ValidateBasic tags msg) baseReq msg))))"

fun parse_contracts :: "string list \<Rightarrow> (param_error, bytes list) res" where
  "parse_contracts [] = Ok []"
| "parse_contracts (code # codes) =
     bind_res (ParseHexStringParam ''move_code'' code ParamTypeRestRequest) (\<lambda>(_, contract).
     bind_res (parse_contracts codes) (\<lambda>contracts. Ok (contract # contracts)))"

definition deployModule :: "'b rest_lib \<Rightarrow> cli_lib \<Rightarrow> (bytes \<Rightarrow> 'b PublishModuleReq option) \<Rightarrow> http_request \<Rightarrow> ('b, MsgDeployModule) rest_writes" where
  "deployModule R C decode r =
     with_body R decode r (\<lambda>req. with_base R C (pmr_BaseReq req) (\<lambda>baseReq fromAddr.
       with_param (parse_contracts (pmr_MoveCode req)) (\<lambda>contracts.
       let msg = \<lparr>md_Signer = fromAddr, md_Module = contracts\<rparr> in
       send_msg (MsgDeployModule_ValidateBasic msg) baseReq msg)))"

section \<open>What the handlers write\<close>

text \<open>A handler that generates a transaction writes nothing else, and the message satisfies a condition.\<close>

definition txs_satisfy :: "('b \<Rightarrow> 'm \<Rightarrow> bool) \<Rightarrow> ('b, 'm) rest_writes \<Rightarrow> bool" where
  "txs_satisfy P ws \<longleftrightarrow> (\<forall>l b m. ws = Some l \<longrightarrow> RestTx b m \<in> set l \<longrightarrow> l = [RestTx b m] \<and> P b m)"

named_theorems txs_intros

lemma txs_error [txs_intros]: "txs_satisfy P (Some [RestError n])"
  by (simp add: txs_satisfy_def)

lemma txs_param [txs_intros]: "(\<And>x. r = Ok x \<Longrightarrow> txs_satisfy P (f x)) \<Longrightarrow> txs_satisfy P (with_param r f)"
  by (auto simp: with_param_def txs_satisfy_def split: res.splits)

lemma txs_body [txs_intros]: "(\<And>req. txs_satisfy P (f req)) \<Longrightarrow> txs_satisfy P (with_body R decode r f)"
  by (auto simp: with_body_def txs_satisfy_def split: option.splits)

lemma address_nonempty: "ParseSdkAddressParam C n v t = Ok a \<Longrightarrow> a \<noteq> []"
  by (auto simp: ParseSdkAddressParam_def Let_def split: if_splits)

lemma txs_base [txs_intros]: "(\<And>baseReq from. from \<noteq> [] \<Longrightarrow> txs_satisfy P (f baseReq from)) \<Longrightarrow> txs_satisfy P (with_base R C base f)"
  using address_nonempty by (fastforce simp: with_base_def Let_def intro: txs_param txs_error split: option.splits)

lemma txs_msg [txs_intros]: "(v = Ok () \<Longrightarrow> P b m) \<Longrightarrow> txs_satisfy P (send_msg v b m)"
  by (auto simp: send_msg_def with_param_def txs_satisfy_def split: res.splits)

lemma txs_if [txs_intros]: "\<lbrakk>c \<Longrightarrow> txs_satisfy P x; \<not> c \<Longrightarrow> txs_satisfy P y\<rbrakk> \<Longrightarrow> txs_satisfy P (if c then x else y)"
  by simp

text \<open>The messages of all transactions validate, also those that calls carry.\<close>

theorem rest_transactions_valid:
  shows "txs_satisfy (\<lambda>_ m. MsgPostOrder_ValidateBasic m = Ok ()) (postOrder S R C d1 r)"
    and "txs_satisfy (\<lambda>_ m. MsgRevokeOrder_ValidateBasic m = Ok ()) (revokeOrder S R C d2 r)"
    and "txs_satisfy (\<lambda>_ m. case m of MsgSubmitCall cm u a \<Rightarrow> MsgSubmitCall_ValidateBasic cm u a = Ok () | _ \<Rightarrow> False) (submitIssue S R C d3 r)"
    and "txs_satisfy (\<lambda>_ m. case m of MsgSubmitCall cm u a \<Rightarrow> MsgSubmitCall_ValidateBasic cm u a = Ok () | _ \<Rightarrow> False) (submitUnstake S R C d4 r)"
    and "txs_satisfy (\<lambda>_ m. case m of MsgConfirmCall i a \<Rightarrow> MsgConfirmCall_ValidateBasic (Some i) a = Ok () | _ \<Rightarrow> False) (confirm S R C d9 r)"
    and "txs_satisfy (\<lambda>_ m. case m of MsgRevokeConfirm i a \<Rightarrow> MsgRevokeConfirm_ValidateBasic (Some i) a = Ok () | _ \<Rightarrow> False) (revoke S R C d10 r)"
    and "txs_satisfy (\<lambda>_ m. MsgWithdrawCurrency_ValidateBasic S m = Ok ()) (withdraw S R C d5 r)"
    and "txs_satisfy (\<lambda>_ m. orc_msg_valid m = Ok ()) (postPriceHandler R C d6 r)"
    and "txs_satisfy (\<lambda>_ m. MsgExecuteScript_ValidateBasic tags m = Ok ()) (executeScript S R C T tags K addr d7 r)"
    and "txs_satisfy (\<lambda>_ m. MsgDeployModule_ValidateBasic m = Ok ()) (deployModule R C d8 r)"
  unfolding postOrder_def revokeOrder_def submitIssue_def submitUnstake_def confirm_def revoke_def withdraw_def postPriceHandler_def executeScript_def deployModule_def Let_def
  by (auto intro!: txs_intros split: option.splits prod.splits)

text \<open>
  A request to post an order with decimal numbers generates the transaction with exactly these numbers.
\<close>

theorem rest_post_order:
  assumes laws: "uint_laws S" "cli_laws C" and req: "d (rq_Body r) = Some req" and base: "rl_ValidateBasic R (rl_Sanitize R (por_BaseReq req)) = None"
    and addr: "cl_AccAddressFromBech32 C (rl_From R (rl_Sanitize R (por_BaseReq req))) = Some a" "a \<noteq> []"
    and num: "por_Price req = dec_digits p" "por_Quantity req = dec_digits q" "por_TtlInSec req = dec_digits t" "0 < p" "p < 2 ^ 255" "0 < q" "q < 2 ^ 255" "0 < t" "t < 2 ^ 64"
    and valid: "AssetCode_Validate (por_AssetCode req) = Ok ()" "Direction_IsValid (por_Direction req)"
  shows "postOrder S R C d r = Some [RestTx (rl_Sanitize R (por_BaseReq req))
    \<lparr>mpo_Owner = a, mpo_AssetCode = por_AssetCode req, mpo_Direction = por_Direction req, mpo_Price = p, mpo_Quantity = q, mpo_TtlInSec = of_nat t\<rparr>]"
proof -
  have "ParseSdkAddressParam C ''from'' (rl_From R (rl_Sanitize R (por_BaseReq req))) ParamTypeRestRequest = Ok a"
    using addr by (simp add: ParseSdkAddressParam_def)
  moreover have "(of_nat t :: 64 word) \<noteq> 0" using num(8,9) unat64 [of t] by (metis less_not_refl unat_0)
  ultimately show ?thesis
    using req base addr(2) num valid
    by (simp add: postOrder_def with_body_def with_base_def with_param_def send_msg_def parse_uint_exact [OF laws] ParseUint64Param_def MsgPostOrder_ValidateBasic_def Let_def)
qed

text \<open>
  A call that is asked for by a string which is no identifier is answered twice: with the error, and then with the answer for the call zero.
\<close>

lemma rest_call_answers_twice:
  "NewIDFromString S (rq_Vars r ''callID'') = Err e \<Longrightarrow> query ''custom/multisig/call'' 0 = Some bz \<Longrightarrow>
    getCall S query r = Some [RestError 400, RestAnswer bz]"
  by (simp add: getCall_def ParseDnIDParam_def answer_query_def StatusBadRequest_def)

text \<open>A price with a reception time of more than 64 bits makes the handler panic.\<close>

lemma rest_price_panics:
  assumes "cli_laws C" "d (rq_Body r) = Some req" "rl_ValidateBasic R (rl_Sanitize R (ppr_BaseReq req)) = None"
    and "cl_AccAddressFromBech32 C (rl_From R (rl_Sanitize R (ppr_BaseReq req))) = Some a" "a \<noteq> []" "AssetCode_Validate (cl_ToLower C (ppr_AssetCode req)) = Ok ()"
    and "ppr_AskPrice req = dec_digits p" "ppr_BidPrice req = dec_digits q" "p < 2 ^ 255" "q < 2 ^ 255" "ppr_ReceivedAt req = dec_digits t" "2 ^ 63 \<le> t" "t < 2 ^ 255"
  shows "postPriceHandler R C d r = None"
proof -
  have "ParseUnixTimestamp C ''receivedAt'' (dec_digits t) ParamTypeRestRequest = Panic" using assms(1,12,13) by (rule parse_timestamp_panics)
  then show ?thesis using assms
    by (simp add: postPriceHandler_def with_body_def with_base_def with_param_def ParseSdkAddressParam_def ParseAssetCodeParam_def ParseSdkIntParam_def cli_laws_def Let_def)
qed

end
