(* ===== verification/Spec2Isabelle.thy ===== *)
theory Spec2Isabelle
  imports OB_History Ms_Props Currencies_Props Oracle_Props VM_Gov Ante GenAccounts BaseApp_Props ZeroHeight_Props AppConfig Rest
begin

text \<open>
  Verification development of dnode, a blockchain node built on the Cosmos SDK (Go, directories \<open>x/\<close>, \<open>helpers/\<close> and \<open>app/\<close> of the repository).

  \<^bold>\<open>The program.\<close> The node is a set of modules over key-value stores. Transactions carry messages; the handler of a module
  changes its store and may call the keepers of other modules; at the end of every block some modules run over their store. A
  transaction that fails leaves no trace, a panic at the end of a block stops the chain.

  \<^item> \<open>x/poa\<close> keeps the validators, \<open>x/multisig\<close> collects their confirmations for calls and executes a call at the end of a block
    once a majority confirmed it. Calls carry messages of \<open>x/poa\<close> (add, remove, replace a validator) and \<open>x/currencies\<close>
    (issue, unstake), routed by \<open>x/core/msmodule\<close>.
  \<^item> \<open>x/ccstorage\<close> is the registry of currencies with a copy of each currency and of the balances in the storage of the
    virtual machine (\<open>x/common_vm\<close>, \<open>x/vm\<close>); \<open>x/currencies\<close> issues and withdraws currencies.
  \<^item> \<open>x/markets\<close> holds pairs of currencies, \<open>x/orders\<close> the orders on them with the coins they lock, \<open>x/orderbook\<close> matches the
    orders of all markets at the end of a block and pays out the fills.
  \<^item> \<open>x/oracle\<close> collects prices from oracles and publishes their median.
  \<^item> \<open>x/vm\<close> sends scripts and modules to the virtual machine, a server reached over the network, applies the write sets it answers with, serves the storage to it,
    and executes updates of its standard library that governance planned for a block.
  \<^item> \<open>x/vmauth\<close> wraps the account keeper of the SDK so that coins of accounts and balances in the virtual machine agree; the decorators of \<open>x/core\<close>, which check and charge
    every transaction, and the genesis accounts of \<open>x/genaccounts\<close> work on it.
  \<^item> \<open>app/\<close> runs the modules under the consensus engine: it begins, ends and commits blocks, delivers, checks and simulates transactions, and answers queries. It gives the keepers their permissions, refuses some messages, and
    prepares the genesis of a chain that is started again (\<open>export.go\<close>): modules are squashed, and accounts are paid what they are short of in the bonding token.

  \<^bold>\<open>Theories.\<close> Names follow the code; \<open>Module_Operation\<close> is used where two modules have an operation of the same name.

  \<^item> \<open>Prelude\<close>: results (\<open>Ok\<close>, \<open>Err\<close>, \<open>Panic\<close>), operations as state transformers, \<open>atomically\<close> for a message that is rolled back unless it
    succeeds, byte strings, big-endian numbers, decimal numbers, time.
  \<^item> \<open>KVStore\<close>: a store is a list of entries sorted by key, as the iterators see it; the locale \<open>key_value_store\<close> (interpreted by \<open>kvs\<close>),
    and \<open>id_registry\<close> for modules that number their objects (interpreted for markets, orders and planned proposals).
  \<^item> \<open>Cosmos\<close>: what the code uses of the SDK, as parameters: numbers of bounded width, decimals with 18 places, the bank.
  \<^item> \<open>DnTypes\<close> (\<open>helpers/\<close>): identifiers, string filters, asset codes, big integers as bytes, pagination, module permissions.
  \<^item> \<open>CommonVM\<close>: keys and values of the virtual machine storage; the locale \<open>vm_storage\<close> is the interface the other keepers use.
  \<^item> \<open>CCStorage\<close>, \<open>Markets\<close>, \<open>Orders\<close> with \<open>Orders_Props\<close>.
  \<^item> \<open>OB_Aggregates\<close>, \<open>OB_Curves\<close>, \<open>OB_Clearance\<close>, \<open>OB_Matcher\<close>: the matching of one market (\<open>order_aggs.go\<close>, \<open>pq_curves.go\<close>, \<open>matcher.go\<close>);
    \<open>OrderBook\<close>: the pool of matchers, the end of a block, history and genesis; \<open>OB_Props\<close>, \<open>OB_History\<close>.
  \<^item> \<open>Poa\<close>, with the locale \<open>quorum\<close>; \<open>Multisig\<close> (calls, votes, queue, router, genesis), \<open>Ms_Inv\<close> (invariant), \<open>Ms_Spec\<close> (the abstract life-cycle of calls
    and the simulation), \<open>Ms_EndBlock\<close>, \<open>Ms_Props\<close>.
  \<^item> \<open>Currencies\<close>, and \<open>Currencies_Props\<close> with the locale \<open>supply_registry\<close>, the contract of the registry, interpreted on \<open>CCStorage\<close>.
  \<^item> \<open>Oracle\<close>, \<open>Oracle_Inv\<close>, \<open>Oracle_Props\<close>.
  \<^item> \<open>VM_Types\<close> (answers, event names, statuses, messages, proposals, genesis format), \<open>VM\<close> (requests, execution, governance queue, data source, genesis), \<open>VM_Gas\<close> (the
    gas of event names against a reference over natural numbers), \<open>VM_Props\<close> (attempts, the effect of an answer, genesis), \<open>VM_Gov\<close> (the queue of proposals, its
    identifiers being an \<open>id_registry\<close>).
  \<^item> \<open>VMAuth\<close> (accounts and their balances), \<open>Ante\<close> (the chain of decorators), \<open>GenAccounts\<close>.
  \<^item> \<open>BaseApp\<close> (\<open>app/baseapp.go\<close>, \<open>app/abci.go\<close>): the calls of the consensus engine over one store for all modules, their handlers being parameters; \<open>BaseApp_Props\<close>.
  \<^item> \<open>ZeroHeight\<close> (\<open>app/export.go\<close>, \<open>app/export_v10.go\<close>) and \<open>ZeroHeight_Props\<close>: the genesis of a restarted chain; \<open>AppConfig\<close> (\<open>app/app.go\<close>, \<open>cmd/config/restrictions\<close>,
    the \<open>perms.go\<close> of the modules): permissions, module order, restrictions; \<open>Queriers\<close>: the queries the modules answer (\<open>querier.go\<close>).
  \<^item> Clients: \<open>ClientArgs\<close> (\<open>helpers/input_parsers.go\<close>, \<open>vm_client/args.go\<close>), \<open>VM_View\<close> (the viewer of serialised data, \<open>lcs_viewer.go\<close>, and the queries of \<open>x/vm\<close>), \<open>Rest\<close> (the handlers in
    \<open>client/rest/rest.go\<close> of the modules, and the client of the compiler).

  \<^bold>\<open>Reading the model.\<close> A keeper is a record of its stores; an operation takes the state and returns a result and the new state, every early return, error
  and panic being a branch. \<open>sdk.Uint\<close> is \<open>nat\<close>, \<open>sdk.Int\<close> is \<open>int\<close>, with the panics beyond 256 and 255 bits; an \<open>sdk.Dec\<close> is its
  mantissa. Counters of 16 bits, durations and page numbers of 64 bits are words. Times are nanoseconds since the Unix epoch (\<open>int\<close>). An
  account address is its bytes. Objects are stored as values: the codec is taken to be a bijection on them.
  Loops are recursive functions with termination proofs (the loop over the curve, the binary search and the paginated query among them); no fuel is used. The only loop that may run forever, the attempts of a request to the
  virtual machine, is a partial function whose value \<open>None\<close> is not returning.

  \<^bold>\<open>What is outside.\<close> Code that is not in the repository is a parameter: the SDK (\<open>sdk\<close>, \<open>bank\<close>, \<open>cur_lib\<close>, \<open>staking\<close>), the serialisation and path
  libraries of the virtual machine (\<open>vm_lib\<close>, \<open>orc_lib\<close>, \<open>vm_meta\<close>), the virtual machine itself (\<open>vm_server\<close>) and the gas meters (\<open>gas_lib\<close>), the account keeper of the SDK (\<open>auth_lib\<close>, \<open>gen_lib\<close>), transactions, keys and the decorators of the SDK (\<open>tx_lib\<close>, \<open>ante_lib\<close>), the keepers the export calls (\<open>zh_lib\<close>), the parsers, text functions and requests of the clients (\<open>cli_lib\<close>, \<open>viewer_lib\<close>, \<open>rest_lib\<close>, \<open>compiler\<close>), the decimals of the oracle, the order of Go maps and of unstable sorting. The laws
  the properties use are the predicates \<open>uint_laws\<close>, \<open>int_laws\<close>, \<open>dec_laws\<close>, \<open>bank_laws\<close>, \<open>vm_lib_laws\<close>, \<open>cur_lib_laws\<close>, \<open>orc_laws\<close>, \<open>gas_laws\<close>, \<open>auth_laws\<close>, \<open>auth_key_laws\<close>, \<open>ante_laws\<close>, \<open>gen_laws\<close>, \<open>coin_laws\<close>, \<open>minter_laws\<close>, \<open>cli_laws\<close>,
  each with an instance (\<open>ref_sdk\<close>, \<open>ref_bank\<close>, \<open>ref_vm_lib\<close>, \<open>ref_cur_lib\<close>, \<open>ref_orc_lib\<close>, \<open>ref_gas\<close>, \<open>ref_auth\<close>, \<open>ref_ante\<close>, \<open>ref_gen\<close>, \<open>ref_zero\<close>, \<open>ref_cli\<close>) on which the witnesses run.

  \<^bold>\<open>What is shown.\<close>

  \<^item> Matching: the curves equal cumulative supply and demand; a match fills both sides for the same volume within every order's limits; the
    pool matches exactly the markets that cross; the pro-rata division panics on extreme ratios.
  \<^item> Orders: the module account covers the locked coins in every reachable state, an active order can be revoked, posting and revoking cancel out,
    only the owner cancels, what the end of a block removes; fills are not debited; overflow of the time to live; a genesis that cannot be initialised.
  \<^item> History: range queries are exact and ordered, squashing keeps the latest item of a market, export and initialisation are inverse.
  \<^item> Multi-signatures: messages and ends of blocks refine an abstract life-cycle of calls; a call is executed once, on a majority; the
    stores are consistent; a decided call stays decided; the end of a block completes; calls that lost their last vote; exact condition of the export panic; genesis.
  \<^item> Validators: list, store and counter agree; quorums meet; genesis.
  \<^item> Currencies: supplies of registry, virtual machine and supply module agree; an identifier is issued once; issue and withdraw cancel out; paginated queries terminate and
    are exact; exact condition of the export panic; genesis. The registry equals its copy in the virtual machine; balances round trip.
  \<^item> Markets: fresh identifiers, unique pairs; the conversion from base to quote quantities is the rounded product.
  \<^item> Oracle: a majority of honest oracles determines the price; which posts are accepted; well-formed states agree with the virtual machine.
  \<^item> Virtual machine: which executions succeed and their exact effect on storage, gas and events; the gas of event names and that its 64-bit charges do not wrap around;
    when the attempts of a request end; planned proposals are executed once, in their block and in order; genesis, which loses the queue.
  \<^item> Accounts: an account is read back as it was stored, reading one sets its coins to the balances of the virtual machine (and counts them again in the supply if the SDK did not
    know it); an accepted transaction paid its fee, was signed by all its signers and increments their sequences, and is refused a second time; the accounts of a genesis make up the supplies.
  \<^item> Application: what a node checks, simulates or answers does not influence its blocks; what the delivery of a transaction leaves in the store, also when
    the gas of the block runs out; committed versions follow each other.
  \<^item> Export: the settlement pays every account exactly its shortfall and changes no other balance; the squashed modules.
  \<^item> Wiring: the calls between modules pass the permission checks, and which modules may write where; a delivered transaction has no refused message, a checked one is verified in its first
    message only; the query of calls lists exactly those that wait.
  \<^item> Clients: arguments of scripts have the declared types and widths and stand for the numbers given; transactions generated over REST carry messages that validate, and an order is
    posted with exactly the numbers of the request; which requests panic or are answered twice.

  \<^bold>\<open>Not modelled.\<close> Events, logging and gas of the modelled modules (except in \<open>x/vm\<close>, where they are part of the behaviour); the checks of module permissions inside keeper operations (the checks are in \<open>DnTypes\<close>, what they permit in \<open>AppConfig\<close>);
  of \<open>x/vm\<close> the gRPC transport and the texts printed for debugging; the gas of store accesses; \<open>x/migration\<close>, which applies migrations of the SDK to exported documents;
  in \<open>app/\<close> the construction of the keepers of the SDK and store upgrades; \<open>cmd/\<close> except the restrictions (configuration, generated documentation); command-line clients, which call the parsers of \<open>ClientArgs\<close>; test helpers.
\<close>

end
